(* ===== verification/Prelude.thy ===== *)
theory Prelude
  imports Main "HOL-Library.Word" "HOL-Library.Char_ord"
begin

section \<open>Shared vocabulary: programs over a state, decimal text, strings\<close>

text \<open>
  The prelude holds what every component shares.

  \<^item> A C++ member function is a program \<open>('s, 'a) prog\<close>: it takes the object's state and
    returns (\<open>Ret\<close>), lets an exception escape (\<open>Throws\<close>), or is still waiting for an
    answer of the outside world (\<open>Blocked\<close>). All three carry the state reached, so that a
    property can speak about every point at which the process can be killed.
  \<^item> A small Hoare logic over these programs, whose rules are collected in \<open>prog_rules\<close>.
  \<^item> The decimal text that \<open>boost::lexical_cast\<close> reads and writes, with its round trip.
  \<^item> Joining and splitting of strings at a separator, as the Couchbase keys use it.
\<close>

named_theorems prog_rules \<open>Hoare rules for the program combinators and the operations\<close>
named_theorems prog_run \<open>equations that run a program on a known state\<close>

subsection \<open>Programs\<close>

datatype exn =
    Bad_lexical_cast
  | Ptree_bad_path string
  | Ptree_bad_data string
  | Json_parser_error
  | List_index_out_of_range
  | Map_out_of_range
  | Use_after_destroy

datatype ('s, 'a) outcome = Ret 'a 's | Throws exn 's | Blocked 's

type_synonym ('s, 'a) prog = "'s \<Rightarrow> ('s, 'a) outcome"

definition return :: "'a \<Rightarrow> ('s, 'a) prog" where
  "return a = (\<lambda>s. Ret a s)"

definition andthen :: "('s, 'a) prog \<Rightarrow> ('a \<Rightarrow> ('s, 'b) prog) \<Rightarrow> ('s, 'b) prog" where
  "andthen m f = (\<lambda>s. case m s of
      Ret a s' \<Rightarrow> f a s'
    | Throws e s' \<Rightarrow> Throws e s'
    | Blocked s' \<Rightarrow> Blocked s')"

definition throw :: "exn \<Rightarrow> ('s, 'a) prog" where
  "throw e = (\<lambda>s. Throws e s)"

definition gets :: "('s \<Rightarrow> 'a) \<Rightarrow> ('s, 'a) prog" where
  "gets f = (\<lambda>s. Ret (f s) s)"

definition modify :: "('s \<Rightarrow> 's) \<Rightarrow> ('s, unit) prog" where
  "modify f = (\<lambda>s. Ret () (f s))"

text \<open>Reading the object's own members while running.\<close>

definition reading :: "('s \<Rightarrow> ('s, 'a) prog) \<Rightarrow> ('s, 'a) prog" where
  "reading f = (\<lambda>s. f s s)"

text \<open>A partial result of the standard library: the exception it throws when there is none.\<close>

definition require :: "exn \<Rightarrow> 'a option \<Rightarrow> ('s, 'a) prog" where
  "require e x = (case x of None \<Rightarrow> throw e | Some a \<Rightarrow> return a)"

fun final_state :: "('s, 'a) outcome \<Rightarrow> 's" where
  "final_state (Ret a s) = s"
| "final_state (Throws e s) = s"
| "final_state (Blocked s) = s"

fun returns :: "('s, 'a) outcome \<Rightarrow> bool" where
  "returns (Ret a s) = True"
| "returns _ = False"

lemma andthen_run [prog_run]:
  "m s = Ret a s' \<Longrightarrow> andthen m f s = f a s'"
  "m s = Throws e s' \<Longrightarrow> andthen m f s = Throws e s'"
  "m s = Blocked s' \<Longrightarrow> andthen m f s = Blocked s'"
  by (simp_all add: andthen_def)

lemma basic_run [simp]:
  "return a s = Ret a s"
  "throw e s = Throws e s"
  "gets f s = Ret (f s) s"
  "modify g s = Ret () (g s)"
  "reading h s = h s s"
  by (simp_all add: return_def throw_def gets_def modify_def reading_def)

lemma andthen_basic [simp]:
  "andthen (return a) f s = f a s"
  "andthen (throw e) f s = Throws e s"
  "andthen (gets h) f s = f (h s) s"
  "andthen (modify g) k s = k () (g s)"
  "andthen (reading r) k s = andthen (r s) k s"
  by (simp_all add: andthen_def)

lemma require_run [simp]:
  "require e (Some a) s = Ret a s"
  "require e None s = Throws e s"
  "andthen (require e (Some a)) f s = f a s"
  "andthen (require e None) f s = Throws e s"
  by (simp_all add: require_def andthen_def)

lemma andthen_assoc: "andthen (andthen m f) g = andthen m (\<lambda>a. andthen (f a) g)"
  by (rule ext) (simp add: andthen_def split: outcome.splits)

lemma andthen_Ret_iff:
  "andthen m f s = Ret b t \<longleftrightarrow> (\<exists>a s'. m s = Ret a s' \<and> f a s' = Ret b t)"
  by (simp add: andthen_def split: outcome.splits)

subsection \<open>A Hoare logic: normal return and abnormal end\<close>

text \<open>
  \<open>spec P m Q E\<close>: from a state with \<open>P\<close>, a normal return satisfies \<open>Q\<close>, and whatever else
  happens (exception, or still waiting) leaves a state with \<open>E\<close>.
\<close>

definition spec :: "('s \<Rightarrow> bool) \<Rightarrow> ('s, 'a) prog \<Rightarrow> ('a \<Rightarrow> 's \<Rightarrow> bool) \<Rightarrow> ('s \<Rightarrow> bool) \<Rightarrow> bool" where
  "spec P m Q E \<longleftrightarrow> (\<forall>s. P s \<longrightarrow> (case m s of
      Ret a s' \<Rightarrow> Q a s' | Throws e s' \<Rightarrow> E s' | Blocked s' \<Rightarrow> E s'))"

lemma specD:
  "spec P m Q E \<Longrightarrow> P s \<Longrightarrow> m s = Ret a s' \<Longrightarrow> Q a s'"
  "spec P m Q E \<Longrightarrow> P s \<Longrightarrow> m s = Throws e s' \<Longrightarrow> E s'"
  "spec P m Q E \<Longrightarrow> P s \<Longrightarrow> m s = Blocked s' \<Longrightarrow> E s'"
  by (force simp: spec_def)+

lemma spec_final:
  assumes "spec P m (\<lambda>_. E) E" and "P s"
  shows "E (final_state (m s))"
  using assms by (cases "m s") (force simp: spec_def)+

lemma spec_weaken:
  "spec P' m Q' E' \<Longrightarrow> (\<And>s. P s \<Longrightarrow> P' s) \<Longrightarrow> (\<And>a s. Q' a s \<Longrightarrow> Q a s)
    \<Longrightarrow> (\<And>s. E' s \<Longrightarrow> E s) \<Longrightarrow> spec P m Q E"
  by (fastforce simp: spec_def split: outcome.splits)

lemma spec_pre: "spec P' m Q E \<Longrightarrow> (\<And>s. P s \<Longrightarrow> P' s) \<Longrightarrow> spec P m Q E"
  by (rule spec_weaken)

lemma spec_return [prog_rules]: "(\<And>s. P s \<Longrightarrow> Q a s) \<Longrightarrow> spec P (return a) Q E"
  by (simp add: spec_def)

lemma spec_throw [prog_rules]: "(\<And>s. P s \<Longrightarrow> E s) \<Longrightarrow> spec P (throw e) Q E"
  by (simp add: spec_def)

lemma spec_gets [prog_rules]: "(\<And>s. P s \<Longrightarrow> Q (f s) s) \<Longrightarrow> spec P (gets f) Q E"
  by (simp add: spec_def)

lemma spec_modify [prog_rules]: "(\<And>s. P s \<Longrightarrow> Q () (f s)) \<Longrightarrow> spec P (modify f) Q E"
  by (simp add: spec_def)

lemma spec_require [prog_rules]:
  "(\<And>s. P s \<Longrightarrow> x = None \<Longrightarrow> E s) \<Longrightarrow> (\<And>s a. P s \<Longrightarrow> x = Some a \<Longrightarrow> Q a s)
    \<Longrightarrow> spec P (require e x) Q E"
  by (cases x) (auto simp: spec_def)

lemma spec_andthen:
  assumes "spec P m R E" and "\<And>a. spec (R a) (f a) Q E"
  shows "spec P (andthen m f) Q E"
  using assms by (fastforce simp: spec_def andthen_def split: outcome.splits)

lemma spec_if [prog_rules]:
  "(c \<Longrightarrow> spec P m Q E) \<Longrightarrow> (\<not> c \<Longrightarrow> spec P k Q E) \<Longrightarrow> spec P (if c then m else k) Q E"
  by simp

lemma spec_let [prog_rules]: "spec P (f x) Q E \<Longrightarrow> spec P (let y = x in f y) Q E"
  by simp

text \<open>The rule most proofs use: one assertion that every operation keeps.\<close>

definition keeps :: "('s \<Rightarrow> bool) \<Rightarrow> ('s, 'a) prog \<Rightarrow> bool" where
  "keeps I m \<longleftrightarrow> spec I m (\<lambda>_. I) I"

lemma keepsI: "(\<And>s. I s \<Longrightarrow> I (final_state (m s))) \<Longrightarrow> keeps I m"
  by (auto simp: keeps_def spec_def split: outcome.splits) (metis final_state.simps)+

lemma keeps_final: "keeps I m \<Longrightarrow> I s \<Longrightarrow> I (final_state (m s))"
  unfolding keeps_def by (rule spec_final)

lemma keeps_Ret: "keeps I m \<Longrightarrow> I s \<Longrightarrow> m s = Ret a s' \<Longrightarrow> I s'"
  by (drule (1) keeps_final) simp

lemma keeps_return [prog_rules]: "keeps I (return a)"
  and keeps_throw [prog_rules]: "keeps I (throw e)"
  and keeps_gets [prog_rules]: "keeps I (gets f)"
  by (simp_all add: keeps_def spec_def)

lemma keeps_require [prog_rules]: "keeps I (require e x)"
  by (cases x) (simp_all add: keeps_def spec_def)

lemma keeps_modify [prog_rules]: "(\<And>s. I s \<Longrightarrow> I (f s)) \<Longrightarrow> keeps I (modify f)"
  by (simp add: keeps_def spec_def)

lemma keeps_andthen [prog_rules]:
  "keeps I m \<Longrightarrow> (\<And>a. keeps I (f a)) \<Longrightarrow> keeps I (andthen m f)"
  unfolding keeps_def by (rule spec_andthen)

lemma keeps_reading [prog_rules]: "(\<And>x. keeps I (f x)) \<Longrightarrow> keeps I (reading f)"
  by (simp add: keeps_def spec_def)

lemma keeps_if [prog_rules]: "keeps I m \<Longrightarrow> keeps I k \<Longrightarrow> keeps I (if c then m else k)"
  by simp

lemma keeps_let [prog_rules]: "(\<And>y. keeps I (f y)) \<Longrightarrow> keeps I (let y = x in f y)"
  by simp

lemma keeps_case_option [prog_rules]:
  "keeps I m \<Longrightarrow> (\<And>a. keeps I (f a)) \<Longrightarrow> keeps I (case x of None \<Rightarrow> m | Some a \<Rightarrow> f a)"
  by (cases x) simp_all

subsection \<open>Symbolic execution\<close>

text \<open>
  \<open>runs_to m Q E s\<close>: run from \<open>s\<close>, a normal return satisfies \<open>Q\<close> and everything else \<open>E\<close>. Its
  equations push the postcondition through a program, so that simplification executes it on a symbolic
  state; each component adds the rules of its own operations.
\<close>

definition runs_to ::
  "('s, 'a) prog \<Rightarrow> ('a \<Rightarrow> 's \<Rightarrow> bool) \<Rightarrow> ('s \<Rightarrow> bool) \<Rightarrow> 's \<Rightarrow> bool" where
  "runs_to m Q E s = (case m s of Ret a s' \<Rightarrow> Q a s' | Throws e s' \<Rightarrow> E s' | Blocked s' \<Rightarrow> E s')"

named_theorems run_rules \<open>equations of symbolic execution\<close>

lemma runs_to_return [run_rules]: "runs_to (return a) Q E s = Q a s"
  and runs_to_throw [run_rules]: "runs_to (throw e) Q E s = E s"
  by (simp_all add: runs_to_def)

lemma runs_to_outcome [run_rules]:
  "runs_to (Ret a) Q E s = Q a s" "runs_to (Throws e) Q E s = E s" "runs_to Blocked Q E s = E s"
  by (simp_all add: runs_to_def)

lemma runs_to_gets [run_rules]: "runs_to (gets f) Q E s = Q (f s) s"
  by (simp add: runs_to_def)

lemma runs_to_modify [run_rules]: "runs_to (modify g) Q E s = Q () (g s)"
  by (simp add: runs_to_def)

lemma runs_to_reading [run_rules]: "runs_to (reading h) Q E s = runs_to (h s) Q E s"
  by (simp add: runs_to_def)

lemma runs_to_andthen [run_rules]:
  "runs_to (andthen m k) Q E s = runs_to m (\<lambda>a. runs_to (k a) Q E) E s"
  by (simp add: runs_to_def andthen_def split: outcome.splits)

lemma runs_to_if [run_rules]:
  "runs_to (if c then m else k) Q E s = (if c then runs_to m Q E s else runs_to k Q E s)"
  by simp

lemma runs_to_require [run_rules]:
  "runs_to (require e x) Q E s = (case x of None \<Rightarrow> E s | Some a \<Rightarrow> Q a s)"
  by (simp add: runs_to_def split: option.splits)

lemma runs_to_final: "runs_to m (\<lambda>_. E) E s \<longleftrightarrow> E (final_state (m s))"
  by (simp add: runs_to_def split: outcome.splits)

lemma runs_to_mono:
  "runs_to m Q E s \<Longrightarrow> (\<And>a s'. Q a s' \<Longrightarrow> Q' a s') \<Longrightarrow> (\<And>s'. E s' \<Longrightarrow> E' s') \<Longrightarrow> runs_to m Q' E' s"
  by (simp add: runs_to_def split: outcome.splits)

lemma runs_to_keeps: "keeps I m \<Longrightarrow> I s \<Longrightarrow> runs_to m (\<lambda>_. I) I s"
  by (simp add: runs_to_final keeps_final)

lemma runs_to_Ret: "runs_to m Q E s \<Longrightarrow> m s = Ret a s' \<Longrightarrow> Q a s'"
  by (simp add: runs_to_def)

lemma bind_SomeE: "Option.bind x f = Some z \<Longrightarrow> (\<And>y. x = Some y \<Longrightarrow> f y = Some z \<Longrightarrow> P) \<Longrightarrow> P"
  by (cases x) auto

subsection \<open>Decimal text\<close>

text \<open>
  \<open>boost::lexical_cast<std::string>\<close> of an integer and \<open>QString::number\<close> write the plain
  decimal digits with a leading minus; \<open>boost::lexical_cast\<close> to an integer type accepts an
  optional sign and at least one digit and nothing else, and fails outside the type's range.
\<close>

definition digit_char :: "nat \<Rightarrow> char" where
  "digit_char d = char_of (48 + d)"

definition is_digit :: "char \<Rightarrow> bool" where
  "is_digit c \<longleftrightarrow> 48 \<le> (of_char c :: nat) \<and> (of_char c :: nat) \<le> 57"

definition digit_value :: "char \<Rightarrow> nat" where
  "digit_value c = of_char c - 48"

fun show_nat :: "nat \<Rightarrow> string" where
  "show_nat n = (if n < 10 then [digit_char n] else show_nat (n div 10) @ [digit_char (n mod 10)])"

declare show_nat.simps [simp del]

definition show_int :: "int \<Rightarrow> string" where
  "show_int i = (if i < 0 then CHR ''-'' # show_nat (nat (- i)) else show_nat (nat i))"

fun digits_value :: "nat \<Rightarrow> string \<Rightarrow> nat" where
  "digits_value acc [] = acc"
| "digits_value acc (c # cs) = digits_value (10 * acc + digit_value c) cs"

definition read_nat :: "string \<Rightarrow> nat option" where
  "read_nat cs = (if cs \<noteq> [] \<and> list_all is_digit cs then Some (digits_value 0 cs) else None)"

fun read_signed :: "string \<Rightarrow> int option" where
  "read_signed [] = None"
| "read_signed (c # cs) =
    (if c = CHR ''-'' then map_option (\<lambda>n. - int n) (read_nat cs)
     else if c = CHR ''+'' then map_option int (read_nat cs)
     else map_option int (read_nat (c # cs)))"

definition read_range :: "int \<Rightarrow> int \<Rightarrow> string \<Rightarrow> int option" where
  "read_range lo hi cs = (case read_signed cs of
      None \<Rightarrow> None
    | Some i \<Rightarrow> if lo \<le> i \<and> i \<le> hi then Some i else None)"

text \<open>\<open>boost::lexical_cast<long long>\<close> and \<open>boost::lexical_cast<int>\<close>.\<close>

definition lexical_cast_longlong :: "string \<Rightarrow> int option" where
  "lexical_cast_longlong = read_range (- (2 ^ 63)) (2 ^ 63 - 1)"

definition lexical_cast_int :: "string \<Rightarrow> int option" where
  "lexical_cast_int = read_range (- (2 ^ 31)) (2 ^ 31 - 1)"

lemma of_digit_char: "d < 10 \<Longrightarrow> (of_char (digit_char d) :: nat) = 48 + d"
  by (simp add: digit_char_def)

lemma is_digit_digit_char [simp]: "d < 10 \<Longrightarrow> is_digit (digit_char d)"
  by (simp add: is_digit_def of_digit_char)

lemma digit_value_digit_char [simp]: "d < 10 \<Longrightarrow> digit_value (digit_char d) = d"
  by (simp add: digit_value_def of_digit_char)

lemma digit_char_eval:
  "digit_char 0 = CHR ''0''" "digit_char (Suc 0) = CHR ''1''" "digit_char 1 = CHR ''1''"
  "digit_char 2 = CHR ''2''" "digit_char 3 = CHR ''3''" "digit_char 4 = CHR ''4''"
  "digit_char 5 = CHR ''5''" "digit_char 6 = CHR ''6''" "digit_char 7 = CHR ''7''"
  "digit_char 8 = CHR ''8''" "digit_char 9 = CHR ''9''"
  by code_simp+

lemma digits_value_append: "digits_value a (xs @ ys) = digits_value (digits_value a xs) ys"
  by (induction xs arbitrary: a) auto

lemma show_nat_nonempty [simp]: "show_nat n \<noteq> []"
  by (subst show_nat.simps) simp

lemma show_nat_digits [simp]: "list_all is_digit (show_nat n)"
proof (induction n rule: show_nat.induct)
  case (1 n)
  then show ?case by (subst show_nat.simps) simp
qed

lemma digits_value_show_nat [simp]: "digits_value 0 (show_nat n) = n"
proof (induction n rule: show_nat.induct)
  case (1 n)
  then show ?case by (subst show_nat.simps) (simp add: digits_value_append)
qed

lemma read_nat_show_nat [simp]: "read_nat (show_nat n) = Some n"
  by (simp add: read_nat_def)

lemma show_nat_inj [simp]: "show_nat m = show_nat n \<longleftrightarrow> m = n"
  by (metis digits_value_show_nat)

lemma minus_not_digit: "\<not> is_digit (CHR ''-'')" and plus_not_digit: "\<not> is_digit (CHR ''+'')"
  and sep_not_digit: "\<not> is_digit (CHR ''_'')"
  by (simp_all add: is_digit_def)

lemma read_signed_digits:
  "read_nat cs = Some n \<Longrightarrow> read_signed cs = Some (int n)"
  by (cases cs) (auto simp: read_nat_def minus_not_digit plus_not_digit split: if_splits)

lemma read_signed_show_int [simp]: "read_signed (show_int i) = Some i"
  by (cases "i < 0") (simp_all add: show_int_def read_signed_digits)

lemma show_int_inj [simp]: "show_int i = show_int j \<longleftrightarrow> i = j"
  by (metis option.inject read_signed_show_int)

lemma show_int_0: "show_int 0 = ''0''"
  by (simp add: show_int_def show_nat.simps digit_char_eval)

lemma lexical_cast_longlong_show_int:
  "- (2 ^ 63) \<le> i \<Longrightarrow> i < 2 ^ 63 \<Longrightarrow> lexical_cast_longlong (show_int i) = Some i"
  by (simp add: lexical_cast_longlong_def read_range_def)

lemma lexical_cast_int_show_int:
  "- (2 ^ 31) \<le> i \<Longrightarrow> i < 2 ^ 31 \<Longrightarrow> lexical_cast_int (show_int i) = Some i"
  by (simp add: lexical_cast_int_def read_range_def)

lemma lexical_cast_longlong_range:
  "lexical_cast_longlong cs = Some i \<Longrightarrow> - (2 ^ 63) \<le> i \<and> i < 2 ^ 63"
  by (auto simp: lexical_cast_longlong_def read_range_def split: option.splits if_splits)

subsection \<open>Strings with separators\<close>

text \<open>\<open>QString::split\<close> with a one-character separator: empty parts are kept.\<close>

fun split_at :: "char \<Rightarrow> string \<Rightarrow> string list" where
  "split_at c [] = [[]]"
| "split_at c (x # xs) =
    (if x = c then [] # split_at c xs
     else (case split_at c xs of [] \<Rightarrow> [[x]] | p # ps \<Rightarrow> (x # p) # ps))"

fun join_at :: "char \<Rightarrow> string list \<Rightarrow> string" where
  "join_at c [] = []"
| "join_at c [p] = p"
| "join_at c (p # q # ps) = p @ c # join_at c (q # ps)"

lemma split_at_nonempty [simp]: "split_at c xs \<noteq> []"
  by (induction xs) (auto split: list.splits)

lemma split_at_no_sep: "c \<notin> set p \<Longrightarrow> split_at c p = [p]"
  by (induction p) auto

lemma split_at_append:
  "c \<notin> set p \<Longrightarrow> split_at c (p @ c # xs) = p # split_at c xs"
  by (induction p) auto

lemma split_join:
  "ps \<noteq> [] \<Longrightarrow> list_all (\<lambda>p. c \<notin> set p) ps \<Longrightarrow> split_at c (join_at c ps) = ps"
  by (induction ps rule: induct_list012) (auto simp: split_at_no_sep split_at_append)

lemma join_split [simp]: "join_at c (split_at c xs) = xs"
proof (induction xs)
  case Nil
  then show ?case by simp
next
  case (Cons x xs)
  then show ?case
    by (cases "split_at c xs"; cases "tl (split_at c xs)") auto
qed

lemma show_nat_no_sep [simp]: "CHR ''_'' \<notin> set (show_nat n)"
  using show_nat_digits [of n] sep_not_digit by (auto simp: list_all_iff)

text \<open>\<open>QString::endsWith\<close>.\<close>

definition ends_with :: "string \<Rightarrow> string \<Rightarrow> bool" where
  "ends_with suffix xs \<longleftrightarrow>
     length suffix \<le> length xs \<and> drop (length xs - length suffix) xs = suffix"

lemma ends_with_append [simp]: "ends_with suf (xs @ suf)"
  by (simp add: ends_with_def)

text \<open>\<open>QString::trimmed\<close>, for the ASCII white space, and \<open>QString::toInt\<close>, which ignores white space around the number.\<close>

definition is_space :: "char \<Rightarrow> bool" where
  "is_space c \<longleftrightarrow> (of_char c :: nat) = 32 \<or> (9 \<le> (of_char c :: nat) \<and> (of_char c :: nat) \<le> 13)"

definition trimmed :: "string \<Rightarrow> string" where
  "trimmed l = rev (dropWhile is_space (rev (dropWhile is_space l)))"

definition qstring_to_int :: "string \<Rightarrow> int option" where
  "qstring_to_int l = lexical_cast_int (trimmed l)"

text \<open>\<open>QList::at\<close>: an index out of range is an assertion failure.\<close>

definition list_at :: "'a list \<Rightarrow> int \<Rightarrow> 'a option" where
  "list_at xs i = (if 0 \<le> i \<and> i < int (length xs) then Some (xs ! nat i) else None)"

lemma list_at_nat [simp]: "n < length xs \<Longrightarrow> list_at xs (int n) = Some (xs ! n)"
  by (simp add: list_at_def)

subsection \<open>Signed 32-bit and 64-bit arithmetic\<close>

text \<open>
  \<open>SatoshiInt\<close> is \<open>long long\<close>. The sums and differences the code forms are taken modulo
  \<open>2 ^ 64\<close> into the signed range, which is what the generated code does where the C++ standard
  leaves an overflow undefined; \<open>wrap64_id\<close> is the case without overflow.
\<close>

definition wrap64 :: "int \<Rightarrow> int" where
  "wrap64 i = (i + 2 ^ 63) mod 2 ^ 64 - 2 ^ 63"

lemma wrap64_id [simp]: "- (2 ^ 63) \<le> i \<Longrightarrow> i < 2 ^ 63 \<Longrightarrow> wrap64 i = i"
  by (simp add: wrap64_def)

lemma wrap64_range: "- (2 ^ 63) \<le> wrap64 i \<and> wrap64 i < 2 ^ 63"
proof -
  have "0 \<le> (i + 2 ^ 63) mod 2 ^ 64" and "(i + 2 ^ 63) mod 2 ^ 64 < 2 ^ 64" by simp_all
  then show ?thesis by (simp add: wrap64_def)
qed

lemma wrap64_sint: "wrap64 i = sint (word_of_int i :: 64 word)"
  by (simp add: wrap64_def sint_sbintrunc' signed_take_bit_eq_take_bit_shift take_bit_eq_mod)

text \<open>The same for an \<open>int\<close>.\<close>

definition wrap32 :: "int \<Rightarrow> int" where
  "wrap32 i = (i + 2 ^ 31) mod 2 ^ 32 - 2 ^ 31"

lemma wrap32_id [simp]: "- (2 ^ 31) \<le> i \<Longrightarrow> i < 2 ^ 31 \<Longrightarrow> wrap32 i = i"
  by (simp add: wrap32_def)

text \<open>The validator of user names, passwords and API keys: one to 64 letters and digits.\<close>

definition letters_numbers_only :: "string \<Rightarrow> bool" where
  "letters_numbers_only u \<longleftrightarrow> u \<noteq> [] \<and> length u \<le> 64
     \<and> list_all (\<lambda>c. is_digit c \<or> (65 \<le> (of_char c :: nat) \<and> (of_char c :: nat) \<le> 90)
        \<or> (97 \<le> (of_char c :: nat) \<and> (of_char c :: nat) \<le> 122)) u"

end
