(* ===== verification/PropertyTree.thy ===== *)
theory PropertyTree
  imports Prelude
begin

section \<open>The documents: boost property trees and their JSON text\<close>

text \<open>
  Every document of the database is a \<open>boost::property_tree::ptree\<close>: a node has a data string
  and an ordered list of named children. The operations the code uses are modelled here:
  \<open>get<std::string>\<close> with and without a default, \<open>put\<close>, \<open>put_child\<close>, \<open>add_child\<close>,
  \<open>get_child_optional\<close>, \<open>erase\<close> and \<open>clear\<close>. The paths the code passes are single keys (none of its
  JSON key constants holds the path separator, a dot).

  The JSON text itself is written and read by boost, which is not part of the repository:
  \<open>write_json\<close> and \<open>read_json\<close> are a parameter of every model that stores or loads a document
  (the record \<open>json\<close>), and the text's type is a type variable. \<open>json_ok\<close> is the documented
  contract that a tree JSON can express is read back as it was written.
\<close>

datatype ptree = Node (pt_data: string) (pt_kids: "(string \<times> ptree) list")

definition pt_empty :: ptree where
  "pt_empty = Node [] []"

definition pt_get_child_optional :: "string \<Rightarrow> ptree \<Rightarrow> ptree option" where
  "pt_get_child_optional k t = map_of (pt_kids t) k"

definition pt_get :: "string \<Rightarrow> ptree \<Rightarrow> string option" where
  "pt_get k t = map_option pt_data (pt_get_child_optional k t)"

definition pt_get_default :: "string \<Rightarrow> string \<Rightarrow> ptree \<Rightarrow> string" where
  "pt_get_default k d t = (case pt_get k t of None \<Rightarrow> d | Some v \<Rightarrow> v)"

fun put_kid :: "string \<Rightarrow> (ptree option \<Rightarrow> ptree) \<Rightarrow> (string \<times> ptree) list \<Rightarrow> (string \<times> ptree) list" where
  "put_kid k f [] = [(k, f None)]"
| "put_kid k f ((k', t) # kids) =
     (if k' = k then (k', f (Some t)) # kids else (k', t) # put_kid k f kids)"

definition pt_put :: "string \<Rightarrow> string \<Rightarrow> ptree \<Rightarrow> ptree" where
  "pt_put k v t = Node (pt_data t)
     (put_kid k (\<lambda>old. Node v (case old of None \<Rightarrow> [] | Some c \<Rightarrow> pt_kids c)) (pt_kids t))"

definition pt_put_child :: "string \<Rightarrow> ptree \<Rightarrow> ptree \<Rightarrow> ptree" where
  "pt_put_child k c t = Node (pt_data t) (put_kid k (\<lambda>_. c) (pt_kids t))"

text \<open>\<open>add_child\<close> appends, also when the key is there.\<close>

definition pt_add_child :: "string \<Rightarrow> ptree \<Rightarrow> ptree \<Rightarrow> ptree" where
  "pt_add_child k c t = Node (pt_data t) (pt_kids t @ [(k, c)])"

definition pt_erase :: "string \<Rightarrow> ptree \<Rightarrow> ptree" where
  "pt_erase k t = Node (pt_data t) (filter (\<lambda>(k', _). k' \<noteq> k) (pt_kids t))"

text \<open>A document of plain fields.\<close>

definition plain_doc :: "(string \<times> string) list \<Rightarrow> ptree" where
  "plain_doc kvs = Node [] (map (\<lambda>(k, v). (k, Node v [])) kvs)"

lemma pt_get_plain_doc [simp]: "pt_get k (plain_doc kvs) = map_of kvs k"
  by (induction kvs) (auto simp: plain_doc_def pt_get_def pt_get_child_optional_def)

text \<open>The throwing \<open>get<std::string>(key)\<close>, and \<open>get<int>(key)\<close>.\<close>

definition pt_need :: "string \<Rightarrow> ptree \<Rightarrow> ('s, string) prog" where
  "pt_need k t = require (Ptree_bad_path k) (pt_get k t)"

definition pt_need_int :: "string \<Rightarrow> ptree \<Rightarrow> ('s, int) prog" where
  "pt_need_int k t = andthen (pt_need k t) (\<lambda>v. require (Ptree_bad_data k) (lexical_cast_int v))"

record 'j json =
  write_json :: "ptree \<Rightarrow> 'j"
  read_json :: "'j \<Rightarrow> ptree option"

fun json_tree :: "ptree \<Rightarrow> bool" where
  "json_tree (Node d kids) = ((d = [] \<or> kids = []) \<and> list_all (\<lambda>(_, t). json_tree t) kids)"

definition json_ok :: "'j json \<Rightarrow> bool" where
  "json_ok J \<longleftrightarrow> (\<forall>t. json_tree t \<longrightarrow> read_json J (write_json J t) = Some t)"

text \<open>For concrete runs: a tree that is its own text satisfies the contract.\<close>

definition tree_json :: "ptree json" where
  "tree_json = \<lparr>write_json = (\<lambda>t. t), read_json = Some\<rparr>"

lemma tree_json_sel [simp]: "write_json tree_json t = t" "read_json tree_json t = Some t"
  and tree_json_ok: "json_ok tree_json"
  by (simp_all add: tree_json_def json_ok_def)

text \<open>\<open>read_json\<close> of a stream that holds the given text; a parse error is thrown.\<close>

definition parse_json :: "'j json \<Rightarrow> 'j \<Rightarrow> ('s, ptree) prog" where
  "parse_json J txt = require Json_parser_error (read_json J txt)"

subsection \<open>Laws\<close>

lemma map_of_put_kid:
  "map_of (put_kid k f kids) k' = (if k' = k then Some (f (map_of kids k)) else map_of kids k')"
  by (induction kids) auto

lemma get_put [simp]:
  "pt_get k' (pt_put k v t) = (if k' = k then Some v else pt_get k' t)"
  by (simp add: pt_get_def pt_put_def pt_get_child_optional_def map_of_put_kid)

lemma get_child_put_other [simp]:
  "k' \<noteq> k \<Longrightarrow> pt_get_child_optional k' (pt_put k v t) = pt_get_child_optional k' t"
  by (simp add: pt_put_def pt_get_child_optional_def map_of_put_kid)

lemma get_child_put_child [simp]:
  "pt_get_child_optional k' (pt_put_child k c t)
     = (if k' = k then Some c else pt_get_child_optional k' t)"
  by (simp add: pt_put_child_def pt_get_child_optional_def map_of_put_kid)

lemma get_put_child [simp]:
  "pt_get k' (pt_put_child k c t) = (if k' = k then Some (pt_data c) else pt_get k' t)"
  by (simp add: pt_get_def)

lemma get_child_add_child [simp]:
  "pt_get_child_optional k' (pt_add_child k c t)
     = (case pt_get_child_optional k' t of Some d \<Rightarrow> Some d | None \<Rightarrow> if k' = k then Some c else None)"
  by (simp add: pt_add_child_def pt_get_child_optional_def map_add_def split: option.splits)

lemma get_add_child [simp]:
  "pt_get k' (pt_add_child k c t) = (case pt_get k' t of Some v \<Rightarrow> Some v | None \<Rightarrow> if k' = k then Some (pt_data c) else None)"
  by (simp add: pt_get_def split: option.splits)

lemma map_of_filter_key:
  "map_of (filter (\<lambda>(k', _). k' \<noteq> k) kids) k'' = (if k'' = k then None else map_of kids k'')"
  by (induction kids) auto

lemma get_erase [simp]:
  "pt_get k' (pt_erase k t) = (if k' = k then None else pt_get k' t)"
  by (simp add: pt_get_def pt_erase_def pt_get_child_optional_def map_of_filter_key)

lemma get_child_erase [simp]:
  "pt_get_child_optional k' (pt_erase k t)
     = (if k' = k then None else pt_get_child_optional k' t)"
  by (simp add: pt_erase_def pt_get_child_optional_def map_of_filter_key)

lemma get_empty [simp]: "pt_get k pt_empty = None"
  by (simp add: pt_get_def pt_empty_def pt_get_child_optional_def)

lemma get_default [simp]:
  "pt_get k t = Some v \<Longrightarrow> pt_get_default k d t = v"
  "pt_get k t = None \<Longrightarrow> pt_get_default k d t = d"
  by (simp_all add: pt_get_default_def)

lemma get_default_put [simp]:
  "pt_get_default k' d (pt_put k v t) = (if k' = k then v else pt_get_default k' d t)"
  by (simp add: pt_get_default_def)

lemma get_default_put_child [simp]:
  "k' \<noteq> k \<Longrightarrow> pt_get_default k' d (pt_put_child k v t) = pt_get_default k' d t"
  by (simp add: pt_get_default_def)

lemma get_default_erase [simp]:
  "pt_get_default k' d (pt_erase k t) = (if k' = k then d else pt_get_default k' d t)"
  by (simp add: pt_get_default_def)

lemma pt_need_run [simp]:
  "pt_get k t = Some v \<Longrightarrow> pt_need k t s = Ret v s"
  "pt_get k t = None \<Longrightarrow> pt_need k t s = Throws (Ptree_bad_path k) s"
  "pt_get k t = Some v \<Longrightarrow> andthen (pt_need k t) f s = f v s"
  "pt_get k t = None \<Longrightarrow> andthen (pt_need k t) f s = Throws (Ptree_bad_path k) s"
  by (simp_all add: pt_need_def)

lemma parse_json_run [simp]:
  "read_json J txt = Some t \<Longrightarrow> parse_json J txt s = Ret t s"
  "read_json J txt = None \<Longrightarrow> parse_json J txt s = Throws Json_parser_error s"
  "read_json J txt = Some t \<Longrightarrow> andthen (parse_json J txt) f s = f t s"
  "read_json J txt = None \<Longrightarrow> andthen (parse_json J txt) f s = Throws Json_parser_error s"
  by (simp_all add: parse_json_def)

lemma keeps_pt_need [prog_rules]: "keeps I (pt_need k t)"
  and keeps_parse_json [prog_rules]: "keeps I (parse_json J txt)"
  by (simp_all add: pt_need_def parse_json_def keeps_require)

lemma runs_to_pt_need [run_rules]:
  "runs_to (pt_need k t) Q E s = (case pt_get k t of None \<Rightarrow> E s | Some v \<Rightarrow> Q v s)"
  by (simp add: pt_need_def run_rules)

lemma runs_to_parse_json [run_rules]:
  "runs_to (parse_json J txt) Q E s = (case read_json J txt of None \<Rightarrow> E s | Some t \<Rightarrow> Q t s)"
  by (simp add: parse_json_def run_rules)

lemma keeps_pt_need_int [prog_rules]: "keeps I (pt_need_int k t)"
  unfolding pt_need_int_def by (intro prog_rules)

text \<open>Writing and erasing keep a tree expressible in JSON when the key holds a plain string.\<close>

lemma json_tree_kids: "json_tree t \<longleftrightarrow>
    (pt_data t = [] \<or> pt_kids t = []) \<and> list_all (\<lambda>(_, c). json_tree c) (pt_kids t)"
  by (cases t) simp

lemma json_tree_erase: "json_tree t \<Longrightarrow> json_tree (pt_erase k t)"
  by (cases t) (auto simp: pt_erase_def list_all_iff)

subsection \<open>The interface the components rely on\<close>

text \<open>
  What the components need of a document: reading after writing and after erasing. The lemmas
  inside are the locking idiom of the whole system: put a lock field, later write another field
  and erase the lock.
\<close>

locale keyed_document =
  fixes get :: "'k \<Rightarrow> 'd \<Rightarrow> 'v option"
    and put :: "'k \<Rightarrow> 'v \<Rightarrow> 'd \<Rightarrow> 'd"
    and erase :: "'k \<Rightarrow> 'd \<Rightarrow> 'd"
  assumes get_put_same: "get k (put k v d) = Some v"
    and get_put_other: "k' \<noteq> k \<Longrightarrow> get k' (put k v d) = get k' d"
    and get_erase_same: "get k (erase k d) = None"
    and get_erase_other: "k' \<noteq> k \<Longrightarrow> get k' (erase k d) = get k' d"
begin

lemma lock_visible: "get lock (put lock owner d) = Some owner"
  by (rule get_put_same)

lemma unlock_after_update:
  assumes "field \<noteq> lock"
  shows "get field (erase lock (put field v (put lock owner d))) = Some v"
    and "get lock (erase lock (put field v (put lock owner d))) = None"
  using assms by (simp_all add: get_put_same get_erase_same get_erase_other)

lemma lock_unlock_frame:
  assumes "k \<noteq> lock" and "k \<noteq> field"
  shows "get k (erase lock (put field v (put lock owner d))) = get k d"
  using assms by (simp add: get_put_other get_erase_other)

lemma unlock_restores:
  assumes "get lock d = None"
  shows "get k (erase lock (put lock owner d)) = get k d"
  using assms by (cases "k = lock") (simp_all add: get_put_other get_erase_other get_erase_same)

end

interpretation doc: keyed_document pt_get pt_put pt_erase
  by unfold_locales simp_all

end
