(* ===== verification/KeysAndDocs.thy ===== *)
theory KeysAndDocs
  imports PropertyTree
begin

section \<open>Database keys, the transaction document and the profile locks\<close>

text \<open>
  \<open>Solutions/Abc2couchbaseKeyAndJsonDefines\<close>: the functions that build the Couchbase key of
  every kind of document, the JSON key constants, \<open>createTransactionDoc\<close> and
  \<open>profileIsLocked\<close>. The key functions are shown to be jointly injective on user names and
  indices without the separator: no two documents of the system share a key.
\<close>

subsection \<open>JSON keys and values\<close>

abbreviation "JSON_USER_ACCOUNT_BALANCE \<equiv> ''balanceInSatoshis''"
abbreviation "JSON_USER_ACCOUNT_SLOT_ATTEMPTING_TO_FILL \<equiv> ''slotToAttemptToFillAkaPurchase''"
abbreviation "JSON_USER_ACCOUNT_SLOT_TO_ATTEMPT_TO_FILL_IT_WITH \<equiv> ''slotToAttemptToFillAkaPurchaseItWith''"
abbreviation "JSON_USER_ACCOUNT_LOCKED_WITHDRAWING_FUNDS \<equiv> ''lockedWithdrawingFunds''"
abbreviation "JSON_USER_ACCOUNT_LOCKED_CREDITTING_TRANSACTION \<equiv> ''lockedCredittingTransaction''"

abbreviation "JSON_USER_ACCOUNT_BITCOIN_STATE \<equiv> ''bitcoinState''"
abbreviation "JSON_USER_ACCOUNT_BITCOIN_STATE_NO_KEY \<equiv> ''NoKey''"
abbreviation "JSON_USER_ACCOUNT_BITCOIN_STATE_GETTING_KEY \<equiv> ''GettingKey''"
abbreviation "JSON_USER_ACCOUNT_BITCOIN_STATE_HAVE_KEY \<equiv> ''HaveKey''"
abbreviation "JSON_USER_ACCOUNT_BITCOIN_STATE_DATA \<equiv> ''bitcoinStateData''"
abbreviation "JSON_USER_ACCOUNT_BITCOIN_SET_PAGE \<equiv> ''bitcoinSetPage''"
abbreviation "JSON_USER_ACCOUNT_BITCOIN_GET_KEY_UUID \<equiv> ''uuidPerKey''"

abbreviation "JSON_BITCOIN_KEY_SET_CURRENT_PAGE \<equiv> ''currentPage''"
abbreviation "JSON_BITCOIN_KEY_SET_LOCKED_FILLING_NEXT_PAGE \<equiv> ''fillingNextBitcoinKeySetPage''"
abbreviation "JSON_BITCOIN_KEY_SET_FILLING_UUID_PER_FILL \<equiv> ''uuidPerFill''"
abbreviation "JSON_BITCOIN_KEY_SET_FILLING_START_LOOKING_ON_PAGE \<equiv> ''hugeBitcoinKeyListStartingPage''"
abbreviation "JSON_HUGE_BITCOIN_KEY_LIST_CURRENT_PAGE_KEY \<equiv> ''currentPage''"

abbreviation "JSON_TRANSACTION_BUYER \<equiv> ''buyer''"
abbreviation "JSON_TRANSACTION_SELLER \<equiv> ''seller''"
abbreviation "JSON_TRANSACTION_AMOUNT \<equiv> ''amountInSatoshis''"
abbreviation "JSON_TRANSACTION_STATE_KEY \<equiv> ''txCredittedState''"
abbreviation "JSON_TRANSACTION_STATE_VALUE_UNCREDITTED \<equiv> ''txUncreditted''"
abbreviation "JSON_TRANSACTION_STATE_VALUE_CREDITTED \<equiv> ''txCreditted''"

abbreviation "JSON_WITHDRAW_FUNDS_REQUESTED_AMOUNT \<equiv> ''desiredWithdrawAmountInSatoshisNotIncorporatingWithdrawalFee''"
abbreviation "JSON_WITHDRAW_FUNDS_BITCOIN_PAYOUT_KEY \<equiv> ''bitcoinKeyToWithdrawTo''"
abbreviation "JSON_WITHDRAW_FUNDS_TXID \<equiv> ''bitcoinTxId''"
abbreviation "JSON_WITHDRAW_FUNDS_REQUEST_STATE_KEY \<equiv> ''withdrawFundsRequestState''"
abbreviation "STATE_UNPROCESSED \<equiv> ''unprocessed''"
abbreviation "STATE_INSUFFICIENTFUNDS \<equiv> ''insufficientFunds_Done''"
abbreviation "STATE_PROCESSING \<equiv> ''processing''"
abbreviation "STATE_BITCOINDCOMMANDRETURNEDERROR \<equiv> ''bitcoindCommandReturnedError_Done''"
abbreviation "STATE_PROCESSEDBUTPROFILENEEDSDEDUCTINGANDUNLOCKING \<equiv> ''processedButProfileNeedsDeductingAndUnlocking''"
abbreviation "STATE_PROCESSEDDONE \<equiv> ''processed_Done''"
abbreviation "JSON_WITHDRAW_FUNDS_REQUEST_BITCOINDERRORIFAPPLICABLE \<equiv> ''bitcoindCommandErrorBase64''"

abbreviation "JSON_AD_SPACE_CAMPAIGN_SLOT_LENGTH_HOURS \<equiv> ''slotLengthHours''"
abbreviation "JSON_AD_SPACE_CAMPAIGN_LAST_SLOT_FILLED \<equiv> ''lastSlotFilledAkaPurchased''"
abbreviation "JSON_AD_SPACE_CAMPAIGN_LAST_SLOT_FILLED_INDEX \<equiv> ''slotIndex''"
abbreviation "JSON_SLOT_PURCHASE_TIMESTAMP \<equiv> ''purchaseTimestamp''"
abbreviation "JSON_SLOT_START_TIMESTAMP \<equiv> ''startTimestamp''"
abbreviation "JSON_SLOT_PURCHASE_PRICE \<equiv> ''purchasePrice''"
abbreviation "JSON_AD_SPACE_CAMPAIGN_SLOT_FILLED_WITH \<equiv> ''slotFilledWith''"
abbreviation "JSON_AD_SPACE_CAMPAIGN_MIN_PRICE \<equiv> ''minPrice''"
abbreviation "JSON_AD_SPACE_CAMPAIGN_DISALLOWED_CATEGORIES_KEY \<equiv> ''disallowedCategories''"
abbreviation "JSON_SLOT_FILLER_USERNAME \<equiv> ''username''"
abbreviation "JSON_SLOT_FILLER_WIDTH \<equiv> ''adImageWidth''"
abbreviation "JSON_SLOT_FILLER_HEIGHT \<equiv> ''adImageHeight''"
abbreviation "JSON_ALL_SLOT_FILLERS_ADS_COUNT \<equiv> ''adsCount''"

subsection \<open>Keys\<close>

abbreviation SEP :: string where "SEP \<equiv> ''_''"

definition adSpaceCampaignKey :: "string \<Rightarrow> string \<Rightarrow> string" where
  "adSpaceCampaignKey usernameOfCampaignOwner campaignIndex =
     ''adSpaceCampaign'' @ SEP @ usernameOfCampaignOwner @ SEP @ campaignIndex"

definition adSpaceCampaignSlotKey :: "string \<Rightarrow> string \<Rightarrow> string \<Rightarrow> string" where
  "adSpaceCampaignSlotKey usernameOfCampaignOwner campaignIndex slotIndex =
     ''adSpaceCampaignSlot'' @ SEP @ usernameOfCampaignOwner @ SEP @ campaignIndex @ SEP @ slotIndex"

definition adSpaceSlotFillerKey :: "string \<Rightarrow> string \<Rightarrow> string" where
  "adSpaceSlotFillerKey username slotFillerIndex =
     ''adSpaceSlotFiller'' @ SEP @ username @ SEP @ slotFillerIndex"

definition adSpaceAllSlotFillersKey :: "string \<Rightarrow> string" where
  "adSpaceAllSlotFillersKey username = ''adSpaceAllSlotFillers'' @ SEP @ username"

definition userAccountKey :: "string \<Rightarrow> string" where
  "userAccountKey username = ''user'' @ SEP @ username"

definition transactionKey :: "string \<Rightarrow> string \<Rightarrow> string \<Rightarrow> string" where
  "transactionKey campaignOwnerUsername campaignIndex slotIndex =
     ''tx'' @ SEP @ campaignOwnerUsername @ SEP @ campaignIndex @ SEP @ slotIndex"

definition bitcoinKeySetCurrentPageKey :: "string \<Rightarrow> string" where
  "bitcoinKeySetCurrentPageKey setN = ''bitcoinKeySetCurrentPage'' @ SEP @ setN"

definition bitcoinKeySetPageKey :: "string \<Rightarrow> string \<Rightarrow> string" where
  "bitcoinKeySetPageKey setN pageY = ''bitcoinKeySetPage'' @ SEP @ setN @ SEP @ pageY"

definition hugeBitcoinKeyListCurrentPageKey :: string where
  "hugeBitcoinKeyListCurrentPageKey = ''hugeBitcoinKeyListCurrentPage''"

definition hugeBitcoinKeyListPageKey :: "string \<Rightarrow> string" where
  "hugeBitcoinKeyListPageKey pageZ = ''hugeBitcoinKeyListPage'' @ SEP @ pageZ"

definition adSpaceCampaignIndexCacheKey :: "string \<Rightarrow> string" where
  "adSpaceCampaignIndexCacheKey usernameOfCampaignOwner =
     ''adSpaceCampaignNextAvailableIndexCache'' @ SEP @ usernameOfCampaignOwner"

definition adSpaceCampaignSlotCacheKey :: "string \<Rightarrow> string \<Rightarrow> string" where
  "adSpaceCampaignSlotCacheKey usernameOfCampaignOwner campaignIndex =
     ''adSpaceCampaignCurrentSlotCache'' @ SEP @ usernameOfCampaignOwner @ SEP @ campaignIndex"

definition withdrawFundsRequestKey :: "string \<Rightarrow> string \<Rightarrow> string" where
  "withdrawFundsRequestKey username withdrawFundsRequestIndex =
     ''withdrawFundsRequest'' @ SEP @ username @ SEP @ withdrawFundsRequestIndex"

definition withdrawFundsRequestsNextAvailableIndexKey :: "string \<Rightarrow> string" where
  "withdrawFundsRequestsNextAvailableIndexKey username =
     ''withdrawFundsRequestNextAvailableIndex'' @ SEP @ username"

subsection \<open>Documents\<close>

definition createTransactionDoc :: "ptree \<Rightarrow> string \<Rightarrow> string \<Rightarrow> string \<Rightarrow> ptree" where
  "createTransactionDoc emptyPtreeToPopulate seller buyer amountInSatoshis =
     pt_put JSON_TRANSACTION_STATE_KEY JSON_TRANSACTION_STATE_VALUE_UNCREDITTED
       (pt_put JSON_TRANSACTION_AMOUNT amountInSatoshis
         (pt_put JSON_TRANSACTION_SELLER seller
           (pt_put JSON_TRANSACTION_BUYER buyer emptyPtreeToPopulate)))"

definition profileIsLocked :: "ptree \<Rightarrow> bool" where
  "profileIsLocked profile =
    (if pt_get_default JSON_USER_ACCOUNT_SLOT_ATTEMPTING_TO_FILL ''n'' profile \<noteq> ''n'' then True
     else if pt_get_default JSON_USER_ACCOUNT_LOCKED_WITHDRAWING_FUNDS ''n'' profile \<noteq> ''n'' then True
     else if pt_get_default JSON_USER_ACCOUNT_LOCKED_CREDITTING_TRANSACTION ''n'' profile \<noteq> ''n'' then True
     else False)"

lemma createTransactionDoc_get [simp]:
  "pt_get k (createTransactionDoc d seller buyer amt) =
    (if k = JSON_TRANSACTION_STATE_KEY then Some JSON_TRANSACTION_STATE_VALUE_UNCREDITTED
     else if k = JSON_TRANSACTION_AMOUNT then Some amt
     else if k = JSON_TRANSACTION_SELLER then Some seller
     else if k = JSON_TRANSACTION_BUYER then Some buyer
     else pt_get k d)"
  by (simp add: createTransactionDoc_def)

text \<open>The three lock fields, and how writing one of them changes the test.\<close>

definition lock_fields :: "string list" where
  "lock_fields = [JSON_USER_ACCOUNT_SLOT_ATTEMPTING_TO_FILL,
     JSON_USER_ACCOUNT_LOCKED_WITHDRAWING_FUNDS, JSON_USER_ACCOUNT_LOCKED_CREDITTING_TRANSACTION]"

lemma profileIsLocked_iff:
  "profileIsLocked p \<longleftrightarrow> (\<exists>f \<in> set lock_fields. \<exists>v. pt_get f p = Some v \<and> v \<noteq> ''n'')"
  by (simp add: profileIsLocked_def lock_fields_def pt_get_default_def split: option.splits)

lemma profileIsLocked_put:
  assumes "k \<notin> set lock_fields"
  shows "profileIsLocked (pt_put k v p) = profileIsLocked p"
proof -
  have "k \<noteq> JSON_USER_ACCOUNT_SLOT_ATTEMPTING_TO_FILL"
    "k \<noteq> JSON_USER_ACCOUNT_LOCKED_WITHDRAWING_FUNDS"
    "k \<noteq> JSON_USER_ACCOUNT_LOCKED_CREDITTING_TRANSACTION"
    using assms unfolding lock_fields_def by fastforce+
  then have "pt_get_default f ''n'' (pt_put k v p) = pt_get_default f ''n'' p"
    if "f \<in> set lock_fields" for f
    using that assms by (metis get_default_put)
  then show ?thesis by (simp add: profileIsLocked_def lock_fields_def del: get_default_put)
qed

lemma profileIsLocked_lock:
  "f \<in> set lock_fields \<Longrightarrow> v \<noteq> ''n'' \<Longrightarrow> profileIsLocked (pt_put f v p)"
  by (auto simp: profileIsLocked_iff)

lemma unlocked_fields:
  "\<not> profileIsLocked p \<Longrightarrow> f \<in> set lock_fields \<Longrightarrow> pt_get_default f ''n'' p = ''n''"
  by (auto simp: profileIsLocked_iff pt_get_default_def split: option.splits)

lemma unlocked_erase: "\<not> profileIsLocked p \<Longrightarrow> \<not> profileIsLocked (pt_erase f p)"
  by (auto simp: profileIsLocked_iff split: if_splits)

lemma unlock_own_lock:
  assumes "\<not> profileIsLocked p"
  shows "\<not> profileIsLocked (pt_erase f (pt_put f v p))"
  using assms by (auto simp: profileIsLocked_iff split: if_splits)

subsection \<open>No two documents share a key\<close>

text \<open>Every key the system uses, as data, with its rendering by the functions above.\<close>

datatype abc_key =
    CampaignKey string string
  | CampaignSlotKey string string string
  | SlotFillerKey string string
  | AllSlotFillersKey string
  | UserKey string
  | TxKey string string string
  | KeySetCurrentPageKey string
  | KeySetPageKey string string
  | HugeCurrentPageKey
  | HugePageKey string
  | CampaignIndexCacheKey string
  | CampaignSlotCacheKey string string
  | WithdrawKey string string
  | WithdrawNextKey string

fun render :: "abc_key \<Rightarrow> string" where
  "render (CampaignKey u i) = adSpaceCampaignKey u i"
| "render (CampaignSlotKey u i n) = adSpaceCampaignSlotKey u i n"
| "render (SlotFillerKey u i) = adSpaceSlotFillerKey u i"
| "render (AllSlotFillersKey u) = adSpaceAllSlotFillersKey u"
| "render (UserKey u) = userAccountKey u"
| "render (TxKey u i n) = transactionKey u i n"
| "render (KeySetCurrentPageKey s) = bitcoinKeySetCurrentPageKey s"
| "render (KeySetPageKey s y) = bitcoinKeySetPageKey s y"
| "render HugeCurrentPageKey = hugeBitcoinKeyListCurrentPageKey"
| "render (HugePageKey z) = hugeBitcoinKeyListPageKey z"
| "render (CampaignIndexCacheKey u) = adSpaceCampaignIndexCacheKey u"
| "render (CampaignSlotCacheKey u i) = adSpaceCampaignSlotCacheKey u i"
| "render (WithdrawKey u i) = withdrawFundsRequestKey u i"
| "render (WithdrawNextKey u) = withdrawFundsRequestsNextAvailableIndexKey u"

fun key_parts :: "abc_key \<Rightarrow> string list" where
  "key_parts (CampaignKey u i) = [''adSpaceCampaign'', u, i]"
| "key_parts (CampaignSlotKey u i n) = [''adSpaceCampaignSlot'', u, i, n]"
| "key_parts (SlotFillerKey u i) = [''adSpaceSlotFiller'', u, i]"
| "key_parts (AllSlotFillersKey u) = [''adSpaceAllSlotFillers'', u]"
| "key_parts (UserKey u) = [''user'', u]"
| "key_parts (TxKey u i n) = [''tx'', u, i, n]"
| "key_parts (KeySetCurrentPageKey s) = [''bitcoinKeySetCurrentPage'', s]"
| "key_parts (KeySetPageKey s y) = [''bitcoinKeySetPage'', s, y]"
| "key_parts HugeCurrentPageKey = [''hugeBitcoinKeyListCurrentPage'']"
| "key_parts (HugePageKey z) = [''hugeBitcoinKeyListPage'', z]"
| "key_parts (CampaignIndexCacheKey u) = [''adSpaceCampaignNextAvailableIndexCache'', u]"
| "key_parts (CampaignSlotCacheKey u i) = [''adSpaceCampaignCurrentSlotCache'', u, i]"
| "key_parts (WithdrawKey u i) = [''withdrawFundsRequest'', u, i]"
| "key_parts (WithdrawNextKey u) = [''withdrawFundsRequestNextAvailableIndex'', u]"

definition well_formed_key :: "abc_key \<Rightarrow> bool" where
  "well_formed_key k \<longleftrightarrow> list_all (\<lambda>p. CHR ''_'' \<notin> set p) (key_parts k)"

lemmas key_defs =
  adSpaceCampaignKey_def adSpaceCampaignSlotKey_def adSpaceSlotFillerKey_def
  adSpaceAllSlotFillersKey_def userAccountKey_def transactionKey_def
  bitcoinKeySetCurrentPageKey_def bitcoinKeySetPageKey_def hugeBitcoinKeyListCurrentPageKey_def
  hugeBitcoinKeyListPageKey_def adSpaceCampaignIndexCacheKey_def adSpaceCampaignSlotCacheKey_def
  withdrawFundsRequestKey_def withdrawFundsRequestsNextAvailableIndexKey_def

lemma render_join: "render k = join_at (CHR ''_'') (key_parts k)"
  by (cases k) (simp_all add: key_defs)

lemma key_parts_nonempty [simp]: "key_parts k \<noteq> []"
  by (cases k) simp_all

lemma split_render: "well_formed_key k \<Longrightarrow> split_at (CHR ''_'') (render k) = key_parts k"
  unfolding render_join well_formed_key_def by (rule split_join) simp_all

lemma key_parts_inj: "key_parts k = key_parts k' \<Longrightarrow> k = k'"
  by (cases k; cases k') simp_all

text \<open>
  C28. Two documents of the system never share a Couchbase key: on user names and indices that do not
  contain the separator, the fourteen key functions are injective and their images are disjoint.
\<close>

theorem keys_never_collide:
  assumes "well_formed_key k" and "well_formed_key k'"
  shows "render k = render k' \<longleftrightarrow> k = k'"
  using assms split_render key_parts_inj by metis

theorem keys_never_collide_witness:
  "render (WithdrawKey ''bob'' ''3'') = ''withdrawFundsRequest_bob_3''
   \<and> render (WithdrawKey ''bob'' ''3'') \<noteq> render (UserKey ''bob'')"
proof -
  have w: "well_formed_key (WithdrawKey ''bob'' ''3'')" "well_formed_key (UserKey ''bob'')"
    by (simp_all add: well_formed_key_def)
  show ?thesis using keys_never_collide [OF w] by (simp add: withdrawFundsRequestKey_def)
qed

text \<open>The withdraw processor reads the user name back out of the key.\<close>

lemma withdraw_key_user:
  assumes "CHR ''_'' \<notin> set u" and "CHR ''_'' \<notin> set i"
  shows "list_at (split_at (CHR ''_'') (withdrawFundsRequestKey u i)) 1 = Some u"
  using split_render [of "WithdrawKey u i"] assms
  by (simp add: well_formed_key_def list_at_def)

end
