(* ===== verification/Couchbase.thy ===== *)
theory Couchbase
  imports KeysAndDocs
begin

section \<open>The synchronous Couchbase client\<close>

text \<open>
  \<open>GloballySharedClasses/distributeddatabase/isynchronouslibcouchbaseuser.cpp\<close> and
  \<open>d3faultscouchbaseshared.h\<close>: the base class of every command line tool of the advertising
  system. One object issues one request at a time and waits for its answer.

  libcouchbase and the cluster are not part of the repository. What they answer is an input: the
  field \<open>cluster_replies\<close> holds the answers still to come, one for each request that
  will be issued, and every theorem quantifies over it, so over every behaviour of the cluster and
  of the other clients. A request with no answer left is still waiting (\<open>Blocked\<close>). What the
  object did is recorded in \<open>history\<close>, oldest first.

  The class is a base class: its record is extended by the record of each tool, and its operations
  are polymorphic in the extension, as methods inherited by the subclasses. The type variable
  \<open>'j\<close> is the JSON text, \<open>'o\<close> the tool's own outputs (Qt signals, network posts). The texts of
  error messages are not modelled, only that \<open>errorOutput\<close> was called.
\<close>

datatype lcb_error =
    LCB_SUCCESS
  | LCB_KEY_EEXISTS
  | LCB_KEY_ENOENT
  | LCB_EBUSY
  | LCB_ETMPFAIL
  | LCB_CLIENT_ETMPFAIL
  | LCB_OTHER nat

datatype lcb_storage = LCB_ADD | LCB_SET

type_synonym cas = "64 word"

text \<open>
  \<open>SetupError\<close>: \<open>lcb_get\<close> or \<open>lcb_store\<close> itself failed. \<open>WaitError\<close>: \<open>lcb_wait\<close> failed and no
  callback ran. \<open>Answer\<close>: the callback ran, with its error code and, where it succeeded, the
  document (of a get) and the CAS value.
\<close>

datatype 'j reply =
    SetupError lcb_error
  | WaitError lcb_error
  | Answer lcb_error 'j cas

datatype ('j, 'o) event =
    DidGet string "'j reply"
  | DidStore string 'j lcb_storage cas "'j reply"
  | USlept "32 word"
  | Slept "32 word"
  | ErrorOutput
  | Out 'o

record ('j, 'o) lcb_user =
  m_CouchbaseCreated :: bool
  m_Connected :: bool
  m_LastOpStatus :: lcb_error
  m_LastDocGetted :: 'j
  m_LastGetCas :: cas
  m_LastSetCas :: cas
  m_CurrentExponentialBackoffMicrosecondsAmount :: "32 word"
  m_CurrentExponentialBackoffSecondsAmount :: "32 word"
  cluster_replies :: "'j reply list"
  history :: "('j, 'o) event list"

text \<open>The answers to the three calls of \<open>connectToCouchbase\<close>.\<close>

record connect_env =
  lcb_create_result :: lcb_error
  lcb_connect_result :: lcb_error
  lcb_connect_wait_result :: lcb_error
  configuration_new_seen :: bool

definition lcbErrorTypeIsEligibleForExponentialBackoff :: "lcb_error \<Rightarrow> bool" where
  "lcbErrorTypeIsEligibleForExponentialBackoff error \<longleftrightarrow>
     (error = LCB_EBUSY \<or> error = LCB_ETMPFAIL \<or> error = LCB_CLIENT_ETMPFAIL)"

definition record_event :: "('j, 'o) event \<Rightarrow> (('j, 'o, 'm) lcb_user_scheme, unit) prog" where
  "record_event e = modify (\<lambda>s. s\<lparr>history := history s @ [e]\<rparr>)"

definition errorOutput :: "(('j, 'o, 'm) lcb_user_scheme, unit) prog" where
  "errorOutput = record_event ErrorOutput"

definition emit :: "'o \<Rightarrow> (('j, 'o, 'm) lcb_user_scheme, unit) prog" where
  "emit sig = record_event (Out sig)"

definition destroyCouchbaseIfCreated :: "(('j, 'o, 'm) lcb_user_scheme, unit) prog" where
  "destroyCouchbaseIfCreated =
     modify (\<lambda>s. if m_CouchbaseCreated s then s\<lparr>m_CouchbaseCreated := False\<rparr> else s)"

definition getCallback ::
  "lcb_error \<Rightarrow> 'j \<Rightarrow> cas \<Rightarrow> (('j, 'o, 'm) lcb_user_scheme, unit) prog" where
  "getCallback error bytes c =
     modify (\<lambda>s. if error = LCB_SUCCESS
       then s\<lparr>m_LastOpStatus := error, m_LastDocGetted := bytes, m_LastGetCas := c\<rparr>
       else s\<lparr>m_LastOpStatus := error\<rparr>)"

definition storeCallback :: "lcb_error \<Rightarrow> cas \<Rightarrow> (('j, 'o, 'm) lcb_user_scheme, unit) prog" where
  "storeCallback error c =
     modify (\<lambda>s. if error = LCB_SUCCESS
       then s\<lparr>m_LastOpStatus := error, m_LastSetCas := c\<rparr>
       else s\<lparr>m_LastOpStatus := error\<rparr>)"

definition configurationCallback :: "bool \<Rightarrow> (('j, 'o, 'm) lcb_user_scheme, unit) prog" where
  "configurationCallback isNew =
     modify (\<lambda>s. if isNew then s\<lparr>m_Connected := True\<rparr> else s)"

definition connectToCouchbase :: "connect_env \<Rightarrow> (('j, 'o, 'm) lcb_user_scheme, bool) prog" where
  "connectToCouchbase env =
    (if lcb_create_result env \<noteq> LCB_SUCCESS
     then andthen errorOutput (\<lambda>_. return False)
     else
       andthen (modify (\<lambda>s. s\<lparr>m_CouchbaseCreated := True\<rparr>)) (\<lambda>_.
       if lcb_connect_result env \<noteq> LCB_SUCCESS
       then andthen errorOutput (\<lambda>_. andthen destroyCouchbaseIfCreated (\<lambda>_. return False))
       else
         andthen (configurationCallback (configuration_new_seen env)) (\<lambda>_.
         if lcb_connect_wait_result env \<noteq> LCB_SUCCESS
         then andthen errorOutput (\<lambda>_. andthen destroyCouchbaseIfCreated (\<lambda>_. return False))
         else
           andthen (gets m_Connected) (\<lambda>connected.
           if \<not> connected
           then andthen errorOutput (\<lambda>_. andthen destroyCouchbaseIfCreated (\<lambda>_. return False))
           else return True))))"

text \<open>
  Issuing a request needs a live instance: calling libcouchbase with an instance that was
  destroyed is a use after free, modelled as its own abnormal end.
\<close>

definition issue :: "(('j, 'o, 'm) lcb_user_scheme, 'j reply) prog" where
  "issue = (\<lambda>s. if \<not> m_CouchbaseCreated s then Throws Use_after_destroy s
     else case cluster_replies s of
       [] \<Rightarrow> Blocked s
     | r # rs \<Rightarrow> Ret r (s\<lparr>cluster_replies := rs\<rparr>))"

definition couchbaseGetRequest :: "string \<Rightarrow> (('j, 'o, 'm) lcb_user_scheme, bool) prog" where
  "couchbaseGetRequest key =
     andthen issue (\<lambda>r. andthen (record_event (DidGet key r)) (\<lambda>_.
     case r of
       SetupError e \<Rightarrow> andthen errorOutput (\<lambda>_. andthen destroyCouchbaseIfCreated (\<lambda>_. return False))
     | WaitError e \<Rightarrow> andthen errorOutput (\<lambda>_. andthen destroyCouchbaseIfCreated (\<lambda>_. return False))
     | Answer e bytes c \<Rightarrow> andthen (getCallback e bytes c) (\<lambda>_. return True)))"

definition couchbaseStoreRequest ::
  "string \<Rightarrow> 'j \<Rightarrow> lcb_storage \<Rightarrow> cas \<Rightarrow> (('j, 'o, 'm) lcb_user_scheme, bool) prog" where
  "couchbaseStoreRequest key val storageType cas =
     andthen issue (\<lambda>r. andthen (record_event (DidStore key val storageType cas r)) (\<lambda>_.
     case r of
       SetupError e \<Rightarrow> andthen errorOutput (\<lambda>_. andthen destroyCouchbaseIfCreated (\<lambda>_. return False))
     | WaitError e \<Rightarrow> andthen errorOutput (\<lambda>_. andthen destroyCouchbaseIfCreated (\<lambda>_. return False))
     | Answer e bytes c \<Rightarrow> andthen (storeCallback e c) (\<lambda>_. return True)))"

definition resetExponentialSleepTimers :: "(('j, 'o, 'm) lcb_user_scheme, unit) prog" where
  "resetExponentialSleepTimers =
     modify (\<lambda>s. s\<lparr>m_CurrentExponentialBackoffMicrosecondsAmount := 2500,
                   m_CurrentExponentialBackoffSecondsAmount := 0\<rparr>)"

definition exponentialSleep :: "(('j, 'o, 'm) lcb_user_scheme, unit) prog" where
  "exponentialSleep = modify (\<lambda>s.
     if m_CurrentExponentialBackoffSecondsAmount s > 0 then
       let secs = m_CurrentExponentialBackoffSecondsAmount s * 2
       in s\<lparr>m_CurrentExponentialBackoffSecondsAmount := secs, history := history s @ [Slept secs]\<rparr>
     else
       let micros = m_CurrentExponentialBackoffMicrosecondsAmount s * 2
       in if micros > 1000000
          then s\<lparr>m_CurrentExponentialBackoffMicrosecondsAmount := micros,
                 m_CurrentExponentialBackoffSecondsAmount := 1, history := history s @ [Slept 1]\<rparr>
          else s\<lparr>m_CurrentExponentialBackoffMicrosecondsAmount := micros,
                 history := history s @ [USlept micros]\<rparr>)"

subsection \<open>One attempt\<close>

fun is_sleep :: "('j, 'o) event \<Rightarrow> bool" where
  "is_sleep (Slept w) = True"
| "is_sleep (USlept w) = True"
| "is_sleep _ = False"

text \<open>
  What an attempt does with its answer \<open>r\<close>: the triple of the last document, its CAS and the CAS of the
  last store is a function of the answer.
\<close>

definition results :: "('j, 'o, 'm) lcb_user_scheme \<Rightarrow> 'j \<times> cas \<times> cas" where
  "results s = (m_LastDocGetted s, m_LastGetCas s, m_LastSetCas s)"

definition get_result :: "'j reply \<Rightarrow> 'j \<times> cas \<times> cas \<Rightarrow> 'j \<times> cas \<times> cas" where
  "get_result r x = (case r of
      Answer e bytes c \<Rightarrow> if e = LCB_SUCCESS then (bytes, c, snd (snd x)) else x
    | _ \<Rightarrow> x)"

definition store_result :: "'j reply \<Rightarrow> 'j \<times> cas \<times> cas \<Rightarrow> 'j \<times> cas \<times> cas" where
  "store_result r x = (case r of
      Answer e bytes c \<Rightarrow> if e = LCB_SUCCESS then (fst x, fst (snd x), c) else x
    | _ \<Rightarrow> x)"

fun answered :: "'j reply \<Rightarrow> bool" where
  "answered (Answer e d c) = True"
| "answered _ = False"

fun transient :: "'j reply \<Rightarrow> bool" where
  "transient (Answer e d c) = lcbErrorTypeIsEligibleForExponentialBackoff e"
| "transient _ = False"

fun reply_status :: "'j reply \<Rightarrow> lcb_error" where
  "reply_status (Answer e d c) = e"
| "reply_status (SetupError e) = e"
| "reply_status (WaitError e) = e"

definition attempt_effect ::
  "('j reply \<Rightarrow> ('j, 'o) event) \<Rightarrow> ('j reply \<Rightarrow> 'j \<times> cas \<times> cas \<Rightarrow> 'j \<times> cas \<times> cas) \<Rightarrow> 'j reply
    \<Rightarrow> ('j, 'o, 'm) lcb_user_scheme \<Rightarrow> ('j, 'o, 'm) lcb_user_scheme \<Rightarrow> bool" where
  "attempt_effect ev res r s s' \<longleftrightarrow>
     m_CouchbaseCreated s \<and> m_CouchbaseCreated s' = answered r \<and> m_Connected s' = m_Connected s
     \<and> cluster_replies s = r # cluster_replies s'
     \<and> history s' = history s @ [ev r] @ (if answered r then [] else [ErrorOutput])
     \<and> results s' = res r (results s)
     \<and> m_LastOpStatus s' = (if answered r then reply_status r else m_LastOpStatus s)
     \<and> lcb_user.more s' = lcb_user.more s"

lemma exponentialSleep_run:
  "\<exists>s' e. exponentialSleep s = Ret () s' \<and> is_sleep e \<and> history s' = history s @ [e]
     \<and> results s' = results s \<and> cluster_replies s' = cluster_replies s
     \<and> m_CouchbaseCreated s' = m_CouchbaseCreated s \<and> m_Connected s' = m_Connected s
     \<and> m_LastOpStatus s' = m_LastOpStatus s \<and> lcb_user.more s' = lcb_user.more s"
  by (simp add: exponentialSleep_def Let_def results_def)

lemmas attempt_defs = issue_def andthen_def record_event_def errorOutput_def
  destroyCouchbaseIfCreated_def getCallback_def storeCallback_def return_def modify_def

lemma get_attempt_cases:
  "\<not> m_CouchbaseCreated s \<Longrightarrow> couchbaseGetRequest key s = Throws Use_after_destroy s"
  "m_CouchbaseCreated s \<Longrightarrow> cluster_replies s = [] \<Longrightarrow> couchbaseGetRequest key s = Blocked s"
  "m_CouchbaseCreated s \<Longrightarrow> cluster_replies s = r # rs
    \<Longrightarrow> \<exists>s'. couchbaseGetRequest key s = Ret (answered r) s'
        \<and> attempt_effect (DidGet key) get_result r s s'"
  by (cases r; simp add: couchbaseGetRequest_def attempt_defs attempt_effect_def results_def
      get_result_def)+

lemma store_attempt_cases:
  "\<not> m_CouchbaseCreated s \<Longrightarrow> couchbaseStoreRequest key v st c s = Throws Use_after_destroy s"
  "m_CouchbaseCreated s \<Longrightarrow> cluster_replies s = [] \<Longrightarrow> couchbaseStoreRequest key v st c s = Blocked s"
  "m_CouchbaseCreated s \<Longrightarrow> cluster_replies s = r # rs
    \<Longrightarrow> \<exists>s'. couchbaseStoreRequest key v st c s = Ret (answered r) s'
        \<and> attempt_effect (DidStore key v st c) store_result r s s'"
  by (cases r; simp add: couchbaseStoreRequest_def attempt_defs attempt_effect_def results_def
      store_result_def)+


subsection \<open>Retrying with exponential backoff\<close>

text \<open>
  The \<open>while\<close> loops of \<open>couchbaseGetRequestWithExponentialBackoff\<close> and
  \<open>couchbaseStoreRequestWithExponentialBackoff\<close>. They have no bound of their own: each turn uses one
  answer of the cluster, which is the measure.
\<close>

function get_backoff_loop ::
  "string \<Rightarrow> ('j, 'o, 'm) lcb_user_scheme \<Rightarrow> (('j, 'o, 'm) lcb_user_scheme, bool) outcome" where
  "get_backoff_loop key s =
    (if lcbErrorTypeIsEligibleForExponentialBackoff (m_LastOpStatus s) then
       (case couchbaseGetRequest key (final_state (exponentialSleep s)) of
          Ret ok s' \<Rightarrow> if \<not> ok then Ret False s' else get_backoff_loop key s'
        | Throws e s' \<Rightarrow> Throws e s'
        | Blocked s' \<Rightarrow> Blocked s')
     else Ret True s)"
  by pat_completeness auto

lemma attempt_uses_reply:
  "couchbaseGetRequest key s = Ret ok s' \<Longrightarrow> length (cluster_replies s') < length (cluster_replies s)"
  "couchbaseStoreRequest key v st c s = Ret ok s' \<Longrightarrow> length (cluster_replies s') < length (cluster_replies s)"
proof -
  show "length (cluster_replies s') < length (cluster_replies s)"
    if "couchbaseGetRequest key s = Ret ok s'"
    using that get_attempt_cases(1,2) [of s key]
    by (cases "m_CouchbaseCreated s"; cases "cluster_replies s";
        force simp: attempt_effect_def dest: get_attempt_cases(3) [of s _ _ key])
  show "length (cluster_replies s') < length (cluster_replies s)"
    if "couchbaseStoreRequest key v st c s = Ret ok s'"
    using that store_attempt_cases(1,2) [of s key v st c]
    by (cases "m_CouchbaseCreated s"; cases "cluster_replies s";
        force simp: attempt_effect_def dest: store_attempt_cases(3) [of s _ _ key v st c])
qed

lemma sleep_keeps_replies: "cluster_replies (final_state (exponentialSleep s)) = cluster_replies s"
  using exponentialSleep_run [of s] by force

termination get_backoff_loop
  by (relation "measure (\<lambda>(key, s). length (cluster_replies s))")
    (auto dest: attempt_uses_reply(1) simp: sleep_keeps_replies)

function store_backoff_loop ::
  "string \<Rightarrow> 'j \<Rightarrow> lcb_storage \<Rightarrow> cas \<Rightarrow> ('j, 'o, 'm) lcb_user_scheme
    \<Rightarrow> (('j, 'o, 'm) lcb_user_scheme, bool) outcome" where
  "store_backoff_loop key v st c s =
    (if lcbErrorTypeIsEligibleForExponentialBackoff (m_LastOpStatus s) then
       (case couchbaseStoreRequest key v st c (final_state (exponentialSleep s)) of
          Ret ok s' \<Rightarrow> if \<not> ok then Ret False s' else store_backoff_loop key v st c s'
        | Throws e s' \<Rightarrow> Throws e s'
        | Blocked s' \<Rightarrow> Blocked s')
     else Ret True s)"
  by pat_completeness auto

termination store_backoff_loop
  by (relation "measure (\<lambda>(key, v, st, c, s). length (cluster_replies s))")
    (auto dest: attempt_uses_reply(2) simp: sleep_keeps_replies)

declare get_backoff_loop.simps [simp del] store_backoff_loop.simps [simp del]

definition couchbaseGetRequestWithExponentialBackoff ::
  "string \<Rightarrow> (('j, 'o, 'm) lcb_user_scheme, bool) prog" where
  "couchbaseGetRequestWithExponentialBackoff key =
     andthen resetExponentialSleepTimers (\<lambda>_.
     andthen (couchbaseGetRequest key) (\<lambda>ok.
     if \<not> ok then return False else get_backoff_loop key))"

definition couchbaseStoreRequestWithExponentialBackoff ::
  "string \<Rightarrow> 'j \<Rightarrow> lcb_storage \<Rightarrow> cas \<Rightarrow> (('j, 'o, 'm) lcb_user_scheme, bool) prog" where
  "couchbaseStoreRequestWithExponentialBackoff key v st c =
     andthen resetExponentialSleepTimers (\<lambda>_.
     andthen (couchbaseStoreRequest key v st c) (\<lambda>ok.
     if \<not> ok then return False else store_backoff_loop key v st c))"

definition couchbaseGetRequestWithExponentialBackoffRequiringSuccess ::
  "string \<Rightarrow> (('j, 'o, 'm) lcb_user_scheme, bool) prog" where
  "couchbaseGetRequestWithExponentialBackoffRequiringSuccess key =
     andthen (couchbaseGetRequestWithExponentialBackoff key) (\<lambda>ok.
     if \<not> ok then return False else
     andthen (gets m_LastOpStatus) (\<lambda>status.
     if status \<noteq> LCB_SUCCESS
     then andthen errorOutput (\<lambda>_. andthen destroyCouchbaseIfCreated (\<lambda>_. return False))
     else return True))"

definition couchbaseStoreRequestWithExponentialBackoffRequiringSuccess ::
  "string \<Rightarrow> 'j \<Rightarrow> lcb_storage \<Rightarrow> cas \<Rightarrow> (('j, 'o, 'm) lcb_user_scheme, bool) prog" where
  "couchbaseStoreRequestWithExponentialBackoffRequiringSuccess key v st c =
     andthen (couchbaseStoreRequestWithExponentialBackoff key v st c) (\<lambda>ok.
     if \<not> ok then return False else
     andthen (gets m_LastOpStatus) (\<lambda>status.
     if status \<noteq> LCB_SUCCESS
     then andthen errorOutput (\<lambda>_. andthen destroyCouchbaseIfCreated (\<lambda>_. return False))
     else return True))"

subsection \<open>The contract of a retried request\<close>

text \<open>
  \<open>effects\<close> is what an observer of the database sees: the history without the sleeps and the
  transient failures.
\<close>

fun essential :: "('j, 'o) event \<Rightarrow> bool" where
  "essential (DidGet k r) = (\<not> transient r)"
| "essential (DidStore k v st c r) = (\<not> transient r)"
| "essential (Slept w) = False"
| "essential (USlept w) = False"
| "essential ErrorOutput = True"
| "essential (Out x) = True"

definition effects :: "('j, 'o, 'm) lcb_user_scheme \<Rightarrow> ('j, 'o) event list" where
  "effects s = filter essential (history s)"

definition op_effect ::
  "('j reply \<Rightarrow> ('j, 'o) event) \<Rightarrow> ('j reply \<Rightarrow> 'j \<times> cas \<times> cas \<Rightarrow> 'j \<times> cas \<times> cas) \<Rightarrow> 'j reply
    \<Rightarrow> ('j, 'o, 'm) lcb_user_scheme \<Rightarrow> ('j, 'o, 'm) lcb_user_scheme \<Rightarrow> bool" where
  "op_effect ev res r s s' \<longleftrightarrow>
     m_CouchbaseCreated s \<and> \<not> transient r \<and> m_CouchbaseCreated s' = answered r
     \<and> m_Connected s' = m_Connected s
     \<and> (\<exists>used. list_all transient used \<and> cluster_replies s = used @ r # cluster_replies s')
     \<and> effects s' = effects s @ [ev r] @ (if answered r then [] else [ErrorOutput])
     \<and> results s' = res r (results s)
     \<and> (answered r \<longrightarrow> m_LastOpStatus s' = reply_status r)
     \<and> lcb_user.more s' = lcb_user.more s"

definition idle_effect ::
  "('j, 'o, 'm) lcb_user_scheme \<Rightarrow> ('j, 'o, 'm) lcb_user_scheme \<Rightarrow> bool" where
  "idle_effect s s' \<longleftrightarrow> m_CouchbaseCreated s \<and> m_CouchbaseCreated s' \<and> m_Connected s' = m_Connected s
     \<and> list_all transient (cluster_replies s) \<and> cluster_replies s' = []
     \<and> effects s' = effects s \<and> results s' = results s \<and> lcb_user.more s' = lcb_user.more s"

text \<open>
  The interface: one attempt, and a loop that unfolds as the code's loops do. What a retried request
  does follows once for gets and stores.
\<close>

locale retried_request =
  fixes attempt :: "(('j, 'o, 'm) lcb_user_scheme, bool) prog"
    and loop :: "(('j, 'o, 'm) lcb_user_scheme, bool) prog"
    and ev :: "'j reply \<Rightarrow> ('j, 'o) event"
    and res :: "'j reply \<Rightarrow> 'j \<times> cas \<times> cas \<Rightarrow> 'j \<times> cas \<times> cas"
  assumes loop_unfold: "loop s =
      (if lcbErrorTypeIsEligibleForExponentialBackoff (m_LastOpStatus s) then
         (case attempt (final_state (exponentialSleep s)) of
            Ret ok s' \<Rightarrow> if \<not> ok then Ret False s' else loop s'
          | Throws e s' \<Rightarrow> Throws e s'
          | Blocked s' \<Rightarrow> Blocked s')
       else Ret True s)"
    and attempt_dead: "\<not> m_CouchbaseCreated s \<Longrightarrow> attempt s = Throws Use_after_destroy s"
    and attempt_waits: "m_CouchbaseCreated s \<Longrightarrow> cluster_replies s = [] \<Longrightarrow> attempt s = Blocked s"
    and attempt_answers: "m_CouchbaseCreated s \<Longrightarrow> cluster_replies s = r # rs \<Longrightarrow>
      \<exists>s'. attempt s = Ret (answered r) s' \<and> attempt_effect ev res r s s'"
    and essential_ev: "essential (ev r) \<longleftrightarrow> \<not> transient r"
    and transient_no_result: "transient r \<Longrightarrow> res r x = x"
begin

definition once_then_loop :: "(('j, 'o, 'm) lcb_user_scheme, bool) prog" where
  "once_then_loop = andthen attempt (\<lambda>ok. if \<not> ok then return False else loop)"

lemma after_transient:
  assumes "m_CouchbaseCreated s" and "cluster_replies s = r # rs" and "transient r"
  obtains s1 where "once_then_loop s = once_then_loop s1" and "m_CouchbaseCreated s1"
    and "m_Connected s1 = m_Connected s" and "cluster_replies s1 = rs" and "effects s1 = effects s"
    and "results s1 = results s" and "lcb_user.more s1 = lcb_user.more s"
proof -
  from attempt_answers [OF assms(1,2)] obtain s0 where
    s0: "attempt s = Ret (answered r) s0" and eff: "attempt_effect ev res r s s0" by blast
  have ans: "answered r" and el: "lcbErrorTypeIsEligibleForExponentialBackoff (reply_status r)"
    using assms(3) by (cases r; simp)+
  obtain s1 e where s1: "exponentialSleep s0 = Ret () s1" and e: "is_sleep e"
    "history s1 = history s0 @ [e]" "results s1 = results s0" "cluster_replies s1 = cluster_replies s0"
    "m_CouchbaseCreated s1 = m_CouchbaseCreated s0" "m_Connected s1 = m_Connected s0"
    "lcb_user.more s1 = lcb_user.more s0"
    using exponentialSleep_run [of s0] by blast
  have ess: "\<not> essential e" using e(1) by (cases e) simp_all
  have "once_then_loop s = loop s0" using s0 ans by (simp add: once_then_loop_def andthen_def)
  also have "\<dots> = once_then_loop s1"
    using eff ans el s1 by (subst loop_unfold)
      (auto simp: attempt_effect_def once_then_loop_def andthen_def split: outcome.splits)
  finally show ?thesis
    using that [of s1] eff ans e ess assms(2,3)
    by (auto simp: attempt_effect_def effects_def essential_ev transient_no_result)
qed

lemma no_transient:
  assumes "m_CouchbaseCreated s" and "cluster_replies s = r # rs" and "\<not> transient r"
  shows "\<exists>s'. once_then_loop s = Ret (answered r) s' \<and> op_effect ev res r s s' \<and> cluster_replies s' = rs"
proof -
  from attempt_answers [OF assms(1,2)] obtain s0 where
    s0: "attempt s = Ret (answered r) s0" and eff: "attempt_effect ev res r s s0" by blast
  have "once_then_loop s = Ret (answered r) s0"
    using s0 eff assms(3) by (cases r)
      (auto simp: once_then_loop_def andthen_def attempt_effect_def loop_unfold [of s0])
  moreover have "op_effect ev res r s s0"
    using eff assms by (auto simp: op_effect_def attempt_effect_def effects_def essential_ev
        intro: exI [of _ "[]"])
  ultimately show ?thesis using eff assms(2) by (auto simp: attempt_effect_def)
qed

lemma run_cases:
  "(\<not> m_CouchbaseCreated s \<and> once_then_loop s = Throws Use_after_destroy s)
   \<or> (\<exists>r s'. once_then_loop s = Ret (answered r) s' \<and> op_effect ev res r s s')
   \<or> (\<exists>s'. once_then_loop s = Blocked s' \<and> idle_effect s s')"
proof (induction "cluster_replies s" arbitrary: s)
  case Nil
  then show ?case
    by (cases "m_CouchbaseCreated s")
      (simp_all add: once_then_loop_def andthen_def attempt_dead attempt_waits idle_effect_def)
next
  case (Cons r rs)
  then have rs: "cluster_replies s = r # rs" by simp
  show ?case
  proof (cases "m_CouchbaseCreated s")
    case False
    then show ?thesis by (simp add: once_then_loop_def andthen_def attempt_dead)
  next
    case created: True
    show ?thesis
    proof (cases "transient r")
      case False
      from no_transient [OF created rs False] show ?thesis by blast
    next
      case True
      from created rs True obtain s1 where s1: "once_then_loop s = once_then_loop s1"
        "m_CouchbaseCreated s1" "m_Connected s1 = m_Connected s" "cluster_replies s1 = rs"
        "effects s1 = effects s" "results s1 = results s" "lcb_user.more s1 = lcb_user.more s"
        by (rule after_transient)
      have lift: "op_effect ev res r' s s'" if "op_effect ev res r' s1 s'" for r' s'
        using that s1 rs True created
        by (fastforce simp: op_effect_def intro: exI [of _ "r # used" for used])
      have idle: "idle_effect s s'" if "idle_effect s1 s'" for s'
        using that s1 rs True created by (simp add: idle_effect_def)
      have "(\<exists>r s'. once_then_loop s1 = Ret (answered r) s' \<and> op_effect ev res r s1 s')
          \<or> (\<exists>s'. once_then_loop s1 = Blocked s' \<and> idle_effect s1 s')"
        using Cons.hyps(1) [of s1] s1(2,4) by simp
      then show ?thesis unfolding s1(1) using lift idle by blast
    qed
  qed
qed

lemma returns_when_answered:
  assumes "m_CouchbaseCreated s" and "\<not> list_all transient (cluster_replies s)"
  shows "returns (once_then_loop s)"
  using run_cases [of s] assms by (auto simp: idle_effect_def)

end

lemma transient_results:
  "transient r \<Longrightarrow> get_result r x = x" "transient r \<Longrightarrow> store_result r x = x"
  by (cases r; auto simp: get_result_def store_result_def lcbErrorTypeIsEligibleForExponentialBackoff_def)+

interpretation getting: retried_request
    "couchbaseGetRequest key" "get_backoff_loop key" "DidGet key" get_result for key
proof unfold_locales
  show "get_backoff_loop key s =
      (if lcbErrorTypeIsEligibleForExponentialBackoff (m_LastOpStatus s) then
         (case couchbaseGetRequest key (final_state (exponentialSleep s)) of
            Ret ok s' \<Rightarrow> if \<not> ok then Ret False s' else get_backoff_loop key s'
          | Throws e s' \<Rightarrow> Throws e s'
          | Blocked s' \<Rightarrow> Blocked s')
       else Ret True s)" for s
    by (rule get_backoff_loop.simps)
qed (simp_all add: get_attempt_cases transient_results)

interpretation storing: retried_request
    "couchbaseStoreRequest key v st c" "store_backoff_loop key v st c" "DidStore key v st c"
    store_result for key v st c
proof unfold_locales
  show "store_backoff_loop key v st c s =
      (if lcbErrorTypeIsEligibleForExponentialBackoff (m_LastOpStatus s) then
         (case couchbaseStoreRequest key v st c (final_state (exponentialSleep s)) of
            Ret ok s' \<Rightarrow> if \<not> ok then Ret False s' else store_backoff_loop key v st c s'
          | Throws e s' \<Rightarrow> Throws e s'
          | Blocked s' \<Rightarrow> Blocked s')
       else Ret True s)" for s
    by (rule store_backoff_loop.simps)
qed (simp_all add: store_attempt_cases transient_results)


lemma reset_timers_run:
  "\<exists>s1. resetExponentialSleepTimers s = Ret () s1 \<and> history s1 = history s
     \<and> results s1 = results s \<and> cluster_replies s1 = cluster_replies s
     \<and> m_CouchbaseCreated s1 = m_CouchbaseCreated s \<and> m_Connected s1 = m_Connected s
     \<and> m_LastOpStatus s1 = m_LastOpStatus s \<and> lcb_user.more s1 = lcb_user.more s"
  by (simp add: resetExponentialSleepTimers_def results_def)

text \<open>The three ways a retried request can go, for gets and for stores.\<close>

lemma get_backoff_cases:
  "(\<not> m_CouchbaseCreated s \<and> (\<exists>s'. couchbaseGetRequestWithExponentialBackoff key s = Throws Use_after_destroy s'
      \<and> effects s' = effects s \<and> lcb_user.more s' = lcb_user.more s))
   \<or> (\<exists>r s'. couchbaseGetRequestWithExponentialBackoff key s = Ret (answered r) s'
      \<and> op_effect (DidGet key) get_result r s s')
   \<or> (\<exists>s'. couchbaseGetRequestWithExponentialBackoff key s = Blocked s' \<and> idle_effect s s')"
proof -
  obtain s1 where s1: "resetExponentialSleepTimers s = Ret () s1" "history s1 = history s"
    "results s1 = results s" "cluster_replies s1 = cluster_replies s"
    "m_CouchbaseCreated s1 = m_CouchbaseCreated s" "m_Connected s1 = m_Connected s"
    "lcb_user.more s1 = lcb_user.more s"
    using reset_timers_run [of s] by blast
  have "couchbaseGetRequestWithExponentialBackoff key s = getting.once_then_loop key s1"
    by (simp add: couchbaseGetRequestWithExponentialBackoff_def getting.once_then_loop_def
        andthen_def s1(1))
  with getting.run_cases [of s1 key] s1(2-) show ?thesis
    by (auto simp: op_effect_def idle_effect_def effects_def)
qed

lemma store_backoff_cases:
  "(\<not> m_CouchbaseCreated s \<and> (\<exists>s'. couchbaseStoreRequestWithExponentialBackoff key v st c s = Throws Use_after_destroy s'
      \<and> effects s' = effects s \<and> lcb_user.more s' = lcb_user.more s))
   \<or> (\<exists>r s'. couchbaseStoreRequestWithExponentialBackoff key v st c s = Ret (answered r) s'
      \<and> op_effect (DidStore key v st c) store_result r s s')
   \<or> (\<exists>s'. couchbaseStoreRequestWithExponentialBackoff key v st c s = Blocked s' \<and> idle_effect s s')"
proof -
  obtain s1 where s1: "resetExponentialSleepTimers s = Ret () s1" "history s1 = history s"
    "results s1 = results s" "cluster_replies s1 = cluster_replies s"
    "m_CouchbaseCreated s1 = m_CouchbaseCreated s" "m_Connected s1 = m_Connected s"
    "lcb_user.more s1 = lcb_user.more s"
    using reset_timers_run [of s] by blast
  have "couchbaseStoreRequestWithExponentialBackoff key v st c s = storing.once_then_loop key v st c s1"
    by (simp add: couchbaseStoreRequestWithExponentialBackoff_def storing.once_then_loop_def
        andthen_def s1(1))
  with storing.run_cases [of s1 key v st c] s1(2-) show ?thesis
    by (auto simp: op_effect_def idle_effect_def effects_def)
qed


fun succeeded :: "'j reply \<Rightarrow> bool" where
  "succeeded (Answer e d c) = (e = LCB_SUCCESS)"
| "succeeded _ = False"

text \<open>The variants that require success, and the plain ones, as facts about a normal return.\<close>

definition strict_effect ::
  "('j reply \<Rightarrow> ('j, 'o) event) \<Rightarrow> ('j reply \<Rightarrow> 'j \<times> cas \<times> cas \<Rightarrow> 'j \<times> cas \<times> cas) \<Rightarrow> 'j reply
    \<Rightarrow> ('j, 'o, 'm) lcb_user_scheme \<Rightarrow> ('j, 'o, 'm) lcb_user_scheme \<Rightarrow> bool" where
  "strict_effect ev res r s s' \<longleftrightarrow>
     m_CouchbaseCreated s \<and> \<not> transient r \<and> m_CouchbaseCreated s' = succeeded r
     \<and> m_Connected s' = m_Connected s
     \<and> (\<exists>used. list_all transient used \<and> cluster_replies s = used @ r # cluster_replies s')
     \<and> effects s' = effects s @ [ev r] @ (if succeeded r then [] else [ErrorOutput])
     \<and> results s' = res r (results s)
     \<and> lcb_user.more s' = lcb_user.more s"

lemma get_strict_cases:
  "(\<not> m_CouchbaseCreated s \<and> (\<exists>s'. couchbaseGetRequestWithExponentialBackoffRequiringSuccess key s
        = Throws Use_after_destroy s' \<and> effects s' = effects s \<and> lcb_user.more s' = lcb_user.more s))
   \<or> (\<exists>r s'. couchbaseGetRequestWithExponentialBackoffRequiringSuccess key s = Ret (succeeded r) s'
      \<and> strict_effect (DidGet key) get_result r s s')
   \<or> (\<exists>s'. couchbaseGetRequestWithExponentialBackoffRequiringSuccess key s = Blocked s' \<and> idle_effect s s')"
  using get_backoff_cases [of s key]
proof (elim disjE exE conjE)
  fix r s' assume run: "couchbaseGetRequestWithExponentialBackoff key s = Ret (answered r) s'"
    and eff: "op_effect (DidGet key) get_result r s s'"
  have "\<exists>s''. couchbaseGetRequestWithExponentialBackoffRequiringSuccess key s = Ret (succeeded r) s''
      \<and> strict_effect (DidGet key) get_result r s s''"
    using run eff by (cases r)
      (auto simp: couchbaseGetRequestWithExponentialBackoffRequiringSuccess_def andthen_run
        op_effect_def strict_effect_def results_def effects_def errorOutput_def record_event_def
        destroyCouchbaseIfCreated_def get_result_def)
  then show ?thesis by blast
qed (auto simp: couchbaseGetRequestWithExponentialBackoffRequiringSuccess_def andthen_run)

lemma store_strict_cases:
  "(\<not> m_CouchbaseCreated s \<and> (\<exists>s'. couchbaseStoreRequestWithExponentialBackoffRequiringSuccess key v st c s
        = Throws Use_after_destroy s' \<and> effects s' = effects s \<and> lcb_user.more s' = lcb_user.more s))
   \<or> (\<exists>r s'. couchbaseStoreRequestWithExponentialBackoffRequiringSuccess key v st c s = Ret (succeeded r) s'
      \<and> strict_effect (DidStore key v st c) store_result r s s')
   \<or> (\<exists>s'. couchbaseStoreRequestWithExponentialBackoffRequiringSuccess key v st c s = Blocked s' \<and> idle_effect s s')"
  using store_backoff_cases [of s key v st c]
proof (elim disjE exE conjE)
  fix r s' assume run: "couchbaseStoreRequestWithExponentialBackoff key v st c s = Ret (answered r) s'"
    and eff: "op_effect (DidStore key v st c) store_result r s s'"
  have "\<exists>s''. couchbaseStoreRequestWithExponentialBackoffRequiringSuccess key v st c s = Ret (succeeded r) s''
      \<and> strict_effect (DidStore key v st c) store_result r s s''"
    using run eff by (cases r)
      (auto simp: couchbaseStoreRequestWithExponentialBackoffRequiringSuccess_def andthen_run
        op_effect_def strict_effect_def results_def effects_def errorOutput_def record_event_def
        destroyCouchbaseIfCreated_def store_result_def)
  then show ?thesis by blast
qed (auto simp: couchbaseStoreRequestWithExponentialBackoffRequiringSuccess_def andthen_run)

lemma get_strict_Ret:
  "couchbaseGetRequestWithExponentialBackoffRequiringSuccess key s = Ret ok s' \<Longrightarrow>
    \<exists>r. ok = succeeded r \<and> strict_effect (DidGet key) get_result r s s'"
  using get_strict_cases [of s key] by auto

lemma store_strict_Ret:
  "couchbaseStoreRequestWithExponentialBackoffRequiringSuccess key v st c s = Ret ok s' \<Longrightarrow>
    \<exists>r. ok = succeeded r \<and> strict_effect (DidStore key v st c) store_result r s s'"
  using store_strict_cases [of s key v st c] by auto

lemma get_backoff_Ret:
  "couchbaseGetRequestWithExponentialBackoff key s = Ret ok s' \<Longrightarrow>
    \<exists>r. ok = answered r \<and> op_effect (DidGet key) get_result r s s'"
  using get_backoff_cases [of s key] by auto

lemma store_backoff_Ret:
  "couchbaseStoreRequestWithExponentialBackoff key v st c s = Ret ok s' \<Longrightarrow>
    \<exists>r. ok = answered r \<and> op_effect (DidStore key v st c) store_result r s s'"
  using store_backoff_cases [of s key v st c] by auto

lemma succeededE: "succeeded r \<Longrightarrow> (\<And>d c. r = Answer LCB_SUCCESS d c \<Longrightarrow> P) \<Longrightarrow> P"
  by (cases r) auto

subsection \<open>An answer that comes at once\<close>

text \<open>Equations that run a request whose first answer is not a transient failure.\<close>

lemma not_transient_errors [simp]:
  "\<not> lcbErrorTypeIsEligibleForExponentialBackoff LCB_SUCCESS"
  "\<not> lcbErrorTypeIsEligibleForExponentialBackoff LCB_KEY_EEXISTS"
  "\<not> lcbErrorTypeIsEligibleForExponentialBackoff LCB_KEY_ENOENT"
  "\<not> lcbErrorTypeIsEligibleForExponentialBackoff (LCB_OTHER n)"
  by (simp_all add: lcbErrorTypeIsEligibleForExponentialBackoff_def)

lemma get_now [prog_run]:
  assumes "m_CouchbaseCreated s" and "cluster_replies s = Answer e d c # rs"
    and "\<not> lcbErrorTypeIsEligibleForExponentialBackoff e"
  shows "couchbaseGetRequestWithExponentialBackoff key s = Ret True
    (let s1 = s\<lparr>m_CurrentExponentialBackoffMicrosecondsAmount := 2500,
       m_CurrentExponentialBackoffSecondsAmount := 0, cluster_replies := rs,
       history := history s @ [DidGet key (Answer e d c)], m_LastOpStatus := e\<rparr>
     in if e = LCB_SUCCESS then s1\<lparr>m_LastDocGetted := d, m_LastGetCas := c\<rparr> else s1)"
  using assms
  by (cases "e = LCB_SUCCESS") (simp_all add: couchbaseGetRequestWithExponentialBackoff_def
      couchbaseGetRequest_def attempt_defs resetExponentialSleepTimers_def get_backoff_loop.simps Let_def)

lemma store_now [prog_run]:
  assumes "m_CouchbaseCreated s" and "cluster_replies s = Answer e d c # rs"
    and "\<not> lcbErrorTypeIsEligibleForExponentialBackoff e"
  shows "couchbaseStoreRequestWithExponentialBackoff key v st cas s = Ret True
    (let s1 = s\<lparr>m_CurrentExponentialBackoffMicrosecondsAmount := 2500,
       m_CurrentExponentialBackoffSecondsAmount := 0, cluster_replies := rs,
       history := history s @ [DidStore key v st cas (Answer e d c)], m_LastOpStatus := e\<rparr>
     in if e = LCB_SUCCESS then s1\<lparr>m_LastSetCas := c\<rparr> else s1)"
  using assms
  by (cases "e = LCB_SUCCESS") (simp_all add: couchbaseStoreRequestWithExponentialBackoff_def
      couchbaseStoreRequest_def attempt_defs resetExponentialSleepTimers_def store_backoff_loop.simps Let_def)

lemma get_strict_now [prog_run]:
  assumes "m_CouchbaseCreated s" and "cluster_replies s = Answer LCB_SUCCESS d c # rs"
  shows "couchbaseGetRequestWithExponentialBackoffRequiringSuccess key s = Ret True
    (s\<lparr>m_CurrentExponentialBackoffMicrosecondsAmount := 2500,
       m_CurrentExponentialBackoffSecondsAmount := 0, cluster_replies := rs,
       history := history s @ [DidGet key (Answer LCB_SUCCESS d c)], m_LastOpStatus := LCB_SUCCESS,
       m_LastDocGetted := d, m_LastGetCas := c\<rparr>)"
  using get_now [OF assms] by (simp add: couchbaseGetRequestWithExponentialBackoffRequiringSuccess_def andthen_def)

lemma store_strict_now [prog_run]:
  assumes "m_CouchbaseCreated s" and "cluster_replies s = Answer LCB_SUCCESS d c # rs"
  shows "couchbaseStoreRequestWithExponentialBackoffRequiringSuccess key v st cas s = Ret True
    (s\<lparr>m_CurrentExponentialBackoffMicrosecondsAmount := 2500,
       m_CurrentExponentialBackoffSecondsAmount := 0, cluster_replies := rs,
       history := history s @ [DidStore key v st cas (Answer LCB_SUCCESS d c)],
       m_LastOpStatus := LCB_SUCCESS, m_LastSetCas := c\<rparr>)"
  using store_now [OF assms] by (simp add: couchbaseStoreRequestWithExponentialBackoffRequiringSuccess_def andthen_def)

text \<open>A client that is connected and idle, for concrete runs.\<close>

definition connected_client :: "'j \<Rightarrow> 'j reply list \<Rightarrow> ('j, 'o) lcb_user" where
  "connected_client d rs = \<lparr>m_CouchbaseCreated = True, m_Connected = True, m_LastOpStatus = LCB_SUCCESS,
     m_LastDocGetted = d, m_LastGetCas = 0, m_LastSetCas = 0,
     m_CurrentExponentialBackoffMicrosecondsAmount = 0, m_CurrentExponentialBackoffSecondsAmount = 0,
     cluster_replies = rs, history = []\<rparr>"

lemma connected_client_sel [simp]:
  "m_CouchbaseCreated (connected_client d rs)" "cluster_replies (connected_client d rs) = rs"
  "history (connected_client d rs) = []" "effects (connected_client d rs) = []"
  by (simp_all add: connected_client_def effects_def)

subsection \<open>The sleeping schedule\<close>

definition backoff_delay :: "nat \<Rightarrow> ('j, 'o) event" where
  "backoff_delay i = (if i < 8 then USlept (5000 * 2 ^ i) else Slept (2 ^ (i - 8)))"

definition backoff_stage :: "nat \<Rightarrow> ('j, 'o, 'm) lcb_user_scheme \<Rightarrow> bool" where
  "backoff_stage k s \<longleftrightarrow>
    (if k \<le> 8 then m_CurrentExponentialBackoffMicrosecondsAmount s = 2500 * 2 ^ k
                    \<and> m_CurrentExponentialBackoffSecondsAmount s = 0
     else m_CurrentExponentialBackoffSecondsAmount s = 2 ^ (k - 9))"

lemma small_cases: "k \<le> (8::nat) \<Longrightarrow> k \<in> {0, 1, 2, 3, 4, 5, 6, 7, 8}"
  by auto

lemma exponentialSleep_stage:
  assumes "backoff_stage k s" and "k < 40"
  shows "\<exists>s'. exponentialSleep s = Ret () s' \<and> history s' = history s @ [backoff_delay k]
    \<and> backoff_stage (Suc k) s' \<and> cluster_replies s' = cluster_replies s
    \<and> m_CouchbaseCreated s' = m_CouchbaseCreated s \<and> m_LastOpStatus s' = m_LastOpStatus s"
proof (cases "k \<le> 8")
  case True
  then show ?thesis using assms(1) small_cases [OF True]
    by (auto simp: exponentialSleep_def backoff_stage_def backoff_delay_def Let_def)
next
  case False
  define j where "j = k - 9"
  have k: "k = j + 9" and j: "j < 31" using False assms(2) by (auto simp: j_def)
  have "(2 :: 32 word) ^ j > 0"
    using j by (simp add: word_greater_zero_iff)
  then show ?thesis using assms(1) k
    by (auto simp: exponentialSleep_def backoff_stage_def backoff_delay_def Let_def)
qed

lemma get_loop_schedule:
  assumes "list_all transient ts" and "\<not> transient r" and "k + length ts < 40"
    and "m_CouchbaseCreated s" and "backoff_stage k s"
    and "lcbErrorTypeIsEligibleForExponentialBackoff (m_LastOpStatus s)"
    and "cluster_replies s = ts @ r # rs"
  shows "\<exists>s'. get_backoff_loop key s = Ret (answered r) s' \<and> cluster_replies s' = rs
    \<and> filter is_sleep (history s')
       = filter is_sleep (history s) @ map backoff_delay [k ..< Suc (k + length ts)]"
  using assms
proof (induction ts arbitrary: k s)
  case Nil
  obtain s1 where s1: "exponentialSleep s = Ret () s1" "history s1 = history s @ [backoff_delay k]"
    "cluster_replies s1 = r # rs" "m_CouchbaseCreated s1"
    using exponentialSleep_stage [OF Nil(5)] Nil by auto
  obtain s2 where s2: "couchbaseGetRequest key s1 = Ret (answered r) s2"
    "attempt_effect (DidGet key) get_result r s1 s2"
    using get_attempt_cases(3) [OF s1(4,3)] by blast
  have d: "is_sleep (backoff_delay k)" by (simp add: backoff_delay_def)
  show ?case using Nil s1 s2 d
    by (cases r) (auto simp: get_backoff_loop.simps [of key s] get_backoff_loop.simps [of key s2]
        attempt_effect_def)
next
  case (Cons t ts)
  obtain s1 where s1: "exponentialSleep s = Ret () s1" "history s1 = history s @ [backoff_delay k]"
    "cluster_replies s1 = t # ts @ r # rs" "m_CouchbaseCreated s1" "backoff_stage (Suc k) s1"
    using exponentialSleep_stage [OF Cons.prems(5)] Cons.prems by auto
  have "\<exists>s2. couchbaseGetRequest key s1 = Ret (answered t) s2
      \<and> attempt_effect (DidGet key) get_result t s1 s2 \<and> backoff_stage (Suc k) s2"
    using s1(3-5) by (cases t) (simp_all add: couchbaseGetRequest_def attempt_defs
        attempt_effect_def results_def get_result_def backoff_stage_def)
  then obtain s2 where s2: "couchbaseGetRequest key s1 = Ret (answered t) s2"
    "attempt_effect (DidGet key) get_result t s1 s2" "backoff_stage (Suc k) s2" by blast
  have t: "answered t" "lcbErrorTypeIsEligibleForExponentialBackoff (reply_status t)"
    using Cons.prems(1) by (cases t; simp)+
  have d: "is_sleep (backoff_delay k)" by (simp add: backoff_delay_def)
  have "\<exists>s'. get_backoff_loop key s2 = Ret (answered r) s' \<and> cluster_replies s' = rs
    \<and> filter is_sleep (history s')
       = filter is_sleep (history s2) @ map backoff_delay [Suc k ..< Suc (Suc k + length ts)]"
    using Cons.prems(1-3) s1(3) s2 t by (intro Cons.IH) (auto simp: attempt_effect_def)
  moreover have "get_backoff_loop key s = get_backoff_loop key s2"
    using Cons.prems(6) s1(1) s2(1) t(1) by (simp add: get_backoff_loop.simps [of key s])
  moreover have "map backoff_delay [k ..< Suc (k + length (t # ts))]
      = backoff_delay k # map backoff_delay [Suc k ..< Suc (Suc k + length ts)]"
    by (subst upt_conv_Cons) simp_all
  moreover have "filter is_sleep (history s2) = filter is_sleep (history s) @ [backoff_delay k]"
    using s1(2) s2(2) t(1) d by (simp add: attempt_effect_def)
  ultimately show ?case by (metis append.assoc append_Cons append_Nil)
qed

text \<open>
  C27. A get that meets transient failures (busy, temporary failure) is retried until another answer
  comes, and the pauses between the attempts are exactly 5 ms doubled seven times (up to 640 ms) and
  then 1, 2, 4, ... seconds, for as many as forty retries; the answer then decides the result.
\<close>

theorem backoff_schedule:
  assumes "m_CouchbaseCreated s" and "cluster_replies s = ts @ r # rs"
    and "list_all transient ts" and "\<not> transient r" and "length ts \<le> 40"
  shows "\<exists>s'. couchbaseGetRequestWithExponentialBackoff key s = Ret (answered r) s'
    \<and> cluster_replies s' = rs
    \<and> filter is_sleep (history s') = filter is_sleep (history s) @ map backoff_delay [0 ..< length ts]"
proof -
  define s0 where "s0 = final_state (resetExponentialSleepTimers s)"
  have s0: "resetExponentialSleepTimers s = Ret () s0" "m_CouchbaseCreated s0"
    "cluster_replies s0 = ts @ r # rs" "history s0 = history s" "backoff_stage 0 s0"
    using assms by (simp_all add: s0_def resetExponentialSleepTimers_def backoff_stage_def)
  have run: "couchbaseGetRequestWithExponentialBackoff key s =
      andthen (couchbaseGetRequest key) (\<lambda>ok. if \<not> ok then return False else get_backoff_loop key) s0"
    by (simp add: couchbaseGetRequestWithExponentialBackoff_def andthen_def s0(1))
  show ?thesis
  proof (cases ts)
    case Nil
    then show ?thesis using s0 run assms(4) by (cases r)
        (auto simp: andthen_def couchbaseGetRequest_def attempt_defs get_backoff_loop.simps)
  next
    case (Cons t us)
    have "\<exists>s1. couchbaseGetRequest key s0 = Ret True s1 \<and> m_CouchbaseCreated s1
        \<and> cluster_replies s1 = us @ r # rs \<and> backoff_stage 0 s1
        \<and> filter is_sleep (history s1) = filter is_sleep (history s)
        \<and> lcbErrorTypeIsEligibleForExponentialBackoff (m_LastOpStatus s1)"
      using Cons s0 assms(3) by (cases t)
        (auto simp: couchbaseGetRequest_def attempt_defs backoff_stage_def)
    then obtain s1 where s1: "couchbaseGetRequest key s0 = Ret True s1" "m_CouchbaseCreated s1"
      "cluster_replies s1 = us @ r # rs" "backoff_stage 0 s1"
      "filter is_sleep (history s1) = filter is_sleep (history s)"
      "lcbErrorTypeIsEligibleForExponentialBackoff (m_LastOpStatus s1)" by blast
    have "list_all transient us" "0 + length us < 40" using Cons assms(3,5) by auto
    from get_loop_schedule [OF this(1) assms(4) this(2) s1(2,4,6,3)] show ?thesis
      using s1(1,5) run Cons by (auto simp: andthen_def)
  qed
qed

theorem backoff_schedule_witness:
  "\<exists>s'. couchbaseGetRequestWithExponentialBackoff ''user_bob'' (connected_client (0::nat)
      [Answer LCB_EBUSY 0 0, Answer LCB_ETMPFAIL 0 0, Answer LCB_SUCCESS 7 9] :: (nat, nat) lcb_user)
      = Ret True s' \<and> filter is_sleep (history s') = [USlept 5000, USlept 10000]"
proof -
  let ?s = "connected_client (0::nat)
      [Answer LCB_EBUSY 0 0, Answer LCB_ETMPFAIL 0 0, Answer LCB_SUCCESS 7 9] :: (nat, nat) lcb_user"
  have "m_CouchbaseCreated ?s"
    "cluster_replies ?s = [Answer LCB_EBUSY 0 0, Answer LCB_ETMPFAIL 0 0] @ Answer LCB_SUCCESS 7 9 # []"
    "list_all transient [Answer LCB_EBUSY (0::nat) 0, Answer LCB_ETMPFAIL 0 0]"
    "\<not> transient (Answer LCB_SUCCESS (7::nat) 9)" "history ?s = []"
    "length [Answer LCB_EBUSY (0::nat) 0, Answer LCB_ETMPFAIL 0 0] \<le> 40"
    by (simp_all add: connected_client_def lcbErrorTypeIsEligibleForExponentialBackoff_def)
  from backoff_schedule [OF this(1-4,6), of "''user_bob''"] this(5) show ?thesis
    by (auto simp: backoff_delay_def upt_rec)
qed

text \<open>
  The variant that requires success returns true only when the cluster answered with success, and
  then the CAS and the document the object remembers are those of that very answer; on every
  other answer it reports the error and destroys the instance.
\<close>

lemma strict_get_contract:
  assumes "couchbaseGetRequestWithExponentialBackoffRequiringSuccess key s = Ret ok s'"
  shows "ok = m_CouchbaseCreated s'
    \<and> (if ok then effects s' = effects s
              @ [DidGet key (Answer LCB_SUCCESS (m_LastDocGetted s') (m_LastGetCas s'))]
            \<and> m_LastSetCas s' = m_LastSetCas s
       else \<exists>r. \<not> succeeded r \<and> effects s' = effects s @ [DidGet key r, ErrorOutput]
            \<and> results s' = results s)"
  using get_strict_Ret [OF assms]
proof (elim exE conjE)
  fix r assume r: "ok = succeeded r" "strict_effect (DidGet key) get_result r s s'"
  show ?thesis
  proof (cases ok)
    case True
    then obtain d c where "r = Answer LCB_SUCCESS d c" using r(1) by (auto elim: succeededE)
    then show ?thesis using r by (auto simp: strict_effect_def results_def get_result_def)
  next
    case False
    have "get_result r x = x" for x
      using False r(1) by (cases r) (auto simp: get_result_def)
    then show ?thesis using r False by (auto simp: strict_effect_def)
  qed
qed

lemma strict_get_contract_witness:
  "\<exists>s'. couchbaseGetRequestWithExponentialBackoffRequiringSuccess ''tx_a_0_1''
      (connected_client (0::nat) [Answer LCB_SUCCESS 7 9] :: (nat, nat) lcb_user) = Ret True s'
    \<and> effects s' = [DidGet ''tx_a_0_1'' (Answer LCB_SUCCESS (m_LastDocGetted s') (m_LastGetCas s'))]"
proof -
  let ?s = "connected_client (0::nat) [Answer LCB_SUCCESS 7 9] :: (nat, nat) lcb_user"
  obtain s' where s': "couchbaseGetRequestWithExponentialBackoffRequiringSuccess ''tx_a_0_1'' ?s = Ret True s'"
    by (simp add: prog_run)
  from strict_get_contract [OF s'] s' show ?thesis by auto
qed


subsection \<open>What a request leaves alone\<close>

text \<open>No request touches the members of the subclass.\<close>

lemma record_event_more [simp]: "lcb_user.more (final_state (record_event e s)) = lcb_user.more s"
  by (simp add: record_event_def)

lemma request_more [simp]:
  "lcb_user.more (final_state (couchbaseGetRequestWithExponentialBackoff key s)) = lcb_user.more s"
  "lcb_user.more (final_state (couchbaseStoreRequestWithExponentialBackoff key v st c s)) = lcb_user.more s"
  "lcb_user.more (final_state (couchbaseGetRequestWithExponentialBackoffRequiringSuccess key s)) = lcb_user.more s"
  "lcb_user.more (final_state (couchbaseStoreRequestWithExponentialBackoffRequiringSuccess key v st c s)) = lcb_user.more s"
  subgoal using get_backoff_cases [of s key] by (auto simp: op_effect_def idle_effect_def)
  subgoal using store_backoff_cases [of s key v st c] by (auto simp: op_effect_def idle_effect_def)
  subgoal using get_strict_cases [of s key] by (auto simp: strict_effect_def idle_effect_def)
  subgoal using store_strict_cases [of s key v st c] by (auto simp: strict_effect_def idle_effect_def)
  done

lemma connect_more [simp]:
  "lcb_user.more (final_state (connectToCouchbase env s)) = lcb_user.more s"
  by (simp add: connectToCouchbase_def attempt_defs configurationCallback_def gets_def)

text \<open>An assertion about those members only is kept by every request.\<close>

definition members_only :: "(('j, 'o, 'm) lcb_user_scheme \<Rightarrow> bool) \<Rightarrow> bool" where
  "members_only I \<longleftrightarrow> (\<forall>s s'. lcb_user.more s' = lcb_user.more s \<longrightarrow> I s \<longrightarrow> I s')"

lemma keeps_requests [prog_rules]:
  assumes "members_only I"
  shows "keeps I (couchbaseGetRequestWithExponentialBackoff key)"
    and "keeps I (couchbaseStoreRequestWithExponentialBackoff key v st c)"
    and "keeps I (couchbaseGetRequestWithExponentialBackoffRequiringSuccess key)"
    and "keeps I (couchbaseStoreRequestWithExponentialBackoffRequiringSuccess key v st c)"
    and "keeps I (record_event e)" and "keeps I (emit x)" and "keeps I errorOutput"
    and "keeps I (connectToCouchbase env)"
  using assms unfolding members_only_def emit_def errorOutput_def
  by (auto intro!: keepsI)

subsection \<open>Symbolic execution of requests\<close>

lemma runs_to_emit [run_rules]:
  "runs_to (emit x) Q E s = Q () (s\<lparr>history := history s @ [Out x]\<rparr>)"
  "runs_to errorOutput Q E s = Q () (s\<lparr>history := history s @ [ErrorOutput]\<rparr>)"
  by (simp_all add: emit_def errorOutput_def record_event_def run_rules)

lemma effects_history [simp]:
  "effects (s\<lparr>history := history t @ es\<rparr>) = effects t @ filter essential es"
  by (simp add: effects_def)

lemma runs_to_record_event [run_rules]:
  "runs_to (record_event e) Q E s = Q () (s\<lparr>history := history s @ [e]\<rparr>)"
  by (simp add: record_event_def run_rules)

lemma runs_to_connect:
  assumes "\<And>s'. effects s' = effects s \<Longrightarrow> m_CouchbaseCreated s' \<Longrightarrow> cluster_replies s' = cluster_replies s
      \<Longrightarrow> lcb_user.more s' = lcb_user.more s \<Longrightarrow> Q True s'"
    and "\<And>s'. effects s' = effects s @ [ErrorOutput] \<Longrightarrow> lcb_user.more s' = lcb_user.more s \<Longrightarrow> Q False s'"
  shows "runs_to (connectToCouchbase env) Q E s"
  unfolding connectToCouchbase_def destroyCouchbaseIfCreated_def configurationCallback_def
  using assms by (auto simp: run_rules effects_def)

text \<open>
  The rules: a success, a failure and the cases where nothing is returned. The new state is known by its
  effects, its results and the members it keeps.
\<close>

lemma runs_to_get_strict:
  assumes "\<And>d c s'. effects s' = effects s @ [DidGet key (Answer LCB_SUCCESS d c)]
      \<Longrightarrow> results s' = (d, c, m_LastSetCas s) \<Longrightarrow> m_CouchbaseCreated s'
      \<Longrightarrow> lcb_user.more s' = lcb_user.more s \<Longrightarrow> Q True s'"
    and "\<And>r s'. \<not> succeeded r \<Longrightarrow> effects s' = effects s @ [DidGet key r, ErrorOutput]
      \<Longrightarrow> lcb_user.more s' = lcb_user.more s \<Longrightarrow> Q False s'"
    and "\<And>s'. effects s' = effects s \<Longrightarrow> lcb_user.more s' = lcb_user.more s \<Longrightarrow> E s'"
  shows "runs_to (couchbaseGetRequestWithExponentialBackoffRequiringSuccess key) Q E s"
  using get_strict_cases [of s key]
proof (elim disjE exE conjE)
  fix r s' assume run: "couchbaseGetRequestWithExponentialBackoffRequiringSuccess key s = Ret (succeeded r) s'"
    and eff: "strict_effect (DidGet key) get_result r s s'"
  show ?thesis
  proof (cases "succeeded r")
    case True
    then obtain d c where r: "r = Answer LCB_SUCCESS d c" by (elim succeededE)
    show ?thesis using run eff r assms(1) [of s' d c]
      by (simp add: runs_to_def strict_effect_def get_result_def results_def)
  next
    case False
    then show ?thesis using run eff assms(2) [of r s'] by (simp add: runs_to_def strict_effect_def)
  qed
qed (simp_all add: runs_to_def assms(3) idle_effect_def)

lemma runs_to_store_strict:
  assumes "\<And>d c s'. effects s' = effects s @ [DidStore key v st cas (Answer LCB_SUCCESS d c)]
      \<Longrightarrow> results s' = (m_LastDocGetted s, m_LastGetCas s, c) \<Longrightarrow> m_CouchbaseCreated s'
      \<Longrightarrow> lcb_user.more s' = lcb_user.more s \<Longrightarrow> Q True s'"
    and "\<And>r s'. \<not> succeeded r \<Longrightarrow> effects s' = effects s @ [DidStore key v st cas r, ErrorOutput]
      \<Longrightarrow> lcb_user.more s' = lcb_user.more s \<Longrightarrow> Q False s'"
    and "\<And>s'. effects s' = effects s \<Longrightarrow> lcb_user.more s' = lcb_user.more s \<Longrightarrow> E s'"
  shows "runs_to (couchbaseStoreRequestWithExponentialBackoffRequiringSuccess key v st cas) Q E s"
  using store_strict_cases [of s key v st cas]
proof (elim disjE exE conjE)
  fix r s' assume run: "couchbaseStoreRequestWithExponentialBackoffRequiringSuccess key v st cas s = Ret (succeeded r) s'"
    and eff: "strict_effect (DidStore key v st cas) store_result r s s'"
  show ?thesis
  proof (cases "succeeded r")
    case True
    then obtain d c where r: "r = Answer LCB_SUCCESS d c" by (elim succeededE)
    show ?thesis using run eff r assms(1) [of s' d c]
      by (simp add: runs_to_def strict_effect_def store_result_def results_def)
  next
    case False
    then show ?thesis using run eff assms(2) [of r s'] by (simp add: runs_to_def strict_effect_def)
  qed
qed (simp_all add: runs_to_def assms(3) idle_effect_def)

lemma runs_to_get:
  assumes "\<And>e d c s'. effects s' = effects s @ [DidGet key (Answer e d c)]
      \<Longrightarrow> results s' = (if e = LCB_SUCCESS then (d, c, m_LastSetCas s) else results s)
      \<Longrightarrow> m_LastOpStatus s' = e \<Longrightarrow> m_CouchbaseCreated s' \<Longrightarrow> lcb_user.more s' = lcb_user.more s \<Longrightarrow> Q True s'"
    and "\<And>r s'. \<not> answered r \<Longrightarrow> effects s' = effects s @ [DidGet key r, ErrorOutput]
      \<Longrightarrow> lcb_user.more s' = lcb_user.more s \<Longrightarrow> Q False s'"
    and "\<And>s'. effects s' = effects s \<Longrightarrow> lcb_user.more s' = lcb_user.more s \<Longrightarrow> E s'"
  shows "runs_to (couchbaseGetRequestWithExponentialBackoff key) Q E s"
  using get_backoff_cases [of s key]
proof (elim disjE exE conjE)
  fix r s' assume run: "couchbaseGetRequestWithExponentialBackoff key s = Ret (answered r) s'"
    and eff: "op_effect (DidGet key) get_result r s s'"
  show ?thesis
  proof (cases r)
    case (Answer e d c)
    then show ?thesis using run eff assms(1) [of s' e d c]
      by (auto simp: runs_to_def op_effect_def get_result_def results_def)
  qed (use run eff assms(2) [of r s'] in \<open>simp_all add: runs_to_def op_effect_def\<close>)
qed (simp_all add: runs_to_def assms(3) idle_effect_def)

lemma runs_to_store:
  assumes "\<And>e d c s'. effects s' = effects s @ [DidStore key v st cas (Answer e d c)]
      \<Longrightarrow> results s' = (if e = LCB_SUCCESS then (m_LastDocGetted s, m_LastGetCas s, c) else results s)
      \<Longrightarrow> m_LastOpStatus s' = e \<Longrightarrow> m_CouchbaseCreated s' \<Longrightarrow> lcb_user.more s' = lcb_user.more s \<Longrightarrow> Q True s'"
    and "\<And>r s'. \<not> answered r \<Longrightarrow> effects s' = effects s @ [DidStore key v st cas r, ErrorOutput]
      \<Longrightarrow> lcb_user.more s' = lcb_user.more s \<Longrightarrow> Q False s'"
    and "\<And>s'. effects s' = effects s \<Longrightarrow> lcb_user.more s' = lcb_user.more s \<Longrightarrow> E s'"
  shows "runs_to (couchbaseStoreRequestWithExponentialBackoff key v st cas) Q E s"
  using store_backoff_cases [of s key v st cas]
proof (elim disjE exE conjE)
  fix r s' assume run: "couchbaseStoreRequestWithExponentialBackoff key v st cas s = Ret (answered r) s'"
    and eff: "op_effect (DidStore key v st cas) store_result r s s'"
  show ?thesis
  proof (cases r)
    case (Answer e d c)
    then show ?thesis using run eff assms(1) [of s' e d c]
      by (auto simp: runs_to_def op_effect_def store_result_def results_def)
  qed (use run eff assms(2) [of r s'] in \<open>simp_all add: runs_to_def op_effect_def\<close>)
qed (simp_all add: runs_to_def assms(3) idle_effect_def)

lemmas runs_to_request = runs_to_get_strict runs_to_store_strict runs_to_get runs_to_store

subsection \<open>Traces that hold no marked event\<close>

text \<open>
  \<open>since X ok s\<close>: every effect after the trace \<open>X\<close> satisfies \<open>ok\<close>. When gets, or gets and stores, are
  allowed, the requests keep it.
\<close>

definition since :: "('j, 'o) event list \<Rightarrow> (('j, 'o) event \<Rightarrow> bool) \<Rightarrow> ('j, 'o, 'm) lcb_user_scheme \<Rightarrow> bool" where
  "since X ok s \<longleftrightarrow> (\<exists>es. effects s = X @ es \<and> list_all ok es)"

lemma sinceI: "effects s = X @ es \<Longrightarrow> list_all ok es \<Longrightarrow> since X ok s"
  by (auto simp: since_def)

lemma since_more:
  "since X ok s \<Longrightarrow> effects s' = effects s @ es \<Longrightarrow> list_all ok es \<Longrightarrow> since X ok s'"
  by (auto simp: since_def)

lemma since_start [simp]: "effects s = X \<Longrightarrow> since X ok s"
  by (auto simp: since_def)

lemma keeps_since_get:
  assumes "\<And>r. ok (DidGet key r)" and "ok ErrorOutput"
  shows "keeps (since X ok) (couchbaseGetRequestWithExponentialBackoff key)"
    and "keeps (since X ok) (couchbaseGetRequestWithExponentialBackoffRequiringSuccess key)"
proof -
  show "keeps (since X ok) (couchbaseGetRequestWithExponentialBackoff key)"
    by (rule keepsI, subst runs_to_final [symmetric], rule runs_to_get)
      (auto intro: since_more simp: assms)
  show "keeps (since X ok) (couchbaseGetRequestWithExponentialBackoffRequiringSuccess key)"
    by (rule keepsI, subst runs_to_final [symmetric], rule runs_to_get_strict)
      (auto intro: since_more simp: assms)
qed

lemma keeps_since_store:
  assumes "\<And>r. ok (DidStore key v st cas r)" and "ok ErrorOutput"
  shows "keeps (since X ok) (couchbaseStoreRequestWithExponentialBackoff key v st cas)"
    and "keeps (since X ok) (couchbaseStoreRequestWithExponentialBackoffRequiringSuccess key v st cas)"
proof -
  show "keeps (since X ok) (couchbaseStoreRequestWithExponentialBackoff key v st cas)"
    by (rule keepsI, subst runs_to_final [symmetric], rule runs_to_store)
      (auto intro: since_more simp: assms)
  show "keeps (since X ok) (couchbaseStoreRequestWithExponentialBackoffRequiringSuccess key v st cas)"
    by (rule keepsI, subst runs_to_final [symmetric], rule runs_to_store_strict)
      (auto intro: since_more simp: assms)
qed

lemma keeps_since_emit:
  assumes "ok (Out x)"
  shows "keeps (since X ok) (emit x)"
  by (rule keepsI, subst runs_to_final [symmetric])
    (auto simp: run_rules since_def assms intro: exI [of _ "es @ [Out x]" for es])

text \<open>
  \<open>does s P s'\<close>: between \<open>s\<close> and \<open>s'\<close> the trace grew by effects that satisfy \<open>P\<close>.
\<close>

definition does ::
  "('j, 'o, 'm) lcb_user_scheme \<Rightarrow> (('j, 'o) event list \<Rightarrow> bool) \<Rightarrow> ('j, 'o, 'm) lcb_user_scheme \<Rightarrow> bool" where
  "does s P s' \<longleftrightarrow> (\<exists>es. effects s' = effects s @ es \<and> P es)"

lemma doesI: "effects s' = effects s @ es \<Longrightarrow> P es \<Longrightarrow> does s P s'"
  by (auto simp: does_def)

lemma does_known: "effects s' = effects s @ es \<Longrightarrow> does s P s' \<longleftrightarrow> P es"
  by (auto simp: does_def)

lemma does_idle: "effects s' = effects s \<Longrightarrow> does s P s' \<longleftrightarrow> P []"
  by (auto simp: does_def)

lemma does_after:
  "does s1 P s' \<Longrightarrow> effects s1 = effects s @ es \<Longrightarrow> (\<And>fs. P fs \<Longrightarrow> Q (es @ fs)) \<Longrightarrow> does s Q s'"
  by (fastforce simp: does_def)

lemma does_mono: "does s P s' \<Longrightarrow> (\<And>es. P es \<Longrightarrow> Q es) \<Longrightarrow> does s Q s'"
  by (auto simp: does_def)

fun is_store :: "('j, 'o) event \<Rightarrow> bool" where
  "is_store (DidStore k v st c r) = True"
| "is_store _ = False"

end
