(* ===== verification/SatoshiAmounts.thy ===== *)
theory SatoshiAmounts
  imports Prelude "HOL-Library.Log_Nat"
begin

section \<open>Money: satoshis, IEEE doubles and fees\<close>

text \<open>
  The inline functions at the head of \<open>abc2couchbaseandjsonkeydefines.h\<close> convert between
  satoshis (\<open>long long\<close>) and bitcoins held in a \<open>double\<close>, and compute the fees in \<open>double\<close>
  arithmetic. A double is modelled by the rational number it denotes; every operation is the exact one
  followed by \<open>rnd\<close>, the rounding to 53 binary digits (nearest, ties to even) of IEEE 754. The exponent
  is not bounded: amounts of money stay far from overflow and from the subnormal range.

  The theorems bound the rounding: converting satoshis to a double and back is the identity up to
  \<open>2 ^ 50\<close> satoshis (about 11 million bitcoins), and the fee of 1.5 percent is never below the exact fee and
  never two satoshis above its ceiling, up to \<open>2 ^ 49\<close> satoshis.
\<close>

subsection \<open>Rounding to 53 bits\<close>

definition mag :: "rat \<Rightarrow> int" where
  "mag x = (if 1 \<le> x then bitlen \<lfloor>x\<rfloor> - 1 else - bitlen (\<lceil>1 / x\<rceil> - 1))"

definition round_even :: "rat \<Rightarrow> int" where
  "round_even y = (let f = \<lfloor>y\<rfloor>; r = y - of_int f in
     if r < 1 / 2 then f else if r > 1 / 2 then f + 1 else if even f then f else f + 1)"

definition rnd :: "rat \<Rightarrow> rat" where
  "rnd x = (if x = 0 then 0
     else let u = 2 powi (mag \<bar>x\<bar> - 52) in of_int (round_even (x / u)) * u)"

lemma bitlen_pos: "0 < n \<Longrightarrow> 0 < bitlen n"
  using bitlen_eq_zero_iff [of n] bitlen_nonneg [of n] by linarith

lemma mag_bounds:
  assumes "0 < x"
  shows "2 powi (mag x) \<le> x" and "x < 2 powi (mag x + 1)"
proof -
  have "2 powi (mag x) \<le> x \<and> x < 2 powi (mag x + 1)"
  proof (cases "1 \<le> x")
    case True
    define n where "n = \<lfloor>x\<rfloor>"
    have n: "0 < n" using True by (simp add: n_def le_floor_iff)
    define b where "b = nat (bitlen n - 1)"
    have b: "bitlen n = int b + 1" using bitlen_pos [OF n] by (simp add: b_def)
    have lo: "2 ^ b \<le> n" and hi: "n < 2 ^ (b + 1)"
      using bitlen_bounds [OF n] b by (simp_all add: nat_add_distrib)
    have "of_int (2 ^ b) \<le> x" using lo unfolding n_def by linarith
    moreover have "x < of_int (2 ^ (b + 1))" using hi unfolding n_def by linarith
    ultimately show ?thesis using True b by (simp add: mag_def n_def power_int_def nat_add_distrib)
  next
    case False
    define n where "n = \<lceil>1 / x\<rceil>"
    have "1 < 1 / x" using False assms by simp
    then have n: "0 < n - 1" unfolding n_def by linarith
    define b where "b = nat (bitlen (n - 1) - 1)"
    have b: "bitlen (n - 1) = int b + 1" using bitlen_pos [OF n] by (simp add: b_def)
    have lo: "2 ^ b \<le> n - 1" and hi: "n - 1 < 2 ^ (b + 1)"
      using bitlen_bounds [OF n] b by (simp_all add: nat_add_distrib)
    have "of_int (2 ^ b) < 1 / x" using lo unfolding n_def by linarith
    then have a: "x < 1 / 2 ^ b" using assms by (simp add: field_simps)
    have "n \<le> 2 ^ (b + 1)" using hi by simp
    then have "1 / x \<le> of_int (2 ^ (b + 1))" unfolding n_def by linarith
    then have c: "1 / 2 ^ (b + 1) \<le> x" using assms by (simp add: field_simps)
    have m: "mag x = - int (b + 1)" using False b by (simp add: mag_def n_def)
    then have m1: "mag x + 1 = - int b" by simp
    have p: "(2::rat) powi (- int (b + 1)) = 1 / 2 ^ (b + 1)"
      and p1: "(2::rat) powi (- int b) = 1 / 2 ^ b"
      unfolding power_int_minus power_int_of_nat by (simp_all only: inverse_eq_divide)
    show ?thesis unfolding m1 unfolding m p p1 using a c by blast
  qed
  then show "2 powi (mag x) \<le> x" and "x < 2 powi (mag x + 1)" by simp_all
qed

lemma round_even_error: "\<bar>of_int (round_even y) - y\<bar> \<le> 1 / 2"
proof -
  have "of_int \<lfloor>y\<rfloor> \<le> y" and "y < of_int \<lfloor>y\<rfloor> + 1" by linarith+
  then show ?thesis unfolding round_even_def Let_def by (auto simp: abs_le_iff)
qed

lemma round_even_int [simp]: "round_even (of_int n) = n"
  by (simp add: round_even_def)

text \<open>The half unit in the last place, relative to the value.\<close>

definition eps :: rat where "eps = 1 / 2 ^ 53"

lemma rnd_error: "\<bar>rnd x - x\<bar> \<le> \<bar>x\<bar> * eps"
proof (cases "x = 0")
  case True
  then show ?thesis by (simp add: rnd_def)
next
  case False
  define u where "u = (2::rat) powi (mag \<bar>x\<bar> - 52)"
  have u: "0 < u" by (simp add: u_def)
  have r: "rnd x = of_int (round_even (x / u)) * u"
    using False by (simp add: rnd_def u_def Let_def)
  have "rnd x - x = (of_int (round_even (x / u)) - x / u) * u"
    using u by (simp add: r field_simps)
  then have "\<bar>rnd x - x\<bar> = \<bar>of_int (round_even (x / u)) - x / u\<bar> * u"
    using u by (simp add: abs_mult)
  also have "\<dots> \<le> 1 / 2 * u" using round_even_error [of "x / u"] u by (intro mult_right_mono) auto
  also have "\<dots> = 2 powi (mag \<bar>x\<bar>) * eps"
    by (simp add: u_def eps_def power_int_diff)
  also have "\<dots> \<le> \<bar>x\<bar> * eps"
    using mag_bounds(1) [of "\<bar>x\<bar>"] False by (intro mult_right_mono) (simp_all add: eps_def)
  finally show ?thesis .
qed

lemma rnd_0 [simp]: "rnd 0 = 0"
  by (simp add: rnd_def)

lemma rnd_bounds:
  assumes "0 \<le> x"
  shows "x - x * eps \<le> rnd x" and "rnd x \<le> x + x * eps"
  using rnd_error [of x] assms by (simp_all add: abs_le_iff)

lemma rnd_nonneg: "0 \<le> x \<Longrightarrow> 0 \<le> rnd x"
proof -
  assume x: "0 \<le> x"
  have "x * eps \<le> x * 1" using x by (intro mult_left_mono) (simp_all add: eps_def)
  then show ?thesis using rnd_bounds(1) [OF x] by simp
qed

text \<open>Integers of at most 53 bits are doubles.\<close>

lemma rnd_int:
  assumes "\<bar>n\<bar> < 2 ^ 53"
  shows "rnd (of_int n) = of_int n"
proof (cases "n = 0")
  case True
  then show ?thesis by simp
next
  case False
  define x where "x = (of_int \<bar>n\<bar> :: rat)"
  have x: "0 < x" "1 \<le> x" using False by (simp_all add: x_def)
  have "0 \<le> mag x"
  proof -
    have "0 < bitlen \<lfloor>x\<rfloor>" using x by (intro bitlen_pos) linarith
    then show ?thesis using x by (simp add: mag_def)
  qed
  moreover have "mag x < 53"
  proof (rule ccontr)
    assume "\<not> mag x < 53"
    then have "(2::rat) powi 53 \<le> 2 powi (mag x)" by (intro power_int_increasing) simp_all
    also have "\<dots> \<le> x" by (rule mag_bounds(1) [OF x(1)])
    finally have "(of_int (2 ^ 53) :: rat) \<le> of_int \<bar>n\<bar>" by (simp add: x_def)
    then have "2 ^ 53 \<le> \<bar>n\<bar>" unfolding of_int_le_iff .
    then show False using assms by simp
  qed
  ultimately obtain k where k: "mag x = int k" "k \<le> 52"
    by (cases "mag x") auto
  define u where "u = (2::rat) powi (mag x - 52)"
  have "mag x - 52 = - int (52 - k)" using k by simp
  then have u: "u = 1 / 2 ^ (52 - k)"
    unfolding u_def by (simp only: power_int_minus power_int_of_nat inverse_eq_divide)
  have "of_int n / u = of_int (n * 2 ^ (52 - k))" by (simp add: u)
  then have "round_even (of_int n / u) = n * 2 ^ (52 - k)" by (metis round_even_int)
  moreover have "\<bar>of_int n :: rat\<bar> = x" by (simp add: x_def)
  ultimately show ?thesis using False by (simp add: rnd_def Let_def u_def [symmetric]) (simp add: u)
qed


subsection \<open>The conversions\<close>

definition dmul :: "rat \<Rightarrow> rat \<Rightarrow> rat" where "dmul x y = rnd (x * y)"
definition ddiv :: "rat \<Rightarrow> rat \<Rightarrow> rat" where "ddiv x y = rnd (x / y)"
definition dadd :: "rat \<Rightarrow> rat \<Rightarrow> rat" where "dadd x y = rnd (x + y)"

text \<open>The cast of a double to an integer drops the fraction.\<close>

definition cast_int :: "rat \<Rightarrow> int" where
  "cast_int x = (if x < 0 then \<lceil>x\<rceil> else \<lfloor>x\<rfloor>)"

definition satoshiStringToSatoshiInt :: "string \<Rightarrow> int option" where
  "satoshiStringToSatoshiInt satoshiString = lexical_cast_longlong satoshiString"

definition jsonDoubleToSatoshiIntIncludingRounding :: "rat \<Rightarrow> int" where
  "jsonDoubleToSatoshiIntIncludingRounding inputDouble =
     cast_int (dadd (dmul inputDouble 100000000) (if inputDouble < 0 then - (1 / 2) else 1 / 2))"

definition satoshiIntToJsonDouble :: "int \<Rightarrow> rat" where
  "satoshiIntToJsonDouble inputSatoshiInt = ddiv (rnd (of_int inputSatoshiInt)) 100000000"

definition satoshiIntToSatoshiString :: "int \<Rightarrow> string" where
  "satoshiIntToSatoshiString inputSatoshiInt = show_int inputSatoshiInt"

text \<open>\<open>snprintf(buf, 20, "%.8f", d)\<close>: the exact value rounded to 8 decimals, cut to 19 characters.\<close>

fun pad_digits :: "nat \<Rightarrow> nat \<Rightarrow> string" where
  "pad_digits 0 n = []"
| "pad_digits (Suc k) n = pad_digits k (n div 10) @ [digit_char (n mod 10)]"

lemma pad_digits_numeral:
  "pad_digits (numeral k) n = pad_digits (pred_numeral k) (n div 10) @ [digit_char (n mod 10)]"
  by (subst numeral_eq_Suc) (simp only: pad_digits.simps)

definition fixed8 :: "int \<Rightarrow> string" where
  "fixed8 k = show_nat (nat \<bar>k\<bar> div 100000000) @ CHR ''.'' # pad_digits 8 (nat \<bar>k\<bar> mod 100000000)"

definition formatDoubleAs8decimalPlacesString :: "rat \<Rightarrow> string" where
  "formatDoubleAs8decimalPlacesString inputDouble =
     take 19 ((if inputDouble < 0 then ''-'' else []) @ fixed8 (round_even (inputDouble * 100000000)))"

definition jsonDoubleToJsonStringAfterProperlyRoundingJsonDouble :: "rat \<Rightarrow> string" where
  "jsonDoubleToJsonStringAfterProperlyRoundingJsonDouble inputDouble =
     formatDoubleAs8decimalPlacesString
       (satoshiIntToJsonDouble (jsonDoubleToSatoshiIntIncludingRounding inputDouble))"

definition satoshiIntToJsonString :: "int \<Rightarrow> string" where
  "satoshiIntToJsonString inputSatoshiInt =
     jsonDoubleToJsonStringAfterProperlyRoundingJsonDouble (satoshiIntToJsonDouble inputSatoshiInt)"

definition satoshiStringToJsonDouble :: "string \<Rightarrow> rat option" where
  "satoshiStringToJsonDouble inputSatoshiString =
     map_option satoshiIntToJsonDouble (satoshiStringToSatoshiInt inputSatoshiString)"

definition satoshiStringToJsonString :: "string \<Rightarrow> string option" where
  "satoshiStringToJsonString inputSatoshiString =
     map_option (\<lambda>n. jsonDoubleToJsonStringAfterProperlyRoundingJsonDouble (satoshiIntToJsonDouble n))
       (satoshiStringToSatoshiInt inputSatoshiString)"

text \<open>\<open>boost::lexical_cast<double>\<close> is the library's: the parameter \<open>cast_double\<close>.\<close>

definition jsonStringToSatoshiInt :: "(string \<Rightarrow> rat option) \<Rightarrow> string \<Rightarrow> int option" where
  "jsonStringToSatoshiInt cast_double inputJsonString =
     map_option jsonDoubleToSatoshiIntIncludingRounding (cast_double inputJsonString)"

definition roundUpJsonDoubleToNearestSatoshi :: "rat \<Rightarrow> rat" where
  "roundUpJsonDoubleToNearestSatoshi inputExactJsonDouble =
    (let withdrawalFeeInSatoshisAkaReadyForCeil = dmul inputExactJsonDouble 100000000;
         withdrawalInSatoshisRoundedUp = of_int \<lceil>withdrawalFeeInSatoshisAkaReadyForCeil\<rceil>
     in ddiv withdrawalInSatoshisRoundedUp 100000000)"

definition ABC2_TRANSACTION_FEE_PERCENT :: rat where "ABC2_TRANSACTION_FEE_PERCENT = 3 / 2"
definition ABC2_WITHDRAWAL_FEE_PERCENT :: rat where "ABC2_WITHDRAWAL_FEE_PERCENT = 3 / 2"

definition transactionFeeForTransactionAmount :: "rat \<Rightarrow> rat" where
  "transactionFeeForTransactionAmount transactionAmount =
     roundUpJsonDoubleToNearestSatoshi (dmul transactionAmount (ddiv ABC2_TRANSACTION_FEE_PERCENT 100))"

definition withdrawalFeeForWithdrawalAmount :: "rat \<Rightarrow> rat" where
  "withdrawalFeeForWithdrawalAmount withdrawalAmount =
     roundUpJsonDoubleToNearestSatoshi (dmul withdrawalAmount (ddiv ABC2_WITHDRAWAL_FEE_PERCENT 100))"

text \<open>The composition both callers form: satoshis in, fee in satoshis out.\<close>

definition fee_in_satoshis :: "int \<Rightarrow> int" where
  "fee_in_satoshis n =
     jsonDoubleToSatoshiIntIncludingRounding (withdrawalFeeForWithdrawalAmount (satoshiIntToJsonDouble n))"

lemma transaction_fee_same:
  "transactionFeeForTransactionAmount = withdrawalFeeForWithdrawalAmount"
  by (rule ext) (simp add: transactionFeeForTransactionAmount_def withdrawalFeeForWithdrawalAmount_def
      ABC2_TRANSACTION_FEE_PERCENT_def ABC2_WITHDRAWAL_FEE_PERCENT_def)

subsection \<open>Rounding errors of the conversions\<close>

lemma rnd_close:
  assumes "\<bar>x - y\<bar> \<le> d" and "\<bar>x\<bar> \<le> m"
  shows "\<bar>rnd x - y\<bar> \<le> d + m * eps"
proof -
  have "\<bar>x\<bar> * eps \<le> m * eps" using assms(2) by (intro mult_right_mono) (simp_all add: eps_def)
  then show ?thesis using rnd_error [of x] assms(1) by linarith
qed

lemma json_double_error:
  assumes "\<bar>n\<bar> \<le> 2 ^ 50"
  shows "\<bar>satoshiIntToJsonDouble n * 100000000 - of_int n\<bar> \<le> 1 / 8"
proof -
  have n: "\<bar>of_int n :: rat\<bar> \<le> 2 ^ 50"
    using assms by (metis of_int_abs of_int_le_iff of_int_numeral of_int_power)
  have "\<bar>n\<bar> < 2 ^ 53" using assms by simp
  then have d: "satoshiIntToJsonDouble n = rnd (of_int n / 100000000)"
    by (simp add: satoshiIntToJsonDouble_def ddiv_def rnd_int)
  have "\<bar>satoshiIntToJsonDouble n - of_int n / 100000000\<bar> \<le> \<bar>of_int n / 100000000\<bar> * eps"
    unfolding d by (rule rnd_error)
  also have "\<dots> \<le> 2 ^ 50 / 100000000 * eps"
    using n by (intro mult_right_mono) (simp_all add: eps_def)
  finally have "\<bar>satoshiIntToJsonDouble n - of_int n / 100000000\<bar> \<le> 1 / 800000000"
    by (simp add: eps_def)
  then show ?thesis by linarith
qed

lemma json_double_sign:
  assumes "\<bar>n\<bar> \<le> 2 ^ 50"
  shows "satoshiIntToJsonDouble n < 0 \<longleftrightarrow> n < 0"
proof -
  have e: "\<bar>satoshiIntToJsonDouble n * 100000000 - of_int n\<bar> \<le> 1 / 8"
    by (rule json_double_error [OF assms])
  show ?thesis
  proof (cases n "0 :: int" rule: linorder_cases)
    case less
    then have "of_int n \<le> (-1 :: rat)" by linarith
    then show ?thesis using e less by linarith
  next
    case equal
    then show ?thesis by (simp add: satoshiIntToJsonDouble_def ddiv_def)
  next
    case greater
    then have "(1 :: rat) \<le> of_int n" by linarith
    then show ?thesis using e greater by linarith
  qed
qed

lemma satoshi_roundtrip:
  assumes "\<bar>n\<bar> \<le> 2 ^ 50"
  shows "jsonDoubleToSatoshiIntIncludingRounding (satoshiIntToJsonDouble n) = n"
proof -
  let ?d = "satoshiIntToJsonDouble n"
  let ?h = "(if ?d < 0 then - (1 / 2) else 1 / 2) :: rat"
  have n: "\<bar>of_int n :: rat\<bar> \<le> 2 ^ 50"
    using assms by (metis of_int_abs of_int_le_iff of_int_numeral of_int_power)
  have e: "\<bar>?d * 100000000 - of_int n\<bar> \<le> 1 / 8" by (rule json_double_error [OF assms])
  then have m: "\<bar>?d * 100000000\<bar> \<le> 2 ^ 50 + 1" using n by linarith
  have "\<bar>dmul ?d 100000000 - of_int n\<bar> \<le> 1 / 8 + (2 ^ 50 + 1) * eps"
    unfolding dmul_def by (rule rnd_close [OF e m])
  then have e2: "\<bar>dmul ?d 100000000 - of_int n\<bar> \<le> 17 / 64" by (simp add: eps_def)
  then have "\<bar>(dmul ?d 100000000 + ?h) - (of_int n + ?h)\<bar> \<le> 17 / 64" by simp
  moreover have "\<bar>?h\<bar> \<le> 1 / 2" by simp
  then have "\<bar>dmul ?d 100000000 + ?h\<bar> \<le> 2 ^ 50 + 2" using n e2 by linarith
  ultimately have "\<bar>dadd (dmul ?d 100000000) ?h - (of_int n + ?h)\<bar> \<le> 17 / 64 + (2 ^ 50 + 2) * eps"
    unfolding dadd_def by (rule rnd_close)
  then have e3: "\<bar>dadd (dmul ?d 100000000) ?h - (of_int n + ?h)\<bar> < 1 / 2" by (simp add: eps_def)
  show ?thesis
  proof (cases "n < 0")
    case True
    then have h: "?h = - (1 / 2)" using json_double_sign [OF assms] by simp
    have "of_int n \<le> (-1 :: rat)" using True by linarith
    then have "dadd (dmul ?d 100000000) ?h < 0" using e3 unfolding h by linarith
    moreover have "\<lceil>dadd (dmul ?d 100000000) ?h\<rceil> = n"
      using e3 unfolding h by (intro ceiling_unique) linarith+
    ultimately show ?thesis by (simp add: jsonDoubleToSatoshiIntIncludingRounding_def cast_int_def)
  next
    case False
    then have h: "?h = 1 / 2" using json_double_sign [OF assms] by simp
    have "(0 :: rat) \<le> of_int n" using False by simp
    then have "\<not> dadd (dmul ?d 100000000) ?h < 0" using e3 unfolding h by linarith
    moreover have "\<lfloor>dadd (dmul ?d 100000000) ?h\<rfloor> = n"
      using e3 unfolding h by (intro floor_unique) linarith+
    ultimately show ?thesis by (simp add: jsonDoubleToSatoshiIntIncludingRounding_def cast_int_def)
  qed
qed

text \<open>
  C29. Money converted to a double of bitcoins and back is unchanged: for every amount of at most 2^50
  satoshis in absolute value, the rounding conversion inverts the division by 10^8.
\<close>

theorem satoshi_double_roundtrip:
  "\<bar>n\<bar> \<le> 2 ^ 50 \<Longrightarrow> jsonDoubleToSatoshiIntIncludingRounding (satoshiIntToJsonDouble n) = n"
  by (rule satoshi_roundtrip)

theorem satoshi_double_roundtrip_witness:
  "jsonDoubleToSatoshiIntIncludingRounding (satoshiIntToJsonDouble (- 300000)) = - 300000"
  by (rule satoshi_double_roundtrip) simp


subsection \<open>Printing\<close>

lemma pad_digits_length [simp]: "length (pad_digits k n) = k"
  by (induction k arbitrary: n) simp_all

lemma show_nat_length: "n < 10 ^ Suc k \<Longrightarrow> length (show_nat n) \<le> Suc k"
proof (induction k arbitrary: n)
  case 0
  then show ?case by (subst show_nat.simps) simp
next
  case (Suc k)
  show ?case
  proof (cases "n < 10")
    case True
    then show ?thesis by (subst show_nat.simps) simp
  next
    case False
    have "n div 10 < 10 ^ Suc k" using Suc.prems by (simp add: less_mult_imp_div_less mult.commute)
    then show ?thesis using Suc.IH False by (subst show_nat.simps) simp
  qed
qed

lemma round_even_near:
  assumes "\<bar>y - of_int n\<bar> < 1 / 2"
  shows "round_even y = n"
proof (cases "of_int n \<le> y")
  case True
  then have "\<lfloor>y\<rfloor> = n" and "y - of_int n < 1 / 2"
    using assms by (intro floor_unique, linarith+)
  then show ?thesis unfolding round_even_def Let_def by presburger
next
  case False
  then have f: "\<lfloor>y\<rfloor> = n - 1" using assms by (intro floor_unique) (simp_all add: abs_less_iff)
  have "y - of_int n + 1 > 1 / 2" using assms by linarith
  then have "y - of_int (n - 1) > 1 / 2" by simp
  with f show ?thesis unfolding round_even_def Let_def by (auto dest: less_asym)
qed

text \<open>
  An amount of satoshis is printed as its exact decimal number of bitcoins with eight decimals (the
  text sent to bitcoind as the amount of a payout): sign, whole bitcoins, point, eight digits, for every
  amount of at most 2^50 satoshis; neither the double nor the 20 byte buffer loses a digit.
\<close>

theorem satoshi_text_exact:
  assumes "\<bar>n\<bar> \<le> 2 ^ 50"
  shows "satoshiIntToJsonString n = (if n < 0 then ''-'' else []) @ fixed8 n"
proof -
  have "round_even (satoshiIntToJsonDouble n * 100000000) = n"
    using json_double_error [OF assms] by (intro round_even_near) linarith
  moreover have "nat \<bar>n\<bar> div 100000000 < 10 ^ Suc 7"
    using assms by (simp add: less_mult_imp_div_less nat_less_iff)
  then have "length (show_nat (nat \<bar>n\<bar> div 100000000)) \<le> Suc 7" by (rule show_nat_length)
  then have "length (fixed8 n) \<le> 17" by (simp add: fixed8_def)
  then have "length ((if n < 0 then ''-'' else []) @ fixed8 n) \<le> 19" by simp
  ultimately show ?thesis
    using json_double_sign [OF assms]
    by (simp add: satoshiIntToJsonString_def jsonDoubleToJsonStringAfterProperlyRoundingJsonDouble_def
        formatDoubleAs8decimalPlacesString_def satoshi_roundtrip [OF assms])
qed

theorem satoshi_text_exact_witness:
  "satoshiIntToJsonString 3000001 = ''0.03000001''"
proof -
  have "satoshiIntToJsonString 3000001 = fixed8 3000001"
    using satoshi_text_exact [of 3000001] by simp
  also have "\<dots> = ''0.03000001''"
    by (simp add: fixed8_def show_nat.simps digit_char_eval pad_digits_numeral)
  finally show ?thesis .
qed

subsection \<open>The fee\<close>

lemma rnd_between:
  assumes "0 \<le> lo" and "lo \<le> x" and "x \<le> hi"
  shows "lo * (1 - eps) \<le> rnd x" and "rnd x \<le> hi * (1 + eps)"
proof -
  have "0 \<le> x" using assms by simp
  then have "x * (1 - eps) \<le> rnd x" and "rnd x \<le> x * (1 + eps)"
    using rnd_bounds [of x] by (simp_all add: algebra_simps)
  moreover have "lo * (1 - eps) \<le> x * (1 - eps)" "x * (1 + eps) \<le> hi * (1 + eps)"
    using assms by (intro mult_right_mono; simp add: eps_def)+
  ultimately show "lo * (1 - eps) \<le> rnd x" and "rnd x \<le> hi * (1 + eps)" by linarith+
qed

lemma fee_product_error:
  assumes "0 \<le> n" and "n \<le> 2 ^ 49"
  shows "\<bar>dmul (dmul (satoshiIntToJsonDouble n) (ddiv (3 / 2) 100)) 100000000 - of_int n * 3 / 200\<bar> < 1 / 200"
proof -
  let ?a = "of_int n / 100000000 :: rat" and ?q = "3 / 200 :: rat"
  let ?w = "satoshiIntToJsonDouble n" and ?p = "ddiv (3 / 2) 100"
  have n: "0 \<le> (of_int n :: rat)" "(of_int n :: rat) \<le> 2 ^ 49"
    using assms by (simp, metis of_int_le_iff of_int_numeral of_int_power)
  have e: "0 < 1 - eps" "0 < 1 + eps" by (simp_all add: eps_def)
  have "?w = rnd ?a" using assms by (simp add: satoshiIntToJsonDouble_def ddiv_def rnd_int)
  then have w: "?a * (1 - eps) \<le> ?w" "?w \<le> ?a * (1 + eps)"
    using rnd_between [of ?a ?a ?a] n by simp_all
  have "?p = rnd ?q" by (simp add: ddiv_def)
  then have q: "?q * (1 - eps) \<le> ?p" "?p \<le> ?q * (1 + eps)"
    using rnd_between [of ?q ?q ?q] by simp_all
  have lo0: "0 \<le> ?a * (1 - eps)" "0 \<le> ?q * (1 - eps)" using n e by simp_all
  have "?a * (1 - eps) * (?q * (1 - eps)) \<le> ?w * ?p"
    using w(1) q(1) lo0 by (intro mult_mono) linarith+
  moreover have "?w * ?p \<le> ?a * (1 + eps) * (?q * (1 + eps))"
    using w q lo0 n e by (intro mult_mono) (auto intro: order_trans)
  moreover have "0 \<le> ?a * (1 - eps) * (?q * (1 - eps))" using lo0 by (rule mult_nonneg_nonneg)
  ultimately have f: "?a * (1 - eps) * (?q * (1 - eps)) * (1 - eps) \<le> dmul ?w ?p"
      "dmul ?w ?p \<le> ?a * (1 + eps) * (?q * (1 + eps)) * (1 + eps)"
    unfolding dmul_def using rnd_between by blast+
  let ?t = "of_int n * 3 / 200 :: rat"
  have "?t * (1 - eps) ^ 3 \<le> dmul ?w ?p * 100000000" "dmul ?w ?p * 100000000 \<le> ?t * (1 + eps) ^ 3"
    using f by (simp_all add: power3_eq_cube field_simps)
  moreover have "0 \<le> ?t * (1 - eps) ^ 3" using n e by simp
  ultimately have g: "?t * (1 - eps) ^ 3 * (1 - eps) \<le> dmul (dmul ?w ?p) 100000000"
      "dmul (dmul ?w ?p) 100000000 \<le> ?t * (1 + eps) ^ 3 * (1 + eps)"
    unfolding dmul_def [of "dmul ?w ?p"] using rnd_between by blast+
  have t: "0 \<le> ?t" "?t \<le> 2 ^ 49 * 3 / 200" using n by simp_all
  have "?t * (1 - (1 - eps) ^ 4) \<le> 2 ^ 49 * 3 / 200 * (1 - (1 - eps) ^ 4)"
    using t by (intro mult_right_mono) (auto intro!: power_le_one simp: eps_def)
  also have "\<dots> < 1 / 200" by (simp add: eps_def power_divide)
  finally have l: "?t * (1 - (1 - eps) ^ 4) < 1 / 200" .
  have "?t * ((1 + eps) ^ 4 - 1) \<le> 2 ^ 49 * 3 / 200 * ((1 + eps) ^ 4 - 1)"
    using t by (intro mult_right_mono) (auto intro!: one_le_power simp: eps_def)
  also have "\<dots> < 1 / 200" by (simp add: eps_def power_divide)
  finally have u: "?t * ((1 + eps) ^ 4 - 1) < 1 / 200" .
  have p4: "x * y ^ 3 * y = x * y ^ 4" for x y :: rat by (simp add: eval_nat_numeral)
  have "?t * (1 - eps) ^ 3 * (1 - eps) = ?t - ?t * (1 - (1 - eps) ^ 4)"
    and "?t * (1 + eps) ^ 3 * (1 + eps) = ?t + ?t * ((1 + eps) ^ 4 - 1)"
    unfolding p4 by (simp_all add: right_diff_distrib)
  then show ?thesis using g l u by linarith
qed

lemma fee_in_satoshis_bounds:
  assumes "0 \<le> n" and "n \<le> 2 ^ 49"
  shows "3 * n \<le> 200 * fee_in_satoshis n \<and> 200 * fee_in_satoshis n \<le> 3 * n + 200
    \<and> (200 * fee_in_satoshis n = 3 * n + 200 \<longrightarrow> 200 dvd n)"
proof -
  let ?g = "dmul (dmul (satoshiIntToJsonDouble n) (ddiv (3 / 2) 100)) 100000000"
  have g: "\<bar>?g - of_int n * 3 / 200\<bar> < 1 / 200" by (rule fee_product_error [OF assms])
  define c where "c = \<lceil>?g\<rceil>"
  have c1: "?g \<le> of_int c" and c2: "of_int c < ?g + 1" unfolding c_def by linarith+
  have "of_int n * 3 < (of_int c * 200 + 1 :: rat)" using g c1 by linarith
  then have "of_int (3 * n) < (of_int (200 * c + 1) :: rat)" by simp
  then have lo: "3 * n \<le> 200 * c" unfolding of_int_less_iff by simp
  have "of_int c * 200 < (of_int n * 3 + 201 :: rat)" using g c2 by linarith
  then have "of_int (200 * c) < (of_int (3 * n + 201) :: rat)" by simp
  then have hi: "200 * c \<le> 3 * n + 200" unfolding of_int_less_iff by simp
  have "\<bar>c\<bar> \<le> 2 ^ 50" using lo hi assms by (simp add: abs_le_iff)
  moreover from this have "roundUpJsonDoubleToNearestSatoshi
      (dmul (satoshiIntToJsonDouble n) (ddiv (3 / 2) 100)) = satoshiIntToJsonDouble c"
    unfolding roundUpJsonDoubleToNearestSatoshi_def Let_def c_def [symmetric]
    by (simp add: satoshiIntToJsonDouble_def rnd_int)
  ultimately have "fee_in_satoshis n = c"
    by (simp add: fee_in_satoshis_def withdrawalFeeForWithdrawalAmount_def
        ABC2_WITHDRAWAL_FEE_PERCENT_def satoshi_roundtrip)
  moreover have "200 dvd n" if "200 * c = 3 * n + 200"
  proof -
    have "n = 200 * (67 * (c - 1) - n)" using that by simp
    then show ?thesis by (rule dvdI)
  qed
  ultimately show ?thesis using lo hi by simp
qed

text \<open>
  C30. The 1.5 percent fee, computed in doubles and rounded up, is never below the exact fee and exceeds its
  ceiling by one satoshi at most, and only when the exact fee is a whole number of satoshis, for every
  amount up to 2^49 satoshis.
\<close>

theorem fee_bounds:
  assumes "0 \<le> n" and "n \<le> 2 ^ 49"
  shows "3 * n \<le> 200 * fee_in_satoshis n \<and> 200 * fee_in_satoshis n \<le> 3 * n + 200
    \<and> (200 * fee_in_satoshis n = 3 * n + 200 \<longrightarrow> 200 dvd n)"
  by (rule fee_in_satoshis_bounds [OF assms])

theorem fee_bounds_witness:
  "fee_in_satoshis 3000001 = 45001"
  using fee_bounds [of 3000001] by simp

text \<open>
  The extra satoshi is real: on 1000 satoshis the exact fee is 15, and the code charges 16, because the
  product of doubles lies just above 15 before it is rounded up.
\<close>

lemma fee_of_a_whole_amount_can_exceed:
  "fee_in_satoshis 1000 = 16 \<and> 200 * 15 = 3 * (1000::int)"
proof
  show "fee_in_satoshis 1000 = 16" by code_simp
qed simp

lemma near_satoshis:
  assumes "0 \<le> N" "N \<le> 2 ^ 50" "0 \<le> x" "\<bar>x * 100000000 - of_int N\<bar> \<le> 3 / 16"
  shows "jsonDoubleToSatoshiIntIncludingRounding x = N"
proof -
  have N: "0 \<le> (of_int N :: rat)" "(of_int N :: rat) \<le> 2 ^ 50"
    using assms(1,2) by (simp, metis of_int_le_iff of_int_numeral of_int_power)
  have "\<bar>x * 100000000\<bar> \<le> 2 ^ 50 + 1" using assms(3,4) N by linarith
  then have "\<bar>dmul x 100000000 - of_int N\<bar> \<le> 3 / 16 + (2 ^ 50 + 1) * eps"
    unfolding dmul_def by (rule rnd_close [OF assms(4)])
  then have e: "\<bar>dmul x 100000000 - of_int N\<bar> \<le> 21 / 64" by (simp add: eps_def)
  then have "\<bar>(dmul x 100000000 + 1 / 2) - (of_int N + 1 / 2)\<bar> \<le> 21 / 64" by simp
  moreover have "\<bar>dmul x 100000000 + 1 / 2\<bar> \<le> 2 ^ 50 + 2" using N e by linarith
  ultimately have "\<bar>dadd (dmul x 100000000) (1 / 2) - (of_int N + 1 / 2)\<bar> \<le> 21 / 64 + (2 ^ 50 + 2) * eps"
    unfolding dadd_def by (rule rnd_close)
  then have e2: "\<bar>dadd (dmul x 100000000) (1 / 2) - (of_int N + 1 / 2)\<bar> < 1 / 2" by (simp add: eps_def)
  then have "\<not> dadd (dmul x 100000000) (1 / 2) < 0" using N by linarith
  moreover have "\<lfloor>dadd (dmul x 100000000) (1 / 2)\<rfloor> = N" using e2 by (intro floor_unique) linarith+
  ultimately show ?thesis using assms(3) by (simp add: jsonDoubleToSatoshiIntIncludingRounding_def cast_int_def)
qed

lemma json_double_relative_error:
  assumes "0 \<le> n" "n < 2 ^ 53"
  shows "\<bar>satoshiIntToJsonDouble n * 100000000 - of_int n\<bar> \<le> of_int n * eps"
proof -
  have "satoshiIntToJsonDouble n = rnd (of_int n / 100000000)"
    using assms by (simp add: satoshiIntToJsonDouble_def ddiv_def rnd_int)
  moreover have "\<bar>rnd (of_int n / 100000000) - of_int n / 100000000\<bar> \<le> of_int n / 100000000 * eps"
    using rnd_error [of "of_int n / 100000000"] assms(1) by simp
  ultimately show ?thesis by (simp add: abs_le_iff field_simps)
qed

text \<open>The fee of a whole number of satoshis is one.\<close>

lemma fee_is_whole:
  assumes "0 \<le> n" "n \<le> 2 ^ 49"
  shows "withdrawalFeeForWithdrawalAmount (satoshiIntToJsonDouble n) = satoshiIntToJsonDouble (fee_in_satoshis n)"
    and "0 \<le> fee_in_satoshis n" "fee_in_satoshis n \<le> 2 ^ 44"
proof -
  let ?g = "dmul (dmul (satoshiIntToJsonDouble n) (ddiv (3 / 2) 100)) 100000000"
  note b = fee_in_satoshis_bounds [OF assms]
  show f: "0 \<le> fee_in_satoshis n" "fee_in_satoshis n \<le> 2 ^ 44" using b assms by auto
  have g: "\<bar>?g - of_int n * 3 / 200\<bar> < 1 / 200" by (rule fee_product_error [OF assms])
  define c where "c = \<lceil>?g\<rceil>"
  have n: "0 \<le> (of_int n :: rat)" "(of_int n :: rat) \<le> 2 ^ 49"
    using assms by (simp, metis of_int_le_iff of_int_numeral of_int_power)
  have g2: "of_int c < ?g + 1" "?g \<le> of_int c" unfolding c_def by linarith+
  have "(of_int n :: rat) \<le> 562949953421312" using n by simp
  then have "of_int c \<le> (1125899906842624 :: rat)" using g g2 n(1) by linarith
  then have "of_int c \<le> (of_int (2 ^ 50) :: rat)" by simp
  then have c1: "c \<le> 2 ^ 50" unfolding of_int_le_iff .
  have "- 1 < (of_int c :: rat)" using g g2 n by linarith
  then have "of_int (- 1) < (of_int c :: rat)" by simp
  then have "- 1 < c" unfolding of_int_less_iff .
  with c1 have c: "\<bar>c\<bar> \<le> 2 ^ 50" by simp
  then have "roundUpJsonDoubleToNearestSatoshi (dmul (satoshiIntToJsonDouble n) (ddiv (3 / 2) 100)) = satoshiIntToJsonDouble c"
    unfolding roundUpJsonDoubleToNearestSatoshi_def Let_def c_def [symmetric]
    by (simp add: satoshiIntToJsonDouble_def rnd_int)
  then have w: "withdrawalFeeForWithdrawalAmount (satoshiIntToJsonDouble n) = satoshiIntToJsonDouble c"
    by (simp add: withdrawalFeeForWithdrawalAmount_def ABC2_WITHDRAWAL_FEE_PERCENT_def)
  then have "fee_in_satoshis n = c" using c by (simp add: fee_in_satoshis_def satoshi_roundtrip)
  with w show "withdrawalFeeForWithdrawalAmount (satoshiIntToJsonDouble n) = satoshiIntToJsonDouble (fee_in_satoshis n)" by simp
qed

text \<open>Two amounts added as doubles are added as satoshis.\<close>

lemma sum_of_doubles:
  assumes "0 \<le> n" "n \<le> 2 ^ 49" "0 \<le> c" "c \<le> 2 ^ 44"
  shows "jsonDoubleToSatoshiIntIncludingRounding (dadd (satoshiIntToJsonDouble n) (satoshiIntToJsonDouble c)) = n + c"
proof (rule near_satoshis)
  let ?a = "satoshiIntToJsonDouble n" and ?b = "satoshiIntToJsonDouble c"
  have n: "0 \<le> (of_int n :: rat)" "(of_int n :: rat) \<le> 2 ^ 49"
    using assms by (simp, metis of_int_le_iff of_int_numeral of_int_power)
  have c: "0 \<le> (of_int c :: rat)" "(of_int c :: rat) \<le> 2 ^ 44"
    using assms by (simp, metis of_int_le_iff of_int_numeral of_int_power)
  have "of_int n * eps \<le> 2 ^ 49 * eps" "of_int c * eps \<le> 2 ^ 44 * eps"
    using n c by (intro mult_right_mono; simp add: eps_def)+
  then have small: "of_int n * eps \<le> 1 / 16" "of_int c * eps \<le> 1 / 512" by (simp_all add: eps_def)
  have "\<bar>?a * 100000000 - of_int n\<bar> \<le> 1 / 16"
    using json_double_relative_error [of n] assms(1,2) small(1) by simp
  moreover have "\<bar>?b * 100000000 - of_int c\<bar> \<le> 1 / 512"
    using json_double_relative_error [of c] assms(3,4) small(2) by simp
  ultimately have "\<bar>(?a + ?b) * 100000000 - (of_int n + of_int c)\<bar> \<le> 33 / 512"
    unfolding distrib_right by linarith
  then have e: "\<bar>(?a + ?b) - (of_int n + of_int c) / 100000000\<bar> \<le> 33 / 51200000000"
    by (simp add: abs_le_iff field_simps)
  have p: "0 \<le> ?a" "0 \<le> ?b" using assms n c by (simp_all add: satoshiIntToJsonDouble_def ddiv_def rnd_nonneg)
  have "(of_int n :: rat) \<le> 562949953421312" "(of_int c :: rat) \<le> 17592186044416" using n c by simp_all
  then have "?a + ?b \<le> 580542139465729 / 100000000" using e unfolding add_divide_distrib by linarith
  then have "\<bar>?a + ?b\<bar> \<le> (2 ^ 49 + 2 ^ 44 + 1) / 100000000" using p by simp
  then have "\<bar>rnd (?a + ?b) - (of_int n + of_int c) / 100000000\<bar> \<le> 33 / 51200000000 + (2 ^ 49 + 2 ^ 44 + 1) / 100000000 * eps"
    by (rule rnd_close [OF e])
  then have "\<bar>rnd (?a + ?b) - (of_int n + of_int c) / 100000000\<bar> \<le> 3 / 1600000000"
    by (simp add: eps_def)
  then show "\<bar>dadd ?a ?b * 100000000 - of_int (n + c)\<bar> \<le> 3 / 16"
    by (simp add: dadd_def abs_le_iff field_simps)
  show "0 \<le> dadd ?a ?b" using p by (simp add: dadd_def rnd_nonneg)
  show "0 \<le> n + c" "n + c \<le> 2 ^ 50" using assms by simp_all
qed

end
