(* ===== verification/Withdraw.thy ===== *)
theory Withdraw
  imports Couchbase SatoshiAmounts
begin

section \<open>The withdrawal request processor\<close>

text \<open>
  \<open>Solutions/Abc2WithdrawRequestProcessor\<close>: the tool that pays withdrawals out of the users'
  balances. It iterates over the requests a view found not done, first to calculate the total,
  then to execute the payouts through bitcoind's RPC. One payout locks the profile towards the request,
  sets the request to \<open>processing\<close>, posts the command, and on the reply debits, unlocks
  and closes the request.

  The object is a subclass of the synchronous Couchbase client; its members are the record below.
  The network reply and the user's choices arrive as separate calls, as the Qt slots do.
  Every handler ends in one of two ways, stop or process the next request; all those calls are in tail
  position, so the mutual recursion of the code is the loop
  \<open>processNextWithdrawalRequestOrEmitFinishedIfNoMore\<close>. The texts of plain messages are left out.
  Qt's base 64 is the parameter \<open>base64\<close>.
\<close>

datatype withdraw_mode = CalculateMode | ExecuteMode

datatype way_to_handle =
    RevertWithdrawalRequestStateToUnprocessedAndContinueProcessingWithdrawalRequests
  | RevertWithdrawalRequestStateToUnprocessedAndStopProcessingWithdrawalRequests
  | SetWithdrawalRequestStateToBitcoindReturnedErrorAndContinueProcessingWithdrawalRequests
  | SetWithdrawalRequestStateToBitcoindReturnedErrorAndStopProcessingWithdrawalRequests

datatype withdraw_output =
    O_message
  | E_message
  | CalculationIterationComplete string
  | BitcoindCommunicationsErrorDetected string string
  | WithdrawalRequestProcessingFinished bool
  | PostToBitcoind string

datatype next_step = ProcessNext | StopHere

record 'j wp = "('j, withdraw_output) lcb_user" +
  m_Mode :: withdraw_mode
  m_RunningTotalOfAllWithdrawalRequestsInSatoshis :: int
  m_UserBalancesInSatoshisDuringCalculationMode :: "string \<rightharpoonup> int"
  m_ViewQueryHadError :: bool
  m_ViewQueryPropertyTree :: ptree
  m_ViewQueryResultsAsStringList :: "string list"
  m_CurrentIndexIntoViewQueryResultsStringList :: int
  m_ViewQueryResultsStringListSize :: int
  m_UsersWithProfilesFoundLocked :: "string set"
  m_CurrentKeyToNotDoneWithdrawalRequest :: string
  m_CurrentUserRequestingWithdrawal :: string
  m_CurrentWithdrawalRequestPropertyTree :: ptree
  m_CurrentUserProfilePropertyTree :: ptree
  m_CurrentUserBalanceInSatoshis :: int
  m_CurrentWithdrawRequestDesiredAmountToWithdrawInSatoshis :: int
  m_CurrentWithdrawRequestTotalAmountToWithdraw :: int
  m_CurrentUserProfileInLockedWithdrawingStateCas :: cas
  m_CurrentWithdrawalRequestInProcessingStateCas :: cas
  m_CurrentBitcoinCommand :: string
  m_WithdrawRequestInProcessedButProfileNeedsDeductingAndUnlockingCas :: cas

text \<open>The answer to an HTTP post: an error of the network, or a status code (if any) and a body.\<close>

datatype 'j network_reply = NetworkError string | HttpReply "int option" 'j

definition finish :: "bool \<Rightarrow> ('j wp, next_step) prog" where
  "finish success = andthen (emit (WithdrawalRequestProcessingFinished success)) (\<lambda>_. return StopHere)"

subsection \<open>Calculating\<close>

definition debitCurrentWithdrawalRequestFromUsersCalculatedRollingBalance :: "('j wp, bool) prog" where
  "debitCurrentWithdrawalRequestFromUsersCalculatedRollingBalance = reading (\<lambda>s.
     let user = m_CurrentUserRequestingWithdrawal s;
         rollingUserBalance = (case m_UserBalancesInSatoshisDuringCalculationMode s user of
             None \<Rightarrow> m_CurrentUserBalanceInSatoshis s | Some b \<Rightarrow> b);
         debitted = wrap64 (rollingUserBalance - m_CurrentWithdrawRequestTotalAmountToWithdraw s)
     in if debitted < 0 then return False
        else andthen (modify (\<lambda>s. s\<lparr>m_UserBalancesInSatoshisDuringCalculationMode :=
                (m_UserBalancesInSatoshisDuringCalculationMode s)(user \<mapsto> debitted)\<rparr>)) (\<lambda>_. return True))"

definition readInUserBalanceAndCalculateWithdrawalFeesEtc :: "('j wp, unit) prog" where
  "readInUserBalanceAndCalculateWithdrawalFeesEtc =
    andthen (gets m_CurrentUserProfilePropertyTree) (\<lambda>profile.
    andthen (pt_need JSON_USER_ACCOUNT_BALANCE profile) (\<lambda>userBalanceInSatoshisStr.
    andthen (require Bad_lexical_cast (lexical_cast_longlong userBalanceInSatoshisStr)) (\<lambda>balance.
    andthen (modify (\<lambda>s. s\<lparr>m_CurrentUserBalanceInSatoshis := balance\<rparr>)) (\<lambda>_.
    andthen (gets m_CurrentWithdrawalRequestPropertyTree) (\<lambda>request.
    andthen (pt_need JSON_WITHDRAW_FUNDS_REQUESTED_AMOUNT request) (\<lambda>amountToWithdrawInSatoshisStr.
    andthen (require Bad_lexical_cast (lexical_cast_longlong amountToWithdrawInSatoshisStr)) (\<lambda>desired.
    andthen (modify (\<lambda>s. s\<lparr>m_CurrentWithdrawRequestDesiredAmountToWithdrawInSatoshis := desired\<rparr>)) (\<lambda>_.
    let desiredAsJsonDouble = satoshiIntToJsonDouble desired;
        withdrawalFeeJsonDouble = withdrawalFeeForWithdrawalAmount desiredAsJsonDouble;
        withdrawalFeeInSatoshis = jsonDoubleToSatoshiIntIncludingRounding withdrawalFeeJsonDouble
    in modify (\<lambda>s. s\<lparr>m_CurrentWithdrawRequestTotalAmountToWithdraw :=
          wrap64 (desired + withdrawalFeeInSatoshis)\<rparr>)))))))))"

subsection \<open>Closing a payout\<close>

definition continueAt_setWithdrawalRequestStateToProcessedAndDone :: "'j json \<Rightarrow> ('j wp, next_step) prog" where
  "continueAt_setWithdrawalRequestStateToProcessedAndDone J =
    andthen (modify (\<lambda>s. s\<lparr>m_CurrentWithdrawalRequestPropertyTree :=
        pt_put JSON_WITHDRAW_FUNDS_REQUEST_STATE_KEY STATE_PROCESSEDDONE
          (m_CurrentWithdrawalRequestPropertyTree s)\<rparr>)) (\<lambda>_.
    reading (\<lambda>s.
    andthen (couchbaseStoreRequestWithExponentialBackoffRequiringSuccess
        (m_CurrentKeyToNotDoneWithdrawalRequest s)
        (write_json J (m_CurrentWithdrawalRequestPropertyTree s)) LCB_SET
        (m_WithdrawRequestInProcessedButProfileNeedsDeductingAndUnlockingCas s)) (\<lambda>ok.
    if \<not> ok then finish False
    else return ProcessNext)))"

definition continueAt_deductAmountFromCurrentUserProfileBalanceAndCasSwapUnlockIt ::
  "'j json \<Rightarrow> ('j wp, next_step) prog" where
  "continueAt_deductAmountFromCurrentUserProfileBalanceAndCasSwapUnlockIt J =
    andthen (gets m_Mode) (\<lambda>mode.
    andthen (if mode = CalculateMode
             then debitCurrentWithdrawalRequestFromUsersCalculatedRollingBalance
             else return True) (\<lambda>sufficient.
    if \<not> sufficient then andthen (emit E_message) (\<lambda>_. finish False)
    else
    andthen (modify (\<lambda>s. s\<lparr>m_CurrentUserBalanceInSatoshis :=
        wrap64 (m_CurrentUserBalanceInSatoshis s - m_CurrentWithdrawRequestTotalAmountToWithdraw s)\<rparr>)) (\<lambda>_.
    andthen (modify (\<lambda>s. s\<lparr>m_CurrentUserProfilePropertyTree :=
        pt_erase JSON_USER_ACCOUNT_LOCKED_WITHDRAWING_FUNDS
          (pt_put JSON_USER_ACCOUNT_BALANCE (show_int (m_CurrentUserBalanceInSatoshis s))
            (m_CurrentUserProfilePropertyTree s))\<rparr>)) (\<lambda>_.
    reading (\<lambda>s.
    andthen (couchbaseStoreRequestWithExponentialBackoffRequiringSuccess
        (userAccountKey (m_CurrentUserRequestingWithdrawal s))
        (write_json J (m_CurrentUserProfilePropertyTree s)) LCB_SET
        (m_CurrentUserProfileInLockedWithdrawingStateCas s)) (\<lambda>ok.
    if \<not> ok then finish False
    else continueAt_setWithdrawalRequestStateToProcessedAndDone J))))))"

subsection \<open>Processing one request\<close>

text \<open>
  \<open>processWithdrawalRequest\<close> in the order of its stages. The last one locks the profile, sets the
  request to \<open>processing\<close> and posts the payout command; it stops because the reply comes as an
  event of its own.
\<close>

definition payout_command :: "string \<Rightarrow> int \<Rightarrow> string" where
  "payout_command keyToWithdrawTo desired =
    ''{\"jsonrpc\": \"1.0\", \"id\":\"curltest\", \"method\": \"sendtoaddress\", \"params\": [\"''
     @ keyToWithdrawTo @ ''\", '' @ satoshiIntToJsonString desired @ ''] }''"

definition lock_and_issue_payout ::
  "'j json \<Rightarrow> string \<Rightarrow> cas \<Rightarrow> cas \<Rightarrow> ('j wp, next_step) prog" where
  "lock_and_issue_payout J userRequestingWithdrawal withdrawalRequestCas userProfileCas =
    andthen (modify (\<lambda>s. s\<lparr>m_CurrentUserProfilePropertyTree :=
        pt_put JSON_USER_ACCOUNT_LOCKED_WITHDRAWING_FUNDS (m_CurrentKeyToNotDoneWithdrawalRequest s)
          (m_CurrentUserProfilePropertyTree s)\<rparr>)) (\<lambda>_.
    reading (\<lambda>s.
    andthen (couchbaseStoreRequestWithExponentialBackoff
        (userAccountKey (m_CurrentUserRequestingWithdrawal s))
        (write_json J (m_CurrentUserProfilePropertyTree s)) LCB_SET userProfileCas) (\<lambda>ok.
    if \<not> ok then finish False
    else
    andthen (gets m_LastOpStatus) (\<lambda>status.
    if status \<noteq> LCB_SUCCESS then
      (if status = LCB_KEY_EEXISTS then
         andthen (modify (\<lambda>s. s\<lparr>m_UsersWithProfilesFoundLocked :=
            insert userRequestingWithdrawal (m_UsersWithProfilesFoundLocked s)\<rparr>)) (\<lambda>_.
         return ProcessNext)
       else finish False)
    else
    andthen (modify (\<lambda>s. s\<lparr>m_CurrentUserProfileInLockedWithdrawingStateCas := m_LastSetCas s\<rparr>)) (\<lambda>_.
    andthen (modify (\<lambda>s. s\<lparr>m_CurrentWithdrawalRequestPropertyTree :=
        pt_put JSON_WITHDRAW_FUNDS_REQUEST_STATE_KEY STATE_PROCESSING
          (m_CurrentWithdrawalRequestPropertyTree s)\<rparr>)) (\<lambda>_.
    reading (\<lambda>s.
    andthen (couchbaseStoreRequestWithExponentialBackoffRequiringSuccess
        (m_CurrentKeyToNotDoneWithdrawalRequest s)
        (write_json J (m_CurrentWithdrawalRequestPropertyTree s)) LCB_SET withdrawalRequestCas) (\<lambda>ok.
    if \<not> ok then finish False
    else
    andthen (modify (\<lambda>s. s\<lparr>m_CurrentWithdrawalRequestInProcessingStateCas := m_LastSetCas s\<rparr>)) (\<lambda>_.
    andthen (gets m_CurrentWithdrawalRequestPropertyTree) (\<lambda>request.
    andthen (pt_need JSON_WITHDRAW_FUNDS_BITCOIN_PAYOUT_KEY request) (\<lambda>keyToWithdrawTo.
    andthen (modify (\<lambda>s. s\<lparr>m_CurrentBitcoinCommand :=
        payout_command keyToWithdrawTo (m_CurrentWithdrawRequestDesiredAmountToWithdrawInSatoshis s)\<rparr>)) (\<lambda>_.
    andthen (gets m_CurrentBitcoinCommand) (\<lambda>payload.
    andthen (emit (PostToBitcoind payload)) (\<lambda>_. return StopHere))))))))))))))"

definition calculate_or_pay ::
  "'j json \<Rightarrow> string \<Rightarrow> cas \<Rightarrow> cas \<Rightarrow> ('j wp, next_step) prog" where
  "calculate_or_pay J userRequestingWithdrawal withdrawalRequestCas userProfileCas =
    reading (\<lambda>s.
    if m_Mode s = ExecuteMode
       \<and> m_CurrentUserBalanceInSatoshis s < m_CurrentWithdrawRequestTotalAmountToWithdraw s then
      andthen (modify (\<lambda>s. s\<lparr>m_CurrentWithdrawalRequestPropertyTree :=
          pt_put JSON_WITHDRAW_FUNDS_REQUEST_STATE_KEY STATE_INSUFFICIENTFUNDS
            (m_CurrentWithdrawalRequestPropertyTree s)\<rparr>)) (\<lambda>_.
      reading (\<lambda>s.
      andthen (couchbaseStoreRequestWithExponentialBackoffRequiringSuccess
          (m_CurrentKeyToNotDoneWithdrawalRequest s)
          (write_json J (m_CurrentWithdrawalRequestPropertyTree s)) LCB_SET withdrawalRequestCas) (\<lambda>ok.
      if \<not> ok then finish False else return ProcessNext)))
    else if m_Mode s = CalculateMode then
      andthen debitCurrentWithdrawalRequestFromUsersCalculatedRollingBalance (\<lambda>sufficient.
      if \<not> sufficient then return ProcessNext
      else
      andthen (modify (\<lambda>s. s\<lparr>m_RunningTotalOfAllWithdrawalRequestsInSatoshis :=
          wrap64 (m_RunningTotalOfAllWithdrawalRequestsInSatoshis s
            + m_CurrentWithdrawRequestDesiredAmountToWithdrawInSatoshis s)\<rparr>)) (\<lambda>_.
      return ProcessNext))
    else lock_and_issue_payout J userRequestingWithdrawal withdrawalRequestCas userProfileCas)"

definition process_unprocessed_request ::
  "'j json \<Rightarrow> string \<Rightarrow> cas \<Rightarrow> cas \<Rightarrow> ('j wp, next_step) prog" where
  "process_unprocessed_request J userRequestingWithdrawal withdrawalRequestCas userProfileCas =
    andthen (gets m_CurrentUserProfilePropertyTree) (\<lambda>profile.
    if profileIsLocked profile then
      andthen (modify (\<lambda>s. s\<lparr>m_UsersWithProfilesFoundLocked :=
          insert userRequestingWithdrawal (m_UsersWithProfilesFoundLocked s)\<rparr>)) (\<lambda>_.
      andthen (emit O_message) (\<lambda>_. return ProcessNext))
    else
    andthen readInUserBalanceAndCalculateWithdrawalFeesEtc (\<lambda>_.
    calculate_or_pay J userRequestingWithdrawal withdrawalRequestCas userProfileCas))"

definition recover_processed_but_not_debitted ::
  "'j json \<Rightarrow> cas \<Rightarrow> ('j wp, next_step) prog" where
  "recover_processed_but_not_debitted J withdrawalRequestCas =
    andthen (gets (\<lambda>s. pt_get_default JSON_USER_ACCOUNT_LOCKED_WITHDRAWING_FUNDS ''n''
        (m_CurrentUserProfilePropertyTree s))) (\<lambda>withdrawalRequestProfileIsMaybeLockedTo.
    andthen (modify (\<lambda>s. s\<lparr>m_WithdrawRequestInProcessedButProfileNeedsDeductingAndUnlockingCas :=
        withdrawalRequestCas\<rparr>)) (\<lambda>_.
    andthen (gets m_CurrentKeyToNotDoneWithdrawalRequest) (\<lambda>key.
    if withdrawalRequestProfileIsMaybeLockedTo \<noteq> key then
      andthen readInUserBalanceAndCalculateWithdrawalFeesEtc (\<lambda>_.
      continueAt_deductAmountFromCurrentUserProfileBalanceAndCasSwapUnlockIt J)
    else continueAt_setWithdrawalRequestStateToProcessedAndDone J)))"

definition process_not_done_request ::
  "'j json \<Rightarrow> string \<Rightarrow> string \<Rightarrow> cas \<Rightarrow> cas \<Rightarrow> ('j wp, next_step) prog" where
  "process_not_done_request J userRequestingWithdrawal state withdrawalRequestCas userProfileCas =
    reading (\<lambda>s.
    if state = STATE_PROCESSING
       \<and> pt_get_default JSON_USER_ACCOUNT_LOCKED_WITHDRAWING_FUNDS ''n'' (m_CurrentUserProfilePropertyTree s)
           \<noteq> m_CurrentKeyToNotDoneWithdrawalRequest s
    then andthen (emit E_message) (\<lambda>_. finish False)
    else
    andthen (if state = STATE_PROCESSING then emit E_message else return ()) (\<lambda>_.
    if state = STATE_PROCESSEDBUTPROFILENEEDSDEDUCTINGANDUNLOCKING
    then recover_processed_but_not_debitted J withdrawalRequestCas
    else process_unprocessed_request J userRequestingWithdrawal withdrawalRequestCas userProfileCas))"

definition processWithdrawalRequest :: "'j json \<Rightarrow> string \<Rightarrow> ('j wp, next_step) prog" where
  "processWithdrawalRequest J currentKeyToNotDoneWithdrawalRequest =
    andthen (modify (\<lambda>s. s\<lparr>m_CurrentKeyToNotDoneWithdrawalRequest :=
        currentKeyToNotDoneWithdrawalRequest\<rparr>)) (\<lambda>_.
    andthen (couchbaseGetRequestWithExponentialBackoffRequiringSuccess
        currentKeyToNotDoneWithdrawalRequest) (\<lambda>ok.
    if \<not> ok then finish False
    else
    andthen (gets m_LastGetCas) (\<lambda>withdrawalRequestCas.
    andthen (gets m_LastDocGetted) (\<lambda>doc.
    andthen (parse_json J doc) (\<lambda>request.
    andthen (modify (\<lambda>s. s\<lparr>m_CurrentWithdrawalRequestPropertyTree := request\<rparr>)) (\<lambda>_.
    andthen (pt_need JSON_WITHDRAW_FUNDS_REQUEST_STATE_KEY request) (\<lambda>withdrawFundsRequestState.
    if ends_with ''_Done'' withdrawFundsRequestState then return ProcessNext
    else
    andthen (require List_index_out_of_range
        (list_at (split_at (CHR ''_'') currentKeyToNotDoneWithdrawalRequest) 1)) (\<lambda>userRequestingWithdrawal.
    andthen (gets m_UsersWithProfilesFoundLocked) (\<lambda>locked.
    if userRequestingWithdrawal \<in> locked then return ProcessNext
    else
    andthen (modify (\<lambda>s. s\<lparr>m_CurrentUserRequestingWithdrawal := userRequestingWithdrawal\<rparr>)) (\<lambda>_.
    andthen (couchbaseGetRequestWithExponentialBackoffRequiringSuccess
        (userAccountKey userRequestingWithdrawal)) (\<lambda>ok.
    if \<not> ok then finish False
    else
    andthen (gets m_LastGetCas) (\<lambda>userProfileCas.
    andthen (gets m_LastDocGetted) (\<lambda>doc.
    andthen (parse_json J doc) (\<lambda>profile.
    andthen (modify (\<lambda>s. s\<lparr>m_CurrentUserProfilePropertyTree := profile\<rparr>)) (\<lambda>_.
    process_not_done_request J userRequestingWithdrawal withdrawFundsRequestState
      withdrawalRequestCas userProfileCas)))))))))))))))"

lemmas wp_stage_defs = processWithdrawalRequest_def process_not_done_request_def
  recover_processed_but_not_debitted_def process_unprocessed_request_def calculate_or_pay_def lock_and_issue_payout_def
  continueAt_deductAmountFromCurrentUserProfileBalanceAndCasSwapUnlockIt_def
  continueAt_setWithdrawalRequestStateToProcessedAndDone_def
  readInUserBalanceAndCalculateWithdrawalFeesEtc_def
  debitCurrentWithdrawalRequestFromUsersCalculatedRollingBalance_def finish_def

text \<open>No stage touches the list it iterates over, nor the position in it.\<close>

definition iteration :: "'j wp \<Rightarrow> string list \<times> int \<times> int \<times> withdraw_mode" where
  "iteration s = (m_ViewQueryResultsAsStringList s, m_CurrentIndexIntoViewQueryResultsStringList s,
     m_ViewQueryResultsStringListSize s, m_Mode s)"

lemma wp_members:
  assumes "lcb_user.more s' = lcb_user.more (s :: 'j wp)"
  shows "iteration s' = iteration s"
    and "m_UserBalancesInSatoshisDuringCalculationMode s' = m_UserBalancesInSatoshisDuringCalculationMode s"
    and "m_RunningTotalOfAllWithdrawalRequestsInSatoshis s' = m_RunningTotalOfAllWithdrawalRequestsInSatoshis s"
  using assms by (cases s; cases s'; simp add: iteration_def)+

lemma iteration_members: "members_only (\<lambda>s :: 'j wp. iteration s = x)"
  unfolding members_only_def by (metis wp_members(1))

lemma processWithdrawalRequest_iteration:
  "keeps (\<lambda>s. iteration s = x) (processWithdrawalRequest J key)"
  unfolding wp_stage_defs
  by (intro prog_rules iteration_members) (simp_all add: iteration_def)

subsection \<open>The iteration and the Qt slots\<close>

function processNextWithdrawalRequestOrEmitFinishedIfNoMore ::
  "'j json \<Rightarrow> 'j wp \<Rightarrow> ('j wp, unit) outcome" where
  "processNextWithdrawalRequestOrEmitFinishedIfNoMore J s =
    (let s1 = s\<lparr>m_CurrentIndexIntoViewQueryResultsStringList :=
                  m_CurrentIndexIntoViewQueryResultsStringList s + 1\<rparr>
     in if m_CurrentIndexIntoViewQueryResultsStringList s1 < m_ViewQueryResultsStringListSize s1 then
       (case list_at (m_ViewQueryResultsAsStringList s1) (m_CurrentIndexIntoViewQueryResultsStringList s1) of
          None \<Rightarrow> Throws List_index_out_of_range s1
        | Some key \<Rightarrow>
          (case processWithdrawalRequest J key s1 of
             Ret ProcessNext s2 \<Rightarrow> processNextWithdrawalRequestOrEmitFinishedIfNoMore J s2
           | Ret StopHere s2 \<Rightarrow> Ret () s2
           | Throws e s2 \<Rightarrow> Throws e s2
           | Blocked s2 \<Rightarrow> Blocked s2))
     else if m_Mode s1 = CalculateMode then
       emit (CalculationIterationComplete
         (satoshiIntToJsonString (m_RunningTotalOfAllWithdrawalRequestsInSatoshis s1))) s1
     else andthen (emit O_message) (\<lambda>_. emit (WithdrawalRequestProcessingFinished True)) s1)"
  by pat_completeness auto

lemma processWithdrawalRequest_position:
  assumes "processWithdrawalRequest J key s = Ret n s'"
  shows "m_CurrentIndexIntoViewQueryResultsStringList s' = m_CurrentIndexIntoViewQueryResultsStringList s"
    and "m_ViewQueryResultsStringListSize s' = m_ViewQueryResultsStringListSize s"
    and "m_ViewQueryResultsAsStringList s' = m_ViewQueryResultsAsStringList s"
    and "m_Mode s' = m_Mode s"
  using keeps_Ret [OF processWithdrawalRequest_iteration refl assms]
  by (simp_all add: iteration_def)

termination processNextWithdrawalRequestOrEmitFinishedIfNoMore
  by (relation "measure (\<lambda>(J, s). nat (m_ViewQueryResultsStringListSize s
        - m_CurrentIndexIntoViewQueryResultsStringList s))")
    (auto simp: processWithdrawalRequest_position(1,2))

declare processNextWithdrawalRequestOrEmitFinishedIfNoMore.simps [simp del]

definition go_on :: "'j json \<Rightarrow> next_step \<Rightarrow> ('j wp, unit) prog" where
  "go_on J n = (case n of
      ProcessNext \<Rightarrow> processNextWithdrawalRequestOrEmitFinishedIfNoMore J
    | StopHere \<Rightarrow> return ())"

definition proceedOntoExecutionIteration :: "'j json \<Rightarrow> ('j wp, unit) prog" where
  "proceedOntoExecutionIteration J =
    andthen (modify (\<lambda>s. s\<lparr>m_CurrentIndexIntoViewQueryResultsStringList := - 1, m_Mode := ExecuteMode\<rparr>)) (\<lambda>_.
    processNextWithdrawalRequestOrEmitFinishedIfNoMore J)"

definition unlockUserProfileWithoutDebitting :: "'j json \<Rightarrow> ('j wp, bool) prog" where
  "unlockUserProfileWithoutDebitting J =
    andthen (modify (\<lambda>s. s\<lparr>m_CurrentUserProfilePropertyTree :=
        pt_erase JSON_USER_ACCOUNT_LOCKED_WITHDRAWING_FUNDS (m_CurrentUserProfilePropertyTree s)\<rparr>)) (\<lambda>_.
    reading (\<lambda>s.
    andthen (couchbaseStoreRequestWithExponentialBackoffRequiringSuccess
        (userAccountKey (m_CurrentUserRequestingWithdrawal s))
        (write_json J (m_CurrentUserProfilePropertyTree s)) LCB_SET
        (m_CurrentUserProfileInLockedWithdrawingStateCas s)) (\<lambda>ok.
    if \<not> ok then andthen (emit (WithdrawalRequestProcessingFinished False)) (\<lambda>_. return False)
    else return True)))"

definition revertCurrentWithdrawalRequestStateToUnprocessed__AndUnlockWithoutDebittingUserProfile ::
  "'j json \<Rightarrow> ('j wp, bool) prog" where
  "revertCurrentWithdrawalRequestStateToUnprocessed__AndUnlockWithoutDebittingUserProfile J =
    andthen (modify (\<lambda>s. s\<lparr>m_CurrentWithdrawalRequestPropertyTree :=
        pt_put JSON_WITHDRAW_FUNDS_REQUEST_STATE_KEY STATE_UNPROCESSED
          (m_CurrentWithdrawalRequestPropertyTree s)\<rparr>)) (\<lambda>_.
    reading (\<lambda>s.
    andthen (couchbaseStoreRequestWithExponentialBackoffRequiringSuccess
        (m_CurrentKeyToNotDoneWithdrawalRequest s)
        (write_json J (m_CurrentWithdrawalRequestPropertyTree s)) LCB_SET
        (m_CurrentWithdrawalRequestInProcessingStateCas s)) (\<lambda>ok.
    if \<not> ok then andthen (emit (WithdrawalRequestProcessingFinished False)) (\<lambda>_. return False)
    else unlockUserProfileWithoutDebitting J)))"

definition setCurrentWithdrawalRequestToStateBitcoindReturnedError_Done__AndUnlockWithoutDebittingUserProfile ::
  "'j json \<Rightarrow> (string \<Rightarrow> string) \<Rightarrow> string \<Rightarrow> ('j wp, bool) prog" where
  "setCurrentWithdrawalRequestToStateBitcoindReturnedError_Done__AndUnlockWithoutDebittingUserProfile
      J base64 bitcoinDcommunicationsErrorToStoreInDb =
    andthen (modify (\<lambda>s. s\<lparr>m_CurrentWithdrawalRequestPropertyTree :=
        pt_put JSON_WITHDRAW_FUNDS_REQUEST_BITCOINDERRORIFAPPLICABLE
            (base64 bitcoinDcommunicationsErrorToStoreInDb)
          (pt_put JSON_WITHDRAW_FUNDS_REQUEST_STATE_KEY STATE_BITCOINDCOMMANDRETURNEDERROR
            (m_CurrentWithdrawalRequestPropertyTree s))\<rparr>)) (\<lambda>_.
    reading (\<lambda>s.
    andthen (couchbaseStoreRequestWithExponentialBackoffRequiringSuccess
        (m_CurrentKeyToNotDoneWithdrawalRequest s)
        (write_json J (m_CurrentWithdrawalRequestPropertyTree s)) LCB_SET
        (m_CurrentWithdrawalRequestInProcessingStateCas s)) (\<lambda>ok.
    if \<not> ok then andthen (emit (WithdrawalRequestProcessingFinished False)) (\<lambda>_. return False)
    else unlockUserProfileWithoutDebitting J)))"

fun wants_revert :: "way_to_handle \<Rightarrow> bool" where
  "wants_revert RevertWithdrawalRequestStateToUnprocessedAndContinueProcessingWithdrawalRequests = True"
| "wants_revert RevertWithdrawalRequestStateToUnprocessedAndStopProcessingWithdrawalRequests = True"
| "wants_revert SetWithdrawalRequestStateToBitcoindReturnedErrorAndContinueProcessingWithdrawalRequests = False"
| "wants_revert SetWithdrawalRequestStateToBitcoindReturnedErrorAndStopProcessingWithdrawalRequests = False"

fun wants_to_continue :: "way_to_handle \<Rightarrow> bool" where
  "wants_to_continue RevertWithdrawalRequestStateToUnprocessedAndContinueProcessingWithdrawalRequests = True"
| "wants_to_continue RevertWithdrawalRequestStateToUnprocessedAndStopProcessingWithdrawalRequests = False"
| "wants_to_continue SetWithdrawalRequestStateToBitcoindReturnedErrorAndContinueProcessingWithdrawalRequests = True"
| "wants_to_continue SetWithdrawalRequestStateToBitcoindReturnedErrorAndStopProcessingWithdrawalRequests = False"

definition userWantsUsToHandleTheBitcoindCommunicationsErrorThisWay ::
  "'j json \<Rightarrow> (string \<Rightarrow> string) \<Rightarrow> way_to_handle \<Rightarrow> string \<Rightarrow> ('j wp, unit) prog" where
  "userWantsUsToHandleTheBitcoindCommunicationsErrorThisWay J base64 way errorStringToStoreInDb =
    andthen (if wants_revert way
        then revertCurrentWithdrawalRequestStateToUnprocessed__AndUnlockWithoutDebittingUserProfile J
        else setCurrentWithdrawalRequestToStateBitcoindReturnedError_Done__AndUnlockWithoutDebittingUserProfile
          J base64 errorStringToStoreInDb) (\<lambda>ok.
    if \<not> ok then return ()
    else if wants_to_continue way then processNextWithdrawalRequestOrEmitFinishedIfNoMore J
    else emit (WithdrawalRequestProcessingFinished True))"

definition source_of_error :: "'j wp \<Rightarrow> string" where
  "source_of_error s = ''the bitcoin request causing the error: '' @ m_CurrentBitcoinCommand s"

definition handleNetworkReplyFinished :: "'j json \<Rightarrow> 'j network_reply \<Rightarrow> ('j wp, unit) prog" where
  "handleNetworkReplyFinished J reply =
    (case reply of
      NetworkError errorString \<Rightarrow>
        reading (\<lambda>s. emit (BitcoindCommunicationsErrorDetected (source_of_error s)
          (''QNetworkReply has error: '' @ errorString)))
    | HttpReply responseCode body \<Rightarrow>
        if responseCode \<noteq> Some 200 then
          reading (\<lambda>s. emit (BitcoindCommunicationsErrorDetected (source_of_error s)
            (''QNetworkReply did not return status code of 200. status code: ''
              @ show_int (case responseCode of None \<Rightarrow> 0 | Some c \<Rightarrow> c))))
        else
        andthen (parse_json J body) (\<lambda>pt.
        andthen (pt_need ''error'' pt) (\<lambda>jsonErrorMaybe.
        if jsonErrorMaybe \<noteq> ''null'' then
          reading (\<lambda>s. emit (BitcoindCommunicationsErrorDetected (source_of_error s)
            (''bitcoind reply had json error set: '' @ jsonErrorMaybe)))
        else
        andthen (pt_need ''result'' pt) (\<lambda>txid.
        andthen (modify (\<lambda>s. s\<lparr>m_CurrentWithdrawalRequestPropertyTree :=
            pt_put JSON_WITHDRAW_FUNDS_REQUEST_STATE_KEY STATE_PROCESSEDBUTPROFILENEEDSDEDUCTINGANDUNLOCKING
              (pt_put JSON_WITHDRAW_FUNDS_TXID txid (m_CurrentWithdrawalRequestPropertyTree s))\<rparr>)) (\<lambda>_.
        reading (\<lambda>s.
        andthen (couchbaseStoreRequestWithExponentialBackoffRequiringSuccess
            (m_CurrentKeyToNotDoneWithdrawalRequest s)
            (write_json J (m_CurrentWithdrawalRequestPropertyTree s)) LCB_SET
            (m_CurrentWithdrawalRequestInProcessingStateCas s)) (\<lambda>ok.
        if \<not> ok then emit (WithdrawalRequestProcessingFinished False)
        else
        andthen (modify (\<lambda>s. s\<lparr>m_WithdrawRequestInProcessedButProfileNeedsDeductingAndUnlockingCas :=
            m_LastSetCas s\<rparr>)) (\<lambda>_.
        andthen (continueAt_deductAmountFromCurrentUserProfileBalanceAndCasSwapUnlockIt J) (go_on J)))))))))"

definition viewQueryCompleteCallback :: "'j json \<Rightarrow> lcb_error \<Rightarrow> 'j \<Rightarrow> ('j wp, unit) prog" where
  "viewQueryCompleteCallback J error bytes =
    andthen (emit O_message) (\<lambda>_.
    if error \<noteq> LCB_SUCCESS then
      andthen (emit E_message) (\<lambda>_. emit (WithdrawalRequestProcessingFinished False))
    else
    andthen (parse_json J bytes) (\<lambda>view.
    andthen (modify (\<lambda>s. s\<lparr>m_ViewQueryPropertyTree := view\<rparr>)) (\<lambda>_.
    if pt_get ''error'' view \<noteq> None then
      andthen (emit E_message) (\<lambda>_. emit (WithdrawalRequestProcessingFinished False))
    else modify (\<lambda>s. s\<lparr>m_ViewQueryHadError := False\<rparr>))))"

text \<open>The ids of the view's rows, in order; a row without an id throws.\<close>

fun row_ids :: "(string \<times> ptree) list \<Rightarrow> ('s, string list) prog" where
  "row_ids [] = return []"
| "row_ids ((name, row) # rows) =
     andthen (pt_need ''id'' row) (\<lambda>i. andthen (row_ids rows) (\<lambda>is. return (i # is)))"

text \<open>
  \<open>http_result\<close> is what \<open>lcb_make_http_request\<close> returned, \<open>http_answer\<close> the call of the completion
  callback while waiting, if there was one.
\<close>

definition processWithdrawalRequests ::
  "'j json \<Rightarrow> connect_env \<Rightarrow> lcb_error \<Rightarrow> (lcb_error \<times> 'j) option \<Rightarrow> ('j wp, unit) prog" where
  "processWithdrawalRequests J env http_result http_answer =
    andthen (connectToCouchbase env) (\<lambda>connected.
    if \<not> connected then return ()
    else
    andthen (emit O_message) (\<lambda>_.
    andthen (modify (\<lambda>s. s\<lparr>m_ViewQueryHadError := True\<rparr>)) (\<lambda>_.
    if http_result \<noteq> LCB_SUCCESS then
      andthen (emit E_message) (\<lambda>_. emit (WithdrawalRequestProcessingFinished False))
    else
    andthen (case http_answer of None \<Rightarrow> return ()
             | Some answer \<Rightarrow> viewQueryCompleteCallback J (fst answer) (snd answer)) (\<lambda>_.
    andthen (gets m_ViewQueryHadError) (\<lambda>hadError.
    if hadError then andthen (emit E_message) (\<lambda>_. emit (WithdrawalRequestProcessingFinished False))
    else
    andthen (gets m_ViewQueryPropertyTree) (\<lambda>view.
    andthen (require (Ptree_bad_path ''rows'') (pt_get_child_optional ''rows'' view)) (\<lambda>rowsPt.
    andthen (modify (\<lambda>s. s\<lparr>m_UsersWithProfilesFoundLocked := {}\<rparr>)) (\<lambda>_.
    andthen (row_ids (pt_kids rowsPt)) (\<lambda>ids.
    andthen (modify (\<lambda>s. s\<lparr>m_ViewQueryResultsAsStringList := m_ViewQueryResultsAsStringList s @ ids,
        m_ViewQueryPropertyTree := pt_empty\<rparr>)) (\<lambda>_.
    andthen (modify (\<lambda>s. s\<lparr>m_CurrentIndexIntoViewQueryResultsStringList := - 1,
        m_ViewQueryResultsStringListSize := int (length (m_ViewQueryResultsAsStringList s)),
        m_Mode := CalculateMode,
        m_RunningTotalOfAllWithdrawalRequestsInSatoshis := 0,
        m_UserBalancesInSatoshisDuringCalculationMode := Map.empty\<rparr>)) (\<lambda>_.
    processNextWithdrawalRequestOrEmitFinishedIfNoMore J)))))))))))"

subsection \<open>What the stages do to the trace\<close>

lemma wp_more_eq:
  assumes "lcb_user.more s' = lcb_user.more (s :: 'j wp)"
  shows "m_Mode s' = m_Mode s
    \<and> m_CurrentKeyToNotDoneWithdrawalRequest s' = m_CurrentKeyToNotDoneWithdrawalRequest s
    \<and> m_CurrentUserRequestingWithdrawal s' = m_CurrentUserRequestingWithdrawal s
    \<and> m_CurrentWithdrawalRequestPropertyTree s' = m_CurrentWithdrawalRequestPropertyTree s
    \<and> m_CurrentUserProfilePropertyTree s' = m_CurrentUserProfilePropertyTree s
    \<and> m_CurrentUserBalanceInSatoshis s' = m_CurrentUserBalanceInSatoshis s
    \<and> m_CurrentWithdrawRequestDesiredAmountToWithdrawInSatoshis s'
        = m_CurrentWithdrawRequestDesiredAmountToWithdrawInSatoshis s
    \<and> m_CurrentWithdrawRequestTotalAmountToWithdraw s' = m_CurrentWithdrawRequestTotalAmountToWithdraw s
    \<and> m_CurrentUserProfileInLockedWithdrawingStateCas s' = m_CurrentUserProfileInLockedWithdrawingStateCas s
    \<and> m_CurrentWithdrawalRequestInProcessingStateCas s' = m_CurrentWithdrawalRequestInProcessingStateCas s
    \<and> m_WithdrawRequestInProcessedButProfileNeedsDeductingAndUnlockingCas s'
        = m_WithdrawRequestInProcessedButProfileNeedsDeductingAndUnlockingCas s
    \<and> m_UsersWithProfilesFoundLocked s' = m_UsersWithProfilesFoundLocked s"
  using assms by (cases s; cases s'; simp)

lemma wp_update_effects [simp]:
  "effects (m_Mode_update g (s :: 'j wp)) = effects s"
  "effects (m_RunningTotalOfAllWithdrawalRequestsInSatoshis_update g1 (s :: 'j wp)) = effects s"
  "effects (m_UserBalancesInSatoshisDuringCalculationMode_update g2 (s :: 'j wp)) = effects s"
  "effects (m_ViewQueryHadError_update g3 (s :: 'j wp)) = effects s"
  "effects (m_ViewQueryPropertyTree_update g4 (s :: 'j wp)) = effects s"
  "effects (m_ViewQueryResultsAsStringList_update g5 (s :: 'j wp)) = effects s"
  "effects (m_CurrentIndexIntoViewQueryResultsStringList_update g6 (s :: 'j wp)) = effects s"
  "effects (m_ViewQueryResultsStringListSize_update g7 (s :: 'j wp)) = effects s"
  "effects (m_UsersWithProfilesFoundLocked_update g8 (s :: 'j wp)) = effects s"
  "effects (m_CurrentKeyToNotDoneWithdrawalRequest_update g9 (s :: 'j wp)) = effects s"
  "effects (m_CurrentUserRequestingWithdrawal_update g10 (s :: 'j wp)) = effects s"
  "effects (m_CurrentWithdrawalRequestPropertyTree_update g11 (s :: 'j wp)) = effects s"
  "effects (m_CurrentUserProfilePropertyTree_update g12 (s :: 'j wp)) = effects s"
  "effects (m_CurrentUserBalanceInSatoshis_update g13 (s :: 'j wp)) = effects s"
  "effects (m_CurrentWithdrawRequestDesiredAmountToWithdrawInSatoshis_update g14 (s :: 'j wp)) = effects s"
  "effects (m_CurrentWithdrawRequestTotalAmountToWithdraw_update g15 (s :: 'j wp)) = effects s"
  "effects (m_CurrentUserProfileInLockedWithdrawingStateCas_update g16 (s :: 'j wp)) = effects s"
  "effects (m_CurrentWithdrawalRequestInProcessingStateCas_update g17 (s :: 'j wp)) = effects s"
  "effects (m_CurrentBitcoinCommand_update g18 (s :: 'j wp)) = effects s"
  "effects (m_WithdrawRequestInProcessedButProfileNeedsDeductingAndUnlockingCas_update g19 (s :: 'j wp)) = effects s"
  by (simp_all add: effects_def)

lemma wp_update_results [simp]:
  "results (m_Mode_update g0 (s :: 'j wp)) = results s"
  "results (m_RunningTotalOfAllWithdrawalRequestsInSatoshis_update g1 (s :: 'j wp)) = results s"
  "results (m_UserBalancesInSatoshisDuringCalculationMode_update g2 (s :: 'j wp)) = results s"
  "results (m_ViewQueryHadError_update g3 (s :: 'j wp)) = results s"
  "results (m_ViewQueryPropertyTree_update g4 (s :: 'j wp)) = results s"
  "results (m_ViewQueryResultsAsStringList_update g5 (s :: 'j wp)) = results s"
  "results (m_CurrentIndexIntoViewQueryResultsStringList_update g6 (s :: 'j wp)) = results s"
  "results (m_ViewQueryResultsStringListSize_update g7 (s :: 'j wp)) = results s"
  "results (m_UsersWithProfilesFoundLocked_update g8 (s :: 'j wp)) = results s"
  "results (m_CurrentKeyToNotDoneWithdrawalRequest_update g9 (s :: 'j wp)) = results s"
  "results (m_CurrentUserRequestingWithdrawal_update g10 (s :: 'j wp)) = results s"
  "results (m_CurrentWithdrawalRequestPropertyTree_update g11 (s :: 'j wp)) = results s"
  "results (m_CurrentUserProfilePropertyTree_update g12 (s :: 'j wp)) = results s"
  "results (m_CurrentUserBalanceInSatoshis_update g13 (s :: 'j wp)) = results s"
  "results (m_CurrentWithdrawRequestDesiredAmountToWithdrawInSatoshis_update g14 (s :: 'j wp)) = results s"
  "results (m_CurrentWithdrawRequestTotalAmountToWithdraw_update g15 (s :: 'j wp)) = results s"
  "results (m_CurrentUserProfileInLockedWithdrawingStateCas_update g16 (s :: 'j wp)) = results s"
  "results (m_CurrentWithdrawalRequestInProcessingStateCas_update g17 (s :: 'j wp)) = results s"
  "results (m_CurrentBitcoinCommand_update g18 (s :: 'j wp)) = results s"
  "results (m_WithdrawRequestInProcessedButProfileNeedsDeductingAndUnlockingCas_update g19 (s :: 'j wp)) = results s"
  by (simp_all add: results_def)

fun not_post :: "('j, withdraw_output) event \<Rightarrow> bool" where
  "not_post (Out (PostToBitcoind cmd)) = False"
| "not_post _ = True"

lemmas keeps_since_requests = keeps_since_get keeps_since_store keeps_since_emit

lemma quiet_stages:
  "keeps (since X not_post) (continueAt_setWithdrawalRequestStateToProcessedAndDone J)"
  "keeps (since X not_post) (continueAt_deductAmountFromCurrentUserProfileBalanceAndCasSwapUnlockIt J)"
  "keeps (since X not_post) (recover_processed_but_not_debitted J c)"
  unfolding wp_stage_defs
  by (intro prog_rules keeps_since_requests; simp add: since_def effects_def)+

definition total_of :: "int \<Rightarrow> int" where
  "total_of desired = wrap64 (desired + fee_in_satoshis desired)"

lemma read_in_run [run_rules]:
  "runs_to readInUserBalanceAndCalculateWithdrawalFeesEtc Q E s =
    (case Option.bind (pt_get JSON_USER_ACCOUNT_BALANCE (m_CurrentUserProfilePropertyTree s)) lexical_cast_longlong of
       None \<Rightarrow> E s
     | Some balance \<Rightarrow>
       (case Option.bind (pt_get JSON_WITHDRAW_FUNDS_REQUESTED_AMOUNT
               (m_CurrentWithdrawalRequestPropertyTree s)) lexical_cast_longlong of
          None \<Rightarrow> E (s\<lparr>m_CurrentUserBalanceInSatoshis := balance\<rparr>)
        | Some desired \<Rightarrow> Q () (s\<lparr>m_CurrentUserBalanceInSatoshis := balance,
            m_CurrentWithdrawRequestDesiredAmountToWithdrawInSatoshis := desired,
            m_CurrentWithdrawRequestTotalAmountToWithdraw := total_of desired\<rparr>)))"
  by (simp add: readInUserBalanceAndCalculateWithdrawalFeesEtc_def run_rules total_of_def
      fee_in_satoshis_def Let_def split: option.splits)

text \<open>The trace of a payout: both documents read, the profile locked, the request set to processing.\<close>

definition guarded_payout :: "'j json \<Rightarrow> string \<Rightarrow> ('j, withdraw_output) event list \<Rightarrow> bool" where
  "guarded_payout J key es \<longleftrightarrow> (\<exists>user request_doc c1 profile_doc c2 request profile d3 c3 d4 c4
      state balance desired keyToWithdrawTo.
    es = [DidGet key (Answer LCB_SUCCESS request_doc c1),
      DidGet (userAccountKey user) (Answer LCB_SUCCESS profile_doc c2),
      DidStore (userAccountKey user)
        (write_json J (pt_put JSON_USER_ACCOUNT_LOCKED_WITHDRAWING_FUNDS key profile)) LCB_SET c2
        (Answer LCB_SUCCESS d3 c3),
      DidStore key (write_json J (pt_put JSON_WITHDRAW_FUNDS_REQUEST_STATE_KEY STATE_PROCESSING request))
        LCB_SET c1 (Answer LCB_SUCCESS d4 c4),
      Out (PostToBitcoind (payout_command keyToWithdrawTo desired))]
    \<and> read_json J request_doc = Some request \<and> read_json J profile_doc = Some profile
    \<and> list_at (split_at (CHR ''_'') key) 1 = Some user
    \<and> \<not> profileIsLocked profile
    \<and> pt_get JSON_WITHDRAW_FUNDS_REQUEST_STATE_KEY request = Some state
    \<and> \<not> ends_with ''_Done'' state
    \<and> state \<noteq> STATE_PROCESSING
    \<and> state \<noteq> STATE_PROCESSEDBUTPROFILENEEDSDEDUCTINGANDUNLOCKING
    \<and> pt_get JSON_WITHDRAW_FUNDS_BITCOIN_PAYOUT_KEY request = Some keyToWithdrawTo
    \<and> Option.bind (pt_get JSON_USER_ACCOUNT_BALANCE profile) lexical_cast_longlong = Some balance
    \<and> Option.bind (pt_get JSON_WITHDRAW_FUNDS_REQUESTED_AMOUNT request) lexical_cast_longlong = Some desired
    \<and> total_of desired \<le> balance)"

lemma guarded_payoutI:
  assumes "read_json J request_doc = Some request" and "read_json J profile_doc = Some profile"
    and "list_at (split_at (CHR ''_'') key) 1 = Some user" and "\<not> profileIsLocked profile"
    and "pt_get JSON_WITHDRAW_FUNDS_REQUEST_STATE_KEY request = Some state"
    and "\<not> ends_with ''_Done'' state" and "state \<noteq> STATE_PROCESSING"
    and "state \<noteq> STATE_PROCESSEDBUTPROFILENEEDSDEDUCTINGANDUNLOCKING"
    and "pt_get JSON_WITHDRAW_FUNDS_BITCOIN_PAYOUT_KEY request = Some keyToWithdrawTo"
    and "Option.bind (pt_get JSON_USER_ACCOUNT_BALANCE profile) lexical_cast_longlong = Some balance"
    and "Option.bind (pt_get JSON_WITHDRAW_FUNDS_REQUESTED_AMOUNT request) lexical_cast_longlong = Some desired"
    and "total_of desired \<le> balance"
  shows "guarded_payout J key [DidGet key (Answer LCB_SUCCESS request_doc c1),
      DidGet (userAccountKey user) (Answer LCB_SUCCESS profile_doc c2),
      DidStore (userAccountKey user)
        (write_json J (pt_put JSON_USER_ACCOUNT_LOCKED_WITHDRAWING_FUNDS key profile)) LCB_SET c2
        (Answer LCB_SUCCESS d3 c3),
      DidStore key (write_json J (pt_put JSON_WITHDRAW_FUNDS_REQUEST_STATE_KEY STATE_PROCESSING request))
        LCB_SET c1 (Answer LCB_SUCCESS d4 c4),
      Out (PostToBitcoind (payout_command keyToWithdrawTo desired))]"
  unfolding guarded_payout_def using assms by blast

lemma lock_and_issue_trace:
  assumes "effects s = X" and "m_CurrentKeyToNotDoneWithdrawalRequest s = key"
  shows "runs_to (lock_and_issue_payout J user c1 c2)
    (\<lambda>n s'. since X not_post s' \<or> n = StopHere \<and> (\<exists>d3 c3 d4 c4 keyToWithdrawTo.
        pt_get JSON_WITHDRAW_FUNDS_BITCOIN_PAYOUT_KEY (m_CurrentWithdrawalRequestPropertyTree s) = Some keyToWithdrawTo
        \<and> effects s' = X @ [DidStore (userAccountKey (m_CurrentUserRequestingWithdrawal s))
              (write_json J (pt_put JSON_USER_ACCOUNT_LOCKED_WITHDRAWING_FUNDS key (m_CurrentUserProfilePropertyTree s)))
              LCB_SET c2 (Answer LCB_SUCCESS d3 c3),
            DidStore key (write_json J (pt_put JSON_WITHDRAW_FUNDS_REQUEST_STATE_KEY STATE_PROCESSING
                (m_CurrentWithdrawalRequestPropertyTree s))) LCB_SET c1 (Answer LCB_SUCCESS d4 c4),
            Out (PostToBitcoind (payout_command keyToWithdrawTo
              (m_CurrentWithdrawRequestDesiredAmountToWithdrawInSatoshis s)))]))
    (since X not_post) s"
  unfolding lock_and_issue_payout_def finish_def
  apply (simp add: run_rules)
  apply (rule runs_to_store)
    apply (auto simp: run_rules assms since_def dest!: wp_more_eq)
  apply (rule runs_to_store_strict)
    apply (auto simp: run_rules assms since_def dest!: wp_more_eq split: option.splits)
  done

lemma calculate_or_pay_trace:
  assumes "effects s = X" and "m_CurrentKeyToNotDoneWithdrawalRequest s = key"
  shows "runs_to (calculate_or_pay J user c1 c2)
    (\<lambda>n s'. since X not_post s' \<or> n = StopHere \<and> m_Mode s = ExecuteMode
      \<and> m_CurrentWithdrawRequestTotalAmountToWithdraw s \<le> m_CurrentUserBalanceInSatoshis s
      \<and> (\<exists>d3 c3 d4 c4 keyToWithdrawTo.
        pt_get JSON_WITHDRAW_FUNDS_BITCOIN_PAYOUT_KEY (m_CurrentWithdrawalRequestPropertyTree s) = Some keyToWithdrawTo
        \<and> effects s' = X @ [DidStore (userAccountKey (m_CurrentUserRequestingWithdrawal s))
              (write_json J (pt_put JSON_USER_ACCOUNT_LOCKED_WITHDRAWING_FUNDS key (m_CurrentUserProfilePropertyTree s)))
              LCB_SET c2 (Answer LCB_SUCCESS d3 c3),
            DidStore key (write_json J (pt_put JSON_WITHDRAW_FUNDS_REQUEST_STATE_KEY STATE_PROCESSING
                (m_CurrentWithdrawalRequestPropertyTree s))) LCB_SET c1 (Answer LCB_SUCCESS d4 c4),
            Out (PostToBitcoind (payout_command keyToWithdrawTo
              (m_CurrentWithdrawRequestDesiredAmountToWithdrawInSatoshis s)))]))
    (since X not_post) s"
proof -
  consider (broke) "m_Mode s = ExecuteMode"
      "m_CurrentUserBalanceInSatoshis s < m_CurrentWithdrawRequestTotalAmountToWithdraw s"
    | (calculate) "m_Mode s = CalculateMode"
    | (pay) "m_Mode s = ExecuteMode"
      "m_CurrentWithdrawRequestTotalAmountToWithdraw s \<le> m_CurrentUserBalanceInSatoshis s"
    by (cases "m_Mode s") force+
  then show ?thesis
  proof cases
    case broke
    then show ?thesis unfolding calculate_or_pay_def finish_def
      by (simp add: run_rules, intro runs_to_store_strict)
        (auto simp: run_rules assms since_def dest!: wp_more_eq)
  next
    case calculate
    then show ?thesis unfolding calculate_or_pay_def
      by (simp add: run_rules assms since_def Let_def
          debitCurrentWithdrawalRequestFromUsersCalculatedRollingBalance_def)
  next
    case pay
    have "runs_to (calculate_or_pay J user c1 c2) Q E s = runs_to (lock_and_issue_payout J user c1 c2) Q E s" for Q E
      using pay by (simp add: calculate_or_pay_def run_rules)
    then show ?thesis
      using pay by (auto intro: runs_to_mono [OF lock_and_issue_trace [OF assms]])
  qed
qed

lemma process_unprocessed_trace:
  assumes "effects s = X" and "m_CurrentKeyToNotDoneWithdrawalRequest s = key"
  shows "runs_to (process_unprocessed_request J user c1 c2)
    (\<lambda>n s'. since X not_post s' \<or> n = StopHere \<and> m_Mode s = ExecuteMode
      \<and> \<not> profileIsLocked (m_CurrentUserProfilePropertyTree s)
      \<and> (\<exists>d3 c3 d4 c4 keyToWithdrawTo balance desired.
        pt_get JSON_WITHDRAW_FUNDS_BITCOIN_PAYOUT_KEY (m_CurrentWithdrawalRequestPropertyTree s) = Some keyToWithdrawTo
        \<and> Option.bind (pt_get JSON_USER_ACCOUNT_BALANCE (m_CurrentUserProfilePropertyTree s)) lexical_cast_longlong = Some balance
        \<and> Option.bind (pt_get JSON_WITHDRAW_FUNDS_REQUESTED_AMOUNT (m_CurrentWithdrawalRequestPropertyTree s)) lexical_cast_longlong = Some desired
        \<and> total_of desired \<le> balance
        \<and> effects s' = X @ [DidStore (userAccountKey (m_CurrentUserRequestingWithdrawal s))
              (write_json J (pt_put JSON_USER_ACCOUNT_LOCKED_WITHDRAWING_FUNDS key (m_CurrentUserProfilePropertyTree s)))
              LCB_SET c2 (Answer LCB_SUCCESS d3 c3),
            DidStore key (write_json J (pt_put JSON_WITHDRAW_FUNDS_REQUEST_STATE_KEY STATE_PROCESSING
                (m_CurrentWithdrawalRequestPropertyTree s))) LCB_SET c1 (Answer LCB_SUCCESS d4 c4),
            Out (PostToBitcoind (payout_command keyToWithdrawTo desired))]))
    (since X not_post) s"
proof -
  let ?b = "Option.bind (pt_get JSON_USER_ACCOUNT_BALANCE (m_CurrentUserProfilePropertyTree s)) lexical_cast_longlong"
  let ?d = "Option.bind (pt_get JSON_WITHDRAW_FUNDS_REQUESTED_AMOUNT (m_CurrentWithdrawalRequestPropertyTree s)) lexical_cast_longlong"
  consider (locked) "profileIsLocked (m_CurrentUserProfilePropertyTree s)"
    | (bad) "\<not> profileIsLocked (m_CurrentUserProfilePropertyTree s)" "?b = None \<or> ?d = None"
    | (ok) b d where "\<not> profileIsLocked (m_CurrentUserProfilePropertyTree s)" "?b = Some b" "?d = Some d"
    by (cases ?b; cases ?d; fastforce)
  then show ?thesis
  proof cases
    case locked
    then show ?thesis by (simp add: process_unprocessed_request_def run_rules since_def assms)
  next
    case bad
    then show ?thesis
      by (auto simp: process_unprocessed_request_def run_rules since_def assms split: option.splits)
  next
    case ok
    let ?s = "s\<lparr>m_CurrentUserBalanceInSatoshis := b,
          m_CurrentWithdrawRequestDesiredAmountToWithdrawInSatoshis := d,
          m_CurrentWithdrawRequestTotalAmountToWithdraw := total_of d\<rparr>"
    have "runs_to (process_unprocessed_request J user c1 c2) Q E s = runs_to (calculate_or_pay J user c1 c2) Q E ?s" for Q E
      using ok by (simp add: process_unprocessed_request_def run_rules)
    moreover have "effects ?s = X" "m_CurrentKeyToNotDoneWithdrawalRequest ?s = key" using assms by simp_all
    from calculate_or_pay_trace [OF this, of J user c1 c2]
    have "runs_to (calculate_or_pay J user c1 c2)
     (\<lambda>n s'. since X not_post s' \<or> n = StopHere \<and> m_Mode s = ExecuteMode \<and> total_of d \<le> b
      \<and> (\<exists>d3 c3 d4 c4 keyToWithdrawTo.
        pt_get JSON_WITHDRAW_FUNDS_BITCOIN_PAYOUT_KEY (m_CurrentWithdrawalRequestPropertyTree s) = Some keyToWithdrawTo
        \<and> effects s' = X @ [DidStore (userAccountKey (m_CurrentUserRequestingWithdrawal s))
              (write_json J (pt_put JSON_USER_ACCOUNT_LOCKED_WITHDRAWING_FUNDS key (m_CurrentUserProfilePropertyTree s)))
              LCB_SET c2 (Answer LCB_SUCCESS d3 c3),
            DidStore key (write_json J (pt_put JSON_WITHDRAW_FUNDS_REQUEST_STATE_KEY STATE_PROCESSING
                (m_CurrentWithdrawalRequestPropertyTree s))) LCB_SET c1 (Answer LCB_SUCCESS d4 c4),
            Out (PostToBitcoind (payout_command keyToWithdrawTo d))]))
      (since X not_post) ?s" by simp
    ultimately show ?thesis using ok by (auto elim!: runs_to_mono)
  qed
qed

lemma process_not_done_trace:
  assumes "effects s = X" and "m_CurrentKeyToNotDoneWithdrawalRequest s = key" and "key \<noteq> ''n''"
  shows "runs_to (process_not_done_request J user state c1 c2)
    (\<lambda>n s'. since X not_post s' \<or> n = StopHere \<and> m_Mode s = ExecuteMode
      \<and> state \<noteq> STATE_PROCESSING \<and> state \<noteq> STATE_PROCESSEDBUTPROFILENEEDSDEDUCTINGANDUNLOCKING
      \<and> \<not> profileIsLocked (m_CurrentUserProfilePropertyTree s)
      \<and> (\<exists>d3 c3 d4 c4 keyToWithdrawTo balance desired.
        pt_get JSON_WITHDRAW_FUNDS_BITCOIN_PAYOUT_KEY (m_CurrentWithdrawalRequestPropertyTree s) = Some keyToWithdrawTo
        \<and> Option.bind (pt_get JSON_USER_ACCOUNT_BALANCE (m_CurrentUserProfilePropertyTree s)) lexical_cast_longlong = Some balance
        \<and> Option.bind (pt_get JSON_WITHDRAW_FUNDS_REQUESTED_AMOUNT (m_CurrentWithdrawalRequestPropertyTree s)) lexical_cast_longlong = Some desired
        \<and> total_of desired \<le> balance
        \<and> effects s' = X @ [DidStore (userAccountKey (m_CurrentUserRequestingWithdrawal s))
              (write_json J (pt_put JSON_USER_ACCOUNT_LOCKED_WITHDRAWING_FUNDS key (m_CurrentUserProfilePropertyTree s)))
              LCB_SET c2 (Answer LCB_SUCCESS d3 c3),
            DidStore key (write_json J (pt_put JSON_WITHDRAW_FUNDS_REQUEST_STATE_KEY STATE_PROCESSING
                (m_CurrentWithdrawalRequestPropertyTree s))) LCB_SET c1 (Answer LCB_SUCCESS d4 c4),
            Out (PostToBitcoind (payout_command keyToWithdrawTo desired))]))
    (since X not_post) s"
proof -
  consider (processing) "state = STATE_PROCESSING"
    | (recover) "state = STATE_PROCESSEDBUTPROFILENEEDSDEDUCTINGANDUNLOCKING"
    | (other) "state \<noteq> STATE_PROCESSING" "state \<noteq> STATE_PROCESSEDBUTPROFILENEEDSDEDUCTINGANDUNLOCKING"
    by blast
  then show ?thesis
  proof cases
    case processing
    show ?thesis
    proof (cases "pt_get_default JSON_USER_ACCOUNT_LOCKED_WITHDRAWING_FUNDS ''n''
        (m_CurrentUserProfilePropertyTree s) = key")
      case True
      then have "profileIsLocked (m_CurrentUserProfilePropertyTree s)"
        using assms(3) by (simp add: profileIsLocked_def)
      then show ?thesis using True processing assms(1,2)
        by (simp add: process_not_done_request_def process_unprocessed_request_def run_rules since_def)
    next
      case False
      then show ?thesis using processing assms(1,2)
        by (simp add: process_not_done_request_def finish_def run_rules since_def)
    qed
  next
    case recover
    then have "process_not_done_request J user state c1 c2 s = recover_processed_but_not_debitted J c1 s"
      by (simp add: process_not_done_request_def)
    then have "runs_to (process_not_done_request J user state c1 c2) Q E s
        = runs_to (recover_processed_but_not_debitted J c1) Q E s" for Q E
      by (simp add: runs_to_def)
    moreover have "runs_to (recover_processed_but_not_debitted J c1)
        (\<lambda>_. since X not_post) (since X not_post) s"
      using assms(1) by (intro runs_to_keeps quiet_stages) simp
    ultimately show ?thesis by (auto elim!: runs_to_mono)
  next
    case other
    then have "process_not_done_request J user state c1 c2 s = process_unprocessed_request J user c1 c2 s"
      by (simp add: process_not_done_request_def)
    then have "runs_to (process_not_done_request J user state c1 c2) Q E s
        = runs_to (process_unprocessed_request J user c1 c2) Q E s" for Q E
      by (simp add: runs_to_def)
    then show ?thesis using other
      by (auto intro: runs_to_mono [OF process_unprocessed_trace [OF assms(1,2)]])
  qed
qed

lemma process_trace:
  assumes "effects s = X"
  shows "runs_to (processWithdrawalRequest J key)
    (\<lambda>n s'. since X not_post s' \<or> n = StopHere \<and> m_Mode s = ExecuteMode
      \<and> (\<exists>es. effects s' = X @ es \<and> guarded_payout J key es))
    (since X not_post) s"
  unfolding processWithdrawalRequest_def finish_def
  apply (simp add: run_rules)
  apply (rule runs_to_get_strict)
    apply (auto simp: run_rules since_def assms dest!: wp_more_eq split: option.splits)
  apply (rule runs_to_get_strict)
    apply (auto simp: run_rules since_def assms dest!: wp_more_eq split: option.splits)
  apply (rule runs_to_mono [OF process_not_done_trace [OF refl refl]])
    subgoal by (auto simp: list_at_def)
   subgoal by (auto simp: since_def results_def intro!: guarded_payoutI)
  subgoal by (auto simp: since_def)
  done

definition guarded_run :: "'j json \<Rightarrow> 'j wp \<Rightarrow> 'j wp \<Rightarrow> bool" where
  "guarded_run J s s' \<longleftrightarrow> (\<exists>quiet rest. effects s' = effects s @ quiet @ rest \<and> list_all not_post quiet
    \<and> (rest = [] \<or> m_Mode s = ExecuteMode \<and> (\<exists>key. guarded_payout J key rest)))"

lemma guarded_run_quiet: "since (effects s) not_post s' \<Longrightarrow> guarded_run J s s'"
  unfolding guarded_run_def since_def by (elim exE, rule_tac x = es in exI, rule exI [of _ "[]"]) simp

lemma guarded_run_payout:
  "effects s' = effects s @ es \<Longrightarrow> m_Mode s = ExecuteMode \<Longrightarrow> guarded_payout J key es \<Longrightarrow> guarded_run J s s'"
  unfolding guarded_run_def by (rule exI [of _ "[]"], rule exI [of _ es], simp) blast

lemma guarded_run_after:
  assumes "since (effects s) not_post s2" and "m_Mode s2 = m_Mode s" and "guarded_run J s2 s'"
  shows "guarded_run J s s'"
proof -
  obtain es where es: "effects s2 = effects s @ es" "list_all not_post es"
    using assms(1) by (auto simp: since_def)
  obtain quiet rest where "effects s' = effects s2 @ quiet @ rest" "list_all not_post quiet"
    "rest = [] \<or> m_Mode s = ExecuteMode \<and> (\<exists>key. guarded_payout J key rest)"
    using assms(2,3) by (auto simp: guarded_run_def)
  then show ?thesis unfolding guarded_run_def using es
    by (intro exI [of _ "es @ quiet"] exI [of _ rest]) simp
qed

lemma processNext_trace:
  "guarded_run J s (final_state (processNextWithdrawalRequestOrEmitFinishedIfNoMore J s))"
proof (induction J s rule: processNextWithdrawalRequestOrEmitFinishedIfNoMore.induct)
  case (1 J s)
  define s1 where "s1 = s\<lparr>m_CurrentIndexIntoViewQueryResultsStringList :=
      m_CurrentIndexIntoViewQueryResultsStringList s + 1\<rparr>"
  have s1: "effects s1 = effects s" "m_Mode s1 = m_Mode s" by (simp_all add: s1_def)
  note unfold = processNextWithdrawalRequestOrEmitFinishedIfNoMore.simps [of J s, unfolded Let_def s1_def [symmetric]]
  show ?case
  proof (cases "m_CurrentIndexIntoViewQueryResultsStringList s1 < m_ViewQueryResultsStringListSize s1")
    case False
    then have "since (effects s) not_post (final_state (processNextWithdrawalRequestOrEmitFinishedIfNoMore J s))"
      using s1 by (simp add: unfold emit_def record_event_def since_def)
    then show ?thesis by (rule guarded_run_quiet)
  next
    case more: True
    show ?thesis
    proof (cases "list_at (m_ViewQueryResultsAsStringList s1) (m_CurrentIndexIntoViewQueryResultsStringList s1)")
      case None
      then show ?thesis using s1 more by (simp add: unfold guarded_run_quiet)
    next
      case (Some key)
      note IH = 1 [OF s1_def more Some]
      have step: "runs_to (processWithdrawalRequest J key)
        (\<lambda>n s'. since (effects s) not_post s' \<or> n = StopHere \<and> m_Mode s = ExecuteMode
          \<and> (\<exists>es. effects s' = effects s @ es \<and> guarded_payout J key es))
        (since (effects s) not_post) s1"
        using process_trace [OF s1(1), of J key] s1(2) by simp
      show ?thesis
      proof (cases "processWithdrawalRequest J key s1")
        case (Ret n s2)
        have mode: "m_Mode s2 = m_Mode s" using processWithdrawalRequest_position(4) [OF Ret] s1 by simp
        have outcome: "since (effects s) not_post s2 \<or> n = StopHere \<and> m_Mode s = ExecuteMode
            \<and> (\<exists>es. effects s2 = effects s @ es \<and> guarded_payout J key es)"
          by (rule runs_to_Ret [OF step Ret])
        show ?thesis
        proof (cases n)
          case ProcessNext
          then have "guarded_run J s (final_state (processNextWithdrawalRequestOrEmitFinishedIfNoMore J s2))"
            using outcome mode IH [OF Ret ProcessNext] by (auto intro: guarded_run_after)
          then show ?thesis using Ret ProcessNext more Some by (simp add: unfold)
        next
          case StopHere
          then have "guarded_run J s s2" using outcome by (auto intro: guarded_run_quiet guarded_run_payout)
          then show ?thesis using Ret StopHere more Some by (simp add: unfold)
        qed
      next
        case (Throws e s2)
        then show ?thesis using step more Some by (simp add: unfold runs_to_def guarded_run_quiet)
      next
        case (Blocked s2)
        then show ?thesis using step more Some by (simp add: unfold runs_to_def guarded_run_quiet)
      qed
    qed
  qed
qed

subsection \<open>Every payout is guarded, in every session\<close>

datatype 'j wp_call =
    ProcessWithdrawalRequests connect_env lcb_error "(lcb_error \<times> 'j) option"
  | ProceedOntoExecutionIteration
  | NetworkReplyFinished "'j network_reply"
  | UserWants way_to_handle string

fun run_call :: "'j json \<Rightarrow> (string \<Rightarrow> string) \<Rightarrow> 'j wp_call \<Rightarrow> ('j wp, unit) prog" where
  "run_call J base64 (ProcessWithdrawalRequests env res ans) = processWithdrawalRequests J env res ans"
| "run_call J base64 ProceedOntoExecutionIteration = proceedOntoExecutionIteration J"
| "run_call J base64 (NetworkReplyFinished reply) = handleNetworkReplyFinished J reply"
| "run_call J base64 (UserWants way err) =
     userWantsUsToHandleTheBitcoindCommunicationsErrorThisWay J base64 way err"

fun run_calls :: "'j json \<Rightarrow> (string \<Rightarrow> string) \<Rightarrow> 'j wp_call list \<Rightarrow> ('j wp, unit) prog" where
  "run_calls J base64 [] = return ()"
| "run_calls J base64 (c # cs) = andthen (run_call J base64 c) (\<lambda>_. run_calls J base64 cs)"

definition payouts_guarded :: "'j json \<Rightarrow> ('j, withdraw_output) event list \<Rightarrow> bool" where
  "payouts_guarded J es \<longleftrightarrow> (\<forall>pre cmd post. es = pre @ Out (PostToBitcoind cmd) # post \<longrightarrow>
     (\<exists>before run key. pre @ [Out (PostToBitcoind cmd)] = before @ run \<and> guarded_payout J key run))"

lemma not_post_member: "list_all not_post es \<Longrightarrow> Out (PostToBitcoind cmd) \<notin> set es"
  by (auto simp: list_all_iff)

lemma payouts_guarded_quiet:
  assumes "payouts_guarded J es" and "list_all not_post q"
  shows "payouts_guarded J (es @ q)"
  unfolding payouts_guarded_def
proof (intro allI impI)
  fix pre cmd post assume eq: "es @ q = pre @ Out (PostToBitcoind cmd) # post"
  then obtain us where "es = pre @ us \<and> us @ q = Out (PostToBitcoind cmd) # post
      \<or> es @ us = pre \<and> q = us @ Out (PostToBitcoind cmd) # post"
    by (auto simp: append_eq_append_conv2)
  then show "\<exists>before run key. pre @ [Out (PostToBitcoind cmd)] = before @ run \<and> guarded_payout J key run"
  proof
    assume a: "es = pre @ us \<and> us @ q = Out (PostToBitcoind cmd) # post"
    then obtain vs where "us = Out (PostToBitcoind cmd) # vs"
      using not_post_member [OF assms(2), of cmd] by (cases us) auto
    then show ?thesis using a assms(1) unfolding payouts_guarded_def by blast
  next
    assume "es @ us = pre \<and> q = us @ Out (PostToBitcoind cmd) # post"
    then show ?thesis using not_post_member [OF assms(2), of cmd] by auto
  qed
qed

lemma guarded_payout_last:
  assumes "guarded_payout J key run" and "run = pre @ Out (PostToBitcoind cmd) # post"
  shows "post = []"
  using assms by (auto simp: guarded_payout_def Cons_eq_append_conv append_eq_Cons_conv)

lemma payouts_guarded_payout:
  assumes "payouts_guarded J es" and "guarded_payout J key run"
  shows "payouts_guarded J (es @ run)"
  unfolding payouts_guarded_def
proof (intro allI impI)
  fix pre cmd post assume "es @ run = pre @ Out (PostToBitcoind cmd) # post"
  then obtain us where "es = pre @ us \<and> us @ run = Out (PostToBitcoind cmd) # post
      \<or> es @ us = pre \<and> run = us @ Out (PostToBitcoind cmd) # post"
    by (auto simp: append_eq_append_conv2)
  then show "\<exists>before run key. pre @ [Out (PostToBitcoind cmd)] = before @ run \<and> guarded_payout J key run"
  proof
    assume a: "es = pre @ us \<and> us @ run = Out (PostToBitcoind cmd) # post"
    show ?thesis
    proof (cases us)
      case Nil
      then have "run = [] @ Out (PostToBitcoind cmd) # post" using a by simp
      moreover from this have "post = []" using guarded_payout_last [OF assms(2)] by blast
      ultimately show ?thesis using assms(2) by auto
    next
      case (Cons u vs)
      then show ?thesis using a assms(1) unfolding payouts_guarded_def by simp
    qed
  next
    assume b: "es @ us = pre \<and> run = us @ Out (PostToBitcoind cmd) # post"
    then have "post = []" using guarded_payout_last [OF assms(2)] by blast
    then show ?thesis using b assms(2) by (intro exI [of _ es] exI [of _ run] exI [of _ key]) auto
  qed
qed

lemma payouts_guarded_run:
  assumes "guarded_run J s s'" and "payouts_guarded J (effects s)"
  shows "payouts_guarded J (effects s')"
proof -
  obtain quiet rest where eff: "effects s' = (effects s @ quiet) @ rest" and q: "list_all not_post quiet"
    and rest: "rest = [] \<or> (\<exists>key. guarded_payout J key rest)"
    using assms(1) by (auto simp: guarded_run_def)
  have "payouts_guarded J (effects s @ quiet)" by (rule payouts_guarded_quiet [OF assms(2) q])
  then show ?thesis using rest unfolding eff by (auto dest: payouts_guarded_payout)
qed

lemma keeps_payouts_guarded:
  assumes "\<And>X. keeps (since X not_post) (m :: ('j wp, 'a) prog)"
  shows "keeps (\<lambda>s. payouts_guarded J (effects s)) m"
proof (rule keepsI)
  fix s :: "'j wp" assume g: "payouts_guarded J (effects s)"
  have "since (effects s) not_post (final_state (m s))" by (rule keeps_final [OF assms]) simp
  then show "payouts_guarded J (effects (final_state (m s)))"
    using g by (auto simp: since_def intro: payouts_guarded_quiet)
qed

lemma keeps_guarded_processNext:
  "keeps (\<lambda>s. payouts_guarded J (effects s)) (processNextWithdrawalRequestOrEmitFinishedIfNoMore J)"
  by (rule keepsI) (rule payouts_guarded_run [OF processNext_trace])

lemma since_history: "since X ok s \<Longrightarrow> effects s' = effects s \<Longrightarrow> since X ok s'"
  by (simp add: since_def)

lemmas quiet_rules = prog_rules keeps_since_requests quiet_stages

lemma quiet_connect: "keeps (since X not_post) (connectToCouchbase env :: ('j wp, bool) prog)"
  unfolding connectToCouchbase_def configurationCallback_def errorOutput_def record_event_def
    destroyCouchbaseIfCreated_def
  by (intro prog_rules) (auto simp: since_def effects_def)

lemma quiet_row_ids: "keeps I (row_ids rows)"
proof (induction rows)
  case Nil
  show ?case by (simp only: row_ids.simps keeps_return)
next
  case (Cons r rows)
  then show ?case by (cases r) (simp only: row_ids.simps, intro prog_rules)
qed

lemma quiet_unlock: "keeps (since X not_post) (unlockUserProfileWithoutDebitting J)"
  unfolding unlockUserProfileWithoutDebitting_def
  by (intro prog_rules keeps_since_requests; simp add: since_def)

lemma quiet_error_handling:
  "keeps (since X not_post) (revertCurrentWithdrawalRequestStateToUnprocessed__AndUnlockWithoutDebittingUserProfile J)"
  "keeps (since X not_post)
     (setCurrentWithdrawalRequestToStateBitcoindReturnedError_Done__AndUnlockWithoutDebittingUserProfile J base64 err)"
  unfolding revertCurrentWithdrawalRequestStateToUnprocessed__AndUnlockWithoutDebittingUserProfile_def
    setCurrentWithdrawalRequestToStateBitcoindReturnedError_Done__AndUnlockWithoutDebittingUserProfile_def
  by (intro prog_rules keeps_since_requests quiet_unlock; simp add: since_def)+

lemma quiet_view: "keeps (since X not_post) (viewQueryCompleteCallback J e bytes)"
  unfolding viewQueryCompleteCallback_def
  by (intro prog_rules keeps_since_requests; simp add: since_def)

lemma keeps_case_way:
  "(\<And>x y. keeps I (f x y)) \<Longrightarrow> (\<And>x. keeps I (g x)) \<Longrightarrow>
    keeps I (case r of NetworkError x \<Rightarrow> g x | HttpReply x y \<Rightarrow> f x y)"
  by (cases r) simp_all

lemma keeps_guarded_emit:
  "not_post (Out x :: ('j, withdraw_output) event) \<Longrightarrow> keeps (\<lambda>s. payouts_guarded J (effects s)) (emit x :: ('j wp, unit) prog)"
  by (intro keeps_payouts_guarded keeps_since_emit)

lemma keeps_guarded_go_on: "keeps (\<lambda>s. payouts_guarded J (effects s)) (go_on J n)"
  by (cases n) (simp_all add: go_on_def keeps_guarded_processNext keeps_return)

lemmas guarded_rules = prog_rules keeps_guarded_processNext keeps_guarded_emit keeps_guarded_go_on
  quiet_connect [THEN keeps_payouts_guarded] quiet_row_ids quiet_view [THEN keeps_payouts_guarded]
  quiet_error_handling [THEN keeps_payouts_guarded] quiet_stages [THEN keeps_payouts_guarded]
  keeps_since_store [THEN keeps_payouts_guarded]

lemma guarded_call: "keeps (\<lambda>s. payouts_guarded J (effects s)) (run_call J base64 c)"
proof (cases c)
  case (ProcessWithdrawalRequests env res ans)
  then show ?thesis
    by (simp only: run_call.simps processWithdrawalRequests_def) (intro guarded_rules; simp)
next
  case ProceedOntoExecutionIteration
  then show ?thesis
    by (simp only: run_call.simps proceedOntoExecutionIteration_def) (intro guarded_rules; simp)
next
  case (NetworkReplyFinished reply)
  then show ?thesis
    by (simp only: run_call.simps handleNetworkReplyFinished_def) (intro guarded_rules keeps_case_way; simp)
next
  case (UserWants way err)
  then show ?thesis
    by (simp only: run_call.simps userWantsUsToHandleTheBitcoindCommunicationsErrorThisWay_def)
      (intro guarded_rules; simp)
qed

lemma guarded_calls: "keeps (\<lambda>s. payouts_guarded J (effects s)) (run_calls J base64 cs)"
  by (induction cs) (simp_all only: run_calls.simps keeps_return keeps_andthen guarded_call)

text \<open>
  C1. Every bitcoin payout posted in any session of the processor, whatever the database, the daemon
  and the operator answer, comes right after this sequence: the request and the profile were read, the
  profile was unlocked and its balance covered amount plus fee, the request was in none of the
  states it is closed in (''..._Done''), not handed to the daemon before (''processing'') and not waiting
  for its debit (processed already), the profile was locked towards the request with the CAS of that read, and the request was
  set to processing with the CAS of that read, both stores succeeding.
\<close>

theorem every_payout_is_guarded:
  "payouts_guarded J (effects (final_state (run_calls J base64 calls (s\<lparr>history := []\<rparr>))))"
  by (rule keeps_final [OF guarded_calls]) (simp add: payouts_guarded_def effects_def)

end
