(* ===== verification/WithdrawFlows.thy ===== *)
theory WithdrawFlows
  imports Withdraw
begin

section \<open>The withdrawal processor: payouts, reverts and recovery\<close>

text \<open>
  Functional behaviour of the withdrawal processor on whole flows: a payout from the lock to the end, the
  operator's revert after bitcoind failed, and the recovery of a request found paid but not
  debited. The programs of \<open>Withdraw\<close> are executed symbolically on the answers the theorems assume.
\<close>

subsection \<open>A payout from the lock to the end\<close>

lemmas process_run = processWithdrawalRequest_def process_not_done_request_def
  process_unprocessed_request_def readInUserBalanceAndCalculateWithdrawalFeesEtc_def
  calculate_or_pay_def lock_and_issue_payout_def recover_processed_but_not_debitted_def
  continueAt_deductAmountFromCurrentUserProfileBalanceAndCasSwapUnlockIt_def
  continueAt_setWithdrawalRequestStateToProcessedAndDone_def
  debitCurrentWithdrawalRequestFromUsersCalculatedRollingBalance_def finish_def
  andthen_def ends_with_def emit_def record_event_def Let_def total_of_def fee_in_satoshis_def

text \<open>A request the processor can pay: what the documents must hold.\<close>

definition payable :: "string \<Rightarrow> string \<Rightarrow> ptree \<Rightarrow> ptree \<Rightarrow> int \<Rightarrow> int \<Rightarrow> string \<Rightarrow> bool" where
  "payable key user request profile balance desired address \<longleftrightarrow>
     pt_get JSON_WITHDRAW_FUNDS_REQUEST_STATE_KEY request = Some STATE_UNPROCESSED
     \<and> list_at (split_at (CHR ''_'') key) 1 = Some user
     \<and> \<not> profileIsLocked profile
     \<and> Option.bind (pt_get JSON_USER_ACCOUNT_BALANCE profile) lexical_cast_longlong = Some balance
     \<and> Option.bind (pt_get JSON_WITHDRAW_FUNDS_REQUESTED_AMOUNT request) lexical_cast_longlong = Some desired
     \<and> pt_get JSON_WITHDRAW_FUNDS_BITCOIN_PAYOUT_KEY request = Some address"

lemma issue_payout_run:
  assumes "m_CouchbaseCreated s" and "m_Mode s = ExecuteMode"
    and "cluster_replies s = Answer LCB_SUCCESS request_doc c1 # Answer LCB_SUCCESS profile_doc c2
        # Answer LCB_SUCCESS d3 c3 # Answer LCB_SUCCESS d4 c4 # rs"
    and "read_json J request_doc = Some request" and "read_json J profile_doc = Some profile"
    and "payable key user request profile balance desired address"
    and "user \<notin> m_UsersWithProfilesFoundLocked s" and "total_of desired \<le> balance"
  shows "\<exists>s'. processWithdrawalRequest J key s = Ret StopHere s' \<and> m_CouchbaseCreated s'
    \<and> m_Mode s' = ExecuteMode \<and> cluster_replies s' = rs
    \<and> m_CurrentKeyToNotDoneWithdrawalRequest s' = key \<and> m_CurrentUserRequestingWithdrawal s' = user
    \<and> m_CurrentWithdrawalRequestPropertyTree s' = pt_put JSON_WITHDRAW_FUNDS_REQUEST_STATE_KEY STATE_PROCESSING request
    \<and> m_CurrentUserProfilePropertyTree s' = pt_put JSON_USER_ACCOUNT_LOCKED_WITHDRAWING_FUNDS key profile
    \<and> m_CurrentUserBalanceInSatoshis s' = balance
    \<and> m_CurrentWithdrawRequestTotalAmountToWithdraw s' = total_of desired
    \<and> m_CurrentUserProfileInLockedWithdrawingStateCas s' = c3
    \<and> m_CurrentWithdrawalRequestInProcessingStateCas s' = c4
    \<and> effects s' = effects s @ [DidGet key (Answer LCB_SUCCESS request_doc c1),
      DidGet (userAccountKey user) (Answer LCB_SUCCESS profile_doc c2),
      DidStore (userAccountKey user)
        (write_json J (pt_put JSON_USER_ACCOUNT_LOCKED_WITHDRAWING_FUNDS key profile)) LCB_SET c2
        (Answer LCB_SUCCESS d3 c3),
      DidStore key (write_json J (pt_put JSON_WITHDRAW_FUNDS_REQUEST_STATE_KEY STATE_PROCESSING request))
        LCB_SET c1 (Answer LCB_SUCCESS d4 c4),
      Out (PostToBitcoind (payout_command address desired))]"
  using assms unfolding payable_def
  by (elim conjE bind_SomeE) (simp add: process_run prog_run)

definition settled_profile :: "int \<Rightarrow> ptree \<Rightarrow> ptree \<Rightarrow> bool" where
  "settled_profile left before after \<longleftrightarrow> (\<forall>k. pt_get k after =
     (if k = JSON_USER_ACCOUNT_LOCKED_WITHDRAWING_FUNDS then None
      else if k = JSON_USER_ACCOUNT_BALANCE then Some (show_int left) else pt_get k before))"

lemma settle_payout_run:
  assumes "m_CouchbaseCreated s" and "m_Mode s = ExecuteMode"
    and "cluster_replies s = Answer LCB_SUCCESS d5 c5 # Answer LCB_SUCCESS d6 c6 # Answer LCB_SUCCESS d7 c7 # rs"
    and "read_json J body = Some answer" and "pt_get ''error'' answer = Some ''null''"
    and "pt_get ''result'' answer = Some txid"
  shows "\<exists>s'. handleNetworkReplyFinished J (HttpReply (Some 200) body) s
      = processNextWithdrawalRequestOrEmitFinishedIfNoMore J s'
    \<and> cluster_replies s' = rs
    \<and> effects s' = effects s @
      [DidStore (m_CurrentKeyToNotDoneWithdrawalRequest s)
        (write_json J (pt_put JSON_WITHDRAW_FUNDS_REQUEST_STATE_KEY STATE_PROCESSEDBUTPROFILENEEDSDEDUCTINGANDUNLOCKING
          (pt_put JSON_WITHDRAW_FUNDS_TXID txid (m_CurrentWithdrawalRequestPropertyTree s)))) LCB_SET
        (m_CurrentWithdrawalRequestInProcessingStateCas s) (Answer LCB_SUCCESS d5 c5),
       DidStore (userAccountKey (m_CurrentUserRequestingWithdrawal s))
        (write_json J (pt_erase JSON_USER_ACCOUNT_LOCKED_WITHDRAWING_FUNDS (pt_put JSON_USER_ACCOUNT_BALANCE
          (show_int (wrap64 (m_CurrentUserBalanceInSatoshis s - m_CurrentWithdrawRequestTotalAmountToWithdraw s)))
          (m_CurrentUserProfilePropertyTree s)))) LCB_SET
        (m_CurrentUserProfileInLockedWithdrawingStateCas s) (Answer LCB_SUCCESS d6 c6),
       DidStore (m_CurrentKeyToNotDoneWithdrawalRequest s)
        (write_json J (pt_put JSON_WITHDRAW_FUNDS_REQUEST_STATE_KEY STATE_PROCESSEDDONE
          (pt_put JSON_WITHDRAW_FUNDS_REQUEST_STATE_KEY STATE_PROCESSEDBUTPROFILENEEDSDEDUCTINGANDUNLOCKING
          (pt_put JSON_WITHDRAW_FUNDS_TXID txid (m_CurrentWithdrawalRequestPropertyTree s))))) LCB_SET c5
        (Answer LCB_SUCCESS d7 c7)]"
  using assms
  by (simp add: handleNetworkReplyFinished_def process_run prog_run go_on_def)
    (rule exI, rule conjI, rule refl, simp add: effects_def)

text \<open>
  C16. A payable request in execute mode is paid once and settled exactly: when the database and the daemon
  accept, the command posted carries the requested amount and key, the profile is stored first locked and
  finally unlocked with its balance lowered by amount plus fee and nothing else changed, the request ends
  processed_Done with the transaction id, and each store carries the CAS of the document version it replaces.
\<close>

theorem payout_is_issued_and_settled:
  assumes "m_CouchbaseCreated s" and "m_Mode s = ExecuteMode"
    and "cluster_replies s = [Answer LCB_SUCCESS request_doc c1, Answer LCB_SUCCESS profile_doc c2,
        Answer LCB_SUCCESS d3 c3, Answer LCB_SUCCESS d4 c4, Answer LCB_SUCCESS d5 c5,
        Answer LCB_SUCCESS d6 c6, Answer LCB_SUCCESS d7 c7] @ rs"
    and "read_json J request_doc = Some request" and "read_json J profile_doc = Some profile"
    and "payable key user request profile balance desired address"
    and "user \<notin> m_UsersWithProfilesFoundLocked s"
    and "0 \<le> total_of desired" and "total_of desired \<le> balance"
    and "read_json J body = Some answer" and "pt_get ''error'' answer = Some ''null''"
    and "pt_get ''result'' answer = Some txid"
  shows "\<exists>s1 s2 locked processing paid settled closed.
    processWithdrawalRequest J key s = Ret StopHere s1
    \<and> handleNetworkReplyFinished J (HttpReply (Some 200) body) s1
        = processNextWithdrawalRequestOrEmitFinishedIfNoMore J s2
    \<and> cluster_replies s2 = rs
    \<and> effects s2 = effects s @ [DidGet key (Answer LCB_SUCCESS request_doc c1),
      DidGet (userAccountKey user) (Answer LCB_SUCCESS profile_doc c2),
      DidStore (userAccountKey user) (write_json J locked) LCB_SET c2 (Answer LCB_SUCCESS d3 c3),
      DidStore key (write_json J processing) LCB_SET c1 (Answer LCB_SUCCESS d4 c4),
      Out (PostToBitcoind (payout_command address desired)),
      DidStore key (write_json J paid) LCB_SET c4 (Answer LCB_SUCCESS d5 c5),
      DidStore (userAccountKey user) (write_json J settled) LCB_SET c3 (Answer LCB_SUCCESS d6 c6),
      DidStore key (write_json J closed) LCB_SET c5 (Answer LCB_SUCCESS d7 c7)]
    \<and> pt_get JSON_USER_ACCOUNT_LOCKED_WITHDRAWING_FUNDS locked = Some key
    \<and> pt_get JSON_WITHDRAW_FUNDS_REQUEST_STATE_KEY processing = Some STATE_PROCESSING
    \<and> settled_profile (balance - total_of desired) profile settled
    \<and> pt_get JSON_WITHDRAW_FUNDS_REQUEST_STATE_KEY closed = Some STATE_PROCESSEDDONE
    \<and> pt_get JSON_WITHDRAW_FUNDS_TXID closed = Some txid"
proof -
  have "cluster_replies s = Answer LCB_SUCCESS request_doc c1 # Answer LCB_SUCCESS profile_doc c2
      # Answer LCB_SUCCESS d3 c3 # Answer LCB_SUCCESS d4 c4 # [Answer LCB_SUCCESS d5 c5,
        Answer LCB_SUCCESS d6 c6, Answer LCB_SUCCESS d7 c7] @ rs" using assms(3) by simp
  from issue_payout_run [OF assms(1,2) this assms(4-7,9)] obtain s1 where
    s1: "processWithdrawalRequest J key s = Ret StopHere s1" "m_CouchbaseCreated s1" "m_Mode s1 = ExecuteMode"
      "cluster_replies s1 = Answer LCB_SUCCESS d5 c5 # Answer LCB_SUCCESS d6 c6 # Answer LCB_SUCCESS d7 c7 # rs"
    and m: "m_CurrentKeyToNotDoneWithdrawalRequest s1 = key" "m_CurrentUserRequestingWithdrawal s1 = user"
      "m_CurrentWithdrawalRequestPropertyTree s1 = pt_put JSON_WITHDRAW_FUNDS_REQUEST_STATE_KEY STATE_PROCESSING request"
      "m_CurrentUserProfilePropertyTree s1 = pt_put JSON_USER_ACCOUNT_LOCKED_WITHDRAWING_FUNDS key profile"
      "m_CurrentUserBalanceInSatoshis s1 = balance"
      "m_CurrentWithdrawRequestTotalAmountToWithdraw s1 = total_of desired"
      "m_CurrentUserProfileInLockedWithdrawingStateCas s1 = c3"
      "m_CurrentWithdrawalRequestInProcessingStateCas s1 = c4"
    and e: "effects s1 = effects s @ [DidGet key (Answer LCB_SUCCESS request_doc c1),
      DidGet (userAccountKey user) (Answer LCB_SUCCESS profile_doc c2),
      DidStore (userAccountKey user)
        (write_json J (pt_put JSON_USER_ACCOUNT_LOCKED_WITHDRAWING_FUNDS key profile)) LCB_SET c2
        (Answer LCB_SUCCESS d3 c3),
      DidStore key (write_json J (pt_put JSON_WITHDRAW_FUNDS_REQUEST_STATE_KEY STATE_PROCESSING request))
        LCB_SET c1 (Answer LCB_SUCCESS d4 c4),
      Out (PostToBitcoind (payout_command address desired))]" by auto
  have "wrap64 (balance - total_of desired) = balance - total_of desired"
    using assms(6,8,9) by (intro wrap64_id) (auto simp: payable_def dest!: lexical_cast_longlong_range elim!: bind_SomeE)
  moreover have "settled_profile (balance - total_of desired) profile (pt_erase JSON_USER_ACCOUNT_LOCKED_WITHDRAWING_FUNDS
      (pt_put JSON_USER_ACCOUNT_BALANCE (show_int (balance - total_of desired))
        (pt_put JSON_USER_ACCOUNT_LOCKED_WITHDRAWING_FUNDS key profile)))"
    unfolding settled_profile_def using doc.lock_unlock_frame by simp
  moreover obtain s2 where "handleNetworkReplyFinished J (HttpReply (Some 200) body) s1
      = processNextWithdrawalRequestOrEmitFinishedIfNoMore J s2" "cluster_replies s2 = rs"
    and "effects s2 = effects s1 @
      [DidStore key (write_json J (pt_put JSON_WITHDRAW_FUNDS_REQUEST_STATE_KEY
          STATE_PROCESSEDBUTPROFILENEEDSDEDUCTINGANDUNLOCKING (pt_put JSON_WITHDRAW_FUNDS_TXID txid
          (m_CurrentWithdrawalRequestPropertyTree s1)))) LCB_SET c4 (Answer LCB_SUCCESS d5 c5),
       DidStore (userAccountKey user)
        (write_json J (pt_erase JSON_USER_ACCOUNT_LOCKED_WITHDRAWING_FUNDS (pt_put JSON_USER_ACCOUNT_BALANCE
          (show_int (wrap64 (balance - total_of desired)))
          (m_CurrentUserProfilePropertyTree s1)))) LCB_SET c3 (Answer LCB_SUCCESS d6 c6),
       DidStore key (write_json J (pt_put JSON_WITHDRAW_FUNDS_REQUEST_STATE_KEY STATE_PROCESSEDDONE
          (pt_put JSON_WITHDRAW_FUNDS_REQUEST_STATE_KEY STATE_PROCESSEDBUTPROFILENEEDSDEDUCTINGANDUNLOCKING
          (pt_put JSON_WITHDRAW_FUNDS_TXID txid (m_CurrentWithdrawalRequestPropertyTree s1))))) LCB_SET c5
        (Answer LCB_SUCCESS d7 c7)]"
    using settle_payout_run [OF s1(2,3,4) assms(10-12)] m by auto
  ultimately show ?thesis using s1(1) m(3,4) e
    by (intro exI [of _ s1] exI [of _ s2] exI conjI) (assumption | simp)+
qed

definition demo_request :: ptree where
  "demo_request = plain_doc [(JSON_WITHDRAW_FUNDS_REQUEST_STATE_KEY, STATE_UNPROCESSED),
     (JSON_WITHDRAW_FUNDS_REQUESTED_AMOUNT, ''1000''), (JSON_WITHDRAW_FUNDS_BITCOIN_PAYOUT_KEY, ''1Bob'')]"

definition demo_profile :: ptree where
  "demo_profile = plain_doc [(JSON_USER_ACCOUNT_BALANCE, ''5000'')]"

text \<open>A processor whose members are all set, on given answers of the database.\<close>

definition demo_wp :: "withdraw_mode \<Rightarrow> string list \<Rightarrow> ptree reply list \<Rightarrow> ptree wp" where
  "demo_wp mode keys rs = lcb_user.extend (connected_client pt_empty rs)
     (wp.fields mode 0 Map.empty False pt_empty keys (- 1) (int (length keys)) {} [] [] pt_empty pt_empty
        0 0 0 0 0 [] 0)"

lemma demo_wp_sel [simp]:
  "m_CouchbaseCreated (demo_wp mode keys rs)" "m_Mode (demo_wp mode keys rs) = mode"
  "cluster_replies (demo_wp mode keys rs) = rs" "effects (demo_wp mode keys rs) = []"
  "m_UsersWithProfilesFoundLocked (demo_wp mode keys rs) = {}"
  "m_ViewQueryResultsAsStringList (demo_wp mode keys rs) = keys"
  "m_CurrentIndexIntoViewQueryResultsStringList (demo_wp mode keys rs) = - 1"
  "m_ViewQueryResultsStringListSize (demo_wp mode keys rs) = int (length keys)"
  "m_UserBalancesInSatoshisDuringCalculationMode (demo_wp mode keys rs) = Map.empty"
  "m_RunningTotalOfAllWithdrawalRequestsInSatoshis (demo_wp mode keys rs) = 0"
  by (simp_all add: demo_wp_def lcb_user.extend_def wp.fields_def connected_client_def effects_def)

lemma demo_total: "total_of 1000 = 1016"
  by code_simp

lemma demo_payable: "payable ''withdrawFundsRequest_bob_0'' ''bob'' demo_request demo_profile 5000 1000 ''1Bob''"
  by (simp add: payable_def demo_request_def demo_profile_def profileIsLocked_def pt_get_default_def
      lexical_cast_longlong_def read_range_def read_nat_def digit_value_def is_digit_def list_at_def)

theorem payout_is_issued_and_settled_witness:
  "\<exists>s2 settled. handleNetworkReplyFinished tree_json (HttpReply (Some 200)
        (plain_doc [(''error'', ''null''), (''result'', ''f00d'')]))
      (final_state (processWithdrawalRequest tree_json ''withdrawFundsRequest_bob_0''
        (demo_wp ExecuteMode [] [Answer LCB_SUCCESS demo_request 1, Answer LCB_SUCCESS demo_profile 2,
          Answer LCB_SUCCESS pt_empty 3, Answer LCB_SUCCESS pt_empty 4, Answer LCB_SUCCESS pt_empty 5,
          Answer LCB_SUCCESS pt_empty 6, Answer LCB_SUCCESS pt_empty 7])))
      = processNextWithdrawalRequestOrEmitFinishedIfNoMore tree_json s2
    \<and> settled_profile 3984 demo_profile settled"
proof -
  let ?s = "demo_wp ExecuteMode [] [Answer LCB_SUCCESS demo_request 1, Answer LCB_SUCCESS demo_profile 2,
          Answer LCB_SUCCESS pt_empty 3, Answer LCB_SUCCESS pt_empty 4, Answer LCB_SUCCESS pt_empty 5,
          Answer LCB_SUCCESS pt_empty 6, Answer LCB_SUCCESS pt_empty 7]"
  have r: "read_json tree_json demo_request = Some demo_request"
    "read_json tree_json demo_profile = Some demo_profile"
    "read_json tree_json (plain_doc [(''error'', ''null''), (''result'', ''f00d'')])
      = Some (plain_doc [(''error'', ''null''), (''result'', ''f00d'')])" by simp_all
  from payout_is_issued_and_settled [of ?s demo_request 1 demo_profile 2 pt_empty 3 pt_empty 4 pt_empty 5 pt_empty 6
      pt_empty 7 "[]", OF _ _ _ r(1,2) demo_payable _ _ _ r(3), of "''f00d''"]
  show ?thesis by (auto simp: demo_total)
qed

subsection \<open>When bitcoind fails\<close>

text \<open>
  When bitcoind refuses and the operator reverts, the profile is stored without the lock and without
  a debit, every other field as it was, under the CAS of the locked version; the request goes back to
  unprocessed under the CAS of its processing version; nothing else is written and the run stops.
\<close>

theorem revert_restores:
  assumes "m_CouchbaseCreated s"
    and "cluster_replies s = Answer LCB_SUCCESS d1 c1 # Answer LCB_SUCCESS d2 c2 # rs"
    and "m_CurrentUserProfilePropertyTree s = pt_put JSON_USER_ACCOUNT_LOCKED_WITHDRAWING_FUNDS key profile"
    and "\<not> profileIsLocked profile" and "pt_get JSON_USER_ACCOUNT_LOCKED_WITHDRAWING_FUNDS profile = None"
    and "m_CurrentWithdrawalRequestPropertyTree s
          = pt_put JSON_WITHDRAW_FUNDS_REQUEST_STATE_KEY STATE_PROCESSING request"
    and "pt_get JSON_WITHDRAW_FUNDS_REQUEST_STATE_KEY request = Some STATE_UNPROCESSED"
  shows "\<exists>s' request' profile'. userWantsUsToHandleTheBitcoindCommunicationsErrorThisWay J base64
      RevertWithdrawalRequestStateToUnprocessedAndStopProcessingWithdrawalRequests err s = Ret () s'
    \<and> effects s' = effects s @
        [DidStore (m_CurrentKeyToNotDoneWithdrawalRequest s) (write_json J request') LCB_SET
           (m_CurrentWithdrawalRequestInProcessingStateCas s) (Answer LCB_SUCCESS d1 c1),
         DidStore (userAccountKey (m_CurrentUserRequestingWithdrawal s)) (write_json J profile') LCB_SET
           (m_CurrentUserProfileInLockedWithdrawingStateCas s) (Answer LCB_SUCCESS d2 c2),
         Out (WithdrawalRequestProcessingFinished True)]
    \<and> (\<forall>k. pt_get k request' = pt_get k request) \<and> (\<forall>k. pt_get k profile' = pt_get k profile)
    \<and> \<not> profileIsLocked profile'"
  (is "\<exists>s' request' profile'. ?P s' request' profile'")
proof -
  let ?r = "pt_put JSON_WITHDRAW_FUNDS_REQUEST_STATE_KEY STATE_UNPROCESSED
      (pt_put JSON_WITHDRAW_FUNDS_REQUEST_STATE_KEY STATE_PROCESSING request)"
  let ?p = "pt_erase JSON_USER_ACCOUNT_LOCKED_WITHDRAWING_FUNDS
      (pt_put JSON_USER_ACCOUNT_LOCKED_WITHDRAWING_FUNDS key profile)"
  have "\<exists>s'. ?P s' ?r ?p"
    using assms doc.unlock_restores [OF assms(5)] unlock_own_lock [OF assms(4)]
    by (simp add: userWantsUsToHandleTheBitcoindCommunicationsErrorThisWay_def process_run prog_run
        revertCurrentWithdrawalRequestStateToUnprocessed__AndUnlockWithoutDebittingUserProfile_def
        unlockUserProfileWithoutDebitting_def effects_def)
  then show ?thesis by blast
qed

theorem revert_restores_witness:
  "\<exists>s' profile'. userWantsUsToHandleTheBitcoindCommunicationsErrorThisWay tree_json (\<lambda>x. x)
      RevertWithdrawalRequestStateToUnprocessedAndStopProcessingWithdrawalRequests ''no route''
      ((demo_wp ExecuteMode [] [Answer LCB_SUCCESS pt_empty 1, Answer LCB_SUCCESS pt_empty 2])
        \<lparr>m_CurrentUserProfilePropertyTree := pt_put JSON_USER_ACCOUNT_LOCKED_WITHDRAWING_FUNDS ''k'' demo_profile,
         m_CurrentWithdrawalRequestPropertyTree :=
           pt_put JSON_WITHDRAW_FUNDS_REQUEST_STATE_KEY STATE_PROCESSING demo_request\<rparr>) = Ret () s'
    \<and> \<not> profileIsLocked profile'"
proof -
  let ?s = "(demo_wp ExecuteMode [] [Answer LCB_SUCCESS pt_empty 1, Answer LCB_SUCCESS pt_empty 2])
        \<lparr>m_CurrentUserProfilePropertyTree := pt_put JSON_USER_ACCOUNT_LOCKED_WITHDRAWING_FUNDS ''k'' demo_profile,
         m_CurrentWithdrawalRequestPropertyTree :=
           pt_put JSON_WITHDRAW_FUNDS_REQUEST_STATE_KEY STATE_PROCESSING demo_request\<rparr>"
  have a: "m_CouchbaseCreated ?s" "cluster_replies ?s = [Answer LCB_SUCCESS pt_empty 1, Answer LCB_SUCCESS pt_empty 2]"
    "m_CurrentUserProfilePropertyTree ?s = pt_put JSON_USER_ACCOUNT_LOCKED_WITHDRAWING_FUNDS ''k'' demo_profile"
    "m_CurrentWithdrawalRequestPropertyTree ?s
      = pt_put JSON_WITHDRAW_FUNDS_REQUEST_STATE_KEY STATE_PROCESSING demo_request"
    by (simp_all add: demo_wp_def lcb_user.extend_def wp.fields_def connected_client_def)
  have b: "\<not> profileIsLocked demo_profile" "pt_get JSON_USER_ACCOUNT_LOCKED_WITHDRAWING_FUNDS demo_profile = None"
    "pt_get JSON_WITHDRAW_FUNDS_REQUEST_STATE_KEY demo_request = Some STATE_UNPROCESSED"
    by (simp_all add: demo_profile_def demo_request_def profileIsLocked_def pt_get_default_def)
  show ?thesis using revert_restores [OF a(1,2,3) b(1,2) a(4) b(3)] by blast
qed

subsection \<open>Recovering a request that was paid but not debited\<close>

text \<open>
  C31. A request found paid but not yet debited (the process died between the payout and the debit, so the
  profile is still locked towards the request) is closed without the debit: the profile is not written at
  all, it keeps the lock and the full balance, and the payout is never charged.
\<close>

theorem recovery_of_a_locked_profile_never_debits:
  assumes "m_CouchbaseCreated s"
    and "cluster_replies s = Answer LCB_SUCCESS request_doc c1 # Answer LCB_SUCCESS profile_doc c2
        # Answer LCB_SUCCESS d3 c3 # rs"
    and "read_json J request_doc = Some request" and "read_json J profile_doc = Some profile"
    and "pt_get JSON_WITHDRAW_FUNDS_REQUEST_STATE_KEY request
          = Some STATE_PROCESSEDBUTPROFILENEEDSDEDUCTINGANDUNLOCKING"
    and "list_at (split_at (CHR ''_'') key) 1 = Some user" and "user \<notin> m_UsersWithProfilesFoundLocked s"
    and "pt_get JSON_USER_ACCOUNT_LOCKED_WITHDRAWING_FUNDS profile = Some key"
  shows "\<exists>s'. processWithdrawalRequest J key s = Ret ProcessNext s'
    \<and> effects s' = effects s @ [DidGet key (Answer LCB_SUCCESS request_doc c1),
      DidGet (userAccountKey user) (Answer LCB_SUCCESS profile_doc c2),
      DidStore key (write_json J (pt_put JSON_WITHDRAW_FUNDS_REQUEST_STATE_KEY STATE_PROCESSEDDONE request))
        LCB_SET c1 (Answer LCB_SUCCESS d3 c3)]"
  using assms by (simp add: process_run prog_run effects_def)

definition demo_paid :: ptree where
  "demo_paid = pt_put JSON_WITHDRAW_FUNDS_REQUEST_STATE_KEY
     STATE_PROCESSEDBUTPROFILENEEDSDEDUCTINGANDUNLOCKING demo_request"

theorem recovery_of_a_locked_profile_never_debits_witness:
  "\<exists>s'. processWithdrawalRequest tree_json ''withdrawFundsRequest_bob_0'' (demo_wp ExecuteMode []
      [Answer LCB_SUCCESS demo_paid 1, Answer LCB_SUCCESS (pt_put JSON_USER_ACCOUNT_LOCKED_WITHDRAWING_FUNDS
        ''withdrawFundsRequest_bob_0'' demo_profile) 2, Answer LCB_SUCCESS pt_empty 3]) = Ret ProcessNext s'
    \<and> (\<forall>v st c r. DidStore (userAccountKey ''bob'') v st c r \<notin> set (effects s'))"
proof -
  let ?p = "pt_put JSON_USER_ACCOUNT_LOCKED_WITHDRAWING_FUNDS ''withdrawFundsRequest_bob_0'' demo_profile"
  let ?s = "demo_wp ExecuteMode [] [Answer LCB_SUCCESS demo_paid 1, Answer LCB_SUCCESS ?p 2, Answer LCB_SUCCESS pt_empty 3]"
  from recovery_of_a_locked_profile_never_debits [of ?s demo_paid 1 ?p 2 pt_empty 3 "[]" tree_json demo_paid ?p
      "''withdrawFundsRequest_bob_0''" "''bob''"]
  show ?thesis by (auto simp: demo_paid_def list_at_def userAccountKey_def)
qed

text \<open>
  A paid request whose profile is already debited and unlocked (the process died just before closing
  the request) is debited again: the profile loses amount plus fee a second time, and the store carries the
  CAS left over from an earlier payout instead of the one just read.
\<close>

lemma recovery_of_an_unlocked_profile_debits_again:
  assumes "m_CouchbaseCreated s" and "m_Mode s = ExecuteMode"
    and "cluster_replies s = Answer LCB_SUCCESS request_doc c1 # Answer LCB_SUCCESS profile_doc c2
        # Answer LCB_SUCCESS d3 c3 # Answer LCB_SUCCESS d4 c4 # rs"
    and "read_json J request_doc = Some request" and "read_json J profile_doc = Some profile"
    and "pt_get JSON_WITHDRAW_FUNDS_REQUEST_STATE_KEY request
          = Some STATE_PROCESSEDBUTPROFILENEEDSDEDUCTINGANDUNLOCKING"
    and "list_at (split_at (CHR ''_'') key) 1 = Some user" and "user \<notin> m_UsersWithProfilesFoundLocked s"
    and "pt_get JSON_USER_ACCOUNT_LOCKED_WITHDRAWING_FUNDS profile = None" and "key \<noteq> ''n''"
    and "Option.bind (pt_get JSON_USER_ACCOUNT_BALANCE profile) lexical_cast_longlong = Some balance"
    and "Option.bind (pt_get JSON_WITHDRAW_FUNDS_REQUESTED_AMOUNT request) lexical_cast_longlong = Some desired"
  shows "\<exists>s' profile'. processWithdrawalRequest J key s = Ret ProcessNext s'
    \<and> effects s' = effects s @ [DidGet key (Answer LCB_SUCCESS request_doc c1),
      DidGet (userAccountKey user) (Answer LCB_SUCCESS profile_doc c2),
      DidStore (userAccountKey user) (write_json J profile') LCB_SET
        (m_CurrentUserProfileInLockedWithdrawingStateCas s) (Answer LCB_SUCCESS d3 c3),
      DidStore key (write_json J (pt_put JSON_WITHDRAW_FUNDS_REQUEST_STATE_KEY STATE_PROCESSEDDONE request))
        LCB_SET c1 (Answer LCB_SUCCESS d4 c4)]
    \<and> settled_profile (wrap64 (balance - total_of desired)) profile profile'"
  (is "\<exists>s' profile'. ?P s' profile'")
proof -
  let ?p = "pt_erase JSON_USER_ACCOUNT_LOCKED_WITHDRAWING_FUNDS
      (pt_put JSON_USER_ACCOUNT_BALANCE (show_int (wrap64 (balance - total_of desired))) profile)"
  have "\<exists>s'. ?P s' ?p"
    using assms by (elim bind_SomeE)
      (simp add: process_run prog_run effects_def settled_profile_def pt_get_default_def)
  then show ?thesis by blast
qed

lemma recovery_of_an_unlocked_profile_debits_again_witness:
  "\<exists>s' profile'. processWithdrawalRequest tree_json ''withdrawFundsRequest_bob_0'' (demo_wp ExecuteMode []
      [Answer LCB_SUCCESS demo_paid 1, Answer LCB_SUCCESS demo_profile 2,
       Answer LCB_SUCCESS pt_empty 3, Answer LCB_SUCCESS pt_empty 4]) = Ret ProcessNext s'
    \<and> settled_profile 3984 demo_profile profile'"
proof -
  let ?s = "demo_wp ExecuteMode [] [Answer LCB_SUCCESS demo_paid 1, Answer LCB_SUCCESS demo_profile 2,
       Answer LCB_SUCCESS pt_empty 3, Answer LCB_SUCCESS pt_empty 4]"
  have "Option.bind (pt_get JSON_USER_ACCOUNT_BALANCE demo_profile) lexical_cast_longlong = Some 5000"
    "Option.bind (pt_get JSON_WITHDRAW_FUNDS_REQUESTED_AMOUNT demo_paid) lexical_cast_longlong = Some 1000"
    using demo_payable by (simp_all add: payable_def demo_paid_def)
  from recovery_of_an_unlocked_profile_debits_again [of ?s demo_paid 1 demo_profile 2 pt_empty 3 pt_empty 4
      "[]" tree_json demo_paid demo_profile "''withdrawFundsRequest_bob_0''" "''bob''", OF _ _ _ _ _ _ _ _ _ _ this]
  show ?thesis by (auto simp: demo_paid_def list_at_def demo_profile_def demo_total)
qed

end
