(* ===== verification/WithdrawCalculate.thy ===== *)
theory WithdrawCalculate
  imports WithdrawFlows
begin

section \<open>The withdrawal processor: the calculation\<close>

text \<open>
  The first pass of the processor only adds up what the second will pay. This theory shows that it writes
  nothing (unless it meets a request that needs recovery) and that its result refines the tally of an
  abstract ledger: a balance per user, debited request by request as long as it suffices.
\<close>

text \<open>An assertion over whole runs of the iteration: kept by each request, it holds at the end.\<close>

lemma processNext_rule:
  assumes step: "\<And>key s. I s \<Longrightarrow> runs_to (processWithdrawalRequest J key)
      (\<lambda>n s'. case n of ProcessNext \<Rightarrow> I s' | StopHere \<Rightarrow> Q s') Q s"
    and position: "\<And>i s. I s \<Longrightarrow> I (s\<lparr>m_CurrentIndexIntoViewQueryResultsStringList := i\<rparr>)"
    and weaken: "\<And>s. I s \<Longrightarrow> Q s"
    and finished: "\<And>s. I s \<Longrightarrow> Q (final_state (emit (CalculationIterationComplete
        (satoshiIntToJsonString (m_RunningTotalOfAllWithdrawalRequestsInSatoshis s))) s))"
      "\<And>s. I s \<Longrightarrow> Q (final_state (andthen (emit O_message)
        (\<lambda>_. emit (WithdrawalRequestProcessingFinished True)) s))"
    and start: "I s"
  shows "Q (final_state (processNextWithdrawalRequestOrEmitFinishedIfNoMore J s))"
  using assms
proof (induction J s rule: processNextWithdrawalRequestOrEmitFinishedIfNoMore.induct)
  case (1 J s)
  define s1 where "s1 = s\<lparr>m_CurrentIndexIntoViewQueryResultsStringList :=
      m_CurrentIndexIntoViewQueryResultsStringList s + 1\<rparr>"
  note unfold = processNextWithdrawalRequestOrEmitFinishedIfNoMore.simps [of J s, unfolded Let_def s1_def [symmetric]]
  have I1: "I s1" unfolding s1_def by (rule 1(3)) (rule 1(7))
  show ?case
  proof (cases "m_CurrentIndexIntoViewQueryResultsStringList s1 < m_ViewQueryResultsStringListSize s1")
    case False
    then show ?thesis using 1(5,6) [OF I1] by (simp add: unfold)
  next
    case more: True
    show ?thesis
    proof (cases "list_at (m_ViewQueryResultsAsStringList s1) (m_CurrentIndexIntoViewQueryResultsStringList s1)")
      case None
      then show ?thesis using more 1(4) [OF I1] by (simp add: unfold)
    next
      case (Some key)
      note run = 1(2) [OF I1, of key]
      show ?thesis
      proof (cases "processWithdrawalRequest J key s1")
        case (Ret n s2)
        note ret = runs_to_Ret [OF run Ret]
        show ?thesis
        proof (cases n)
          case ProcessNext
          then have "I s2" using ret by simp
          from 1(1) [OF s1_def more Some Ret ProcessNext 1(2-6) this]
          show ?thesis using Ret ProcessNext more Some by (simp add: unfold)
        next
          case StopHere
          then show ?thesis using ret Ret more Some by (simp add: unfold)
        qed
      qed (use run more Some in \<open>simp_all add: unfold runs_to_def\<close>)
    qed
  qed
qed

subsection \<open>Calculating writes nothing\<close>

fun not_store :: "('j, withdraw_output) event \<Rightarrow> bool" where
  "not_store (DidStore k v st c r) = False"
| "not_store (Out (PostToBitcoind cmd)) = False"
| "not_store _ = True"

definition recovery_seen :: "'j json \<Rightarrow> ('j, withdraw_output) event list \<Rightarrow> bool" where
  "recovery_seen J es \<longleftrightarrow> (\<exists>key d c t. DidGet key (Answer LCB_SUCCESS d c) \<in> set es \<and> read_json J d = Some t
     \<and> pt_get JSON_WITHDRAW_FUNDS_REQUEST_STATE_KEY t = Some STATE_PROCESSEDBUTPROFILENEEDSDEDUCTINGANDUNLOCKING)"

lemma recovery_seen_append:
  "recovery_seen J es \<Longrightarrow> recovery_seen J (es @ fs)"
  "recovery_seen J fs \<Longrightarrow> recovery_seen J (es @ fs)"
  by (auto simp: recovery_seen_def)

definition read_only :: "'j json \<Rightarrow> ('j, withdraw_output) event list \<Rightarrow> 'j wp \<Rightarrow> bool" where
  "read_only J X s \<longleftrightarrow> (\<exists>es. effects s = X @ es \<and> (list_all not_store es \<or> recovery_seen J es))"

lemma calculate_or_pay_calculates:
  assumes "m_Mode s = CalculateMode" and "since X not_store s"
  shows "runs_to (calculate_or_pay J user c1 c2) (\<lambda>_. since X not_store) (since X not_store) s"
  using assms
  by (auto simp: calculate_or_pay_def debitCurrentWithdrawalRequestFromUsersCalculatedRollingBalance_def
      run_rules since_def Let_def)

lemma process_unprocessed_calculates:
  assumes "m_Mode s = CalculateMode" and "since X not_store s"
  shows "runs_to (process_unprocessed_request J user c1 c2) (\<lambda>_. since X not_store) (since X not_store) s"
  using assms
  by (auto simp: process_unprocessed_request_def run_rules since_def split: option.splits
      intro!: calculate_or_pay_calculates)


lemma extends_stages:
  "keeps (since X (\<lambda>_. True)) (recover_processed_but_not_debitted J c)"
  unfolding wp_stage_defs
  by (intro prog_rules keeps_since_requests; simp add: since_def effects_def)

lemma read_only_since: "since X not_store s \<Longrightarrow> read_only J X s"
  by (auto simp: since_def read_only_def)

lemma process_not_done_calculates:
  assumes "m_Mode s = CalculateMode" and "since X not_store s"
    and "state = STATE_PROCESSEDBUTPROFILENEEDSDEDUCTINGANDUNLOCKING \<Longrightarrow>
      \<exists>es. effects s = X @ es \<and> recovery_seen J es"
  shows "runs_to (process_not_done_request J user state c1 c2) (\<lambda>_. read_only J X) (read_only J X) s"
proof (cases "state = STATE_PROCESSEDBUTPROFILENEEDSDEDUCTINGANDUNLOCKING")
  case True
  then obtain es where es: "effects s = X @ es" "recovery_seen J es" using assms(3) by blast
  have "process_not_done_request J user state c1 c2 s = recover_processed_but_not_debitted J c1 s"
    using True by (simp add: process_not_done_request_def)
  then have eq: "runs_to (process_not_done_request J user state c1 c2) Q E s
      = runs_to (recover_processed_but_not_debitted J c1) Q E s" for Q E
    by (simp add: runs_to_def)
  have "read_only J X s'" if "since (effects s) (\<lambda>_. True) s'" for s'
    using that es by (auto simp: since_def read_only_def intro: recovery_seen_append)
  then show ?thesis unfolding eq
    by (intro runs_to_mono [OF runs_to_keeps [OF extends_stages [of "effects s"]]]) simp_all
next
  case False
  note rest = process_unprocessed_calculates [of _ X, THEN runs_to_mono, OF _ _ read_only_since read_only_since]
  show ?thesis
  proof (cases "state = STATE_PROCESSING")
    case True
    show ?thesis using assms(1,2) True
      by (auto simp: process_not_done_request_def finish_def run_rules since_def
          intro!: rest read_only_since)
  next
    case other: False
    show ?thesis using assms(1,2) False other
      by (auto simp: process_not_done_request_def run_rules intro!: rest)
  qed
qed

lemma processWithdrawalRequest_calculates:
  assumes "m_Mode s = CalculateMode" and "effects s = X"
  shows "runs_to (processWithdrawalRequest J key) (\<lambda>_. read_only J X) (read_only J X) s"
  unfolding processWithdrawalRequest_def finish_def
  apply (simp add: run_rules)
  apply (rule runs_to_get_strict)
    apply (auto simp: run_rules since_def assms dest!: wp_more_eq split: option.splits intro!: read_only_since)
  apply (rule runs_to_get_strict)
    apply (auto simp: run_rules since_def assms dest!: wp_more_eq split: option.splits intro!: read_only_since)
  apply (rule process_not_done_calculates)
    apply (auto simp: since_def recovery_seen_def results_def assms)
  done

lemma read_only_trans:
  assumes "read_only J X s" and "read_only J (effects s) s'"
  shows "read_only J X s'"
proof -
  obtain es es' where e: "effects s = X @ es" "effects s' = X @ es @ es'"
    and o: "list_all not_store es \<or> recovery_seen J es" "list_all not_store es' \<or> recovery_seen J es'"
    using assms by (auto simp: read_only_def)
  then have "list_all not_store (es @ es') \<or> recovery_seen J (es @ es')"
    by (auto intro: recovery_seen_append)
  then show ?thesis using e(2) unfolding read_only_def by blast
qed

text \<open>
  The calculation writes nothing to the database and pays nothing: in calculate mode the whole iteration
  only reads and reports, unless one of the requests it read is waiting for recovery (paid, not debited).
\<close>

theorem calculation_is_read_only:
  assumes "m_Mode s = CalculateMode"
  shows "read_only J (effects s) (final_state (processNextWithdrawalRequestOrEmitFinishedIfNoMore J s))"
proof (rule processNext_rule [where I = "\<lambda>t. m_Mode t = CalculateMode \<and> read_only J (effects s) t"])
  fix key t assume I: "m_Mode t = CalculateMode \<and> read_only J (effects s) t"
  have mode: "runs_to (processWithdrawalRequest J key) (\<lambda>_ t'. iteration t' = iteration t)
      (\<lambda>t'. iteration t' = iteration t) t"
    by (rule runs_to_keeps [OF processWithdrawalRequest_iteration]) simp
  have ro: "runs_to (processWithdrawalRequest J key) (\<lambda>_. read_only J (effects t)) (read_only J (effects t)) t"
    using I by (intro processWithdrawalRequest_calculates) simp_all
  show "runs_to (processWithdrawalRequest J key)
      (\<lambda>n t'. case n of ProcessNext \<Rightarrow> m_Mode t' = CalculateMode \<and> read_only J (effects s) t'
        | StopHere \<Rightarrow> read_only J (effects s) t') (read_only J (effects s)) t"
    using mode ro I unfolding runs_to_def
    by (auto simp: iteration_def split: outcome.splits next_step.splits intro: read_only_trans)
next
  show "m_Mode s = CalculateMode \<and> read_only J (effects s) s" using assms by (simp add: read_only_def)
qed (auto simp: read_only_def emit_def record_event_def intro: recovery_seen_append)

theorem calculation_is_read_only_witness:
  "read_only tree_json [] (final_state (processNextWithdrawalRequestOrEmitFinishedIfNoMore tree_json
     (demo_wp CalculateMode [''withdrawFundsRequest_bob_0''] [Answer LCB_SUCCESS demo_request 1,
        Answer LCB_SUCCESS demo_profile 2])))"
  using calculation_is_read_only [of "demo_wp CalculateMode [''withdrawFundsRequest_bob_0'']
      [Answer LCB_SUCCESS demo_request 1, Answer LCB_SUCCESS demo_profile 2]"] by simp

subsection \<open>The calculation refines a ledger\<close>

text \<open>The abstract ledger: user, balance in the profile and requested amount of each request, in order.\<close>

fun tally_step :: "string \<times> int \<times> int \<Rightarrow> (string \<rightharpoonup> int) \<times> int \<Rightarrow> (string \<rightharpoonup> int) \<times> int" where
  "tally_step (user, balance, desired) (ledger, running) =
    (let left = wrap64 ((case ledger user of None \<Rightarrow> balance | Some b \<Rightarrow> b) - total_of desired)
     in if left < 0 then (ledger, running) else (ledger(user \<mapsto> left), wrap64 (running + desired)))"

definition tally :: "(string \<times> int \<times> int) list \<Rightarrow> (string \<rightharpoonup> int) \<times> int" where
  "tally bills = fold tally_step bills (Map.empty, 0)"

definition overdrawn :: "(string \<rightharpoonup> int) \<times> int \<Rightarrow> bool" where
  "overdrawn x \<longleftrightarrow> (\<exists>user b. fst x user = Some b \<and> b < 0)"

lemma tally_step_not_overdrawn: "\<not> overdrawn x \<Longrightarrow> \<not> overdrawn (tally_step bill x)"
  by (cases bill; cases x) (auto simp: overdrawn_def Let_def split: if_splits)

lemma fold_tally_not_overdrawn: "\<not> overdrawn x \<Longrightarrow> \<not> overdrawn (fold tally_step bills x)"
  by (induction bills arbitrary: x) (simp_all del: split_paired_all tally_step.simps add: tally_step_not_overdrawn)

text \<open>The documents of a bill, and the answers of the database that deliver them.\<close>

type_synonym 'j entry = "string \<times> 'j \<times> cas \<times> 'j \<times> cas"

fun bill_of :: "'j json \<Rightarrow> 'j entry \<Rightarrow> string \<times> int \<times> int \<Rightarrow> bool" where
  "bill_of J (key, request_doc, c1, profile_doc, c2) (user, balance, desired) \<longleftrightarrow>
    (case (read_json J request_doc, read_json J profile_doc) of
       (Some request, Some profile) \<Rightarrow>
         (case pt_get JSON_WITHDRAW_FUNDS_BITCOIN_PAYOUT_KEY request of None \<Rightarrow> False
          | Some address \<Rightarrow> payable key user request profile balance desired address)
     | _ \<Rightarrow> False)"

fun answers_for :: "'j entry \<Rightarrow> 'j reply list" where
  "answers_for (key, request_doc, c1, profile_doc, c2) =
     [Answer LCB_SUCCESS request_doc c1, Answer LCB_SUCCESS profile_doc c2]"

lemma calculate_step:
  assumes "m_CouchbaseCreated s" and "m_Mode s = CalculateMode"
    and "cluster_replies s = answers_for entry @ rs" and "bill_of J entry bill"
    and "fst bill \<notin> m_UsersWithProfilesFoundLocked s"
  shows "\<exists>s'. processWithdrawalRequest J (fst entry) s = Ret ProcessNext s' \<and> m_CouchbaseCreated s'
    \<and> m_Mode s' = CalculateMode \<and> cluster_replies s' = rs
    \<and> (m_UserBalancesInSatoshisDuringCalculationMode s', m_RunningTotalOfAllWithdrawalRequestsInSatoshis s')
        = tally_step bill (m_UserBalancesInSatoshisDuringCalculationMode s, m_RunningTotalOfAllWithdrawalRequestsInSatoshis s)
    \<and> m_UsersWithProfilesFoundLocked s' = m_UsersWithProfilesFoundLocked s
    \<and> iteration s' = iteration s"
proof -
  obtain key rd c1 pd c2 where e: "entry = (key, rd, c1, pd, c2)" by (cases entry) auto
  obtain user balance desired where b: "bill = (user, balance, desired)" by (cases bill) auto
  obtain request profile address where d: "read_json J rd = Some request" "read_json J pd = Some profile"
    and p: "payable key user request profile balance desired address"
    using assms(4) e b by (auto split: option.splits)
  define l where "l = wrap64 ((case m_UserBalancesInSatoshisDuringCalculationMode s user of
      None \<Rightarrow> balance | Some b \<Rightarrow> b) - total_of desired)"
  show ?thesis
  proof (cases "l < 0")
    case True
    then show ?thesis using assms(1-3,5) e b d p l_def unfolding payable_def
      by (elim conjE bind_SomeE) (simp add: process_run prog_run iteration_def cong: option.case_cong)
  next
    case False
    then show ?thesis using assms(1-3,5) e b d p l_def unfolding payable_def
      by (elim conjE bind_SomeE) (simp add: process_run prog_run iteration_def cong: option.case_cong)
  qed
qed

lemma calculate_from:
  assumes "list_all2 (bill_of J) entries bills"
    and "m_CouchbaseCreated s" and "m_Mode s = CalculateMode"
    and "cluster_replies s = concat (map answers_for entries) @ rs"
    and "m_UsersWithProfilesFoundLocked s = {}"
    and "m_ViewQueryResultsAsStringList s = front @ map fst entries"
    and "m_CurrentIndexIntoViewQueryResultsStringList s = int (length front) - 1"
    and "m_ViewQueryResultsStringListSize s = int (length (front @ map fst entries))"
  shows "\<exists>s'. processNextWithdrawalRequestOrEmitFinishedIfNoMore J s = Ret () s' \<and>
    (\<exists>h. history s' = h @ [Out (CalculationIterationComplete
      (satoshiIntToJsonString (snd (fold tally_step bills
        (m_UserBalancesInSatoshisDuringCalculationMode s, m_RunningTotalOfAllWithdrawalRequestsInSatoshis s)))))])
    \<and> m_UserBalancesInSatoshisDuringCalculationMode s' = fst (fold tally_step bills
        (m_UserBalancesInSatoshisDuringCalculationMode s, m_RunningTotalOfAllWithdrawalRequestsInSatoshis s))
    \<and> cluster_replies s' = rs"
  using assms
proof (induction entries bills arbitrary: s front rule: list_all2_induct)
  case Nil
  then show ?case
    by (simp add: processNextWithdrawalRequestOrEmitFinishedIfNoMore.simps [of J s] emit_def record_event_def)
next
  case (Cons entry entries bill bills)
  let ?s = "s\<lparr>m_CurrentIndexIntoViewQueryResultsStringList := int (length front)\<rparr>"
  obtain s' where s': "processWithdrawalRequest J (fst entry) ?s = Ret ProcessNext s'" "m_CouchbaseCreated s'"
    "m_Mode s' = CalculateMode" "cluster_replies s' = concat (map answers_for entries) @ rs"
    and t: "(m_UserBalancesInSatoshisDuringCalculationMode s', m_RunningTotalOfAllWithdrawalRequestsInSatoshis s')
        = tally_step bill (m_UserBalancesInSatoshisDuringCalculationMode s, m_RunningTotalOfAllWithdrawalRequestsInSatoshis s)"
    and m: "m_UsersWithProfilesFoundLocked s' = {}" "iteration s' = iteration ?s"
    using calculate_step [of ?s entry "concat (map answers_for entries) @ rs" J bill] Cons.hyps Cons.prems
    by auto
  have run: "processNextWithdrawalRequestOrEmitFinishedIfNoMore J s
      = processNextWithdrawalRequestOrEmitFinishedIfNoMore J s'"
    using s'(1) Cons.prems
    by (subst processNextWithdrawalRequestOrEmitFinishedIfNoMore.simps) (simp add: Let_def nth_append list_at_def)
  have "\<exists>s''. processNextWithdrawalRequestOrEmitFinishedIfNoMore J s' = Ret () s'' \<and>
    (\<exists>h. history s'' = h @ [Out (CalculationIterationComplete
      (satoshiIntToJsonString (snd (fold tally_step bills
        (m_UserBalancesInSatoshisDuringCalculationMode s', m_RunningTotalOfAllWithdrawalRequestsInSatoshis s')))))])
    \<and> m_UserBalancesInSatoshisDuringCalculationMode s'' = fst (fold tally_step bills
        (m_UserBalancesInSatoshisDuringCalculationMode s', m_RunningTotalOfAllWithdrawalRequestsInSatoshis s'))
    \<and> cluster_replies s'' = rs"
    using s'(2-4) m Cons.prems by (intro Cons.IH [of s' "front @ [fst entry]"]) (auto simp: iteration_def)
  then show ?case unfolding run t by simp
qed

text \<open>
  C21. The calculation computes the ledger: over requests that are all payable, it reports exactly the total
  of the requested amounts that fit, each user's requests debited in order from the balance of the
  profile with the fee included, and no user's remaining balance is ever negative.
\<close>

theorem calculation_refines_ledger:
  assumes "list_all2 (bill_of J) entries bills"
    and "m_CouchbaseCreated s" and "m_Mode s = CalculateMode"
    and "cluster_replies s = concat (map answers_for entries)"
    and "m_UsersWithProfilesFoundLocked s = {}"
    and "m_ViewQueryResultsAsStringList s = map fst entries"
    and "m_CurrentIndexIntoViewQueryResultsStringList s = - 1"
    and "m_ViewQueryResultsStringListSize s = int (length entries)"
    and "m_UserBalancesInSatoshisDuringCalculationMode s = Map.empty"
    and "m_RunningTotalOfAllWithdrawalRequestsInSatoshis s = 0"
  shows "\<exists>s' h. processNextWithdrawalRequestOrEmitFinishedIfNoMore J s = Ret () s'
    \<and> history s' = h @ [Out (CalculationIterationComplete (satoshiIntToJsonString (snd (tally bills))))]
    \<and> m_UserBalancesInSatoshisDuringCalculationMode s' = fst (tally bills)
    \<and> \<not> overdrawn (tally bills)"
proof -
  have "\<not> overdrawn (tally bills)"
    unfolding tally_def by (rule fold_tally_not_overdrawn) (simp add: overdrawn_def)
  then show ?thesis
    using calculate_from [of J entries bills s "[]" "[]"] assms by (auto simp: tally_def)
qed

lemma demo_bill: "bill_of tree_json (''withdrawFundsRequest_bob_0'', demo_request, 1, demo_profile, 2) (''bob'', 5000, 1000)"
  using demo_payable by (simp add: demo_request_def)

theorem calculation_refines_ledger_witness:
  "\<exists>s' h. processNextWithdrawalRequestOrEmitFinishedIfNoMore tree_json
      (demo_wp CalculateMode [''withdrawFundsRequest_bob_0''] [Answer LCB_SUCCESS demo_request 1,
        Answer LCB_SUCCESS demo_profile 2]) = Ret () s'
    \<and> history s' = h @ [Out (CalculationIterationComplete (satoshiIntToJsonString 1000))]
    \<and> m_UserBalancesInSatoshisDuringCalculationMode s' ''bob'' = Some 3984"
proof -
  have t: "tally [(''bob'', 5000, 1000)] = ([''bob'' \<mapsto> 3984], 1000)"
    by (simp add: tally_def demo_total)
  show ?thesis
    using calculation_refines_ledger [of tree_json "[(''withdrawFundsRequest_bob_0'', demo_request, 1, demo_profile, 2)]"
      "[(''bob'', 5000, 1000)]" "demo_wp CalculateMode [''withdrawFundsRequest_bob_0''] [Answer LCB_SUCCESS demo_request 1,
        Answer LCB_SUCCESS demo_profile 2]"] demo_bill by (auto simp: t simp del: bill_of.simps)
qed

end
