(* ===== verification/Creditor.thy ===== *)
theory Creditor
  imports Couchbase SatoshiAmounts
begin

section \<open>The transaction creditor\<close>

text \<open>
  \<open>Solutions/Anonymous Bitcoin Computing 2/tools/Abc2TransactionCreditor\<close>: the tool that credits
  the sellers. For each transaction a view found uncreditted it locks the seller's profile towards the
  transaction, marks the transaction creditted, and stores the profile with the amount less the fee and
  without the lock. The members are the record \<open>tc\<close>; the local documents of
  \<open>creditTransactionIfStateReallyIsUncreditted...\<close> are values passed along.
\<close>

datatype credit_output =
    CO_message
  | CE_message
  | AmountCreditted string
  | AmountEarned string
  | TransactionCredittingFinished bool

record 'j tc = "('j, credit_output) lcb_user" +
  tc_ViewQueryHadError :: bool
  tc_ViewQueryPropertyTree :: ptree
  tc_UsersWithProfilesFoundLocked :: "string set"
  tc_Verbose :: bool
  tc_TotalAmountCreditted :: int
  tc_TotalAmountEarned :: int

definition tc_viewQueryCompleteCallback :: "'j json \<Rightarrow> lcb_error \<Rightarrow> 'j \<Rightarrow> ('j tc, unit) prog" where
  "tc_viewQueryCompleteCallback J error bytes =
    andthen (gets tc_Verbose) (\<lambda>verbose.
    andthen (if verbose then emit CO_message else return ()) (\<lambda>_.
    if error \<noteq> LCB_SUCCESS then
      andthen (emit CE_message) (\<lambda>_. emit (TransactionCredittingFinished False))
    else
    andthen (parse_json J bytes) (\<lambda>view.
    andthen (modify (\<lambda>s. s\<lparr>tc_ViewQueryPropertyTree := view\<rparr>)) (\<lambda>_.
    if pt_get ''error'' view \<noteq> None then
      andthen (emit CE_message) (\<lambda>_. emit (TransactionCredittingFinished False))
    else modify (\<lambda>s. s\<lparr>tc_ViewQueryHadError := False\<rparr>)))))"

text \<open>
  The last stage: the amounts, and the store that credits and unlocks. \<open>transactionDoc\<close> is the document as
  it was stored, already creditted.
\<close>

definition credit_and_unlock ::
  "'j json \<Rightarrow> ptree \<Rightarrow> string \<Rightarrow> ptree \<Rightarrow> cas \<Rightarrow> ('j tc, bool) prog" where
  "credit_and_unlock J transactionDoc transactionSeller sellerAccountDoc lockedCas =
    andthen (pt_need JSON_TRANSACTION_AMOUNT transactionDoc) (\<lambda>amountStr.
    andthen (require Bad_lexical_cast (lexical_cast_longlong amountStr)) (\<lambda>transactionAmountInSatoshis.
    let transactionAmountInJsonDouble = satoshiIntToJsonDouble transactionAmountInSatoshis;
        transactionFeeAmountInJsonDouble = transactionFeeForTransactionAmount transactionAmountInJsonDouble;
        transactionFeeInSatoshis = jsonDoubleToSatoshiIntIncludingRounding transactionFeeAmountInJsonDouble
    in
    andthen (modify (\<lambda>s. s\<lparr>tc_TotalAmountEarned := wrap64 (tc_TotalAmountEarned s
        + (if transactionSeller = ''d3fault'' then transactionAmountInSatoshis
           else transactionFeeInSatoshis))\<rparr>)) (\<lambda>_.
    andthen (pt_need JSON_USER_ACCOUNT_BALANCE sellerAccountDoc) (\<lambda>balanceStr.
    andthen (require Bad_lexical_cast (lexical_cast_longlong balanceStr)) (\<lambda>userBalanceInSatoshis.
    let transactionAmountAfterFeeInSatoshis = wrap64 (transactionAmountInSatoshis - transactionFeeInSatoshis);
        newBalance = wrap64 (userBalanceInSatoshis + transactionAmountAfterFeeInSatoshis)
    in
    andthen (modify (\<lambda>s. s\<lparr>tc_TotalAmountCreditted :=
        wrap64 (tc_TotalAmountCreditted s + transactionAmountAfterFeeInSatoshis)\<rparr>)) (\<lambda>_.
    andthen (couchbaseStoreRequestWithExponentialBackoff (userAccountKey transactionSeller)
        (write_json J (pt_erase JSON_USER_ACCOUNT_LOCKED_CREDITTING_TRANSACTION
          (pt_put JSON_USER_ACCOUNT_BALANCE (satoshiIntToSatoshiString newBalance) sellerAccountDoc)))
        LCB_SET lockedCas) (\<lambda>ok.
    if \<not> ok then return False
    else
    andthen (gets m_LastOpStatus) (\<lambda>status.
    if status \<noteq> LCB_SUCCESS then
      (if status = LCB_KEY_EEXISTS then return False
       else andthen errorOutput (\<lambda>_. return False))
    else return True))))))))"

definition mark_creditted ::
  "'j json \<Rightarrow> string \<Rightarrow> ptree \<Rightarrow> cas \<Rightarrow> string \<Rightarrow> ptree \<Rightarrow> cas \<Rightarrow> ('j tc, bool) prog" where
  "mark_creditted J key transactionDoc transactionDocCas transactionSeller sellerAccountDoc lockedCas =
    (let transactionDoc = pt_put JSON_TRANSACTION_STATE_KEY JSON_TRANSACTION_STATE_VALUE_CREDITTED transactionDoc
     in
    andthen (couchbaseStoreRequestWithExponentialBackoff key (write_json J transactionDoc)
        LCB_SET transactionDocCas) (\<lambda>ok.
    if \<not> ok then return False
    else
    andthen (gets m_LastOpStatus) (\<lambda>status.
    if status \<noteq> LCB_SUCCESS then
      (if status = LCB_KEY_EEXISTS then return False
       else andthen errorOutput (\<lambda>_. return False))
    else credit_and_unlock J transactionDoc transactionSeller sellerAccountDoc lockedCas)))"

text \<open>
  The check after the lock's CAS failed: the code reads the profile again but parses a stream that was
  never given its text. Parsing an empty stream is a parse error, so the rest is never reached.
\<close>

definition lock_cas_failed :: "'j json \<Rightarrow> string \<Rightarrow> ('j tc, bool) prog" where
  "lock_cas_failed J transactionSeller =
    andthen (couchbaseGetRequestWithExponentialBackoffRequiringSuccess (userAccountKey transactionSeller)) (\<lambda>ok.
    if \<not> ok then return False
    else
    andthen (throw Json_parser_error) (\<lambda>profileThatJustCasSwapFailed.
    if pt_get_default JSON_USER_ACCOUNT_LOCKED_CREDITTING_TRANSACTION ''n'' profileThatJustCasSwapFailed \<noteq> ''n''
    then return False
    else
    andthen (modify (\<lambda>s. s\<lparr>tc_UsersWithProfilesFoundLocked :=
        insert transactionSeller (tc_UsersWithProfilesFoundLocked s)\<rparr>)) (\<lambda>_. return True)))"

definition lock_seller ::
  "'j json \<Rightarrow> string \<Rightarrow> ptree \<Rightarrow> cas \<Rightarrow> string \<Rightarrow> ptree \<Rightarrow> cas \<Rightarrow> ('j tc, bool) prog" where
  "lock_seller J key transactionDoc transactionDocCas transactionSeller sellerAccountDoc sellerAccountDocCas =
    (if profileIsLocked sellerAccountDoc then
      andthen (modify (\<lambda>s. s\<lparr>tc_UsersWithProfilesFoundLocked :=
          insert transactionSeller (tc_UsersWithProfilesFoundLocked s)\<rparr>)) (\<lambda>_. return True)
     else
      let sellerAccountDoc = pt_put JSON_USER_ACCOUNT_LOCKED_CREDITTING_TRANSACTION key sellerAccountDoc
      in
      andthen (couchbaseStoreRequestWithExponentialBackoff (userAccountKey transactionSeller)
          (write_json J sellerAccountDoc) LCB_SET sellerAccountDocCas) (\<lambda>ok.
      if \<not> ok then return False
      else
      andthen (gets m_LastOpStatus) (\<lambda>status.
      if status \<noteq> LCB_SUCCESS then
        (if status = LCB_KEY_EEXISTS then lock_cas_failed J transactionSeller
         else andthen errorOutput (\<lambda>_. return False))
      else
      andthen (gets m_LastSetCas) (\<lambda>lockedCas.
      mark_creditted J key transactionDoc transactionDocCas transactionSeller sellerAccountDoc lockedCas))))"

definition creditTransaction :: "'j json \<Rightarrow> string \<Rightarrow> ('j tc, bool) prog" where
  "creditTransaction J keyToTransactionMaybeWithStateOfUncreditted =
    andthen (couchbaseGetRequestWithExponentialBackoffRequiringSuccess
        keyToTransactionMaybeWithStateOfUncreditted) (\<lambda>ok.
    if \<not> ok then return False
    else
    andthen (gets m_LastGetCas) (\<lambda>transactionDocCas.
    andthen (gets m_LastDocGetted) (\<lambda>doc.
    andthen (parse_json J doc) (\<lambda>transactionDoc.
    andthen (pt_need JSON_TRANSACTION_STATE_KEY transactionDoc) (\<lambda>transactionState.
    if transactionState \<noteq> JSON_TRANSACTION_STATE_VALUE_UNCREDITTED then return True
    else
    andthen (pt_need JSON_TRANSACTION_SELLER transactionDoc) (\<lambda>transactionSeller.
    andthen (gets tc_UsersWithProfilesFoundLocked) (\<lambda>locked.
    if transactionSeller \<in> locked then return True
    else
    andthen (couchbaseGetRequestWithExponentialBackoffRequiringSuccess
        (userAccountKey transactionSeller)) (\<lambda>ok.
    if \<not> ok then return False
    else
    andthen (gets m_LastGetCas) (\<lambda>sellerAccountDocCas.
    andthen (gets m_LastDocGetted) (\<lambda>doc.
    andthen (parse_json J doc) (\<lambda>sellerAccountDoc.
    lock_seller J keyToTransactionMaybeWithStateOfUncreditted transactionDoc transactionDocCas
      transactionSeller sellerAccountDoc sellerAccountDocCas)))))))))))"

text \<open>The loop over the rows of the view, which stops at the first transaction that says so.\<close>

fun creditRows :: "'j json \<Rightarrow> (string \<times> ptree) list \<Rightarrow> ('j tc, bool) prog" where
  "creditRows J [] = return True"
| "creditRows J ((name, row) # rows) =
    andthen (pt_need ''id'' row) (\<lambda>key.
    andthen (creditTransaction J key) (\<lambda>goOn.
    if \<not> goOn then
      andthen errorOutput (\<lambda>_. andthen (emit (TransactionCredittingFinished False)) (\<lambda>_. return False))
    else creditRows J rows))"

definition creditTransactions ::
  "'j json \<Rightarrow> connect_env \<Rightarrow> lcb_error \<Rightarrow> (lcb_error \<times> 'j) option \<Rightarrow> ('j tc, unit) prog" where
  "creditTransactions J env http_result http_answer =
    andthen (connectToCouchbase env) (\<lambda>connected.
    if \<not> connected then emit (TransactionCredittingFinished False)
    else
    andthen (gets tc_Verbose) (\<lambda>verbose.
    andthen (if verbose then emit CO_message else return ()) (\<lambda>_.
    andthen (modify (\<lambda>s. s\<lparr>tc_ViewQueryHadError := True\<rparr>)) (\<lambda>_.
    if http_result \<noteq> LCB_SUCCESS then
      andthen (emit CE_message) (\<lambda>_. emit (TransactionCredittingFinished False))
    else
    andthen (case http_answer of None \<Rightarrow> return ()
             | Some answer \<Rightarrow> tc_viewQueryCompleteCallback J (fst answer) (snd answer)) (\<lambda>_.
    andthen (gets tc_ViewQueryHadError) (\<lambda>hadError.
    if hadError then andthen (emit CE_message) (\<lambda>_. emit (TransactionCredittingFinished False))
    else
    andthen (gets tc_ViewQueryPropertyTree) (\<lambda>view.
    andthen (require (Ptree_bad_path ''rows'') (pt_get_child_optional ''rows'' view)) (\<lambda>rowsPt.
    andthen (modify (\<lambda>s. s\<lparr>tc_UsersWithProfilesFoundLocked := {}\<rparr>)) (\<lambda>_.
    andthen (creditRows J (pt_kids rowsPt)) (\<lambda>completed.
    if \<not> completed then return ()
    else
    reading (\<lambda>s.
    andthen (if tc_TotalAmountCreditted s > 0 then
        andthen (emit (AmountCreditted (satoshiIntToJsonString (tc_TotalAmountCreditted s)))) (\<lambda>_.
        emit (AmountEarned (satoshiIntToJsonString (tc_TotalAmountEarned s))))
      else return ()) (\<lambda>_.
    emit (TransactionCredittingFinished True)))))))))))))"

lemmas tc_defs = creditTransaction_def lock_seller_def lock_cas_failed_def mark_creditted_def
  credit_and_unlock_def

subsection \<open>The order of the stores\<close>

lemma tc_update_effects [simp]:
  "effects (tc_ViewQueryHadError_update g0 (s :: 'j tc)) = effects s"
  "effects (tc_ViewQueryPropertyTree_update g1 (s :: 'j tc)) = effects s"
  "effects (tc_UsersWithProfilesFoundLocked_update g2 (s :: 'j tc)) = effects s"
  "effects (tc_Verbose_update g3 (s :: 'j tc)) = effects s"
  "effects (tc_TotalAmountCreditted_update g4 (s :: 'j tc)) = effects s"
  "effects (tc_TotalAmountEarned_update g5 (s :: 'j tc)) = effects s"
  by (simp_all add: effects_def)

lemma tc_more_eq:
  assumes "lcb_user.more s' = lcb_user.more (s :: 'j tc)"
  shows "tc_UsersWithProfilesFoundLocked s' = tc_UsersWithProfilesFoundLocked s
    \<and> tc_TotalAmountCreditted s' = tc_TotalAmountCreditted s \<and> tc_TotalAmountEarned s' = tc_TotalAmountEarned s"
  using assms by (cases s; cases s'; simp)

definition fee_of_transaction :: "int \<Rightarrow> int" where
  "fee_of_transaction amount =
     jsonDoubleToSatoshiIntIncludingRounding (transactionFeeForTransactionAmount (satoshiIntToJsonDouble amount))"

definition creditted_profile :: "int \<Rightarrow> int \<Rightarrow> ptree \<Rightarrow> ptree" where
  "creditted_profile balance amount sellerAccountDoc =
     pt_erase JSON_USER_ACCOUNT_LOCKED_CREDITTING_TRANSACTION
       (pt_put JSON_USER_ACCOUNT_BALANCE
         (show_int (wrap64 (balance + wrap64 (amount - fee_of_transaction amount)))) sellerAccountDoc)"

text \<open>The three stores of a credit, and which of them a run may have done.\<close>

definition credit_store ::
  "'j json \<Rightarrow> string \<Rightarrow> ptree \<Rightarrow> ptree \<Rightarrow> cas \<Rightarrow> ('j, credit_output) event list \<Rightarrow> bool" where
  "credit_store J seller tx profile lockedCas sts \<longleftrightarrow> sts = [] \<or> (\<exists>r balance amount.
     sts = [DidStore (userAccountKey seller) (write_json J (creditted_profile balance amount profile))
              LCB_SET lockedCas r]
     \<and> Option.bind (pt_get JSON_USER_ACCOUNT_BALANCE profile) lexical_cast_longlong = Some balance
     \<and> Option.bind (pt_get JSON_TRANSACTION_AMOUNT tx) lexical_cast_longlong = Some amount)"

definition mark_and_credit ::
  "'j json \<Rightarrow> string \<Rightarrow> ptree \<Rightarrow> cas \<Rightarrow> string \<Rightarrow> ptree \<Rightarrow> cas \<Rightarrow> ('j, credit_output) event list \<Rightarrow> bool" where
  "mark_and_credit J key tx c1 seller profile lockedCas sts \<longleftrightarrow> sts = [] \<or> (\<exists>r rest.
     sts = DidStore key (write_json J (pt_put JSON_TRANSACTION_STATE_KEY JSON_TRANSACTION_STATE_VALUE_CREDITTED tx))
        LCB_SET c1 r # rest
     \<and> credit_store J seller tx profile lockedCas rest \<and> (rest \<noteq> [] \<longrightarrow> succeeded r))"

definition lock_mark_and_credit ::
  "'j json \<Rightarrow> string \<Rightarrow> ptree \<Rightarrow> cas \<Rightarrow> string \<Rightarrow> ptree \<Rightarrow> cas \<Rightarrow> ('j, credit_output) event list \<Rightarrow> bool" where
  "lock_mark_and_credit J key tx c1 seller profile c2 sts \<longleftrightarrow> sts = [] \<or> \<not> profileIsLocked profile \<and> (\<exists>r rest.
     sts = DidStore (userAccountKey seller)
        (write_json J (pt_put JSON_USER_ACCOUNT_LOCKED_CREDITTING_TRANSACTION key profile)) LCB_SET c2 r # rest
     \<and> (rest \<noteq> [] \<longrightarrow> (\<exists>d lockedCas. r = Answer LCB_SUCCESS d lockedCas
          \<and> mark_and_credit J key tx c1 seller
              (pt_put JSON_USER_ACCOUNT_LOCKED_CREDITTING_TRANSACTION key profile) lockedCas rest)))"

lemma credit_nil [simp]: "credit_store J seller tx profile c []"
    "mark_and_credit J key tx c1 seller profile c []" "lock_mark_and_credit J key tx c1 seller profile c2 []"
  by (simp_all add: credit_store_def mark_and_credit_def lock_mark_and_credit_def)

lemma credit_store_put [simp]:
  "credit_store J seller (pt_put JSON_TRANSACTION_STATE_KEY v tx) = credit_store J seller tx"
  by (rule ext)+ (simp add: credit_store_def)

abbreviation stores_only :: "(('j, 'o) event list \<Rightarrow> bool) \<Rightarrow> ('j, 'o) event list \<Rightarrow> bool" where
  "stores_only P es \<equiv> P (filter is_store es)"

lemma credit_and_unlock_stores:
  "runs_to (credit_and_unlock J tx seller profile c)
    (\<lambda>_. does s (stores_only (credit_store J seller tx profile c)))
    (does s (stores_only (credit_store J seller tx profile c))) s"
proof (cases "\<exists>a b. Option.bind (pt_get JSON_USER_ACCOUNT_BALANCE profile) lexical_cast_longlong = Some b
      \<and> Option.bind (pt_get JSON_TRANSACTION_AMOUNT tx) lexical_cast_longlong = Some a")
  case False
  then show ?thesis
    by (auto simp: credit_and_unlock_def Let_def run_rules does_idle split: option.splits)
next
  case True
  then obtain a b xt bt where ab: "pt_get JSON_USER_ACCOUNT_BALANCE profile = Some bt"
    "lexical_cast_longlong bt = Some b" "pt_get JSON_TRANSACTION_AMOUNT tx = Some xt"
    "lexical_cast_longlong xt = Some a" by (auto simp: bind_eq_Some_conv)
  show ?thesis unfolding credit_and_unlock_def Let_def
    by (simp only: run_rules ab option.simps, rule runs_to_store)
      (auto simp: run_rules ab does_def credit_store_def creditted_profile_def
        fee_of_transaction_def satoshiIntToSatoshiString_def)
qed

lemma mark_creditted_stores:
  "runs_to (mark_creditted J key tx c1 seller profile c)
    (\<lambda>_. does s (stores_only (mark_and_credit J key tx c1 seller profile c)))
    (does s (stores_only (mark_and_credit J key tx c1 seller profile c))) s"
  unfolding mark_creditted_def Let_def
  apply (simp add: run_rules)
  apply (rule runs_to_store)
    apply (auto simp: run_rules does_known does_idle mark_and_credit_def)
  apply (rule runs_to_mono [OF credit_and_unlock_stores])
   apply (erule does_after, assumption, simp add: mark_and_credit_def)+
  done

lemma lock_seller_stores:
  "runs_to (lock_seller J key tx c1 seller profile c2)
    (\<lambda>_. does s (stores_only (lock_mark_and_credit J key tx c1 seller profile c2)))
    (does s (stores_only (lock_mark_and_credit J key tx c1 seller profile c2))) s"
proof (cases "profileIsLocked profile")
  case True
  then show ?thesis by (simp add: lock_seller_def run_rules does_idle)
next
  case False
  then show ?thesis unfolding lock_seller_def lock_cas_failed_def Let_def
    apply (simp add: run_rules)
    apply (rule runs_to_store)
      apply (auto simp: run_rules does_known does_idle lock_mark_and_credit_def)
    subgoal by (rule runs_to_get_strict)
        (auto simp: run_rules does_known lock_mark_and_credit_def)
    subgoal
      apply (rule runs_to_mono [OF mark_creditted_stores])
       apply (erule does_after, assumption, simp add: lock_mark_and_credit_def results_def)+
      done
    done
qed

definition credit_protocol :: "'j json \<Rightarrow> string \<Rightarrow> ('j, credit_output) event list \<Rightarrow> bool" where
  "credit_protocol J key es \<longleftrightarrow> filter is_store es = [] \<or>
    (\<exists>tx_doc c1 seller profile_doc c2 rest tx profile.
       es = DidGet key (Answer LCB_SUCCESS tx_doc c1)
          # DidGet (userAccountKey seller) (Answer LCB_SUCCESS profile_doc c2) # rest
     \<and> read_json J tx_doc = Some tx \<and> read_json J profile_doc = Some profile
     \<and> pt_get JSON_TRANSACTION_STATE_KEY tx = Some JSON_TRANSACTION_STATE_VALUE_UNCREDITTED
     \<and> pt_get JSON_TRANSACTION_SELLER tx = Some seller
     \<and> lock_mark_and_credit J key tx c1 seller profile c2 (filter is_store rest))"

lemma creditTransaction_stores:
  "runs_to (creditTransaction J key) (\<lambda>_. does s (credit_protocol J key)) (does s (credit_protocol J key)) s"
  unfolding creditTransaction_def
  apply (simp add: run_rules)
  apply (rule runs_to_get_strict)
    apply (auto simp: run_rules does_known does_idle credit_protocol_def dest!: tc_more_eq split: option.splits)
  apply (rule runs_to_get_strict)
    apply (auto simp: run_rules does_known does_idle credit_protocol_def dest!: tc_more_eq split: option.splits)
  apply (rule runs_to_mono [OF lock_seller_stores])
   apply (erule does_after, assumption, simp add: credit_protocol_def results_def)+
  done

text \<open>
  C17. Whatever the database answers, one run over a transaction writes in this order and stops at the first
  store that fails: it locks an unlocked seller's profile towards a transaction it read as uncreditted (with
  the CAS of that read), then marks the transaction creditted (with the CAS of that read), and only then
  stores the profile, unlocked and with the amount less the fee added (with the CAS of the lock).
\<close>

theorem credit_follows_protocol:
  "does s (credit_protocol J key) (final_state (creditTransaction J key s))"
  using creditTransaction_stores [of J key s] by (simp add: runs_to_final)

lemma fee_of_transaction_eq: "fee_of_transaction amount = fee_in_satoshis amount"
  by (simp add: fee_of_transaction_def fee_in_satoshis_def transaction_fee_same)

lemmas credit_run = creditTransaction_def lock_seller_def mark_creditted_def credit_and_unlock_def
  andthen_def Let_def

text \<open>
  C23. When every store succeeds the seller receives exactly the amount less the fee: the profile last stored
  differs from the one read only in the balance, it carries no lock, the transaction is creditted, and the two
  totals of the run grow by the amount creditted and by the fee (the whole amount, when the seller is the
  operator), so that with the fee the books balance.
\<close>

theorem credit_is_exact:
  assumes "m_CouchbaseCreated s"
    and "cluster_replies s = [Answer LCB_SUCCESS tx_doc c1, Answer LCB_SUCCESS profile_doc c2,
        Answer LCB_SUCCESS d3 c3, Answer LCB_SUCCESS d4 c4, Answer LCB_SUCCESS d5 c5] @ rs"
    and "read_json J tx_doc = Some tx" and "read_json J profile_doc = Some profile"
    and "pt_get JSON_TRANSACTION_STATE_KEY tx = Some JSON_TRANSACTION_STATE_VALUE_UNCREDITTED"
    and "pt_get JSON_TRANSACTION_SELLER tx = Some seller" and "seller \<notin> tc_UsersWithProfilesFoundLocked s"
    and "\<not> profileIsLocked profile"
    and "Option.bind (pt_get JSON_TRANSACTION_AMOUNT tx) lexical_cast_longlong = Some amount"
    and "Option.bind (pt_get JSON_USER_ACCOUNT_BALANCE profile) lexical_cast_longlong = Some balance"
    and "0 \<le> amount" and "amount \<le> 2 ^ 49" and "0 \<le> balance" and "balance \<le> 2 ^ 62"
    and "0 \<le> tc_TotalAmountCreditted s" and "tc_TotalAmountCreditted s \<le> 2 ^ 62"
    and "0 \<le> tc_TotalAmountEarned s" and "tc_TotalAmountEarned s \<le> 2 ^ 62"
  shows "\<exists>s' profile'. creditTransaction J key s = Ret True s'
    \<and> effects s' = effects s @ [DidGet key (Answer LCB_SUCCESS tx_doc c1),
        DidGet (userAccountKey seller) (Answer LCB_SUCCESS profile_doc c2),
        DidStore (userAccountKey seller) (write_json J
          (pt_put JSON_USER_ACCOUNT_LOCKED_CREDITTING_TRANSACTION key profile)) LCB_SET c2 (Answer LCB_SUCCESS d3 c3),
        DidStore key (write_json J (pt_put JSON_TRANSACTION_STATE_KEY JSON_TRANSACTION_STATE_VALUE_CREDITTED tx))
          LCB_SET c1 (Answer LCB_SUCCESS d4 c4),
        DidStore (userAccountKey seller) (write_json J profile') LCB_SET c3 (Answer LCB_SUCCESS d5 c5)]
    \<and> (\<forall>k. pt_get k profile' =
         (if k = JSON_USER_ACCOUNT_LOCKED_CREDITTING_TRANSACTION then None
          else if k = JSON_USER_ACCOUNT_BALANCE then Some (show_int (balance + (amount - fee_of_transaction amount)))
          else pt_get k profile))
    \<and> tc_TotalAmountCreditted s' = tc_TotalAmountCreditted s + (amount - fee_of_transaction amount)
    \<and> tc_TotalAmountEarned s' = tc_TotalAmountEarned s
         + (if seller = ''d3fault'' then amount else fee_of_transaction amount)"
  (is "\<exists>s' profile'. ?P s' profile'")
proof -
  define fee where "fee = fee_of_transaction amount"
  have fee: "jsonDoubleToSatoshiIntIncludingRounding
      (transactionFeeForTransactionAmount (satoshiIntToJsonDouble amount)) = fee"
    by (simp add: fee_def fee_of_transaction_def)
  have b: "0 \<le> fee" "200 * fee \<le> 3 * amount + 200"
    using fee_in_satoshis_bounds [OF assms(11,12)] assms(11) by (simp_all add: fee_def fee_of_transaction_eq)
  have w: "wrap64 (amount - fee) = amount - fee" "wrap64 (balance + (amount - fee)) = balance + (amount - fee)"
    "wrap64 (tc_TotalAmountCreditted s + (amount - fee)) = tc_TotalAmountCreditted s + (amount - fee)"
    "wrap64 (tc_TotalAmountEarned s + amount) = tc_TotalAmountEarned s + amount"
    "wrap64 (tc_TotalAmountEarned s + fee) = tc_TotalAmountEarned s + fee"
    using b assms(11-18) by (intro wrap64_id; simp)+
  let ?p = "pt_erase JSON_USER_ACCOUNT_LOCKED_CREDITTING_TRANSACTION
      (pt_put JSON_USER_ACCOUNT_BALANCE (show_int (balance + (amount - fee)))
        (pt_put JSON_USER_ACCOUNT_LOCKED_CREDITTING_TRANSACTION key profile))"
  have "\<exists>s'. ?P s' ?p" unfolding fee_def [symmetric] using assms(1-10)
    by (elim bind_SomeE)
      (simp add: credit_run prog_run effects_def fee w satoshiIntToSatoshiString_def)
  then show ?thesis by blast
qed

definition demo_tx :: ptree where
  "demo_tx = createTransactionDoc pt_empty ''alice'' ''bob'' ''1000''"

definition demo_tc :: "ptree reply list \<Rightarrow> ptree tc" where
  "demo_tc rs = lcb_user.extend (connected_client pt_empty rs) (tc.fields False pt_empty {} False 0 0)"

lemma demo_tc_sel [simp]:
  "m_CouchbaseCreated (demo_tc rs)" "cluster_replies (demo_tc rs) = rs" "effects (demo_tc rs) = []"
  "tc_UsersWithProfilesFoundLocked (demo_tc rs) = {}" "tc_TotalAmountCreditted (demo_tc rs) = 0"
  "tc_TotalAmountEarned (demo_tc rs) = 0"
  by (simp_all add: demo_tc_def lcb_user.extend_def tc.fields_def connected_client_def effects_def)

definition demo_seller :: ptree where
  "demo_seller = plain_doc [(JSON_USER_ACCOUNT_BALANCE, ''5000'')]"

lemma demo_amounts:
  "Option.bind (pt_get JSON_TRANSACTION_AMOUNT demo_tx) lexical_cast_longlong = Some 1000"
  "Option.bind (pt_get JSON_USER_ACCOUNT_BALANCE demo_seller) lexical_cast_longlong = Some 5000"
  by (simp_all add: demo_tx_def demo_seller_def lexical_cast_longlong_def read_range_def read_nat_def
      digit_value_def is_digit_def)

lemma demo_fee: "fee_of_transaction 1000 = 16"
  by code_simp

theorem credit_is_exact_witness:
  "\<exists>s'. creditTransaction tree_json ''tx_alice_0_0'' (demo_tc [Answer LCB_SUCCESS demo_tx 1,
      Answer LCB_SUCCESS demo_seller 2, Answer LCB_SUCCESS pt_empty 3, Answer LCB_SUCCESS pt_empty 4,
      Answer LCB_SUCCESS pt_empty 5]) = Ret True s'
    \<and> tc_TotalAmountCreditted s' = 984 \<and> tc_TotalAmountEarned s' = 16"
proof -
  let ?s = "demo_tc [Answer LCB_SUCCESS demo_tx 1, Answer LCB_SUCCESS demo_seller 2,
      Answer LCB_SUCCESS pt_empty 3, Answer LCB_SUCCESS pt_empty 4, Answer LCB_SUCCESS pt_empty 5]"
  have p: "\<not> profileIsLocked demo_seller" "pt_get JSON_TRANSACTION_SELLER demo_tx = Some ''alice''"
    "pt_get JSON_TRANSACTION_STATE_KEY demo_tx = Some JSON_TRANSACTION_STATE_VALUE_UNCREDITTED"
    by (simp_all add: demo_seller_def demo_tx_def profileIsLocked_def pt_get_default_def)
  from credit_is_exact [of ?s demo_tx 1 demo_seller 2 pt_empty 3 pt_empty 4 pt_empty 5 "[]" tree_json
      demo_tx demo_seller "''alice''", OF _ _ _ _ p(3,2) _ p(1) demo_amounts, of "''tx_alice_0_0''"]
  show ?thesis by (auto simp: demo_fee)
qed

text \<open>
  When the lock's CAS fails (the profile changed in between) and the profile is read again, the code
  parses an empty stream, so a parse error escapes from the run: the remaining transactions are never
  visited and no result is reported.
\<close>

lemma lock_conflict_throws:
  assumes "m_CouchbaseCreated s"
    and "cluster_replies s = Answer LCB_SUCCESS tx_doc c1 # Answer LCB_SUCCESS profile_doc c2
        # Answer LCB_KEY_EEXISTS d3 c3 # Answer LCB_SUCCESS d4 c4 # rs"
    and "read_json J tx_doc = Some tx" and "read_json J profile_doc = Some profile"
    and "pt_get JSON_TRANSACTION_STATE_KEY tx = Some JSON_TRANSACTION_STATE_VALUE_UNCREDITTED"
    and "pt_get JSON_TRANSACTION_SELLER tx = Some seller" and "seller \<notin> tc_UsersWithProfilesFoundLocked s"
    and "\<not> profileIsLocked profile" and "pt_get ''id'' row = Some key"
  shows "\<exists>s'. creditRows J ((name, row) # rows) s = Throws Json_parser_error s' \<and> cluster_replies s' = rs"
  using assms by (simp add: credit_run lock_cas_failed_def prog_run)

lemma lock_conflict_throws_witness:
  "\<exists>s'. creditRows tree_json [([], plain_doc [(''id'', ''tx_alice_0_0'')])] (demo_tc [Answer LCB_SUCCESS demo_tx 1,
      Answer LCB_SUCCESS demo_seller 2, Answer LCB_KEY_EEXISTS pt_empty 0, Answer LCB_SUCCESS demo_seller 7])
    = Throws Json_parser_error s'"
proof -
  let ?s = "demo_tc [Answer LCB_SUCCESS demo_tx 1, Answer LCB_SUCCESS demo_seller 2,
      Answer LCB_KEY_EEXISTS pt_empty 0, Answer LCB_SUCCESS demo_seller 7]"
  from lock_conflict_throws [of ?s demo_tx 1 demo_seller 2 pt_empty 0 demo_seller 7 "[]" tree_json demo_tx demo_seller
      "''alice''" "plain_doc [(''id'', ''tx_alice_0_0'')]" "''tx_alice_0_0''" "[]" "[]"]
  show ?thesis by (auto simp: demo_seller_def demo_tx_def profileIsLocked_def pt_get_default_def)
qed

end
