(* ===== verification/Monitor.thy ===== *)
theory Monitor
  imports Couchbase SatoshiAmounts
begin

section \<open>The pessimistic state monitor and recoverer\<close>

text \<open>
  \<open>Solutions/Abc2PessimisticStateMonitorAndRecoverer\<close>: a daemon that looks, about once in ten
  seconds, for an ad slot that was bought while the tasks after the purchase were not finished: the transaction
  document, the debit and unlock of the buyer, the update of the campaign document. It redoes them in
  this order, each as an add or a CAS swap that may fail because somebody else did it.

  The class has no members of its own. The random number and the stop file of each turn of the endless loop are
  inputs (one \<open>round_env\<close> per turn; no more turns means the process is still running). The two
  macros of the source are the operations written in continuation style, since they may leave the turn by
  \<open>return\<close> or \<open>continue\<close>. \<open>lcb_destroy\<close>, which the code calls directly, is an output of its own.
\<close>

datatype monitor_output = Cerr | Cout | LcbDestroy

datatype round_result = Continue | ReturnCode int

type_synonym 'j monitor = "('j, monitor_output) lcb_user"

record round_env =
  stop_file_exists :: bool
  random_number :: nat

abbreviation "JSON_AD_SPACE_CAMPAIGN_LAST_SLOT_FILLED_PURCHASE_TIMESTAMP \<equiv> ''purchaseTimestamp''"
abbreviation "JSON_AD_SPACE_CAMPAIGN_LAST_SLOT_FILLED_START_TIMESTAMP \<equiv> ''startTimestamp''"
abbreviation "JSON_AD_SPACE_CAMPAIGN_LAST_SLOT_FILLED_PURCHASE_PRICE \<equiv> ''purchasePrice''"

definition monitor_fatal :: "('j monitor, round_result) prog" where
  "monitor_fatal = andthen (emit Cerr) (\<lambda>_. andthen (emit LcbDestroy) (\<lambda>_. return (ReturnCode 1)))"

text \<open>A store whose failure by an existing key (or a changed CAS) is accepted by leaving the turn.\<close>

definition store_accepting_fail ::
  "string \<Rightarrow> 'j \<Rightarrow> lcb_storage \<Rightarrow> cas \<Rightarrow> ('j monitor, round_result) prog \<Rightarrow> ('j monitor, round_result) prog" where
  "store_accepting_fail key v st c continuation =
    andthen (couchbaseStoreRequestWithExponentialBackoff key v st c) (\<lambda>ok.
    if \<not> ok then return (ReturnCode 1)
    else
    andthen (gets m_LastOpStatus) (\<lambda>status.
    if status \<noteq> LCB_SUCCESS then
      (if status \<noteq> LCB_KEY_EEXISTS then monitor_fatal else return Continue)
    else continuation))"

definition DO_COUCHBASE_CAS_SWAP_ACCEPTING_FAIL_OF_USER_ACCOUNT_DEBIT_AND_UNLOCK ::
  "'j json \<Rightarrow> string \<Rightarrow> ptree \<Rightarrow> cas \<Rightarrow> string \<Rightarrow> ('j monitor, round_result) prog \<Rightarrow> ('j monitor, round_result) prog" where
  "DO_COUCHBASE_CAS_SWAP_ACCEPTING_FAIL_OF_USER_ACCOUNT_DEBIT_AND_UNLOCK
      J userAccountKeyString pt6 userAccountCas purchasePriceString continuation =
    andthen (pt_need JSON_USER_ACCOUNT_BALANCE pt6) (\<lambda>balanceStr.
    andthen (require Bad_lexical_cast (satoshiStringToSatoshiInt balanceStr)) (\<lambda>buyerBalance.
    andthen (require Bad_lexical_cast (satoshiStringToSatoshiInt purchasePriceString)) (\<lambda>purchasePrice.
    store_accepting_fail userAccountKeyString
      (write_json J (pt_put JSON_USER_ACCOUNT_BALANCE
          (satoshiIntToSatoshiString (wrap64 (buyerBalance - purchasePrice)))
        (pt_erase JSON_USER_ACCOUNT_SLOT_TO_ATTEMPT_TO_FILL_IT_WITH
          (pt_erase JSON_USER_ACCOUNT_SLOT_ATTEMPTING_TO_FILL pt6))))
      LCB_SET userAccountCas continuation)))"

definition DO_COUCHBASE_CAS_SWAP_ACCEPTING_FAIL_OF_CAMPAIGN_DOC_UPDATE ::
  "'j json \<Rightarrow> string \<Rightarrow> ptree \<Rightarrow> ptree \<Rightarrow> cas \<Rightarrow> ('j monitor, round_result) prog \<Rightarrow> ('j monitor, round_result) prog" where
  "DO_COUCHBASE_CAS_SWAP_ACCEPTING_FAIL_OF_CAMPAIGN_DOC_UPDATE
      J slotIndexString pt4 pt2 campaignDocToUpdateCAS continuation =
    andthen (pt_need JSON_AD_SPACE_CAMPAIGN_LAST_SLOT_FILLED_PURCHASE_TIMESTAMP pt4) (\<lambda>purchaseTimestamp.
    andthen (pt_need JSON_AD_SPACE_CAMPAIGN_LAST_SLOT_FILLED_START_TIMESTAMP pt4) (\<lambda>startTimestamp.
    andthen (pt_need JSON_AD_SPACE_CAMPAIGN_LAST_SLOT_FILLED_PURCHASE_PRICE pt4) (\<lambda>purchasePrice.
    let pt8 = pt_put JSON_AD_SPACE_CAMPAIGN_LAST_SLOT_FILLED_PURCHASE_PRICE purchasePrice
          (pt_put JSON_AD_SPACE_CAMPAIGN_LAST_SLOT_FILLED_START_TIMESTAMP startTimestamp
            (pt_put JSON_AD_SPACE_CAMPAIGN_LAST_SLOT_FILLED_PURCHASE_TIMESTAMP purchaseTimestamp
              (pt_put JSON_AD_SPACE_CAMPAIGN_LAST_SLOT_FILLED_INDEX slotIndexString pt_empty)))
    in store_accepting_fail (adSpaceCampaignKey ''d3fault'' ''0'')
      (write_json J (pt_put_child JSON_AD_SPACE_CAMPAIGN_LAST_SLOT_FILLED pt8 pt2))
      LCB_SET campaignDocToUpdateCAS continuation)))"

text \<open>Step 12: depending on whether the transaction exists and on the buyer's lock.\<close>

definition recover_buyer ::
  "'j json \<Rightarrow> string \<Rightarrow> string \<Rightarrow> string \<Rightarrow> string \<Rightarrow> ptree \<Rightarrow> ptree \<Rightarrow> cas \<Rightarrow> bool \<Rightarrow> string
    \<Rightarrow> ptree \<Rightarrow> cas \<Rightarrow> ('j monitor, round_result) prog" where
  "recover_buyer J slotKey transactionDocKey slotIndexString usernameOfBuyer pt4 pt2 campaignDocToUpdateCAS
      transactionDocExists userAccountKeyString pt6 userAccountCas =
    (let userAccountIsLockedPointingAtSlotJustFilled =
        (pt_get_default JSON_USER_ACCOUNT_SLOT_ATTEMPTING_TO_FILL ''n'' pt6 = slotKey)
     in
    andthen (pt_need JSON_SLOT_PURCHASE_PRICE pt4) (\<lambda>purchasePriceString.
    if \<not> transactionDocExists then
      (if \<not> userAccountIsLockedPointingAtSlotJustFilled then
        (if profileIsLocked pt6 then return Continue
         else
         andthen (couchbaseGetRequestWithExponentialBackoff transactionDocKey) (\<lambda>ok.
         if \<not> ok then return (ReturnCode 1)
         else
         andthen (gets m_LastOpStatus) (\<lambda>status.
         if status \<noteq> LCB_SUCCESS then monitor_fatal else return Continue)))
       else
        store_accepting_fail transactionDocKey
          (write_json J (createTransactionDoc pt_empty ''d3fault'' usernameOfBuyer purchasePriceString))
          LCB_ADD 0
        (DO_COUCHBASE_CAS_SWAP_ACCEPTING_FAIL_OF_USER_ACCOUNT_DEBIT_AND_UNLOCK J userAccountKeyString pt6
            userAccountCas purchasePriceString
        (DO_COUCHBASE_CAS_SWAP_ACCEPTING_FAIL_OF_CAMPAIGN_DOC_UPDATE J slotIndexString pt4 pt2
            campaignDocToUpdateCAS (return Continue))))
    else if userAccountIsLockedPointingAtSlotJustFilled then
      DO_COUCHBASE_CAS_SWAP_ACCEPTING_FAIL_OF_USER_ACCOUNT_DEBIT_AND_UNLOCK J userAccountKeyString pt6
          userAccountCas purchasePriceString
      (DO_COUCHBASE_CAS_SWAP_ACCEPTING_FAIL_OF_CAMPAIGN_DOC_UPDATE J slotIndexString pt4 pt2
          campaignDocToUpdateCAS (return Continue))
    else if profileIsLocked pt6 then return Continue
    else DO_COUCHBASE_CAS_SWAP_ACCEPTING_FAIL_OF_CAMPAIGN_DOC_UPDATE J slotIndexString pt4 pt2
      campaignDocToUpdateCAS (return Continue)))"

text \<open>Step 11b: read the buyer's account.\<close>

definition recover_account ::
  "'j json \<Rightarrow> string \<Rightarrow> string \<Rightarrow> string \<Rightarrow> string \<Rightarrow> ptree \<Rightarrow> ptree \<Rightarrow> cas \<Rightarrow> bool
    \<Rightarrow> ('j monitor, round_result) prog" where
  "recover_account J slotKey transactionDocKey slotIndexString usernameOfBuyer pt4 pt2 campaignDocToUpdateCAS
      transactionDocExists =
    (let userAccountKeyString = userAccountKey usernameOfBuyer in
    andthen (couchbaseGetRequestWithExponentialBackoffRequiringSuccess userAccountKeyString) (\<lambda>ok.
    if \<not> ok then return (ReturnCode 1)
    else
    andthen (gets m_LastGetCas) (\<lambda>userAccountCas.
    andthen (gets m_LastDocGetted) (\<lambda>doc.
    andthen (parse_json J doc) (\<lambda>pt6.
    recover_buyer J slotKey transactionDocKey slotIndexString usernameOfBuyer pt4 pt2
      campaignDocToUpdateCAS transactionDocExists userAccountKeyString pt6 userAccountCas)))))"

text \<open>Step 11a: the buyer's name, from the transaction or from the slot filler.\<close>

definition find_buyer :: "'j json \<Rightarrow> ptree \<Rightarrow> bool \<Rightarrow> ('j monitor, string option) prog" where
  "find_buyer J pt4 transactionDocExists =
    (if transactionDocExists then
      andthen (gets m_LastDocGetted) (\<lambda>doc.
      andthen (parse_json J doc) (\<lambda>pt3.
      andthen (pt_need JSON_TRANSACTION_BUYER pt3) (\<lambda>buyer. return (Some buyer))))
     else
      andthen (pt_need JSON_AD_SPACE_CAMPAIGN_SLOT_FILLED_WITH pt4) (\<lambda>slotFilledWithAkaSlotFillerKey.
      andthen (couchbaseGetRequestWithExponentialBackoffRequiringSuccess slotFilledWithAkaSlotFillerKey) (\<lambda>ok.
      if \<not> ok then return None
      else
      andthen (gets m_LastDocGetted) (\<lambda>doc.
      andthen (parse_json J doc) (\<lambda>pt5.
      andthen (pt_need JSON_SLOT_FILLER_USERNAME pt5) (\<lambda>buyer. return (Some buyer)))))))"

text \<open>Steps 9 to 12: the transaction document, the buyer, and the repairs.\<close>

definition recover_slot ::
  "'j json \<Rightarrow> string \<Rightarrow> string \<Rightarrow> ptree \<Rightarrow> ptree \<Rightarrow> cas \<Rightarrow> ('j monitor, round_result) prog" where
  "recover_slot J slotKey slotIndexString pt4 pt2 campaignDocToUpdateCAS =
    (let transactionDocKey = transactionKey ''d3fault'' ''0'' slotIndexString in
    andthen (couchbaseGetRequestWithExponentialBackoff transactionDocKey) (\<lambda>ok.
    if \<not> ok then return (ReturnCode 1)
    else
    andthen (gets m_LastOpStatus) (\<lambda>status.
    if status \<noteq> LCB_KEY_ENOENT \<and> status \<noteq> LCB_SUCCESS then monitor_fatal
    else
    let transactionDocExists = (status \<noteq> LCB_KEY_ENOENT) in
    andthen (find_buyer J pt4 transactionDocExists) (\<lambda>found.
    case found of None \<Rightarrow> return (ReturnCode 1)
    | Some usernameOfBuyer \<Rightarrow>
    recover_account J slotKey transactionDocKey slotIndexString usernameOfBuyer pt4 pt2
      campaignDocToUpdateCAS transactionDocExists))))"

text \<open>The slot index a campaign document says comes next, and the one it says was filled last.\<close>

definition last_slot_index :: "ptree \<Rightarrow> ('s, int option) prog" where
  "last_slot_index campaign =
    (case pt_get_child_optional JSON_AD_SPACE_CAMPAIGN_LAST_SLOT_FILLED campaign of
       None \<Rightarrow> return None
     | Some lastSlotFilledAkaPurchased \<Rightarrow>
       andthen (pt_need JSON_AD_SPACE_CAMPAIGN_LAST_SLOT_FILLED_INDEX lastSlotFilledAkaPurchased) (\<lambda>str.
       andthen (require Bad_lexical_cast (lexical_cast_int str)) (\<lambda>i. return (Some i))))"

text \<open>Steps 6 to 8: the slot exists; after a tenth of a second, is the campaign document still behind it?\<close>

definition recheck_campaign :: "'j json \<Rightarrow> int \<Rightarrow> ('j monitor, round_result) prog" where
  "recheck_campaign J slotIndexForSlotThatShouldntExistButMight =
    (let slotIndexString = show_int slotIndexForSlotThatShouldntExistButMight;
         slotKey = adSpaceCampaignSlotKey ''d3fault'' ''0'' slotIndexString
     in
    andthen (gets m_LastDocGetted) (\<lambda>doc.
    andthen (parse_json J doc) (\<lambda>pt4.
    andthen (record_event (USlept 100000)) (\<lambda>_.
    andthen (couchbaseGetRequestWithExponentialBackoffRequiringSuccess (adSpaceCampaignKey ''d3fault'' ''0'')) (\<lambda>ok.
    if \<not> ok then return (ReturnCode 1)
    else
    andthen (gets m_LastDocGetted) (\<lambda>doc.
    andthen (parse_json J doc) (\<lambda>pt2.
    andthen (last_slot_index pt2) (\<lambda>lastSlot2.
    if (case lastSlot2 of None \<Rightarrow> False | Some i \<Rightarrow> slotIndexForSlotThatShouldntExistButMight \<le> i)
    then return Continue
    else
    andthen (gets m_LastGetCas) (\<lambda>campaignDocToUpdateCAS.
    recover_slot J slotKey slotIndexString pt4 pt2 campaignDocToUpdateCAS)))))))))"

definition audit :: "'j json \<Rightarrow> ('j monitor, round_result) prog" where
  "audit J =
    andthen (couchbaseGetRequestWithExponentialBackoffRequiringSuccess (adSpaceCampaignKey ''d3fault'' ''0'')) (\<lambda>ok.
    if \<not> ok then return (ReturnCode 1)
    else
    andthen (gets m_LastDocGetted) (\<lambda>doc.
    andthen (parse_json J doc) (\<lambda>pt.
    andthen (last_slot_index pt) (\<lambda>lastSlot.
    let slotIndexForSlotThatShouldntExistButMight = (case lastSlot of None \<Rightarrow> 0 | Some i \<Rightarrow> wrap32 (i + 1));
        slotKey = adSpaceCampaignSlotKey ''d3fault'' ''0'' (show_int slotIndexForSlotThatShouldntExistButMight)
    in
    andthen (couchbaseGetRequestWithExponentialBackoff slotKey) (\<lambda>ok.
    if \<not> ok then return (ReturnCode 1)
    else
    andthen (gets m_LastOpStatus) (\<lambda>status.
    if status = LCB_KEY_ENOENT then return Continue
    else
    andthen (if status \<noteq> LCB_SUCCESS then emit Cerr else return ()) (\<lambda>_.
    recheck_campaign J slotIndexForSlotThatShouldntExistButMight)))))))"

definition monitor_round :: "'j json \<Rightarrow> round_env \<Rightarrow> ('j monitor, round_result) prog" where
  "monitor_round J env =
    andthen (record_event (Slept 1)) (\<lambda>_.
    if stop_file_exists env then andthen (emit Cout) (\<lambda>_. return (ReturnCode 0))
    else if random_number env = 0 then audit J
    else return Continue)"

fun monitor_loop :: "'j json \<Rightarrow> round_env list \<Rightarrow> ('j monitor, int) prog" where
  "monitor_loop J [] = (\<lambda>s. Blocked s)"
| "monitor_loop J (env # envs) =
    andthen (monitor_round J env) (\<lambda>r.
    case r of Continue \<Rightarrow> monitor_loop J envs | ReturnCode c \<Rightarrow> return c)"

text \<open>
  \<open>stop_file\<close>: whether the stop file exists at the start, and whether it could be removed.
\<close>

definition startPessimisticallyMonitoring ::
  "'j json \<Rightarrow> bool \<Rightarrow> bool \<Rightarrow> connect_env \<Rightarrow> round_env list \<Rightarrow> ('j monitor, int) prog" where
  "startPessimisticallyMonitoring J stop_file removed env envs =
    (if stop_file \<and> \<not> removed then andthen (emit Cerr) (\<lambda>_. return 1)
     else
     andthen (connectToCouchbase env) (\<lambda>connected.
     if \<not> connected then return 1 else monitor_loop J envs))"

lemmas audit_run = audit_def recheck_campaign_def recover_slot_def find_buyer_def recover_account_def recover_buyer_def store_accepting_fail_def
  DO_COUCHBASE_CAS_SWAP_ACCEPTING_FAIL_OF_USER_ACCOUNT_DEBIT_AND_UNLOCK_def
  DO_COUCHBASE_CAS_SWAP_ACCEPTING_FAIL_OF_CAMPAIGN_DOC_UPDATE_def monitor_fatal_def

subsection \<open>The order of the repairs\<close>

definition debitted_and_unlocked :: "int \<Rightarrow> ptree \<Rightarrow> ptree" where
  "debitted_and_unlocked balance pt6 = pt_put JSON_USER_ACCOUNT_BALANCE (show_int balance)
     (pt_erase JSON_USER_ACCOUNT_SLOT_TO_ATTEMPT_TO_FILL_IT_WITH
       (pt_erase JSON_USER_ACCOUNT_SLOT_ATTEMPTING_TO_FILL pt6))"

definition campaign_index :: "ptree \<Rightarrow> int option" where
  "campaign_index campaign = Option.bind (pt_get_child_optional JSON_AD_SPACE_CAMPAIGN_LAST_SLOT_FILLED campaign)
     (\<lambda>c. Option.bind (pt_get JSON_AD_SPACE_CAMPAIGN_LAST_SLOT_FILLED_INDEX c) lexical_cast_int)"

definition slot_key :: "int \<Rightarrow> string" where
  "slot_key i = adSpaceCampaignSlotKey ''d3fault'' ''0'' (show_int i)"

definition tx_key :: "int \<Rightarrow> string" where
  "tx_key i = transactionKey ''d3fault'' ''0'' (show_int i)"

definition refilled_campaign :: "ptree \<Rightarrow> string \<Rightarrow> string \<Rightarrow> string \<Rightarrow> int \<Rightarrow> ptree" where
  "refilled_campaign campaign price start bought i = pt_put_child JSON_AD_SPACE_CAMPAIGN_LAST_SLOT_FILLED
      (pt_put JSON_AD_SPACE_CAMPAIGN_LAST_SLOT_FILLED_PURCHASE_PRICE price
      (pt_put JSON_AD_SPACE_CAMPAIGN_LAST_SLOT_FILLED_START_TIMESTAMP start
      (pt_put JSON_AD_SPACE_CAMPAIGN_LAST_SLOT_FILLED_PURCHASE_TIMESTAMP bought
      (pt_put JSON_AD_SPACE_CAMPAIGN_LAST_SLOT_FILLED_INDEX (show_int i) pt_empty)))) campaign"

text \<open>
  What the repairs of slot \<open>i\<close> have read: the slot document and the campaign document with its CAS.
\<close>

record repair_reads =
  rr_slot :: ptree
  rr_campaign :: ptree
  rr_campaign_cas :: cas

definition campaign_repair :: "'j json \<Rightarrow> int \<Rightarrow> repair_reads \<Rightarrow> ('j, monitor_output) event list \<Rightarrow> bool" where
  "campaign_repair J i R sts \<longleftrightarrow> sts = [] \<or>
    (\<exists>price start bought r. sts = [DidStore (adSpaceCampaignKey ''d3fault'' ''0'')
        (write_json J (refilled_campaign (rr_campaign R) price start bought i)) LCB_SET (rr_campaign_cas R) r]
     \<and> pt_get JSON_SLOT_PURCHASE_PRICE (rr_slot R) = Some price
     \<and> pt_get JSON_SLOT_START_TIMESTAMP (rr_slot R) = Some start
     \<and> pt_get JSON_SLOT_PURCHASE_TIMESTAMP (rr_slot R) = Some bought)"

definition debit_repair ::
  "'j json \<Rightarrow> int \<Rightarrow> repair_reads \<Rightarrow> string \<Rightarrow> ptree \<Rightarrow> cas \<Rightarrow> string \<Rightarrow> ('j, monitor_output) event list \<Rightarrow> bool" where
  "debit_repair J i R buyer pt6 userCas price sts \<longleftrightarrow> sts = [] \<or>
    (\<exists>r rest balance paid. sts = DidStore (userAccountKey buyer)
        (write_json J (debitted_and_unlocked (wrap64 (balance - paid)) pt6)) LCB_SET userCas r # rest
     \<and> Option.bind (pt_get JSON_USER_ACCOUNT_BALANCE pt6) lexical_cast_longlong = Some balance
     \<and> lexical_cast_longlong price = Some paid
     \<and> campaign_repair J i R rest \<and> (rest \<noteq> [] \<longrightarrow> succeeded r))"

definition buyer_repair ::
  "'j json \<Rightarrow> int \<Rightarrow> repair_reads \<Rightarrow> string \<Rightarrow> bool \<Rightarrow> ptree \<Rightarrow> cas \<Rightarrow> string
    \<Rightarrow> ('j, monitor_output) event list \<Rightarrow> bool" where
  "buyer_repair J i R buyer tx_exists pt6 userCas price sts \<longleftrightarrow> sts = [] \<or>
    (if pt_get_default JSON_USER_ACCOUNT_SLOT_ATTEMPTING_TO_FILL ''n'' pt6 = slot_key i then
      (if tx_exists then debit_repair J i R buyer pt6 userCas price sts
       else (\<exists>r rest. sts = DidStore (tx_key i) (write_json J (createTransactionDoc pt_empty ''d3fault'' buyer price))
             LCB_ADD 0 r # rest
          \<and> debit_repair J i R buyer pt6 userCas price rest \<and> (rest \<noteq> [] \<longrightarrow> succeeded r)))
     else tx_exists \<and> \<not> profileIsLocked pt6 \<and> campaign_repair J i R sts)"

lemma repair_nil [simp]: "campaign_repair J i R []" "debit_repair J i R b pt6 uc price []"
    "buyer_repair J i R b ex pt6 uc price []"
  by (simp_all add: campaign_repair_def debit_repair_def buyer_repair_def)

abbreviation stores_only :: "(('j, 'o) event list \<Rightarrow> bool) \<Rightarrow> ('j, 'o) event list \<Rightarrow> bool" where
  "stores_only P es \<equiv> P (filter is_store es)"

text \<open>A store that accepts failure: whatever follows it happens only after it succeeded.\<close>

lemma store_accepting_fail_stores:
  assumes "\<And>d c' t. runs_to k (\<lambda>_. does t (stores_only P)) (does t (stores_only P)) t"
    and "\<And>r fs. P fs \<Longrightarrow> (fs \<noteq> [] \<Longrightarrow> succeeded r) \<Longrightarrow> Q (DidStore key v st c r # fs)"
    and "P []" and "Q []"
  shows "runs_to (store_accepting_fail key v st c k) (\<lambda>_. does s (stores_only Q)) (does s (stores_only Q)) s"
proof -
  have q: "Q [DidStore key v st c r]" for r using assms(2) [of "[]"] assms(3) by simp
  show ?thesis
    unfolding store_accepting_fail_def monitor_fatal_def
    apply (simp add: run_rules)
    apply (rule runs_to_store)
      apply (auto simp: run_rules does_known does_idle q assms(4))
    apply (rule runs_to_mono [OF assms(1)])
     apply (erule does_after, assumption, simp add: assms(2))+
    done
qed

abbreviation campaign_update ::
  "'j json \<Rightarrow> int \<Rightarrow> repair_reads \<Rightarrow> ('j monitor, round_result) prog" where
  "campaign_update J i R \<equiv> DO_COUCHBASE_CAS_SWAP_ACCEPTING_FAIL_OF_CAMPAIGN_DOC_UPDATE J (show_int i) (rr_slot R)
     (rr_campaign R) (rr_campaign_cas R) (return Continue)"

lemma campaign_update_stores:
  "runs_to (campaign_update J i R)
    (\<lambda>_. does s (stores_only (campaign_repair J i R))) (does s (stores_only (campaign_repair J i R))) s"
  unfolding DO_COUCHBASE_CAS_SWAP_ACCEPTING_FAIL_OF_CAMPAIGN_DOC_UPDATE_def Let_def
  apply (simp add: run_rules does_idle split: option.splits)
  apply (intro allI impI, rule store_accepting_fail_stores [where P = "\<lambda>fs. fs = []"])
     apply (auto simp: run_rules does_idle campaign_repair_def refilled_campaign_def)
  done

lemma debit_stores:
  "runs_to (DO_COUCHBASE_CAS_SWAP_ACCEPTING_FAIL_OF_USER_ACCOUNT_DEBIT_AND_UNLOCK J (userAccountKey buyer) pt6 uc price
      (campaign_update J i R))
    (\<lambda>_. does s (stores_only (debit_repair J i R buyer pt6 uc price)))
    (does s (stores_only (debit_repair J i R buyer pt6 uc price))) s"
  unfolding DO_COUCHBASE_CAS_SWAP_ACCEPTING_FAIL_OF_USER_ACCOUNT_DEBIT_AND_UNLOCK_def satoshiStringToSatoshiInt_def
  apply (simp add: run_rules does_idle split: option.splits)
  apply (intro allI impI, rule store_accepting_fail_stores [OF campaign_update_stores])
     apply (auto simp: debit_repair_def debitted_and_unlocked_def satoshiIntToSatoshiString_def)
  done

definition priced_repair ::
  "'j json \<Rightarrow> int \<Rightarrow> repair_reads \<Rightarrow> string \<Rightarrow> bool \<Rightarrow> ptree \<Rightarrow> cas \<Rightarrow> ('j, monitor_output) event list \<Rightarrow> bool" where
  "priced_repair J i R buyer ex pt6 uc sts \<longleftrightarrow> sts = [] \<or>
    (\<exists>price. pt_get JSON_SLOT_PURCHASE_PRICE (rr_slot R) = Some price \<and> buyer_repair J i R buyer ex pt6 uc price sts)"

lemma recover_buyer_stores:
  "runs_to (recover_buyer J (slot_key i) (tx_key i) (show_int i) buyer (rr_slot R) (rr_campaign R) (rr_campaign_cas R) ex
      (userAccountKey buyer) pt6 uc)
    (\<lambda>_. does s (stores_only (priced_repair J i R buyer ex pt6 uc)))
    (does s (stores_only (priced_repair J i R buyer ex pt6 uc))) s"
proof (cases "pt_get JSON_SLOT_PURCHASE_PRICE (rr_slot R)")
  case None
  then show ?thesis by (simp add: recover_buyer_def Let_def run_rules does_idle priced_repair_def)
next
  case (Some price)
  let ?Q = "stores_only (priced_repair J i R buyer ex pt6 uc)"
  let ?locked = "pt_get_default JSON_USER_ACCOUNT_SLOT_ATTEMPTING_TO_FILL ''n'' pt6 = slot_key i"
  consider (create) "\<not> ex" ?locked | (gone) "\<not> ex" "\<not> ?locked" | (debit) ex ?locked | (campaign) ex "\<not> ?locked"
    by blast
  then show ?thesis
  proof cases
    case create
    have "runs_to (store_accepting_fail (tx_key i) (write_json J (createTransactionDoc pt_empty ''d3fault'' buyer price)) LCB_ADD 0
        (DO_COUCHBASE_CAS_SWAP_ACCEPTING_FAIL_OF_USER_ACCOUNT_DEBIT_AND_UNLOCK J (userAccountKey buyer) pt6 uc price
        (campaign_update J i R))) (\<lambda>_. does s ?Q) (does s ?Q) s"
      using create Some by (intro store_accepting_fail_stores [OF debit_stores])
        (auto simp: buyer_repair_def priced_repair_def)
    then show ?thesis using create Some by (simp add: recover_buyer_def Let_def run_rules)
  next
    case gone
    then show ?thesis using Some
      by (simp add: recover_buyer_def Let_def monitor_fatal_def run_rules does_idle priced_repair_def, intro impI runs_to_get)
        (auto simp: run_rules does_known does_idle monitor_fatal_def)
  next
    case debit
    then show ?thesis using Some
      by (simp add: recover_buyer_def Let_def run_rules, intro runs_to_mono [OF debit_stores])
        (auto elim!: does_mono simp: buyer_repair_def priced_repair_def)
  next
    case campaign
    then show ?thesis using Some
      by (simp add: recover_buyer_def Let_def run_rules does_idle priced_repair_def, intro impI runs_to_mono [OF campaign_update_stores])
        (auto elim!: does_mono simp: buyer_repair_def)
  qed
qed

text \<open>Where the buyer's name comes from: the transaction that was read, or the slot filler the slot names.\<close>

definition buyer_found ::
  "'j json \<Rightarrow> int \<Rightarrow> ptree \<Rightarrow> bool \<Rightarrow> string \<Rightarrow> ('j, monitor_output) event list \<Rightarrow> bool" where
  "buyer_found J i slot tx_exists buyer before \<longleftrightarrow>
    (if tx_exists then
      (\<exists>d c tx. DidGet (tx_key i) (Answer LCB_SUCCESS d c) \<in> set before
        \<and> read_json J d = Some tx \<and> pt_get JSON_TRANSACTION_BUYER tx = Some buyer)
     else
      (\<exists>d c d' c' filler_key filler. DidGet (tx_key i) (Answer LCB_KEY_ENOENT d c) \<in> set before
        \<and> pt_get JSON_AD_SPACE_CAMPAIGN_SLOT_FILLED_WITH slot = Some filler_key
        \<and> DidGet filler_key (Answer LCB_SUCCESS d' c') \<in> set before
        \<and> read_json J d' = Some filler \<and> pt_get JSON_SLOT_FILLER_USERNAME filler = Some buyer))"

definition slot_repair :: "'j json \<Rightarrow> int \<Rightarrow> repair_reads \<Rightarrow> ('j, monitor_output) event list \<Rightarrow> bool" where
  "slot_repair J i R es \<longleftrightarrow> filter is_store es = [] \<or>
    (\<exists>before after buyer doc userCas pt6 tx_exists.
       es = before @ DidGet (userAccountKey buyer) (Answer LCB_SUCCESS doc userCas) # after
     \<and> filter is_store before = [] \<and> read_json J doc = Some pt6
     \<and> buyer_found J i (rr_slot R) tx_exists buyer before
     \<and> priced_repair J i R buyer tx_exists pt6 userCas (filter is_store after))"

lemma slot_repair_quiet: "filter is_store es = [] \<Longrightarrow> slot_repair J i R es"
  by (simp add: slot_repair_def)

lemma slot_repairI:
  assumes "filter is_store before = []" and "read_json J doc = Some pt6"
    and "buyer_found J i (rr_slot R) ex buyer before"
    and "priced_repair J i R buyer ex pt6 userCas (filter is_store after)"
  shows "slot_repair J i R ((before @ [DidGet (userAccountKey buyer) (Answer LCB_SUCCESS doc userCas)]) @ after)"
  unfolding slot_repair_def append_assoc append_Cons append_Nil using assms by blast

text \<open>Reading the buyer's account and repairing, after the reads \<open>before\<close>.\<close>

lemma read_account_and_repair:
  assumes "filter is_store before = []"
    and "buyer_found J i (rr_slot R) ex buyer before"
    and "effects t = effects s @ before"
  shows "runs_to (recover_account J (slot_key i) (tx_key i) (show_int i) buyer (rr_slot R) (rr_campaign R) (rr_campaign_cas R) ex)
    (\<lambda>_. does s (slot_repair J i R)) (does s (slot_repair J i R)) t"
  unfolding recover_account_def Let_def
  apply (simp add: run_rules)
  apply (rule runs_to_get_strict)
    apply (auto simp: run_rules does_known does_idle assms slot_repair_def split: option.splits)
  apply (rule runs_to_mono [OF recover_buyer_stores])
   apply (erule does_after [where es = "before @ [DidGet (userAccountKey buyer) r]" for r], simp add: assms,
      rule slot_repairI [OF assms(1) _ assms(2)], simp add: results_def, simp add: results_def)+
  done

lemma find_buyer_reads:
  assumes "effects t = effects s @ [DidGet (tx_key i) (Answer e d c)]"
    and "e = LCB_SUCCESS \<and> m_LastDocGetted t = d \<or> e = LCB_KEY_ENOENT" and "ex \<longleftrightarrow> e \<noteq> LCB_KEY_ENOENT"
  shows "runs_to (find_buyer J slot ex)
    (\<lambda>b. does s (\<lambda>es. filter is_store es = [] \<and> (\<forall>buyer. b = Some buyer \<longrightarrow> buyer_found J i slot ex buyer es)))
    (does s (\<lambda>es. filter is_store es = [])) t"
proof (cases "e = LCB_KEY_ENOENT")
  case False
  then show ?thesis using assms unfolding find_buyer_def
    by (auto simp: run_rules does_known buyer_found_def split: option.splits)
next
  case True
  show ?thesis
  proof (cases "pt_get JSON_AD_SPACE_CAMPAIGN_SLOT_FILLED_WITH slot")
    case None
    then show ?thesis using assms True unfolding find_buyer_def by (auto simp: run_rules does_known)
  next
    case (Some filler_key)
    have found: "buyer_found J i slot False buyer [DidGet (tx_key i) (Answer LCB_KEY_ENOENT d c), DidGet filler_key (Answer LCB_SUCCESS d' c')]"
      if "read_json J d' = Some filler" "pt_get JSON_SLOT_FILLER_USERNAME filler = Some buyer" for d' c' filler buyer
      unfolding buyer_found_def if_False using Some that by fastforce
    show ?thesis using assms True Some unfolding find_buyer_def
      by (simp add: run_rules, intro runs_to_get_strict)
        (auto simp: run_rules does_known results_def intro!: found split: option.splits)
  qed
qed

lemma find_and_repair:
  assumes "effects t = effects s @ [DidGet (tx_key i) (Answer e d c)]"
    and "e = LCB_SUCCESS \<and> m_LastDocGetted t = d \<or> e = LCB_KEY_ENOENT" and "ex \<longleftrightarrow> e \<noteq> LCB_KEY_ENOENT"
  shows "runs_to (find_buyer J (rr_slot R) ex) (\<lambda>found. runs_to (case found of None \<Rightarrow> return (ReturnCode 1)
      | Some buyer \<Rightarrow> recover_account J (slot_key i) (tx_key i) (show_int i) buyer (rr_slot R) (rr_campaign R)
          (rr_campaign_cas R) ex) (\<lambda>_. does s (slot_repair J i R)) (does s (slot_repair J i R)))
    (does s (slot_repair J i R)) t"
  apply (rule runs_to_mono [OF find_buyer_reads [OF assms]])
  subgoal for b s2
    by (cases b) (auto simp: does_def run_rules slot_repair_quiet intro!: read_account_and_repair [rotated 2])
  subgoal by (auto simp: does_def slot_repair_quiet)
  done

lemma recover_slot_stores:
  "runs_to (recover_slot J (slot_key i) (show_int i) (rr_slot R) (rr_campaign R) (rr_campaign_cas R))
    (\<lambda>_. does s (slot_repair J i R)) (does s (slot_repair J i R)) s"
  unfolding recover_slot_def Let_def tx_key_def [symmetric] monitor_fatal_def
  apply (simp add: run_rules)
  apply (rule runs_to_get)
  subgoal for e d c s1
    using find_and_repair [of s1 s i e d c True J R] find_and_repair [of s1 s i e d c False J R]
    by (cases "e = LCB_SUCCESS"; cases "e = LCB_KEY_ENOENT")
      (auto simp: run_rules does_known slot_repair_quiet results_def)
   apply (simp_all add: run_rules does_known does_idle slot_repair_quiet)
  done

text \<open>
  The audit as a sequence: the campaign document, the slot after the last one of that document (slot \<open>0\<close> when it has
  none), which exists; the campaign document again, which is still behind that slot; then the repairs of that slot. When
  the read of the slot failed for another reason than a missing key, the code goes on with the document it holds.
\<close>

definition slot_after :: "ptree \<Rightarrow> int option" where
  "slot_after campaign = (case pt_get_child_optional JSON_AD_SPACE_CAMPAIGN_LAST_SLOT_FILLED campaign of
      None \<Rightarrow> Some 0
    | Some c \<Rightarrow> map_option (\<lambda>i. wrap32 (i + 1)) (campaign_index campaign))"

definition behind :: "ptree \<Rightarrow> int \<Rightarrow> bool" where
  "behind campaign i \<longleftrightarrow> pt_get_child_optional JSON_AD_SPACE_CAMPAIGN_LAST_SLOT_FILLED campaign = None
     \<or> (\<exists>last. campaign_index campaign = Some last \<and> last < i)"

definition audit_protocol :: "'j json \<Rightarrow> ('j, monitor_output) event list \<Rightarrow> bool" where
  "audit_protocol J es \<longleftrightarrow> filter is_store es = [] \<or>
    (\<exists>d1 c1 campaign i e d2 c2 slot d3 c3 campaign' rest.
       es = DidGet (adSpaceCampaignKey ''d3fault'' ''0'') (Answer LCB_SUCCESS d1 c1)
         # DidGet (slot_key i) (Answer e d2 c2) # (if e = LCB_SUCCESS then [] else [Out Cerr])
         @ DidGet (adSpaceCampaignKey ''d3fault'' ''0'') (Answer LCB_SUCCESS d3 c3) # rest
     \<and> read_json J d1 = Some campaign \<and> slot_after campaign = Some i
     \<and> e \<noteq> LCB_KEY_ENOENT \<and> read_json J (if e = LCB_SUCCESS then d2 else d1) = Some slot
     \<and> read_json J d3 = Some campaign' \<and> behind campaign' i
     \<and> slot_repair J i \<lparr>rr_slot = slot, rr_campaign = campaign', rr_campaign_cas = c3\<rparr> rest)"

lemma audit_protocol_quiet: "filter is_store es = [] \<Longrightarrow> audit_protocol J es"
  by (simp add: audit_protocol_def)

lemma runs_to_last_slot [run_rules]:
  "runs_to (last_slot_index t) Q E s = (case pt_get_child_optional JSON_AD_SPACE_CAMPAIGN_LAST_SLOT_FILLED t of
      None \<Rightarrow> Q None s
    | Some c \<Rightarrow> (case campaign_index t of None \<Rightarrow> E s | Some i \<Rightarrow> Q (Some i) s))"
  by (simp add: last_slot_index_def campaign_index_def run_rules split: option.splits)

lemma repair_after:
  assumes "effects t = effects s @ before"
    and "\<And>rest. slot_repair J i \<lparr>rr_slot = slot, rr_campaign = campaign, rr_campaign_cas = cc\<rparr> rest \<Longrightarrow> P (before @ rest)"
  shows "runs_to (recover_slot J (slot_key i) (show_int i) slot campaign cc) (\<lambda>_. does s P) (does s P) t"
  by (rule runs_to_mono [OF recover_slot_stores
        [where R = "\<lparr>rr_slot = slot, rr_campaign = campaign, rr_campaign_cas = cc\<rparr>", simplified]];
      erule does_after [OF _ assms(1)], erule assms(2))

text \<open>The second half of the audit, after the reads \<open>pre\<close>.\<close>

lemma recheck_trace:
  assumes "effects t = effects s @ pre" and "filter is_store pre = []"
    and "\<And>slot d3 c3 campaign' rest. read_json J (m_LastDocGetted t) = Some slot \<Longrightarrow> read_json J d3 = Some campaign'
      \<Longrightarrow> behind campaign' i
      \<Longrightarrow> slot_repair J i \<lparr>rr_slot = slot, rr_campaign = campaign', rr_campaign_cas = c3\<rparr> rest
      \<Longrightarrow> P (pre @ DidGet (adSpaceCampaignKey ''d3fault'' ''0'') (Answer LCB_SUCCESS d3 c3) # rest)"
    and "\<And>es. filter is_store es = [] \<Longrightarrow> P es"
  shows "runs_to (recheck_campaign J i) (\<lambda>_. does s P) (does s P) t"
  unfolding recheck_campaign_def Let_def slot_key_def [symmetric]
  apply (simp add: run_rules does_known [OF assms(1)] assms(2,4) split: option.splits)
  apply (intro allI impI, rule runs_to_get_strict)
  subgoal for slot d c s'
    using assms(3) [of slot d _ c]
    by (auto simp: run_rules does_known does_idle assms(1,2,4) results_def behind_def split: option.splits
        intro!: repair_after [where before = "pre @ [DidGet (adSpaceCampaignKey ''d3fault'' ''0'') (Answer LCB_SUCCESS d c)]"])
   apply (auto simp: run_rules does_known does_idle assms)
  done

text \<open>The first half: the slot \<open>i\<close> is looked at, with the campaign document still at hand.\<close>

definition audit_slot :: "'j json \<Rightarrow> int \<Rightarrow> ('j monitor, round_result) prog" where
  "audit_slot J i =
    andthen (couchbaseGetRequestWithExponentialBackoff (slot_key i)) (\<lambda>ok.
    if \<not> ok then return (ReturnCode 1)
    else
    andthen (gets m_LastOpStatus) (\<lambda>status.
    if status = LCB_KEY_ENOENT then return Continue
    else
    andthen (if status \<noteq> LCB_SUCCESS then emit Cerr else return ()) (\<lambda>_. recheck_campaign J i)))"

lemma audit_slot_trace:
  assumes "effects t = effects s @ [DidGet (adSpaceCampaignKey ''d3fault'' ''0'') (Answer LCB_SUCCESS (m_LastDocGetted t) c1)]"
    and "read_json J (m_LastDocGetted t) = Some campaign" and "slot_after campaign = Some i"
  shows "runs_to (audit_slot J i) (\<lambda>_. does s (audit_protocol J)) (does s (audit_protocol J)) t"
  unfolding audit_slot_def
  apply (simp add: run_rules)
  apply (rule runs_to_get)
  subgoal for e d c s'
    using assms
    apply (auto simp: run_rules does_known audit_protocol_quiet results_def intro!: recheck_trace)
    subgoal unfolding audit_protocol_def by force
    subgoal unfolding audit_protocol_def by force
    done
   apply (auto simp: run_rules does_known does_idle audit_protocol_quiet assms(1))
  done

lemma audit_trace:
  "runs_to (audit J) (\<lambda>_. does s (audit_protocol J)) (does s (audit_protocol J)) s"
proof -
  have audit: "audit J =
    andthen (couchbaseGetRequestWithExponentialBackoffRequiringSuccess (adSpaceCampaignKey ''d3fault'' ''0'')) (\<lambda>ok.
    if \<not> ok then return (ReturnCode 1)
    else
    andthen (gets m_LastDocGetted) (\<lambda>doc.
    andthen (parse_json J doc) (\<lambda>pt.
    andthen (last_slot_index pt) (\<lambda>lastSlot.
    audit_slot J (case lastSlot of None \<Rightarrow> 0 | Some i \<Rightarrow> wrap32 (i + 1))))))"
    unfolding audit_def audit_slot_def slot_key_def Let_def ..
  show ?thesis
    unfolding audit
    apply (simp add: run_rules)
    apply (rule runs_to_get_strict)
      apply (auto simp: run_rules does_known does_idle audit_protocol_quiet slot_after_def results_def
        intro!: audit_slot_trace split: option.splits)
    done
qed

text \<open>
  C18. Whatever the database answers, one audit writes nothing, or it reads the campaign document, finds the slot after
  the last one of that document, reads the campaign document again and finds it still behind that slot, and then repairs
  that slot in the order of the purchase, after reading the account of the buyer whom the transaction, or without
  one the slot filler, names. The transaction is added, with the slot's price, only when none was found and the account
  is locked towards that slot; the debit by that price follows only a transaction that exists or was just added, carries the CAS of
  the account that was read and removes the lock; the campaign document, with its own CAS and the data of the slot,
  comes last; a store that fails ends the repairs.
\<close>

theorem audit_follows_protocol:
  "does s (audit_protocol J) (final_state (audit J s))"
  using audit_trace [of J s] by (simp add: runs_to_final)

subsection \<open>Complete repairs and the campaign that caught up\<close>

lemma last_slot_index_run [simp]:
  "campaign_index t = Some i \<Longrightarrow> last_slot_index t s = Ret (Some i) s"
  "campaign_index t = Some i \<Longrightarrow> andthen (last_slot_index t) f s = f (Some i) s"
  by (auto simp: campaign_index_def last_slot_index_def andthen_def elim!: bind_SomeE)

lemma campaign_index_range: "campaign_index t = Some i \<Longrightarrow> - (2 ^ 31) \<le> i \<and> i < 2 ^ 31"
  by (auto simp: campaign_index_def lexical_cast_int_def read_range_def elim!: bind_SomeE split: option.splits if_splits)

text \<open>
  When the campaign document caught up with the slot between the two reads, the purchase was merely in
  progress: the audit stores nothing and the monitor goes on.
\<close>

lemma caught_up_campaign_is_left_alone:
  assumes "m_CouchbaseCreated s"
    and "cluster_replies s = Answer LCB_SUCCESS d1 c1 # Answer LCB_SUCCESS d2 c2 # Answer LCB_SUCCESS d3 c3 # rs"
    and "read_json J d1 = Some campaign" and "read_json J d2 = Some slot" and "read_json J d3 = Some campaign'"
    and "campaign_index campaign = Some i" and "i < 2 ^ 31 - 1" and "campaign_index campaign' = Some i'" and "i < i'"
  shows "\<exists>s'. audit J s = Ret Continue s' \<and> effects s' = effects s @
    [DidGet (adSpaceCampaignKey ''d3fault'' ''0'') (Answer LCB_SUCCESS d1 c1),
     DidGet (slot_key (i + 1)) (Answer LCB_SUCCESS d2 c2),
     DidGet (adSpaceCampaignKey ''d3fault'' ''0'') (Answer LCB_SUCCESS d3 c3)]"
proof -
  have "wrap32 (i + 1) = i + 1" using campaign_index_range [OF assms(6)] assms(7) by simp
  then show ?thesis using assms
    by (simp add: audit_def recheck_campaign_def andthen_def Let_def prog_run record_event_def slot_key_def effects_def)
qed

definition demo_campaign :: "string \<Rightarrow> ptree" where
  "demo_campaign i = pt_put_child JSON_AD_SPACE_CAMPAIGN_LAST_SLOT_FILLED
     (plain_doc [(JSON_AD_SPACE_CAMPAIGN_LAST_SLOT_FILLED_INDEX, i)]) pt_empty"

lemma demo_campaign_index:
  "campaign_index (demo_campaign ''4'') = Some 4" "campaign_index (demo_campaign ''5'') = Some 5"
  by (simp_all add: campaign_index_def demo_campaign_def lexical_cast_int_def read_range_def read_nat_def
      digit_value_def is_digit_def)

lemma caught_up_campaign_is_left_alone_witness:
  "\<exists>s'. audit tree_json (connected_client pt_empty [Answer LCB_SUCCESS (demo_campaign ''4'') 1,
      Answer LCB_SUCCESS pt_empty 2, Answer LCB_SUCCESS (demo_campaign ''5'') 3]) = Ret Continue s'"
proof -
  let ?s = "connected_client pt_empty [Answer LCB_SUCCESS (demo_campaign ''4'') 1,
      Answer LCB_SUCCESS pt_empty 2, Answer LCB_SUCCESS (demo_campaign ''5'') 3]"
  from caught_up_campaign_is_left_alone [of ?s "demo_campaign ''4''" 1 pt_empty 2 "demo_campaign ''5''" 3 "[]" tree_json
      "demo_campaign ''4''" pt_empty "demo_campaign ''5''" 4 5]
  show ?thesis by (auto simp: demo_campaign_index)
qed

lemma audit_completes:
  assumes "m_CouchbaseCreated s"
    and "cluster_replies s = [Answer LCB_SUCCESS d1 c1, Answer LCB_SUCCESS d2 c2, Answer LCB_SUCCESS d3 c3,
        Answer LCB_KEY_ENOENT d4 c4, Answer LCB_SUCCESS d5 c5, Answer LCB_SUCCESS d6 c6,
        Answer LCB_SUCCESS d7 c7, Answer LCB_SUCCESS d8 c8, Answer LCB_SUCCESS d9 c9] @ rs"
    and "read_json J d1 = Some campaign" and "campaign_index campaign = Some i" and "i < 2 ^ 31 - 1"
    and "read_json J d2 = Some slot" and "read_json J d3 = Some campaign"
    and "pt_get JSON_AD_SPACE_CAMPAIGN_SLOT_FILLED_WITH slot = Some filler_key"
    and "pt_get JSON_SLOT_PURCHASE_PRICE slot = Some price" and "lexical_cast_longlong price = Some paid"
    and "pt_get JSON_SLOT_PURCHASE_TIMESTAMP slot = Some bought" and "pt_get JSON_SLOT_START_TIMESTAMP slot = Some start"
    and "read_json J d5 = Some filler" and "pt_get JSON_SLOT_FILLER_USERNAME filler = Some buyer"
    and "read_json J d6 = Some account"
    and "pt_get JSON_USER_ACCOUNT_SLOT_ATTEMPTING_TO_FILL account = Some (slot_key (i + 1))"
    and "Option.bind (pt_get JSON_USER_ACCOUNT_BALANCE account) lexical_cast_longlong = Some balance"
    and "0 \<le> balance" and "0 \<le> paid"
  shows "\<exists>s'. audit J s = Ret Continue s' \<and> effects s' = effects s @
    [DidGet (adSpaceCampaignKey ''d3fault'' ''0'') (Answer LCB_SUCCESS d1 c1),
     DidGet (slot_key (i + 1)) (Answer LCB_SUCCESS d2 c2),
     DidGet (adSpaceCampaignKey ''d3fault'' ''0'') (Answer LCB_SUCCESS d3 c3),
     DidGet (tx_key (i + 1)) (Answer LCB_KEY_ENOENT d4 c4),
     DidGet filler_key (Answer LCB_SUCCESS d5 c5),
     DidGet (userAccountKey buyer) (Answer LCB_SUCCESS d6 c6),
     DidStore (tx_key (i + 1)) (write_json J (createTransactionDoc pt_empty ''d3fault'' buyer price)) LCB_ADD 0
       (Answer LCB_SUCCESS d7 c7),
     DidStore (userAccountKey buyer) (write_json J (debitted_and_unlocked (balance - paid) account)) LCB_SET c6
       (Answer LCB_SUCCESS d8 c8),
     DidStore (adSpaceCampaignKey ''d3fault'' ''0'') (write_json J (refilled_campaign campaign price start bought (i + 1))) LCB_SET c3
       (Answer LCB_SUCCESS d9 c9)]"
    and "campaign_index (refilled_campaign campaign price start bought (i + 1)) = Some (i + 1)"
proof -
  have i: "wrap32 (i + 1) = i + 1" "lexical_cast_int (show_int (i + 1)) = Some (i + 1)"
    using campaign_index_range [OF assms(4)] assms(5) by (simp_all add: lexical_cast_int_show_int)
  obtain b where b: "pt_get JSON_USER_ACCOUNT_BALANCE account = Some b" "lexical_cast_longlong b = Some balance"
    using assms(17) by (elim bind_SomeE)
  have w: "wrap64 (balance - paid) = balance - paid"
    using lexical_cast_longlong_range [OF b(2)] lexical_cast_longlong_range [OF assms(10)] assms(18,19)
    by (intro wrap64_id) simp_all
  show "campaign_index (refilled_campaign campaign price start bought (i + 1)) = Some (i + 1)"
    by (simp add: campaign_index_def refilled_campaign_def i)
  show "\<exists>s'. audit J s = Ret Continue s' \<and> effects s' = effects s @
    [DidGet (adSpaceCampaignKey ''d3fault'' ''0'') (Answer LCB_SUCCESS d1 c1),
     DidGet (slot_key (i + 1)) (Answer LCB_SUCCESS d2 c2),
     DidGet (adSpaceCampaignKey ''d3fault'' ''0'') (Answer LCB_SUCCESS d3 c3),
     DidGet (tx_key (i + 1)) (Answer LCB_KEY_ENOENT d4 c4),
     DidGet filler_key (Answer LCB_SUCCESS d5 c5),
     DidGet (userAccountKey buyer) (Answer LCB_SUCCESS d6 c6),
     DidStore (tx_key (i + 1)) (write_json J (createTransactionDoc pt_empty ''d3fault'' buyer price)) LCB_ADD 0
       (Answer LCB_SUCCESS d7 c7),
     DidStore (userAccountKey buyer) (write_json J (debitted_and_unlocked (balance - paid) account)) LCB_SET c6
       (Answer LCB_SUCCESS d8 c8),
     DidStore (adSpaceCampaignKey ''d3fault'' ''0'') (write_json J (refilled_campaign campaign price start bought (i + 1))) LCB_SET c3
       (Answer LCB_SUCCESS d9 c9)]"
    unfolding debitted_and_unlocked_def refilled_campaign_def using assms(1-16) b w i
    by (simp add: audit_run andthen_def Let_def prog_run record_event_def slot_key_def tx_key_def effects_def
        satoshiStringToSatoshiInt_def satoshiIntToSatoshiString_def)
qed

text \<open>
  C24. A purchase that stopped right after the slot was filled is completed: when the database accepts, the transaction
  document names the operator, the buyer and the slot's price, the buyer's account is debited by exactly that price and loses both
  purchase fields and nothing else, and the campaign document points at the slot; each swap carries the CAS of its read.
\<close>

theorem interrupted_purchase_is_completed:
  assumes "m_CouchbaseCreated s"
    and "cluster_replies s = [Answer LCB_SUCCESS d1 c1, Answer LCB_SUCCESS d2 c2, Answer LCB_SUCCESS d3 c3,
        Answer LCB_KEY_ENOENT d4 c4, Answer LCB_SUCCESS d5 c5, Answer LCB_SUCCESS d6 c6,
        Answer LCB_SUCCESS d7 c7, Answer LCB_SUCCESS d8 c8, Answer LCB_SUCCESS d9 c9] @ rs"
    and "read_json J d1 = Some campaign" and "campaign_index campaign = Some i" and "i < 2 ^ 31 - 1"
    and "read_json J d2 = Some slot" and "read_json J d3 = Some campaign"
    and "pt_get JSON_AD_SPACE_CAMPAIGN_SLOT_FILLED_WITH slot = Some filler_key"
    and "pt_get JSON_SLOT_PURCHASE_PRICE slot = Some price" and "lexical_cast_longlong price = Some paid"
    and "pt_get JSON_SLOT_PURCHASE_TIMESTAMP slot = Some bought" and "pt_get JSON_SLOT_START_TIMESTAMP slot = Some start"
    and "read_json J d5 = Some filler" and "pt_get JSON_SLOT_FILLER_USERNAME filler = Some buyer"
    and "read_json J d6 = Some account"
    and "pt_get JSON_USER_ACCOUNT_SLOT_ATTEMPTING_TO_FILL account = Some (slot_key (i + 1))"
    and "Option.bind (pt_get JSON_USER_ACCOUNT_BALANCE account) lexical_cast_longlong = Some balance"
    and "0 \<le> balance" and "0 \<le> paid"
  shows "\<exists>s' account' campaign'. audit J s = Ret Continue s' \<and> effects s' = effects s @
    [DidGet (adSpaceCampaignKey ''d3fault'' ''0'') (Answer LCB_SUCCESS d1 c1),
     DidGet (slot_key (i + 1)) (Answer LCB_SUCCESS d2 c2),
     DidGet (adSpaceCampaignKey ''d3fault'' ''0'') (Answer LCB_SUCCESS d3 c3),
     DidGet (tx_key (i + 1)) (Answer LCB_KEY_ENOENT d4 c4),
     DidGet filler_key (Answer LCB_SUCCESS d5 c5),
     DidGet (userAccountKey buyer) (Answer LCB_SUCCESS d6 c6),
     DidStore (tx_key (i + 1)) (write_json J (createTransactionDoc pt_empty ''d3fault'' buyer price)) LCB_ADD 0
       (Answer LCB_SUCCESS d7 c7),
     DidStore (userAccountKey buyer) (write_json J account') LCB_SET c6 (Answer LCB_SUCCESS d8 c8),
     DidStore (adSpaceCampaignKey ''d3fault'' ''0'') (write_json J campaign') LCB_SET c3 (Answer LCB_SUCCESS d9 c9)]
    \<and> (\<forall>k. pt_get k account' =
         (if k \<in> {JSON_USER_ACCOUNT_SLOT_ATTEMPTING_TO_FILL, JSON_USER_ACCOUNT_SLOT_TO_ATTEMPT_TO_FILL_IT_WITH} then None
          else if k = JSON_USER_ACCOUNT_BALANCE then Some (show_int (balance - paid)) else pt_get k account))
    \<and> campaign_index campaign' = Some (i + 1)
    \<and> pt_get JSON_AD_SPACE_CAMPAIGN_SLOT_LENGTH_HOURS campaign' = pt_get JSON_AD_SPACE_CAMPAIGN_SLOT_LENGTH_HOURS campaign"
proof -
  let ?account = "debitted_and_unlocked (balance - paid) account" and ?campaign = "refilled_campaign campaign price start bought (i + 1)"
  have "\<forall>k. pt_get k ?account =
      (if k \<in> {JSON_USER_ACCOUNT_SLOT_ATTEMPTING_TO_FILL, JSON_USER_ACCOUNT_SLOT_TO_ATTEMPT_TO_FILL_IT_WITH} then None
       else if k = JSON_USER_ACCOUNT_BALANCE then Some (show_int (balance - paid)) else pt_get k account)"
    by (simp add: debitted_and_unlocked_def)
  moreover have "pt_get JSON_AD_SPACE_CAMPAIGN_SLOT_LENGTH_HOURS ?campaign = pt_get JSON_AD_SPACE_CAMPAIGN_SLOT_LENGTH_HOURS campaign"
    by (simp add: refilled_campaign_def)
  ultimately show ?thesis using audit_completes [OF assms] by blast
qed

definition demo_slot :: ptree where
  "demo_slot = plain_doc [(JSON_AD_SPACE_CAMPAIGN_SLOT_FILLED_WITH, ''filler''), (JSON_SLOT_PURCHASE_PRICE, ''300''),
     (JSON_SLOT_PURCHASE_TIMESTAMP, ''7''), (JSON_SLOT_START_TIMESTAMP, ''8'')]"

definition demo_buyer :: ptree where
  "demo_buyer = plain_doc [(JSON_USER_ACCOUNT_BALANCE, ''1000''),
     (JSON_USER_ACCOUNT_SLOT_ATTEMPTING_TO_FILL, slot_key (4 + 1))]"

lemma demo_prices:
  "lexical_cast_longlong ''300'' = Some 300"
  "Option.bind (pt_get JSON_USER_ACCOUNT_BALANCE demo_buyer) lexical_cast_longlong = Some 1000"
  by (simp_all add: demo_buyer_def lexical_cast_longlong_def read_range_def read_nat_def
      digit_value_def is_digit_def)

theorem interrupted_purchase_is_completed_witness:
  "\<exists>s' account'. audit tree_json (connected_client pt_empty
      [Answer LCB_SUCCESS (demo_campaign ''4'') 1, Answer LCB_SUCCESS demo_slot 2, Answer LCB_SUCCESS (demo_campaign ''4'') 3,
       Answer LCB_KEY_ENOENT pt_empty 0, Answer LCB_SUCCESS (plain_doc [(JSON_SLOT_FILLER_USERNAME, ''bob'')]) 5,
       Answer LCB_SUCCESS demo_buyer 6, Answer LCB_SUCCESS pt_empty 7, Answer LCB_SUCCESS pt_empty 8,
       Answer LCB_SUCCESS pt_empty 9]) = Ret Continue s'
    \<and> DidStore (userAccountKey ''bob'') account' LCB_SET 6 (Answer LCB_SUCCESS pt_empty 8) \<in> set (effects s')
    \<and> pt_get JSON_USER_ACCOUNT_BALANCE account' = Some (show_int 700)"
proof -
  let ?s = "connected_client pt_empty
      [Answer LCB_SUCCESS (demo_campaign ''4'') 1, Answer LCB_SUCCESS demo_slot 2, Answer LCB_SUCCESS (demo_campaign ''4'') 3,
       Answer LCB_KEY_ENOENT pt_empty 0, Answer LCB_SUCCESS (plain_doc [(JSON_SLOT_FILLER_USERNAME, ''bob'')]) 5,
       Answer LCB_SUCCESS demo_buyer 6, Answer LCB_SUCCESS pt_empty 7, Answer LCB_SUCCESS pt_empty 8,
       Answer LCB_SUCCESS pt_empty 9]"
  have d: "pt_get JSON_AD_SPACE_CAMPAIGN_SLOT_FILLED_WITH demo_slot = Some ''filler''"
    "pt_get JSON_SLOT_PURCHASE_PRICE demo_slot = Some ''300''"
    "pt_get JSON_SLOT_PURCHASE_TIMESTAMP demo_slot = Some ''7''" "pt_get JSON_SLOT_START_TIMESTAMP demo_slot = Some ''8''"
    "pt_get JSON_USER_ACCOUNT_SLOT_ATTEMPTING_TO_FILL demo_buyer = Some (slot_key (4 + 1))"
    by (simp_all add: demo_slot_def demo_buyer_def)
  from interrupted_purchase_is_completed [of ?s "demo_campaign ''4''" 1 demo_slot 2 "demo_campaign ''4''" 3 pt_empty 0
      "plain_doc [(JSON_SLOT_FILLER_USERNAME, ''bob'')]" 5 demo_buyer 6 pt_empty 7 pt_empty 8 pt_empty 9 "[]" tree_json
      "demo_campaign ''4''" 4 demo_slot "''filler''" "''300''" 300 "''7''" "''8''" _ "''bob''" demo_buyer 1000]
  obtain s' account' where "audit tree_json ?s = Ret Continue s'"
      "DidStore (userAccountKey ''bob'') account' LCB_SET 6 (Answer LCB_SUCCESS pt_empty 8) \<in> set (effects s')"
      "pt_get JSON_USER_ACCOUNT_BALANCE account' = Some (show_int 700)"
    by (auto simp: d demo_prices demo_campaign_index)
  then show ?thesis by blast
qed

subsection \<open>Errors\<close>

text \<open>
  When the get of the slot ends in an error other than "not found", the code reports it and goes on with the
  document it got last, which is the campaign document: the audit looks for the slot filler in the campaign and, when
  no transaction exists, the missing field ends the monitor by an exception.
\<close>

lemma failed_slot_read_uses_the_campaign_document:
  assumes "m_CouchbaseCreated s"
    and "cluster_replies s = Answer LCB_SUCCESS d1 c1 # Answer (LCB_OTHER e) d2 c2 # Answer LCB_SUCCESS d3 c3
        # Answer LCB_KEY_ENOENT d4 c4 # rs"
    and "read_json J d1 = Some campaign" and "read_json J d3 = Some campaign"
    and "campaign_index campaign = Some i" and "i < 2 ^ 31 - 1"
    and "pt_get JSON_AD_SPACE_CAMPAIGN_SLOT_FILLED_WITH campaign = None"
  shows "\<exists>s'. audit J s = Throws (Ptree_bad_path JSON_AD_SPACE_CAMPAIGN_SLOT_FILLED_WITH) s'
    \<and> cluster_replies s' = rs \<and> Out Cerr \<in> set (effects s')"
proof -
  have "wrap32 (i + 1) = i + 1" using campaign_index_range [OF assms(5)] assms(6) by simp
  then show ?thesis using assms
    by (simp add: audit_run andthen_def Let_def prog_run record_event_def emit_def effects_def
        lcbErrorTypeIsEligibleForExponentialBackoff_def)
qed

lemma failed_slot_read_uses_the_campaign_document_witness:
  "\<exists>s'. audit tree_json (connected_client pt_empty [Answer LCB_SUCCESS (demo_campaign ''4'') 1, Answer (LCB_OTHER 13) pt_empty 0,
      Answer LCB_SUCCESS (demo_campaign ''4'') 1, Answer LCB_KEY_ENOENT pt_empty 0])
    = Throws (Ptree_bad_path JSON_AD_SPACE_CAMPAIGN_SLOT_FILLED_WITH) s'"
proof -
  let ?s = "connected_client pt_empty [Answer LCB_SUCCESS (demo_campaign ''4'') 1, Answer (LCB_OTHER 13) pt_empty 0,
      Answer LCB_SUCCESS (demo_campaign ''4'') 1, Answer LCB_KEY_ENOENT pt_empty 0]"
  have "pt_get JSON_AD_SPACE_CAMPAIGN_SLOT_FILLED_WITH (demo_campaign ''4'') = None" by (simp add: demo_campaign_def)
  with failed_slot_read_uses_the_campaign_document [of ?s "demo_campaign ''4''" 1 13 pt_empty 0 "demo_campaign ''4''" 1
      pt_empty 0 "[]" tree_json "demo_campaign ''4''" 4]
  show ?thesis by (auto simp: demo_campaign_index)
qed

text \<open>
  When the repair of the transaction ends in an unexpected database error, the monitor destroys the Couchbase instance
  directly and returns 1 while the member that says the instance exists stays true: the destructor of the
  base class, which looks at that member, destroys it a second time.
\<close>

lemma fatal_error_leaves_the_instance_marked:
  assumes "m_CouchbaseCreated s"
    and "cluster_replies s = Answer (LCB_OTHER e) d c # rs"
  shows "\<exists>s'. recover_slot J key idx pt4 pt2 cc s = Ret (ReturnCode 1) s'
    \<and> effects s' = effects s @ [DidGet (transactionKey ''d3fault'' ''0'' idx) (Answer (LCB_OTHER e) d c), Out Cerr, Out LcbDestroy]
    \<and> m_CouchbaseCreated s'"
  using assms by (simp add: audit_run andthen_def Let_def prog_run record_event_def emit_def effects_def
      lcbErrorTypeIsEligibleForExponentialBackoff_def)

lemma fatal_error_leaves_the_instance_marked_witness:
  "\<exists>s'. recover_slot tree_json ''slot'' ''5'' pt_empty pt_empty 0 (connected_client pt_empty [Answer (LCB_OTHER 7) pt_empty 0])
      = Ret (ReturnCode 1) s' \<and> m_CouchbaseCreated s'"
proof -
  let ?s = "connected_client pt_empty [Answer (LCB_OTHER 7) pt_empty 0] :: ptree monitor"
  have "m_CouchbaseCreated ?s" "cluster_replies ?s = Answer (LCB_OTHER 7) pt_empty 0 # []" by simp_all
  from fatal_error_leaves_the_instance_marked [OF this, of tree_json "''slot''" "''5''" pt_empty pt_empty 0]
  show ?thesis by auto
qed

end
