(* ===== verification/KeyPages.thy ===== *)
theory KeyPages
  imports Couchbase "HOL-Library.Sublist"
begin

section \<open>The bitcoin key pages: database initializer and page adder\<close>

text \<open>
  \<open>Solutions/Abc2dbInitializer\<close> and \<open>Solutions/Abc2hugeBitcoinKeyListPageAdder\<close>: both read a file with one
  bitcoin key on each line and put the keys into documents. A huge page holds a hundred ranges of a hundred keys; the
  initializer first fills a thousand sets of a hundred keys. The file is a list of lines, whether it could be opened is
  an input, and \<open>QString::trimmed\<close> is modelled for the ASCII white space.

  The second half of each loop is, in the words of the source, "basically copy paste": the common part
  is \<open>fill_range\<close> on the common local variables (\<open>page_builder\<close>); each tool has its own page counter.
\<close>

datatype page_output =
    Connected | OpenFailed | ReadingKeys | Adding string | NotIn10kIncrements | AllRead
  | DoneInitializing | DoneAddingHugeBitcoinKeyListPages | DoneInitializingAbc2db

type_synonym 'j pages = "('j, page_output) lcb_user"

record page_builder =
  hundredKeysCounter :: nat
  hundredRangesCounter :: nat
  commaSeparatedRangeBeingBuilt :: string
  pagePt :: ptree

definition new_builder :: page_builder where
  "new_builder = \<lparr>hundredKeysCounter = 0, hundredRangesCounter = 0, commaSeparatedRangeBeingBuilt = [], pagePt = pt_empty\<rparr>"

text \<open>\<open>QString::toInt\<close>: zero when the text is not a number, and the code does not look at \<open>convertOk\<close>.\<close>

definition toInt :: "string \<Rightarrow> int" where
  "toInt l = (case qstring_to_int l of None \<Rightarrow> 0 | Some i \<Rightarrow> i)"

definition fill_range :: "string \<Rightarrow> page_builder \<Rightarrow> page_builder" where
  "fill_range currentLine b =
    (let comma = (if hundredKeysCounter b > 0 then '','' else []);
         range = commaSeparatedRangeBeingBuilt b @ comma @ currentLine;
         n = hundredKeysCounter b + 1
     in if n = 100 then
          b\<lparr>pagePt := pt_put (''keyRange'' @ show_nat (hundredRangesCounter b)) range (pagePt b),
            commaSeparatedRangeBeingBuilt := [], hundredKeysCounter := 0,
            hundredRangesCounter := hundredRangesCounter b + 1\<rparr>
        else b\<lparr>commaSeparatedRangeBeingBuilt := range, hundredKeysCounter := n\<rparr>)"

text \<open>Store one document with an add; \<open>False\<close> makes the caller return.\<close>

definition add_doc :: "'j json \<Rightarrow> string \<Rightarrow> ptree \<Rightarrow> ('j pages, bool) prog" where
  "add_doc J key doc =
    andthen (couchbaseStoreRequestWithExponentialBackoffRequiringSuccess key (write_json J doc) LCB_ADD 0) (\<lambda>ok.
    if \<not> ok then return False else andthen (emit (Adding key)) (\<lambda>_. return True))"

subsection \<open>The page adder\<close>

definition next_page :: "string \<Rightarrow> string" where
  "next_page currentPage = show_int (wrap32 (toInt currentPage + 1))"

definition adder_line ::
  "'j json \<Rightarrow> string \<Rightarrow> page_builder \<times> string \<Rightarrow> ('j pages, (page_builder \<times> string) option) prog" where
  "adder_line J line st =
    (let currentLine = trimmed line; b = fst st; currentPage = snd st; b' = fill_range currentLine b in
     if currentLine = [] then return (Some st)
     else if hundredKeysCounter b + 1 = 100 \<and> hundredRangesCounter b' = 100 then
       andthen (add_doc J (hugeBitcoinKeyListPageKey currentPage) (pagePt b')) (\<lambda>ok.
       if \<not> ok then return None
       else return (Some (b'\<lparr>pagePt := pt_empty, hundredRangesCounter := 0\<rparr>, next_page currentPage)))
     else return (Some (b', currentPage)))"

fun each_line ::
  "(string \<Rightarrow> 'b \<Rightarrow> ('s, 'b option) prog) \<Rightarrow> string list \<Rightarrow> 'b \<Rightarrow> ('s, 'b option) prog" where
  "each_line f [] st = return (Some st)"
| "each_line f (l # ls) st =
    andthen (f l st) (\<lambda>r. case r of None \<Rightarrow> return None | Some st' \<Rightarrow> each_line f ls st')"

definition addHugeBitcoinKeyListPages ::
  "'j json \<Rightarrow> connect_env \<Rightarrow> string \<Rightarrow> string list option \<Rightarrow> ('j pages, unit) prog" where
  "addHugeBitcoinKeyListPages J env nonExistentStartingPageIndex file =
    andthen (connectToCouchbase env) (\<lambda>connected.
    if \<not> connected then return ()
    else
    andthen (emit Connected) (\<lambda>_.
    case file of None \<Rightarrow> emit OpenFailed
    | Some lines \<Rightarrow>
    andthen (emit ReadingKeys) (\<lambda>_.
    andthen (each_line (adder_line J) lines (new_builder, nonExistentStartingPageIndex)) (\<lambda>r.
    case r of None \<Rightarrow> return ()
    | Some st \<Rightarrow>
    if pt_kids (pagePt (fst st)) \<noteq> [] then emit NotIn10kIncrements
    else andthen (emit AllRead) (\<lambda>_. emit DoneAddingHugeBitcoinKeyListPages)))))"

subsection \<open>The initializer\<close>

record init_state =
  builder :: page_builder
  thousandSetsInDbCounter :: nat
  hugeBitcoinKeyListPageCounter :: nat

definition new_init_state :: init_state where
  "new_init_state = \<lparr>builder = new_builder, thousandSetsInDbCounter = 0, hugeBitcoinKeyListPageCounter = 0\<rparr>"

definition fill_set_line :: "'j json \<Rightarrow> string \<Rightarrow> init_state \<Rightarrow> ('j pages, init_state option) prog" where
  "fill_set_line J currentLine st =
    (let b = builder st; n = hundredKeysCounter b;
         pt = pt_put (''key'' @ show_nat n) currentLine (pagePt b);
         setN = show_nat (thousandSetsInDbCounter st)
     in if n + 1 = 100 then
       andthen (add_doc J (bitcoinKeySetPageKey setN ''0'') pt) (\<lambda>ok.
       if \<not> ok then return None
       else
       andthen (add_doc J (bitcoinKeySetCurrentPageKey setN) (pt_put ''currentPage'' ''0'' pt_empty)) (\<lambda>ok.
       if \<not> ok then return None
       else return (Some (st\<lparr>builder := b\<lparr>pagePt := pt_empty, hundredKeysCounter := 0\<rparr>,
         thousandSetsInDbCounter := thousandSetsInDbCounter st + 1\<rparr>))))
     else return (Some (st\<lparr>builder := b\<lparr>pagePt := pt, hundredKeysCounter := n + 1\<rparr>\<rparr>)))"

definition fill_page_line :: "'j json \<Rightarrow> string \<Rightarrow> init_state \<Rightarrow> ('j pages, init_state option) prog" where
  "fill_page_line J currentLine st =
    (let b = builder st; b' = fill_range currentLine b in
     if hundredKeysCounter b + 1 = 100 \<and> hundredRangesCounter b' = 100 then
       andthen (add_doc J (hugeBitcoinKeyListPageKey (show_nat (hugeBitcoinKeyListPageCounter st))) (pagePt b')) (\<lambda>ok.
       if \<not> ok then return None
       else return (Some (st\<lparr>builder := b'\<lparr>pagePt := pt_empty, hundredRangesCounter := 0\<rparr>,
         hugeBitcoinKeyListPageCounter := hugeBitcoinKeyListPageCounter st + 1\<rparr>)))
     else return (Some (st\<lparr>builder := b'\<rparr>)))"

definition init_line :: "'j json \<Rightarrow> string \<Rightarrow> init_state \<Rightarrow> ('j pages, init_state option) prog" where
  "init_line J line st =
    (let currentLine = trimmed line in
     if currentLine = [] then return (Some st)
     else if thousandSetsInDbCounter st < 1000 then fill_set_line J currentLine st
     else fill_page_line J currentLine st)"

definition finish_initializing :: "'j json \<Rightarrow> init_state \<Rightarrow> ('j pages, unit) prog" where
  "finish_initializing J st =
    (if pt_kids (pagePt (builder st)) \<noteq> [] then emit NotIn10kIncrements
     else
     andthen (add_doc J hugeBitcoinKeyListCurrentPageKey (pt_put ''currentPage'' ''0'' (pagePt (builder st)))) (\<lambda>ok.
     if \<not> ok then return ()
     else andthen (emit AllRead) (\<lambda>_. emit DoneInitializing)))"

definition initializeAbc2dbActual ::
  "'j json \<Rightarrow> connect_env \<Rightarrow> string list option \<Rightarrow> ('j pages, unit) prog" where
  "initializeAbc2dbActual J env file =
    andthen (connectToCouchbase env) (\<lambda>connected.
    if \<not> connected then return ()
    else
    andthen (emit Connected) (\<lambda>_.
    case file of None \<Rightarrow> emit OpenFailed
    | Some lines \<Rightarrow>
    andthen (emit ReadingKeys) (\<lambda>_.
    andthen (each_line (init_line J) lines new_init_state) (\<lambda>r.
    case r of None \<Rightarrow> return () | Some st \<Rightarrow> finish_initializing J st))))"

definition initializeAbc2db ::
  "'j json \<Rightarrow> connect_env \<Rightarrow> string list option \<Rightarrow> ('j pages, unit) prog" where
  "initializeAbc2db J env file =
    andthen (initializeAbc2dbActual J env file) (\<lambda>_. emit DoneInitializingAbc2db)"

subsection \<open>What the documents must hold\<close>

text \<open>The keys of a file, and the page of a list of keys: a hundred to a range, separated by commas.\<close>

definition keys_of :: "string list \<Rightarrow> string list" where
  "keys_of lines = filter (\<lambda>l. l \<noteq> []) (map trimmed lines)"

definition range_doc :: "string list \<Rightarrow> ptree" where
  "range_doc ks = Node [] (map (\<lambda>i. (''keyRange'' @ show_nat i,
      Node (join_at (CHR '','') (take 100 (drop (100 * i) ks))) [])) [0..<length ks div 100])"

definition set_doc :: "string list \<Rightarrow> ptree" where
  "set_doc ks = Node [] (map (\<lambda>i. (''key'' @ show_nat i, Node (ks ! i) [])) [0..<length ks])"

function pages_of :: "(nat \<Rightarrow> string) \<Rightarrow> nat \<Rightarrow> string list \<Rightarrow> (string \<times> ptree) list" where
  "pages_of name n ks = (if length ks < 10000 then []
     else (name n, range_doc (take 10000 ks)) # pages_of name (Suc n) (drop 10000 ks))"
  by pat_completeness auto
termination by (relation "measure (\<lambda>(name, n, ks). length ks)") auto

declare pages_of.simps [simp del]

definition builder_of :: "string list \<Rightarrow> page_builder" where
  "builder_of ks = \<lparr>hundredKeysCounter = length ks mod 100, hundredRangesCounter = length ks div 100,
     commaSeparatedRangeBeingBuilt = join_at (CHR '','') (drop (100 * (length ks div 100)) ks), pagePt = range_doc ks\<rparr>"

lemma join_at_snoc: "join_at c (ps @ [p]) = (if ps = [] then p else join_at c ps @ c # p)"
  by (induction ps rule: induct_list012) auto

lemma put_kid_new: "k \<notin> fst ` set kids \<Longrightarrow> put_kid k f kids = kids @ [(k, f None)]"
  by (induction kids) auto

lemma builder_of_Nil [simp]: "builder_of [] = new_builder"
  by (simp add: builder_of_def new_builder_def range_doc_def pt_empty_def)

lemma rest_is_mod: "length (drop (100 * (length ks div 100)) ks) = length ks mod 100"
  by (simp add: minus_mult_div_eq_mod)

lemma range_kids_cong:
  assumes "length ks div 100 = length ks' div 100" and "\<And>i. i < 100 * (length ks div 100) \<Longrightarrow> ks ! i = ks' ! i"
  shows "range_doc ks = range_doc ks'"
proof -
  have "take 100 (drop (100 * i) ks) = take 100 (drop (100 * i) ks')" if "i < length ks div 100" for i
  proof (rule nth_equalityI)
    have "100 * i + 100 \<le> length ks" "100 * i + 100 \<le> length ks'" using that assms(1) by auto
    then show "length (take 100 (drop (100 * i) ks)) = length (take 100 (drop (100 * i) ks'))" by simp
    show "take 100 (drop (100 * i) ks) ! j = take 100 (drop (100 * i) ks') ! j"
      if "j < length (take 100 (drop (100 * i) ks))" for j
      using that \<open>i < length ks div 100\<close> \<open>100 * i + 100 \<le> length ks\<close> \<open>100 * i + 100 \<le> length ks'\<close>
      by (simp add: assms(2))
  qed
  then show ?thesis using assms(1) by (simp add: range_doc_def)
qed

lemma fill_range_builder: "fill_range k (builder_of ks) = builder_of (ks @ [k])"
proof (cases "length ks mod 100 = 99")
  case False
  then have d: "Suc (length ks) div 100 = length ks div 100" "Suc (length ks) mod 100 = Suc (length ks mod 100)"
    "Suc (length ks mod 100) \<noteq> 100"
    by (simp_all add: div_Suc mod_Suc)
  have "range_doc (ks @ [k]) = range_doc ks"
    by (rule range_kids_cong) (use d in \<open>auto simp: nth_append\<close>)
  moreover have "length ks mod 100 > 0 \<longleftrightarrow> drop (100 * (length ks div 100)) ks \<noteq> []"
    using rest_is_mod [of ks] by (metis length_greater_0_conv)
  ultimately show ?thesis using d
    by (auto simp: fill_range_def builder_of_def Let_def join_at_snoc)
next
  case True
  then have d: "Suc (length ks) div 100 = Suc (length ks div 100)" "Suc (length ks) mod 100 = 0"
    by (simp_all add: div_Suc mod_Suc)
  let ?n = "length ks div 100"
  have len: "length (drop (100 * ?n) ks) = 99" using rest_is_mod [of ks] True by simp
  then have ne: "drop (100 * ?n) ks \<noteq> []" by (metis length_0_conv zero_neq_numeral)
  have old: "take 100 (drop (100 * i) (ks @ [k])) = take 100 (drop (100 * i) ks)" if "i < ?n" for i
    using that by (auto simp: take_append)
  have new: "take 100 (drop (100 * ?n) (ks @ [k])) = drop (100 * ?n) ks @ [k]"
    using len by simp
  have "\<not> (\<exists>i<?n. show_nat ?n = show_nat i)" by simp
  then have kids: "''keyRange'' @ show_nat ?n \<notin> fst ` set (pt_kids (range_doc ks))"
    by (auto simp: range_doc_def)
  have "range_doc (ks @ [k]) = pt_put (''keyRange'' @ show_nat ?n) (join_at (CHR '','') (drop (100 * ?n) ks) @ CHR '','' # k)
      (range_doc ks)"
    using d new ne old put_kid_new [OF kids]
    by (simp add: pt_put_def) (simp add: range_doc_def join_at_snoc)
  then show ?thesis using d True
    by (simp add: fill_range_def builder_of_def Let_def)
qed

subsection \<open>Stores in the order of the documents\<close>

text \<open>
  \<open>adds J docs es\<close>: the stores \<open>es\<close> add a prefix of \<open>docs\<close> and stop at the first failure;
  \<open>all_added J docs es\<close>: they add all of them.
\<close>

fun adds :: "'j json \<Rightarrow> (string \<times> ptree) list \<Rightarrow> ('j, 'o) event list \<Rightarrow> bool" where
  "adds J docs [] = True"
| "adds J [] (e # es) = False"
| "adds J ((k, d) # docs) (e # es) =
    (\<exists>r. e = DidStore k (write_json J d) LCB_ADD 0 r \<and> (if succeeded r then adds J docs es else es = []))"

fun all_added :: "'j json \<Rightarrow> (string \<times> ptree) list \<Rightarrow> ('j, 'o) event list \<Rightarrow> bool" where
  "all_added J [] es = (es = [])"
| "all_added J (kd # docs) [] = False"
| "all_added J (kd # docs) (e # es) =
    (\<exists>r. e = DidStore (fst kd) (write_json J (snd kd)) LCB_ADD 0 r \<and> succeeded r \<and> all_added J docs es)"

lemma all_added_adds: "all_added J as es \<Longrightarrow> adds J bs fs \<Longrightarrow> adds J (as @ bs) (es @ fs)"
  by (induction J as es rule: all_added.induct) auto

lemma all_added_append: "all_added J as es \<Longrightarrow> all_added J bs fs \<Longrightarrow> all_added J (as @ bs) (es @ fs)"
  by (induction J as es rule: all_added.induct) auto

lemma all_added_is_adds: "all_added J docs es \<Longrightarrow> adds J docs es"
  using all_added_adds [of J docs es "[]" "[]"] by simp

lemma adds_more: "adds J as es \<Longrightarrow> adds J (as @ bs) es"
  by (induction J as es rule: adds.induct) auto

lemma all_added_shorter: "adds J as es \<Longrightarrow> all_added J (as @ bs) es \<Longrightarrow> all_added J as es"
  by (induction J as es rule: adds.induct) (auto split: if_splits elim: all_added.elims)

lemma all_added_rest: "all_added J as es \<Longrightarrow> all_added J (as @ bs) (es @ fs) \<Longrightarrow> all_added J bs fs"
  by (induction J as es rule: all_added.induct) auto

lemma runs_to_add_doc:
  assumes "m_CouchbaseCreated s"
    and "\<And>d c s'. effects s' = effects s @ [DidStore key (write_json J doc) LCB_ADD 0 (Answer LCB_SUCCESS d c), Out (Adding key)]
      \<Longrightarrow> m_CouchbaseCreated s' \<Longrightarrow> Q True s'"
    and "\<And>r s'. \<not> succeeded r \<Longrightarrow> effects s' = effects s @ [DidStore key (write_json J doc) LCB_ADD 0 r, ErrorOutput] \<Longrightarrow> Q False s'"
    and "\<And>s'. effects s' = effects s \<Longrightarrow> cluster_replies s' = [] \<Longrightarrow> E s'"
  shows "runs_to (add_doc J key doc) Q E s"
proof -
  have "runs_to (couchbaseStoreRequestWithExponentialBackoffRequiringSuccess key (write_json J doc) LCB_ADD 0)
      (\<lambda>ok. runs_to (if \<not> ok then return False else andthen (emit (Adding key)) (\<lambda>_. return True)) Q E) E s"
    using store_strict_cases [of s key "write_json J doc" LCB_ADD 0]
  proof (elim disjE exE conjE)
    fix r s' assume run: "couchbaseStoreRequestWithExponentialBackoffRequiringSuccess key (write_json J doc) LCB_ADD 0 s = Ret (succeeded r) s'"
      and eff: "strict_effect (DidStore key (write_json J doc) LCB_ADD 0) store_result r s s'"
    show ?thesis
    proof (cases "succeeded r")
      case True
      then obtain d c where r: "r = Answer LCB_SUCCESS d c" by (elim succeededE)
      show ?thesis using run eff r assms(2) [of "s'\<lparr>history := history s' @ [Out (Adding key)]\<rparr>" d c]
        by (simp add: runs_to_def [of "couchbaseStoreRequestWithExponentialBackoffRequiringSuccess key v st c" for v st c]
            strict_effect_def run_rules)
    next
      case False
      then show ?thesis using run eff assms(3) [of r s']
        by (simp add: runs_to_def strict_effect_def)
    qed
  qed (use assms(1,4) in \<open>simp_all add: runs_to_def idle_effect_def\<close>)
  then show ?thesis by (simp add: add_doc_def run_rules)
qed

text \<open>
  The other two ways in which the stores can end: the last of them failed, or the run is still waiting
  for the answer to the next one. \<open>carried_out\<close> says that nothing else keeps a document from being added.
\<close>

definition add_failed :: "('j, 'o) event list \<Rightarrow> bool" where
  "add_failed es \<longleftrightarrow> (\<exists>pre k v st c r. es = pre @ [DidStore k v st c r] \<and> \<not> succeeded r)"

definition carried_out ::
  "'j json \<Rightarrow> (string \<times> ptree) list \<Rightarrow> ('j pages, unit) outcome \<Rightarrow> ('j, page_output) event list \<Rightarrow> bool" where
  "carried_out J docs run es \<longleftrightarrow> all_added J docs es
     \<or> adds J docs es \<and> (add_failed es \<or> \<not> returns run \<and> cluster_replies (final_state run) = [])"

lemma all_added_no_failure: "all_added J docs es \<Longrightarrow> \<not> add_failed es"
proof (induction J docs es rule: all_added.induct)
  case (3 J kd docs e es)
  then show ?case by (cases es rule: rev_cases) (auto simp: add_failed_def append_eq_Cons_conv Cons_eq_append_conv)
qed (auto simp: add_failed_def)

lemma add_failed_append: "add_failed es \<Longrightarrow> add_failed (fs @ es)"
  by (auto simp: add_failed_def)

lemma add_failed_one [simp]:
  "add_failed [DidStore k v st c r] \<longleftrightarrow> \<not> succeeded r" "\<not> add_failed []"
  "add_failed [e, DidStore k v st c r] \<longleftrightarrow> \<not> succeeded r"
  by (auto simp: add_failed_def append_eq_Cons_conv Cons_eq_append_conv)

text \<open>When \<open>connectToCouchbase\<close> succeeds.\<close>

definition connected_by :: "connect_env \<Rightarrow> ('j, 'o, 'm) lcb_user_scheme \<Rightarrow> bool" where
  "connected_by env s \<longleftrightarrow> lcb_create_result env = LCB_SUCCESS \<and> lcb_connect_result env = LCB_SUCCESS
     \<and> lcb_connect_wait_result env = LCB_SUCCESS \<and> (configuration_new_seen env \<or> m_Connected s)"

lemma runs_to_connected:
  assumes "\<And>s'. connected_by env s \<Longrightarrow> effects s' = effects s \<Longrightarrow> m_CouchbaseCreated s' \<Longrightarrow> Q True s'"
    and "\<And>s'. \<not> connected_by env s \<Longrightarrow> effects s' = effects s @ [ErrorOutput] \<Longrightarrow> Q False s'"
  shows "runs_to (connectToCouchbase env) Q E s"
  unfolding connectToCouchbase_def destroyCouchbaseIfCreated_def configurationCallback_def
  using assms by (auto simp: run_rules effects_def connected_by_def)

fun all_docs :: "(string \<Rightarrow> 'b \<Rightarrow> 'b) \<Rightarrow> (string \<Rightarrow> 'b \<Rightarrow> (string \<times> ptree) list) \<Rightarrow> string list \<Rightarrow> 'b
    \<Rightarrow> (string \<times> ptree) list" where
  "all_docs nxt docs [] st = []"
| "all_docs nxt docs (l # ls) st = docs l st @ all_docs nxt docs ls (nxt l st)"

text \<open>The outputs of the lines: only reports of added documents.\<close>

fun quiet_line :: "('j, page_output) event \<Rightarrow> bool" where
  "quiet_line (Out (Adding k)) = True"
| "quiet_line (Out x) = False"
| "quiet_line e = True"

definition line_done ::
  "'j json \<Rightarrow> (string \<times> ptree) list \<Rightarrow> 'b \<Rightarrow> 'b option \<Rightarrow> ('j, page_output) event list \<Rightarrow> bool" where
  "line_done J docs st' r es \<longleftrightarrow> list_all quiet_line es
     \<and> (case r of None \<Rightarrow> adds J docs (filter is_store es) \<and> add_failed (filter is_store es)
        | Some st \<Rightarrow> st = st' \<and> all_added J docs (filter is_store es))"

definition line_unfinished ::
  "'j json \<Rightarrow> (string \<times> ptree) list \<Rightarrow> ('j, page_output) event list \<Rightarrow> bool" where
  "line_unfinished J docs es \<longleftrightarrow> list_all quiet_line es \<and> adds J docs (filter is_store es)"

text \<open>A line that is done and goes on leaves the client alive; one that is not done waits for an answer.\<close>

abbreviation line_ret ::
  "'j json \<Rightarrow> (string \<times> ptree) list \<Rightarrow> 'b \<Rightarrow> 'j pages \<Rightarrow> 'b option \<Rightarrow> 'j pages \<Rightarrow> bool" where
  "line_ret J docs st' s \<equiv> \<lambda>r s'. does s (line_done J docs st' r) s' \<and> (r \<noteq> None \<longrightarrow> m_CouchbaseCreated s')"

abbreviation line_waits :: "'j json \<Rightarrow> (string \<times> ptree) list \<Rightarrow> 'j pages \<Rightarrow> 'j pages \<Rightarrow> bool" where
  "line_waits J docs s \<equiv> \<lambda>s'. does s (line_unfinished J docs) s' \<and> cluster_replies s' = []"

text \<open>
  The interface of a loop over lines: one line adds its documents and moves the local variables on, or
  it stops. The lemma is the whole loop.
\<close>

locale line_writer =
  fixes J :: "'j json"
    and handle :: "string \<Rightarrow> 'b \<Rightarrow> ('j pages, 'b option) prog"
    and nxt :: "string \<Rightarrow> 'b \<Rightarrow> 'b"
    and docs :: "string \<Rightarrow> 'b \<Rightarrow> (string \<times> ptree) list"
  assumes handle_line: "m_CouchbaseCreated s \<Longrightarrow>
    runs_to (handle l st) (line_ret J (docs l st) (nxt l st) s) (line_waits J (docs l st) s) s"
begin

lemma loop:
  assumes "m_CouchbaseCreated s"
  shows "runs_to (each_line handle ls st) (line_ret J (all_docs nxt docs ls st) (fold nxt ls st) s)
    (line_waits J (all_docs nxt docs ls st) s) s"
  using assms
proof (induction ls arbitrary: st s)
  case Nil
  then show ?case by (simp add: run_rules does_idle line_done_def)
next
  case (Cons l ls)
  let ?rest = "all_docs nxt docs ls (nxt l st)"
  show ?case
    unfolding each_line.simps runs_to_andthen
  proof (rule runs_to_mono [OF handle_line [OF Cons.prems, of l st]])
    fix s' assume "line_waits J (docs l st) s s'"
    then show "line_waits J (all_docs nxt docs (l # ls) st) s s'"
      by (auto simp: does_def line_unfinished_def intro: adds_more)
  next
    fix r s' assume ret: "line_ret J (docs l st) (nxt l st) s r s'"
    then obtain es where es: "effects s' = effects s @ es" "line_done J (docs l st) (nxt l st) r es"
      by (auto simp: does_def)
    show "runs_to (case r of None \<Rightarrow> return None | Some st' \<Rightarrow> each_line handle ls st')
        (line_ret J (all_docs nxt docs (l # ls) st) (fold nxt (l # ls) st) s)
        (line_waits J (all_docs nxt docs (l # ls) st) s) s'"
    proof (cases r)
      case None
      then show ?thesis using es
        by (auto simp: run_rules does_known line_done_def intro: adds_more)
    next
      case (Some st')
      then have "m_CouchbaseCreated s'" using ret by simp
      note IH = Cons.IH [OF this, of st']
      show ?thesis unfolding Some option.case
        by (rule runs_to_mono [OF IH]; elim conjE; intro conjI; (erule does_after [OF _ es(1)])?)
          (use es(2) Some in \<open>auto simp: line_done_def line_unfinished_def split: option.splits
            intro: all_added_adds all_added_append add_failed_append\<close>)
    qed
  qed
qed

end

subsection \<open>The page adder refines the pages of its keys\<close>

definition page_full :: "string \<Rightarrow> page_builder \<Rightarrow> bool" where
  "page_full l b \<longleftrightarrow> hundredKeysCounter b + 1 = 100 \<and> hundredRangesCounter (fill_range l b) = 100"

definition after_page :: "page_builder \<Rightarrow> page_builder" where
  "after_page b = b\<lparr>pagePt := pt_empty, hundredRangesCounter := 0\<rparr>"

definition adder_next :: "string \<Rightarrow> page_builder \<times> string \<Rightarrow> page_builder \<times> string" where
  "adder_next line st = (let l = trimmed line; b = fill_range l (fst st) in
     if l = [] then st else if page_full l (fst st) then (after_page b, next_page (snd st)) else (b, snd st))"

definition adder_docs :: "string \<Rightarrow> page_builder \<times> string \<Rightarrow> (string \<times> ptree) list" where
  "adder_docs line st = (let l = trimmed line in
     if l \<noteq> [] \<and> page_full l (fst st) then [(hugeBitcoinKeyListPageKey (snd st), pagePt (fill_range l (fst st)))] else [])"

lemmas line_defs = line_done_def line_unfinished_def page_full_def after_page_def Let_def

interpretation adder: line_writer J "adder_line J" adder_next adder_docs for J :: "'j json"
proof unfold_locales
  fix l st and s :: "'j pages"
  assume "m_CouchbaseCreated s"
  then show "runs_to (adder_line J l st) (line_ret J (adder_docs l st) (adder_next l st) s) (line_waits J (adder_docs l st) s) s"
    unfolding adder_line_def adder_docs_def adder_next_def line_defs
    by (auto simp: run_rules does_idle intro!: runs_to_add_doc) (auto simp: run_rules does_known)
qed

lemma page_full_builder: "length ks < 10000 \<Longrightarrow> page_full k (builder_of ks) \<longleftrightarrow> length ks = 9999"
  unfolding page_full_def fill_range_builder by (auto simp: builder_of_def)

lemma after_page_builder: "length ks = 10000 \<Longrightarrow> after_page (builder_of ks) = builder_of []"
  by (simp add: after_page_def builder_of_def new_builder_def range_doc_def pt_empty_def)

definition leftover :: "string list \<Rightarrow> string list" where
  "leftover ks = drop (10000 * (length ks div 10000)) ks"

lemma leftover_short: "length ks < 10000 \<Longrightarrow> leftover ks = ks"
  by (simp add: leftover_def)

lemma leftover_page: "length ks = 10000 \<Longrightarrow> leftover (ks @ ls) = leftover ls"
  using div_add_self1 [of 10000 "length ls"] by (simp add: leftover_def)

lemma keys_of_Cons: "keys_of (l # ls) = (if trimmed l = [] then keys_of ls else trimmed l # keys_of ls)"
  and keys_of_Nil [simp]: "keys_of [] = []"
  by (simp_all add: keys_of_def)

lemma pages_of_short: "length ks < 10000 \<Longrightarrow> pages_of name n ks = []"
  by (simp add: pages_of.simps)

lemma pages_of_page: "length ks = 10000 \<Longrightarrow> pages_of name n (ks @ ls) = (name n, range_doc ks) # pages_of name (Suc n) ls"
  by (subst pages_of.simps) simp

lemma pagePt_builder [simp]: "pagePt (builder_of ks) = range_doc ks"
  by (simp add: builder_of_def)

definition adder_name :: "string \<Rightarrow> nat \<Rightarrow> string" where
  "adder_name start n = hugeBitcoinKeyListPageKey ((next_page ^^ n) start)"

lemma adder_step:
  "trimmed l = [] \<Longrightarrow> adder_next l st = st" "trimmed l = [] \<Longrightarrow> adder_docs l st = []"
  "trimmed l \<noteq> [] \<Longrightarrow> length ks < 9999 \<Longrightarrow> adder_next l (builder_of ks, p) = (builder_of (ks @ [trimmed l]), p)"
  "trimmed l \<noteq> [] \<Longrightarrow> length ks < 9999 \<Longrightarrow> adder_docs l (builder_of ks, p) = []"
  "trimmed l \<noteq> [] \<Longrightarrow> length ks = 9999 \<Longrightarrow> adder_next l (builder_of ks, p) = (builder_of [], next_page p)"
  "trimmed l \<noteq> [] \<Longrightarrow> length ks = 9999
    \<Longrightarrow> adder_docs l (builder_of ks, p) = [(hugeBitcoinKeyListPageKey p, range_doc (ks @ [trimmed l]))]"
  using after_page_builder [of "ks @ [trimmed l]"]
  by (simp_all add: adder_docs_def adder_next_def Let_def page_full_builder fill_range_builder)

lemma adder_pages:
  assumes "length ks < 10000"
  shows "all_docs adder_next adder_docs ls (builder_of ks, (next_page ^^ n) start)
        = pages_of (adder_name start) n (ks @ keys_of ls)
    \<and> fst (fold adder_next ls (builder_of ks, (next_page ^^ n) start)) = builder_of (leftover (ks @ keys_of ls))"
  using assms
proof (induction ls arbitrary: ks n)
  case Nil
  then show ?case by (simp add: pages_of_short leftover_short)
next
  case (Cons l ls)
  let ?k = "trimmed l"
  consider (blank) "?k = []" | (page) "?k \<noteq> []" "length (ks @ [?k]) = 10000" | (key) "?k \<noteq> []" "length (ks @ [?k]) < 10000"
    using Cons.prems by fastforce
  then show ?case
  proof cases
    case blank
    then show ?thesis using Cons by (simp add: adder_step keys_of_Cons)
  next
    case page
    then show ?thesis
      using Cons.IH [of "[]" "Suc n"] pages_of_page [OF page(2), of "adder_name start" n "keys_of ls"]
        leftover_page [OF page(2), of "keys_of ls"]
      by (simp add: adder_step keys_of_Cons) (simp add: adder_name_def)
  next
    case key
    then show ?thesis using Cons.IH [of "ks @ [?k]" n]
      by (simp add: adder_step keys_of_Cons)
  qed
qed

lemma range_doc_empty: "pt_kids (range_doc ks) = [] \<longleftrightarrow> length ks < 100"
  by (auto simp: range_doc_def)

lemma range_doc_data [simp]: "pt_data (range_doc ks) = []"
  by (simp add: range_doc_def)

lemma length_leftover: "length (leftover ks) = length ks mod 10000"
  by (simp add: leftover_def minus_mult_div_eq_mod)

definition adder_report :: "'j json \<Rightarrow> string \<Rightarrow> string list \<Rightarrow> ('j, page_output) event list \<Rightarrow> bool" where
  "adder_report J start lines es \<longleftrightarrow>
     (Out DoneAddingHugeBitcoinKeyListPages \<in> set es \<longleftrightarrow> Out Connected \<in> set es
       \<and> all_added J (pages_of (adder_name start) 0 (keys_of lines)) (filter is_store es)
       \<and> length (keys_of lines) mod 10000 < 100)"

lemma quiet_not_done:
  "list_all quiet_line es \<Longrightarrow> Out DoneAddingHugeBitcoinKeyListPages \<notin> set es"
  "list_all quiet_line es \<Longrightarrow> Out DoneInitializing \<notin> set es"
  by (auto simp: list_all_iff)

lemma filter_store_out [simp]: "filter is_store (Out x # es) = filter is_store es"
  "filter is_store (ErrorOutput # es) = filter is_store es"
  by simp_all

text \<open>
  What a tool that returns has done, and where one that does not return is: \<open>conn\<close> says whether the
  client was connected.
\<close>

abbreviation returned :: "'j json \<Rightarrow> (string \<times> ptree) list \<Rightarrow> bool \<Rightarrow> ('j, page_output) event list \<Rightarrow> bool" where
  "returned J docs conn es \<equiv>
     (if conn then all_added J docs (filter is_store es) \<or> adds J docs (filter is_store es) \<and> add_failed (filter is_store es)
      else filter is_store es = [])"

abbreviation still_waits :: "'j json \<Rightarrow> (string \<times> ptree) list \<Rightarrow> bool \<Rightarrow> 'j pages \<Rightarrow> 'j pages \<Rightarrow> bool" where
  "still_waits J docs conn s \<equiv> \<lambda>s'. does s (\<lambda>es. conn \<and> adds J docs (filter is_store es)) s' \<and> cluster_replies s' = []"

lemma carried_out_run:
  assumes "runs_to m (\<lambda>_. does s (returned J docs conn)) (still_waits J docs conn s) s"
  shows "does s (\<lambda>es. if conn then carried_out J docs (m s) (filter is_store es) else filter is_store es = [])
    (final_state (m s))"
  using assms by (cases "m s") (auto simp: runs_to_def does_def carried_out_def)

lemma adder_trace:
  defines "docs \<equiv> \<lambda>start lines. pages_of (adder_name start) 0 (keys_of lines)"
  shows "runs_to (addHugeBitcoinKeyListPages J env start (Some lines))
    (\<lambda>_. does s (\<lambda>es. returned J (docs start lines) (connected_by env s) es \<and> adder_report J start lines es))
    (still_waits J (docs start lines) (connected_by env s) s) s"
proof -
  let ?docs = "docs start lines"
  have pages: "all_docs adder_next adder_docs lines (new_builder, start) = ?docs"
    "fst (fold adder_next lines (new_builder, start)) = builder_of (leftover (keys_of lines))"
    using adder_pages [of "[]" lines 0 start] by (simp_all add: docs_def)
  have loop: "runs_to (each_line (adder_line J) lines (new_builder, start))
      (line_ret J ?docs (fold adder_next lines (new_builder, start)) t) (line_waits J ?docs t) t"
    if "m_CouchbaseCreated t" for t
    using adder.loop [OF that, where J = J and ls = lines and st = "(new_builder, start)"] by (simp only: pages)
  show ?thesis
    unfolding addHugeBitcoinKeyListPages_def option.case runs_to_andthen
    apply (rule runs_to_connected)
     apply (simp_all add: run_rules does_known adder_report_def)
    apply (rule runs_to_mono [OF loop])
    subgoal by simp
    subgoal for s' r s2
      by (cases r) (auto simp: does_def run_rules line_done_def pages range_doc_empty length_leftover docs_def
          dest: quiet_not_done(1) all_added_no_failure)
    subgoal for s' s2 by (auto simp: does_def line_unfinished_def)
    done
qed

text \<open>
  C26. Whatever the database answers, once connected the page adder adds (never overwrites) exactly the documents of the
  specification in their order: page after page from the given index on, each with a hundred ranges of a hundred
  consecutive keys of the file, joined by commas. All of them are added, unless an add fails, which is then the last
  store, or the answer to the next add has not come yet. Without a connection nothing is stored.
\<close>

theorem page_adder_adds_the_pages:
  "does s (\<lambda>es. if connected_by env s
      then carried_out J (pages_of (adder_name start) 0 (keys_of lines))
        (addHugeBitcoinKeyListPages J env start (Some lines) s) (filter is_store es)
      else filter is_store es = [])
    (final_state (addHugeBitcoinKeyListPages J env start (Some lines) s))"
  by (rule carried_out_run, rule runs_to_mono [OF adder_trace]) (auto elim: does_mono)

text \<open>
  A run of the page adder that returns reports success exactly when it connected, every page was added and fewer than a
  hundred keys were left over: up to 99 keys at the end of a file whose length is not a multiple of ten thousand
  are in no document, and the check on the increments does not see them.
\<close>

lemma page_adder_success_report:
  assumes "addHugeBitcoinKeyListPages J env start (Some lines) s = Ret () s'"
  shows "does s (\<lambda>es. Out DoneAddingHugeBitcoinKeyListPages \<in> set es \<longleftrightarrow> Out Connected \<in> set es
       \<and> all_added J (pages_of (adder_name start) 0 (keys_of lines)) (filter is_store es)
       \<and> length (keys_of lines) mod 10000 < 100) s'"
  using runs_to_Ret [OF adder_trace assms] by (rule does_mono) (simp add: adder_report_def)

definition demo_env :: connect_env where
  "demo_env = \<lparr>lcb_create_result = LCB_SUCCESS, lcb_connect_result = LCB_SUCCESS,
     lcb_connect_wait_result = LCB_SUCCESS, configuration_new_seen = True\<rparr>"

lemma page_adder_success_report_witness:
  "\<exists>s'. addHugeBitcoinKeyListPages tree_json demo_env ''3'' (Some [''1abc'']) (connected_client pt_empty []) = Ret () s'
    \<and> Out DoneAddingHugeBitcoinKeyListPages \<in> set (effects s') \<and> filter is_store (effects s') = []"
proof -
  let ?s = "connected_client pt_empty [] :: ptree pages"
  let ?f = "addHugeBitcoinKeyListPages tree_json demo_env ''3'' (Some [''1abc'']) ?s"
  have keys: "keys_of [''1abc''] = [''1abc'']" by (simp add: keys_of_def trimmed_def is_space_def)
  have "\<exists>s'. ?f = Ret () s' \<and> effects s' = [Out Connected, Out ReadingKeys, Out AllRead, Out DoneAddingHugeBitcoinKeyListPages]"
    by (simp add: addHugeBitcoinKeyListPages_def connectToCouchbase_def configurationCallback_def demo_env_def adder_line_def
        andthen_def emit_def record_event_def trimmed_def is_space_def fill_range_def new_builder_def pt_empty_def effects_def
        connected_client_def Let_def)
  then obtain s' where s': "?f = Ret () s'"
      "effects s' = [Out Connected, Out ReadingKeys, Out AllRead, Out DoneAddingHugeBitcoinKeyListPages]" by blast
  show ?thesis
    using page_adder_success_report [OF s'(1)] s' by (simp add: does_def)
qed

subsection \<open>The initializer refines its sets and pages\<close>

definition set_docs :: "nat \<Rightarrow> string list \<Rightarrow> (string \<times> ptree) list" where
  "set_docs n ks = [(bitcoinKeySetPageKey (show_nat n) ''0'', set_doc ks),
     (bitcoinKeySetCurrentPageKey (show_nat n), pt_put ''currentPage'' ''0'' pt_empty)]"

definition init_name :: "nat \<Rightarrow> string" where
  "init_name n = hugeBitcoinKeyListPageKey (show_nat n)"

function sets_of :: "nat \<Rightarrow> string list \<Rightarrow> (string \<times> ptree) list" where
  "sets_of n ks = (if n \<ge> 1000 then pages_of init_name 0 ks
     else if length ks < 100 then []
     else set_docs n (take 100 ks) @ sets_of (Suc n) (drop 100 ks))"
  by pat_completeness auto
termination by (relation "measure (\<lambda>(n, ks). 1000 - n)") auto

declare sets_of.simps [simp del]

definition set_key :: "string \<Rightarrow> page_builder \<Rightarrow> page_builder" where
  "set_key l b = b\<lparr>pagePt := pt_put (''key'' @ show_nat (hundredKeysCounter b)) l (pagePt b),
     hundredKeysCounter := hundredKeysCounter b + 1\<rparr>"

definition init_next :: "string \<Rightarrow> init_state \<Rightarrow> init_state" where
  "init_next line st = (let l = trimmed line; b = builder st in
     if l = [] then st
     else if thousandSetsInDbCounter st < 1000 then
       (if hundredKeysCounter b + 1 = 100
        then st\<lparr>builder := b\<lparr>pagePt := pt_empty, hundredKeysCounter := 0\<rparr>,
          thousandSetsInDbCounter := thousandSetsInDbCounter st + 1\<rparr>
        else st\<lparr>builder := set_key l b\<rparr>)
     else if page_full l b
       then st\<lparr>builder := after_page (fill_range l b), hugeBitcoinKeyListPageCounter := hugeBitcoinKeyListPageCounter st + 1\<rparr>
     else st\<lparr>builder := fill_range l b\<rparr>)"

definition init_docs :: "string \<Rightarrow> init_state \<Rightarrow> (string \<times> ptree) list" where
  "init_docs line st = (let l = trimmed line; b = builder st in
     if l = [] then []
     else if thousandSetsInDbCounter st < 1000 then
       (if hundredKeysCounter b + 1 = 100
        then [(bitcoinKeySetPageKey (show_nat (thousandSetsInDbCounter st)) ''0'', pagePt (set_key l b)),
          (bitcoinKeySetCurrentPageKey (show_nat (thousandSetsInDbCounter st)), pt_put ''currentPage'' ''0'' pt_empty)]
        else [])
     else if page_full l b
       then [(hugeBitcoinKeyListPageKey (show_nat (hugeBitcoinKeyListPageCounter st)), pagePt (fill_range l b))]
     else [])"

interpretation init: line_writer J "init_line J" init_next init_docs for J :: "'j json"
proof unfold_locales
  fix l and st :: init_state and s :: "'j pages"
  assume alive: "m_CouchbaseCreated s"
  consider (blank) "trimmed l = []" | (set) "trimmed l \<noteq> []" "thousandSetsInDbCounter st < 1000"
    | (page) "trimmed l \<noteq> []" "\<not> thousandSetsInDbCounter st < 1000" by blast
  then show "runs_to (init_line J l st) (line_ret J (init_docs l st) (init_next l st) s) (line_waits J (init_docs l st) s) s"
  proof cases
    case blank
    then show ?thesis
      by (simp add: init_line_def init_docs_def init_next_def line_defs run_rules does_idle alive)
  next
    case set
    then show ?thesis
      unfolding init_line_def init_docs_def init_next_def line_defs fill_set_line_def set_key_def
      by (auto simp: run_rules does_idle alive intro!: runs_to_add_doc) (auto simp: run_rules does_known)
  next
    case page
    then show ?thesis
      unfolding init_line_def init_docs_def init_next_def line_defs fill_page_line_def
      by (auto simp: run_rules does_idle alive intro!: runs_to_add_doc) (auto simp: run_rules does_known)
  qed
qed

definition set_state :: "string list \<Rightarrow> nat \<Rightarrow> init_state" where
  "set_state ks n = \<lparr>builder = new_builder\<lparr>hundredKeysCounter := length ks, pagePt := set_doc ks\<rparr>,
     thousandSetsInDbCounter = n, hugeBitcoinKeyListPageCounter = 0\<rparr>"

definition page_state :: "string list \<Rightarrow> nat \<Rightarrow> init_state" where
  "page_state ks z = \<lparr>builder = builder_of ks, thousandSetsInDbCounter = 1000, hugeBitcoinKeyListPageCounter = z\<rparr>"

lemma set_doc_snoc: "set_doc (ks @ [k]) = pt_put (''key'' @ show_nat (length ks)) k (set_doc ks)"
proof -
  have "''key'' @ show_nat (length ks) \<notin> fst ` set (pt_kids (set_doc ks))" by (auto simp: set_doc_def)
  from put_kid_new [OF this] show ?thesis
    by (simp add: pt_put_def) (simp add: set_doc_def nth_append)
qed

lemma set_state_full: "set_state [] 1000 = page_state [] 0"
  by (simp add: set_state_def page_state_def set_doc_def new_builder_def pt_empty_def)

lemma init_blank: "trimmed l = [] \<Longrightarrow> init_next l st = st" "trimmed l = [] \<Longrightarrow> init_docs l st = []"
  by (simp_all add: init_next_def init_docs_def)

lemma init_set_step:
  assumes "trimmed l \<noteq> []" and "n < 1000"
  shows "length ks < 99 \<Longrightarrow> init_next l (set_state ks n) = set_state (ks @ [trimmed l]) n"
    and "length ks < 99 \<Longrightarrow> init_docs l (set_state ks n) = []"
    and "length ks = 99 \<Longrightarrow> init_next l (set_state ks n) = set_state [] (Suc n)"
    and "length ks = 99 \<Longrightarrow> init_docs l (set_state ks n) = set_docs n (ks @ [trimmed l])"
  using assms by (simp_all add: init_next_def init_docs_def set_state_def set_key_def set_doc_snoc set_docs_def Let_def
      new_builder_def) (simp_all add: set_doc_def pt_empty_def)

lemma init_page_step:
  assumes "trimmed l \<noteq> []"
  shows "length ks < 9999 \<Longrightarrow> init_next l (page_state ks z) = page_state (ks @ [trimmed l]) z"
    and "length ks < 9999 \<Longrightarrow> init_docs l (page_state ks z) = []"
    and "length ks = 9999 \<Longrightarrow> init_next l (page_state ks z) = page_state [] (Suc z)"
    and "length ks = 9999 \<Longrightarrow> init_docs l (page_state ks z) = [(init_name z, range_doc (ks @ [trimmed l]))]"
  using assms after_page_builder [of "ks @ [trimmed l]"]
  by (simp_all add: init_next_def init_docs_def page_state_def Let_def page_full_builder fill_range_builder init_name_def)

lemma init_pages:
  assumes "length ks < 10000"
  shows "all_docs init_next init_docs ls (page_state ks z) = pages_of init_name z (ks @ keys_of ls)
    \<and> builder (fold init_next ls (page_state ks z)) = builder_of (leftover (ks @ keys_of ls))"
  using assms
proof (induction ls arbitrary: ks z)
  case Nil
  then show ?case by (simp add: pages_of_short leftover_short page_state_def)
next
  case (Cons l ls)
  let ?k = "trimmed l"
  consider (blank) "?k = []" | (page) "?k \<noteq> []" "length (ks @ [?k]) = 10000" | (key) "?k \<noteq> []" "length (ks @ [?k]) < 10000"
    using Cons.prems by fastforce
  then show ?case
  proof cases
    case blank
    then show ?thesis using Cons by (simp add: init_blank keys_of_Cons)
  next
    case page
    then show ?thesis
      using Cons.IH [of "[]" "Suc z"] pages_of_page [OF page(2), of init_name z "keys_of ls"]
        leftover_page [OF page(2), of "keys_of ls"]
      by (simp add: init_page_step keys_of_Cons)
  next
    case key
    then show ?thesis using Cons.IH [of "ks @ [?k]" z] by (simp add: init_page_step keys_of_Cons)
  qed
qed

lemma sets_of_short: "n < 1000 \<Longrightarrow> length ks < 100 \<Longrightarrow> sets_of n ks = []"
  by (simp add: sets_of.simps)

lemma sets_of_set: "n < 1000 \<Longrightarrow> length ks = 100 \<Longrightarrow> sets_of n (ks @ ls) = set_docs n ks @ sets_of (Suc n) ls"
  by (subst sets_of.simps) simp

lemma sets_of_pages: "sets_of 1000 ks = pages_of init_name 0 ks"
  by (simp add: sets_of.simps)

text \<open>Which numbers of keys (with \<open>n\<close> sets made) the final check accepts.\<close>

definition accepted_count :: "nat \<Rightarrow> nat \<Rightarrow> bool" where
  "accepted_count n len \<longleftrightarrow> (if len < 100 * (1000 - n) then len mod 100 = 0 else (len - 100 * (1000 - n)) mod 10000 < 100)"

lemma accepted_count_set: "n < 1000 \<Longrightarrow> accepted_count n (100 + len) = accepted_count (Suc n) len"
  by (auto simp: accepted_count_def diff_mult_distrib2)

lemma init_sets:
  assumes "length ks < 100" and "n < 1000"
  shows "all_docs init_next init_docs ls (set_state ks n) = sets_of n (ks @ keys_of ls)
    \<and> (pt_kids (pagePt (builder (fold init_next ls (set_state ks n)))) = []
        \<longleftrightarrow> accepted_count n (length (ks @ keys_of ls)))
    \<and> pt_data (pagePt (builder (fold init_next ls (set_state ks n)))) = []"
  using assms
proof (induction ls arbitrary: ks n)
  case Nil
  then have "length ks < 100 * (1000 - n)" by simp
  then show ?case using Nil by (simp add: sets_of_short set_state_def set_doc_def accepted_count_def)
next
  case (Cons l ls)
  let ?k = "trimmed l"
  consider (blank) "?k = []" | (set) "?k \<noteq> []" "length (ks @ [?k]) = 100" "Suc n < 1000"
    | (last) "?k \<noteq> []" "length (ks @ [?k]) = 100" "Suc n = 1000" | (key) "?k \<noteq> []" "length (ks @ [?k]) < 100"
    using Cons.prems by fastforce
  then show ?case
  proof cases
    case blank
    then show ?thesis using Cons by (simp add: init_blank keys_of_Cons)
  next
    case set
    then show ?thesis
      using Cons.IH [of "[]" "Suc n"] Cons.prems sets_of_set [OF Cons.prems(2) set(2), of "keys_of ls"]
        accepted_count_set [OF Cons.prems(2), of "length (keys_of ls)"]
      by (simp add: init_set_step keys_of_Cons)
  next
    case last
    then show ?thesis
      using init_pages [of "[]" ls 0] Cons.prems sets_of_set [OF Cons.prems(2) last(2), of "keys_of ls"]
        accepted_count_set [OF Cons.prems(2), of "length (keys_of ls)"]
      by (simp add: init_set_step keys_of_Cons set_state_full sets_of_pages range_doc_empty length_leftover accepted_count_def)
  next
    case key
    then show ?thesis using Cons.IH [of "ks @ [?k]" n] Cons.prems by (simp add: init_set_step keys_of_Cons)
  qed
qed

definition init_all_docs :: "string list \<Rightarrow> (string \<times> ptree) list" where
  "init_all_docs keys = sets_of 0 keys @ (if accepted_count 0 (length keys)
     then [(hugeBitcoinKeyListCurrentPageKey, pt_put ''currentPage'' ''0'' pt_empty)] else [])"

definition init_report :: "'j json \<Rightarrow> string list \<Rightarrow> ('j, page_output) event list \<Rightarrow> bool" where
  "init_report J keys es \<longleftrightarrow>
     (Out DoneInitializing \<in> set es \<longleftrightarrow> Out Connected \<in> set es
       \<and> all_added J (init_all_docs keys) (filter is_store es) \<and> accepted_count 0 (length keys))"

lemma set_state_start: "set_state [] 0 = new_init_state"
  by (simp add: set_state_def new_init_state_def set_doc_def new_builder_def pt_empty_def)

lemma empty_tree: "pt_kids t = [] \<Longrightarrow> pt_data t = [] \<Longrightarrow> t = pt_empty"
  by (cases t) (simp add: pt_empty_def)

abbreviation init_ok :: "'j json \<Rightarrow> string list \<Rightarrow> bool \<Rightarrow> ('j, page_output) event list \<Rightarrow> bool" where
  "init_ok J keys conn es \<equiv> returned J (init_all_docs keys) conn es \<and> init_report J keys es"

lemma finish_initializing_trace:
  assumes t: "effects t = effects s @ Out Connected # Out ReadingKeys # es" "m_CouchbaseCreated t" and "list_all quiet_line es"
    and "all_added J (sets_of 0 keys) (filter is_store es)"
    and "pt_kids (pagePt (builder st)) = [] \<longleftrightarrow> accepted_count 0 (length keys)" and "pt_data (pagePt (builder st)) = []"
  shows "runs_to (finish_initializing J st) (\<lambda>_. does s (init_ok J keys True))
    (still_waits J (init_all_docs keys) True s) t"
proof (cases "accepted_count 0 (length keys)")
  case False
  then show ?thesis using assms quiet_not_done(2) [OF assms(3)]
    by (auto simp: finish_initializing_def run_rules does_def init_all_docs_def init_report_def)
next
  case True
  let ?doc = "(hugeBitcoinKeyListCurrentPageKey, pt_put ''currentPage'' ''0'' pt_empty)"
  have "pagePt (builder st) = pt_empty" using assms True by (simp add: empty_tree)
  moreover have docs: "init_all_docs keys = sets_of 0 keys @ [?doc]" using True by (simp add: init_all_docs_def)
  ultimately show ?thesis
    unfolding finish_initializing_def
    apply (simp add: run_rules pt_empty_def)
    apply (rule runs_to_add_doc [OF assms(2)])
    subgoal for d c s'
      using assms True docs
      by (auto simp: run_rules does_def init_report_def pt_empty_def intro!: all_added_append)
    subgoal for r s'
      using assms docs quiet_not_done(2) [OF assms(3)]
      by (auto simp: run_rules does_def init_report_def pt_empty_def intro!: all_added_adds add_failed_append
          dest: all_added_rest)
    subgoal using assms docs by (auto simp: does_def intro: adds_more all_added_is_adds)
    done
qed

lemma init_trace:
  "runs_to (initializeAbc2dbActual J env (Some lines)) (\<lambda>_. does s (init_ok J (keys_of lines) (connected_by env s)))
    (still_waits J (init_all_docs (keys_of lines)) (connected_by env s) s) s"
proof -
  let ?fin = "fold init_next lines new_init_state" and ?sets = "sets_of 0 (keys_of lines)"
  let ?all = "init_all_docs (keys_of lines)"
  have docs: "all_docs init_next init_docs lines new_init_state = ?sets"
    "pt_kids (pagePt (builder ?fin)) = [] \<longleftrightarrow> accepted_count 0 (length (keys_of lines))" "pt_data (pagePt (builder ?fin)) = []"
    using init_sets [of "[]" 0 lines] by (simp_all add: set_state_start)
  have loop: "runs_to (each_line (init_line J) lines new_init_state) (line_ret J ?sets ?fin t) (line_waits J ?sets t) t"
    if "m_CouchbaseCreated t" for t
    using init.loop [OF that, where J = J and ls = lines and st = new_init_state] by (simp only: docs)
  have more: "adds J ?all es" if "adds J ?sets es" for es :: "('a, page_output) event list"
    using that by (simp add: init_all_docs_def adds_more)
  show ?thesis
    unfolding initializeAbc2dbActual_def option.case runs_to_andthen
    apply (rule runs_to_connected)
     prefer 2
    subgoal by (simp add: run_rules does_known init_report_def)
    apply (simp add: run_rules)
    apply (rule runs_to_mono [OF loop])
    subgoal by simp
    subgoal for s' r s2
    proof (cases r)
      case None
      assume "effects s' = effects s" "line_ret J ?sets ?fin (s'\<lparr>history := history s' @ [Out Connected, Out ReadingKeys]\<rparr>) r s2"
      then obtain es where es: "effects s2 = effects s @ Out Connected # Out ReadingKeys # es" "list_all quiet_line es"
          "adds J ?sets (filter is_store es)" "add_failed (filter is_store es)"
        using None by (auto simp: does_def line_done_def)
      then show ?thesis using None quiet_not_done(2) [OF es(2)] more [OF es(3)]
        by (auto simp: does_def run_rules init_report_def dest: all_added_no_failure)
    next
      case (Some st)
      assume "effects s' = effects s" "line_ret J ?sets ?fin (s'\<lparr>history := history s' @ [Out Connected, Out ReadingKeys]\<rparr>) r s2"
        "connected_by env s"
      then obtain es where es: "effects s2 = effects s @ Out Connected # Out ReadingKeys # es" "m_CouchbaseCreated s2"
          "list_all quiet_line es" "all_added J ?sets (filter is_store es)" and st: "st = ?fin"
        using Some by (auto simp: does_def line_done_def)
      show ?thesis unfolding Some option.case st
        using finish_initializing_trace [OF es docs(2,3)] \<open>connected_by env s\<close> by simp
    qed
    subgoal by (auto simp: does_def line_unfinished_def intro: more)
    done
qed

text \<open>
  C25. Whatever the database answers, once connected the initializer adds (never overwrites) exactly the documents of the
  specification in their order: a thousand sets of a hundred consecutive keys, each followed by its current page
  document, then huge pages numbered from zero, and last the document that points at page zero. All of them are added,
  unless an add fails, which is then the last store, or the answer to the next add has not come yet. Without a
  connection nothing is stored.
\<close>

theorem initializer_adds_the_documents:
  "does s (\<lambda>es. if connected_by env s
      then carried_out J (init_all_docs (keys_of lines)) (initializeAbc2db J env (Some lines) s) (filter is_store es)
      else filter is_store es = [])
    (final_state (initializeAbc2db J env (Some lines) s))"
proof (rule carried_out_run)
  show "runs_to (initializeAbc2db J env (Some lines)) (\<lambda>_. does s (returned J (init_all_docs (keys_of lines)) (connected_by env s)))
      (still_waits J (init_all_docs (keys_of lines)) (connected_by env s) s) s"
    unfolding initializeAbc2db_def runs_to_andthen
    by (rule runs_to_mono [OF init_trace]) (auto simp: does_def run_rules)
qed

text \<open>
  A run of the initializer proper that returns reports success exactly when it connected, every document was added and the number of
  keys passed the check. The check does not know the minimum of 110000 keys: an empty file passes, and then the only
  document written points at a page that does not exist.
\<close>

lemma initializer_success_report:
  assumes "initializeAbc2dbActual J env (Some lines) s = Ret () s'"
  shows "does s (\<lambda>es. Out DoneInitializing \<in> set es \<longleftrightarrow> Out Connected \<in> set es
       \<and> all_added J (init_all_docs (keys_of lines)) (filter is_store es) \<and> accepted_count 0 (length (keys_of lines))) s'"
  using runs_to_Ret [OF init_trace assms] by (rule does_mono) (simp add: init_report_def)

lemma initializer_success_report_witness:
  "\<exists>s'. initializeAbc2dbActual tree_json demo_env (Some []) (connected_client pt_empty [Answer LCB_SUCCESS pt_empty 5]) = Ret () s'
    \<and> Out DoneInitializing \<in> set (effects s')
    \<and> filter is_store (effects s') = [DidStore ''hugeBitcoinKeyListCurrentPage'' (pt_put ''currentPage'' ''0'' pt_empty)
        LCB_ADD 0 (Answer LCB_SUCCESS pt_empty 5)]"
proof -
  let ?s = "connected_client pt_empty [Answer LCB_SUCCESS pt_empty 5] :: ptree pages"
  let ?store = "DidStore ''hugeBitcoinKeyListCurrentPage'' (pt_put ''currentPage'' ''0'' pt_empty) LCB_ADD 0
      (Answer LCB_SUCCESS pt_empty 5)"
  let ?f = "initializeAbc2dbActual tree_json demo_env (Some []) ?s"
  have "\<exists>s'. ?f = Ret () s' \<and> filter is_store (effects s') = [?store] \<and> Out Connected \<in> set (effects s')"
    by (simp add: initializeAbc2dbActual_def finish_initializing_def add_doc_def connectToCouchbase_def configurationCallback_def
        demo_env_def andthen_def emit_def record_event_def new_init_state_def new_builder_def pt_empty_def effects_def
        connected_client_def hugeBitcoinKeyListCurrentPageKey_def prog_run)
  then obtain s' where s': "?f = Ret () s'" "filter is_store (effects s') = [?store]" "Out Connected \<in> set (effects s')"
    by blast
  have "init_all_docs (keys_of []) = [(hugeBitcoinKeyListCurrentPageKey, pt_put ''currentPage'' ''0'' pt_empty)]"
    by (simp add: init_all_docs_def accepted_count_def sets_of_short)
  then have "Out DoneInitializing \<in> set (effects s')"
    using initializer_success_report [OF s'(1)] s'(2,3)
    by (simp add: does_def accepted_count_def hugeBitcoinKeyListCurrentPageKey_def)
  then show ?thesis using s' by blast
qed

end
