(* ===== verification/TodaysAdSlot.thy ===== *)
theory TodaysAdSlot
  imports Couchbase
begin

section \<open>The synchronous getter of today's ad\<close>

text \<open>
  \<open>Solutions/Abc2getTodaysAdSlot\<close>: for a campaign and a time, find the slot whose time range holds that time, starting at the
  slot the cache document remembers and counting up, and answer with its ad. The
  \<open>WResource\<close> around it validates the two parameters and answers with a placeholder when there is no ad.

  The answer is either the placeholder constant or JSON text. The check of the campaign index
  (\<open>WIntValidator\<close>, part of the Wt library) is an argument.
\<close>

subsection \<open>Model\<close>

datatype 'j ad_answer = NoAdPlaceholder | AdJson 'j

datatype ad_output = Cerr | StreamOut

record 'j ads = "('j, ad_output) lcb_user" +
  m_TodaysAdSlotJson :: "'j ad_answer"
  r_TodaysAdSlotJson :: "'j ad_answer"
  r_Streamed :: "'j ad_answer list"

abbreviation "JSON_AD_SPACE_CAMPAIGN_SLOT_CACHE_CURRENT_SLOT \<equiv> ''currentSlot''"
abbreviation "JSON_SLOT_FILLER_HOVERTEXT \<equiv> ''hoverTextB64''"
abbreviation "JSON_SLOT_FILLER_URL \<equiv> ''urlB64''"
abbreviation "JSON_SLOT_FILLER_IMAGEB64 \<equiv> ''adImageB64''"
abbreviation "RESPONSE_EXPIRATION_DATETIME \<equiv> ''todaysAdSlotExpireDateTime''"
abbreviation "RESPONSE_ERROR_KEY \<equiv> ''error''"
abbreviation "RESPONSE_ERROR_NOERROR_VALUE \<equiv> ''none''"

text \<open>The time range of a slot document: \<open>3600 * slotLengthHours\<close> is a product of two \<open>int\<close>s.\<close>

definition slot_range :: "int \<Rightarrow> ptree \<Rightarrow> ('s, int \<times> int) prog" where
  "slot_range slotLengthHours pt =
    andthen (pt_need JSON_SLOT_START_TIMESTAMP pt) (\<lambda>startStr.
    andthen (require Bad_lexical_cast (lexical_cast_longlong startStr)) (\<lambda>startDateTime.
    return (startDateTime, wrap64 (startDateTime + wrap32 (3600 * slotLengthHours)))))"

definition next_slot_index :: "string \<Rightarrow> ('s, string) prog" where
  "next_slot_index currentSlotIndexToTry =
    andthen (require Bad_lexical_cast (lexical_cast_int currentSlotIndexToTry)) (\<lambda>i.
    return (show_int (wrap32 (i + 1))))"

definition serve_slot ::
  "'j json \<Rightarrow> string \<Rightarrow> string \<Rightarrow> string \<Rightarrow> string \<Rightarrow> bool \<Rightarrow> int \<Rightarrow> ptree \<Rightarrow> int \<Rightarrow> ('j ads, bool) prog" where
  "serve_slot J campaignOwnerUsername campaignIndex firstSlotIndexToTry currentSlotIndexToTry foundCacheDoc slotLengthHours
      pt expireDateTime =
    andthen (pt_need JSON_AD_SPACE_CAMPAIGN_SLOT_FILLED_WITH pt) (\<lambda>fillerKey.
    andthen (couchbaseGetRequestWithExponentialBackoff fillerKey) (\<lambda>ok.
    if \<not> ok then return False
    else
    andthen (gets m_LastOpStatus) (\<lambda>status.
    if status \<noteq> LCB_SUCCESS then return False
    else
    andthen (gets m_LastDocGetted) (\<lambda>doc.
    andthen (parse_json J doc) (\<lambda>pt2.
    andthen (pt_need JSON_SLOT_FILLER_HOVERTEXT pt2) (\<lambda>hover.
    andthen (pt_need JSON_SLOT_FILLER_URL pt2) (\<lambda>url.
    andthen (pt_need JSON_SLOT_FILLER_IMAGEB64 pt2) (\<lambda>image.
    let todaysAdSlot = pt_put RESPONSE_ERROR_KEY RESPONSE_ERROR_NOERROR_VALUE
          (pt_put RESPONSE_EXPIRATION_DATETIME (show_int expireDateTime)
          (pt_put JSON_SLOT_FILLER_IMAGEB64 image
          (pt_put JSON_SLOT_FILLER_URL url
          (pt_put JSON_SLOT_FILLER_HOVERTEXT hover pt_empty))))
    in
    andthen (modify (\<lambda>s. s\<lparr>m_TodaysAdSlotJson := AdJson (write_json J todaysAdSlot)\<rparr>)) (\<lambda>_.
    if currentSlotIndexToTry \<noteq> firstSlotIndexToTry \<or> (currentSlotIndexToTry = ''0'' \<and> \<not> foundCacheDoc) then
      (let pt3 = pt_put JSON_AD_SPACE_CAMPAIGN_SLOT_LENGTH_HOURS (show_int slotLengthHours)
            (pt_put JSON_AD_SPACE_CAMPAIGN_SLOT_CACHE_CURRENT_SLOT currentSlotIndexToTry pt_empty)
       in andthen (couchbaseStoreRequestWithExponentialBackoff (adSpaceCampaignSlotCacheKey campaignOwnerUsername campaignIndex)
            (write_json J pt3) LCB_SET 0) (\<lambda>_. return True))
    else return True)))))))))"

text \<open>One turn of the loop: \<open>Inl\<close> is the result, \<open>Inr\<close> the index to try next.\<close>

definition try_slot ::
  "'j json \<Rightarrow> string \<Rightarrow> string \<Rightarrow> string \<Rightarrow> bool \<Rightarrow> int \<Rightarrow> int \<Rightarrow> string \<Rightarrow> ('j ads, bool + string) prog" where
  "try_slot J campaignOwnerUsername campaignIndex firstSlotIndexToTry foundCacheDoc slotLengthHours currentDateTime
      currentSlotIndexToTry =
    andthen (couchbaseGetRequestWithExponentialBackoff
      (adSpaceCampaignSlotKey campaignOwnerUsername campaignIndex currentSlotIndexToTry)) (\<lambda>ok.
    if \<not> ok then return (Inl False)
    else
    andthen (gets m_LastOpStatus) (\<lambda>status.
    if status \<noteq> LCB_SUCCESS then return (Inl False)
    else
    andthen (gets m_LastDocGetted) (\<lambda>doc.
    andthen (parse_json J doc) (\<lambda>pt.
    andthen (slot_range slotLengthHours pt) (\<lambda>(startDateTime, expireDateTime).
    if currentDateTime \<ge> startDateTime \<and> currentDateTime < expireDateTime then
      andthen (serve_slot J campaignOwnerUsername campaignIndex firstSlotIndexToTry currentSlotIndexToTry foundCacheDoc
        slotLengthHours pt expireDateTime) (\<lambda>r. return (Inl r))
    else andthen (next_slot_index currentSlotIndexToTry) (\<lambda>i. return (Inr i)))))))"

text \<open>The endless loop: every turn uses an answer of the cluster.\<close>

function crawl ::
  "'j json \<Rightarrow> string \<Rightarrow> string \<Rightarrow> string \<Rightarrow> bool \<Rightarrow> int \<Rightarrow> int \<Rightarrow> string \<Rightarrow> 'j ads \<Rightarrow> ('j ads, bool) outcome" where
  "crawl J user idx first found hours now current s =
    (case try_slot J user idx first found hours now current s of
       Ret (Inl r) s' \<Rightarrow> Ret r s'
     | Ret (Inr nxt) s' \<Rightarrow> crawl J user idx first found hours now nxt s'
     | Throws e s' \<Rightarrow> Throws e s'
     | Blocked s' \<Rightarrow> Blocked s')"
  by pat_completeness auto

lemma slot_range_run: "slot_range hours pt s = Ret x s' \<Longrightarrow> s' = s"
  by (auto simp: slot_range_def pt_need_def require_def andthen_def return_def throw_def
      split: option.splits outcome.splits)

lemma next_slot_index_run: "next_slot_index i s = Ret x s' \<Longrightarrow> s' = s"
  by (auto simp: next_slot_index_def require_def andthen_def return_def throw_def split: option.splits outcome.splits)

lemma get_uses_reply:
  assumes "couchbaseGetRequestWithExponentialBackoff key s = Ret ok s'"
  shows "length (cluster_replies s') < length (cluster_replies s)"
  using assms get_backoff_cases [of s key] by (auto simp: op_effect_def idle_effect_def)

lemma try_slot_uses_reply:
  assumes "try_slot J user idx first found hours now current s = Ret (Inr nxt) s'"
  shows "length (cluster_replies s') < length (cluster_replies s)"
proof -
  from assms obtain ok s1 where get: "couchbaseGetRequestWithExponentialBackoff (adSpaceCampaignSlotKey user idx current) s = Ret ok s1"
    by (auto simp: try_slot_def andthen_Ret_iff)
  with assms have "s' = s1"
    by (auto simp: try_slot_def andthen_Ret_iff parse_json_def require_def return_def throw_def gets_def
        split: if_splits option.splits dest!: slot_range_run next_slot_index_run)
  then show ?thesis using get_uses_reply [OF get] by simp
qed

termination crawl
  by (relation "measure (\<lambda>(J, user, idx, first, found, hours, now, current, s). length (cluster_replies s))")
    (auto dest: try_slot_uses_reply)

declare crawl.simps [simp del]

text \<open>No cache document: the campaign document, just for the slot length.\<close>

definition search_without_cache :: "'j json \<Rightarrow> string \<Rightarrow> string \<Rightarrow> int \<Rightarrow> ('j ads, bool) prog" where
  "search_without_cache J campaignOwnerUsername campaignIndex currentDateTime =
    andthen (couchbaseGetRequestWithExponentialBackoff (adSpaceCampaignKey campaignOwnerUsername campaignIndex)) (\<lambda>ok.
    if \<not> ok then return False
    else
    andthen (gets m_LastOpStatus) (\<lambda>status.
    if status \<noteq> LCB_SUCCESS then return False
    else
    andthen (gets m_LastDocGetted) (\<lambda>doc.
    andthen (parse_json J doc) (\<lambda>pt.
    andthen (pt_need_int JSON_AD_SPACE_CAMPAIGN_SLOT_LENGTH_HOURS pt) (\<lambda>slotLengthHours.
    crawl J campaignOwnerUsername campaignIndex ''0'' False slotLengthHours currentDateTime ''0'')))))"

definition tryToGetTodaysAdSlot :: "'j json \<Rightarrow> string \<Rightarrow> string \<Rightarrow> int \<Rightarrow> ('j ads, bool) prog" where
  "tryToGetTodaysAdSlot J campaignOwnerUsername campaignIndex currentDateTime =
    andthen (couchbaseGetRequestWithExponentialBackoff (adSpaceCampaignSlotCacheKey campaignOwnerUsername campaignIndex)) (\<lambda>ok.
    if \<not> ok then return False
    else
    andthen (gets m_LastOpStatus) (\<lambda>status.
    if status \<noteq> LCB_SUCCESS then
      (if status \<noteq> LCB_KEY_ENOENT then andthen errorOutput (\<lambda>_. return False)
       else search_without_cache J campaignOwnerUsername campaignIndex currentDateTime)
    else
    andthen (gets m_LastDocGetted) (\<lambda>doc.
    andthen (parse_json J doc) (\<lambda>pt.
    andthen (pt_need JSON_AD_SPACE_CAMPAIGN_SLOT_CACHE_CURRENT_SLOT pt) (\<lambda>firstSlotIndexToTry.
    andthen (pt_need_int JSON_AD_SPACE_CAMPAIGN_SLOT_LENGTH_HOURS pt) (\<lambda>slotLengthHours.
    crawl J campaignOwnerUsername campaignIndex firstSlotIndexToTry True slotLengthHours currentDateTime firstSlotIndexToTry))))))"

text \<open>\<open>GetTodaysAdSlotWResource\<close>.\<close>

definition getTodaysAdSlot :: "'j json \<Rightarrow> string \<Rightarrow> string \<Rightarrow> int \<Rightarrow> ('j ads, unit) prog" where
  "getTodaysAdSlot J user idx currentDateTime =
    andthen (tryToGetTodaysAdSlot J user idx currentDateTime) (\<lambda>ok.
    if ok then modify (\<lambda>s. s\<lparr>r_TodaysAdSlotJson := m_TodaysAdSlotJson s\<rparr>)
    else modify (\<lambda>s. s\<lparr>r_TodaysAdSlotJson := NoAdPlaceholder\<rparr>))"

definition stream :: "'j ad_answer \<Rightarrow> ('j ads, unit) prog" where
  "stream a = modify (\<lambda>s. s\<lparr>r_Streamed := r_Streamed s @ [a]\<rparr>)"

definition handleRequest ::
  "'j json \<Rightarrow> (string \<Rightarrow> bool) \<Rightarrow> string option \<Rightarrow> string option \<Rightarrow> int \<Rightarrow> ('j ads, unit) prog" where
  "handleRequest J campaignIndexValid user index now =
    (case (user, index) of
       (Some u, Some i) \<Rightarrow>
         if \<not> letters_numbers_only u \<or> \<not> campaignIndexValid i then stream NoAdPlaceholder
         else
         andthen (getTodaysAdSlot J u i (now + 30)) (\<lambda>_.
         andthen (gets r_TodaysAdSlotJson) stream)
     | _ \<Rightarrow> stream NoAdPlaceholder)"

subsection \<open>What a request reads and writes\<close>

lemma ads_update_effects [simp]:
  "effects (m_TodaysAdSlotJson_update g (s :: 'j ads)) = effects s"
  "effects (r_TodaysAdSlotJson_update h (s :: 'j ads)) = effects s"
  "effects (r_Streamed_update k (s :: 'j ads)) = effects s"
  by (simp_all add: effects_def)

text \<open>The start time a slot document holds, and whether a time lies in the slot.\<close>

definition slot_start :: "'j json \<Rightarrow> 'j \<Rightarrow> int option" where
  "slot_start J doc = Option.bind (read_json J doc) (\<lambda>pt.
     Option.bind (pt_get JSON_SLOT_START_TIMESTAMP pt) lexical_cast_longlong)"

definition holds_time :: "int \<Rightarrow> int \<Rightarrow> int \<Rightarrow> bool" where
  "holds_time hours now start \<longleftrightarrow> start \<le> now \<and> now < wrap64 (start + wrap32 (3600 * hours))"

lemma runs_to_slot_range [run_rules]:
  "runs_to (slot_range hours pt) Q E s =
    (case Option.bind (pt_get JSON_SLOT_START_TIMESTAMP pt) lexical_cast_longlong of
      None \<Rightarrow> E s | Some start \<Rightarrow> Q (start, wrap64 (start + wrap32 (3600 * hours))) s)"
  by (simp add: slot_range_def run_rules split: option.splits)

lemma runs_to_next_slot_index [run_rules]:
  "runs_to (next_slot_index i) Q E s = (case lexical_cast_int i of None \<Rightarrow> E s | Some n \<Rightarrow> Q (show_int (wrap32 (n + 1))) s)"
  by (simp add: next_slot_index_def run_rules split: option.splits)

lemma runs_to_need_int [run_rules]:
  "runs_to (pt_need_int k t) Q E s = (case Option.bind (pt_get k t) lexical_cast_int of None \<Rightarrow> E s | Some i \<Rightarrow> Q i s)"
  by (simp add: pt_need_int_def run_rules split: option.splits)

text \<open>
  What the code does once a slot holds the time: it reads the ad the slot is filled with, composes the answer and, when the
  slot is not the one the cache document names, stores the cache document.
\<close>

definition ad_doc :: "int \<Rightarrow> string \<Rightarrow> string \<Rightarrow> string \<Rightarrow> ptree" where
  "ad_doc expireDateTime hover url img = plain_doc [(JSON_SLOT_FILLER_HOVERTEXT, hover), (JSON_SLOT_FILLER_URL, url),
     (JSON_SLOT_FILLER_IMAGEB64, img), (RESPONSE_EXPIRATION_DATETIME, show_int expireDateTime),
     (RESPONSE_ERROR_KEY, RESPONSE_ERROR_NOERROR_VALUE)]"

lemma ad_doc_puts: "pt_put RESPONSE_ERROR_KEY RESPONSE_ERROR_NOERROR_VALUE (pt_put RESPONSE_EXPIRATION_DATETIME (show_int e)
    (pt_put JSON_SLOT_FILLER_IMAGEB64 img (pt_put JSON_SLOT_FILLER_URL url (pt_put JSON_SLOT_FILLER_HOVERTEXT hover pt_empty))))
    = ad_doc e hover url img"
  by (simp add: pt_put_def pt_empty_def ad_doc_def plain_doc_def)

definition cache_doc :: "string \<Rightarrow> int \<Rightarrow> ptree" where
  "cache_doc cur hours = plain_doc [(JSON_AD_SPACE_CAMPAIGN_SLOT_CACHE_CURRENT_SLOT, cur),
     (JSON_AD_SPACE_CAMPAIGN_SLOT_LENGTH_HOURS, show_int hours)]"

lemma cache_doc_puts: "pt_put JSON_AD_SPACE_CAMPAIGN_SLOT_LENGTH_HOURS (show_int hours)
    (pt_put JSON_AD_SPACE_CAMPAIGN_SLOT_CACHE_CURRENT_SLOT cur pt_empty) = cache_doc cur hours"
  by (simp add: pt_put_def pt_empty_def cache_doc_def plain_doc_def)

definition cache_update ::
  "'j json \<Rightarrow> string \<Rightarrow> string \<Rightarrow> string \<Rightarrow> string \<Rightarrow> bool \<Rightarrow> int \<Rightarrow> ('j, ad_output) event list \<Rightarrow> bool" where
  "cache_update J user idx first cur found hours es \<longleftrightarrow>
     (if cur \<noteq> first \<or> cur = ''0'' \<and> \<not> found
      then \<exists>r. es = DidStore (adSpaceCampaignSlotCacheKey user idx) (write_json J (cache_doc cur hours)) LCB_SET 0 r
             # (if answered r then [] else [ErrorOutput])
      else es = [])"

definition ad_answered ::
  "'j json \<Rightarrow> string \<Rightarrow> string \<Rightarrow> string \<Rightarrow> string \<Rightarrow> bool \<Rightarrow> int \<Rightarrow> ptree \<Rightarrow> int \<Rightarrow> 'j ad_answer
    \<Rightarrow> ('j, ad_output) event list \<Rightarrow> bool" where
  "ad_answered J user idx first cur found hours slot expire ad es \<longleftrightarrow>
    (\<exists>filler_key doc c filler hover url img rest.
      es = DidGet filler_key (Answer LCB_SUCCESS doc c) # rest
      \<and> pt_get JSON_AD_SPACE_CAMPAIGN_SLOT_FILLED_WITH slot = Some filler_key \<and> read_json J doc = Some filler
      \<and> pt_get JSON_SLOT_FILLER_HOVERTEXT filler = Some hover \<and> pt_get JSON_SLOT_FILLER_URL filler = Some url
      \<and> pt_get JSON_SLOT_FILLER_IMAGEB64 filler = Some img
      \<and> ad = AdJson (write_json J (ad_doc expire hover url img))
      \<and> cache_update J user idx first cur found hours rest)"

abbreviation no_stores :: "('j, 'o) event list \<Rightarrow> bool" where
  "no_stores es \<equiv> filter is_store es = []"

lemma answer_more: "lcb_user.more s' = lcb_user.more s \<Longrightarrow> m_TodaysAdSlotJson s' = m_TodaysAdSlotJson s"
  by (cases s; cases s') simp

text \<open>The outcome of a search: an ad, found by a trace with \<open>P\<close>, or none, and then nothing was stored.\<close>

definition search_outcome :: "'j ads \<Rightarrow> ('j ad_answer \<Rightarrow> ('j, ad_output) event list \<Rightarrow> bool) \<Rightarrow> bool \<Rightarrow> 'j ads \<Rightarrow> bool" where
  "search_outcome s P r s' \<longleftrightarrow> does s (if r then P (m_TodaysAdSlotJson s') else no_stores) s'"

lemma no_ad: "effects s' = effects s @ es \<Longrightarrow> search_outcome s P False s' \<longleftrightarrow> no_stores es"
  "effects s' = effects s \<Longrightarrow> search_outcome s P False s'"
  by (simp_all add: search_outcome_def does_known does_idle)

lemma serve_slot_trace:
  "runs_to (serve_slot J user idx first cur found hours slot e)
    (search_outcome s (ad_answered J user idx first cur found hours slot e))
    (does s no_stores) s"
  unfolding serve_slot_def Let_def ad_doc_puts cache_doc_puts
  apply (simp add: run_rules does_idle split: option.splits)
  apply (intro allI impI conjI; rule runs_to_get)
       apply (auto simp: run_rules does_known does_idle no_ad results_def ad_answered_def cache_update_def split: option.splits)
  apply (rule runs_to_store; auto simp: run_rules does_known does_idle search_outcome_def ad_answered_def cache_update_def
      dest!: answer_more)+
   apply (auto simp: search_outcome_def does_def ad_answered_def cache_update_def)
  done

text \<open>A slot that holds the time, and the slots tried before it: from the first index on, one after the other.\<close>

definition slot_served ::
  "'j json \<Rightarrow> string \<Rightarrow> string \<Rightarrow> string \<Rightarrow> bool \<Rightarrow> int \<Rightarrow> int \<Rightarrow> string \<Rightarrow> 'j ad_answer
    \<Rightarrow> ('j, ad_output) event list \<Rightarrow> bool" where
  "slot_served J user idx first found hours now cur ad es \<longleftrightarrow>
    (\<exists>doc c slot start rest. es = DidGet (adSpaceCampaignSlotKey user idx cur) (Answer LCB_SUCCESS doc c) # rest
      \<and> read_json J doc = Some slot \<and> slot_start J doc = Some start \<and> holds_time hours now start
      \<and> ad_answered J user idx first cur found hours slot (wrap64 (start + wrap32 (3600 * hours))) ad rest)"

definition slot_passed ::
  "'j json \<Rightarrow> string \<Rightarrow> string \<Rightarrow> int \<Rightarrow> int \<Rightarrow> string \<Rightarrow> string \<Rightarrow> ('j, ad_output) event \<Rightarrow> bool" where
  "slot_passed J user idx hours now cur nxt e \<longleftrightarrow>
    (\<exists>doc c start n. e = DidGet (adSpaceCampaignSlotKey user idx cur) (Answer LCB_SUCCESS doc c)
      \<and> slot_start J doc = Some start \<and> \<not> holds_time hours now start
      \<and> lexical_cast_int cur = Some n \<and> nxt = show_int (wrap32 (n + 1)))"

fun slots_passed ::
  "'j json \<Rightarrow> string \<Rightarrow> string \<Rightarrow> int \<Rightarrow> int \<Rightarrow> string \<Rightarrow> ('j, ad_output) event list \<Rightarrow> string \<Rightarrow> bool" where
  "slots_passed J user idx hours now cur [] final = (final = cur)"
| "slots_passed J user idx hours now cur (e # es) final =
    (\<exists>nxt. slot_passed J user idx hours now cur nxt e \<and> slots_passed J user idx hours now nxt es final)"

lemma try_slot_trace:
  "runs_to (try_slot J user idx first found hours now cur)
    (\<lambda>r s'. case r of
        Inl True \<Rightarrow> does s (slot_served J user idx first found hours now cur (m_TodaysAdSlotJson s')) s'
      | Inl False \<Rightarrow> does s no_stores s'
      | Inr nxt \<Rightarrow> does s (\<lambda>es. \<exists>e. es = [e] \<and> slot_passed J user idx hours now cur nxt e) s')
    (does s no_stores) s"
proof -
  have serve: "runs_to (serve_slot J user idx first cur found hours slot (wrap64 (start + wrap32 (3600 * hours))))
      (\<lambda>a. runs_to (return (Inl a)) (\<lambda>r s'. case r of
        Inl True \<Rightarrow> does s (slot_served J user idx first found hours now cur (m_TodaysAdSlotJson s')) s'
      | Inl False \<Rightarrow> does s no_stores s'
      | Inr nxt \<Rightarrow> does s (\<lambda>es. \<exists>e. es = [e] \<and> slot_passed J user idx hours now cur nxt e) s') (does s no_stores))
      (does s no_stores) t"
    if t: "effects t = effects s @ [DidGet (adSpaceCampaignSlotKey user idx cur) (Answer LCB_SUCCESS doc c)]"
      and slot: "read_json J doc = Some slot" "slot_start J doc = Some start" "holds_time hours now start"
    for t doc c slot start
  proof (rule runs_to_mono [OF serve_slot_trace])
    fix a s' assume "search_outcome t (ad_answered J user idx first cur found hours slot (wrap64 (start + wrap32 (3600 * hours)))) a s'"
    then show "runs_to (return (Inl a)) (\<lambda>r s'. case r of
        Inl True \<Rightarrow> does s (slot_served J user idx first found hours now cur (m_TodaysAdSlotJson s')) s'
      | Inl False \<Rightarrow> does s no_stores s'
      | Inr nxt \<Rightarrow> does s (\<lambda>es. \<exists>e. es = [e] \<and> slot_passed J user idx hours now cur nxt e) s') (does s no_stores) s'"
      using t slot by (cases a) (auto simp: run_rules does_def slot_served_def search_outcome_def)
  next
    fix s' assume "does t no_stores s'"
    then show "does s no_stores s'" using t by (auto simp: does_def)
  qed
  show ?thesis
    unfolding try_slot_def
    apply (simp add: run_rules)
    apply (rule runs_to_get)
      apply (auto simp: run_rules does_known does_idle results_def slot_passed_def slot_start_def holds_time_def
        intro!: serve split: option.splits)
    done
qed

definition crawl_served ::
  "'j json \<Rightarrow> string \<Rightarrow> string \<Rightarrow> string \<Rightarrow> bool \<Rightarrow> int \<Rightarrow> int \<Rightarrow> string \<Rightarrow> 'j ad_answer
    \<Rightarrow> ('j, ad_output) event list \<Rightarrow> bool" where
  "crawl_served J user idx first found hours now cur ad es \<longleftrightarrow>
    (\<exists>passed i rest. es = passed @ rest \<and> slots_passed J user idx hours now cur passed i
      \<and> slot_served J user idx first found hours now i ad rest)"

lemma crawl_served_Cons:
  assumes "slot_passed J user idx hours now cur nxt e" and "crawl_served J user idx first found hours now nxt ad es"
  shows "crawl_served J user idx first found hours now cur ad (e # es)"
proof -
  obtain passed i rest where "es = passed @ rest" "slots_passed J user idx hours now nxt passed i"
    "slot_served J user idx first found hours now i ad rest"
    using assms(2) by (auto simp: crawl_served_def)
  then show ?thesis using assms(1) unfolding crawl_served_def by (intro exI [of _ "e # passed"]) auto
qed

lemma slot_passed_no_store: "slot_passed J user idx hours now cur nxt e \<Longrightarrow> \<not> is_store e"
  by (auto simp: slot_passed_def)

lemma crawl_trace:
  "runs_to (crawl J user idx first found hours now cur)
    (search_outcome s (crawl_served J user idx first found hours now cur))
    (does s no_stores) s"
proof (induction J user idx first found hours now cur s rule: crawl.induct)
  case (1 J user idx first found hours now cur s)
  note trace = try_slot_trace [of J user idx first found hours now cur s]
  show ?case
  proof (cases "try_slot J user idx first found hours now cur s")
    case (Ret r s1)
    show ?thesis
    proof (cases r)
      case (Inl b)
      then have "does s (if b then slot_served J user idx first found hours now cur (m_TodaysAdSlotJson s1) else no_stores) s1"
        using runs_to_Ret [OF trace Ret] by (cases b) simp_all
      then have "search_outcome s (crawl_served J user idx first found hours now cur) b s1"
        unfolding search_outcome_def by (rule does_mono) (auto simp: crawl_served_def intro: exI [of _ "[]"])
      then show ?thesis using Ret Inl by (simp add: runs_to_def crawl.simps [of _ _ _ _ _ _ _ _ s])
    next
      case (Inr nxt)
      obtain e where e: "effects s1 = effects s @ [e]" "slot_passed J user idx hours now cur nxt e"
        using runs_to_Ret [OF trace Ret] Inr by (auto simp: does_def)
      have "runs_to (crawl J user idx first found hours now nxt)
          (search_outcome s (crawl_served J user idx first found hours now cur))
          (does s no_stores) s1"
        unfolding search_outcome_def
        by (rule runs_to_mono [OF 1 [OF Ret Inr, unfolded search_outcome_def]]; erule does_after [OF _ e(1)])
          (use e(2) slot_passed_no_store [OF e(2)] in \<open>auto intro: crawl_served_Cons split: if_splits\<close>)
      then show ?thesis using Ret Inr by (simp add: runs_to_def crawl.simps [of _ _ _ _ _ _ _ _ s])
    qed
  next
    case (Throws e s1)
    then show ?thesis using trace by (simp add: runs_to_def crawl.simps [of _ _ _ _ _ _ _ _ s])
  next
    case (Blocked s1)
    then show ?thesis using trace by (simp add: runs_to_def crawl.simps [of _ _ _ _ _ _ _ _ s])
  qed
qed

text \<open>
  The whole search: the first index and the length of the slots are those of the cache document that was read, or, when
  there is none, zero and the length in the campaign document that was read.
\<close>

abbreviation hours_in :: "ptree \<Rightarrow> int option" where
  "hours_in pt \<equiv> Option.bind (pt_get JSON_AD_SPACE_CAMPAIGN_SLOT_LENGTH_HOURS pt) lexical_cast_int"

definition ad_search :: "'j json \<Rightarrow> string \<Rightarrow> string \<Rightarrow> int \<Rightarrow> 'j ad_answer \<Rightarrow> ('j, ad_output) event list \<Rightarrow> bool" where
  "ad_search J user idx now ad es \<longleftrightarrow>
    (\<exists>doc c cache first hours rest. es = DidGet (adSpaceCampaignSlotCacheKey user idx) (Answer LCB_SUCCESS doc c) # rest
      \<and> read_json J doc = Some cache \<and> pt_get JSON_AD_SPACE_CAMPAIGN_SLOT_CACHE_CURRENT_SLOT cache = Some first
      \<and> hours_in cache = Some hours \<and> crawl_served J user idx first True hours now first ad rest)
  \<or> (\<exists>d c' doc c campaign hours rest. es = DidGet (adSpaceCampaignSlotCacheKey user idx) (Answer LCB_KEY_ENOENT d c')
        # DidGet (adSpaceCampaignKey user idx) (Answer LCB_SUCCESS doc c) # rest
      \<and> read_json J doc = Some campaign \<and> hours_in campaign = Some hours
      \<and> crawl_served J user idx ''0'' False hours now ''0'' ad rest)"

lemma crawl_after:
  assumes "effects t = effects s @ pre" and "no_stores pre"
    and "\<And>ad es. crawl_served J user idx first found hours now cur ad es \<Longrightarrow> ad_search J user idx now' ad (pre @ es)"
  shows "runs_to (crawl J user idx first found hours now cur)
    (search_outcome s (ad_search J user idx now')) (does s no_stores) t"
  unfolding search_outcome_def
  by (rule runs_to_mono [OF crawl_trace [unfolded search_outcome_def]]; erule does_after [OF _ assms(1)])
    (auto simp: assms(2,3) split: if_splits)

lemma without_cache_trace:
  assumes "effects t = effects s @ [DidGet (adSpaceCampaignSlotCacheKey user idx) (Answer LCB_KEY_ENOENT d c')]"
  shows "runs_to (search_without_cache J user idx now)
    (search_outcome s (ad_search J user idx now)) (does s no_stores) t"
  unfolding search_without_cache_def
  apply (simp add: run_rules)
  apply (rule runs_to_get)
    apply (auto simp: run_rules does_known no_ad assms results_def ad_search_def intro!: crawl_after split: option.splits)
  done

lemma tryToGet_trace:
  "runs_to (tryToGetTodaysAdSlot J user idx now)
    (search_outcome s (ad_search J user idx now)) (does s no_stores) s"
  unfolding tryToGetTodaysAdSlot_def
  apply (simp add: run_rules)
  apply (rule runs_to_get)
    apply (auto simp: run_rules does_known does_idle no_ad results_def ad_search_def intro!: crawl_after without_cache_trace
      split: option.splits)
  done

definition demo_ads :: "ptree reply list \<Rightarrow> ptree ads" where
  "demo_ads rs = lcb_user.extend (connected_client pt_empty rs) (ads.fields NoAdPlaceholder NoAdPlaceholder [])"

lemma demo_ads_sel [simp]:
  "m_CouchbaseCreated (demo_ads rs)" "cluster_replies (demo_ads rs) = rs" "effects (demo_ads rs) = []"
  by (simp_all add: demo_ads_def lcb_user.extend_def ads.fields_def connected_client_def effects_def)

text \<open>
  C33. Whatever the database answers, a search for today's ad that reports an ad did this, in this order: it read the
  campaign's slot cache document, and without one the campaign document; it read the slots of this campaign one after the other, from
  the index of the cache document (or zero) on, each of which did not hold the time for the slot length of the document
  read, up to one that does; it read the ad which that slot is filled with; and it stored the cache document with this slot, unless
  the cache names it already. The answer is that ad with the end of that slot's time range. A search that reports none stores nothing.
\<close>

theorem only_a_current_slot_is_served:
  "case tryToGetTodaysAdSlot J user idx now s of
     Ret r s' \<Rightarrow> does s (if r then ad_search J user idx now (m_TodaysAdSlotJson s') else no_stores) s'
   | Throws e s' \<Rightarrow> does s no_stores s'
   | Blocked s' \<Rightarrow> does s no_stores s'"
  using tryToGet_trace [of J user idx now s]
  by (simp only: runs_to_def search_outcome_def split: outcome.splits)

text \<open>At most the cache document is written.\<close>

definition cache_write :: "string \<Rightarrow> string \<Rightarrow> ('j, ad_output) event list \<Rightarrow> bool" where
  "cache_write user idx sts \<longleftrightarrow> sts = [] \<or> (\<exists>v r. sts = [DidStore (adSpaceCampaignSlotCacheKey user idx) v LCB_SET 0 r])"

subsection \<open>The first slot that holds the time\<close>

text \<open>Slots that do not hold the time, starting at an index: one get for each.\<close>

fun skipped :: "string \<Rightarrow> string \<Rightarrow> int \<Rightarrow> ('j \<times> cas) list \<Rightarrow> ('j, ad_output) event list" where
  "skipped user idx i [] = []"
| "skipped user idx i (d # ds) =
     DidGet (adSpaceCampaignSlotKey user idx (show_int i)) (Answer LCB_SUCCESS (fst d) (snd d)) # skipped user idx (i + 1) ds"

definition not_now :: "'j json \<Rightarrow> int \<Rightarrow> int \<Rightarrow> 'j \<Rightarrow> bool" where
  "not_now J hours now doc \<longleftrightarrow> (\<exists>start. slot_start J doc = Some start \<and> \<not> holds_time hours now start)"

lemma slot_startE:
  assumes "slot_start J doc = Some start"
  obtains pt str where "read_json J doc = Some pt" "pt_get JSON_SLOT_START_TIMESTAMP pt = Some str"
    "lexical_cast_longlong str = Some start"
  using assms by (auto simp: slot_start_def elim!: bind_SomeE)

lemma skip_slot:
  assumes "m_CouchbaseCreated s" and "cluster_replies s = Answer LCB_SUCCESS doc c # rs"
    and "not_now J hours now doc" and "- (2 ^ 31) \<le> i" and "i < 2 ^ 31 - 1"
  shows "\<exists>s1. crawl J user idx first found hours now (show_int i) s = crawl J user idx first found hours now (show_int (i + 1)) s1
    \<and> m_CouchbaseCreated s1 \<and> cluster_replies s1 = rs
    \<and> effects s1 = effects s @ [DidGet (adSpaceCampaignSlotKey user idx (show_int i)) (Answer LCB_SUCCESS doc c)]"
proof -
  obtain start where start: "slot_start J doc = Some start" "\<not> holds_time hours now start"
    using assms(3) by (auto simp: not_now_def)
  obtain pt str where pt: "read_json J doc = Some pt" "pt_get JSON_SLOT_START_TIMESTAMP pt = Some str"
    "lexical_cast_longlong str = Some start" using start(1) by (rule slot_startE)
  have "\<exists>s1. try_slot J user idx first found hours now (show_int i) s = Ret (Inr (show_int (i + 1))) s1
    \<and> m_CouchbaseCreated s1 \<and> cluster_replies s1 = rs
    \<and> effects s1 = effects s @ [DidGet (adSpaceCampaignSlotKey user idx (show_int i)) (Answer LCB_SUCCESS doc c)]"
    using assms(1,2,4,5) pt start(2)
    by (auto simp: try_slot_def slot_range_def next_slot_index_def holds_time_def andthen_def prog_run effects_def
        lexical_cast_int_show_int)
  then show ?thesis by (auto simp: crawl.simps [of _ _ _ _ _ _ _ _ s])
qed

lemma skip_slots:
  assumes "m_CouchbaseCreated s" and "cluster_replies s = map (\<lambda>d. Answer LCB_SUCCESS (fst d) (snd d)) ds @ rs"
    and "list_all (\<lambda>d. not_now J hours now (fst d)) ds" and "- (2 ^ 31) \<le> i" and "i + int (length ds) < 2 ^ 31"
  shows "\<exists>s1. crawl J user idx first found hours now (show_int i) s
        = crawl J user idx first found hours now (show_int (i + int (length ds))) s1
    \<and> m_CouchbaseCreated s1 \<and> cluster_replies s1 = rs \<and> effects s1 = effects s @ skipped user idx i ds"
  using assms
proof (induction ds arbitrary: i s)
  case Nil
  then show ?case by auto
next
  case (Cons d ds)
  obtain s1 where s1: "crawl J user idx first found hours now (show_int i) s
        = crawl J user idx first found hours now (show_int (i + 1)) s1"
      "m_CouchbaseCreated s1" "cluster_replies s1 = map (\<lambda>d. Answer LCB_SUCCESS (fst d) (snd d)) ds @ rs"
      "effects s1 = effects s @ [DidGet (adSpaceCampaignSlotKey user idx (show_int i)) (Answer LCB_SUCCESS (fst d) (snd d))]"
    using skip_slot [of s "fst d" "snd d" "map (\<lambda>d. Answer LCB_SUCCESS (fst d) (snd d)) ds @ rs" J hours now i user idx first found]
      Cons.prems by auto
  show ?case using Cons.IH [OF s1(2,3), of "i + 1"] Cons.prems s1(1,4) by (auto simp: algebra_simps)
qed

text \<open>
  C34. The search is correct: with consecutive slots in the database it skips those that do not hold the time and answers with the
  ad of the first one that does, its expiry being the end of that slot, after one get for each slot and one for the ad; it ends
  because every turn consumes a slot.
\<close>

theorem first_current_slot_is_found:
  assumes "m_CouchbaseCreated s"
    and "cluster_replies s = map (\<lambda>d. Answer LCB_SUCCESS (fst d) (snd d)) ds
        @ [Answer LCB_SUCCESS doc c, Answer LCB_SUCCESS filler_doc fc, Answer LCB_SUCCESS d3 c3] @ rs"
    and "list_all (\<lambda>d. not_now J hours now (fst d)) ds" and "0 \<le> i" and "i + int (length ds) < 2 ^ 31"
    and "read_json J doc = Some slot" and "slot_start J doc = Some start" and "holds_time hours now start"
    and "pt_get JSON_AD_SPACE_CAMPAIGN_SLOT_FILLED_WITH slot = Some filler_key"
    and "read_json J filler_doc = Some filler" and "pt_get JSON_SLOT_FILLER_HOVERTEXT filler = Some hover"
    and "pt_get JSON_SLOT_FILLER_URL filler = Some url" and "pt_get JSON_SLOT_FILLER_IMAGEB64 filler = Some img"
  shows "\<exists>s' es. crawl J user idx (show_int i) found hours now (show_int i) s = Ret True s'
    \<and> m_TodaysAdSlotJson s' = AdJson (write_json J (ad_doc (wrap64 (start + wrap32 (3600 * hours))) hover url img))
    \<and> effects s' = effects s @ skipped user idx i ds
        @ [DidGet (adSpaceCampaignSlotKey user idx (show_int (i + int (length ds)))) (Answer LCB_SUCCESS doc c),
           DidGet filler_key (Answer LCB_SUCCESS filler_doc fc)] @ es
    \<and> cache_write user idx es"
proof -
  let ?n = "i + int (length ds)"
  obtain s1 where s1: "crawl J user idx (show_int i) found hours now (show_int i) s
        = crawl J user idx (show_int i) found hours now (show_int ?n) s1"
      "m_CouchbaseCreated s1"
      "cluster_replies s1 = Answer LCB_SUCCESS doc c # Answer LCB_SUCCESS filler_doc fc # Answer LCB_SUCCESS d3 c3 # rs"
      "effects s1 = effects s @ skipped user idx i ds"
    using skip_slots [OF assms(1,2,3) _ assms(5)] assms(4) by fastforce
  obtain str where str: "pt_get JSON_SLOT_START_TIMESTAMP slot = Some str" "lexical_cast_longlong str = Some start"
    using assms(6,7) by (auto elim: slot_startE)
  have "\<exists>s' es. try_slot J user idx (show_int i) found hours now (show_int ?n) s1 = Ret (Inl True) s'
    \<and> m_TodaysAdSlotJson s' = AdJson (write_json J (ad_doc (wrap64 (start + wrap32 (3600 * hours))) hover url img))
    \<and> effects s' = effects s1 @ [DidGet (adSpaceCampaignSlotKey user idx (show_int ?n)) (Answer LCB_SUCCESS doc c),
           DidGet filler_key (Answer LCB_SUCCESS filler_doc fc)] @ es
    \<and> cache_write user idx es"
    using s1(2,3) assms(6,8-13) str
    by (auto simp: try_slot_def slot_range_def serve_slot_def holds_time_def andthen_def prog_run Let_def ad_doc_puts
        cache_write_def effects_def)
  then show ?thesis using s1(1,4) by (auto simp: crawl.simps [of _ _ _ _ _ _ _ _ s1])
qed

definition demo_slot_at :: "string \<Rightarrow> ptree" where
  "demo_slot_at start = plain_doc [(JSON_SLOT_START_TIMESTAMP, start), (JSON_AD_SPACE_CAMPAIGN_SLOT_FILLED_WITH, ''ad_7'')]"

definition demo_filler :: ptree where
  "demo_filler = plain_doc [(JSON_SLOT_FILLER_HOVERTEXT, ''h''), (JSON_SLOT_FILLER_URL, ''u''), (JSON_SLOT_FILLER_IMAGEB64, ''i'')]"

lemma demo_slot_start:
  "slot_start tree_json (demo_slot_at ''1000'') = Some 1000" "slot_start tree_json (demo_slot_at ''90000'') = Some 90000"
  by (simp_all add: slot_start_def demo_slot_at_def lexical_cast_longlong_def read_range_def read_nat_def
      digit_value_def is_digit_def)

theorem first_current_slot_is_found_witness:
  "\<exists>s'. crawl tree_json ''d3fault'' ''0'' (show_int 3) True 24 100000 (show_int 3)
      (demo_ads [Answer LCB_SUCCESS (demo_slot_at ''1000'') 1, Answer LCB_SUCCESS (demo_slot_at ''90000'') 2,
        Answer LCB_SUCCESS demo_filler 3, Answer LCB_SUCCESS pt_empty 4]) = Ret True s'
    \<and> m_TodaysAdSlotJson s' = AdJson (ad_doc 176400 ''h'' ''u'' ''i'')"
proof -
  let ?s = "demo_ads [Answer LCB_SUCCESS (demo_slot_at ''1000'') 1, Answer LCB_SUCCESS (demo_slot_at ''90000'') 2,
        Answer LCB_SUCCESS demo_filler 3, Answer LCB_SUCCESS pt_empty 4]"
  have h: "holds_time 24 100000 90000" "\<not> holds_time 24 100000 1000" by (simp_all add: holds_time_def)
  from first_current_slot_is_found [of ?s "[(demo_slot_at ''1000'', 1)]" "demo_slot_at ''90000''" 2 demo_filler 3 pt_empty 4 "[]"
      tree_json 24 100000 3 "demo_slot_at ''90000''" 90000 "''ad_7''" demo_filler "''h''" "''u''" "''i''" "''d3fault''" "''0''" True]
  show ?thesis using h demo_slot_start
    by (auto simp: not_now_def demo_slot_at_def [of "''90000''"] demo_filler_def)
qed

text \<open>
  One failed answer takes the service down: when waiting for an answer fails, the request is answered with the placeholder, and
  the next valid request uses the Couchbase instance that the failure destroyed.
\<close>

theorem failed_wait_poisons_the_next_request:
  assumes "m_CouchbaseCreated s" and "cluster_replies s = WaitError e # rs"
    and "letters_numbers_only u" and "valid i" and "letters_numbers_only u'" and "valid i'"
  shows "\<exists>s1. handleRequest J valid (Some u) (Some i) now s = Ret () s1 \<and> r_Streamed s1 = r_Streamed s @ [NoAdPlaceholder]
    \<and> (\<exists>s2. handleRequest J valid (Some u') (Some i') now' s1 = Throws Use_after_destroy s2)"
  using assms
  by (simp add: handleRequest_def getTodaysAdSlot_def tryToGetTodaysAdSlot_def stream_def andthen_def
      couchbaseGetRequestWithExponentialBackoff_def couchbaseGetRequest_def resetExponentialSleepTimers_def attempt_defs gets_def)

theorem failed_wait_poisons_the_next_request_witness:
  "\<exists>s1 s2. handleRequest tree_json (\<lambda>i. i = ''0'') (Some ''d3fault'') (Some ''0'') 5 (demo_ads [WaitError (LCB_OTHER 1)]) = Ret () s1
    \<and> handleRequest tree_json (\<lambda>i. i = ''0'') (Some ''d3fault'') (Some ''0'') 65 s1 = Throws Use_after_destroy s2"
proof -
  have u: "letters_numbers_only ''d3fault''" by (simp add: letters_numbers_only_def is_digit_def)
  show ?thesis
    using failed_wait_poisons_the_next_request [of "demo_ads [WaitError (LCB_OTHER 1)]" "LCB_OTHER 1" "[]" "''d3fault''"
      "\<lambda>i. i = ''0''" "''0''" "''d3fault''" "''0''" tree_json 5 65] u
    by auto
qed

end
