(* ===== verification/AdApi.thy ===== *)
theory AdApi
  imports TodaysAdSlot
begin

section \<open>The advertising API connection\<close>

text \<open>
  \<open>Anonymous Bitcoin Computing 2/src/frontend/gettodaysadslotserverclientconnection.cpp\<close>: one object for each TCP
  connection of the HTTP API. The request line is checked, then the object walks through database requests one at a time
  (\<open>m_Stage\<close> says which answer it is waiting for) and sends one JSON answer. Every request is made with an API key, and a slot
  allows a limited number of requests, counted in the cache document.

  An object reacts to Qt signals; the signals are the events of a step relation. What the object does
  towards its environment is recorded in \<open>api_outputs\<close>. Closing the socket after an answer may emit
  its \<open>disconnected\<close> signal before the call returns (when nothing is left to be written) or later: which of the two
  happens is an input, one entry of \<open>disconnects_at_once\<close> for each call, and the slot of the signal runs inside the call. \<open>QUrl\<close> and \<open>QUrlQuery\<close>, which take the request line apart, are an
  argument (\<open>url_parser\<close>). An exception that leaves a slot ends the process, so steps are normal returns.
\<close>

subsection \<open>State and operations\<close>

datatype api_stage =
    GetAdCampaignCurrentSlotCacheIfExists
  | GetAdCampaignDocItselfToGetSlotLengthHours
  | GetAdCampaignOwnersProfileJustToGetApiKey
  | GetAdCampaignSlot
  | GetAdCampaignSlotFiller
  | CreateOrUpdateAdCampaignCurrentSlotCache

datatype api_error =
    NoAdCampaignAtThatIndex | InvalidApiKeyMessage | AdSlotNotPurchased | ApiRequestsUsedUp
  | InvalidParameterUser | InvalidParameterIndex | MissingParameters | InvalidAction | InvalidUrl | InvalidMethodParameters
  | InvalidMethod

datatype 'j api_response = NoAdResponse | CustomError api_error | AdResponse 'j

datatype 'j api_output = BeginGet string | BeginStore string 'j | Respond "'j api_response" | DeleteLater

record 'j api =
  m_Stage :: api_stage
  m_CampaignOwnerRequested :: string
  m_CampaignIndexRequested :: string
  m_ApiKeyRequested :: string
  m_FoundAdCampaignCurrentSlotCacheDoc :: bool
  m_NumApiRequestsForThisAdSlotSoFar :: int
  m_FirstSlotIndexToTry :: string
  m_CurrentSlotIndexToTry :: string
  m_SlotLengthHours :: int
  m_TheCorretApiKey :: string
  m_CurrentAdSlotExpireDateTime :: int
  m_BackendRequestPending :: bool
  m_WantsToBeDeletedLater :: bool
  ready_read_connected :: bool
  socket_connected :: bool
  disconnects_at_once :: "bool list"
  api_outputs :: "'j api_output list"

record url_parser =
  url_valid :: "string \<Rightarrow> bool"
  url_path :: "string \<Rightarrow> string"
  url_query :: "string \<Rightarrow> string \<Rightarrow> string"

abbreviation "JSON_USER_ACCOUNT_API_KEY \<equiv> ''apikey''"
abbreviation "JSON_NUM_API_REQUESTS_FOR_CURRENT_SLOT \<equiv> ''numApiRequestsForCurrentSlot''"
abbreviation "JSON_SLOT_FILLER_IMAGE_GUESSED_EXTENSION \<equiv> ''adImageExt''"
abbreviation "MAX_API_REQUESTS_PER_AD_SLOT_DURATION \<equiv> 50"
abbreviation "SECONDS_BEFORE_ACTUAL_EXPIRE_DATETIME_TO_SERVE_THE_NEXT_AD_SLOT \<equiv> (30 :: int)"

definition new_api :: "bool list \<Rightarrow> 'j api" where
  "new_api closings = \<lparr>m_Stage = GetAdCampaignCurrentSlotCacheIfExists, m_CampaignOwnerRequested = [], m_CampaignIndexRequested = [],
     m_ApiKeyRequested = [], m_FoundAdCampaignCurrentSlotCacheDoc = False, m_NumApiRequestsForThisAdSlotSoFar = 0,
     m_FirstSlotIndexToTry = [], m_CurrentSlotIndexToTry = [], m_SlotLengthHours = 0, m_TheCorretApiKey = [],
     m_CurrentAdSlotExpireDateTime = 0, m_BackendRequestPending = False, m_WantsToBeDeletedLater = False,
     ready_read_connected = True, socket_connected = True, disconnects_at_once = closings, api_outputs = []\<rparr>"

definition api_out :: "'j api_output \<Rightarrow> ('j api, unit) prog" where
  "api_out x = modify (\<lambda>s. s\<lparr>api_outputs := api_outputs s @ [x]\<rparr>)"

definition beginDbGet :: "string \<Rightarrow> api_stage \<Rightarrow> ('j api, unit) prog" where
  "beginDbGet keyToGet stageToSet = andthen (api_out (BeginGet keyToGet)) (\<lambda>_.
     modify (\<lambda>s. s\<lparr>m_BackendRequestPending := True, m_Stage := stageToSet\<rparr>))"

definition beginDbStore :: "string \<Rightarrow> 'j \<Rightarrow> api_stage \<Rightarrow> ('j api, unit) prog" where
  "beginDbStore keyToStore documentToStore stageToSet = andthen (api_out (BeginStore keyToStore documentToStore)) (\<lambda>_.
     modify (\<lambda>s. s\<lparr>m_BackendRequestPending := True, m_Stage := stageToSet\<rparr>))"

definition deleteLaterIfNoBackendRequestPendingOrWhenThatBackendRequestFinishes :: "('j api, unit) prog" where
  "deleteLaterIfNoBackendRequestPendingOrWhenThatBackendRequestFinishes =
    andthen (modify (\<lambda>s. s\<lparr>m_WantsToBeDeletedLater := True\<rparr>)) (\<lambda>_.
    reading (\<lambda>s. if \<not> m_BackendRequestPending s then api_out DeleteLater else return ()))"

text \<open>
  \<open>QAbstractSocket::disconnectFromHost\<close>, to which the slot above is connected: a socket that is connected disconnects at once
  or later. The flushes before it do not wait.
\<close>

definition disconnectFromHost :: "('j api, unit) prog" where
  "disconnectFromHost = reading (\<lambda>s. case disconnects_at_once s of [] \<Rightarrow> return ()
    | at_once # closings \<Rightarrow>
      andthen (modify (\<lambda>s. s\<lparr>disconnects_at_once := closings\<rparr>)) (\<lambda>_.
      if at_once \<and> socket_connected s then
        andthen (modify (\<lambda>s. s\<lparr>socket_connected := False\<rparr>)) (\<lambda>_.
        deleteLaterIfNoBackendRequestPendingOrWhenThatBackendRequestFinishes)
      else return ()))"

definition sendResponseAndCloseSocket :: "'j api_response \<Rightarrow> ('j api, unit) prog" where
  "sendResponseAndCloseSocket response = andthen (api_out (Respond response)) (\<lambda>_. disconnectFromHost)"

definition tryToGetCurrentSlotIndex :: "('j api, unit) prog" where
  "tryToGetCurrentSlotIndex = reading (\<lambda>s. beginDbGet (adSpaceCampaignSlotKey (m_CampaignOwnerRequested s)
     (m_CampaignIndexRequested s) (m_CurrentSlotIndexToTry s)) GetAdCampaignSlot)"

definition haveSlotLengthHoursAndApiKeyAndKnowFirstSlotIndexToTrySoTry :: "('j api, unit) prog" where
  "haveSlotLengthHoursAndApiKeyAndKnowFirstSlotIndexToTrySoTry = reading (\<lambda>s.
     if m_ApiKeyRequested s \<noteq> m_TheCorretApiKey s then sendResponseAndCloseSocket (CustomError InvalidApiKeyMessage)
     else andthen (modify (\<lambda>s. s\<lparr>m_CurrentSlotIndexToTry := m_FirstSlotIndexToTry s\<rparr>)) (\<lambda>_. tryToGetCurrentSlotIndex))"

definition continueAtJustFinishedAttemptingToGetAdCampaignCurrentSlotCache ::
  "'j json \<Rightarrow> 'j \<Rightarrow> bool \<Rightarrow> bool \<Rightarrow> ('j api, unit) prog" where
  "continueAtJustFinishedAttemptingToGetAdCampaignCurrentSlotCache J couchbaseDocument lcbOpSuccess dbError =
    (if dbError then sendResponseAndCloseSocket NoAdResponse
     else
     andthen (modify (\<lambda>s. s\<lparr>m_FirstSlotIndexToTry := ''0'', m_FoundAdCampaignCurrentSlotCacheDoc := lcbOpSuccess\<rparr>)) (\<lambda>_.
     if \<not> lcbOpSuccess then
       andthen (modify (\<lambda>s. s\<lparr>m_NumApiRequestsForThisAdSlotSoFar := 1\<rparr>)) (\<lambda>_.
       reading (\<lambda>s. beginDbGet (adSpaceCampaignKey (m_CampaignOwnerRequested s) (m_CampaignIndexRequested s))
         GetAdCampaignDocItselfToGetSlotLengthHours))
     else
       andthen (parse_json J couchbaseDocument) (\<lambda>pt.
       andthen (pt_need_int JSON_NUM_API_REQUESTS_FOR_CURRENT_SLOT pt) (\<lambda>num.
       andthen (modify (\<lambda>s. s\<lparr>m_NumApiRequestsForThisAdSlotSoFar := num\<rparr>)) (\<lambda>_.
       andthen (pt_need JSON_AD_SPACE_CAMPAIGN_SLOT_CACHE_CURRENT_SLOT pt) (\<lambda>first.
       andthen (modify (\<lambda>s. s\<lparr>m_FirstSlotIndexToTry := first\<rparr>)) (\<lambda>_.
       andthen (pt_need_int JSON_AD_SPACE_CAMPAIGN_SLOT_LENGTH_HOURS pt) (\<lambda>hours.
       andthen (modify (\<lambda>s. s\<lparr>m_SlotLengthHours := hours\<rparr>)) (\<lambda>_.
       andthen (pt_need JSON_USER_ACCOUNT_API_KEY pt) (\<lambda>key.
       andthen (modify (\<lambda>s. s\<lparr>m_TheCorretApiKey := key\<rparr>)) (\<lambda>_.
       haveSlotLengthHoursAndApiKeyAndKnowFirstSlotIndexToTrySoTry)))))))))))"

definition continueAtJustFinishedAttemptingToGetAdCampaign ::
  "'j json \<Rightarrow> 'j \<Rightarrow> bool \<Rightarrow> bool \<Rightarrow> ('j api, unit) prog" where
  "continueAtJustFinishedAttemptingToGetAdCampaign J couchbaseDocument lcbOpSuccess dbError =
    (if dbError then sendResponseAndCloseSocket NoAdResponse
     else if \<not> lcbOpSuccess then sendResponseAndCloseSocket (CustomError NoAdCampaignAtThatIndex)
     else
     andthen (parse_json J couchbaseDocument) (\<lambda>pt.
     andthen (pt_need_int JSON_AD_SPACE_CAMPAIGN_SLOT_LENGTH_HOURS pt) (\<lambda>hours.
     andthen (modify (\<lambda>s. s\<lparr>m_SlotLengthHours := hours\<rparr>)) (\<lambda>_.
     reading (\<lambda>s. beginDbGet (userAccountKey (m_CampaignOwnerRequested s)) GetAdCampaignOwnersProfileJustToGetApiKey)))))"

definition continueAtJustFinishedAttemptingToGetCampaignOwnersProfileDoc ::
  "'j json \<Rightarrow> 'j \<Rightarrow> bool \<Rightarrow> bool \<Rightarrow> ('j api, unit) prog" where
  "continueAtJustFinishedAttemptingToGetCampaignOwnersProfileDoc J couchbaseDocument lcbOpSuccess dbError =
    (if dbError \<or> \<not> lcbOpSuccess then sendResponseAndCloseSocket NoAdResponse
     else
     andthen (parse_json J couchbaseDocument) (\<lambda>pt.
     andthen (pt_need JSON_USER_ACCOUNT_API_KEY pt) (\<lambda>key.
     andthen (modify (\<lambda>s. s\<lparr>m_TheCorretApiKey := key\<rparr>)) (\<lambda>_.
     haveSlotLengthHoursAndApiKeyAndKnowFirstSlotIndexToTrySoTry))))"

text \<open>Today's slot was found: the count of requests, then the ad.\<close>

definition serve_or_refuse :: "ptree \<Rightarrow> ('j api, unit) prog" where
  "serve_or_refuse pt = reading (\<lambda>s.
    let counted = m_FoundAdCampaignCurrentSlotCacheDoc s \<and> m_FirstSlotIndexToTry s = m_CurrentSlotIndexToTry s in
    andthen (if counted then modify (\<lambda>s. s\<lparr>m_NumApiRequestsForThisAdSlotSoFar := wrap32 (m_NumApiRequestsForThisAdSlotSoFar s + 1)\<rparr>)
             else return ()) (\<lambda>_.
    reading (\<lambda>s.
    if counted \<and> m_NumApiRequestsForThisAdSlotSoFar s > MAX_API_REQUESTS_PER_AD_SLOT_DURATION
    then sendResponseAndCloseSocket (CustomError ApiRequestsUsedUp)
    else
    andthen (pt_need JSON_AD_SPACE_CAMPAIGN_SLOT_FILLED_WITH pt) (\<lambda>key. beginDbGet key GetAdCampaignSlotFiller))))"

definition continueAtJustFinishedAttemptingToGetAdCampaignSlot ::
  "'j json \<Rightarrow> int \<Rightarrow> 'j \<Rightarrow> bool \<Rightarrow> bool \<Rightarrow> ('j api, unit) prog" where
  "continueAtJustFinishedAttemptingToGetAdCampaignSlot J now couchbaseDocument lcbOpSuccess dbError =
    (if dbError then sendResponseAndCloseSocket NoAdResponse
     else if \<not> lcbOpSuccess then sendResponseAndCloseSocket (CustomError AdSlotNotPurchased)
     else
     andthen (parse_json J couchbaseDocument) (\<lambda>pt.
     reading (\<lambda>s.
     andthen (slot_range (m_SlotLengthHours s) pt) (\<lambda>(startDateTime, expireDateTime).
     andthen (modify (\<lambda>s. s\<lparr>m_CurrentAdSlotExpireDateTime := expireDateTime\<rparr>)) (\<lambda>_.
     let currentDateTime = now + SECONDS_BEFORE_ACTUAL_EXPIRE_DATETIME_TO_SERVE_THE_NEXT_AD_SLOT in
     if currentDateTime \<ge> startDateTime \<and> currentDateTime < expireDateTime then serve_or_refuse pt
     else
     andthen (next_slot_index (m_CurrentSlotIndexToTry s)) (\<lambda>i.
     andthen (modify (\<lambda>s. s\<lparr>m_CurrentSlotIndexToTry := i\<rparr>)) (\<lambda>_. tryToGetCurrentSlotIndex)))))))"

definition continueAtJustFinishedAttemptingToGetAdCampaignSlotFiller ::
  "'j json \<Rightarrow> 'j \<Rightarrow> bool \<Rightarrow> bool \<Rightarrow> ('j api, unit) prog" where
  "continueAtJustFinishedAttemptingToGetAdCampaignSlotFiller J couchbaseDocument lcbOpSuccess dbError =
    (if dbError \<or> \<not> lcbOpSuccess then sendResponseAndCloseSocket NoAdResponse
     else
     andthen (parse_json J couchbaseDocument) (\<lambda>pt.
     andthen (pt_need JSON_SLOT_FILLER_URL pt) (\<lambda>url.
     andthen (pt_need JSON_SLOT_FILLER_HOVERTEXT pt) (\<lambda>hover.
     andthen (pt_need JSON_SLOT_FILLER_IMAGE_GUESSED_EXTENSION pt) (\<lambda>ext.
     andthen (pt_need JSON_SLOT_FILLER_IMAGEB64 pt) (\<lambda>img.
     reading (\<lambda>s.
     let todaysFilledAdSlot = pt_put JSON_SLOT_FILLER_IMAGEB64 img
           (pt_put JSON_SLOT_FILLER_IMAGE_GUESSED_EXTENSION ext
           (pt_put RESPONSE_EXPIRATION_DATETIME (show_int (m_CurrentAdSlotExpireDateTime s))
           (pt_put JSON_SLOT_FILLER_HOVERTEXT hover
           (pt_put JSON_SLOT_FILLER_URL url
           (pt_put RESPONSE_ERROR_KEY RESPONSE_ERROR_NOERROR_VALUE pt_empty)))))
     in
     andthen (modify (\<lambda>s. if m_CurrentSlotIndexToTry s \<noteq> m_FirstSlotIndexToTry s
         then s\<lparr>m_NumApiRequestsForThisAdSlotSoFar := 1\<rparr> else s)) (\<lambda>_.
     reading (\<lambda>s.
     let pt2 = pt_put JSON_NUM_API_REQUESTS_FOR_CURRENT_SLOT (show_int (m_NumApiRequestsForThisAdSlotSoFar s))
           (pt_put JSON_USER_ACCOUNT_API_KEY (m_TheCorretApiKey s)
           (pt_put JSON_AD_SPACE_CAMPAIGN_SLOT_LENGTH_HOURS (show_int (m_SlotLengthHours s))
           (pt_put JSON_AD_SPACE_CAMPAIGN_SLOT_CACHE_CURRENT_SLOT (m_CurrentSlotIndexToTry s) pt_empty)))
     in
     andthen (beginDbStore (adSpaceCampaignSlotCacheKey (m_CampaignOwnerRequested s) (m_CampaignIndexRequested s))
       (write_json J pt2) CreateOrUpdateAdCampaignCurrentSlotCache) (\<lambda>_.
     sendResponseAndCloseSocket (AdResponse (write_json J todaysFilledAdSlot))))))))))))"

definition backendDbGetCallback :: "'j json \<Rightarrow> int \<Rightarrow> 'j \<Rightarrow> bool \<Rightarrow> bool \<Rightarrow> ('j api, unit) prog" where
  "backendDbGetCallback J now couchbaseDocument lcbOpSuccess dbError =
    andthen (modify (\<lambda>s. s\<lparr>m_BackendRequestPending := False\<rparr>)) (\<lambda>_.
    reading (\<lambda>s.
    if m_WantsToBeDeletedLater s then api_out DeleteLater
    else (case m_Stage s of
      GetAdCampaignCurrentSlotCacheIfExists \<Rightarrow>
        continueAtJustFinishedAttemptingToGetAdCampaignCurrentSlotCache J couchbaseDocument lcbOpSuccess dbError
    | GetAdCampaignDocItselfToGetSlotLengthHours \<Rightarrow>
        continueAtJustFinishedAttemptingToGetAdCampaign J couchbaseDocument lcbOpSuccess dbError
    | GetAdCampaignOwnersProfileJustToGetApiKey \<Rightarrow>
        continueAtJustFinishedAttemptingToGetCampaignOwnersProfileDoc J couchbaseDocument lcbOpSuccess dbError
    | GetAdCampaignSlot \<Rightarrow>
        continueAtJustFinishedAttemptingToGetAdCampaignSlot J now couchbaseDocument lcbOpSuccess dbError
    | GetAdCampaignSlotFiller \<Rightarrow>
        continueAtJustFinishedAttemptingToGetAdCampaignSlotFiller J couchbaseDocument lcbOpSuccess dbError
    | CreateOrUpdateAdCampaignCurrentSlotCache \<Rightarrow> return ())))"

definition backendDbStoreCallback :: "bool \<Rightarrow> bool \<Rightarrow> ('j api, unit) prog" where
  "backendDbStoreCallback lcbOpSuccess dbError =
    andthen (modify (\<lambda>s. s\<lparr>m_BackendRequestPending := False\<rparr>)) (\<lambda>_.
    reading (\<lambda>s.
    if m_WantsToBeDeletedLater s then api_out DeleteLater
    else if m_Stage s = CreateOrUpdateAdCampaignCurrentSlotCache
      then deleteLaterIfNoBackendRequestPendingOrWhenThatBackendRequestFinishes
    else return ()))"

text \<open>The request line. \<open>True\<close>: control reaches the end of the line's checks (every refusal returns at once).\<close>

definition refuse :: "api_error \<Rightarrow> ('j api, bool) prog" where
  "refuse e = andthen (sendResponseAndCloseSocket (CustomError e)) (\<lambda>_. return False)"

definition dummy_url :: "string \<Rightarrow> string" where
  "dummy_url encodedUrlPath = ''http://dummydomain.com'' @ encodedUrlPath"

definition handle_parameters :: "string \<Rightarrow> string \<Rightarrow> string \<Rightarrow> ('j api, bool) prog" where
  "handle_parameters userStr indexStr apiKeyStr =
    (if indexStr = [] \<or> userStr = [] \<or> apiKeyStr = [] then refuse MissingParameters
     else case qstring_to_int indexStr of
       None \<Rightarrow> refuse InvalidParameterIndex
     | Some x \<Rightarrow>
       if \<not> x > -1 then refuse InvalidParameterIndex
       else
       andthen (modify (\<lambda>s. s\<lparr>m_CampaignOwnerRequested := userStr, m_CampaignIndexRequested := indexStr,
         m_ApiKeyRequested := apiKeyStr\<rparr>)) (\<lambda>_.
       if \<not> letters_numbers_only userStr then refuse InvalidParameterUser
       else if \<not> letters_numbers_only apiKeyStr then refuse InvalidApiKeyMessage
       else
       andthen (beginDbGet (adSpaceCampaignSlotCacheKey userStr indexStr) GetAdCampaignCurrentSlotCacheIfExists) (\<lambda>_.
       andthen (modify (\<lambda>s. s\<lparr>ready_read_connected := False\<rparr>)) (\<lambda>_. return True))))"

definition handle_line :: "url_parser \<Rightarrow> string \<Rightarrow> ('j api, bool) prog" where
  "handle_line U currentLine =
    (if take 4 currentLine \<noteq> ''GET '' then refuse InvalidMethod
     else
     let getLineParts = split_at (CHR '' '') currentLine in
     case list_at getLineParts 1 of
       None \<Rightarrow> refuse InvalidMethodParameters
     | Some encodedUrlPath \<Rightarrow>
       if take 1 encodedUrlPath \<noteq> ''/'' then refuse InvalidUrl
       else
       let theUrl = dummy_url encodedUrlPath in
       if \<not> url_valid U theUrl then refuse InvalidUrl
       else if url_path U theUrl \<noteq> ''/api'' then refuse InvalidUrl
       else if url_query U theUrl ''action'' \<noteq> ''getcurrentad'' then refuse InvalidAction
       else handle_parameters (url_query U theUrl ''user'') (url_query U theUrl ''index'')
         (url_query U theUrl JSON_USER_ACCOUNT_API_KEY))"

definition handleClientReadyRead :: "url_parser \<Rightarrow> string option \<Rightarrow> ('j api, unit) prog" where
  "handleClientReadyRead U line = reading (\<lambda>s.
    if m_WantsToBeDeletedLater s \<and> \<not> m_BackendRequestPending s then api_out DeleteLater
    else if m_BackendRequestPending s then return ()
    else case line of None \<Rightarrow> return ()
    | Some currentLine \<Rightarrow>
      andthen (handle_line U currentLine) (\<lambda>go_on.
      if \<not> go_on then return ()
      else reading (\<lambda>s. if \<not> m_BackendRequestPending s then sendResponseAndCloseSocket NoAdResponse else return ())))"

subsection \<open>The signals as steps\<close>

text \<open>
  A database answer comes only while a request is pending, to the slot of the request last begun; a line only while
  the signal is connected, and \<open>disconnected\<close> once. The label is the input: the line that could be read, or the answer.
\<close>

datatype 'j api_input = LineRead "string option" | GetAnswer 'j bool bool | StoreAnswer bool bool | Disconnected

fun is_answer :: "'j api_input \<Rightarrow> bool" where
  "is_answer (GetAnswer doc ok e) = True"
| "is_answer (StoreAnswer ok e) = True"
| "is_answer _ = False"

inductive api_step :: "'j json \<Rightarrow> url_parser \<Rightarrow> 'j api_input \<Rightarrow> 'j api \<Rightarrow> 'j api \<Rightarrow> bool" for J U where
  ready_read: "ready_read_connected s \<Longrightarrow> handleClientReadyRead U line s = Ret () s' \<Longrightarrow> api_step J U (LineRead line) s s'"
| get_answer: "m_BackendRequestPending s \<Longrightarrow> m_Stage s \<noteq> CreateOrUpdateAdCampaignCurrentSlotCache
    \<Longrightarrow> backendDbGetCallback J now doc ok dbError s = Ret () s' \<Longrightarrow> api_step J U (GetAnswer doc ok dbError) s s'"
| store_answer: "m_BackendRequestPending s \<Longrightarrow> m_Stage s = CreateOrUpdateAdCampaignCurrentSlotCache
    \<Longrightarrow> backendDbStoreCallback ok dbError s = Ret () s' \<Longrightarrow> api_step J U (StoreAnswer ok dbError) s s'"
| disconnected: "socket_connected s
    \<Longrightarrow> deleteLaterIfNoBackendRequestPendingOrWhenThatBackendRequestFinishes (s\<lparr>socket_connected := False\<rparr>) = Ret () s'
    \<Longrightarrow> api_step J U Disconnected s s'"

inductive api_reach :: "'j json \<Rightarrow> url_parser \<Rightarrow> 'j api_input list \<Rightarrow> 'j api \<Rightarrow> bool" for J U where
  start: "api_reach J U [] (new_api closings)"
| step: "api_reach J U inputs s \<Longrightarrow> api_step J U i s s' \<Longrightarrow> api_reach J U (inputs @ [i]) s'"

inductive_cases api_stepE: "api_step J U i s s'"

subsection \<open>Invariants of a connection\<close>

fun is_request :: "'j api_output \<Rightarrow> bool" where
  "is_request (BeginGet k) = True"
| "is_request (BeginStore k d) = True"
| "is_request _ = False"

fun is_ad :: "'j api_output \<Rightarrow> bool" where
  "is_ad (Respond (AdResponse d)) = True"
| "is_ad _ = False"

text \<open>
  What the client asked for in a line that was read, and the requests with their answers. \<open>owner_key\<close>: a document of the owner of
  the campaign, the account or the campaign's slot cache, was asked for and answered, and it holds the API key.
\<close>

definition asked :: "url_parser \<Rightarrow> 'j api_input list \<Rightarrow> string \<Rightarrow> string \<Rightarrow> string \<Rightarrow> bool" where
  "asked U inputs owner idx key \<longleftrightarrow> (\<exists>line path. LineRead (Some line) \<in> set inputs
     \<and> list_at (split_at (CHR '' '') line) 1 = Some path
     \<and> url_query U (dummy_url path) ''user'' = owner \<and> url_query U (dummy_url path) ''index'' = idx
     \<and> url_query U (dummy_url path) JSON_USER_ACCOUNT_API_KEY = key)"

abbreviation requests :: "'j api \<Rightarrow> 'j api_output list" where
  "requests s \<equiv> filter is_request (api_outputs s)"

definition exchanges :: "'j api_input list \<Rightarrow> 'j api \<Rightarrow> ('j api_output \<times> 'j api_input) list" where
  "exchanges inputs s = zip (requests s) (filter is_answer inputs)"

definition owner_key ::
  "'j json \<Rightarrow> ('j api_output \<times> 'j api_input) list \<Rightarrow> string \<Rightarrow> string \<Rightarrow> string \<Rightarrow> bool" where
  "owner_key J es owner idx key \<longleftrightarrow> (\<exists>k doc pt. k \<in> {userAccountKey owner, adSpaceCampaignSlotCacheKey owner idx}
     \<and> (BeginGet k, GetAnswer doc True False) \<in> set es \<and> read_json J doc = Some pt
     \<and> pt_get JSON_USER_ACCOUNT_API_KEY pt = Some key)"

lemma owner_keyI:
  "(BeginGet k, GetAnswer doc True False) \<in> set es \<Longrightarrow> k \<in> {userAccountKey owner, adSpaceCampaignSlotCacheKey owner idx}
    \<Longrightarrow> read_json J doc = Some pt \<Longrightarrow> pt_get JSON_USER_ACCOUNT_API_KEY pt = Some key \<Longrightarrow> owner_key J es owner idx key"
  unfolding owner_key_def by blast

text \<open>
  The invariant counts the requests begun, forbids deletion while one is pending, knows which document the two answers
  with a key belong to, and keeps every ad behind the key.
\<close>

abbreviation asked_for :: "url_parser \<Rightarrow> 'j api_input list \<Rightarrow> 'j api \<Rightarrow> bool" where
  "asked_for U inputs s \<equiv> asked U inputs (m_CampaignOwnerRequested s) (m_CampaignIndexRequested s) (m_ApiKeyRequested s)"

abbreviation key_shown :: "'j json \<Rightarrow> 'j api_input list \<Rightarrow> 'j api \<Rightarrow> bool" where
  "key_shown J inputs s \<equiv> owner_key J (exchanges inputs s) (m_CampaignOwnerRequested s) (m_CampaignIndexRequested s) (m_ApiKeyRequested s)"

definition past_key_check :: "api_stage \<Rightarrow> bool" where
  "past_key_check st \<longleftrightarrow> st \<in> {GetAdCampaignSlot, GetAdCampaignSlotFiller, CreateOrUpdateAdCampaignCurrentSlotCache}"

definition api_inv :: "'j json \<Rightarrow> url_parser \<Rightarrow> 'j api_input list \<Rightarrow> 'j api \<Rightarrow> bool" where
  "api_inv J U inputs s \<longleftrightarrow>
     length (requests s) = length (filter is_answer inputs) + (if m_BackendRequestPending s then 1 else 0)
     \<and> (DeleteLater \<in> set (api_outputs s) \<longrightarrow> m_WantsToBeDeletedLater s \<and> \<not> m_BackendRequestPending s)
     \<and> (m_BackendRequestPending s \<longrightarrow> \<not> ready_read_connected s \<and> asked_for U inputs s
          \<and> (m_Stage s = GetAdCampaignCurrentSlotCacheIfExists \<longrightarrow> last (requests s)
              = BeginGet (adSpaceCampaignSlotCacheKey (m_CampaignOwnerRequested s) (m_CampaignIndexRequested s)))
          \<and> (m_Stage s = GetAdCampaignOwnersProfileJustToGetApiKey \<longrightarrow> last (requests s)
              = BeginGet (userAccountKey (m_CampaignOwnerRequested s)))
          \<and> (past_key_check (m_Stage s) \<longrightarrow> key_shown J inputs s))
     \<and> (filter is_ad (api_outputs s) \<noteq> [] \<longrightarrow> key_shown J inputs s \<and> asked_for U inputs s \<and> \<not> ready_read_connected s
          \<and> m_Stage s = CreateOrUpdateAdCampaignCurrentSlotCache \<and> length (filter is_ad (api_outputs s)) = 1)"

lemmas api_ops = api_out_def beginDbGet_def beginDbStore_def sendResponseAndCloseSocket_def disconnectFromHost_def
  deleteLaterIfNoBackendRequestPendingOrWhenThatBackendRequestFinishes_def tryToGetCurrentSlotIndex_def
  haveSlotLengthHoursAndApiKeyAndKnowFirstSlotIndexToTrySoTry_def refuse_def

lemma zip_short [simp]: "length xs = length ys \<Longrightarrow> zip (xs @ zs) ys = zip xs ys"
  by (simp add: zip_append1)

lemma zip_answer: "length xs = Suc (length ys) \<Longrightarrow> zip xs (ys @ [y]) = zip xs ys @ [(last xs, y)]"
  by (cases xs rule: rev_cases) simp_all

text \<open>A state with no pending request in which the object may begin one.\<close>

definition api_idle :: "url_parser \<Rightarrow> 'j api_input list \<Rightarrow> 'j api \<Rightarrow> bool" where
  "api_idle U inputs s \<longleftrightarrow> length (requests s) = length (filter is_answer inputs) \<and> DeleteLater \<notin> set (api_outputs s)
     \<and> \<not> m_BackendRequestPending s \<and> \<not> ready_read_connected s \<and> filter is_ad (api_outputs s) = [] \<and> asked_for U inputs s"

text \<open>The answer is sent last, so a socket that disconnects at once finds no pending request, and the object may go.\<close>

lemma idle_refuse:
  "api_idle U inputs s \<Longrightarrow> runs_to (sendResponseAndCloseSocket (CustomError e)) (\<lambda>_. api_inv J U inputs) E s"
  "api_idle U inputs s \<Longrightarrow> runs_to (sendResponseAndCloseSocket NoAdResponse) (\<lambda>_. api_inv J U inputs) E s"
  by (simp_all add: api_ops run_rules api_idle_def api_inv_def split: list.splits)

lemma idle_key_check:
  assumes "api_idle U inputs s" and "m_ApiKeyRequested s = m_TheCorretApiKey s \<Longrightarrow> key_shown J inputs s"
  shows "runs_to haveSlotLengthHoursAndApiKeyAndKnowFirstSlotIndexToTrySoTry (\<lambda>_. api_inv J U inputs) E s"
proof (cases "m_ApiKeyRequested s = m_TheCorretApiKey s")
  case False
  then show ?thesis
    by (simp add: haveSlotLengthHoursAndApiKeyAndKnowFirstSlotIndexToTrySoTry_def run_rules idle_refuse assms(1))
next
  case True
  then show ?thesis using assms
    by (simp add: haveSlotLengthHoursAndApiKeyAndKnowFirstSlotIndexToTrySoTry_def tryToGetCurrentSlotIndex_def beginDbGet_def
        api_out_def run_rules api_idle_def api_inv_def exchanges_def past_key_check_def)
qed

lemma api_idle_update [simp]:
  "api_idle U inputs (s\<lparr>m_NumApiRequestsForThisAdSlotSoFar := a\<rparr>) = api_idle U inputs s"
  "api_idle U inputs (s\<lparr>m_CurrentAdSlotExpireDateTime := b\<rparr>) = api_idle U inputs s"
  "api_idle U inputs (s\<lparr>m_CurrentSlotIndexToTry := c\<rparr>) = api_idle U inputs s"
  "api_idle U inputs (s\<lparr>m_FirstSlotIndexToTry := c\<rparr>) = api_idle U inputs s"
  "api_idle U inputs (s\<lparr>m_FoundAdCampaignCurrentSlotCacheDoc := f\<rparr>) = api_idle U inputs s"
  "api_idle U inputs (s\<lparr>m_SlotLengthHours := h\<rparr>) = api_idle U inputs s"
  "api_idle U inputs (s\<lparr>m_TheCorretApiKey := k\<rparr>) = api_idle U inputs s"
  "exchanges inputs (s\<lparr>m_NumApiRequestsForThisAdSlotSoFar := a\<rparr>) = exchanges inputs s"
  "exchanges inputs (s\<lparr>m_CurrentAdSlotExpireDateTime := b\<rparr>) = exchanges inputs s"
  "exchanges inputs (s\<lparr>m_CurrentSlotIndexToTry := c\<rparr>) = exchanges inputs s"
  "exchanges inputs (s\<lparr>m_FirstSlotIndexToTry := c\<rparr>) = exchanges inputs s"
  "exchanges inputs (s\<lparr>m_FoundAdCampaignCurrentSlotCacheDoc := f\<rparr>) = exchanges inputs s"
  "exchanges inputs (s\<lparr>m_SlotLengthHours := h\<rparr>) = exchanges inputs s"
  "exchanges inputs (s\<lparr>m_TheCorretApiKey := k\<rparr>) = exchanges inputs s"
  by (simp_all add: api_idle_def exchanges_def)

lemma idle_cache:
  assumes "api_idle U inputs s"
    and "(BeginGet (adSpaceCampaignSlotCacheKey (m_CampaignOwnerRequested s) (m_CampaignIndexRequested s)), GetAnswer d ok e)
      \<in> set (exchanges inputs s)"
  shows "runs_to (continueAtJustFinishedAttemptingToGetAdCampaignCurrentSlotCache J d ok e) (\<lambda>_. api_inv J U inputs) (\<lambda>_. True) s"
proof -
  consider (error) e | (none) "\<not> e" "\<not> ok" | (found) "\<not> e" ok by blast
  then show ?thesis
  proof cases
    case error
    then show ?thesis
      by (simp add: continueAtJustFinishedAttemptingToGetAdCampaignCurrentSlotCache_def idle_refuse assms(1))
  next
    case none
    then show ?thesis using assms(1)
      by (simp add: continueAtJustFinishedAttemptingToGetAdCampaignCurrentSlotCache_def run_rules beginDbGet_def api_out_def
          api_idle_def api_inv_def past_key_check_def)
  next
    case found
    have shown: "key_shown J inputs s"
      if "read_json J d = Some pt" "pt_get JSON_USER_ACCOUNT_API_KEY pt = Some (m_ApiKeyRequested s)" for pt
      by (rule owner_keyI [where k = "adSpaceCampaignSlotCacheKey (m_CampaignOwnerRequested s) (m_CampaignIndexRequested s)", OF _ _ that])
        (use assms(2) found in simp_all)
    show ?thesis
      unfolding continueAtJustFinishedAttemptingToGetAdCampaignCurrentSlotCache_def using found
      apply (simp add: run_rules split: option.splits)
      apply (intro allI impI, rule idle_key_check)
       apply (simp add: assms(1))
      apply (auto intro!: shown)
      done
  qed
qed

lemma idle_campaign:
  "api_idle U inputs s
    \<Longrightarrow> runs_to (continueAtJustFinishedAttemptingToGetAdCampaign J d ok e) (\<lambda>_. api_inv J U inputs) (\<lambda>_. True) s"
  unfolding continueAtJustFinishedAttemptingToGetAdCampaign_def
  by (auto simp: run_rules idle_refuse split: option.splits)
    (auto simp: beginDbGet_def api_out_def run_rules api_idle_def api_inv_def past_key_check_def)

lemma idle_profile:
  assumes "api_idle U inputs s"
    and "(BeginGet (userAccountKey (m_CampaignOwnerRequested s)), GetAnswer d ok e) \<in> set (exchanges inputs s)"
  shows "runs_to (continueAtJustFinishedAttemptingToGetCampaignOwnersProfileDoc J d ok e) (\<lambda>_. api_inv J U inputs) (\<lambda>_. True) s"
proof (cases "e \<or> \<not> ok")
  case True
  then show ?thesis
    by (simp add: continueAtJustFinishedAttemptingToGetCampaignOwnersProfileDoc_def idle_refuse assms(1))
next
  case False
  have shown: "key_shown J inputs s"
    if "read_json J d = Some pt" "pt_get JSON_USER_ACCOUNT_API_KEY pt = Some (m_ApiKeyRequested s)" for pt
    by (rule owner_keyI [where k = "userAccountKey (m_CampaignOwnerRequested s)", OF _ _ that]) (use assms(2) False in simp_all)
  show ?thesis
    unfolding continueAtJustFinishedAttemptingToGetCampaignOwnersProfileDoc_def using False
    apply (simp add: run_rules split: option.splits)
    apply (intro allI impI, rule idle_key_check)
     apply (simp add: assms(1))
    apply (auto intro!: shown)
    done
qed

lemma idle_get:
  "api_idle U inputs s \<Longrightarrow> key_shown J inputs s \<Longrightarrow> past_key_check st \<Longrightarrow> runs_to (beginDbGet k st) (\<lambda>_. api_inv J U inputs) E s"
  by (auto simp: beginDbGet_def api_out_def run_rules api_idle_def api_inv_def exchanges_def past_key_check_def)

lemma idle_serve:
  "api_idle U inputs s \<Longrightarrow> key_shown J inputs s \<Longrightarrow> runs_to (serve_or_refuse pt) (\<lambda>_. api_inv J U inputs) (\<lambda>_. True) s"
  unfolding serve_or_refuse_def Let_def
  by (simp add: run_rules idle_refuse idle_get past_key_check_def split: option.splits)

lemma idle_try:
  "api_idle U inputs s \<Longrightarrow> key_shown J inputs s \<Longrightarrow> runs_to tryToGetCurrentSlotIndex (\<lambda>_. api_inv J U inputs) (\<lambda>_. True) s"
  by (simp add: tryToGetCurrentSlotIndex_def run_rules idle_get past_key_check_def)

lemma idle_slot:
  "api_idle U inputs s \<Longrightarrow> key_shown J inputs s
    \<Longrightarrow> runs_to (continueAtJustFinishedAttemptingToGetAdCampaignSlot J now d ok e) (\<lambda>_. api_inv J U inputs) (\<lambda>_. True) s"
  unfolding continueAtJustFinishedAttemptingToGetAdCampaignSlot_def Let_def
  by (simp add: run_rules idle_refuse idle_serve idle_try split: option.splits prod.splits)

text \<open>The ad is sent after the store was begun: a socket that disconnects at once finds a request pending.\<close>

lemma store_then_send:
  assumes "api_idle U inputs s" and "key_shown J inputs s"
  shows "runs_to (andthen (beginDbStore k v CreateOrUpdateAdCampaignCurrentSlotCache)
      (\<lambda>_. sendResponseAndCloseSocket (AdResponse ad))) (\<lambda>_. api_inv J U inputs) E s"
  using assms by (auto simp: api_ops run_rules api_idle_def api_inv_def exchanges_def split: list.splits)

lemma idle_filler:
  "api_idle U inputs s \<Longrightarrow> key_shown J inputs s
    \<Longrightarrow> runs_to (continueAtJustFinishedAttemptingToGetAdCampaignSlotFiller J d ok e) (\<lambda>_. api_inv J U inputs) (\<lambda>_. True) s"
  unfolding continueAtJustFinishedAttemptingToGetAdCampaignSlotFiller_def Let_def
  by (auto simp: run_rules idle_refuse split: option.splits intro!: store_then_send [unfolded runs_to_andthen])

text \<open>A line is read only by an object with no pending request that has sent no ad.\<close>

definition api_fresh :: "'j api_input list \<Rightarrow> 'j api \<Rightarrow> bool" where
  "api_fresh inputs s \<longleftrightarrow> length (requests s) = length (filter is_answer inputs) \<and> DeleteLater \<notin> set (api_outputs s)
     \<and> \<not> m_BackendRequestPending s \<and> filter is_ad (api_outputs s) = []"

lemma fresh_update [simp]:
  "api_fresh inputs (s\<lparr>m_CampaignOwnerRequested := a, m_CampaignIndexRequested := b, m_ApiKeyRequested := c\<rparr>) = api_fresh inputs s"
  by (simp add: api_fresh_def)

lemma fresh_inv: "api_fresh inputs s \<Longrightarrow> api_inv J U inputs s"
  by (simp add: api_fresh_def api_inv_def)

abbreviation line_taken :: "'j json \<Rightarrow> url_parser \<Rightarrow> 'j api_input list \<Rightarrow> bool \<Rightarrow> 'j api \<Rightarrow> bool" where
  "line_taken J U inputs \<equiv> \<lambda>r s'. api_inv J U inputs s' \<and> (r \<longrightarrow> m_BackendRequestPending s')"

lemma fresh_refuse: "api_fresh inputs s \<Longrightarrow> runs_to (refuse e) (line_taken J U inputs) E s"
  by (simp add: api_ops run_rules api_fresh_def api_inv_def split: list.splits)

lemma fresh_parameters:
  "api_fresh inputs s \<Longrightarrow> asked U inputs u i k \<Longrightarrow> runs_to (handle_parameters u i k) (line_taken J U inputs) (\<lambda>_. True) s"
  unfolding handle_parameters_def
  by (auto simp: run_rules fresh_refuse split: option.splits)
    (auto simp: beginDbGet_def api_out_def run_rules api_fresh_def api_inv_def past_key_check_def)

lemma fresh_line:
  assumes "api_fresh inputs s" and "LineRead (Some line) \<in> set inputs"
  shows "runs_to (handle_line U line) (line_taken J U inputs) (\<lambda>_. True) s"
proof -
  have "asked U inputs (url_query U (dummy_url path) ''user'') (url_query U (dummy_url path) ''index'')
      (url_query U (dummy_url path) JSON_USER_ACCOUNT_API_KEY)" if "list_at (split_at (CHR '' '') line) 1 = Some path" for path
    using assms(2) that unfolding asked_def by blast
  then show ?thesis
    unfolding handle_line_def Let_def
    by (auto simp: run_rules fresh_refuse fresh_parameters assms(1) split: option.splits)
qed

lemma ready_read_inv:
  assumes "api_inv J U inputs s" and "ready_read_connected s"
  shows "runs_to (handleClientReadyRead U line) (\<lambda>_. api_inv J U (inputs @ [LineRead line])) (\<lambda>_. True) s"
proof (cases "m_WantsToBeDeletedLater s")
  case True
  with assms show ?thesis by (auto simp: handleClientReadyRead_def run_rules api_out_def api_inv_def)
next
  case False
  with assms have fresh: "api_fresh (inputs @ [LineRead line]) s" by (auto simp: api_inv_def api_fresh_def)
  then have idle: "\<not> m_BackendRequestPending s" by (simp add: api_fresh_def)
  show ?thesis
  proof (cases line)
    case None
    with False idle fresh show ?thesis by (simp add: handleClientReadyRead_def run_rules fresh_inv)
  next
    case (Some l)
    have "LineRead (Some l) \<in> set (inputs @ [LineRead line])" using Some by simp
    from runs_to_mono [OF fresh_line [OF fresh this, of U J]] show ?thesis using False idle Some
      by (auto simp: handleClientReadyRead_def run_rules)
  qed
qed

lemma get_answer_inv:
  assumes inv: "api_inv J U inputs s" and pending: "m_BackendRequestPending s"
    and stage: "m_Stage s \<noteq> CreateOrUpdateAdCampaignCurrentSlotCache"
  shows "runs_to (backendDbGetCallback J now doc ok e) (\<lambda>_. api_inv J U (inputs @ [GetAnswer doc ok e])) (\<lambda>_. True) s"
proof -
  let ?inputs = "inputs @ [GetAnswer doc ok e]" and ?s = "s\<lparr>m_BackendRequestPending := False\<rparr>"
  have "length (requests s) = Suc (length (filter is_answer inputs))" using inv pending by (simp add: api_inv_def)
  from zip_answer [OF this] have ex: "exchanges ?inputs ?s = exchanges inputs s @ [(last (requests s), GetAnswer doc ok e)]"
    by (simp add: exchanges_def)
  have asked: "asked_for U inputs s \<Longrightarrow> asked_for U ?inputs s" by (auto simp: asked_def)
  have idle: "api_idle U ?inputs ?s"
    using inv pending stage asked by (auto simp: api_inv_def api_idle_def)
  have cache: "m_Stage s = GetAdCampaignCurrentSlotCacheIfExists
      \<Longrightarrow> (BeginGet (adSpaceCampaignSlotCacheKey (m_CampaignOwnerRequested ?s) (m_CampaignIndexRequested ?s)), GetAnswer doc ok e)
        \<in> set (exchanges ?inputs ?s)"
    and profile: "m_Stage s = GetAdCampaignOwnersProfileJustToGetApiKey
      \<Longrightarrow> (BeginGet (userAccountKey (m_CampaignOwnerRequested ?s)), GetAnswer doc ok e) \<in> set (exchanges ?inputs ?s)"
    unfolding ex using inv pending by (auto simp: api_inv_def)
  have shown: "past_key_check (m_Stage s) \<Longrightarrow> key_shown J ?inputs ?s"
    unfolding ex using inv pending by (auto simp: api_inv_def owner_key_def)
  show ?thesis
  proof (cases "m_WantsToBeDeletedLater s")
    case True
    with idle show ?thesis by (auto simp: backendDbGetCallback_def run_rules api_out_def api_idle_def api_inv_def)
  next
    case False
    with idle stage cache profile shown show ?thesis
      unfolding backendDbGetCallback_def
      by (cases "m_Stage s")
        (simp_all add: run_rules past_key_check_def idle_cache idle_campaign idle_profile idle_slot idle_filler)
  qed
qed

lemma delete_inv:
  "api_inv J U inputs s
    \<Longrightarrow> runs_to deleteLaterIfNoBackendRequestPendingOrWhenThatBackendRequestFinishes (\<lambda>_. api_inv J U inputs) (\<lambda>_. True) s"
  unfolding deleteLaterIfNoBackendRequestPendingOrWhenThatBackendRequestFinishes_def
  by (auto simp: run_rules api_out_def api_inv_def exchanges_def)

lemma store_answer_inv:
  assumes "api_inv J U inputs s" and "m_BackendRequestPending s"
  shows "runs_to (backendDbStoreCallback ok e) (\<lambda>_. api_inv J U (inputs @ [StoreAnswer ok e])) (\<lambda>_. True) s"
proof -
  have "length (requests s) = Suc (length (filter is_answer inputs))" using assms by (simp add: api_inv_def)
  from zip_answer [OF this] have ex: "exchanges (inputs @ [StoreAnswer ok e]) (s\<lparr>m_BackendRequestPending := False\<rparr>)
      = exchanges inputs s @ [(last (requests s), StoreAnswer ok e)]"
    by (simp add: exchanges_def)
  have "asked_for U inputs s \<Longrightarrow> asked_for U (inputs @ [StoreAnswer ok e]) s" by (auto simp: asked_def)
  moreover have "key_shown J inputs s \<Longrightarrow> key_shown J (inputs @ [StoreAnswer ok e]) (s\<lparr>m_BackendRequestPending := False\<rparr>)"
    unfolding ex by (auto simp: owner_key_def)
  ultimately have inv: "api_inv J U (inputs @ [StoreAnswer ok e]) (s\<lparr>m_BackendRequestPending := False\<rparr>)"
    using assms by (auto simp: api_inv_def)
  then have "api_inv J U (inputs @ [StoreAnswer ok e]) (s\<lparr>m_BackendRequestPending := False, api_outputs := api_outputs s @ [DeleteLater]\<rparr>)"
    if "m_WantsToBeDeletedLater s"
    using that by (auto simp: api_inv_def exchanges_def)
  with inv show ?thesis
    unfolding backendDbStoreCallback_def by (auto simp: run_rules delete_inv api_out_def)
qed

lemma api_step_inv:
  assumes "api_step J U i s s'" and "api_inv J U inputs s"
  shows "api_inv J U (inputs @ [i]) s'"
  using assms
proof cases
  case (ready_read line)
  with ready_read_inv [OF assms(2)] show ?thesis by (auto dest: runs_to_Ret)
next
  case (get_answer now doc ok dbError)
  with runs_to_Ret [OF get_answer_inv [OF assms(2)]] show ?thesis by simp
next
  case (store_answer ok dbError)
  with store_answer_inv [OF assms(2)] show ?thesis by (auto dest: runs_to_Ret)
next
  case disconnected
  have "api_inv J U (inputs @ [Disconnected]) (s\<lparr>socket_connected := False\<rparr>)"
    using assms(2) by (auto simp: api_inv_def exchanges_def asked_def)
  from runs_to_Ret [OF delete_inv [OF this]] disconnected show ?thesis by simp
qed

lemma reach_inv: "api_reach J U inputs s \<Longrightarrow> api_inv J U inputs s"
proof (induction rule: api_reach.induct)
  case (start closings)
  show ?case by (simp add: api_inv_def new_api_def)
next
  case (step inputs s i s')
  then show ?case by (blast intro: api_step_inv)
qed

subsection \<open>Properties\<close>

text \<open>
  C36. No ad without the key: in every reachable state of a connection, an ad that was sent was sent once, after the client's line
  was taken (no further line is read), and to a client who gave the API key of the campaign's owner: the key given in a line that
  was read is the key in a document that the connection asked the database for and got, the account document of the owner named in
  that line or the slot cache document of the campaign named in it.
\<close>

theorem ads_need_the_api_key:
  assumes "api_reach J U inputs s" and "Respond (AdResponse d) \<in> set (api_outputs s)"
  shows "\<exists>owner idx key. asked U inputs owner idx key \<and> owner_key J (exchanges inputs s) owner idx key
    \<and> length (filter is_ad (api_outputs s)) = 1 \<and> \<not> ready_read_connected s"
proof -
  have "Respond (AdResponse d) \<in> set (filter is_ad (api_outputs s))" using assms(2) by simp
  then have "filter is_ad (api_outputs s) \<noteq> []" by (metis empty_iff empty_set)
  then show ?thesis using reach_inv [OF assms(1)] by (auto simp: api_inv_def)
qed

text \<open>
  C39. One request at a time, and no use after deletion: in every reachable state, whether the socket disconnects while an answer is
  being sent or later, the number of database requests begun is the number of answers received plus the pending one, and
  the object is deleted only when none is pending, so no answer arrives at a deleted object.
\<close>

theorem no_answer_for_a_deleted_connection:
  assumes "api_reach J U inputs s"
  shows "length (filter is_request (api_outputs s)) = length (filter is_answer inputs) + (if m_BackendRequestPending s then 1 else 0)
    \<and> (DeleteLater \<in> set (api_outputs s) \<longrightarrow> \<not> m_BackendRequestPending s
        \<and> \<not> (\<exists>i s'. is_answer i \<and> api_step J U i s s'))"
  using reach_inv [OF assms] by (auto simp: api_inv_def elim: api_stepE)

definition api_cache_doc :: "string \<Rightarrow> int \<Rightarrow> string \<Rightarrow> int \<Rightarrow> ptree" where
  "api_cache_doc slot hours key num = plain_doc [(JSON_AD_SPACE_CAMPAIGN_SLOT_CACHE_CURRENT_SLOT, slot),
     (JSON_AD_SPACE_CAMPAIGN_SLOT_LENGTH_HOURS, show_int hours), (JSON_USER_ACCOUNT_API_KEY, key),
     (JSON_NUM_API_REQUESTS_FOR_CURRENT_SLOT, show_int num)]"

lemma api_cache_doc_puts:
  "pt_put JSON_NUM_API_REQUESTS_FOR_CURRENT_SLOT (show_int num) (pt_put JSON_USER_ACCOUNT_API_KEY key
     (pt_put JSON_AD_SPACE_CAMPAIGN_SLOT_LENGTH_HOURS (show_int hours)
     (pt_put JSON_AD_SPACE_CAMPAIGN_SLOT_CACHE_CURRENT_SLOT slot pt_empty))) = api_cache_doc slot hours key num"
  by (simp add: pt_put_def pt_empty_def api_cache_doc_def plain_doc_def)

definition closes_at_once :: "'j api \<Rightarrow> bool" where
  "closes_at_once t \<longleftrightarrow> socket_connected t \<and> (\<exists>closings. disconnects_at_once t = True # closings)"

lemma cache_answer:
  assumes "m_Stage t = GetAdCampaignCurrentSlotCacheIfExists" and "\<not> m_WantsToBeDeletedLater t"
    and "read_json J cache = Some (api_cache_doc slot hours (m_ApiKeyRequested t) num)"
    and "- (2 ^ 31) \<le> hours" "hours < 2 ^ 31" and "- (2 ^ 31) \<le> num" "num < 2 ^ 31"
  shows "\<exists>t1. backendDbGetCallback J now cache True False t = Ret () t1
    \<and> api_outputs t1 = api_outputs t @ [BeginGet (adSpaceCampaignSlotKey (m_CampaignOwnerRequested t) (m_CampaignIndexRequested t) slot)]
    \<and> m_Stage t1 = GetAdCampaignSlot \<and> m_WantsToBeDeletedLater t1 = m_WantsToBeDeletedLater t \<and> m_BackendRequestPending t1
    \<and> m_FoundAdCampaignCurrentSlotCacheDoc t1 \<and> m_FirstSlotIndexToTry t1 = slot \<and> m_CurrentSlotIndexToTry t1 = slot
    \<and> m_NumApiRequestsForThisAdSlotSoFar t1 = num \<and> m_SlotLengthHours t1 = hours
    \<and> m_TheCorretApiKey t1 = m_ApiKeyRequested t \<and> m_ApiKeyRequested t1 = m_ApiKeyRequested t
    \<and> m_CampaignOwnerRequested t1 = m_CampaignOwnerRequested t \<and> m_CampaignIndexRequested t1 = m_CampaignIndexRequested t
    \<and> closes_at_once t1 = closes_at_once t"
  using assms by (simp add: closes_at_once_def backendDbGetCallback_def continueAtJustFinishedAttemptingToGetAdCampaignCurrentSlotCache_def
      api_cache_doc_def pt_need_int_def lexical_cast_int_show_int andthen_def prog_run api_ops)

text \<open>The refusal begins no request; the object goes when the socket disconnects at once.\<close>

definition refused_as_used_up :: "'j api \<Rightarrow> 'j api \<Rightarrow> bool" where
  "refused_as_used_up t t' \<longleftrightarrow> \<not> m_BackendRequestPending t'
     \<and> (\<exists>rest. api_outputs t' = api_outputs t @ Respond (CustomError ApiRequestsUsedUp) # rest \<and> rest \<in> {[], [DeleteLater]})"

lemma slot_answer:
  assumes "m_Stage t = GetAdCampaignSlot" and "\<not> m_WantsToBeDeletedLater t"
    and "m_FoundAdCampaignCurrentSlotCacheDoc t" and "m_FirstSlotIndexToTry t = m_CurrentSlotIndexToTry t"
    and "read_json J slotdoc = Some slot" and "slot_start J slotdoc = Some start" and "holds_time (m_SlotLengthHours t) (now + 30) start"
    and "pt_get JSON_AD_SPACE_CAMPAIGN_SLOT_FILLED_WITH slot = Some filler_key"
    and "num = m_NumApiRequestsForThisAdSlotSoFar t" and "0 \<le> num" and "num < 2 ^ 31 - 1"
  shows "\<exists>t2. backendDbGetCallback J now slotdoc True False t = Ret () t2
    \<and> (if num \<ge> 50 then refused_as_used_up t t2
       else api_outputs t2 = api_outputs t @ [BeginGet filler_key] \<and> m_BackendRequestPending t2)
    \<and> (num < 50 \<longrightarrow> m_Stage t2 = GetAdCampaignSlotFiller \<and> \<not> m_WantsToBeDeletedLater t2
         \<and> closes_at_once t2 = closes_at_once t)
    \<and> m_FirstSlotIndexToTry t2 = m_CurrentSlotIndexToTry t2 \<and> m_CurrentSlotIndexToTry t2 = m_CurrentSlotIndexToTry t
    \<and> m_NumApiRequestsForThisAdSlotSoFar t2 = num + 1 \<and> m_SlotLengthHours t2 = m_SlotLengthHours t
    \<and> m_TheCorretApiKey t2 = m_TheCorretApiKey t
    \<and> m_CampaignOwnerRequested t2 = m_CampaignOwnerRequested t \<and> m_CampaignIndexRequested t2 = m_CampaignIndexRequested t"
proof -
  obtain str where str: "pt_get JSON_SLOT_START_TIMESTAMP slot = Some str" "lexical_cast_longlong str = Some start"
    using assms(5,6) by (auto elim: slot_startE)
  have w: "wrap32 (num + 1) = num + 1" using assms(10,11) by (simp add: wrap32_def)
  show ?thesis using assms str w
    by (cases "disconnects_at_once t")
      (simp_all add: backendDbGetCallback_def continueAtJustFinishedAttemptingToGetAdCampaignSlot_def serve_or_refuse_def
        slot_range_def holds_time_def andthen_def prog_run api_ops Let_def refused_as_used_up_def closes_at_once_def)
qed

lemma filler_answer:
  assumes "m_Stage t = GetAdCampaignSlotFiller" and "\<not> m_WantsToBeDeletedLater t"
    and "m_FirstSlotIndexToTry t = m_CurrentSlotIndexToTry t"
    and "read_json J filler_doc = Some filler" and "pt_get JSON_SLOT_FILLER_HOVERTEXT filler = Some hover"
    and "pt_get JSON_SLOT_FILLER_URL filler = Some url" and "pt_get JSON_SLOT_FILLER_IMAGE_GUESSED_EXTENSION filler = Some ext"
    and "pt_get JSON_SLOT_FILLER_IMAGEB64 filler = Some img"
  shows "\<exists>t3 ad. backendDbGetCallback J now filler_doc True False t = Ret () t3
    \<and> api_outputs t3 = api_outputs t @
        [BeginStore (adSpaceCampaignSlotCacheKey (m_CampaignOwnerRequested t) (m_CampaignIndexRequested t))
           (write_json J (api_cache_doc (m_CurrentSlotIndexToTry t) (m_SlotLengthHours t) (m_TheCorretApiKey t)
             (m_NumApiRequestsForThisAdSlotSoFar t))),
         Respond (AdResponse ad)]
    \<and> m_WantsToBeDeletedLater t3 = closes_at_once t"
  using assms by (cases "disconnects_at_once t")
    (auto simp: closes_at_once_def backendDbGetCallback_def continueAtJustFinishedAttemptingToGetAdCampaignSlotFiller_def
      api_cache_doc_puts andthen_def prog_run api_ops Let_def)

text \<open>
  The request quota of a slot: a connection that finds the cache document with count \<open>num\<close> for the slot that is current
  either has had 50 requests, then it refuses and begins no further request, so nothing is stored; or it serves the ad and stores the cache document
  with count \<open>num + 1\<close>, the same slot, length and key, so that the next connection finds the increased count.
\<close>

theorem quota_counts_every_ad:
  assumes "m_Stage t = GetAdCampaignCurrentSlotCacheIfExists" and "\<not> m_WantsToBeDeletedLater t"
    and "read_json J cache = Some (api_cache_doc slot hours (m_ApiKeyRequested t) num)"
    and "- (2 ^ 31) \<le> hours" "hours < 2 ^ 31" and "0 \<le> num" "num < 2 ^ 31 - 1"
    and "read_json J slotdoc = Some slottree" and "slot_start J slotdoc = Some start" and "holds_time hours (now + 30) start"
    and "pt_get JSON_AD_SPACE_CAMPAIGN_SLOT_FILLED_WITH slottree = Some filler_key"
    and "read_json J filler_doc = Some filler" and "pt_get JSON_SLOT_FILLER_HOVERTEXT filler = Some hover"
    and "pt_get JSON_SLOT_FILLER_URL filler = Some url" and "pt_get JSON_SLOT_FILLER_IMAGE_GUESSED_EXTENSION filler = Some ext"
    and "pt_get JSON_SLOT_FILLER_IMAGEB64 filler = Some img"
  shows "\<exists>t1 t2. backendDbGetCallback J now0 cache True False t = Ret () t1
    \<and> backendDbGetCallback J now slotdoc True False t1 = Ret () t2
    \<and> (if num \<ge> 50 then refused_as_used_up t1 t2
         \<and> api_outputs t1 = api_outputs t @ [BeginGet (adSpaceCampaignSlotKey (m_CampaignOwnerRequested t) (m_CampaignIndexRequested t) slot)]
       else \<exists>t3 ad. backendDbGetCallback J now1 filler_doc True False t2 = Ret () t3
         \<and> api_outputs t3 = api_outputs t
           @ [BeginGet (adSpaceCampaignSlotKey (m_CampaignOwnerRequested t) (m_CampaignIndexRequested t) slot), BeginGet filler_key,
              BeginStore (adSpaceCampaignSlotCacheKey (m_CampaignOwnerRequested t) (m_CampaignIndexRequested t))
                (write_json J (api_cache_doc slot hours (m_ApiKeyRequested t) (num + 1))),
              Respond (AdResponse ad)])"
proof -
  obtain t1 where t1: "backendDbGetCallback J now0 cache True False t = Ret () t1"
    "api_outputs t1 = api_outputs t @ [BeginGet (adSpaceCampaignSlotKey (m_CampaignOwnerRequested t) (m_CampaignIndexRequested t) slot)]"
    "m_Stage t1 = GetAdCampaignSlot" "\<not> m_WantsToBeDeletedLater t1" "m_FoundAdCampaignCurrentSlotCacheDoc t1"
    "m_FirstSlotIndexToTry t1 = slot" "m_CurrentSlotIndexToTry t1 = slot" "m_NumApiRequestsForThisAdSlotSoFar t1 = num"
    "m_SlotLengthHours t1 = hours" "m_TheCorretApiKey t1 = m_ApiKeyRequested t"
    "m_CampaignOwnerRequested t1 = m_CampaignOwnerRequested t" "m_CampaignIndexRequested t1 = m_CampaignIndexRequested t"
    using cache_answer [OF assms(1-5)] assms(2,6,7) by fastforce
  obtain t2 where t2: "backendDbGetCallback J now slotdoc True False t1 = Ret () t2"
    "if num \<ge> 50 then refused_as_used_up t1 t2
       else api_outputs t2 = api_outputs t1 @ [BeginGet filler_key] \<and> m_BackendRequestPending t2"
    "num < 50 \<longrightarrow> m_Stage t2 = GetAdCampaignSlotFiller \<and> \<not> m_WantsToBeDeletedLater t2"
    "m_FirstSlotIndexToTry t2 = m_CurrentSlotIndexToTry t2" "m_CurrentSlotIndexToTry t2 = slot"
    "m_NumApiRequestsForThisAdSlotSoFar t2 = num + 1" "m_SlotLengthHours t2 = hours" "m_TheCorretApiKey t2 = m_ApiKeyRequested t"
    "m_CampaignOwnerRequested t2 = m_CampaignOwnerRequested t" "m_CampaignIndexRequested t2 = m_CampaignIndexRequested t"
    using slot_answer [of t1 J slotdoc slottree start now filler_key num] t1 assms(6-11) by auto
  show ?thesis
  proof (cases "num \<ge> 50")
    case True
    then show ?thesis using t1(1,2) t2(1,2) by auto
  next
    case False
    then obtain t3 ad where "backendDbGetCallback J now1 filler_doc True False t2 = Ret () t3"
      "api_outputs t3 = api_outputs t2 @ [BeginStore (adSpaceCampaignSlotCacheKey (m_CampaignOwnerRequested t) (m_CampaignIndexRequested t))
         (write_json J (api_cache_doc slot hours (m_ApiKeyRequested t) (num + 1))), Respond (AdResponse ad)]"
      using filler_answer [OF _ _ t2(4) assms(12-16), of now1] t2(3,5-10) by auto
    then show ?thesis using False t1(1,2) t2(1,2) by auto
  qed
qed

lemma serve_slot_stores:
  "runs_to (serve_slot J user idx first cur found hours pt e)
    (\<lambda>_. does s (\<lambda>es. \<forall>k v m c r. DidStore k v m c r \<in> set es \<longrightarrow> k = adSpaceCampaignSlotCacheKey user idx
       \<and> v = write_json J (plain_doc [(JSON_AD_SPACE_CAMPAIGN_SLOT_CACHE_CURRENT_SLOT, cur),
          (JSON_AD_SPACE_CAMPAIGN_SLOT_LENGTH_HOURS, show_int hours)]))) (\<lambda>_. True) s"
proof -
  have d: "pt_put JSON_AD_SPACE_CAMPAIGN_SLOT_LENGTH_HOURS (show_int hours)
      (pt_put JSON_AD_SPACE_CAMPAIGN_SLOT_CACHE_CURRENT_SLOT cur pt_empty)
    = plain_doc [(JSON_AD_SPACE_CAMPAIGN_SLOT_CACHE_CURRENT_SLOT, cur), (JSON_AD_SPACE_CAMPAIGN_SLOT_LENGTH_HOURS, show_int hours)]"
    by (simp add: pt_put_def pt_empty_def plain_doc_def)
  show ?thesis
    unfolding serve_slot_def Let_def d
    apply (simp add: run_rules split: option.splits)
    apply (intro allI impI conjI; rule runs_to_get)
         apply (auto simp: run_rules does_known does_idle split: option.splits)
     apply (rule runs_to_store; auto simp: run_rules does_known does_idle)+
    done
qed

text \<open>
  The two readers of the slot cache disagree about its format: the document that the synchronous getter stores after serving
  an ad has no request count and no API key, so a connection of the API that finds it lets an exception escape from its database callback.
\<close>

theorem slot_cache_formats_disagree:
  assumes "json_ok J" and "serve_slot J user idx first cur found hours pt e s = Ret r s'"
    and "effects s' = effects s @ es" and "DidStore key v m c a \<in> set es"
    and "m_Stage t = GetAdCampaignCurrentSlotCacheIfExists" and "\<not> m_WantsToBeDeletedLater t"
    and "m_CampaignOwnerRequested t = user" and "m_CampaignIndexRequested t = idx"
  shows "key = adSpaceCampaignSlotCacheKey (m_CampaignOwnerRequested t) (m_CampaignIndexRequested t)
    \<and> (\<exists>t'. backendDbGetCallback J now v True False t = Throws (Ptree_bad_path JSON_NUM_API_REQUESTS_FOR_CURRENT_SLOT) t')"
proof -
  let ?d = "plain_doc [(JSON_AD_SPACE_CAMPAIGN_SLOT_CACHE_CURRENT_SLOT, cur),
          (JSON_AD_SPACE_CAMPAIGN_SLOT_LENGTH_HOURS, show_int hours)]"
  have kv: "key = adSpaceCampaignSlotCacheKey user idx" "v = write_json J ?d"
    using runs_to_Ret [OF serve_slot_stores assms(2)] assms(4) unfolding does_known [OF assms(3)] by blast+
  have "json_tree ?d" by (simp add: plain_doc_def)
  then have "read_json J v = Some ?d" using assms(1) kv(2) by (simp add: json_ok_def)
  then show ?thesis
    using kv(1) assms(5-8)
    by (simp add: backendDbGetCallback_def continueAtJustFinishedAttemptingToGetAdCampaignCurrentSlotCache_def
        pt_need_int_def pt_need_def andthen_def prog_run)
qed

subsection \<open>A complete request, as an example\<close>

definition demo_urls :: url_parser where
  "demo_urls = \<lparr>url_valid = (\<lambda>u. True), url_path = (\<lambda>u. ''/api''),
     url_query = (\<lambda>u k. if k = ''action'' then ''getcurrentad'' else if k = ''user'' then ''d3fault''
        else if k = ''index'' then ''0'' else ''k1'')\<rparr>"

definition demo_api_filler :: ptree where
  "demo_api_filler = plain_doc [(JSON_SLOT_FILLER_HOVERTEXT, ''h''), (JSON_SLOT_FILLER_URL, ''u''),
     (JSON_SLOT_FILLER_IMAGEB64, ''i''), (JSON_SLOT_FILLER_IMAGE_GUESSED_EXTENSION, ''png'')]"

text \<open>The socket of the example disconnects while the answer is being sent.\<close>

definition demo_asked :: "ptree api" where
  "demo_asked = (new_api [True])\<lparr>m_CampaignOwnerRequested := ''d3fault'', m_CampaignIndexRequested := ''0'', m_ApiKeyRequested := ''k1'',
     m_BackendRequestPending := True, ready_read_connected := False,
     api_outputs := [BeginGet (adSpaceCampaignSlotCacheKey ''d3fault'' ''0'')]\<rparr>"

lemma demo_asked_sel [simp]:
  "m_Stage demo_asked = GetAdCampaignCurrentSlotCacheIfExists" "\<not> m_WantsToBeDeletedLater demo_asked"
  "m_ApiKeyRequested demo_asked = ''k1''" "m_BackendRequestPending demo_asked" "closes_at_once demo_asked"
  by (simp_all add: demo_asked_def new_api_def closes_at_once_def)

definition demo_line :: string where
  "demo_line = ''GET /api HTTP/1.0''"

lemma demo_asked_reach: "api_reach tree_json demo_urls [LineRead (Some demo_line)] demo_asked"
proof -
  have "letters_numbers_only ''d3fault''" "letters_numbers_only ''k1''" "qstring_to_int ''0'' = Some 0"
    by (code_simp; simp)+
  then have "handleClientReadyRead demo_urls (Some demo_line) (new_api [True]) = Ret () demo_asked"
    by (simp add: handleClientReadyRead_def handle_line_def handle_parameters_def demo_urls_def dummy_url_def list_at_def
        new_api_def demo_asked_def demo_line_def andthen_def prog_run api_ops)
  then have "api_step tree_json demo_urls (LineRead (Some demo_line)) (new_api [True]) demo_asked"
    by (rule api_step.ready_read [rotated]) (simp add: new_api_def)
  from api_reach.step [OF api_reach.start this] show ?thesis by simp
qed

theorem quota_counts_every_ad_witness:
  "(\<exists>t1 t2. backendDbGetCallback tree_json 5 (api_cache_doc ''3'' 24 ''k1'' 50) True False demo_asked = Ret () t1
      \<and> backendDbGetCallback tree_json 100000 (demo_slot_at ''90000'') True False t1 = Ret () t2
      \<and> refused_as_used_up t1 t2)
   \<and> (\<exists>t1 t2 t3 ad. backendDbGetCallback tree_json 5 (api_cache_doc ''3'' 24 ''k1'' 49) True False demo_asked = Ret () t1
      \<and> backendDbGetCallback tree_json 100000 (demo_slot_at ''90000'') True False t1 = Ret () t2
      \<and> backendDbGetCallback tree_json 6 demo_api_filler True False t2 = Ret () t3
      \<and> last (api_outputs t3) = Respond (AdResponse ad)
      \<and> BeginStore (adSpaceCampaignSlotCacheKey (m_CampaignOwnerRequested demo_asked) (m_CampaignIndexRequested demo_asked))
          (api_cache_doc ''3'' 24 ''k1'' 50) \<in> set (api_outputs t3))"
proof -
  have h: "holds_time 24 100030 90000" by (simp add: holds_time_def)
  note quota = quota_counts_every_ad [of demo_asked tree_json "api_cache_doc ''3'' 24 ''k1'' n" "''3''" 24 n "demo_slot_at ''90000''"
      "demo_slot_at ''90000''" 90000 100000 "''ad_7''" demo_api_filler demo_api_filler "''h''" "''u''" "''png''" "''i''" 5 6 for n]
  show ?thesis
    using quota [of 50] quota [of 49] h demo_slot_start(2)
    by (auto simp: demo_slot_at_def [of "''90000''"] demo_api_filler_def)
qed

abbreviation demo_inputs :: "ptree api_input list" where
  "demo_inputs \<equiv> [LineRead (Some demo_line), GetAnswer (api_cache_doc ''3'' 24 ''k1'' 7) True False,
     GetAnswer (demo_slot_at ''90000'') True False, GetAnswer demo_api_filler True False]"

lemma demo_served:
  "\<exists>s d. api_reach tree_json demo_urls demo_inputs s \<and> Respond (AdResponse d) \<in> set (api_outputs s) \<and> m_WantsToBeDeletedLater s"
proof -
  let ?slot = "demo_slot_at ''90000''" and ?cache = "api_cache_doc ''3'' 24 ''k1'' 7"
  have h: "holds_time 24 100030 90000" by (simp add: holds_time_def)
  obtain t1 where t1: "backendDbGetCallback tree_json 5 ?cache True False demo_asked = Ret () t1" "m_Stage t1 = GetAdCampaignSlot"
    "\<not> m_WantsToBeDeletedLater t1" "m_BackendRequestPending t1" "m_FoundAdCampaignCurrentSlotCacheDoc t1"
    "m_FirstSlotIndexToTry t1 = ''3''" "m_CurrentSlotIndexToTry t1 = ''3''" "m_NumApiRequestsForThisAdSlotSoFar t1 = 7"
    "m_SlotLengthHours t1 = 24" "closes_at_once t1"
    using cache_answer [of demo_asked tree_json ?cache "''3''" 24 7 5] by auto
  obtain t2 where t2: "backendDbGetCallback tree_json 100000 ?slot True False t1 = Ret () t2" "m_Stage t2 = GetAdCampaignSlotFiller"
    "\<not> m_WantsToBeDeletedLater t2" "m_BackendRequestPending t2" "m_FirstSlotIndexToTry t2 = m_CurrentSlotIndexToTry t2"
    "closes_at_once t2"
    using slot_answer [of t1 tree_json ?slot ?slot 90000 100000 "''ad_7''" 7] t1(2-) h demo_slot_start(2)
    by (auto simp: demo_slot_at_def [of "''90000''"])
  obtain t3 ad where t3: "backendDbGetCallback tree_json 6 demo_api_filler True False t2 = Ret () t3"
    "Respond (AdResponse ad) \<in> set (api_outputs t3)" "m_WantsToBeDeletedLater t3"
    using filler_answer [OF t2(2,3,5), of tree_json demo_api_filler demo_api_filler "''h''" "''u''" "''png''" "''i''" 6] t2(6)
    by (fastforce simp: demo_api_filler_def)
  have r1: "api_reach tree_json demo_urls [LineRead (Some demo_line), GetAnswer ?cache True False] t1"
    using api_reach.step [OF demo_asked_reach api_step.get_answer [OF _ _ t1(1)]] by simp
  have r2: "api_reach tree_json demo_urls [LineRead (Some demo_line), GetAnswer ?cache True False, GetAnswer ?slot True False] t2"
    using api_reach.step [OF r1 api_step.get_answer [OF t1(4) _ t2(1)]] t1(2) by simp
  have r3: "api_reach tree_json demo_urls demo_inputs t3"
    using api_reach.step [OF r2 api_step.get_answer [OF t2(4) _ t3(1)]] t2(2) by simp
  with t3(2,3) show ?thesis by blast
qed

theorem ads_need_the_api_key_witness:
  "\<exists>s d. api_reach tree_json demo_urls demo_inputs s \<and> Respond (AdResponse d) \<in> set (api_outputs s)
    \<and> (\<exists>owner idx key. asked demo_urls demo_inputs owner idx key \<and> owner_key tree_json (exchanges demo_inputs s) owner idx key)"
proof -
  obtain s d where s: "api_reach tree_json demo_urls demo_inputs s" "Respond (AdResponse d) \<in> set (api_outputs s)"
    using demo_served by blast
  show ?thesis using s ads_need_the_api_key [OF s] by blast
qed

theorem no_answer_for_a_deleted_connection_witness:
  "\<exists>s. api_reach tree_json demo_urls demo_inputs s \<and> m_WantsToBeDeletedLater s \<and> length (requests s) \<ge> 3"
proof -
  obtain s d where s: "api_reach tree_json demo_urls demo_inputs s" "Respond (AdResponse d) \<in> set (api_outputs s)"
      "m_WantsToBeDeletedLater s"
    using demo_served by blast
  show ?thesis using s(1,3) no_answer_for_a_deleted_connection [OF s(1)] by (auto split: if_splits)
qed

theorem slot_cache_formats_disagree_witness:
  "\<exists>s' v t'. serve_slot tree_json ''d3fault'' ''0'' ''0'' ''1'' True 24 (demo_slot_at ''90000'') 176400
      (demo_ads [Answer LCB_SUCCESS demo_filler 3, Answer LCB_SUCCESS pt_empty 4]) = Ret True s'
    \<and> DidStore (adSpaceCampaignSlotCacheKey ''d3fault'' ''0'') v LCB_SET 0 (Answer LCB_SUCCESS pt_empty 4) \<in> set (effects s')
    \<and> backendDbGetCallback tree_json 5 v True False demo_asked
        = Throws (Ptree_bad_path JSON_NUM_API_REQUESTS_FOR_CURRENT_SLOT) t'"
proof -
  let ?s = "demo_ads [Answer LCB_SUCCESS demo_filler 3, Answer LCB_SUCCESS pt_empty 4]"
  obtain s' v es where run: "serve_slot tree_json ''d3fault'' ''0'' ''0'' ''1'' True 24 (demo_slot_at ''90000'') 176400 ?s = Ret True s'"
    "effects s' = effects ?s @ es"
    "DidStore (adSpaceCampaignSlotCacheKey ''d3fault'' ''0'') v LCB_SET 0 (Answer LCB_SUCCESS pt_empty 4) \<in> set es"
    by (auto simp: serve_slot_def demo_filler_def demo_slot_at_def andthen_def prog_run Let_def effects_def)
  have "m_CampaignOwnerRequested demo_asked = ''d3fault''" "m_CampaignIndexRequested demo_asked = ''0''"
    by (simp_all add: demo_asked_def)
  with slot_cache_formats_disagree [OF tree_json_ok run] obtain t' where
    "backendDbGetCallback tree_json 5 v True False demo_asked
        = Throws (Ptree_bad_path JSON_NUM_API_REQUESTS_FOR_CURRENT_SLOT) t'"
    by (meson demo_asked_sel)
  with run show ?thesis by auto
qed

end
