(* ===== verification/BuySlot.thy ===== *)
theory BuySlot
  imports Couchbase SatoshiAmounts
begin

section \<open>The web interface: showing a campaign, buying a slot, logging in\<close>

text \<open>
  \<open>Anonymous Bitcoin Computing 2/src/frontend/anonymousbitcoincomputingwtgui.cpp\<close>, compiled with
  \<open>ABC_MULTI_CAMPAIGN_OWNER_MODE\<close>: one object for each browser session. The record \<open>gui\<close> holds the members that the flow of a
  purchase and of a login reads and writes; every member function of that flow is a program over it. A database request is begun by one
  function and its answer handled by another, chosen by what the request was for (\<open>m_WhatTheGetWasFor\<close> and its siblings).

  Where the source prefixes a name with \<open>HackedInD3faultCampaign0\<close>, from the time of the only campaign, the prefix is left out, and
  the longest names are cut.

  The widgets are reduced to what the flow depends on: whether the step 2 placeholder and the step 1 button exist, the combo box's entries, and
  which text is shown (\<open>gui_outputs\<close>). Rendering is deferred and resumed by counting (\<open>m_DeferCount\<close>). The argument \<open>E\<close> holds
  the libraries: JSON text, \<open>boost::lexical_cast\<close> between text and double, and the encodings and the hash of Wt. Requests for the account
  tabs share the callbacks; their members of the purpose enumerations are not part of this model.
\<close>

subsection \<open>State\<close>

datatype WhatTheStoreWithoutInputCasWasForEnum =
    INITIALINVALIDNULLSTOREWITHOUTINPUTCAS
  | REGISTERATTEMPTSTOREWITHOUTINPUTCAS
  | BUYAKAFILLSLOTWITHSLOTFILLERSTOREWITHOUTINPUTCAS
  | CREATETRANSACTIONDOCSTOREWITHOUTINPUTCAS

datatype WhatTheStoreWithInputCasWasForEnum =
    INITIALINVALIDNULLSTOREWITHCAS
  | BUYPURCHASSUCCESSFULSOUNLOCKUSERACCOUNTSAFELYUSINGCAS
  | USERACCOUNTUNLOCKDONESOUPDATECAMPAIGNDOCSETWITHINPUTCAS
  | LOGINACCOUNTRECOVERY_AND_SLOTPURCHASEBEATTOTHEPUNCH_UNLOCKINGWITHOUTDEBITTINGUSERACCOUNT

datatype WhatTheStoreWithInputCasSavingOutputCasWasForEnum =
    INITIALINVALIDNULLSTOREWITHCASSAVINGCAS
  | BUYSTEP2bLOCKACCOUNTFORBUYINGSETWITHCASSAVINGCAS

datatype WhatTheGetWasForEnum =
    INITIALINVALIDNULLGET
  | BUYSTEP1GET
  | ENSURESLOTABOUTTOLOCKUSERACCOUNTTOWARDSDOESNTEXIST
  | ONLOGINACCOUNTLOCKEDRECOVERY_AND_SLOTPURCHASEBEATTOTHEPUNCH_DOESSLOTEXISTCHECK

datatype WhatTheGetSavingCasWasForEnum =
    INITIALINVALIDNULLGETSAVINGCAS
  | LOGINATTEMPTGET
  | BUYSTEP2aVERIFYBALANCEANDGETCASFORSWAPLOCKGET

datatype CurrentGetAndSubscribeMode =
    INITIALINVALIDNULLNOTSUBSCRIBEDTOANYTHING
  | GETANDSUBSCRIBESAVINGCAS
  | SINGLESUBSCRIPTIONUPDATEFORNOJAVASCRIPTUSERSHACKPLXTHX
  | NOJSNEEDSTOVERIFYCAMPAIGNDOCSHITAFTERBUYSTEP1CLICKED

datatype GetAndSubscribeEnum =
    GetAndSubscribeMode | GetAndSubscribeUnsubscribeMode | GetAndSubscribeChangeSessionIdMode
  | GetAndSubscribeJustKiddingNoJavascriptHereSoIjustWantONEsubscriptionUpdate

datatype gui_message =
    InternalServerError | LogInFirst | NeedAdvertisement | SomeoneBoughtSlot | ForgedComboBox | DimensionsDoNotMatch
  | AttemptingToBuy string | TemporarilyLocked | AlreadyPurchasing | InsufficientFunds | LoggedInElsewhere
  | NothingMakesSense | DontUseMultipleTabs | ProbablyPurchased | Bought string | CampaignDoesNotExist string
  | LoginError | LoginWrong | LoginLocked | LoginTryLater | LoginTryAgain | LoginInvalid
  | LoggedInAs string string | RegisterError | UsernameTaken | Registered string | RegisterInvalid

datatype 'j gui_output =
    BeginGet string
  | BeginGetSavingCas string
  | BeginAdd string 'j
  | BeginCasStore string 'j cas
  | BeginCasStoreSavingCas string 'j cas
  | Subscribe string GetAndSubscribeEnum
  | Say gui_message
  | ClearLabels
  | ShowPrice string
  | ShowStart "rat option"
  | ShowHours string
  | ShowDimensions string
  | ShowCategories string
  | EnableStep1
  | ShowStep2 string

datatype request_kind = PGet | PGetSavingCas | PAdd | PCasStore | PCasStoreSavingCas

record 'j gui =
  m_LoggedIn :: bool
  m_CurrentlyLoggedInUsername :: string
  ajax :: bool
  m_CampaignOwnerForPageBeingViewed :: string
  m_CampaignIndexForPageBeingViewed :: string
  m_CampaignWidgetExists :: bool
  m_BuyInProgress :: bool
  m_FirstPopulate :: bool
  m_BuySlotFillerStep1Button :: bool
  m_BuyStep2placeholder :: bool
  m_AllSlotFillersAdsCount :: int
  m_AllSlotFillersComboBox :: "string list"
  m_CurrentAdCampaignImageWidth :: string
  m_CurrentAdCampaignImageHeight :: string
  m_CampaignJsonDocForUpdatingLater :: 'j
  m_CampaignCasForSafelyUpdatingLater :: cas
  m_MinPrice :: string
  m_SlotLengthHoursString :: string
  m_NoPreviousSlotPurchases :: bool
  m_SlotIndexImmediatelyAfterBuyStep1wasPressed :: string
  m_LastSlotFilledAkaPurchasedSlotIndex :: string
  m_LastSlotFilledAkaPurchasedPurchaseTimestamp :: string
  m_LastSlotFilledAkaPurchasedStartTimestamp :: string
  m_LastSlotFilledAkaPurchasedPurchasePrice :: string
  m_LastSlotPurchasesIsExpired :: bool
  m_CurrentPriceInSatoshisToUseForBuying :: int
  m_CurrentPriceInSatoshisToUseForBuyingString :: string
  m_LastSlotFilledAkaPurchasedExpireDateTime_ToBeUsedAsStartDateTime :: string
  m_AdSlotIndexToBeFilledIfLockIsSuccessful :: string
  m_AdSlotAboutToBeFilledIfLockIsSuccessful :: string
  m_StartTimestampUsedInNewPurchase :: string
  m_PurchaseTimestampForUseInSlotItself :: string
  m_SlotFillerToUseInBuy :: string
  m_UserAccountUnlockedJustBeforeBuyingJson :: 'j
  m_UserAccountUnlockedJustBeforeBuyingCas :: cas
  m_CasFromUserAccountLockSoWeCanSafelyUnlockLater :: cas
  m_AccountLockedRecoveryWhatTheUserWasTryingToFillTheSlotWithHack :: string
  m_UserAccountLockedJsonToMaybeUseInAccountRecoveryAtLogin :: 'j
  m_CasFromUserAccountLockedAndStuckLocked :: cas
  m_BalanceSatoshiStringForDisplayingOnly :: string
  m_LoginUsernameLineEdit :: string
  m_LoginPasswordLineEdit :: string
  m_RegisterUsernameLineEdit :: string
  m_RegisterPasswordLineEdit :: string
  m_WhatTheStoreWithoutInputCasWasFor :: WhatTheStoreWithoutInputCasWasForEnum
  m_WhatTheStoreWithInputCasWasFor :: WhatTheStoreWithInputCasWasForEnum
  m_WhatTheStoreWithInputCasSavingOutputCasWasFor :: WhatTheStoreWithInputCasSavingOutputCasWasForEnum
  m_WhatTheGetWasFor :: WhatTheGetWasForEnum
  m_WhatTheGetSavingCasWasFor :: WhatTheGetSavingCasWasForEnum
  m_CurrentlySubscribedTo :: "CurrentGetAndSubscribeMode \<times> string"
  m_DeferCount :: int
  gui_outputs :: "'j gui_output list"
  gui_pending :: "request_kind list"

record 'j gui_env =
  env_json :: "'j json"
  cast_double :: "string \<Rightarrow> rat option"
  double_text :: "rat \<Rightarrow> string"
  base64Decode :: "string \<Rightarrow> string"
  base64_sha1 :: "string \<Rightarrow> string"
  hexEncode :: "string \<Rightarrow> string"

abbreviation "JSON_LAST_PURCHASE_PRICE \<equiv> ''purchasePrice''"

subsection \<open>Rendering, messages and requests\<close>

definition gui_out :: "'j gui_output \<Rightarrow> ('j gui, unit) prog" where
  "gui_out x = modify (\<lambda>s. s\<lparr>gui_outputs := gui_outputs s @ [x]\<rparr>)"

definition deferRendering :: "('j gui, unit) prog" where
  "deferRendering = modify (\<lambda>s. s\<lparr>m_DeferCount := m_DeferCount s + 1\<rparr>)"

definition resumeRendering :: "('j gui, unit) prog" where
  "resumeRendering = modify (\<lambda>s. s\<lparr>m_DeferCount := m_DeferCount s - 1\<rparr>)"

definition begin_request :: "request_kind \<Rightarrow> 'j gui_output \<Rightarrow> ('j gui, unit) prog" where
  "begin_request k x = andthen deferRendering (\<lambda>_. andthen (gui_out x) (\<lambda>_.
     modify (\<lambda>s. s\<lparr>gui_pending := gui_pending s @ [k]\<rparr>)))"

definition getCouchbaseDocumentByKeyBegin :: "string \<Rightarrow> ('j gui, unit) prog" where
  "getCouchbaseDocumentByKeyBegin key = begin_request PGet (BeginGet key)"

definition getCouchbaseDocumentByKeySavingCasBegin :: "string \<Rightarrow> ('j gui, unit) prog" where
  "getCouchbaseDocumentByKeySavingCasBegin key = begin_request PGetSavingCas (BeginGetSavingCas key)"

definition getAndSubscribeCouchbaseDocumentByKeySavingCas :: "string \<Rightarrow> GetAndSubscribeEnum \<Rightarrow> ('j gui, unit) prog" where
  "getAndSubscribeCouchbaseDocumentByKeySavingCas key subscribeMode = gui_out (Subscribe key subscribeMode)"

definition store_ADDbyDefault_WithoutInputCasCouchbaseDocumentByKeyBegin :: "string \<Rightarrow> 'j \<Rightarrow> ('j gui, unit) prog" where
  "store_ADDbyDefault_WithoutInputCasCouchbaseDocumentByKeyBegin key doc = begin_request PAdd (BeginAdd key doc)"

definition store_SETonly_CouchbaseDocumentByKeyWithInputCasBegin ::
  "string \<Rightarrow> 'j \<Rightarrow> cas \<Rightarrow> bool \<Rightarrow> ('j gui, unit) prog" where
  "store_SETonly_CouchbaseDocumentByKeyWithInputCasBegin key doc cas saveOutputCas =
    (if saveOutputCas then begin_request PCasStoreSavingCas (BeginCasStoreSavingCas key doc cas)
     else begin_request PCasStore (BeginCasStore key doc cas))"

definition say :: "gui_message \<Rightarrow> ('j gui, unit) prog" where
  "say m = gui_out (Say m)"

text \<open>The shape most error branches have: a message, back to before step 1, rendering resumed.\<close>

definition rollBackToBeforeBuyStep1ifNeeded :: "('j gui, unit) prog" where
  "rollBackToBeforeBuyStep1ifNeeded = reading (\<lambda>s.
     if m_BuyStep2placeholder s then
       andthen (modify (\<lambda>s. s\<lparr>m_BuyStep2placeholder := False\<rparr>)) (\<lambda>_. gui_out EnableStep1)
     else return ())"

definition say_and_resume :: "gui_message \<Rightarrow> ('j gui, unit) prog" where
  "say_and_resume m = andthen (say m) (\<lambda>_. resumeRendering)"

definition say_roll_back_and_resume :: "gui_message \<Rightarrow> ('j gui, unit) prog" where
  "say_roll_back_and_resume m = andthen (say m) (\<lambda>_. andthen rollBackToBeforeBuyStep1ifNeeded (\<lambda>_. resumeRendering))"

subsection \<open>The price\<close>

definition calculateCurrentPrice :: "rat \<Rightarrow> rat \<Rightarrow> rat \<Rightarrow> rat \<Rightarrow> rat \<Rightarrow> rat" where
  "calculateCurrentPrice currentTime_x minPrice_y2 purchasePriceDoubled_y1 expireDateTime_x2 purchaseDateTime_x1 =
    (let m = ddiv (dadd minPrice_y2 (- purchasePriceDoubled_y1)) (dadd expireDateTime_x2 (- purchaseDateTime_x1));
         b = dadd minPrice_y2 (- dmul m expireDateTime_x2)
     in dadd (dmul m currentTime_x) b)"

definition need_double :: "'j gui_env \<Rightarrow> string \<Rightarrow> ('j gui, rat) prog" where
  "need_double E str = require Bad_lexical_cast (cast_double E str)"

definition need_satoshis :: "string \<Rightarrow> ('j gui, int) prog" where
  "need_satoshis str = require Bad_lexical_cast (satoshiStringToSatoshiInt str)"

definition lastSlotFilledAkaPurchasedExpireDateTime :: "'j gui_env \<Rightarrow> ('j gui, rat) prog" where
  "lastSlotFilledAkaPurchasedExpireDateTime E = reading (\<lambda>s.
    andthen (need_double E (m_LastSlotFilledAkaPurchasedStartTimestamp s)) (\<lambda>start.
    andthen (need_double E (m_SlotLengthHoursString s)) (\<lambda>hours. return (dadd start (dmul hours 3600)))))"

definition currentPriceBeforeExpiry :: "'j gui_env \<Rightarrow> rat \<Rightarrow> rat \<Rightarrow> ('j gui, rat) prog" where
  "currentPriceBeforeExpiry E currentDateTime expireDateTime = reading (\<lambda>s.
    andthen (need_double E (m_MinPrice s)) (\<lambda>minPrice.
    andthen (need_double E (m_LastSlotFilledAkaPurchasedPurchasePrice s)) (\<lambda>lastPrice.
    andthen (need_double E (m_LastSlotFilledAkaPurchasedPurchaseTimestamp s)) (\<lambda>purchased.
    return (calculateCurrentPrice currentDateTime minPrice (dmul lastPrice 2) expireDateTime purchased)))))"

definition seconds :: "int \<Rightarrow> rat" where
  "seconds now = rnd (of_int now)"

subsection \<open>Showing a campaign\<close>

definition doHackyOneTimeBuyEventUpdateThingoForNoJavascriptUser :: "('j gui, unit) prog" where
  "doHackyOneTimeBuyEventUpdateThingoForNoJavascriptUser = reading (\<lambda>s.
    let key = adSpaceCampaignKey (m_CampaignOwnerForPageBeingViewed s) (m_CampaignIndexForPageBeingViewed s) in
    andthen (getAndSubscribeCouchbaseDocumentByKeySavingCas key
      GetAndSubscribeJustKiddingNoJavascriptHereSoIjustWantONEsubscriptionUpdate) (\<lambda>_.
    andthen (modify (\<lambda>s. s\<lparr>m_CurrentlySubscribedTo := (SINGLESUBSCRIPTIONUPDATEFORNOJAVASCRIPTUSERSHACKPLXTHX, key)\<rparr>)) (\<lambda>_.
    deferRendering)))"

definition beginShowingAdvertisingBuyAdSpaceD3faultCampaign0Widget :: "string \<Rightarrow> string \<Rightarrow> ('j gui, unit) prog" where
  "beginShowingAdvertisingBuyAdSpaceD3faultCampaign0Widget campaignOwner campaignIndex =
    andthen (modify (\<lambda>s. s\<lparr>m_CampaignOwnerForPageBeingViewed := campaignOwner,
      m_CampaignIndexForPageBeingViewed := campaignIndex\<rparr>)) (\<lambda>_.
    reading (\<lambda>s.
    let key = adSpaceCampaignKey campaignOwner campaignIndex in
    if \<not> m_CampaignWidgetExists s then
      andthen (modify (\<lambda>s. s\<lparr>m_CampaignWidgetExists := True\<rparr>)) (\<lambda>_.
      if \<not> ajax s then doHackyOneTimeBuyEventUpdateThingoForNoJavascriptUser
      else
      andthen (modify (\<lambda>s. s\<lparr>m_FirstPopulate := True\<rparr>)) (\<lambda>_.
      andthen deferRendering (\<lambda>_.
      andthen (getAndSubscribeCouchbaseDocumentByKeySavingCas key GetAndSubscribeMode) (\<lambda>_.
      modify (\<lambda>s. s\<lparr>m_CurrentlySubscribedTo := (GETANDSUBSCRIBESAVINGCAS, key)\<rparr>)))))
    else if \<not> ajax s then doHackyOneTimeBuyEventUpdateThingoForNoJavascriptUser
    else if fst (m_CurrentlySubscribedTo s) = GETANDSUBSCRIBESAVINGCAS \<and> snd (m_CurrentlySubscribedTo s) = key then return ()
    else
    andthen (if fst (m_CurrentlySubscribedTo s) = GETANDSUBSCRIBESAVINGCAS
        then getAndSubscribeCouchbaseDocumentByKeySavingCas (snd (m_CurrentlySubscribedTo s)) GetAndSubscribeUnsubscribeMode
        else return ()) (\<lambda>_.
    andthen (getAndSubscribeCouchbaseDocumentByKeySavingCas key GetAndSubscribeMode) (\<lambda>_.
    modify (\<lambda>s. s\<lparr>m_CurrentlySubscribedTo := (GETANDSUBSCRIBESAVINGCAS, key)\<rparr>)))))"

definition unsubscribeIfSubscribedToAnything :: "('j gui, unit) prog" where
  "unsubscribeIfSubscribedToAnything = reading (\<lambda>s.
    if fst (m_CurrentlySubscribedTo s) \<noteq> INITIALINVALIDNULLNOTSUBSCRIBEDTOANYTHING then
      andthen (getAndSubscribeCouchbaseDocumentByKeySavingCas (snd (m_CurrentlySubscribedTo s)) GetAndSubscribeUnsubscribeMode) (\<lambda>_.
      modify (\<lambda>s. s\<lparr>m_CurrentlySubscribedTo := (INITIALINVALIDNULLNOTSUBSCRIBEDTOANYTHING, [])\<rparr>))
    else return ())"

definition populateDimensionsLabel :: "ptree \<Rightarrow> ('j gui, unit) prog" where
  "populateDimensionsLabel adCampaignDoc =
    andthen (pt_need JSON_SLOT_FILLER_WIDTH adCampaignDoc) (\<lambda>w.
    andthen (modify (\<lambda>s. s\<lparr>m_CurrentAdCampaignImageWidth := w\<rparr>)) (\<lambda>_.
    andthen (pt_need JSON_SLOT_FILLER_HEIGHT adCampaignDoc) (\<lambda>h.
    andthen (modify (\<lambda>s. s\<lparr>m_CurrentAdCampaignImageHeight := h\<rparr>)) (\<lambda>_.
    gui_out (ShowDimensions (w @ ''x'' @ h @ '' px''))))))"

fun categories_text :: "string list \<Rightarrow> string" where
  "categories_text [] = ''None''"
| "categories_text [c] = c"
| "categories_text (c # d # cs) = c @ '', '' @ categories_text (d # cs)"

definition populateDisallowedCategoriesLabel :: "ptree \<Rightarrow> ('j gui, unit) prog" where
  "populateDisallowedCategoriesLabel adCampaignDoc =
    andthen (require (Ptree_bad_path JSON_AD_SPACE_CAMPAIGN_DISALLOWED_CATEGORIES_KEY)
      (pt_get_child_optional JSON_AD_SPACE_CAMPAIGN_DISALLOWED_CATEGORIES_KEY adCampaignDoc)) (\<lambda>t.
    gui_out (ShowCategories (categories_text (map (\<lambda>(_, c). pt_data c) (pt_kids t)))))"

text \<open>The last purchase, as the campaign document records it.\<close>

definition read_last_purchase :: "ptree \<Rightarrow> ('j gui, unit) prog" where
  "read_last_purchase lastSlotFilledAkaPurchased =
    andthen (pt_need JSON_AD_SPACE_CAMPAIGN_LAST_SLOT_FILLED_INDEX lastSlotFilledAkaPurchased) (\<lambda>i.
    andthen (modify (\<lambda>s. s\<lparr>m_LastSlotFilledAkaPurchasedSlotIndex := i\<rparr>)) (\<lambda>_.
    andthen (pt_need JSON_SLOT_PURCHASE_TIMESTAMP lastSlotFilledAkaPurchased) (\<lambda>p.
    andthen (modify (\<lambda>s. s\<lparr>m_LastSlotFilledAkaPurchasedPurchaseTimestamp := p\<rparr>)) (\<lambda>_.
    andthen (pt_need JSON_SLOT_START_TIMESTAMP lastSlotFilledAkaPurchased) (\<lambda>st.
    andthen (modify (\<lambda>s. s\<lparr>m_LastSlotFilledAkaPurchasedStartTimestamp := st\<rparr>)) (\<lambda>_.
    andthen (pt_need JSON_LAST_PURCHASE_PRICE lastSlotFilledAkaPurchased) (\<lambda>pr.
    andthen (require Bad_lexical_cast (satoshiStringToJsonString pr)) (\<lambda>price.
    modify (\<lambda>s. s\<lparr>m_LastSlotFilledAkaPurchasedPurchasePrice := price\<rparr>)))))))))"

definition show_last_purchase :: "'j gui_env \<Rightarrow> int \<Rightarrow> ptree \<Rightarrow> ('j gui, unit) prog" where
  "show_last_purchase E now lastSlotFilledAkaPurchased =
    andthen (read_last_purchase lastSlotFilledAkaPurchased) (\<lambda>_.
    andthen (lastSlotFilledAkaPurchasedExpireDateTime E) (\<lambda>expire.
    reading (\<lambda>s.
    if seconds now \<ge> expire then
      andthen (if \<not> ajax s then gui_out (ShowPrice (m_MinPrice s)) else return ()) (\<lambda>_. gui_out (ShowStart None))
    else
      andthen (gui_out (ShowStart (Some expire))) (\<lambda>_.
      if \<not> ajax s then
        andthen (currentPriceBeforeExpiry E (seconds now) expire) (\<lambda>p.
        gui_out (ShowPrice (jsonDoubleToJsonStringAfterProperlyRoundingJsonDouble p)))
      else return ()))))"

definition finishShowing_error :: "gui_message \<Rightarrow> ('j gui, unit) prog" where
  "finishShowing_error m = andthen (gui_out ClearLabels) (\<lambda>_. andthen (say m) (\<lambda>_. reading (\<lambda>s.
    if \<not> ajax s then resumeRendering
    else if m_FirstPopulate s then andthen resumeRendering (\<lambda>_. modify (\<lambda>s. s\<lparr>m_FirstPopulate := False\<rparr>))
    else return ())))"

definition show_campaign_labels :: "ptree \<Rightarrow> ('j gui, unit) prog" where
  "show_campaign_labels pt = reading (\<lambda>s. andthen (gui_out (ShowHours (m_SlotLengthHoursString s))) (\<lambda>_.
     andthen (populateDimensionsLabel pt) (\<lambda>_. populateDisallowedCategoriesLabel pt)))"

definition finishShowingAdvertisingBuyAdSpaceD3faultCampaign0Widget ::
  "'j gui_env \<Rightarrow> int \<Rightarrow> 'j \<Rightarrow> cas \<Rightarrow> bool \<Rightarrow> bool \<Rightarrow> ('j gui, unit) prog" where
  "finishShowingAdvertisingBuyAdSpaceD3faultCampaign0Widget E now doc cas lcbOpSuccess dbError =
    (if dbError then finishShowing_error InternalServerError
     else if \<not> lcbOpSuccess then reading (\<lambda>s. finishShowing_error (CampaignDoesNotExist (m_CampaignOwnerForPageBeingViewed s)))
     else
     andthen rollBackToBeforeBuyStep1ifNeeded (\<lambda>_.
     andthen (modify (\<lambda>s. s\<lparr>m_CampaignJsonDocForUpdatingLater := doc, m_CampaignCasForSafelyUpdatingLater := cas\<rparr>)) (\<lambda>_.
     andthen (parse_json (env_json E) doc) (\<lambda>pt.
     andthen (pt_need JSON_AD_SPACE_CAMPAIGN_MIN_PRICE pt) (\<lambda>minPrice.
     andthen (require Bad_lexical_cast (satoshiStringToJsonString minPrice)) (\<lambda>minPriceJson.
     andthen (modify (\<lambda>s. s\<lparr>m_MinPrice := minPriceJson\<rparr>)) (\<lambda>_.
     andthen (pt_need JSON_AD_SPACE_CAMPAIGN_SLOT_LENGTH_HOURS pt) (\<lambda>hours.
     andthen (modify (\<lambda>s. s\<lparr>m_SlotLengthHoursString := hours,
       m_NoPreviousSlotPurchases := pt_get_child_optional JSON_AD_SPACE_CAMPAIGN_LAST_SLOT_FILLED pt = None\<rparr>)) (\<lambda>_.
     andthen (case pt_get_child_optional JSON_AD_SPACE_CAMPAIGN_LAST_SLOT_FILLED pt of
         None \<Rightarrow> andthen (gui_out (ShowPrice minPriceJson)) (\<lambda>_. gui_out (ShowStart None))
       | Some lastSlotFilledAkaPurchased \<Rightarrow> show_last_purchase E now lastSlotFilledAkaPurchased) (\<lambda>_.
     reading (\<lambda>s.
     andthen (if ajax s then
         (if m_FirstPopulate s then
            andthen (modify (\<lambda>s. s\<lparr>m_FirstPopulate := False\<rparr>)) (\<lambda>_. andthen resumeRendering (\<lambda>_. show_campaign_labels pt))
          else return ())
       else show_campaign_labels pt) (\<lambda>_.
     modify (\<lambda>s. s\<lparr>m_BuySlotFillerStep1Button := True\<rparr>)))))))))))))"

subsection \<open>Buying a slot\<close>

definition buySlotStep1d3faultCampaign0ButtonClicked :: "('j gui, unit) prog" where
  "buySlotStep1d3faultCampaign0ButtonClicked = reading (\<lambda>s.
    if \<not> m_LoggedIn s then andthen (say LogInFirst) (\<lambda>_. gui_out EnableStep1)
    else
    andthen (modify (\<lambda>s. s\<lparr>m_SlotIndexImmediatelyAfterBuyStep1wasPressed := m_LastSlotFilledAkaPurchasedSlotIndex s\<rparr>)) (\<lambda>_.
    andthen (if ajax s then
        andthen (getCouchbaseDocumentByKeyBegin (adSpaceAllSlotFillersKey (m_CurrentlyLoggedInUsername s))) (\<lambda>_.
        modify (\<lambda>s. s\<lparr>m_WhatTheGetWasFor := BUYSTEP1GET\<rparr>))
      else
        (let campaignDocKey = adSpaceCampaignKey (m_CampaignOwnerForPageBeingViewed s) (m_CampaignIndexForPageBeingViewed s) in
        andthen (getAndSubscribeCouchbaseDocumentByKeySavingCas campaignDocKey
          GetAndSubscribeJustKiddingNoJavascriptHereSoIjustWantONEsubscriptionUpdate) (\<lambda>_.
        modify (\<lambda>s. s\<lparr>m_CurrentlySubscribedTo := (NOJSNEEDSTOVERIFYCAMPAIGNDOCSHITAFTERBUYSTEP1CLICKED, campaignDocKey)\<rparr>)))) (\<lambda>_.
    deferRendering)))"

definition ehhGetLatestValuesFromCampaignDocForNoJsUser ::
  "'j gui_env \<Rightarrow> int \<Rightarrow> 'j \<Rightarrow> cas \<Rightarrow> bool \<Rightarrow> bool \<Rightarrow> ('j gui, unit) prog" where
  "ehhGetLatestValuesFromCampaignDocForNoJsUser E now doc cas lcbOpSuccess dbError =
    (if dbError \<or> \<not> lcbOpSuccess then
       andthen (say InternalServerError) (\<lambda>_. andthen (gui_out EnableStep1) (\<lambda>_. resumeRendering))
     else
     andthen (parse_json (env_json E) doc) (\<lambda>pt.
     andthen (modify (\<lambda>s. s\<lparr>m_CampaignJsonDocForUpdatingLater := doc, m_CampaignCasForSafelyUpdatingLater := cas,
       m_NoPreviousSlotPurchases := pt_get_child_optional JSON_AD_SPACE_CAMPAIGN_LAST_SLOT_FILLED pt = None\<rparr>)) (\<lambda>_.
     andthen (case pt_get_child_optional JSON_AD_SPACE_CAMPAIGN_LAST_SLOT_FILLED pt of
         None \<Rightarrow> return ()
       | Some lastSlotFilledAkaPurchased \<Rightarrow>
           andthen (read_last_purchase lastSlotFilledAkaPurchased) (\<lambda>_.
           andthen (lastSlotFilledAkaPurchasedExpireDateTime E) (\<lambda>expire.
           gui_out (ShowStart (if seconds now \<ge> expire then None else Some expire))))) (\<lambda>_.
     reading (\<lambda>s.
     andthen (getCouchbaseDocumentByKeyBegin (adSpaceAllSlotFillersKey (m_CurrentlyLoggedInUsername s))) (\<lambda>_.
     modify (\<lambda>s. s\<lparr>m_WhatTheGetWasFor := BUYSTEP1GET\<rparr>)))))))"

fun combo_entries :: "'j gui_env \<Rightarrow> ptree \<Rightarrow> nat \<Rightarrow> nat \<Rightarrow> ('j gui, unit) prog" where
  "combo_entries E pt i 0 = return ()"
| "combo_entries E pt i (Suc n) =
     andthen (pt_need (show_int (int i)) pt) (\<lambda>nickname.
     andthen (modify (\<lambda>s. s\<lparr>m_AllSlotFillersComboBox := m_AllSlotFillersComboBox s @ [base64Decode E nickname]\<rparr>)) (\<lambda>_.
     combo_entries E pt (Suc i) n))"

definition currentPriceStringForConfirmingOnly :: "'j gui_env \<Rightarrow> int \<Rightarrow> ('j gui, string) prog" where
  "currentPriceStringForConfirmingOnly E now = reading (\<lambda>s.
    if m_NoPreviousSlotPurchases s then return (m_MinPrice s)
    else
    andthen (lastSlotFilledAkaPurchasedExpireDateTime E) (\<lambda>expire.
    if seconds now \<ge> expire then return (m_MinPrice s)
    else
    andthen (currentPriceBeforeExpiry E (seconds now) expire) (\<lambda>p.
    return (jsonDoubleToJsonStringAfterProperlyRoundingJsonDouble p))))"

definition buySlotPopulateStep2d3faultCampaign0 :: "'j gui_env \<Rightarrow> int \<Rightarrow> 'j \<Rightarrow> bool \<Rightarrow> bool \<Rightarrow> ('j gui, unit) prog" where
  "buySlotPopulateStep2d3faultCampaign0 E now allSlotFillersJsonDoc lcbOpSuccess dbError =
    andthen resumeRendering (\<lambda>_.
    if dbError then andthen (say InternalServerError) (\<lambda>_. gui_out EnableStep1)
    else if \<not> lcbOpSuccess then andthen (say NeedAdvertisement) (\<lambda>_. gui_out EnableStep1)
    else
    andthen (currentPriceStringForConfirmingOnly E now) (\<lambda>price.
    reading (\<lambda>s.
    andthen (if \<not> ajax s then gui_out (ShowPrice price) else return ()) (\<lambda>_.
    if m_SlotIndexImmediatelyAfterBuyStep1wasPressed s \<noteq> m_LastSlotFilledAkaPurchasedSlotIndex s then
      andthen (say SomeoneBoughtSlot) (\<lambda>_. gui_out EnableStep1)
    else
    andthen (modify (\<lambda>s. s\<lparr>m_BuyInProgress := False\<rparr>)) (\<lambda>_.
    if m_BuyStep2placeholder s then return ()
    else
    andthen (modify (\<lambda>s. s\<lparr>m_BuyStep2placeholder := True\<rparr>)) (\<lambda>_.
    andthen (parse_json (env_json E) allSlotFillersJsonDoc) (\<lambda>pt.
    andthen (modify (\<lambda>s. s\<lparr>m_AllSlotFillersComboBox := []\<rparr>)) (\<lambda>_.
    andthen (pt_need JSON_ALL_SLOT_FILLERS_ADS_COUNT pt) (\<lambda>countStr.
    andthen (require Bad_lexical_cast (lexical_cast_int countStr)) (\<lambda>count.
    andthen (modify (\<lambda>s. s\<lparr>m_AllSlotFillersAdsCount := count\<rparr>)) (\<lambda>_.
    andthen (combo_entries E pt 0 (nat count)) (\<lambda>_.
    gui_out (ShowStep2 price)))))))))))))"

text \<open>\<open>boost::iter_split\<close> at every occurrence of a text.\<close>

fun break_first :: "string \<Rightarrow> string \<Rightarrow> (string \<times> string) option" where
  "break_first p [] = None"
| "break_first p (c # cs) = (if take (length p) (c # cs) = p then Some ([], drop (length p) (c # cs))
     else map_option (\<lambda>(a, b). (c # a, b)) (break_first p cs))"

lemma break_first_shorter: "break_first (q # qs) xs = Some (a, b) \<Longrightarrow> length b < length xs"
  by (induction xs arbitrary: a b) (auto split: if_splits)

function split_on :: "char \<Rightarrow> string \<Rightarrow> string \<Rightarrow> string list" where
  "split_on q qs xs = (case break_first (q # qs) xs of None \<Rightarrow> [xs] | Some (a, b) \<Rightarrow> a # split_on q qs b)"
  by pat_completeness auto

termination split_on
  by (relation "measure (\<lambda>(q, qs, xs). length xs)") (auto dest: break_first_shorter)

declare split_on.simps [simp del]

definition dimensions_match :: "string \<Rightarrow> string \<Rightarrow> string \<Rightarrow> bool" where
  "dimensions_match nickname width height =
    (let adSlotFillerNicknameSplitByDoubleDash = split_on (CHR '' '') ''-- '' nickname in
     if length adSlotFillerNicknameSplitByDoubleDash > 1 then
       (let adSlotFillerDimensionsSplitByX = split_at (CHR ''x'') (last adSlotFillerNicknameSplitByDoubleDash) in
        if length adSlotFillerDimensionsSplitByX = 2
        then hd adSlotFillerDimensionsSplitByX = width \<and> last adSlotFillerDimensionsSplitByX = height
        else False)
     else False)"

definition buySlotStep2d3faultCampaign0ButtonClicked :: "int \<Rightarrow> ('j gui, unit) prog" where
  "buySlotStep2d3faultCampaign0ButtonClicked currentIndex = reading (\<lambda>s.
    if m_SlotIndexImmediatelyAfterBuyStep1wasPressed s \<noteq> m_LastSlotFilledAkaPurchasedSlotIndex s then
      andthen (say SomeoneBoughtSlot) (\<lambda>_. rollBackToBeforeBuyStep1ifNeeded)
    else if currentIndex < 0 \<or> currentIndex \<ge> m_AllSlotFillersAdsCount s then
      andthen (say ForgedComboBox) (\<lambda>_. rollBackToBeforeBuyStep1ifNeeded)
    else
    andthen (require List_index_out_of_range (list_at (m_AllSlotFillersComboBox s) (nat currentIndex))) (\<lambda>nickname.
    if \<not> dimensions_match nickname (m_CurrentAdCampaignImageWidth s) (m_CurrentAdCampaignImageHeight s) then
      andthen (say DimensionsDoNotMatch) (\<lambda>_. rollBackToBeforeBuyStep1ifNeeded)
    else if m_BuyInProgress s then return ()
    else
    andthen (modify (\<lambda>s. s\<lparr>m_BuyInProgress := True\<rparr>)) (\<lambda>_.
    andthen deferRendering (\<lambda>_.
    andthen (say (AttemptingToBuy nickname)) (\<lambda>_.
    andthen (modify (\<lambda>s. s\<lparr>m_SlotFillerToUseInBuy :=
      adSpaceSlotFillerKey (m_CurrentlyLoggedInUsername s) (show_int currentIndex)\<rparr>)) (\<lambda>_.
    andthen (getCouchbaseDocumentByKeySavingCasBegin (userAccountKey (m_CurrentlyLoggedInUsername s))) (\<lambda>_.
    modify (\<lambda>s. s\<lparr>m_WhatTheGetSavingCasWasFor := BUYSTEP2aVERIFYBALANCEANDGETCASFORSWAPLOCKGET\<rparr>))))))))"

definition verifyUserHasSufficientFundsAndThatTheirAccountIsntAlreadyLocked ::
  "'j gui_env \<Rightarrow> 'j \<Rightarrow> cas \<Rightarrow> bool \<Rightarrow> bool \<Rightarrow> ('j gui, unit) prog" where
  "verifyUserHasSufficientFundsAndThatTheirAccountIsntAlreadyLocked E userAccountJsonDoc cas lcbOpSuccess dbError =
    (if dbError \<or> \<not> lcbOpSuccess then say_roll_back_and_resume InternalServerError
     else reading (\<lambda>s.
     if m_SlotIndexImmediatelyAfterBuyStep1wasPressed s \<noteq> m_LastSlotFilledAkaPurchasedSlotIndex s then
       say_roll_back_and_resume SomeoneBoughtSlot
     else
     andthen (modify (\<lambda>s. s\<lparr>m_UserAccountUnlockedJustBeforeBuyingJson := userAccountJsonDoc,
       m_UserAccountUnlockedJustBeforeBuyingCas := cas\<rparr>)) (\<lambda>_.
     andthen (parse_json (env_json E) userAccountJsonDoc) (\<lambda>pt.
     andthen (modify (\<lambda>s. s\<lparr>m_LastSlotPurchasesIsExpired := True\<rparr>)) (\<lambda>_.
     if pt_get_default JSON_USER_ACCOUNT_SLOT_ATTEMPTING_TO_FILL ''n'' pt = ''n'' then
       (if profileIsLocked pt then say_and_resume TemporarilyLocked
        else
        andthen (if m_NoPreviousSlotPurchases s then return 0
          else andthen (require Bad_lexical_cast (lexical_cast_int (m_SlotIndexImmediatelyAfterBuyStep1wasPressed s))) (\<lambda>i.
            return (wrap32 (i + 1)))) (\<lambda>slotIndexToAttemptToBuy.
        andthen (modify (\<lambda>s. s\<lparr>m_AdSlotIndexToBeFilledIfLockIsSuccessful := show_int slotIndexToAttemptToBuy,
          m_AdSlotAboutToBeFilledIfLockIsSuccessful := adSpaceCampaignSlotKey (m_CampaignOwnerForPageBeingViewed s)
            (m_CampaignIndexForPageBeingViewed s) (show_int slotIndexToAttemptToBuy)\<rparr>)) (\<lambda>_.
        andthen (reading (\<lambda>s. getCouchbaseDocumentByKeyBegin (m_AdSlotAboutToBeFilledIfLockIsSuccessful s))) (\<lambda>_.
        modify (\<lambda>s. s\<lparr>m_WhatTheGetWasFor := ENSURESLOTABOUTTOLOCKUSERACCOUNTTOWARDSDOESNTEXIST\<rparr>)))))
     else say_and_resume AlreadyPurchasing)))))"

text \<open>The price at the moment of buying; it also decides whether the last purchase is expired.\<close>

definition determine_price :: "'j gui_env \<Rightarrow> rat \<Rightarrow> ('j gui, int) prog" where
  "determine_price E currentDateTime = reading (\<lambda>s.
    if m_NoPreviousSlotPurchases s then require Bad_lexical_cast (jsonStringToSatoshiInt (cast_double E) (m_MinPrice s))
    else
    andthen (lastSlotFilledAkaPurchasedExpireDateTime E) (\<lambda>expire.
    if currentDateTime \<ge> expire then require Bad_lexical_cast (jsonStringToSatoshiInt (cast_double E) (m_MinPrice s))
    else
    andthen (currentPriceBeforeExpiry E currentDateTime expire) (\<lambda>p.
    andthen (modify (\<lambda>s. s\<lparr>m_LastSlotFilledAkaPurchasedExpireDateTime_ToBeUsedAsStartDateTime := double_text E expire,
      m_LastSlotPurchasesIsExpired := False\<rparr>)) (\<lambda>_.
    return (jsonDoubleToSatoshiIntIncludingRounding p)))))"

definition ensureSlotDoesntExistThenContinueWithLockingUserAccount :: "'j gui_env \<Rightarrow> int \<Rightarrow> bool \<Rightarrow> bool \<Rightarrow> ('j gui, unit) prog" where
  "ensureSlotDoesntExistThenContinueWithLockingUserAccount E now slotExists dbError =
    (if dbError then say_and_resume InternalServerError
     else if slotExists then
       andthen (say SomeoneBoughtSlot) (\<lambda>_. reading (\<lambda>s.
       andthen (if \<not> ajax s then doHackyOneTimeBuyEventUpdateThingoForNoJavascriptUser else return ()) (\<lambda>_. resumeRendering)))
     else reading (\<lambda>s.
     andthen (parse_json (env_json E) (m_UserAccountUnlockedJustBeforeBuyingJson s)) (\<lambda>pt.
     andthen (pt_need JSON_USER_ACCOUNT_BALANCE pt) (\<lambda>balanceStr.
     andthen (need_satoshis balanceStr) (\<lambda>userBalance.
     andthen (determine_price E (seconds now)) (\<lambda>price.
     andthen (modify (\<lambda>s. s\<lparr>m_CurrentPriceInSatoshisToUseForBuying := price,
       m_CurrentPriceInSatoshisToUseForBuyingString := satoshiIntToSatoshiString price,
       m_PurchaseTimestampForUseInSlotItself := double_text E (seconds now)\<rparr>)) (\<lambda>_.
     if price < 0 then say_and_resume InternalServerError
     else if userBalance \<ge> price then
       (let locked = pt_put JSON_USER_ACCOUNT_SLOT_TO_ATTEMPT_TO_FILL_IT_WITH (m_SlotFillerToUseInBuy s)
            (pt_put JSON_USER_ACCOUNT_SLOT_ATTEMPTING_TO_FILL (m_AdSlotAboutToBeFilledIfLockIsSuccessful s) pt) in
       andthen (store_SETonly_CouchbaseDocumentByKeyWithInputCasBegin (userAccountKey (m_CurrentlyLoggedInUsername s))
         (write_json (env_json E) locked) (m_UserAccountUnlockedJustBeforeBuyingCas s) True) (\<lambda>_.
       modify (\<lambda>s. s\<lparr>m_WhatTheStoreWithInputCasSavingOutputCasWasFor := BUYSTEP2bLOCKACCOUNTFORBUYINGSETWITHCASSAVINGCAS\<rparr>)))
     else say_and_resume InsufficientFunds)))))))"

definition userAccountLockAttemptFinish_IfOkayDoTheActualSlotFillAdd :: "'j gui_env \<Rightarrow> cas \<Rightarrow> bool \<Rightarrow> bool \<Rightarrow> ('j gui, unit) prog" where
  "userAccountLockAttemptFinish_IfOkayDoTheActualSlotFillAdd E casFromLock lcbOpSuccess dbError =
    (if dbError then say_roll_back_and_resume InternalServerError
     else if \<not> lcbOpSuccess then say_roll_back_and_resume LoggedInElsewhere
     else
     andthen (modify (\<lambda>s. s\<lparr>m_CasFromUserAccountLockSoWeCanSafelyUnlockLater := casFromLock,
       m_StartTimestampUsedInNewPurchase :=
         (if \<not> m_NoPreviousSlotPurchases s \<and> \<not> m_LastSlotPurchasesIsExpired s
          then m_LastSlotFilledAkaPurchasedExpireDateTime_ToBeUsedAsStartDateTime s
          else m_PurchaseTimestampForUseInSlotItself s)\<rparr>)) (\<lambda>_.
     reading (\<lambda>s.
     let slot = pt_put JSON_AD_SPACE_CAMPAIGN_SLOT_FILLED_WITH (m_SlotFillerToUseInBuy s)
          (pt_put JSON_SLOT_PURCHASE_PRICE (m_CurrentPriceInSatoshisToUseForBuyingString s)
          (pt_put JSON_SLOT_START_TIMESTAMP (m_StartTimestampUsedInNewPurchase s)
          (pt_put JSON_SLOT_PURCHASE_TIMESTAMP (m_PurchaseTimestampForUseInSlotItself s) pt_empty))) in
     andthen (store_ADDbyDefault_WithoutInputCasCouchbaseDocumentByKeyBegin (m_AdSlotAboutToBeFilledIfLockIsSuccessful s)
       (write_json (env_json E) slot)) (\<lambda>_.
     modify (\<lambda>s. s\<lparr>m_WhatTheStoreWithoutInputCasWasFor := BUYAKAFILLSLOTWITHSLOTFILLERSTOREWITHOUTINPUTCAS\<rparr>)))))"

definition unlockUserAccountWithoutDebittingIfSlotIsPurchasedBySomeoneElse ::
  "string \<Rightarrow> string \<Rightarrow> 'j \<Rightarrow> cas \<Rightarrow> ('j gui, unit) prog" where
  "unlockUserAccountWithoutDebittingIfSlotIsPurchasedBySomeoneElse slot slotFiller lockedUserAccountJson casOfLockedUserAccount =
    andthen (getCouchbaseDocumentByKeyBegin slot) (\<lambda>_.
    modify (\<lambda>s. s\<lparr>m_WhatTheGetWasFor := ONLOGINACCOUNTLOCKEDRECOVERY_AND_SLOTPURCHASEBEATTOTHEPUNCH_DOESSLOTEXISTCHECK,
      m_AccountLockedRecoveryWhatTheUserWasTryingToFillTheSlotWithHack := slotFiller,
      m_UserAccountLockedJsonToMaybeUseInAccountRecoveryAtLogin := lockedUserAccountJson,
      m_CasFromUserAccountLockedAndStuckLocked := casOfLockedUserAccount\<rparr>))"

definition slotFillAkaPurchaseAddAttemptFinished :: "'j gui_env \<Rightarrow> bool \<Rightarrow> bool \<Rightarrow> ('j gui, unit) prog" where
  "slotFillAkaPurchaseAddAttemptFinished E lcbOpSuccess dbError =
    (if dbError then say_roll_back_and_resume InternalServerError
     else reading (\<lambda>s.
     if \<not> lcbOpSuccess then
       andthen (unlockUserAccountWithoutDebittingIfSlotIsPurchasedBySomeoneElse (m_AdSlotAboutToBeFilledIfLockIsSuccessful s)
         (m_SlotFillerToUseInBuy s) (m_UserAccountUnlockedJustBeforeBuyingJson s)
         (m_CasFromUserAccountLockSoWeCanSafelyUnlockLater s)) (\<lambda>_. rollBackToBeforeBuyStep1ifNeeded)
     else
     andthen (store_ADDbyDefault_WithoutInputCasCouchbaseDocumentByKeyBegin
       (transactionKey (m_CampaignOwnerForPageBeingViewed s) (m_CampaignIndexForPageBeingViewed s)
         (m_AdSlotIndexToBeFilledIfLockIsSuccessful s))
       (write_json (env_json E) (createTransactionDoc pt_empty (m_CampaignOwnerForPageBeingViewed s)
         (m_CurrentlyLoggedInUsername s) (m_CurrentPriceInSatoshisToUseForBuyingString s)))) (\<lambda>_.
     modify (\<lambda>s. s\<lparr>m_WhatTheStoreWithoutInputCasWasFor := CREATETRANSACTIONDOCSTOREWITHOUTINPUTCAS\<rparr>))))"

definition transactionDocCreatedSoCasSwapUnlockAcceptingFailUserAccountDebitting :: "'j gui_env \<Rightarrow> bool \<Rightarrow> ('j gui, unit) prog" where
  "transactionDocCreatedSoCasSwapUnlockAcceptingFailUserAccountDebitting E dbError =
    (if dbError then say_roll_back_and_resume InternalServerError
     else reading (\<lambda>s.
     andthen (parse_json (env_json E) (m_UserAccountUnlockedJustBeforeBuyingJson s)) (\<lambda>pt.
     andthen (pt_need JSON_USER_ACCOUNT_BALANCE pt) (\<lambda>balanceStr.
     andthen (need_satoshis balanceStr) (\<lambda>userBalance.
     let balanceString = satoshiIntToSatoshiString (wrap64 (userBalance - m_CurrentPriceInSatoshisToUseForBuying s)) in
     andthen (modify (\<lambda>s. s\<lparr>m_BalanceSatoshiStringForDisplayingOnly := balanceString\<rparr>)) (\<lambda>_.
     andthen (require Bad_lexical_cast (satoshiStringToJsonString balanceString)) (\<lambda>_.
     andthen (store_SETonly_CouchbaseDocumentByKeyWithInputCasBegin (userAccountKey (m_CurrentlyLoggedInUsername s))
       (write_json (env_json E) (pt_put JSON_USER_ACCOUNT_BALANCE balanceString pt))
       (m_CasFromUserAccountLockSoWeCanSafelyUnlockLater s) False) (\<lambda>_.
     modify (\<lambda>s. s\<lparr>m_WhatTheStoreWithInputCasWasFor := BUYPURCHASSUCCESSFULSOUNLOCKUSERACCOUNTSAFELYUSINGCAS\<rparr>)))))))))"

definition doneUnlockingUserAccountAfterSuccessfulPurchaseSoNowUpdateCampaignDoc :: "'j gui_env \<Rightarrow> bool \<Rightarrow> ('j gui, unit) prog" where
  "doneUnlockingUserAccountAfterSuccessfulPurchaseSoNowUpdateCampaignDoc E dbError =
    (if dbError then say_roll_back_and_resume InternalServerError
     else reading (\<lambda>s.
     andthen (parse_json (env_json E) (m_CampaignJsonDocForUpdatingLater s)) (\<lambda>pt.
     let lastPurchasedPt = pt_put JSON_LAST_PURCHASE_PRICE (m_CurrentPriceInSatoshisToUseForBuyingString s)
          (pt_put JSON_SLOT_START_TIMESTAMP (m_StartTimestampUsedInNewPurchase s)
          (pt_put JSON_SLOT_PURCHASE_TIMESTAMP (m_PurchaseTimestampForUseInSlotItself s)
          (pt_put JSON_AD_SPACE_CAMPAIGN_LAST_SLOT_FILLED_INDEX (m_AdSlotIndexToBeFilledIfLockIsSuccessful s) pt_empty))) in
     andthen (store_SETonly_CouchbaseDocumentByKeyWithInputCasBegin
       (adSpaceCampaignKey (m_CampaignOwnerForPageBeingViewed s) (m_CampaignIndexForPageBeingViewed s))
       (write_json (env_json E) (pt_put_child JSON_AD_SPACE_CAMPAIGN_LAST_SLOT_FILLED lastPurchasedPt pt))
       (m_CampaignCasForSafelyUpdatingLater s) False) (\<lambda>_.
     modify (\<lambda>s. s\<lparr>m_WhatTheStoreWithInputCasWasFor := USERACCOUNTUNLOCKDONESOUPDATECAMPAIGNDOCSETWITHINPUTCAS\<rparr>)))))"

definition doneUpdatingCampaignDocSoErrYeaTellUserWeAreCompletelyDone :: "bool \<Rightarrow> ('j gui, unit) prog" where
  "doneUpdatingCampaignDocSoErrYeaTellUserWeAreCompletelyDone dbError =
    (if dbError then andthen (say InternalServerError) (\<lambda>_. say_roll_back_and_resume ProbablyPurchased)
     else reading (\<lambda>s.
     andthen (if \<not> ajax s then doHackyOneTimeBuyEventUpdateThingoForNoJavascriptUser else return ()) (\<lambda>_.
     andthen (require Bad_lexical_cast (satoshiStringToJsonString (m_CurrentPriceInSatoshisToUseForBuyingString s))) (\<lambda>p.
     say_and_resume (Bought p)))))"

subsection \<open>Registration, login, and the recovery of a locked account\<close>

abbreviation "JSON_USER_ACCOUNT_PASSWORD_HASH \<equiv> ''passwordHash''"
abbreviation "JSON_USER_ACCOUNT_PASSWORD_SALT \<equiv> ''passwordSalt''"
abbreviation "JSON_PROFILE_API_KEY \<equiv> ''apikey''"

text \<open>\<open>saltId\<close> and \<open>apiId\<close> are the two identifiers that \<open>WRandom::generateId\<close> returns.\<close>

definition handleRegisterButtonClicked :: "'j gui_env \<Rightarrow> string \<Rightarrow> string \<Rightarrow> ('j gui, unit) prog" where
  "handleRegisterButtonClicked E saltId apiId = reading (\<lambda>s.
    if \<not> letters_numbers_only (m_RegisterUsernameLineEdit s) \<or> \<not> letters_numbers_only (m_RegisterPasswordLineEdit s)
    then say RegisterInvalid
    else
    let username = m_RegisterUsernameLineEdit s; base64Salt = base64_sha1 E saltId;
      jsonDoc = pt_put JSON_USER_ACCOUNT_BITCOIN_STATE JSON_USER_ACCOUNT_BITCOIN_STATE_NO_KEY
        (pt_put JSON_PROFILE_API_KEY (hexEncode E (username @ ''_'' @ apiId))
        (pt_put JSON_USER_ACCOUNT_PASSWORD_SALT base64Salt
        (pt_put JSON_USER_ACCOUNT_PASSWORD_HASH (base64_sha1 E (m_RegisterPasswordLineEdit s @ base64Salt))
        (pt_put JSON_USER_ACCOUNT_BALANCE ''0'' pt_empty))))
    in
    andthen (store_ADDbyDefault_WithoutInputCasCouchbaseDocumentByKeyBegin (userAccountKey username)
      (write_json (env_json E) jsonDoc)) (\<lambda>_.
    modify (\<lambda>s. s\<lparr>m_WhatTheStoreWithoutInputCasWasFor := REGISTERATTEMPTSTOREWITHOUTINPUTCAS\<rparr>)))"

definition registerAttemptFinished :: "bool \<Rightarrow> bool \<Rightarrow> ('j gui, unit) prog" where
  "registerAttemptFinished lcbOpSuccess dbError =
    (if dbError then say RegisterError
     else if \<not> lcbOpSuccess then say UsernameTaken
     else
     andthen (reading (\<lambda>s. say (Registered (m_RegisterUsernameLineEdit s)))) (\<lambda>_.
     modify (\<lambda>s. s\<lparr>m_RegisterUsernameLineEdit := [], m_RegisterPasswordLineEdit := []\<rparr>)))"

definition handleLoginButtonClicked :: "('j gui, unit) prog" where
  "handleLoginButtonClicked = reading (\<lambda>s.
    if \<not> letters_numbers_only (m_LoginUsernameLineEdit s) \<or> \<not> letters_numbers_only (m_LoginPasswordLineEdit s)
    then say LoginInvalid
    else
    andthen deferRendering (\<lambda>_.
    andthen (getCouchbaseDocumentByKeySavingCasBegin (userAccountKey (m_LoginUsernameLineEdit s))) (\<lambda>_.
    modify (\<lambda>s. s\<lparr>m_WhatTheGetSavingCasWasFor := LOGINATTEMPTGET\<rparr>))))"

definition usernameOrPasswordYouProvidedIsIncorrect :: "('j gui, unit) prog" where
  "usernameOrPasswordYouProvidedIsIncorrect =
     andthen (say LoginWrong) (\<lambda>_. modify (\<lambda>s. s\<lparr>m_LoginPasswordLineEdit := []\<rparr>))"

definition doLoginTasks :: "('j gui, unit) prog" where
  "doLoginTasks = reading (\<lambda>s.
    andthen (require Bad_lexical_cast (satoshiStringToJsonString (m_BalanceSatoshiStringForDisplayingOnly s))) (\<lambda>balance.
    andthen (say (LoggedInAs (m_CurrentlyLoggedInUsername s) balance)) (\<lambda>_.
    andthen (modify (\<lambda>s. s\<lparr>m_LoggedIn := True\<rparr>)) (\<lambda>_. resumeRendering))))"

definition loginIfInputHashedEqualsDbInfo :: "'j gui_env \<Rightarrow> 'j \<Rightarrow> cas \<Rightarrow> bool \<Rightarrow> bool \<Rightarrow> ('j gui, unit) prog" where
  "loginIfInputHashedEqualsDbInfo E userProfile cas lcbOpSuccess dbError =
    (if dbError then say_and_resume LoginError
     else if \<not> lcbOpSuccess then andthen usernameOrPasswordYouProvidedIsIncorrect (\<lambda>_. resumeRendering)
     else
     andthen (parse_json (env_json E) userProfile) (\<lambda>pt.
     andthen (pt_need JSON_USER_ACCOUNT_PASSWORD_HASH pt) (\<lambda>hashFromDb.
     andthen (pt_need JSON_USER_ACCOUNT_PASSWORD_SALT pt) (\<lambda>saltFromDb.
     reading (\<lambda>s.
     if base64_sha1 E (m_LoginPasswordLineEdit s @ saltFromDb) = hashFromDb then
       andthen (if fst (m_CurrentlySubscribedTo s) \<noteq> INITIALINVALIDNULLNOTSUBSCRIBEDTOANYTHING
         then getAndSubscribeCouchbaseDocumentByKeySavingCas (snd (m_CurrentlySubscribedTo s)) GetAndSubscribeChangeSessionIdMode
         else return ()) (\<lambda>_.
       andthen (modify (\<lambda>s. s\<lparr>m_CurrentlyLoggedInUsername := m_LoginUsernameLineEdit s\<rparr>)) (\<lambda>_.
       andthen (modify (\<lambda>s. s\<lparr>m_LoginUsernameLineEdit := [], m_LoginPasswordLineEdit := []\<rparr>)) (\<lambda>_.
       andthen (pt_need JSON_USER_ACCOUNT_BALANCE pt) (\<lambda>balance.
       andthen (modify (\<lambda>s. s\<lparr>m_BalanceSatoshiStringForDisplayingOnly := balance\<rparr>)) (\<lambda>_.
       let slotToAttemptToFill = pt_get_default JSON_USER_ACCOUNT_SLOT_ATTEMPTING_TO_FILL ''n'' pt in
       if slotToAttemptToFill = ''n'' then doLoginTasks
       else
       andthen (pt_need JSON_USER_ACCOUNT_SLOT_TO_ATTEMPT_TO_FILL_IT_WITH pt) (\<lambda>slotFiller.
       unlockUserAccountWithoutDebittingIfSlotIsPurchasedBySomeoneElse slotToAttemptToFill slotFiller userProfile cas))))))
     else andthen usernameOrPasswordYouProvidedIsIncorrect (\<lambda>_. resumeRendering))))))"

text \<open>Both callers of the recovery are told apart by \<open>m_LoggedIn\<close>; only the messages differ.\<close>

definition by_login_state :: "gui_message \<Rightarrow> gui_message \<Rightarrow> ('j gui, unit) prog" where
  "by_login_state atLogin atPurchase = reading (\<lambda>s. if \<not> m_LoggedIn s then say atLogin else say atPurchase)"

definition continueRecoveringLockedAccountAtLoginAttempt_OrAnalyzingSlotBuyBeatToThePunch ::
  "'j gui_env \<Rightarrow> 'j \<Rightarrow> bool \<Rightarrow> bool \<Rightarrow> ('j gui, unit) prog" where
  "continueRecoveringLockedAccountAtLoginAttempt_OrAnalyzingSlotBuyBeatToThePunch E maybeExistentSlot lcbOpSuccess dbError =
    (if dbError then andthen (by_login_state LoginError InternalServerError) (\<lambda>_. resumeRendering)
     else if \<not> lcbOpSuccess then andthen (by_login_state LoginLocked NothingMakesSense) (\<lambda>_. resumeRendering)
     else
     andthen (parse_json (env_json E) maybeExistentSlot) (\<lambda>pt.
     andthen (pt_need JSON_AD_SPACE_CAMPAIGN_SLOT_FILLED_WITH pt) (\<lambda>slotFilledWith.
     reading (\<lambda>s.
     if slotFilledWith = m_AccountLockedRecoveryWhatTheUserWasTryingToFillTheSlotWithHack s then
       andthen (by_login_state LoginTryLater DontUseMultipleTabs) (\<lambda>_. resumeRendering)
     else
     andthen (parse_json (env_json E) (m_UserAccountLockedJsonToMaybeUseInAccountRecoveryAtLogin s)) (\<lambda>pt2.
     andthen (store_SETonly_CouchbaseDocumentByKeyWithInputCasBegin (userAccountKey (m_CurrentlyLoggedInUsername s))
       (write_json (env_json E) (pt_erase JSON_USER_ACCOUNT_SLOT_TO_ATTEMPT_TO_FILL_IT_WITH
         (pt_erase JSON_USER_ACCOUNT_SLOT_ATTEMPTING_TO_FILL pt2)))
       (m_CasFromUserAccountLockedAndStuckLocked s) False) (\<lambda>_.
     modify (\<lambda>s. s\<lparr>m_WhatTheStoreWithInputCasWasFor :=
       LOGINACCOUNTRECOVERY_AND_SLOTPURCHASEBEATTOTHEPUNCH_UNLOCKINGWITHOUTDEBITTINGUSERACCOUNT\<rparr>)))))))"

definition doneAttemptingUserAccountUnlockingWithoutDebitting :: "bool \<Rightarrow> bool \<Rightarrow> ('j gui, unit) prog" where
  "doneAttemptingUserAccountUnlockingWithoutDebitting lcbOpSuccess dbError =
    (if dbError then andthen (by_login_state LoginError InternalServerError) (\<lambda>_. resumeRendering)
     else if \<not> lcbOpSuccess then andthen (by_login_state LoginTryAgain DontUseMultipleTabs) (\<lambda>_. resumeRendering)
     else reading (\<lambda>s.
     if \<not> m_LoggedIn s then doLoginTasks
     else
     andthen (say SomeoneBoughtSlot) (\<lambda>_.
     andthen (if \<not> ajax s then doHackyOneTimeBuyEventUpdateThingoForNoJavascriptUser else return ()) (\<lambda>_. resumeRendering))))"

definition handleLogoutButtonClicked :: "('j gui, unit) prog" where
  "handleLogoutButtonClicked = reading (\<lambda>s.
    if \<not> m_LoggedIn s then return ()
    else
    andthen rollBackToBeforeBuyStep1ifNeeded (\<lambda>_.
    modify (\<lambda>s. s\<lparr>m_LoggedIn := False, m_CurrentlyLoggedInUsername := []\<rparr>)))"

subsection \<open>The answers of the database find their handler\<close>

definition getCouchbaseDocumentByKeyFinished :: "'j gui_env \<Rightarrow> int \<Rightarrow> 'j \<Rightarrow> bool \<Rightarrow> bool \<Rightarrow> ('j gui, unit) prog" where
  "getCouchbaseDocumentByKeyFinished E now couchbaseDocument lcbOpSuccess dbError =
    andthen resumeRendering (\<lambda>_. reading (\<lambda>s. case m_WhatTheGetWasFor s of
      BUYSTEP1GET \<Rightarrow> buySlotPopulateStep2d3faultCampaign0 E now couchbaseDocument lcbOpSuccess dbError
    | ENSURESLOTABOUTTOLOCKUSERACCOUNTTOWARDSDOESNTEXIST \<Rightarrow>
        ensureSlotDoesntExistThenContinueWithLockingUserAccount E now lcbOpSuccess dbError
    | ONLOGINACCOUNTLOCKEDRECOVERY_AND_SLOTPURCHASEBEATTOTHEPUNCH_DOESSLOTEXISTCHECK \<Rightarrow>
        continueRecoveringLockedAccountAtLoginAttempt_OrAnalyzingSlotBuyBeatToThePunch E couchbaseDocument lcbOpSuccess dbError
    | INITIALINVALIDNULLGET \<Rightarrow> return ()))"

definition getCouchbaseDocumentByKeySavingCasFinished :: "'j gui_env \<Rightarrow> 'j \<Rightarrow> cas \<Rightarrow> bool \<Rightarrow> bool \<Rightarrow> ('j gui, unit) prog" where
  "getCouchbaseDocumentByKeySavingCasFinished E couchbaseDocument cas lcbOpSuccess dbError =
    andthen resumeRendering (\<lambda>_. reading (\<lambda>s. case m_WhatTheGetSavingCasWasFor s of
      LOGINATTEMPTGET \<Rightarrow> loginIfInputHashedEqualsDbInfo E couchbaseDocument cas lcbOpSuccess dbError
    | BUYSTEP2aVERIFYBALANCEANDGETCASFORSWAPLOCKGET \<Rightarrow>
        verifyUserHasSufficientFundsAndThatTheirAccountIsntAlreadyLocked E couchbaseDocument cas lcbOpSuccess dbError
    | INITIALINVALIDNULLGETSAVINGCAS \<Rightarrow> return ()))"

definition getAndSubscribeCouchbaseDocumentByKeySavingCas_UPDATE :: "'j gui_env \<Rightarrow> int \<Rightarrow> 'j \<Rightarrow> cas \<Rightarrow> bool \<Rightarrow> bool \<Rightarrow> ('j gui, unit) prog" where
  "getAndSubscribeCouchbaseDocumentByKeySavingCas_UPDATE E now couchbaseDocument cas lcbOpSuccess dbError =
    reading (\<lambda>s. case fst (m_CurrentlySubscribedTo s) of
      GETANDSUBSCRIBESAVINGCAS \<Rightarrow>
        finishShowingAdvertisingBuyAdSpaceD3faultCampaign0Widget E now couchbaseDocument cas lcbOpSuccess dbError
    | SINGLESUBSCRIPTIONUPDATEFORNOJAVASCRIPTUSERSHACKPLXTHX \<Rightarrow>
        andthen resumeRendering (\<lambda>_.
        andthen (modify (\<lambda>s. s\<lparr>m_CurrentlySubscribedTo := (INITIALINVALIDNULLNOTSUBSCRIBEDTOANYTHING, [])\<rparr>)) (\<lambda>_.
        finishShowingAdvertisingBuyAdSpaceD3faultCampaign0Widget E now couchbaseDocument cas lcbOpSuccess dbError))
    | NOJSNEEDSTOVERIFYCAMPAIGNDOCSHITAFTERBUYSTEP1CLICKED \<Rightarrow>
        andthen (modify (\<lambda>s. s\<lparr>m_CurrentlySubscribedTo := (INITIALINVALIDNULLNOTSUBSCRIBEDTOANYTHING, [])\<rparr>)) (\<lambda>_.
        ehhGetLatestValuesFromCampaignDocForNoJsUser E now couchbaseDocument cas lcbOpSuccess dbError)
    | INITIALINVALIDNULLNOTSUBSCRIBEDTOANYTHING \<Rightarrow> return ())"

definition storeWithoutInputCasCouchbaseDocumentByKeyFinished :: "'j gui_env \<Rightarrow> bool \<Rightarrow> bool \<Rightarrow> ('j gui, unit) prog" where
  "storeWithoutInputCasCouchbaseDocumentByKeyFinished E lcbOpSuccess dbError =
    andthen resumeRendering (\<lambda>_. reading (\<lambda>s. case m_WhatTheStoreWithoutInputCasWasFor s of
      REGISTERATTEMPTSTOREWITHOUTINPUTCAS \<Rightarrow> registerAttemptFinished lcbOpSuccess dbError
    | BUYAKAFILLSLOTWITHSLOTFILLERSTOREWITHOUTINPUTCAS \<Rightarrow> slotFillAkaPurchaseAddAttemptFinished E lcbOpSuccess dbError
    | CREATETRANSACTIONDOCSTOREWITHOUTINPUTCAS \<Rightarrow> transactionDocCreatedSoCasSwapUnlockAcceptingFailUserAccountDebitting E dbError
    | INITIALINVALIDNULLSTOREWITHOUTINPUTCAS \<Rightarrow> return ()))"

definition storeCouchbaseDocumentByKeyWithInputCasFinished :: "'j gui_env \<Rightarrow> bool \<Rightarrow> bool \<Rightarrow> ('j gui, unit) prog" where
  "storeCouchbaseDocumentByKeyWithInputCasFinished E lcbOpSuccess dbError =
    andthen resumeRendering (\<lambda>_. reading (\<lambda>s. case m_WhatTheStoreWithInputCasWasFor s of
      BUYPURCHASSUCCESSFULSOUNLOCKUSERACCOUNTSAFELYUSINGCAS \<Rightarrow>
        doneUnlockingUserAccountAfterSuccessfulPurchaseSoNowUpdateCampaignDoc E dbError
    | USERACCOUNTUNLOCKDONESOUPDATECAMPAIGNDOCSETWITHINPUTCAS \<Rightarrow>
        doneUpdatingCampaignDocSoErrYeaTellUserWeAreCompletelyDone dbError
    | LOGINACCOUNTRECOVERY_AND_SLOTPURCHASEBEATTOTHEPUNCH_UNLOCKINGWITHOUTDEBITTINGUSERACCOUNT \<Rightarrow>
        doneAttemptingUserAccountUnlockingWithoutDebitting lcbOpSuccess dbError
    | INITIALINVALIDNULLSTOREWITHCAS \<Rightarrow> return ()))"

definition storeCouchbaseDocumentByKeyWithInputCasSavingOutputCasFinished ::
  "'j gui_env \<Rightarrow> cas \<Rightarrow> bool \<Rightarrow> bool \<Rightarrow> ('j gui, unit) prog" where
  "storeCouchbaseDocumentByKeyWithInputCasSavingOutputCasFinished E outputCas lcbOpSuccess dbError =
    andthen resumeRendering (\<lambda>_. reading (\<lambda>s. case m_WhatTheStoreWithInputCasSavingOutputCasWasFor s of
      BUYSTEP2bLOCKACCOUNTFORBUYINGSETWITHCASSAVINGCAS \<Rightarrow>
        userAccountLockAttemptFinish_IfOkayDoTheActualSlotFillAdd E outputCas lcbOpSuccess dbError
    | INITIALINVALIDNULLSTOREWITHCASSAVINGCAS \<Rightarrow> return ()))"

end
