(* ===== verification/BuySession.thy ===== *)
theory BuySession
  imports BuySlot "HOL-Library.Sublist"
begin

section \<open>A browser session and the phases of a purchase\<close>

text \<open>
  The session as a step relation over what happens to it: the user's clicks, updates of the subscribed campaign document, and the
  answers of the database. Wt delivers no click while rendering is deferred; updates come at any time, also in
  the middle of a purchase. The log of a session holds its inputs and its outputs in order.

  The invariant follows the purchase through its phases. Each phase carries the part of the log that led to it (\<open>evidence\<close>); the
  property is read off at the store that debits or unlocks an account.
\<close>

subsection \<open>Inputs and steps\<close>

datatype 'j gui_input =
    ShowCampaign string string
  | LeaveCampaign
  | ClickStep1
  | ClickStep2 int
  | ClickLogin string string
  | ClickLogout
  | ClickRegister string string string string
  | CampaignUpdate 'j cas bool bool
  | GotDoc 'j bool bool
  | GotDocSavingCas 'j cas bool bool
  | AddDone bool bool
  | CasStoreDone bool bool
  | CasStoreSavingCasDone cas bool bool

fun gui_handle :: "'j gui_env \<Rightarrow> int \<Rightarrow> 'j gui_input \<Rightarrow> ('j gui, unit) prog" where
  "gui_handle E now (ShowCampaign u i) = beginShowingAdvertisingBuyAdSpaceD3faultCampaign0Widget u i"
| "gui_handle E now LeaveCampaign = unsubscribeIfSubscribedToAnything"
| "gui_handle E now ClickStep1 = buySlotStep1d3faultCampaign0ButtonClicked"
| "gui_handle E now (ClickStep2 i) = buySlotStep2d3faultCampaign0ButtonClicked i"
| "gui_handle E now (ClickLogin u p) = andthen (modify (\<lambda>s. s\<lparr>m_LoginUsernameLineEdit := u, m_LoginPasswordLineEdit := p\<rparr>))
     (\<lambda>_. handleLoginButtonClicked)"
| "gui_handle E now ClickLogout = handleLogoutButtonClicked"
| "gui_handle E now (ClickRegister u p saltId apiId) =
     andthen (modify (\<lambda>s. s\<lparr>m_RegisterUsernameLineEdit := u, m_RegisterPasswordLineEdit := p\<rparr>))
     (\<lambda>_. handleRegisterButtonClicked E saltId apiId)"
| "gui_handle E now (CampaignUpdate d c ok err) = getAndSubscribeCouchbaseDocumentByKeySavingCas_UPDATE E now d c ok err"
| "gui_handle E now (GotDoc d ok err) = getCouchbaseDocumentByKeyFinished E now d ok err"
| "gui_handle E now (GotDocSavingCas d c ok err) = getCouchbaseDocumentByKeySavingCasFinished E d c ok err"
| "gui_handle E now (AddDone ok err) = storeWithoutInputCasCouchbaseDocumentByKeyFinished E ok err"
| "gui_handle E now (CasStoreDone ok err) = storeCouchbaseDocumentByKeyWithInputCasFinished E ok err"
| "gui_handle E now (CasStoreSavingCasDone c ok err) = storeCouchbaseDocumentByKeyWithInputCasSavingOutputCasFinished E c ok err"

fun answers :: "'j gui_input \<Rightarrow> request_kind option" where
  "answers (GotDoc d ok err) = Some PGet"
| "answers (GotDocSavingCas d c ok err) = Some PGetSavingCas"
| "answers (AddDone ok err) = Some PAdd"
| "answers (CasStoreDone ok err) = Some PCasStore"
| "answers (CasStoreSavingCasDone c ok err) = Some PCasStoreSavingCas"
| "answers _ = None"

fun is_update :: "'j gui_input \<Rightarrow> bool" where
  "is_update (CampaignUpdate d c ok err) = True"
| "is_update _ = False"

text \<open>An answer needs a pending request of its kind, a click needs rendering that is not deferred.\<close>

definition gui_enabled :: "'j gui_input \<Rightarrow> 'j gui \<Rightarrow> bool" where
  "gui_enabled i s \<longleftrightarrow> (case answers i of
      Some k \<Rightarrow> k \<in> set (gui_pending s)
    | None \<Rightarrow> is_update i \<or> m_DeferCount s \<le> 0)"

definition still_pending :: "'j gui_input \<Rightarrow> request_kind list \<Rightarrow> request_kind list" where
  "still_pending i ks = (case answers i of Some k \<Rightarrow> remove1 k ks | None \<Rightarrow> ks)"

datatype 'j gui_event = Input "'j gui_input" | Output "'j gui_output"

inductive gui_step :: "'j gui_env \<Rightarrow> 'j gui \<Rightarrow> 'j gui_event list \<Rightarrow> 'j gui \<Rightarrow> bool" for E where
  handled: "gui_enabled i s \<Longrightarrow> gui_handle E now i (s\<lparr>gui_outputs := [], gui_pending := still_pending i (gui_pending s)\<rparr>) = Ret () s'
    \<Longrightarrow> gui_step E s (Input i # map Output (gui_outputs s')) s'"

inductive gui_reach :: "'j gui_env \<Rightarrow> 'j gui \<Rightarrow> 'j gui_event list \<Rightarrow> 'j gui \<Rightarrow> bool" for E s0 where
  start: "gui_reach E s0 [] s0"
| step: "gui_reach E s0 h s \<Longrightarrow> gui_step E s evs s' \<Longrightarrow> gui_reach E s0 (h @ evs) s'"

text \<open>What the constructor sets; the other members may hold anything.\<close>

definition new_session :: "'j gui \<Rightarrow> bool" where
  "new_session s \<longleftrightarrow> \<not> m_LoggedIn s \<and> \<not> m_CampaignWidgetExists s \<and> \<not> m_BuyInProgress s \<and> \<not> m_FirstPopulate s
     \<and> \<not> m_BuySlotFillerStep1Button s \<and> m_NoPreviousSlotPurchases s \<and> \<not> m_BuyStep2placeholder s
     \<and> m_WhatTheStoreWithoutInputCasWasFor s = INITIALINVALIDNULLSTOREWITHOUTINPUTCAS
     \<and> m_WhatTheStoreWithInputCasWasFor s = INITIALINVALIDNULLSTOREWITHCAS
     \<and> m_WhatTheStoreWithInputCasSavingOutputCasWasFor s = INITIALINVALIDNULLSTOREWITHCASSAVINGCAS
     \<and> m_WhatTheGetWasFor s = INITIALINVALIDNULLGET \<and> m_WhatTheGetSavingCasWasFor s = INITIALINVALIDNULLGETSAVINGCAS
     \<and> m_CurrentlySubscribedTo s = (INITIALINVALIDNULLNOTSUBSCRIBEDTOANYTHING, [])
     \<and> m_DeferCount s = 0 \<and> gui_outputs s = [] \<and> gui_pending s = []"

subsection \<open>The phases of a session\<close>

text \<open>
  What a purchase is about: the buyer, the slot, the account document before the lock with its CAS, the price, and the CAS
  the lock returned.
\<close>

record 'j purchase =
  p_user :: string
  p_owner :: string
  p_campaign :: string
  p_slot :: string
  p_filler :: string
  p_profile :: 'j
  p_tree :: ptree
  p_cas :: cas
  p_probe :: 'j
  p_balance :: int
  p_price :: int
  p_bought :: string
  p_start :: string
  p_locked_cas :: cas

definition p_slot_key :: "'j purchase \<Rightarrow> string" where
  "p_slot_key P = adSpaceCampaignSlotKey (p_owner P) (p_campaign P) (p_slot P)"

definition locked_doc :: "'j gui_env \<Rightarrow> 'j purchase \<Rightarrow> 'j" where
  "locked_doc E P = write_json (env_json E) (pt_put JSON_USER_ACCOUNT_SLOT_TO_ATTEMPT_TO_FILL_IT_WITH (p_filler P)
     (pt_put JSON_USER_ACCOUNT_SLOT_ATTEMPTING_TO_FILL (p_slot_key P) (p_tree P)))"

definition slot_doc :: "'j gui_env \<Rightarrow> 'j purchase \<Rightarrow> 'j" where
  "slot_doc E P = write_json (env_json E) (pt_put JSON_AD_SPACE_CAMPAIGN_SLOT_FILLED_WITH (p_filler P)
     (pt_put JSON_SLOT_PURCHASE_PRICE (show_int (p_price P))
     (pt_put JSON_SLOT_START_TIMESTAMP (p_start P)
     (pt_put JSON_SLOT_PURCHASE_TIMESTAMP (p_bought P) pt_empty))))"

definition tx_doc :: "'j gui_env \<Rightarrow> 'j purchase \<Rightarrow> 'j" where
  "tx_doc E P = write_json (env_json E) (createTransactionDoc pt_empty (p_owner P) (p_user P) (show_int (p_price P)))"

definition debited_doc :: "'j gui_env \<Rightarrow> 'j purchase \<Rightarrow> 'j" where
  "debited_doc E P = write_json (env_json E)
     (pt_put JSON_USER_ACCOUNT_BALANCE (show_int (wrap64 (p_balance P - p_price P))) (p_tree P))"

text \<open>The account was read unlocked, and pays a price it can afford.\<close>

definition was_unlocked :: "'j gui_env \<Rightarrow> 'j purchase \<Rightarrow> bool" where
  "was_unlocked E P \<longleftrightarrow> read_json (env_json E) (p_profile P) = Some (p_tree P) \<and> \<not> profileIsLocked (p_tree P)"

definition affordable :: "'j purchase \<Rightarrow> bool" where
  "affordable P \<longleftrightarrow> Option.bind (pt_get JSON_USER_ACCOUNT_BALANCE (p_tree P)) satoshiStringToSatoshiInt = Some (p_balance P)
     \<and> 0 \<le> p_price P \<and> p_price P \<le> p_balance P"

definition check_events :: "'j gui_env \<Rightarrow> 'j purchase \<Rightarrow> 'j gui_event list" where
  "check_events E P = [Output (BeginGetSavingCas (userAccountKey (p_user P))), Input (GotDocSavingCas (p_profile P) (p_cas P) True False),
     Output (BeginGet (p_slot_key P))]"

definition lock_events :: "'j gui_env \<Rightarrow> 'j purchase \<Rightarrow> 'j gui_event list" where
  "lock_events E P = check_events E P @
     [Input (GotDoc (p_probe P) False False), Output (BeginCasStoreSavingCas (userAccountKey (p_user P)) (locked_doc E P) (p_cas P))]"

definition fill_events :: "'j gui_env \<Rightarrow> 'j purchase \<Rightarrow> 'j gui_event list" where
  "fill_events E P = lock_events E P @
     [Input (CasStoreSavingCasDone (p_locked_cas P) True False), Output (BeginAdd (p_slot_key P) (slot_doc E P))]"

definition record_events :: "'j gui_env \<Rightarrow> 'j purchase \<Rightarrow> 'j gui_event list" where
  "record_events E P = fill_events E P @ [Input (AddDone True False),
     Output (BeginAdd (transactionKey (p_owner P) (p_campaign P) (p_slot P)) (tx_doc E P))]"

definition debit_events :: "'j gui_env \<Rightarrow> 'j purchase \<Rightarrow> bool \<Rightarrow> 'j gui_event list" where
  "debit_events E P ok = record_events E P @ [Input (AddDone ok False),
     Output (BeginCasStore (userAccountKey (p_user P)) (debited_doc E P) (p_locked_cas P))]"

text \<open>
  An unlocking without debit: the account is written back without the two purchase fields, after the slot was read and holds
  somebody else's ad.
\<close>

definition unlocked_doc :: "'j gui_env \<Rightarrow> ptree \<Rightarrow> 'j" where
  "unlocked_doc E t = write_json (env_json E) (pt_erase JSON_USER_ACCOUNT_SLOT_TO_ATTEMPT_TO_FILL_IT_WITH
     (pt_erase JSON_USER_ACCOUNT_SLOT_ATTEMPTING_TO_FILL t))"

definition lost_to_somebody :: "'j gui_env \<Rightarrow> string \<Rightarrow> 'j \<Rightarrow> bool" where
  "lost_to_somebody E filler slotdoc \<longleftrightarrow> (\<exists>t other. read_json (env_json E) slotdoc = Some t
     \<and> pt_get JSON_AD_SPACE_CAMPAIGN_SLOT_FILLED_WITH t = Some other \<and> other \<noteq> filler)"

text \<open>The account document an unlocking starts from, and the slot and the ad the account names, at a login.\<close>

definition login_events :: "string \<Rightarrow> 'j \<Rightarrow> cas \<Rightarrow> string \<Rightarrow> 'j gui_event list" where
  "login_events u account c slot = [Output (BeginGetSavingCas (userAccountKey u)), Input (GotDocSavingCas account c True False), Output (BeginGet slot)]"

definition beaten_events :: "'j gui_env \<Rightarrow> 'j purchase \<Rightarrow> 'j gui_event list" where
  "beaten_events E P = fill_events E P @ [Input (AddDone False False), Output (BeginGet (p_slot_key P))]"

text \<open>Why the winner of a slot is looked up: the session's own purchase was beaten, or a login met a locked account.\<close>

definition winner_wanted ::
  "'j gui_env \<Rightarrow> 'j gui_event list \<Rightarrow> string \<Rightarrow> 'j \<Rightarrow> cas \<Rightarrow> string \<Rightarrow> bool" where
  "winner_wanted E evs u account c filler \<longleftrightarrow>
     (\<exists>P. was_unlocked E P \<and> evs = beaten_events E P \<and> u = p_user P \<and> account = p_profile P \<and> c = p_locked_cas P \<and> filler = p_filler P)
     \<or> (\<exists>slot t. evs = login_events u account c slot \<and> read_json (env_json E) account = Some t
          \<and> pt_get JSON_USER_ACCOUNT_SLOT_ATTEMPTING_TO_FILL t = Some slot
          \<and> pt_get JSON_USER_ACCOUNT_SLOT_TO_ATTEMPT_TO_FILL_IT_WITH t = Some filler)"

datatype 'j phase =
    Idle
  | Registering
  | Populating
  | AwaitingProfile string
  | AwaitingLogin string
  | CheckingSlot "'j purchase"
  | Locking "'j purchase"
  | Filling "'j purchase"
  | Recording "'j purchase"
  | Debiting "'j purchase" bool
  | UpdatingCampaign
  | CheckingWinner "'j gui_event list" string 'j cas string
  | Unlocking "'j gui_event list" string 'j

fun evidence :: "'j gui_env \<Rightarrow> 'j phase \<Rightarrow> 'j gui_event list" where
  "evidence E (AwaitingProfile u) = [Output (BeginGetSavingCas (userAccountKey u))]"
| "evidence E (AwaitingLogin u) = [Output (BeginGetSavingCas (userAccountKey u))]"
| "evidence E (CheckingSlot P) = check_events E P"
| "evidence E (Locking P) = lock_events E P"
| "evidence E (Filling P) = fill_events E P"
| "evidence E (Recording P) = record_events E P"
| "evidence E (Debiting P ok) = debit_events E P ok"
| "evidence E (CheckingWinner evs u account c filler) = evs"
| "evidence E (Unlocking evs u slotdoc) = evs"
| "evidence E _ = []"

fun pending_in :: "'j phase \<Rightarrow> request_kind list" where
  "pending_in Idle = []"
| "pending_in Registering = [PAdd]"
| "pending_in Populating = [PGet]"
| "pending_in (AwaitingProfile u) = [PGetSavingCas]"
| "pending_in (AwaitingLogin u) = [PGetSavingCas]"
| "pending_in (CheckingSlot P) = [PGet]"
| "pending_in (Locking P) = [PCasStoreSavingCas]"
| "pending_in (Filling P) = [PAdd]"
| "pending_in (Recording P) = [PAdd]"
| "pending_in (Debiting P ok) = [PCasStore]"
| "pending_in UpdatingCampaign = [PCasStore]"
| "pending_in (CheckingWinner evs u account c filler) = [PGet]"
| "pending_in (Unlocking evs u slotdoc) = [PCasStore]"

fun deferred_in :: "'j phase \<Rightarrow> int" where
  "deferred_in Idle = 0"
| "deferred_in Registering = 1"
| "deferred_in _ = 2"

text \<open>The members a phase relies on.\<close>

definition buying :: "'j gui_env \<Rightarrow> 'j purchase \<Rightarrow> 'j gui \<Rightarrow> bool" where
  "buying E P s \<longleftrightarrow> m_CurrentlyLoggedInUsername s = p_user P \<and> m_CampaignOwnerForPageBeingViewed s = p_owner P
     \<and> m_CampaignIndexForPageBeingViewed s = p_campaign P \<and> m_AdSlotIndexToBeFilledIfLockIsSuccessful s = p_slot P
     \<and> m_AdSlotAboutToBeFilledIfLockIsSuccessful s = p_slot_key P \<and> m_SlotFillerToUseInBuy s = p_filler P
     \<and> m_UserAccountUnlockedJustBeforeBuyingJson s = p_profile P \<and> m_UserAccountUnlockedJustBeforeBuyingCas s = p_cas P
     \<and> was_unlocked E P"

definition priced :: "'j purchase \<Rightarrow> 'j gui \<Rightarrow> bool" where
  "priced P s \<longleftrightarrow> m_CurrentPriceInSatoshisToUseForBuying s = p_price P
     \<and> m_CurrentPriceInSatoshisToUseForBuyingString s = show_int (p_price P)
     \<and> m_PurchaseTimestampForUseInSlotItself s = p_bought P \<and> affordable P"

definition locked :: "'j purchase \<Rightarrow> 'j gui \<Rightarrow> bool" where
  "locked P s \<longleftrightarrow> m_CasFromUserAccountLockSoWeCanSafelyUnlockLater s = p_locked_cas P
     \<and> m_StartTimestampUsedInNewPurchase s = p_start P"

fun phase_data :: "'j gui_env \<Rightarrow> 'j phase \<Rightarrow> 'j gui \<Rightarrow> bool" where
  "phase_data E Idle s = True"
| "phase_data E Registering s = (m_WhatTheStoreWithoutInputCasWasFor s = REGISTERATTEMPTSTOREWITHOUTINPUTCAS)"
| "phase_data E Populating s = (m_WhatTheGetWasFor s = BUYSTEP1GET)"
| "phase_data E (AwaitingProfile u) s = (m_WhatTheGetSavingCasWasFor s = BUYSTEP2aVERIFYBALANCEANDGETCASFORSWAPLOCKGET
     \<and> m_CurrentlyLoggedInUsername s = u)"
| "phase_data E (AwaitingLogin u) s = (m_WhatTheGetSavingCasWasFor s = LOGINATTEMPTGET \<and> m_LoginUsernameLineEdit s = u)"
| "phase_data E (CheckingSlot P) s = (m_WhatTheGetWasFor s = ENSURESLOTABOUTTOLOCKUSERACCOUNTTOWARDSDOESNTEXIST \<and> buying E P s)"
| "phase_data E (Locking P) s = (m_WhatTheStoreWithInputCasSavingOutputCasWasFor s = BUYSTEP2bLOCKACCOUNTFORBUYINGSETWITHCASSAVINGCAS
     \<and> buying E P s \<and> priced P s)"
| "phase_data E (Filling P) s = (m_WhatTheStoreWithoutInputCasWasFor s = BUYAKAFILLSLOTWITHSLOTFILLERSTOREWITHOUTINPUTCAS
     \<and> buying E P s \<and> priced P s \<and> locked P s)"
| "phase_data E (Recording P) s = (m_WhatTheStoreWithoutInputCasWasFor s = CREATETRANSACTIONDOCSTOREWITHOUTINPUTCAS
     \<and> buying E P s \<and> priced P s \<and> locked P s)"
| "phase_data E (Debiting P ok) s = (m_WhatTheStoreWithInputCasWasFor s = BUYPURCHASSUCCESSFULSOUNLOCKUSERACCOUNTSAFELYUSINGCAS
     \<and> was_unlocked E P \<and> affordable P)"
| "phase_data E UpdatingCampaign s = (m_WhatTheStoreWithInputCasWasFor s = USERACCOUNTUNLOCKDONESOUPDATECAMPAIGNDOCSETWITHINPUTCAS)"
| "phase_data E (CheckingWinner evs u account c filler) s =
     (m_WhatTheGetWasFor s = ONLOGINACCOUNTLOCKEDRECOVERY_AND_SLOTPURCHASEBEATTOTHEPUNCH_DOESSLOTEXISTCHECK
     \<and> m_CurrentlyLoggedInUsername s = u \<and> m_UserAccountLockedJsonToMaybeUseInAccountRecoveryAtLogin s = account
     \<and> m_CasFromUserAccountLockedAndStuckLocked s = c
     \<and> m_AccountLockedRecoveryWhatTheUserWasTryingToFillTheSlotWithHack s = filler \<and> winner_wanted E evs u account c filler)"
| "phase_data E (Unlocking evs u slotdoc) s =
     (m_WhatTheStoreWithInputCasWasFor s = LOGINACCOUNTRECOVERY_AND_SLOTPURCHASEBEATTOTHEPUNCH_UNLOCKINGWITHOUTDEBITTINGUSERACCOUNT)"

text \<open>A JavaScript session in a phase; \<open>d\<close> is how often rendering is deferred because of the phase.\<close>

definition in_session :: "request_kind list \<Rightarrow> int \<Rightarrow> 'j gui \<Rightarrow> bool" where
  "in_session ks d s \<longleftrightarrow> ajax s \<and> gui_pending s = ks \<and> m_DeferCount s = d + (if m_FirstPopulate s then 1 else 0)
     \<and> fst (m_CurrentlySubscribedTo s) \<in> {INITIALINVALIDNULLNOTSUBSCRIBEDTOANYTHING, GETANDSUBSCRIBESAVINGCAS}"

definition in_phase :: "'j gui_env \<Rightarrow> 'j phase \<Rightarrow> 'j gui \<Rightarrow> bool" where
  "in_phase E ph s \<longleftrightarrow> phase_data E ph s \<and> in_session (pending_in ph) (deferred_in ph) s"

text \<open>Members that do not matter to \<open>in_session\<close>, and those that do.\<close>

lemma in_session_update [simp]:
  "in_session ks d (s\<lparr>m_LoggedIn := a0\<rparr>) = in_session ks d s"
  "in_session ks d (s\<lparr>m_CurrentlyLoggedInUsername := a1\<rparr>) = in_session ks d s"
  "in_session ks d (s\<lparr>m_CampaignOwnerForPageBeingViewed := a2\<rparr>) = in_session ks d s"
  "in_session ks d (s\<lparr>m_CampaignIndexForPageBeingViewed := a3\<rparr>) = in_session ks d s"
  "in_session ks d (s\<lparr>m_CampaignWidgetExists := a4\<rparr>) = in_session ks d s"
  "in_session ks d (s\<lparr>m_BuyInProgress := a5\<rparr>) = in_session ks d s"
  "in_session ks d (s\<lparr>m_BuySlotFillerStep1Button := a6\<rparr>) = in_session ks d s"
  "in_session ks d (s\<lparr>m_BuyStep2placeholder := a7\<rparr>) = in_session ks d s"
  "in_session ks d (s\<lparr>m_AllSlotFillersAdsCount := a8\<rparr>) = in_session ks d s"
  "in_session ks d (s\<lparr>m_AllSlotFillersComboBox := a9\<rparr>) = in_session ks d s"
  "in_session ks d (s\<lparr>m_CurrentAdCampaignImageWidth := a10\<rparr>) = in_session ks d s"
  "in_session ks d (s\<lparr>m_CurrentAdCampaignImageHeight := a11\<rparr>) = in_session ks d s"
  "in_session ks d (s\<lparr>m_CampaignJsonDocForUpdatingLater := a12\<rparr>) = in_session ks d s"
  "in_session ks d (s\<lparr>m_CampaignCasForSafelyUpdatingLater := a13\<rparr>) = in_session ks d s"
  "in_session ks d (s\<lparr>m_MinPrice := a14\<rparr>) = in_session ks d s"
  "in_session ks d (s\<lparr>m_SlotLengthHoursString := a15\<rparr>) = in_session ks d s"
  "in_session ks d (s\<lparr>m_NoPreviousSlotPurchases := a16\<rparr>) = in_session ks d s"
  "in_session ks d (s\<lparr>m_SlotIndexImmediatelyAfterBuyStep1wasPressed := a17\<rparr>) = in_session ks d s"
  "in_session ks d (s\<lparr>m_LastSlotFilledAkaPurchasedSlotIndex := a18\<rparr>) = in_session ks d s"
  "in_session ks d (s\<lparr>m_LastSlotFilledAkaPurchasedPurchaseTimestamp := a19\<rparr>) = in_session ks d s"
  "in_session ks d (s\<lparr>m_LastSlotFilledAkaPurchasedStartTimestamp := a20\<rparr>) = in_session ks d s"
  "in_session ks d (s\<lparr>m_LastSlotFilledAkaPurchasedPurchasePrice := a21\<rparr>) = in_session ks d s"
  "in_session ks d (s\<lparr>m_LastSlotPurchasesIsExpired := a22\<rparr>) = in_session ks d s"
  "in_session ks d (s\<lparr>m_CurrentPriceInSatoshisToUseForBuying := a23\<rparr>) = in_session ks d s"
  "in_session ks d (s\<lparr>m_CurrentPriceInSatoshisToUseForBuyingString := a24\<rparr>) = in_session ks d s"
  "in_session ks d (s\<lparr>m_LastSlotFilledAkaPurchasedExpireDateTime_ToBeUsedAsStartDateTime := a25\<rparr>) = in_session ks d s"
  "in_session ks d (s\<lparr>m_AdSlotIndexToBeFilledIfLockIsSuccessful := a26\<rparr>) = in_session ks d s"
  "in_session ks d (s\<lparr>m_AdSlotAboutToBeFilledIfLockIsSuccessful := a27\<rparr>) = in_session ks d s"
  "in_session ks d (s\<lparr>m_StartTimestampUsedInNewPurchase := a28\<rparr>) = in_session ks d s"
  "in_session ks d (s\<lparr>m_PurchaseTimestampForUseInSlotItself := a29\<rparr>) = in_session ks d s"
  "in_session ks d (s\<lparr>m_SlotFillerToUseInBuy := a30\<rparr>) = in_session ks d s"
  "in_session ks d (s\<lparr>m_UserAccountUnlockedJustBeforeBuyingJson := a31\<rparr>) = in_session ks d s"
  "in_session ks d (s\<lparr>m_UserAccountUnlockedJustBeforeBuyingCas := a32\<rparr>) = in_session ks d s"
  "in_session ks d (s\<lparr>m_CasFromUserAccountLockSoWeCanSafelyUnlockLater := a33\<rparr>) = in_session ks d s"
  "in_session ks d (s\<lparr>m_AccountLockedRecoveryWhatTheUserWasTryingToFillTheSlotWithHack := a34\<rparr>) = in_session ks d s"
  "in_session ks d (s\<lparr>m_UserAccountLockedJsonToMaybeUseInAccountRecoveryAtLogin := a35\<rparr>) = in_session ks d s"
  "in_session ks d (s\<lparr>m_CasFromUserAccountLockedAndStuckLocked := a36\<rparr>) = in_session ks d s"
  "in_session ks d (s\<lparr>m_BalanceSatoshiStringForDisplayingOnly := a37\<rparr>) = in_session ks d s"
  "in_session ks d (s\<lparr>m_LoginUsernameLineEdit := a38\<rparr>) = in_session ks d s"
  "in_session ks d (s\<lparr>m_LoginPasswordLineEdit := a39\<rparr>) = in_session ks d s"
  "in_session ks d (s\<lparr>m_RegisterUsernameLineEdit := a40\<rparr>) = in_session ks d s"
  "in_session ks d (s\<lparr>m_RegisterPasswordLineEdit := a41\<rparr>) = in_session ks d s"
  "in_session ks d (s\<lparr>m_WhatTheStoreWithoutInputCasWasFor := a42\<rparr>) = in_session ks d s"
  "in_session ks d (s\<lparr>m_WhatTheStoreWithInputCasWasFor := a43\<rparr>) = in_session ks d s"
  "in_session ks d (s\<lparr>m_WhatTheStoreWithInputCasSavingOutputCasWasFor := a44\<rparr>) = in_session ks d s"
  "in_session ks d (s\<lparr>m_WhatTheGetWasFor := a45\<rparr>) = in_session ks d s"
  "in_session ks d (s\<lparr>m_WhatTheGetSavingCasWasFor := a46\<rparr>) = in_session ks d s"
  "in_session ks d (s\<lparr>gui_outputs := a47\<rparr>) = in_session ks d s"
  by (simp_all add: in_session_def)

lemma in_session_count [simp]:
  "in_session ks d (s\<lparr>m_DeferCount := x\<rparr>) = in_session ks (d + m_DeferCount s - x) s"
  "in_session [k] d (s\<lparr>gui_pending := ks @ [k]\<rparr>) = in_session [] d (s\<lparr>gui_pending := ks\<rparr>)"
  "gui_pending s = [] \<Longrightarrow> in_session [] d (s\<lparr>gui_pending := []\<rparr>) = in_session [] d s"
  by (auto simp: in_session_def)

lemma in_sessionD: "in_session ks d s \<Longrightarrow> ajax s \<and> gui_pending s = ks"
  by (simp add: in_session_def)

end
