(* ===== verification/BuySlotSafety.thy ===== *)
theory BuySlotSafety
  imports BuySession
begin

section \<open>Money moves only with a slot\<close>

text \<open>
  Every handler of a JavaScript session leads from a phase to a phase, with the evidence the new phase needs in the log; so every
  store on a user's account that a session begins is a debit or an unlocking with its complete history.
\<close>

subsection \<open>What one handler does to the phase\<close>

text \<open>\<open>settles\<close>: the phase that a store on a user's account leads to, which justifies the store.\<close>

definition settles :: "'j gui_env \<Rightarrow> 'j phase \<Rightarrow> string \<Rightarrow> 'j \<Rightarrow> cas \<Rightarrow> bool" where
  "settles E ph u d c \<longleftrightarrow>
     (\<exists>P ok. ph = Debiting P ok \<and> u = p_user P \<and> d = debited_doc E P \<and> c = p_locked_cas P \<and> was_unlocked E P \<and> affordable P)
     \<or> (\<exists>evs account filler t slotdoc. ph = Unlocking (evs @ [Input (GotDoc slotdoc True False), Output (BeginCasStore (userAccountKey u) d c)]) u slotdoc
          \<and> winner_wanted E evs u account c filler \<and> read_json (env_json E) account = Some t \<and> d = unlocked_doc E t
          \<and> lost_to_somebody E filler slotdoc)"

definition user_stores :: "'j gui_output list \<Rightarrow> (string \<times> 'j \<times> cas) set" where
  "user_stores outs = {(u, d, c). BeginCasStore (userAccountKey u) d c \<in> set outs}"

definition arrives :: "'j gui_env \<Rightarrow> 'j phase \<Rightarrow> 'j gui_input \<Rightarrow> 'j gui \<Rightarrow> bool" where
  "arrives E ph i s \<longleftrightarrow> (\<exists>ph'. in_phase E ph' s
     \<and> subseq (evidence E ph') (evidence E ph @ Input i # map Output (gui_outputs s))
     \<and> (\<forall>(u, d, c) \<in> user_stores (gui_outputs s). settles E ph' u d c))"

fun no_store :: "'j gui_output \<Rightarrow> bool" where
  "no_store (BeginCasStore k d c) = False"
| "no_store _ = True"

lemma user_stores_none: "list_all no_store outs \<Longrightarrow> user_stores outs = {}"
  by (force simp: user_stores_def list_all_iff)

lemma campaign_key_not_user [simp]:
  "adSpaceCampaignKey a b \<noteq> userAccountKey u" "userAccountKey u \<noteq> adSpaceCampaignKey a b"
  by (simp_all add: key_defs)

lemma in_session_asking [simp]:
  "gui_pending s = [] \<Longrightarrow> in_session [k] d (s\<lparr>gui_pending := [k]\<rparr>) = in_session [] d s"
  by (simp add: in_session_def)

lemmas buy_facts = buying_def priced_def locked_def affordable_def was_unlocked_def

lemma userAccountKey_eq [simp]: "userAccountKey u = userAccountKey v \<longleftrightarrow> u = v"
  by (simp add: key_defs)

lemma arrivesI:
  assumes "in_phase E ph' s" and "subseq (evidence E ph') (evidence E ph @ Input i # map Output (gui_outputs s))"
    and "list_all no_store (gui_outputs s)"
  shows "arrives E ph i s"
  using assms user_stores_none unfolding arrives_def by blast

lemma arrives_idle:
  "in_session [] 0 s \<Longrightarrow> list_all no_store (gui_outputs s) \<Longrightarrow> arrives E ph i s"
  by (rule arrivesI [of _ Idle]) (simp_all add: in_phase_def)

text \<open>A phase whose evidence is one more exchange.\<close>

lemma subseq_exchange:
  "x \<in> set outs \<Longrightarrow> subseq (ev @ [Input i, Output x]) (ev @ Input i # map Output outs)"
  by (rule list_emb_append_mono) (simp_all add: subseq_singleton_left)

lemma subseq_start:
  "x \<in> set outs \<Longrightarrow> subseq [Output x] (ev @ Input i # map Output outs)"
  by (simp add: subseq_singleton_left)

lemmas gui_ops = gui_out_def deferRendering_def resumeRendering_def begin_request_def getCouchbaseDocumentByKeyBegin_def
  getCouchbaseDocumentByKeySavingCasBegin_def getAndSubscribeCouchbaseDocumentByKeySavingCas_def
  store_ADDbyDefault_WithoutInputCasCouchbaseDocumentByKeyBegin_def store_SETonly_CouchbaseDocumentByKeyWithInputCasBegin_def
  say_def rollBackToBeforeBuyStep1ifNeeded_def say_and_resume_def say_roll_back_and_resume_def need_double_def need_satoshis_def
  by_login_state_def

text \<open>The state in which an answer's handler starts: the request is no longer pending, rendering is still deferred.\<close>

definition answered_in :: "'j gui_env \<Rightarrow> 'j phase \<Rightarrow> 'j gui \<Rightarrow> bool" where
  "answered_in E ph s \<longleftrightarrow> phase_data E ph s \<and> in_session [] (deferred_in ph) s \<and> gui_outputs s = []"

lemma answered_inD:
  "answered_in E ph s \<Longrightarrow> phase_data E ph s" "answered_in E ph s \<Longrightarrow> in_session [] (deferred_in ph) s"
  "answered_in E ph s \<Longrightarrow> gui_outputs s = []" "answered_in E ph s \<Longrightarrow> ajax s" "answered_in E ph s \<Longrightarrow> gui_pending s = []"
  by (simp_all add: answered_in_def in_session_def)

text \<open>Programs that only compute.\<close>

definition pure_prog :: "('s, 'a) prog \<Rightarrow> bool" where
  "pure_prog m \<longleftrightarrow> (\<forall>s a s'. m s = Ret a s' \<longrightarrow> s' = s)"

lemma pure_runs: "pure_prog m \<Longrightarrow> (\<And>a. Q a s) \<Longrightarrow> runs_to m Q (\<lambda>_. True) s"
  by (auto simp: pure_prog_def runs_to_def split: outcome.splits)

lemma pure_andthen: "pure_prog m \<Longrightarrow> (\<And>a. pure_prog (f a)) \<Longrightarrow> pure_prog (andthen m f)"
  unfolding pure_prog_def andthen_Ret_iff by blast

lemma pure_basic:
  "pure_prog (return a)" "pure_prog (require e x)" "pure_prog (pt_need k t)" "pure_prog (parse_json J d)"
  "(\<And>s. pure_prog (g s)) \<Longrightarrow> pure_prog (reading g)"
  "pure_prog m \<Longrightarrow> pure_prog m' \<Longrightarrow> pure_prog (if c then m else m')"
  by (auto simp: pure_prog_def reading_def require_def return_def throw_def pt_need_def parse_json_def
      split: option.splits)

lemmas pure_intros = pure_basic pure_andthen

lemma runs_combo:
  "(\<And>l. Q () (s\<lparr>m_AllSlotFillersComboBox := l\<rparr>)) \<Longrightarrow> runs_to (combo_entries E pt i n) Q (\<lambda>_. True) s"
proof (induction n arbitrary: i s)
  case 0
  show ?case using "0.prems" [of "m_AllSlotFillersComboBox s"] by (simp add: run_rules)
next
  case (Suc n)
  then show ?case by (auto simp: run_rules split: option.splits)
qed

lemma pure_expire: "pure_prog (lastSlotFilledAkaPurchasedExpireDateTime E)"
  and pure_price: "pure_prog (currentPriceBeforeExpiry E x y)"
  unfolding lastSlotFilledAkaPurchasedExpireDateTime_def currentPriceBeforeExpiry_def need_double_def
  by (intro pure_intros)+

lemma pure_confirm: "pure_prog (currentPriceStringForConfirmingOnly E now)"
  unfolding currentPriceStringForConfirmingOnly_def
  by (intro pure_intros pure_expire pure_price)

lemma runs_determine_price:
  assumes "\<And>p. Q p s"
    and "\<And>p e. Q p (s\<lparr>m_LastSlotFilledAkaPurchasedExpireDateTime_ToBeUsedAsStartDateTime := e, m_LastSlotPurchasesIsExpired := False\<rparr>)"
  shows "runs_to (determine_price E x) Q (\<lambda>_. True) s"
  unfolding determine_price_def
  by (auto simp: run_rules assms split: option.splits intro!: pure_runs [OF pure_expire] pure_runs [OF pure_price])

subsection \<open>The handlers, phase by phase\<close>

lemma populating_next:
  assumes "answered_in E Populating s"
  shows "runs_to (getCouchbaseDocumentByKeyFinished E now d ok err) (\<lambda>_. arrives E Populating i) (\<lambda>_. True) s"
  using answered_inD [OF assms]
  unfolding getCouchbaseDocumentByKeyFinished_def buySlotPopulateStep2d3faultCampaign0_def gui_ops
  by (auto simp: run_rules split: option.splits intro!: arrives_idle pure_runs [OF pure_confirm] runs_combo)

text \<open>Each transition to a phase with a history, stated on the state the handler leaves.\<close>

lemma to_checking_slot:
  assumes "in_session [PGet] 2 s" and "m_WhatTheGetWasFor s = ENSURESLOTABOUTTOLOCKUSERACCOUNTTOWARDSDOESNTEXIST"
    and "read_json (env_json E) d = Some t" and "\<not> profileIsLocked t"
    and "m_UserAccountUnlockedJustBeforeBuyingJson s = d" and "m_UserAccountUnlockedJustBeforeBuyingCas s = c"
    and "m_CurrentlyLoggedInUsername s = u"
    and "m_AdSlotAboutToBeFilledIfLockIsSuccessful s = adSpaceCampaignSlotKey (m_CampaignOwnerForPageBeingViewed s)
      (m_CampaignIndexForPageBeingViewed s) (m_AdSlotIndexToBeFilledIfLockIsSuccessful s)"
    and "BeginGet (m_AdSlotAboutToBeFilledIfLockIsSuccessful s) \<in> set (gui_outputs s)" and "list_all no_store (gui_outputs s)"
  shows "arrives E (AwaitingProfile u) (GotDocSavingCas d c True False) s"
proof -
  define P where "P = \<lparr>p_user = u, p_owner = m_CampaignOwnerForPageBeingViewed s, p_campaign = m_CampaignIndexForPageBeingViewed s,
    p_slot = m_AdSlotIndexToBeFilledIfLockIsSuccessful s, p_filler = m_SlotFillerToUseInBuy s, p_profile = d, p_tree = t, p_cas = c,
    p_probe = d, p_balance = 0, p_price = 0, p_bought = [], p_start = [], p_locked_cas = c\<rparr>"
  have k: "p_slot_key P = m_AdSlotAboutToBeFilledIfLockIsSuccessful s" using assms(8) by (simp add: p_slot_key_def P_def)
  show ?thesis
  proof (rule arrivesI [of _ "CheckingSlot P"])
    show "in_phase E (CheckingSlot P) s"
      using assms(1-8) k by (simp add: in_phase_def buying_def was_unlocked_def P_def)
    show "subseq (evidence E (CheckingSlot P)) (evidence E (AwaitingProfile u) @ Input (GotDocSavingCas d c True False) # map Output (gui_outputs s))"
      using assms(9) subseq_exchange [of "BeginGet (p_slot_key P)" "gui_outputs s" "[Output (BeginGetSavingCas (userAccountKey u))]"]
      by (simp add: check_events_def k) (simp add: P_def)
  qed (rule assms)
qed

lemma to_locking:
  assumes "in_session [PCasStoreSavingCas] 2 s"
    and "m_WhatTheStoreWithInputCasSavingOutputCasWasFor s = BUYSTEP2bLOCKACCOUNTFORBUYINGSETWITHCASSAVINGCAS"
    and "buying E P s" and "m_CurrentPriceInSatoshisToUseForBuyingString s = show_int (m_CurrentPriceInSatoshisToUseForBuying s)"
    and "Option.bind (pt_get JSON_USER_ACCOUNT_BALANCE (p_tree P)) satoshiStringToSatoshiInt = Some b"
    and "0 \<le> m_CurrentPriceInSatoshisToUseForBuying s" and "m_CurrentPriceInSatoshisToUseForBuying s \<le> b"
    and "BeginCasStoreSavingCas (userAccountKey (p_user P)) (locked_doc E P) (p_cas P) \<in> set (gui_outputs s)"
    and "list_all no_store (gui_outputs s)"
  shows "arrives E (CheckingSlot P) (GotDoc d False False) s"
proof -
  define P' where "P' = P\<lparr>p_probe := d, p_balance := b, p_price := m_CurrentPriceInSatoshisToUseForBuying s,
    p_bought := m_PurchaseTimestampForUseInSlotItself s\<rparr>"
  show ?thesis
  proof (rule arrivesI [of _ "Locking P'"])
    show "in_phase E (Locking P') s"
      using assms(1-7) by (simp add: in_phase_def buying_def priced_def affordable_def was_unlocked_def p_slot_key_def P'_def)
    show "subseq (evidence E (Locking P')) (evidence E (CheckingSlot P) @ Input (GotDoc d False False) # map Output (gui_outputs s))"
      using assms(8) by (simp add: lock_events_def check_events_def p_slot_key_def locked_doc_def P'_def subseq_singleton_left)
  qed (rule assms)
qed

lemma to_filling:
  assumes "in_session [PAdd] 2 s" and "m_WhatTheStoreWithoutInputCasWasFor s = BUYAKAFILLSLOTWITHSLOTFILLERSTOREWITHOUTINPUTCAS"
    and "buying E P s" and "priced P s" and "m_CasFromUserAccountLockSoWeCanSafelyUnlockLater s = c"
    and "BeginAdd (p_slot_key P) (slot_doc E (P\<lparr>p_start := m_StartTimestampUsedInNewPurchase s\<rparr>)) \<in> set (gui_outputs s)"
    and "list_all no_store (gui_outputs s)"
  shows "arrives E (Locking P) (CasStoreSavingCasDone c True False) s"
proof -
  define P' where "P' = P\<lparr>p_start := m_StartTimestampUsedInNewPurchase s, p_locked_cas := c\<rparr>"
  show ?thesis
  proof (rule arrivesI [of _ "Filling P'"])
    show "in_phase E (Filling P') s"
      using assms(1-5) by (simp add: in_phase_def buying_def priced_def locked_def affordable_def was_unlocked_def p_slot_key_def P'_def)
    show "subseq (evidence E (Filling P')) (evidence E (Locking P) @ Input (CasStoreSavingCasDone c True False) # map Output (gui_outputs s))"
      using assms(6)
      by (simp add: fill_events_def lock_events_def check_events_def p_slot_key_def locked_doc_def slot_doc_def P'_def subseq_singleton_left)
  qed (rule assms)
qed

lemma to_recording:
  assumes "in_session [PAdd] 2 s" and "m_WhatTheStoreWithoutInputCasWasFor s = CREATETRANSACTIONDOCSTOREWITHOUTINPUTCAS"
    and "buying E P s" and "priced P s" and "locked P s"
    and "BeginAdd (transactionKey (p_owner P) (p_campaign P) (p_slot P)) (tx_doc E P) \<in> set (gui_outputs s)"
    and "list_all no_store (gui_outputs s)"
  shows "arrives E (Filling P) (AddDone True False) s"
proof (rule arrivesI [of _ "Recording P"])
  show "in_phase E (Recording P) s" using assms(1-5) by (simp add: in_phase_def)
  show "subseq (evidence E (Recording P)) (evidence E (Filling P) @ Input (AddDone True False) # map Output (gui_outputs s))"
    using subseq_exchange [OF assms(6)] by (simp add: record_events_def)
qed (rule assms)

lemma to_winner:
  assumes "in_session [PGet] 2 s"
    and "m_WhatTheGetWasFor s = ONLOGINACCOUNTLOCKEDRECOVERY_AND_SLOTPURCHASEBEATTOTHEPUNCH_DOESSLOTEXISTCHECK"
    and "m_CurrentlyLoggedInUsername s = u" and "m_UserAccountLockedJsonToMaybeUseInAccountRecoveryAtLogin s = account"
    and "m_CasFromUserAccountLockedAndStuckLocked s = c"
    and "m_AccountLockedRecoveryWhatTheUserWasTryingToFillTheSlotWithHack s = filler"
    and "winner_wanted E (evidence E ph @ [Input i, Output (BeginGet slot)]) u account c filler"
    and "BeginGet slot \<in> set (gui_outputs s)" and "list_all no_store (gui_outputs s)"
  shows "arrives E ph i s"
proof (rule arrivesI [of _ "CheckingWinner (evidence E ph @ [Input i, Output (BeginGet slot)]) u account c filler"])
  show "in_phase E (CheckingWinner (evidence E ph @ [Input i, Output (BeginGet slot)]) u account c filler) s"
    using assms(1-7) by (simp add: in_phase_def)
qed (use assms(9) subseq_exchange [OF assms(8)] in simp_all)

lemma to_debiting:
  assumes "in_session [PCasStore] 2 s" and "m_WhatTheStoreWithInputCasWasFor s = BUYPURCHASSUCCESSFULSOUNLOCKUSERACCOUNTSAFELYUSINGCAS"
    and "was_unlocked E P" and "affordable P"
    and "gui_outputs s = [BeginCasStore (userAccountKey (p_user P)) (debited_doc E P) (p_locked_cas P)]"
  shows "arrives E (Recording P) (AddDone ok False) s"
proof -
  have "settles E (Debiting P ok) u d c" if "(u, d, c) \<in> user_stores (gui_outputs s)" for u d c
    using that assms(3-5) by (simp add: settles_def user_stores_def)
  moreover have "in_phase E (Debiting P ok) s" using assms(1-4) by (simp add: in_phase_def)
  moreover have "subseq (evidence E (Debiting P ok)) (evidence E (Recording P) @ Input (AddDone ok False) # map Output (gui_outputs s))"
    by (simp add: debit_events_def assms(5))
  ultimately show ?thesis unfolding arrives_def by blast
qed

lemma to_updating:
  assumes "in_session [PCasStore] 2 s" and "m_WhatTheStoreWithInputCasWasFor s = USERACCOUNTUNLOCKDONESOUPDATECAMPAIGNDOCSETWITHINPUTCAS"
    and "gui_outputs s = [BeginCasStore (adSpaceCampaignKey a b) d c]"
  shows "arrives E ph i s"
proof -
  have "user_stores (gui_outputs s) = {}" by (simp add: user_stores_def assms(3))
  moreover have "in_phase E UpdatingCampaign s" using assms(1,2) by (simp add: in_phase_def)
  ultimately show ?thesis unfolding arrives_def by (intro exI [of _ UpdatingCampaign]) simp
qed

lemma to_unlocking:
  assumes "in_session [PCasStore] 2 s"
    and "m_WhatTheStoreWithInputCasWasFor s = LOGINACCOUNTRECOVERY_AND_SLOTPURCHASEBEATTOTHEPUNCH_UNLOCKINGWITHOUTDEBITTINGUSERACCOUNT"
    and "winner_wanted E evs u account c filler" and "read_json (env_json E) account = Some t" and "lost_to_somebody E filler slotdoc"
    and "gui_outputs s = [BeginCasStore (userAccountKey u) (unlocked_doc E t) c]"
  shows "arrives E (CheckingWinner evs u account c filler) (GotDoc slotdoc True False) s"
proof -
  let ?ph = "Unlocking (evs @ [Input (GotDoc slotdoc True False), Output (BeginCasStore (userAccountKey u) (unlocked_doc E t) c)]) u slotdoc"
  have "settles E ?ph u' d c'" if "(u', d, c') \<in> user_stores (gui_outputs s)" for u' d c'
    using that assms(3-6) unfolding settles_def by (intro disjI2) (auto simp: user_stores_def)
  moreover have "in_phase E ?ph s" using assms(1,2) by (simp add: in_phase_def)
  moreover have "subseq (evidence E ?ph) (evidence E (CheckingWinner evs u account c filler)
      @ Input (GotDoc slotdoc True False) # map Output (gui_outputs s))"
    by (simp add: assms(6))
  ultimately show ?thesis unfolding arrives_def by blast
qed

lemma profile_next:
  assumes "answered_in E (AwaitingProfile u) s"
  shows "runs_to (getCouchbaseDocumentByKeySavingCasFinished E d c ok err)
    (\<lambda>_. arrives E (AwaitingProfile u) (GotDocSavingCas d c ok err)) (\<lambda>_. True) s"
  using answered_inD [OF assms]
  unfolding getCouchbaseDocumentByKeySavingCasFinished_def verifyUserHasSufficientFundsAndThatTheirAccountIsntAlreadyLocked_def gui_ops
  apply (auto simp: run_rules parse_json_def arrives_idle split: option.splits)
  by (rule to_checking_slot; simp)+

lemma checking_next:
  assumes "answered_in E (CheckingSlot P) s"
  shows "runs_to (getCouchbaseDocumentByKeyFinished E now d ok err)
    (\<lambda>_. arrives E (CheckingSlot P) (GotDoc d ok err)) (\<lambda>_. True) s"
  using answered_inD [OF assms]
  unfolding getCouchbaseDocumentByKeyFinished_def ensureSlotDoesntExistThenContinueWithLockingUserAccount_def gui_ops
  apply (auto simp: run_rules Let_def parse_json_def pt_need_def arrives_idle split: option.splits intro!: runs_determine_price)
  by (rule to_locking; simp add: buy_facts locked_doc_def satoshiIntToSatoshiString_def)+

lemma locking_next:
  assumes "answered_in E (Locking P) s"
  shows "runs_to (storeCouchbaseDocumentByKeyWithInputCasSavingOutputCasFinished E c ok err)
    (\<lambda>_. arrives E (Locking P) (CasStoreSavingCasDone c ok err)) (\<lambda>_. True) s"
  using answered_inD [OF assms]
  unfolding storeCouchbaseDocumentByKeyWithInputCasSavingOutputCasFinished_def
    userAccountLockAttemptFinish_IfOkayDoTheActualSlotFillAdd_def gui_ops
  apply (auto simp: run_rules Let_def arrives_idle)
  by (rule to_filling; simp add: buy_facts slot_doc_def)+

lemma filling_next:
  assumes "answered_in E (Filling P) s"
  shows "runs_to (storeWithoutInputCasCouchbaseDocumentByKeyFinished E ok err)
    (\<lambda>_. arrives E (Filling P) (AddDone ok err)) (\<lambda>_. True) s"
  using answered_inD [OF assms]
  unfolding storeWithoutInputCasCouchbaseDocumentByKeyFinished_def slotFillAkaPurchaseAddAttemptFinished_def
    unlockUserAccountWithoutDebittingIfSlotIsPurchasedBySomeoneElse_def gui_ops
  apply (auto simp: run_rules Let_def arrives_idle)
  by ((rule to_recording; simp add: buy_facts tx_doc_def; fail) 
    | (rule to_winner; simp add: buy_facts winner_wanted_def beaten_events_def p_slot_key_def; blast))+

lemma recording_next:
  assumes "answered_in E (Recording P) s"
  shows "runs_to (storeWithoutInputCasCouchbaseDocumentByKeyFinished E ok err)
    (\<lambda>_. arrives E (Recording P) (AddDone ok err)) (\<lambda>_. True) s"
  using answered_inD [OF assms]
  unfolding storeWithoutInputCasCouchbaseDocumentByKeyFinished_def
    transactionDocCreatedSoCasSwapUnlockAcceptingFailUserAccountDebitting_def gui_ops
  apply (auto simp: run_rules Let_def arrives_idle buy_facts parse_json_def pt_need_def split: option.splits)
  by (rule to_debiting; simp add: buy_facts debited_doc_def satoshiIntToSatoshiString_def)+

lemma debiting_next:
  assumes "answered_in E (Debiting P b) s"
  shows "runs_to (storeCouchbaseDocumentByKeyWithInputCasFinished E ok err)
    (\<lambda>_. arrives E (Debiting P b) (CasStoreDone ok err)) (\<lambda>_. True) s"
  using answered_inD [OF assms]
  unfolding storeCouchbaseDocumentByKeyWithInputCasFinished_def
    doneUnlockingUserAccountAfterSuccessfulPurchaseSoNowUpdateCampaignDoc_def gui_ops
  apply (auto simp: run_rules Let_def arrives_idle parse_json_def split: option.splits)
  by (rule to_updating; simp)+

lemma updating_next:
  assumes "answered_in E UpdatingCampaign s"
  shows "runs_to (storeCouchbaseDocumentByKeyWithInputCasFinished E ok err)
    (\<lambda>_. arrives E UpdatingCampaign (CasStoreDone ok err)) (\<lambda>_. True) s"
  using answered_inD [OF assms]
  unfolding storeCouchbaseDocumentByKeyWithInputCasFinished_def
    doneUpdatingCampaignDocSoErrYeaTellUserWeAreCompletelyDone_def gui_ops
  by (auto simp: run_rules Let_def arrives_idle split: option.splits)

lemma unlocking_next:
  assumes "answered_in E (Unlocking evs u d) s"
  shows "runs_to (storeCouchbaseDocumentByKeyWithInputCasFinished E ok err)
    (\<lambda>_. arrives E (Unlocking evs u d) (CasStoreDone ok err)) (\<lambda>_. True) s"
  using answered_inD [OF assms]
  unfolding storeCouchbaseDocumentByKeyWithInputCasFinished_def
    doneAttemptingUserAccountUnlockingWithoutDebitting_def doLoginTasks_def gui_ops
  by (auto simp: run_rules Let_def arrives_idle split: option.splits)

lemma winner_next:
  assumes "answered_in E (CheckingWinner evs u account c filler) s"
  shows "runs_to (getCouchbaseDocumentByKeyFinished E now d ok err)
    (\<lambda>_. arrives E (CheckingWinner evs u account c filler) (GotDoc d ok err)) (\<lambda>_. True) s"
  using answered_inD [OF assms]
  unfolding getCouchbaseDocumentByKeyFinished_def
    continueRecoveringLockedAccountAtLoginAttempt_OrAnalyzingSlotBuyBeatToThePunch_def gui_ops
  apply (auto simp: run_rules Let_def arrives_idle parse_json_def pt_need_def split: option.splits)
  by (rule to_unlocking; auto simp: unlocked_doc_def lost_to_somebody_def)+

lemma login_next:
  assumes "answered_in E (AwaitingLogin u) s"
  shows "runs_to (getCouchbaseDocumentByKeySavingCasFinished E d c ok err)
    (\<lambda>_. arrives E (AwaitingLogin u) (GotDocSavingCas d c ok err)) (\<lambda>_. True) s"
  using answered_inD [OF assms]
  unfolding getCouchbaseDocumentByKeySavingCasFinished_def loginIfInputHashedEqualsDbInfo_def doLoginTasks_def
    usernameOrPasswordYouProvidedIsIncorrect_def getAndSubscribeCouchbaseDocumentByKeySavingCas_def
    unlockUserAccountWithoutDebittingIfSlotIsPurchasedBySomeoneElse_def gui_ops
  apply (auto simp: run_rules Let_def arrives_idle parse_json_def pt_need_def split: option.splits)
  by (rule to_winner; simp add: winner_wanted_def login_events_def pt_get_default_def split: option.splits; blast)+

lemma registering_next:
  assumes "answered_in E Registering s"
  shows "runs_to (storeWithoutInputCasCouchbaseDocumentByKeyFinished E ok err)
    (\<lambda>_. arrives E Registering (AddDone ok err)) (\<lambda>_. True) s"
  using answered_inD [OF assms]
  unfolding storeWithoutInputCasCouchbaseDocumentByKeyFinished_def registerAttemptFinished_def gui_ops
  by (auto simp: run_rules Let_def arrives_idle)


subsection \<open>Updates, clicks, answers\<close>

text \<open>What an update of the campaign changes does not matter to any phase.\<close>

lemma phase_data_update [simp]:
  "phase_data E ph (s\<lparr>m_BuyStep2placeholder := b0\<rparr>) = phase_data E ph s"
  "phase_data E ph (s\<lparr>m_CampaignJsonDocForUpdatingLater := b1\<rparr>) = phase_data E ph s"
  "phase_data E ph (s\<lparr>m_CampaignCasForSafelyUpdatingLater := b2\<rparr>) = phase_data E ph s"
  "phase_data E ph (s\<lparr>m_MinPrice := b3\<rparr>) = phase_data E ph s"
  "phase_data E ph (s\<lparr>m_SlotLengthHoursString := b4\<rparr>) = phase_data E ph s"
  "phase_data E ph (s\<lparr>m_NoPreviousSlotPurchases := b5\<rparr>) = phase_data E ph s"
  "phase_data E ph (s\<lparr>m_LastSlotFilledAkaPurchasedSlotIndex := b6\<rparr>) = phase_data E ph s"
  "phase_data E ph (s\<lparr>m_LastSlotFilledAkaPurchasedPurchaseTimestamp := b7\<rparr>) = phase_data E ph s"
  "phase_data E ph (s\<lparr>m_LastSlotFilledAkaPurchasedStartTimestamp := b8\<rparr>) = phase_data E ph s"
  "phase_data E ph (s\<lparr>m_LastSlotFilledAkaPurchasedPurchasePrice := b9\<rparr>) = phase_data E ph s"
  "phase_data E ph (s\<lparr>m_FirstPopulate := b10\<rparr>) = phase_data E ph s"
  "phase_data E ph (s\<lparr>m_DeferCount := b11\<rparr>) = phase_data E ph s"
  "phase_data E ph (s\<lparr>m_BuySlotFillerStep1Button := b12\<rparr>) = phase_data E ph s"
  "phase_data E ph (s\<lparr>m_CurrentAdCampaignImageWidth := b13\<rparr>) = phase_data E ph s"
  "phase_data E ph (s\<lparr>m_CurrentAdCampaignImageHeight := b14\<rparr>) = phase_data E ph s"
  "phase_data E ph (s\<lparr>gui_outputs := b15\<rparr>) = phase_data E ph s"
  "phase_data E ph (s\<lparr>gui_pending := b16\<rparr>) = phase_data E ph s"
  by (cases ph; simp add: buy_facts)+

definition undisturbed :: "'j gui_env \<Rightarrow> 'j phase \<Rightarrow> 'j gui \<Rightarrow> bool" where
  "undisturbed E ph s \<longleftrightarrow> in_phase E ph s \<and> list_all no_store (gui_outputs s)"

lemma undisturbed_keeps:
  "keeps (undisturbed E ph) rollBackToBeforeBuyStep1ifNeeded"
  "keeps (undisturbed E ph) (show_last_purchase E now t)"
  "keeps (undisturbed E ph) (show_campaign_labels t)"
  unfolding rollBackToBeforeBuyStep1ifNeeded_def show_last_purchase_def read_last_purchase_def
    lastSlotFilledAkaPurchasedExpireDateTime_def currentPriceBeforeExpiry_def need_double_def show_campaign_labels_def
    populateDimensionsLabel_def populateDisallowedCategoriesLabel_def pt_need_def gui_out_def
  by (intro prog_rules; simp add: undisturbed_def in_phase_def)+

lemma undisturbed_update [simp]:
  "undisturbed E ph (s\<lparr>m_CampaignJsonDocForUpdatingLater := a, m_CampaignCasForSafelyUpdatingLater := b\<rparr>) = undisturbed E ph s"
  by (auto simp: undisturbed_def in_phase_def)

lemma undisturbed_resume:
  "undisturbed E ph s \<Longrightarrow> m_FirstPopulate s \<Longrightarrow> n = m_DeferCount s - 1
    \<Longrightarrow> undisturbed E ph (s\<lparr>m_DeferCount := n, m_FirstPopulate := False\<rparr>)"
  "undisturbed E ph s \<Longrightarrow> ajax s"
  by (auto simp: undisturbed_def in_phase_def in_session_def)

lemma undisturbed_finishes:
  assumes "undisturbed E ph s"
  shows "runs_to (finishShowingAdvertisingBuyAdSpaceD3faultCampaign0Widget E now d c ok err)
    (\<lambda>_. undisturbed E ph) (\<lambda>_. True) s"
proof -
  have keeps: "runs_to m Q (\<lambda>_. True) s'" if "keeps (undisturbed E ph) m" "undisturbed E ph s'"
      "\<And>a s''. undisturbed E ph s'' \<Longrightarrow> Q a s''" for m Q s'
    using that by (blast intro: runs_to_mono [OF runs_to_keeps])
  show ?thesis
    unfolding finishShowingAdvertisingBuyAdSpaceD3faultCampaign0Widget_def finishShowing_error_def gui_out_def say_def resumeRendering_def
      parse_json_def pt_need_def
    using assms
    by (auto simp: run_rules undisturbed_resume split: option.splits
      intro!: keeps [OF undisturbed_keeps(1)] keeps [OF undisturbed_keeps(2)] keeps [OF undisturbed_keeps(3)])
      (auto simp: undisturbed_def in_phase_def in_session_def)
qed

lemma update_next:
  assumes "in_phase E ph s" and "gui_outputs s = []"
  shows "runs_to (getAndSubscribeCouchbaseDocumentByKeySavingCas_UPDATE E now d c ok err)
    (\<lambda>_. arrives E ph (CampaignUpdate d c ok err)) (\<lambda>_. True) s"
proof -
  have "runs_to (getAndSubscribeCouchbaseDocumentByKeySavingCas_UPDATE E now d c ok err) (\<lambda>_. undisturbed E ph) (\<lambda>_. True) s"
    using assms unfolding getAndSubscribeCouchbaseDocumentByKeySavingCas_UPDATE_def
    by (auto simp: run_rules in_phase_def in_session_def undisturbed_def intro!: undisturbed_finishes)
  then show ?thesis
    by (rule runs_to_mono) (auto simp: undisturbed_def intro!: arrivesI [of _ ph])
qed

lemma click_next:
  assumes "in_phase E Idle s" and "gui_outputs s = []" and "m_DeferCount s \<le> 0" and "answers i = None" and "\<not> is_update i"
  shows "runs_to (gui_handle E now i) (\<lambda>_. arrives E Idle i) (\<lambda>_. True) s"
proof -
  have idle: "in_session [] 0 s" "ajax s" "\<not> m_FirstPopulate s" "m_DeferCount s = 0" "gui_pending s = []" "gui_outputs s = []"
    using assms(1-3) by (auto simp: in_phase_def in_session_def split: if_splits)
  show ?thesis
  proof (cases i)
    case (ShowCampaign u k)
    show ?thesis using idle
      by (auto simp: ShowCampaign run_rules beginShowingAdvertisingBuyAdSpaceD3faultCampaign0Widget_def gui_ops Let_def
        getAndSubscribeCouchbaseDocumentByKeySavingCas_def in_session_def intro!: arrives_idle)
  next
    case LeaveCampaign
    show ?thesis using idle
      by (auto simp: LeaveCampaign run_rules unsubscribeIfSubscribedToAnything_def gui_ops
        getAndSubscribeCouchbaseDocumentByKeySavingCas_def in_session_def intro!: arrives_idle)
  next
    case ClickStep1
    show ?thesis using idle
      by (auto simp: ClickStep1 run_rules buySlotStep1d3faultCampaign0ButtonClicked_def gui_ops arrives_idle
        in_phase_def intro!: arrivesI [where ph' = Populating])
  next
    case (ClickStep2 k)
    show ?thesis using idle
      by (auto simp: ClickStep2 run_rules buySlotStep2d3faultCampaign0ButtonClicked_def gui_ops arrives_idle subseq_singleton_left
        in_phase_def split: option.splits intro!: arrivesI [where ph' = "AwaitingProfile (m_CurrentlyLoggedInUsername s)"])
  next
    case (ClickLogin u p)
    show ?thesis using idle
      by (auto simp: ClickLogin run_rules handleLoginButtonClicked_def gui_ops arrives_idle subseq_singleton_left
        in_phase_def split: option.splits intro!: arrivesI [where ph' = "AwaitingLogin u"])
  next
    case ClickLogout
    show ?thesis using idle
      by (auto simp: ClickLogout run_rules handleLogoutButtonClicked_def gui_ops arrives_idle)
  next
    case (ClickRegister u p a b)
    show ?thesis using idle
      by (auto simp: ClickRegister run_rules handleRegisterButtonClicked_def gui_ops arrives_idle Let_def
        in_phase_def intro!: arrivesI [where ph' = Registering])
  qed (use assms(4,5) in simp_all)
qed


lemma answer_next:
  assumes "answered_in E ph s" and "answers i = Some k" and "pending_in ph = [k]"
  shows "runs_to (gui_handle E now i) (\<lambda>_. arrives E ph i) (\<lambda>_. True) s"
  using assms
  by (cases ph; cases i) (simp_all add: populating_next profile_next checking_next locking_next filling_next recording_next
    debiting_next updating_next unlocking_next winner_next login_next registering_next)

lemma step_arrives:
  assumes "in_phase E ph s" and "gui_step E s evs s'"
  shows "\<exists>i. evs = Input i # map Output (gui_outputs s') \<and> arrives E ph i s'"
  using assms(2)
proof cases
  case (handled i now)
  let ?s = "s\<lparr>gui_outputs := [], gui_pending := still_pending i (gui_pending s)\<rparr>"
  have ph: "phase_data E ph s" "in_session (pending_in ph) (deferred_in ph) s" using assms(1) by (simp_all add: in_phase_def)
  have "runs_to (gui_handle E now i) (\<lambda>_. arrives E ph i) (\<lambda>_. True) ?s"
  proof (cases "answers i")
    case (Some k)
    then have "pending_in ph = [k]" and "still_pending i (gui_pending s) = []"
      using handled(2) in_sessionD [OF ph(2)] by (cases ph; simp add: gui_enabled_def still_pending_def)+
    then show ?thesis using ph Some by (intro answer_next) (simp_all add: answered_in_def in_session_def)
  next
    case None
    then have same: "in_phase E ph ?s" using ph by (simp add: in_phase_def still_pending_def in_session_def)
    show ?thesis
    proof (cases "is_update i")
      case True
      then obtain d c ok err where "i = CampaignUpdate d c ok err" by (cases i) auto
      then show ?thesis using update_next [OF same] by simp
    next
      case False
      then have "m_DeferCount s \<le> 0" using handled(2) None by (simp add: gui_enabled_def)
      then have "ph = Idle" using ph(2) by (cases ph) (auto simp: in_session_def split: if_splits)
      then show ?thesis using same False None \<open>m_DeferCount s \<le> 0\<close> by (intro click_next [THEN runs_to_mono]) auto
    qed
  qed
  then have "arrives E ph i s'" using handled(3) by (rule runs_to_Ret)
  then show ?thesis using handled(1) by blast
qed

subsection \<open>The invariant of a session\<close>

definition accounted :: "'j gui_env \<Rightarrow> 'j gui_event list \<Rightarrow> bool" where
  "accounted E h \<longleftrightarrow> (\<forall>u d c. Output (BeginCasStore (userAccountKey u) d c) \<in> set h
     \<longrightarrow> (\<exists>ph. settles E ph u d c \<and> subseq (evidence E ph) h))"

lemma accounted_step:
  assumes "accounted E h" and "arrives E ph i s'" and "subseq (evidence E ph) h"
  shows "accounted E (h @ Input i # map Output (gui_outputs s'))"
  unfolding accounted_def
proof (intro allI impI)
  fix u d c
  let ?new = "Input i # map Output (gui_outputs s')"
  assume store: "Output (BeginCasStore (userAccountKey u) d c) \<in> set (h @ ?new)"
  show "\<exists>ph. settles E ph u d c \<and> subseq (evidence E ph) (h @ ?new)"
  proof (cases "Output (BeginCasStore (userAccountKey u) d c) \<in> set h")
    case True
    then show ?thesis using assms(1) unfolding accounted_def by (metis list_emb_append_mono list_emb_Nil append_Nil2)
  next
    case False
    then have "(u, d, c) \<in> user_stores (gui_outputs s')" using store by (auto simp: user_stores_def)
    with assms(2) obtain ph' where "settles E ph' u d c" and "subseq (evidence E ph') (evidence E ph @ ?new)"
      unfolding arrives_def by fastforce
    moreover have "subseq (evidence E ph @ ?new) (h @ ?new)" using assms(3) by (simp add: list_emb_append_mono)
    ultimately show ?thesis by (meson subseq_order.trans)
  qed
qed

lemma session_invariant:
  assumes "gui_reach E s0 h s" and "new_session s0" and "ajax s0"
  shows "accounted E h \<and> (\<exists>ph. in_phase E ph s \<and> subseq (evidence E ph) h)"
  using assms(1)
proof induction
  case start
  have "in_phase E Idle s0" using assms(2,3) by (simp add: new_session_def in_phase_def in_session_def)
  then show ?case by (intro conjI exI [of _ Idle]) (simp_all add: accounted_def)
next
  case (step h s evs s')
  then obtain ph i where ph: "in_phase E ph s" "subseq (evidence E ph) h" "accounted E h"
    and new: "evs = Input i # map Output (gui_outputs s')" "arrives E ph i s'"
    using step_arrives by blast
  from new(2) obtain ph' where ph': "in_phase E ph' s'" "subseq (evidence E ph') (evidence E ph @ evs)"
    unfolding arrives_def new(1) by blast
  have "subseq (evidence E ph @ evs) (h @ evs)" using ph(2) by (simp add: list_emb_append_mono)
  then show ?case using ph' accounted_step [OF ph(3) new(2) ph(2)] new(1) by (meson subseq_order.trans)
qed

end
