(* ===== verification/BuySlotRuns.thy ===== *)
theory BuySlotRuns
  imports BuySlotSafety
begin

section \<open>Complete purchases, registrations and logins\<close>

text \<open>
  The session as a function on a list of inputs (\<open>gui_run\<close>), and what complete runs do: a purchase against its price list
  (\<open>quoted\<close>), a registration followed by a login, and the page of a visitor without JavaScript.
\<close>

subsection \<open>Runs\<close>

definition gui_go :: "'j gui_env \<Rightarrow> int \<Rightarrow> 'j gui_input \<Rightarrow> 'j gui \<Rightarrow> 'j gui option" where
  "gui_go E now i s = (if gui_enabled i s
     then (case gui_handle E now i (s\<lparr>gui_outputs := [], gui_pending := still_pending i (gui_pending s)\<rparr>) of
         Ret _ s' \<Rightarrow> Some s' | _ \<Rightarrow> None)
     else None)"

fun gui_run :: "'j gui_env \<Rightarrow> int \<Rightarrow> 'j gui \<Rightarrow> 'j gui_input list \<Rightarrow> ('j gui_event list \<times> 'j gui) option" where
  "gui_run E now s [] = Some ([], s)"
| "gui_run E now s (i # is) = (case gui_go E now i s of
      None \<Rightarrow> None
    | Some s1 \<Rightarrow> map_option (\<lambda>(h, s'). (Input i # map Output (gui_outputs s1) @ h, s')) (gui_run E now s1 is))"

lemma gui_go_step: "gui_go E now i s = Some s' \<Longrightarrow> gui_step E s (Input i # map Output (gui_outputs s')) s'"
  by (auto simp: gui_go_def split: if_splits outcome.splits intro: gui_step.intros)

lemma gui_run_reach:
  "gui_reach E s0 h s \<Longrightarrow> gui_run E now s is = Some (h', s') \<Longrightarrow> gui_reach E s0 (h @ h') s'"
proof (induction "is" arbitrary: h s h')
  case (Cons i "is")
  then obtain s1 h1 where s1: "gui_go E now i s = Some s1" "gui_run E now s1 is = Some (h1, s')"
    "h' = Input i # map Output (gui_outputs s1) @ h1"
    by (auto split: option.splits)
  show ?case using Cons.IH [OF gui_reach.step [OF Cons.prems(1) gui_go_step [OF s1(1)]] s1(2)] s1(3) by simp
qed simp

lemma gui_run_append:
  "gui_run E now s is = Some (h, s1) \<Longrightarrow> gui_run E now s1 js = Some (h', s') \<Longrightarrow> gui_run E now s (is @ js) = Some (h @ h', s')"
  by (induction "is" arbitrary: s h) (auto split: option.splits)

subsection \<open>The price list\<close>

text \<open>
  The price of a slot bought at \<open>now\<close>, in satoshis, and the time it starts: the minimum price from now on
  when no slot was sold yet or the last one is over; before that, a point of the line from twice the last price to the minimum price, and the
  slot starts when the last one ends.
\<close>

definition quoted :: "'j gui_env \<Rightarrow> int \<Rightarrow> 'j gui \<Rightarrow> (int \<times> string) option" where
  "quoted E now s =
    (let from_now = map_option (\<lambda>p. (p, double_text E (seconds now))) (jsonStringToSatoshiInt (cast_double E) (m_MinPrice s)) in
     if m_NoPreviousSlotPurchases s then from_now
     else
     Option.bind (cast_double E (m_LastSlotFilledAkaPurchasedStartTimestamp s)) (\<lambda>start.
     Option.bind (cast_double E (m_SlotLengthHoursString s)) (\<lambda>hours.
     let expire = dadd start (dmul hours 3600) in
     if seconds now \<ge> expire then from_now
     else
     Option.bind (cast_double E (m_MinPrice s)) (\<lambda>minPrice.
     Option.bind (cast_double E (m_LastSlotFilledAkaPurchasedPurchasePrice s)) (\<lambda>lastPrice.
     Option.bind (cast_double E (m_LastSlotFilledAkaPurchasedPurchaseTimestamp s)) (\<lambda>purchased.
     Some (jsonDoubleToSatoshiIntIncludingRounding
       (calculateCurrentPrice (seconds now) minPrice (dmul lastPrice 2) expire purchased), double_text E expire)))))))"

definition starts_after_last :: "'j gui_env \<Rightarrow> int \<Rightarrow> 'j gui \<Rightarrow> bool" where
  "starts_after_last E now s \<longleftrightarrow> \<not> m_NoPreviousSlotPurchases s
     \<and> Option.bind (cast_double E (m_LastSlotFilledAkaPurchasedStartTimestamp s)) (\<lambda>start.
        map_option (\<lambda>hours. seconds now < dadd start (dmul hours 3600)) (cast_double E (m_SlotLengthHoursString s))) = Some True"

lemma determine_price_quoted:
  assumes "quoted E now s = Some (p, start)"
  shows "determine_price E (seconds now) s = Ret p (if starts_after_last E now s
      then s\<lparr>m_LastSlotFilledAkaPurchasedExpireDateTime_ToBeUsedAsStartDateTime := start, m_LastSlotPurchasesIsExpired := False\<rparr> else s)"
    and "\<not> starts_after_last E now s \<Longrightarrow> start = double_text E (seconds now)"
  using assms
  by (auto simp: quoted_def starts_after_last_def determine_price_def Let_def andthen_def prog_run need_double_def
      lastSlotFilledAkaPurchasedExpireDateTime_def currentPriceBeforeExpiry_def split: option.splits if_splits elim!: bind_SomeE)

text \<open>The index of the slot that a purchase attempts.\<close>

definition slot_to_buy :: "'j gui \<Rightarrow> string option" where
  "slot_to_buy s = (if m_NoPreviousSlotPurchases s then Some (show_int 0)
     else map_option (\<lambda>i. show_int (wrap32 (i + 1))) (lexical_cast_int (m_LastSlotFilledAkaPurchasedSlotIndex s)))"


subsection \<open>A purchase step by step\<close>

lemmas go_ops = gui_ops gui_go_def gui_enabled_def still_pending_def andthen_def prog_run Let_def

lemma in_session_asked [simp]: "in_session ks d (s\<lparr>gui_pending := ks\<rparr>) = in_session (gui_pending s) d s"
  by (simp add: in_session_def)

definition purchase_by :: "'j gui \<Rightarrow> int \<Rightarrow> 'j \<Rightarrow> ptree \<Rightarrow> cas \<Rightarrow> 'j \<Rightarrow> int \<Rightarrow> string \<Rightarrow> int \<times> string \<Rightarrow> string \<Rightarrow> cas \<Rightarrow> 'j purchase" where
  "purchase_by s k d t c probe b slot quote now c2 = \<lparr>p_user = m_CurrentlyLoggedInUsername s, p_owner = m_CampaignOwnerForPageBeingViewed s,
     p_campaign = m_CampaignIndexForPageBeingViewed s, p_slot = slot,
     p_filler = adSpaceSlotFillerKey (m_CurrentlyLoggedInUsername s) (show_int k), p_profile = d, p_tree = t, p_cas = c, p_probe = probe,
     p_balance = b, p_price = fst quote, p_bought = now, p_start = snd quote, p_locked_cas = c2\<rparr>"

text \<open>What the page knows about the campaign and its last slot is not touched by the first steps of a purchase.\<close>

definition same_page :: "'j gui \<Rightarrow> 'j gui \<Rightarrow> bool" where
  "same_page s s' \<longleftrightarrow> m_NoPreviousSlotPurchases s' = m_NoPreviousSlotPurchases s \<and> m_MinPrice s' = m_MinPrice s
     \<and> m_SlotLengthHoursString s' = m_SlotLengthHoursString s
     \<and> m_LastSlotFilledAkaPurchasedStartTimestamp s' = m_LastSlotFilledAkaPurchasedStartTimestamp s
     \<and> m_LastSlotFilledAkaPurchasedPurchaseTimestamp s' = m_LastSlotFilledAkaPurchasedPurchaseTimestamp s
     \<and> m_LastSlotFilledAkaPurchasedPurchasePrice s' = m_LastSlotFilledAkaPurchasedPurchasePrice s
     \<and> m_LastSlotFilledAkaPurchasedSlotIndex s' = m_LastSlotFilledAkaPurchasedSlotIndex s
     \<and> m_CampaignOwnerForPageBeingViewed s' = m_CampaignOwnerForPageBeingViewed s
     \<and> m_CampaignIndexForPageBeingViewed s' = m_CampaignIndexForPageBeingViewed s
     \<and> m_CampaignJsonDocForUpdatingLater s' = m_CampaignJsonDocForUpdatingLater s
     \<and> m_CampaignCasForSafelyUpdatingLater s' = m_CampaignCasForSafelyUpdatingLater s
     \<and> m_CurrentlyLoggedInUsername s' = m_CurrentlyLoggedInUsername s
     \<and> m_SlotIndexImmediatelyAfterBuyStep1wasPressed s' = m_SlotIndexImmediatelyAfterBuyStep1wasPressed s
     \<and> m_AllSlotFillersAdsCount s' = m_AllSlotFillersAdsCount s \<and> m_AllSlotFillersComboBox s' = m_AllSlotFillersComboBox s
     \<and> m_CurrentAdCampaignImageWidth s' = m_CurrentAdCampaignImageWidth s
     \<and> m_CurrentAdCampaignImageHeight s' = m_CurrentAdCampaignImageHeight s \<and> m_FirstPopulate s' = m_FirstPopulate s"

lemma same_page_quote:
  "same_page s s' \<Longrightarrow> quoted E now s' = quoted E now s" "same_page s s' \<Longrightarrow> slot_to_buy s' = slot_to_buy s"
  "same_page s s' \<Longrightarrow> starts_after_last E now s' = starts_after_last E now s"
  by (simp_all add: same_page_def quoted_def slot_to_buy_def starts_after_last_def Let_def cong: if_cong)

lemma go_click:
  assumes "in_phase E Idle s" "\<not> m_FirstPopulate s"
    and "m_SlotIndexImmediatelyAfterBuyStep1wasPressed s = m_LastSlotFilledAkaPurchasedSlotIndex s" "\<not> m_BuyInProgress s"
    and "0 \<le> k" "k < m_AllSlotFillersAdsCount s" "list_at (m_AllSlotFillersComboBox s) k = Some nickname"
      "dimensions_match nickname (m_CurrentAdCampaignImageWidth s) (m_CurrentAdCampaignImageHeight s)"
  shows "\<exists>s'. gui_go E now (ClickStep2 k) s = Some s' \<and> in_phase E (AwaitingProfile (m_CurrentlyLoggedInUsername s)) s'
    \<and> gui_outputs s' = [Say (AttemptingToBuy nickname), BeginGetSavingCas (userAccountKey (m_CurrentlyLoggedInUsername s))]
    \<and> same_page s s' \<and> m_SlotFillerToUseInBuy s' = adSpaceSlotFillerKey (m_CurrentlyLoggedInUsername s) (show_int k)
    \<and> m_SlotIndexImmediatelyAfterBuyStep1wasPressed s' = m_LastSlotFilledAkaPurchasedSlotIndex s' \<and> m_BuyInProgress s'"
  using assms by (simp add: go_ops buySlotStep2d3faultCampaign0ButtonClicked_def in_phase_def in_session_def same_page_def)

lemma go_profile:
  assumes "in_phase E (AwaitingProfile u) s"
    and "m_SlotIndexImmediatelyAfterBuyStep1wasPressed s = m_LastSlotFilledAkaPurchasedSlotIndex s"
    and "read_json (env_json E) d = Some t" "\<not> profileIsLocked t" "slot_to_buy s = Some i"
  shows "\<exists>s'. gui_go E now (GotDocSavingCas d c True False) s = Some s'
    \<and> in_phase E (CheckingSlot (purchase_by s k d t c x b i q n c2\<lparr>p_filler := m_SlotFillerToUseInBuy s\<rparr>)) s'
    \<and> gui_outputs s' = [BeginGet (adSpaceCampaignSlotKey (m_CampaignOwnerForPageBeingViewed s) (m_CampaignIndexForPageBeingViewed s) i)]
    \<and> same_page s s' \<and> m_LastSlotPurchasesIsExpired s' \<and> m_BuyInProgress s' = m_BuyInProgress s"
proof -
  have n: "pt_get_default JSON_USER_ACCOUNT_SLOT_ATTEMPTING_TO_FILL ''n'' t = ''n''"
    using assms(4) by (simp add: profileIsLocked_def split: if_splits)
  have a: "ajax s" "gui_pending s = [PGetSavingCas]" using assms(1) by (auto simp: in_phase_def in_session_def)
  show ?thesis using assms n a
    by (cases "m_NoPreviousSlotPurchases s")
      (auto simp: go_ops getCouchbaseDocumentByKeySavingCasFinished_def in_phase_def same_page_def buying_def was_unlocked_def
        verifyUserHasSufficientFundsAndThatTheirAccountIsntAlreadyLocked_def slot_to_buy_def purchase_by_def p_slot_key_def)
qed

lemma go_probe:
  assumes "in_phase E (CheckingSlot P) s" and "quoted E now s = Some (p, start)" "0 \<le> p" "p \<le> b"
    and "pt_get JSON_USER_ACCOUNT_BALANCE (p_tree P) = Some bs" "satoshiStringToSatoshiInt bs = Some b" and "m_LastSlotPurchasesIsExpired s"
    and "P' = P\<lparr>p_probe := x, p_balance := b, p_price := p, p_bought := double_text E (seconds now)\<rparr>"
  shows "\<exists>s'. gui_go E now (GotDoc x False False) s = Some s' \<and> in_phase E (Locking P') s'
    \<and> gui_outputs s' = [BeginCasStoreSavingCas (userAccountKey (p_user P)) (locked_doc E P) (p_cas P)]
    \<and> same_page s s' \<and> (m_LastSlotPurchasesIsExpired s' \<longleftrightarrow> \<not> starts_after_last E now s)
    \<and> (starts_after_last E now s \<longrightarrow> m_LastSlotFilledAkaPurchasedExpireDateTime_ToBeUsedAsStartDateTime s' = start)"
proof -
  let ?s = "s\<lparr>gui_outputs := [], gui_pending := [], m_DeferCount := m_DeferCount s - 1\<rparr>"
  have "same_page s ?s" by (simp add: same_page_def)
  from determine_price_quoted(1) [of E now ?s p start] same_page_quote [OF this] assms(2)
  have "determine_price E (seconds now) ?s = Ret p (if starts_after_last E now s
    then ?s\<lparr>m_LastSlotFilledAkaPurchasedExpireDateTime_ToBeUsedAsStartDateTime := start, m_LastSlotPurchasesIsExpired := False\<rparr> else ?s)"
    by simp
  then show ?thesis using assms
    by (auto simp: go_ops getCouchbaseDocumentByKeyFinished_def in_phase_def in_session_def same_page_def buy_facts
        ensureSlotDoesntExistThenContinueWithLockingUserAccount_def p_slot_key_def locked_doc_def satoshiIntToSatoshiString_def)
qed

lemma go_lock:
  assumes "in_phase E (Locking P) s" and "m_LastSlotPurchasesIsExpired s \<longleftrightarrow> \<not> starts_after_last E now s"
    and "start = (if starts_after_last E now s then m_LastSlotFilledAkaPurchasedExpireDateTime_ToBeUsedAsStartDateTime s else p_bought P)"
    and "P' = P\<lparr>p_start := start, p_locked_cas := c\<rparr>"
  shows "\<exists>s'. gui_go E now (CasStoreSavingCasDone c True False) s = Some s' \<and> in_phase E (Filling P') s'
    \<and> gui_outputs s' = [BeginAdd (p_slot_key P') (slot_doc E P')] \<and> same_page s s'"
  using assms
  by (auto simp: go_ops storeCouchbaseDocumentByKeyWithInputCasSavingOutputCasFinished_def in_phase_def in_session_def same_page_def buy_facts
        userAccountLockAttemptFinish_IfOkayDoTheActualSlotFillAdd_def p_slot_key_def slot_doc_def starts_after_last_def)

lemma go_fill:
  assumes "in_phase E (Filling P) s"
  shows "\<exists>s'. gui_go E now (AddDone True False) s = Some s' \<and> in_phase E (Recording P) s'
    \<and> gui_outputs s' = [BeginAdd (transactionKey (p_owner P) (p_campaign P) (p_slot P)) (tx_doc E P)] \<and> same_page s s'"
  using assms
  by (auto simp: go_ops storeWithoutInputCasCouchbaseDocumentByKeyFinished_def in_phase_def in_session_def same_page_def buy_facts
        slotFillAkaPurchaseAddAttemptFinished_def tx_doc_def)

lemma go_record:
  assumes "in_phase E (Recording P) s" and "p_balance P < 2 ^ 63"
  shows "\<exists>s'. gui_go E now (AddDone True False) s = Some s' \<and> in_phase E (Debiting P True) s'
    \<and> gui_outputs s' = [BeginCasStore (userAccountKey (p_user P)) (debited_doc E P) (p_locked_cas P)] \<and> same_page s s'
    \<and> buying E P s' \<and> priced P s' \<and> locked P s'"
proof -
  have r: "read_json (env_json E) (p_profile P) = Some (p_tree P)" "m_UserAccountUnlockedJustBeforeBuyingJson s = p_profile P"
    "0 \<le> p_price P" "p_price P \<le> p_balance P" using assms(1) by (simp_all add: in_phase_def buy_facts)
  obtain bs where bs: "pt_get JSON_USER_ACCOUNT_BALANCE (p_tree P) = Some bs" "satoshiStringToSatoshiInt bs = Some (p_balance P)"
    using assms(1) by (auto simp: in_phase_def buy_facts elim!: bind_SomeE)
  have "lexical_cast_longlong (show_int (p_balance P - p_price P)) = Some (p_balance P - p_price P)"
    using r(3,4) assms(2) by (intro lexical_cast_longlong_show_int) simp_all
  with r bs assms show ?thesis
    by (simp add: go_ops storeWithoutInputCasCouchbaseDocumentByKeyFinished_def in_phase_def in_session_def same_page_def buy_facts
        transactionDocCreatedSoCasSwapUnlockAcceptingFailUserAccountDebitting_def debited_doc_def satoshiIntToSatoshiString_def
        satoshiStringToJsonString_def satoshiStringToSatoshiInt_def)
qed

definition sold_doc :: "'j gui_env \<Rightarrow> 'j purchase \<Rightarrow> ptree \<Rightarrow> 'j" where
  "sold_doc E P ct = write_json (env_json E) (pt_put_child JSON_AD_SPACE_CAMPAIGN_LAST_SLOT_FILLED
     (pt_put JSON_LAST_PURCHASE_PRICE (show_int (p_price P)) (pt_put JSON_SLOT_START_TIMESTAMP (p_start P)
       (pt_put JSON_SLOT_PURCHASE_TIMESTAMP (p_bought P) (pt_put JSON_AD_SPACE_CAMPAIGN_LAST_SLOT_FILLED_INDEX (p_slot P) pt_empty)))) ct)"

lemma go_debit:
  assumes "in_phase E (Debiting P b) s" and "buying E P s" "priced P s" "locked P s"
    and "read_json (env_json E) (m_CampaignJsonDocForUpdatingLater s) = Some ct"
  shows "\<exists>s'. gui_go E now (CasStoreDone True False) s = Some s' \<and> in_phase E UpdatingCampaign s'
    \<and> gui_outputs s' = [BeginCasStore (adSpaceCampaignKey (p_owner P) (p_campaign P)) (sold_doc E P ct) (m_CampaignCasForSafelyUpdatingLater s)]
    \<and> m_CurrentPriceInSatoshisToUseForBuyingString s' = show_int (p_price P)"
  using assms
  by (simp add: go_ops storeCouchbaseDocumentByKeyWithInputCasFinished_def in_phase_def in_session_def buy_facts
        doneUnlockingUserAccountAfterSuccessfulPurchaseSoNowUpdateCampaignDoc_def sold_doc_def)

lemma go_done:
  assumes "in_phase E UpdatingCampaign s" and "satoshiStringToJsonString (m_CurrentPriceInSatoshisToUseForBuyingString s) = Some p"
  shows "\<exists>s'. gui_go E now (CasStoreDone True False) s = Some s' \<and> in_phase E Idle s' \<and> gui_outputs s' = [Say (Bought p)]"
  using assms
  by (simp add: go_ops storeCouchbaseDocumentByKeyWithInputCasFinished_def in_phase_def in_session_def
        doneUpdatingCampaignDocSoErrYeaTellUserWeAreCompletelyDone_def)

text \<open>The outputs of a log, in order.\<close>

fun outputs_of :: "'j gui_event list \<Rightarrow> 'j gui_output list" where
  "outputs_of [] = []"
| "outputs_of (Output x # h) = x # outputs_of h"
| "outputs_of (Input i # h) = outputs_of h"

lemma outputs_of_append [simp]: "outputs_of (h @ h') = outputs_of h @ outputs_of h'"
  by (induction h rule: outputs_of.induct) simp_all

lemma outputs_of_map [simp]: "outputs_of (map Output xs) = xs"
  by (induction xs) simp_all

lemma gui_run_snoc:
  assumes "gui_run E now s is = Some (h, s1)" and "gui_go E now i s1 = Some s'"
  shows "gui_run E now s (is @ [i]) = Some (h @ Input i # map Output (gui_outputs s'), s')"
  using gui_run_append [OF assms(1), of "[i]"] assms(2) by simp

definition order_answers :: "'j purchase \<Rightarrow> int \<Rightarrow> 'j gui_input list" where
  "order_answers P k = [ClickStep2 k, GotDocSavingCas (p_profile P) (p_cas P) True False, GotDoc (p_probe P) False False,
     CasStoreSavingCasDone (p_locked_cas P) True False]"

definition settle_answers :: "'j gui_input list" where
  "settle_answers = [AddDone True False, AddDone True False, CasStoreDone True False, CasStoreDone True False]"

text \<open>A page on which the second step may be clicked, and an account that can pay.\<close>

definition may_order :: "'j gui_env \<Rightarrow> 'j gui \<Rightarrow> int \<Rightarrow> string \<Rightarrow> bool" where
  "may_order E s k nickname \<longleftrightarrow> in_phase E Idle s \<and> \<not> m_FirstPopulate s \<and> \<not> m_BuyInProgress s
     \<and> m_SlotIndexImmediatelyAfterBuyStep1wasPressed s = m_LastSlotFilledAkaPurchasedSlotIndex s
     \<and> 0 \<le> k \<and> k < m_AllSlotFillersAdsCount s \<and> list_at (m_AllSlotFillersComboBox s) k = Some nickname
     \<and> dimensions_match nickname (m_CurrentAdCampaignImageWidth s) (m_CurrentAdCampaignImageHeight s)"

definition may_pay :: "'j gui_env \<Rightarrow> 'j \<Rightarrow> ptree \<Rightarrow> int \<Rightarrow> int \<Rightarrow> bool" where
  "may_pay E d t b p \<longleftrightarrow> read_json (env_json E) d = Some t \<and> \<not> profileIsLocked t
     \<and> Option.bind (pt_get JSON_USER_ACCOUNT_BALANCE t) satoshiStringToSatoshiInt = Some b \<and> 0 \<le> p \<and> p \<le> b"

lemma order_goes_through:
  fixes c c2 :: cas
  assumes page: "may_order E s k nickname" and pay: "may_pay E d t b (fst q)"
    and i: "slot_to_buy s = Some i" and quote: "quoted E now s = Some q"
    and P_def: "P = purchase_by s k d t c x b i q (double_text E (seconds now)) c2"
  shows "\<exists>h s'. gui_run E now s (order_answers P k) = Some (h, s') \<and> in_phase E (Filling P) s' \<and> same_page s s'
    \<and> outputs_of h = [Say (AttemptingToBuy nickname), BeginGetSavingCas (userAccountKey (p_user P)), BeginGet (p_slot_key P),
       BeginCasStoreSavingCas (userAccountKey (p_user P)) (locked_doc E P) (p_cas P), BeginAdd (p_slot_key P) (slot_doc E P)]"
proof -
  let ?now = "double_text E (seconds now)"
  obtain p start where q: "q = (p, start)" by (cases q)
  have P: "p_user P = m_CurrentlyLoggedInUsername s" "p_profile P = d" "p_cas P = c" "p_probe P = x" "p_locked_cas P = c2" "p_tree P = t"
    "p_slot P = i" "p_owner P = m_CampaignOwnerForPageBeingViewed s" "p_campaign P = m_CampaignIndexForPageBeingViewed s" "p_bought P = ?now"
    and P': "P\<lparr>p_probe := x, p_balance := b, p_price := p, p_bought := ?now\<rparr> = P" "P\<lparr>p_start := start, p_locked_cas := c2\<rparr> = P"
    by (simp_all add: P_def purchase_by_def q)
  obtain s1 where s1: "gui_go E now (ClickStep2 k) s = Some s1" "in_phase E (AwaitingProfile (p_user P)) s1"
     "gui_outputs s1 = [Say (AttemptingToBuy nickname), BeginGetSavingCas (userAccountKey (p_user P))]"
     "same_page s s1" "m_SlotFillerToUseInBuy s1 = adSpaceSlotFillerKey (m_CurrentlyLoggedInUsername s) (show_int k)"
     "m_SlotIndexImmediatelyAfterBuyStep1wasPressed s1 = m_LastSlotFilledAkaPurchasedSlotIndex s1"
    using go_click [of E s k nickname now] page unfolding P may_order_def by blast
  have P1: "purchase_by s1 k d t c x b i q ?now c2\<lparr>p_filler := m_SlotFillerToUseInBuy s1\<rparr> = P"
    using s1(4,5) by (simp add: purchase_by_def same_page_def P_def)
  obtain s2 where s2: "gui_go E now (GotDocSavingCas d c True False) s1 = Some s2" "in_phase E (CheckingSlot P) s2"
     "gui_outputs s2 = [BeginGet (p_slot_key P)]" "same_page s1 s2" "m_LastSlotPurchasesIsExpired s2"
    using go_profile [OF s1(2,6), of d t i now c k x b q ?now c2] pay i same_page_quote(2) [OF s1(4)] s1(4) unfolding P1 may_pay_def
    by (auto simp: p_slot_key_def P same_page_def)
  have page2: "same_page s s2" using s1(4) s2(4) by (simp add: same_page_def)
  obtain s3 where s3: "gui_go E now (GotDoc x False False) s2 = Some s3" "in_phase E (Locking P) s3"
     "gui_outputs s3 = [BeginCasStoreSavingCas (userAccountKey (p_user P)) (locked_doc E P) (p_cas P)]" "same_page s2 s3"
     "m_LastSlotPurchasesIsExpired s3 \<longleftrightarrow> \<not> starts_after_last E now s3"
     "starts_after_last E now s3 \<longrightarrow> m_LastSlotFilledAkaPurchasedExpireDateTime_ToBeUsedAsStartDateTime s3 = start"
    using go_probe [OF s2(2), of now p start b _ P x] quote pay s2(5) same_page_quote(1) [OF page2] same_page_quote(3)
    unfolding P P' q may_pay_def by (fastforce elim!: bind_SomeE)
  have "start = (if starts_after_last E now s3 then m_LastSlotFilledAkaPurchasedExpireDateTime_ToBeUsedAsStartDateTime s3 else p_bought P)"
    using s3(4,6) determine_price_quoted(2) [of E now s p start] quote same_page_quote(3) page2 P q by metis
  then obtain s4 where s4: "gui_go E now (CasStoreSavingCasDone c2 True False) s3 = Some s4" "in_phase E (Filling P) s4"
     "gui_outputs s4 = [BeginAdd (p_slot_key P) (slot_doc E P)]" "same_page s3 s4"
    using go_lock [OF s3(2,5) _ P'(2) [symmetric]] by blast
  have "same_page s s4" using page2 s3(4) s4(4) by (simp add: same_page_def)
  then show ?thesis using s4(2)
    by (simp add: order_answers_def s1(1,3) s2(1,3) s3(1,3) s4(1,3) P)
qed

lemma settling_goes_through:
  assumes "in_phase E (Filling P) s" and "p_balance P < 2 ^ 63" and "read_json (env_json E) (m_CampaignJsonDocForUpdatingLater s) = Some ct"
  shows "\<exists>h s' p. gui_run E now s settle_answers = Some (h, s') \<and> in_phase E Idle s'
    \<and> outputs_of h = [BeginAdd (transactionKey (p_owner P) (p_campaign P) (p_slot P)) (tx_doc E P),
       BeginCasStore (userAccountKey (p_user P)) (debited_doc E P) (p_locked_cas P),
       BeginCasStore (adSpaceCampaignKey (p_owner P) (p_campaign P)) (sold_doc E P ct) (m_CampaignCasForSafelyUpdatingLater s),
       Say (Bought p)] \<and> satoshiStringToJsonString (show_int (p_price P)) = Some p"
proof -
  obtain s5 where s5: "gui_go E now (AddDone True False) s = Some s5" "in_phase E (Recording P) s5"
     "gui_outputs s5 = [BeginAdd (transactionKey (p_owner P) (p_campaign P) (p_slot P)) (tx_doc E P)]" "same_page s s5"
    using go_fill [OF assms(1)] by blast
  obtain s6 where s6: "gui_go E now (AddDone True False) s5 = Some s6" "in_phase E (Debiting P True) s6"
     "gui_outputs s6 = [BeginCasStore (userAccountKey (p_user P)) (debited_doc E P) (p_locked_cas P)]" "same_page s5 s6"
     "buying E P s6" "priced P s6" "locked P s6"
    using go_record [OF s5(2) assms(2)] by blast
  have page: "m_CampaignJsonDocForUpdatingLater s6 = m_CampaignJsonDocForUpdatingLater s"
     "m_CampaignCasForSafelyUpdatingLater s6 = m_CampaignCasForSafelyUpdatingLater s"
    using s5(4) s6(4) by (simp_all add: same_page_def)
  obtain s7 where s7: "gui_go E now (CasStoreDone True False) s6 = Some s7" "in_phase E UpdatingCampaign s7"
     "gui_outputs s7 = [BeginCasStore (adSpaceCampaignKey (p_owner P) (p_campaign P)) (sold_doc E P ct) (m_CampaignCasForSafelyUpdatingLater s)]"
     "m_CurrentPriceInSatoshisToUseForBuyingString s7 = show_int (p_price P)"
    using go_debit [OF s6(2,5,6,7), of ct now] assms(3) unfolding page by blast
  obtain pr where pr: "satoshiStringToJsonString (show_int (p_price P)) = Some pr"
    using assms(2) s6(6) lexical_cast_longlong_show_int [of "p_price P"]
    by (auto simp: satoshiStringToJsonString_def satoshiStringToSatoshiInt_def priced_def affordable_def)
  obtain s8 where "gui_go E now (CasStoreDone True False) s7 = Some s8" "in_phase E Idle s8" "gui_outputs s8 = [Say (Bought pr)]"
    using go_done [OF s7(2), of pr now] pr s7(4) by auto
  then show ?thesis
    using pr by (simp add: settle_answers_def s5(1,3) s6(1,3) s7(1,3))
qed

text \<open>
  C20. A purchase goes through, at the quoted price. On a JavaScript session with step 2 on the page, an unlocked account whose balance
  covers the quoted price, a free slot and a database that accepts every store, the session begins exactly these requests, in this order: the
  account with its CAS, the next slot, the lock, the slot, the transaction, the debit under the CAS of the lock, the campaign; then it tells the
  price and is idle again, with rendering no longer deferred.
\<close>

theorem purchase_goes_through:
  fixes c c2 :: cas
  assumes "may_order E s k nickname" and "may_pay E d t b (fst q)"
    and "slot_to_buy s = Some i" and "quoted E now s = Some q"
    and "read_json (env_json E) (m_CampaignJsonDocForUpdatingLater s) = Some ct"
    and P_def: "P = purchase_by s k d t c x b i q (double_text E (seconds now)) c2"
  shows "\<exists>h s' p. gui_run E now s (order_answers P k @ settle_answers) = Some (h, s') \<and> in_phase E Idle s'
    \<and> outputs_of h = [Say (AttemptingToBuy nickname), BeginGetSavingCas (userAccountKey (p_user P)), BeginGet (p_slot_key P),
       BeginCasStoreSavingCas (userAccountKey (p_user P)) (locked_doc E P) (p_cas P), BeginAdd (p_slot_key P) (slot_doc E P),
       BeginAdd (transactionKey (p_owner P) (p_campaign P) (p_slot P)) (tx_doc E P),
       BeginCasStore (userAccountKey (p_user P)) (debited_doc E P) (p_locked_cas P),
       BeginCasStore (adSpaceCampaignKey (p_owner P) (p_campaign P)) (sold_doc E P ct) (m_CampaignCasForSafelyUpdatingLater s),
       Say (Bought p)] \<and> satoshiStringToJsonString (show_int (fst q)) = Some p"
proof -
  obtain h1 s1 where run1: "gui_run E now s (order_answers P k) = Some (h1, s1)" "in_phase E (Filling P) s1" "same_page s s1"
    "outputs_of h1 = [Say (AttemptingToBuy nickname), BeginGetSavingCas (userAccountKey (p_user P)), BeginGet (p_slot_key P),
       BeginCasStoreSavingCas (userAccountKey (p_user P)) (locked_doc E P) (p_cas P), BeginAdd (p_slot_key P) (slot_doc E P)]"
    using order_goes_through [OF assms(1-4,6)] by blast
  have "b < 2 ^ 63"
    using assms(2) lexical_cast_longlong_range by (auto simp: may_pay_def satoshiStringToSatoshiInt_def elim!: bind_SomeE)
  then have "p_balance P < 2 ^ 63" by (simp add: P_def purchase_by_def)
  moreover have "read_json (env_json E) (m_CampaignJsonDocForUpdatingLater s1) = Some ct"
    using assms(5) run1(3) by (simp add: same_page_def)
  ultimately obtain h2 s' p where "gui_run E now s1 settle_answers = Some (h2, s')" "in_phase E Idle s'"
    "outputs_of h2 = [BeginAdd (transactionKey (p_owner P) (p_campaign P) (p_slot P)) (tx_doc E P),
       BeginCasStore (userAccountKey (p_user P)) (debited_doc E P) (p_locked_cas P),
       BeginCasStore (adSpaceCampaignKey (p_owner P) (p_campaign P)) (sold_doc E P ct) (m_CampaignCasForSafelyUpdatingLater s1), Say (Bought p)]"
    "satoshiStringToJsonString (show_int (p_price P)) = Some p"
    using settling_goes_through [OF run1(2)] by metis
  then show ?thesis
    using gui_run_append [OF run1(1)] run1(3,4) by (simp add: same_page_def P_def purchase_by_def)
qed


subsection \<open>A session as an example\<close>

definition visit_double :: "string \<Rightarrow> rat option" where
  "visit_double str = (case split_at (CHR ''.'') str of
      [a] \<Rightarrow> map_option of_nat (read_nat a)
    | [a, b] \<Rightarrow> Option.bind (read_nat a) (\<lambda>n. map_option (\<lambda>m. of_nat n + of_nat m / 10 ^ length b) (read_nat b))
    | _ \<Rightarrow> None)"

definition visit_env :: "ptree gui_env" where
  "visit_env = \<lparr>env_json = tree_json, cast_double = visit_double, double_text = (\<lambda>r. show_int \<lfloor>r\<rfloor>), base64Decode = (\<lambda>x. x),
     base64_sha1 = (\<lambda>x. rev x), hexEncode = (\<lambda>x. x)\<rparr>"

definition visit_session :: "ptree gui" where
  "visit_session = \<lparr>
     m_LoggedIn = False, m_CurrentlyLoggedInUsername = [], ajax = True, m_CampaignOwnerForPageBeingViewed = [],
     m_CampaignIndexForPageBeingViewed = [], m_CampaignWidgetExists = False, m_BuyInProgress = False, m_FirstPopulate = False,
     m_BuySlotFillerStep1Button = False, m_BuyStep2placeholder = False, m_AllSlotFillersAdsCount = 0, m_AllSlotFillersComboBox =
     [], m_CurrentAdCampaignImageWidth = [], m_CurrentAdCampaignImageHeight = [], m_CampaignJsonDocForUpdatingLater = pt_empty,
     m_CampaignCasForSafelyUpdatingLater = 0, m_MinPrice = [], m_SlotLengthHoursString = [], m_NoPreviousSlotPurchases = True,
     m_SlotIndexImmediatelyAfterBuyStep1wasPressed = [], m_LastSlotFilledAkaPurchasedSlotIndex = [],
     m_LastSlotFilledAkaPurchasedPurchaseTimestamp = [], m_LastSlotFilledAkaPurchasedStartTimestamp = [],
     m_LastSlotFilledAkaPurchasedPurchasePrice = [], m_LastSlotPurchasesIsExpired = False, m_CurrentPriceInSatoshisToUseForBuying
     = 0, m_CurrentPriceInSatoshisToUseForBuyingString = [], m_LastSlotFilledAkaPurchasedExpireDateTime_ToBeUsedAsStartDateTime =
     [], m_AdSlotIndexToBeFilledIfLockIsSuccessful = [], m_AdSlotAboutToBeFilledIfLockIsSuccessful = [],
     m_StartTimestampUsedInNewPurchase = [], m_PurchaseTimestampForUseInSlotItself = [], m_SlotFillerToUseInBuy = [],
     m_UserAccountUnlockedJustBeforeBuyingJson = pt_empty, m_UserAccountUnlockedJustBeforeBuyingCas = 0,
     m_CasFromUserAccountLockSoWeCanSafelyUnlockLater = 0, m_AccountLockedRecoveryWhatTheUserWasTryingToFillTheSlotWithHack = [],
     m_UserAccountLockedJsonToMaybeUseInAccountRecoveryAtLogin = pt_empty, m_CasFromUserAccountLockedAndStuckLocked = 0,
     m_BalanceSatoshiStringForDisplayingOnly = [], m_LoginUsernameLineEdit = [], m_LoginPasswordLineEdit = [],
     m_RegisterUsernameLineEdit = [], m_RegisterPasswordLineEdit = [], m_WhatTheStoreWithoutInputCasWasFor =
     INITIALINVALIDNULLSTOREWITHOUTINPUTCAS, m_WhatTheStoreWithInputCasWasFor = INITIALINVALIDNULLSTOREWITHCAS,
     m_WhatTheStoreWithInputCasSavingOutputCasWasFor = INITIALINVALIDNULLSTOREWITHCASSAVINGCAS, m_WhatTheGetWasFor =
     INITIALINVALIDNULLGET, m_WhatTheGetSavingCasWasFor = INITIALINVALIDNULLGETSAVINGCAS, m_CurrentlySubscribedTo =
     (INITIALINVALIDNULLNOTSUBSCRIBEDTOANYTHING, []), m_DeferCount = 0, gui_outputs = [], gui_pending = []\<rparr>"

definition visit_campaign :: ptree where
  "visit_campaign = Node [] [(JSON_AD_SPACE_CAMPAIGN_MIN_PRICE, Node ''1000'' []), (JSON_AD_SPACE_CAMPAIGN_SLOT_LENGTH_HOURS, Node ''24'' []),
     (JSON_SLOT_FILLER_WIDTH, Node ''576'' []), (JSON_SLOT_FILLER_HEIGHT, Node ''96'' []),
     (JSON_AD_SPACE_CAMPAIGN_DISALLOWED_CATEGORIES_KEY, Node [] [([], Node ''porn'' [])])]"

definition visit_buyer :: ptree where
  "visit_buyer = plain_doc [(JSON_USER_ACCOUNT_BALANCE, ''5000''), (JSON_USER_ACCOUNT_PASSWORD_HASH, ''1swp''), (JSON_USER_ACCOUNT_PASSWORD_SALT, ''s1'')]"

definition visit_ads_list :: ptree where
  "visit_ads_list = plain_doc [(JSON_ALL_SLOT_FILLERS_ADS_COUNT, ''1''), (''0'', ''ad -- 576x96'')]"

definition visit_inputs :: "ptree gui_input list" where
  "visit_inputs = [ShowCampaign ''alice'' ''0'', CampaignUpdate visit_campaign 7 True False, ClickLogin ''bob'' ''pw'',
     GotDocSavingCas visit_buyer 3 True False, ClickStep1, GotDoc visit_ads_list True False]"

lemma visit_read [simp]:
  "letters_numbers_only ''bob''" "letters_numbers_only ''pw''"
  by (code_simp; simp)+

lemma visit_read2 [simp]:
  "lexical_cast_int ''1'' = Some 1" "satoshiStringToSatoshiInt ''1000'' = Some 1000" "satoshiStringToSatoshiInt ''5000'' = Some 5000"
  by (simp_all add: lexical_cast_int_def satoshiStringToSatoshiInt_def lexical_cast_longlong_def read_range_def read_nat_def is_digit_def digit_value_def)

lemma visit_rounds:
  "jsonDoubleToSatoshiIntIncludingRounding (satoshiIntToJsonDouble 1000) = 1000"
  "jsonDoubleToSatoshiIntIncludingRounding (satoshiIntToJsonDouble 5000) = 5000"
  "\<not> satoshiIntToJsonDouble 1000 < 0" "\<not> satoshiIntToJsonDouble 5000 < 0"
  "round_even (satoshiIntToJsonDouble 1000 * 100000000) = 1000" "round_even (satoshiIntToJsonDouble 5000 * 100000000) = 5000"
  by code_simp+

lemma visit_fixed: "fixed8 1000 = ''0.00001000''" "fixed8 5000 = ''0.00005000''"
  by (simp_all add: fixed8_def pad_digits_numeral digit_char_eval show_nat.simps)

lemma visit_prices [simp]:
  "satoshiStringToJsonString ''1000'' = Some ''0.00001000''" "satoshiStringToJsonString ''5000'' = Some ''0.00005000''"
  by (simp_all add: satoshiStringToJsonString_def jsonDoubleToJsonStringAfterProperlyRoundingJsonDouble_def
      formatDoubleAs8decimalPlacesString_def visit_rounds visit_fixed)

lemma visit_min_price: "visit_double ''0.00001000'' = Some (1 / 100000)"
  by (simp add: visit_double_def read_nat_def is_digit_def digit_value_def)

lemma visit_min_price_satoshis [simp]: "jsonStringToSatoshiInt visit_double ''0.00001000'' = Some 1000"
proof -
  have "jsonDoubleToSatoshiIntIncludingRounding (1 / 100000) = 1000" by code_simp
  then show ?thesis by (simp add: jsonStringToSatoshiInt_def visit_min_price)
qed

lemma visit_env_sel [simp]:
  "env_json visit_env = tree_json" "cast_double visit_env = visit_double" "base64Decode visit_env = (\<lambda>x. x)" "base64_sha1 visit_env = rev"
  by (simp_all add: visit_env_def fun_eq_iff)

lemma visit_docs [simp]:
  "pt_get JSON_AD_SPACE_CAMPAIGN_MIN_PRICE visit_campaign = Some ''1000''"
  "pt_get JSON_AD_SPACE_CAMPAIGN_SLOT_LENGTH_HOURS visit_campaign = Some ''24''"
  "pt_get JSON_SLOT_FILLER_WIDTH visit_campaign = Some ''576''" "pt_get JSON_SLOT_FILLER_HEIGHT visit_campaign = Some ''96''"
  "pt_get_child_optional JSON_AD_SPACE_CAMPAIGN_LAST_SLOT_FILLED visit_campaign = None"
  "pt_get_child_optional JSON_AD_SPACE_CAMPAIGN_DISALLOWED_CATEGORIES_KEY visit_campaign = Some (Node [] [([], Node ''porn'' [])])"
  by (simp_all add: visit_campaign_def pt_get_def pt_get_child_optional_def)

definition visit_shown :: "ptree gui" where
  "visit_shown = visit_session\<lparr>m_CampaignOwnerForPageBeingViewed := ''alice'', m_CampaignIndexForPageBeingViewed := ''0'',
     m_CampaignWidgetExists := True, m_CurrentlySubscribedTo := (GETANDSUBSCRIBESAVINGCAS, adSpaceCampaignKey ''alice'' ''0''),
     m_FirstPopulate := True, m_DeferCount := 1, gui_outputs := [Subscribe (adSpaceCampaignKey ''alice'' ''0'') GetAndSubscribeMode]\<rparr>"

definition visit_loaded :: "ptree gui" where
  "visit_loaded = visit_shown\<lparr>m_FirstPopulate := False, m_DeferCount := 0, m_CampaignJsonDocForUpdatingLater := visit_campaign,
     m_CampaignCasForSafelyUpdatingLater := 7, m_MinPrice := ''0.00001000'', m_SlotLengthHoursString := ''24'',
     m_CurrentAdCampaignImageWidth := ''576'', m_CurrentAdCampaignImageHeight := ''96'', m_BuySlotFillerStep1Button := True,
     gui_outputs := [ShowPrice ''0.00001000'', ShowStart None, ShowHours ''24'', ShowDimensions ''576x96 px'', ShowCategories ''porn'']\<rparr>"

definition visit_logging_in :: "ptree gui" where
  "visit_logging_in = visit_loaded\<lparr>m_LoginUsernameLineEdit := ''bob'', m_LoginPasswordLineEdit := ''pw'', m_DeferCount := 2,
     m_WhatTheGetSavingCasWasFor := LOGINATTEMPTGET, gui_pending := [PGetSavingCas],
     gui_outputs := [BeginGetSavingCas (userAccountKey ''bob'')]\<rparr>"

definition visit_logged_in :: "ptree gui" where
  "visit_logged_in = visit_logging_in\<lparr>m_LoginUsernameLineEdit := [], m_LoginPasswordLineEdit := [], m_DeferCount := 0, gui_pending := [],
     m_LoggedIn := True, m_CurrentlyLoggedInUsername := ''bob'', m_BalanceSatoshiStringForDisplayingOnly := ''5000'',
     gui_outputs := [Subscribe (adSpaceCampaignKey ''alice'' ''0'') GetAndSubscribeChangeSessionIdMode, Say (LoggedInAs ''bob'' ''0.00005000'')]\<rparr>"

definition visit_stepping :: "ptree gui" where
  "visit_stepping = visit_logged_in\<lparr>m_DeferCount := 2, gui_pending := [PGet], m_WhatTheGetWasFor := BUYSTEP1GET,
     gui_outputs := [BeginGet (adSpaceAllSlotFillersKey ''bob'')]\<rparr>"

definition visit_page :: "ptree gui" where
  "visit_page = visit_stepping\<lparr>m_DeferCount := 0, gui_pending := [], m_BuyStep2placeholder := True, m_AllSlotFillersAdsCount := 1,
     m_AllSlotFillersComboBox := [''ad -- 576x96''], gui_outputs := [ShowStep2 ''0.00001000'']\<rparr>"

lemmas visit_states = visit_shown_def visit_loaded_def visit_logging_in_def visit_logged_in_def visit_stepping_def visit_page_def visit_session_def

lemma visit_show: "gui_go visit_env 100 (ShowCampaign ''alice'' ''0'') visit_session = Some visit_shown"
  by (simp add: visit_states beginShowingAdvertisingBuyAdSpaceD3faultCampaign0Widget_def go_ops getAndSubscribeCouchbaseDocumentByKeySavingCas_def)

lemma visit_load: "gui_go visit_env 100 (CampaignUpdate visit_campaign 7 True False) visit_shown = Some visit_loaded"
  by (simp add: visit_states finishShowingAdvertisingBuyAdSpaceD3faultCampaign0Widget_def go_ops show_campaign_labels_def
    getAndSubscribeCouchbaseDocumentByKeySavingCas_UPDATE_def populateDimensionsLabel_def populateDisallowedCategoriesLabel_def pt_data_def)

lemma visit_ask_login: "gui_go visit_env 100 (ClickLogin ''bob'' ''pw'') visit_loaded = Some visit_logging_in"
  by (simp add: visit_states go_ops handleLoginButtonClicked_def)

lemma visit_login: "gui_go visit_env 100 (GotDocSavingCas visit_buyer 3 True False) visit_logging_in = Some visit_logged_in"
  by (simp add: visit_states go_ops getCouchbaseDocumentByKeySavingCasFinished_def loginIfInputHashedEqualsDbInfo_def visit_buyer_def
    getAndSubscribeCouchbaseDocumentByKeySavingCas_def doLoginTasks_def pt_get_default_def)

lemma visit_step1: "gui_go visit_env 100 ClickStep1 visit_logged_in = Some visit_stepping"
  by (simp add: visit_states go_ops buySlotStep1d3faultCampaign0ButtonClicked_def)

lemma visit_populate: "gui_go visit_env 100 (GotDoc visit_ads_list True False) visit_stepping = Some visit_page"
  by (simp add: visit_states go_ops getCouchbaseDocumentByKeyFinished_def buySlotPopulateStep2d3faultCampaign0_def
    currentPriceStringForConfirmingOnly_def visit_ads_list_def show_int_0)

lemma visit_prefix: "\<exists>h. gui_run visit_env 100 visit_session visit_inputs = Some (h, visit_page)"
  by (simp add: visit_inputs_def visit_show visit_load visit_ask_login visit_login visit_step1 visit_populate)

lemma visit_dimensions: "dimensions_match ''ad -- 576x96'' ''576'' ''96''"
  by (simp add: dimensions_match_def split_on.simps)

lemma visit_may: "may_order visit_env visit_page 0 ''ad -- 576x96''" "may_pay visit_env visit_buyer visit_buyer 5000 1000"
  "slot_to_buy visit_page = Some ''0''" "quoted visit_env 100 visit_page = Some (1000, double_text visit_env (seconds 100))"
  by (simp_all add: may_order_def may_pay_def in_phase_def in_session_def visit_states visit_dimensions list_at_def visit_buyer_def
    profileIsLocked_def pt_get_default_def slot_to_buy_def show_int_0 quoted_def)

lemma visit_new: "new_session visit_session" "ajax visit_session"
  by (simp_all add: new_session_def visit_session_def)

definition visit_purchase :: "ptree purchase" where
  "visit_purchase = purchase_by visit_page 0 visit_buyer visit_buyer 9 pt_empty 5000 ''0'' (1000, double_text visit_env (seconds 100))
     (double_text visit_env (seconds 100)) 11"

theorem purchase_goes_through_witness:
  "\<exists>h s' p. gui_run visit_env 100 visit_page (order_answers visit_purchase 0 @ settle_answers) = Some (h, s')
    \<and> BeginCasStore (userAccountKey ''bob'') (debited_doc visit_env visit_purchase) 11 \<in> set (outputs_of h)"
proof -
  have c: "read_json (env_json visit_env) (m_CampaignJsonDocForUpdatingLater visit_page) = Some visit_campaign"
    by (simp add: visit_states)
  have "p_user visit_purchase = ''bob''" "p_locked_cas visit_purchase = 11" by (simp_all add: visit_purchase_def purchase_by_def visit_states)
  then show ?thesis
    using purchase_goes_through [OF visit_may(1) _ visit_may(3,4) c visit_purchase_def] visit_may(2) by fastforce
qed

end
