(* ===== verification/BuyProperties.thy ===== *)
theory BuyProperties
  imports BuySlotRuns
begin

section \<open>What a session may do to accounts, and how pages and logins behave\<close>

text \<open>
  The properties of the web session: every store on an account is justified by the log before it, rendering is resumed exactly when
  nothing is pending, a registered user can log in with the same password, and the page of a visitor without JavaScript resumes
  rendering once too often after an error.
\<close>

subsection \<open>Accounts\<close>

text \<open>
  C2. Money moves only with a slot. In every reachable state of a JavaScript session, each store that the session ever began on a user's
  account with a CAS is one of two. Either it is the debit of a purchase, and the log holds, in this order, the read of the unlocked
  account, the lock under the CAS of that read, the add of the slot, the add of the transaction for the same price, and the debit under
  the CAS that the lock returned; the price is not negative and the balance covers it. Or it unlocks the account without touching the balance, and the log holds
  the lost slot, which was read and is filled by somebody else.
\<close>

theorem accounts_change_only_with_a_slot:
  assumes "gui_reach E s0 h s" and "new_session s0" and "ajax s0"
    and "Output (BeginCasStore (userAccountKey u) d c) \<in> set h"
  shows "(\<exists>P ok. u = p_user P \<and> d = debited_doc E P \<and> c = p_locked_cas P \<and> was_unlocked E P \<and> affordable P
      \<and> subseq (debit_events E P ok) h)
    \<or> (\<exists>evs account filler t slotdoc. winner_wanted E evs u account c filler \<and> read_json (env_json E) account = Some t
      \<and> d = unlocked_doc E t \<and> lost_to_somebody E filler slotdoc
      \<and> subseq (evs @ [Input (GotDoc slotdoc True False), Output (BeginCasStore (userAccountKey u) d c)]) h)"
proof -
  obtain ph where ph: "settles E ph u d c" "subseq (evidence E ph) h"
    using session_invariant [OF assms(1-3)] assms(4) unfolding accounted_def by blast
  from ph(1) show ?thesis
    unfolding settles_def
  proof (elim disjE exE conjE)
    fix P ok
    assume "ph = Debiting P ok" "u = p_user P" "d = debited_doc E P" "c = p_locked_cas P" "was_unlocked E P" "affordable P"
    then show ?thesis using ph(2) by (intro disjI1) auto
  qed (use ph(2) in fastforce)
qed

lemma in_outputs_of: "x \<in> set (outputs_of h) \<Longrightarrow> Output x \<in> set h"
  by (induction h rule: outputs_of.induct) auto

lemma visit_log: "\<exists>h s. gui_reach visit_env visit_session h s
    \<and> Output (BeginCasStore (userAccountKey ''bob'') (debited_doc visit_env visit_purchase) 11) \<in> set h"
proof -
  obtain h1 where "gui_run visit_env 100 visit_session visit_inputs = Some (h1, visit_page)" using visit_prefix by blast
  from gui_run_reach [OF gui_reach.start this] have r1: "gui_reach visit_env visit_session h1 visit_page" by simp
  obtain h2 s1 where run: "gui_run visit_env 100 visit_page (order_answers visit_purchase 0) = Some (h2, s1)"
      "in_phase visit_env (Filling visit_purchase) s1" "same_page visit_page s1"
    using order_goes_through [OF visit_may(1) _ visit_may(3,4) visit_purchase_def] visit_may(2) by auto
  have P: "p_user visit_purchase = ''bob''" "p_locked_cas visit_purchase = 11" "p_balance visit_purchase = 5000"
    by (simp_all add: visit_purchase_def purchase_by_def visit_states)
  have c: "read_json (env_json visit_env) (m_CampaignJsonDocForUpdatingLater s1) = Some visit_campaign"
    using run(3) by (simp add: same_page_def visit_states)
  obtain h3 s2 where run2: "gui_run visit_env 100 s1 settle_answers = Some (h3, s2)"
      "BeginCasStore (userAccountKey ''bob'') (debited_doc visit_env visit_purchase) 11 \<in> set (outputs_of h3)"
    using settling_goes_through [OF run(2) _ c, of 100] unfolding P by auto
  then show ?thesis
    using gui_run_reach [OF gui_run_reach [OF r1 run(1)] run2(1)] in_outputs_of [OF run2(2)] by (intro exI conjI) (assumption, simp)
qed

theorem accounts_change_only_with_a_slot_witness:
  "\<exists>h s. gui_reach visit_env visit_session h s
    \<and> ((\<exists>P ok. affordable P \<and> subseq (debit_events visit_env P ok) h) \<or> (\<exists>evs slotdoc store. subseq (evs @ [Input (GotDoc slotdoc True False), store]) h))"
proof -
  obtain h s where log: "gui_reach visit_env visit_session h s"
    "Output (BeginCasStore (userAccountKey ''bob'') (debited_doc visit_env visit_purchase) 11) \<in> set h"
    using visit_log by blast
  from accounts_change_only_with_a_slot [OF log(1) visit_new log(2)] show ?thesis
    using log(1) by blast
qed

subsection \<open>Rendering\<close>

text \<open>
  C37. One request at a time, and the page comes back. In every reachable state of a JavaScript session at most one database request
  is pending. While none is pending, rendering is deferred only for the first campaign document that is still to come; while one is pending
  rendering is deferred, so no click gets between a request and its answer.
\<close>

theorem javascript_page_comes_back:
  assumes "gui_reach E s0 h s" and "new_session s0" and "ajax s0"
  shows "length (gui_pending s) \<le> 1
    \<and> (gui_pending s = [] \<longrightarrow> m_DeferCount s = (if m_FirstPopulate s then 1 else 0))
    \<and> (gui_pending s \<noteq> [] \<longrightarrow> 0 < m_DeferCount s)"
proof -
  obtain ph where "in_phase E ph s" using session_invariant [OF assms] by blast
  then show ?thesis by (cases ph) (auto simp: in_phase_def in_session_def)
qed

theorem javascript_page_comes_back_witness:
  "\<exists>h. gui_reach visit_env visit_session h visit_page \<and> length (gui_pending visit_page) \<le> 1"
proof -
  obtain h where "gui_run visit_env 100 visit_session visit_inputs = Some (h, visit_page)" using visit_prefix by blast
  from gui_run_reach [OF gui_reach.start this] have "gui_reach visit_env visit_session h visit_page" by simp
  then show ?thesis using javascript_page_comes_back [OF _ visit_new] by blast
qed

lemma resumes_once:
  defines "I \<equiv> \<lambda>n s. \<not> ajax s \<and> m_DeferCount s = (n::int)"
  shows "keeps (I n) rollBackToBeforeBuyStep1ifNeeded" "keeps (I n) (show_last_purchase E now t)" "keeps (I n) (show_campaign_labels t)"
  unfolding rollBackToBeforeBuyStep1ifNeeded_def show_last_purchase_def read_last_purchase_def
    lastSlotFilledAkaPurchasedExpireDateTime_def currentPriceBeforeExpiry_def need_double_def show_campaign_labels_def
    populateDimensionsLabel_def populateDisallowedCategoriesLabel_def pt_need_def gui_out_def
  by (intro prog_rules; simp add: I_def)+

lemma nojs_shown:
  assumes "\<not> ajax s" and "m_DeferCount s = n"
  shows "runs_to (finishShowingAdvertisingBuyAdSpaceD3faultCampaign0Widget E now d c ok err)
    (\<lambda>_ s'. m_DeferCount s' = n - (if err \<or> \<not> ok then 1 else 0)) (\<lambda>_. True) s"
proof -
  let ?I = "\<lambda>s. \<not> ajax s \<and> m_DeferCount s = n"
  have keeps: "runs_to m Q (\<lambda>_. True) s'" if "keeps ?I m" "\<not> ajax s'" "m_DeferCount s' = n"
      "\<And>a s''. \<not> ajax s'' \<Longrightarrow> m_DeferCount s'' = n \<Longrightarrow> Q a s''" for m Q s'
    using that by (blast intro: runs_to_mono [OF runs_to_keeps])
  show ?thesis
    unfolding finishShowingAdvertisingBuyAdSpaceD3faultCampaign0Widget_def finishShowing_error_def gui_out_def say_def resumeRendering_def
    using assms
    by (auto simp: run_rules split: option.splits
      intro!: keeps [OF resumes_once(1)] keeps [OF resumes_once(2)] keeps [OF resumes_once(3)])
qed

lemma nojs_show:
  assumes "\<not> ajax s"
  shows "runs_to (gui_handle E now (ShowCampaign u i)) (\<lambda>_ s'. \<not> ajax s' \<and> m_DeferCount s' = m_DeferCount s + 1
    \<and> fst (m_CurrentlySubscribedTo s') = SINGLESUBSCRIPTIONUPDATEFORNOJAVASCRIPTUSERSHACKPLXTHX) (\<lambda>_. True) s"
  using assms
  by (simp add: run_rules beginShowingAdvertisingBuyAdSpaceD3faultCampaign0Widget_def Let_def gui_ops
      doHackyOneTimeBuyEventUpdateThingoForNoJavascriptUser_def getAndSubscribeCouchbaseDocumentByKeySavingCas_def)

text \<open>
  Without JavaScript, showing a campaign defers rendering once, and the campaign document resumes it once; but when the document does
  not exist or the database fails, both the dispatcher and the error branch resume, so that the count ends one below where it was.
\<close>

lemma failed_campaign_resumes_twice:
  assumes "\<not> ajax s" and "gui_handle E now (ShowCampaign u i) s = Ret () s1"
    and "gui_handle E now (CampaignUpdate d c ok err) s1 = Ret () s2"
  shows "m_DeferCount s2 = m_DeferCount s - (if err \<or> \<not> ok then 1 else 0)"
proof -
  have s1: "\<not> ajax s1" "m_DeferCount s1 = m_DeferCount s + 1"
    "fst (m_CurrentlySubscribedTo s1) = SINGLESUBSCRIPTIONUPDATEFORNOJAVASCRIPTUSERSHACKPLXTHX"
    using runs_to_Ret [OF nojs_show [OF assms(1)] assms(2)] by simp_all
  then have "runs_to (gui_handle E now (CampaignUpdate d c ok err))
      (\<lambda>_ s'. m_DeferCount s' = m_DeferCount s - (if err \<or> \<not> ok then 1 else 0)) (\<lambda>_. True) s1"
    by (simp add: getAndSubscribeCouchbaseDocumentByKeySavingCas_UPDATE_def run_rules resumeRendering_def)
      (intro conjI impI; rule nojs_shown [THEN runs_to_mono]; simp)
  from runs_to_Ret [OF this assms(3)] show ?thesis .
qed

lemma failed_campaign_resumes_twice_witness:
  "\<exists>s1 s2. gui_handle visit_env 100 (ShowCampaign ''alice'' ''0'') (visit_session\<lparr>ajax := False\<rparr>) = Ret () s1
    \<and> gui_handle visit_env 100 (CampaignUpdate pt_empty 0 False True) s1 = Ret () s2 \<and> m_DeferCount s2 = -1"
proof -
  let ?s = "visit_session\<lparr>ajax := False\<rparr>"
  obtain s1 s2 where run: "gui_handle visit_env 100 (ShowCampaign ''alice'' ''0'') ?s = Ret () s1"
    "gui_handle visit_env 100 (CampaignUpdate pt_empty 0 False True) s1 = Ret () s2"
    by (simp add: visit_session_def beginShowingAdvertisingBuyAdSpaceD3faultCampaign0Widget_def go_ops
      doHackyOneTimeBuyEventUpdateThingoForNoJavascriptUser_def getAndSubscribeCouchbaseDocumentByKeySavingCas_def
      getAndSubscribeCouchbaseDocumentByKeySavingCas_UPDATE_def finishShowingAdvertisingBuyAdSpaceD3faultCampaign0Widget_def
      finishShowing_error_def)
  have "m_DeferCount ?s = 0" by (simp add: visit_session_def)
  then show ?thesis using run failed_campaign_resumes_twice [OF _ run] by simp
qed

subsection \<open>Registration and login\<close>

definition registered_doc :: "'j gui_env \<Rightarrow> string \<Rightarrow> string \<Rightarrow> string \<Rightarrow> string \<Rightarrow> ptree" where
  "registered_doc E u p a b = pt_put JSON_USER_ACCOUNT_BITCOIN_STATE JSON_USER_ACCOUNT_BITCOIN_STATE_NO_KEY
     (pt_put JSON_PROFILE_API_KEY (hexEncode E (u @ ''_'' @ b))
     (pt_put JSON_USER_ACCOUNT_PASSWORD_SALT (base64_sha1 E a)
     (pt_put JSON_USER_ACCOUNT_PASSWORD_HASH (base64_sha1 E (p @ base64_sha1 E a))
     (pt_put JSON_USER_ACCOUNT_BALANCE ''0'' pt_empty))))"

lemma registered_doc_json: "json_tree (registered_doc E u p a b)"
  by (simp add: registered_doc_def pt_put_def pt_empty_def)

lemma go_register:
  assumes "in_phase E Idle s" and "\<not> m_FirstPopulate s" and "letters_numbers_only u" and "letters_numbers_only p"
  shows "\<exists>s'. gui_go E now (ClickRegister u p a b) s = Some s' \<and> in_phase E Registering s' \<and> m_FirstPopulate s' = m_FirstPopulate s
    \<and> gui_outputs s' = [BeginAdd (userAccountKey u) (write_json (env_json E) (registered_doc E u p a b))] \<and> m_RegisterUsernameLineEdit s' = u"
  using assms by (simp add: go_ops handleRegisterButtonClicked_def in_phase_def in_session_def registered_doc_def)

lemma go_registered:
  assumes "in_phase E Registering s"
  shows "\<exists>s'. gui_go E now (AddDone True False) s = Some s' \<and> in_phase E Idle s' \<and> m_FirstPopulate s' = m_FirstPopulate s
    \<and> gui_outputs s' = [Say (Registered (m_RegisterUsernameLineEdit s))]"
  using assms by (simp add: go_ops storeWithoutInputCasCouchbaseDocumentByKeyFinished_def registerAttemptFinished_def in_phase_def in_session_def)

lemma go_ask_login:
  assumes "in_phase E Idle s" and "\<not> m_FirstPopulate s" and "letters_numbers_only u" and "letters_numbers_only p"
  shows "\<exists>s'. gui_go E now (ClickLogin u p) s = Some s' \<and> in_phase E (AwaitingLogin u) s' \<and> m_FirstPopulate s' = m_FirstPopulate s
    \<and> gui_outputs s' = [BeginGetSavingCas (userAccountKey u)] \<and> m_LoginPasswordLineEdit s' = p \<and> m_LoggedIn s' = m_LoggedIn s
    \<and> m_CurrentlyLoggedInUsername s' = m_CurrentlyLoggedInUsername s"
  using assms by (simp add: go_ops handleLoginButtonClicked_def in_phase_def in_session_def)

lemma zero_balance: "\<exists>x. satoshiStringToJsonString ''0'' = Some x"
  by (simp add: satoshiStringToJsonString_def satoshiStringToSatoshiInt_def lexical_cast_longlong_def read_range_def read_nat_def is_digit_def digit_value_def)

lemma go_login:
  assumes "in_phase E (AwaitingLogin u) s" and "read_json (env_json E) d = Some (registered_doc E u' p a b)"
  shows "\<exists>s'. gui_go E now (GotDocSavingCas d c True False) s = Some s' \<and> in_phase E Idle s'
    \<and> (if base64_sha1 E (m_LoginPasswordLineEdit s @ base64_sha1 E a) = base64_sha1 E (p @ base64_sha1 E a)
       then m_LoggedIn s' \<and> m_CurrentlyLoggedInUsername s' = u
       else m_LoggedIn s' = m_LoggedIn s \<and> m_CurrentlyLoggedInUsername s' = m_CurrentlyLoggedInUsername s \<and> gui_outputs s' = [Say LoginWrong])"
proof -
  obtain x where x: "satoshiStringToJsonString ''0'' = Some x" using zero_balance by blast
  have a: "ajax s" "gui_pending s = [PGetSavingCas]" using assms(1) by (auto simp: in_phase_def in_session_def)
  from assms a show ?thesis
    by (simp add: go_ops getCouchbaseDocumentByKeySavingCasFinished_def loginIfInputHashedEqualsDbInfo_def in_phase_def x
      registered_doc_def doLoginTasks_def usernameOrPasswordYouProvidedIsIncorrect_def getAndSubscribeCouchbaseDocumentByKeySavingCas_def
      pt_get_default_def)
qed

text \<open>
  C38. Registration and login fit together: on an idle page, registering a valid name and password adds one account document under the
  name; a later login under this name with any valid password, that reads this document back, logs in as this user if the hash of the typed password
  with the document's salt is the stored hash - in particular with the registered password - and otherwise says that the name or the password is
  wrong, stores nothing and leaves as it was who is logged in.
\<close>

theorem registered_user_logs_in:
  assumes "in_phase E Idle s" and "\<not> m_FirstPopulate s" and "letters_numbers_only u" and "letters_numbers_only p" and "letters_numbers_only p'"
    and "json_ok (env_json E)"
  shows "\<exists>h1 s1 h2 s2 doc. gui_run E now s [ClickRegister u p a b, AddDone True False] = Some (h1, s1)
    \<and> outputs_of h1 = [BeginAdd (userAccountKey u) doc, Say (Registered u)]
    \<and> gui_run E now s1 [ClickLogin u p', GotDocSavingCas doc c True False] = Some (h2, s2) \<and> in_phase E Idle s2
    \<and> (p' = p \<longrightarrow> m_LoggedIn s2 \<and> m_CurrentlyLoggedInUsername s2 = u)
    \<and> (if base64_sha1 E (p' @ base64_sha1 E a) = base64_sha1 E (p @ base64_sha1 E a)
         then m_LoggedIn s2 \<and> m_CurrentlyLoggedInUsername s2 = u
         else m_LoggedIn s2 = m_LoggedIn s1 \<and> m_CurrentlyLoggedInUsername s2 = m_CurrentlyLoggedInUsername s1
           \<and> outputs_of h2 = [BeginGetSavingCas (userAccountKey u), Say LoginWrong])"
proof -
  let ?doc = "write_json (env_json E) (registered_doc E u p a b)"
  have doc: "read_json (env_json E) ?doc = Some (registered_doc E u p a b)"
    using assms(6) registered_doc_json [of E u p a b] by (simp add: json_ok_def)
  obtain t1 where t1: "gui_go E now (ClickRegister u p a b) s = Some t1" "in_phase E Registering t1" "\<not> m_FirstPopulate t1"
    "gui_outputs t1 = [BeginAdd (userAccountKey u) ?doc]" "m_RegisterUsernameLineEdit t1 = u"
    using go_register [OF assms(1-4), of now a b] assms(2) by auto
  obtain s1 where s1: "gui_go E now (AddDone True False) t1 = Some s1" "in_phase E Idle s1" "\<not> m_FirstPopulate s1"
    "gui_outputs s1 = [Say (Registered u)]"
    using go_registered [OF t1(2), of now] t1(3,5) by auto
  obtain t2 where t2: "gui_go E now (ClickLogin u p') s1 = Some t2" "in_phase E (AwaitingLogin u) t2" "m_LoginPasswordLineEdit t2 = p'"
    "gui_outputs t2 = [BeginGetSavingCas (userAccountKey u)]" "m_LoggedIn t2 = m_LoggedIn s1" "m_CurrentlyLoggedInUsername t2 = m_CurrentlyLoggedInUsername s1"
    using go_ask_login [OF s1(2,3) assms(3,5), of now] by auto
  obtain s2 where "gui_go E now (GotDocSavingCas ?doc c True False) t2 = Some s2" "in_phase E Idle s2"
    "if base64_sha1 E (p' @ base64_sha1 E a) = base64_sha1 E (p @ base64_sha1 E a)
       then m_LoggedIn s2 \<and> m_CurrentlyLoggedInUsername s2 = u
       else m_LoggedIn s2 = m_LoggedIn s1 \<and> m_CurrentlyLoggedInUsername s2 = m_CurrentlyLoggedInUsername s1 \<and> gui_outputs s2 = [Say LoginWrong]"
    using go_login [OF t2(2) doc, of now c] unfolding t2 by auto
  then show ?thesis using t1 s1 t2(1,4) by (intro exI [of _ ?doc] exI conjI) (auto split: if_splits)
qed

theorem registered_user_logs_in_witness:
  "\<exists>h1 s1 h2 s2 doc. gui_run visit_env 100 visit_session [ClickRegister ''bob'' ''pw'' ''a'' ''b'', AddDone True False] = Some (h1, s1)
    \<and> gui_run visit_env 100 s1 [ClickLogin ''bob'' ''pw'', GotDocSavingCas doc 5 True False] = Some (h2, s2)
    \<and> m_LoggedIn s2 \<and> m_CurrentlyLoggedInUsername s2 = ''bob''"
proof -
  have "in_phase visit_env Idle visit_session" "\<not> m_FirstPopulate visit_session"
    by (simp_all add: visit_session_def in_phase_def in_session_def)
  with registered_user_logs_in [of visit_env visit_session "''bob''" "''pw''" "''pw''" 100 "''a''" "''b''" 5] show ?thesis
    using tree_json_ok by fastforce
qed

subsection \<open>A refused purchase\<close>

lemma go_refused:
  assumes "in_phase E (CheckingSlot P) s" and "quoted E now s = Some (p, start)" "0 \<le> p" "b < p"
    and "pt_get JSON_USER_ACCOUNT_BALANCE (p_tree P) = Some bs" "satoshiStringToSatoshiInt bs = Some b"
  shows "\<exists>s'. gui_go E now (GotDoc x False False) s = Some s' \<and> in_phase E Idle s'
    \<and> gui_outputs s' = [Say InsufficientFunds] \<and> same_page s s' \<and> m_BuyInProgress s' = m_BuyInProgress s"
proof -
  let ?s = "s\<lparr>gui_outputs := [], gui_pending := [], m_DeferCount := m_DeferCount s - 1\<rparr>"
  have "same_page s ?s" by (simp add: same_page_def)
  from determine_price_quoted(1) [of E now ?s p start] same_page_quote [OF this] assms(2)
  have "determine_price E (seconds now) ?s = Ret p (if starts_after_last E now s
    then ?s\<lparr>m_LastSlotFilledAkaPurchasedExpireDateTime_ToBeUsedAsStartDateTime := start, m_LastSlotPurchasesIsExpired := False\<rparr> else ?s)"
    by simp
  then show ?thesis using assms
    by (auto simp: go_ops getCouchbaseDocumentByKeyFinished_def in_phase_def in_session_def same_page_def buy_facts
        ensureSlotDoesntExistThenContinueWithLockingUserAccount_def)
qed

lemma go_click_in_progress:
  assumes "in_phase E Idle s" "\<not> m_FirstPopulate s" "m_BuyInProgress s"
    and "m_SlotIndexImmediatelyAfterBuyStep1wasPressed s = m_LastSlotFilledAkaPurchasedSlotIndex s"
    and "0 \<le> k" "k < m_AllSlotFillersAdsCount s" "list_at (m_AllSlotFillersComboBox s) k = Some nickname"
      "dimensions_match nickname (m_CurrentAdCampaignImageWidth s) (m_CurrentAdCampaignImageHeight s)"
  shows "gui_go E now (ClickStep2 k) s = Some (s\<lparr>gui_outputs := []\<rparr>)"
  using assms by (simp add: go_ops buySlotStep2d3faultCampaign0ButtonClicked_def in_phase_def in_session_def)

text \<open>
  C40. A purchase refused for insufficient funds is not rolled back: on a page that may order, with an unlocked account whose balance is below the
  quoted price and a free slot, the session says so and is idle again, but step 1, which the browser disabled at its click, is not enabled again, and the
  purchase stays in progress: a further click on step 2 changes nothing and tells nothing.
\<close>

theorem refused_purchase_blocks_the_page:
  assumes "may_order E s k nickname" and "read_json (env_json E) d = Some t" "\<not> profileIsLocked t"
    and "Option.bind (pt_get JSON_USER_ACCOUNT_BALANCE t) satoshiStringToSatoshiInt = Some b"
    and "slot_to_buy s = Some i" and "quoted E now s = Some q" "0 \<le> fst q" "b < fst q"
  shows "\<exists>h s'. gui_run E now s [ClickStep2 k, GotDocSavingCas d c True False, GotDoc x False False] = Some (h, s') \<and> in_phase E Idle s'
    \<and> last (outputs_of h) = Say InsufficientFunds \<and> EnableStep1 \<notin> set (outputs_of h)
    \<and> gui_run E now s' [ClickStep2 k] = Some ([Input (ClickStep2 k)], s'\<lparr>gui_outputs := []\<rparr>)"
proof -
  obtain p start where q: "q = (p, start)" by (cases q)
  let ?P = "\<lambda>s1. purchase_by s1 k d t c x b i q [] 0\<lparr>p_filler := m_SlotFillerToUseInBuy s1\<rparr>"
  obtain s1 where s1: "gui_go E now (ClickStep2 k) s = Some s1" "in_phase E (AwaitingProfile (m_CurrentlyLoggedInUsername s)) s1"
     "gui_outputs s1 = [Say (AttemptingToBuy nickname), BeginGetSavingCas (userAccountKey (m_CurrentlyLoggedInUsername s))]"
     "same_page s s1" "m_SlotIndexImmediatelyAfterBuyStep1wasPressed s1 = m_LastSlotFilledAkaPurchasedSlotIndex s1" "m_BuyInProgress s1"
    using go_click [of E s k nickname now] assms(1) unfolding may_order_def by blast
  have i: "slot_to_buy s1 = Some i" using assms(5) same_page_quote(2) [OF s1(4)] by simp
  obtain s2 where s2: "gui_go E now (GotDocSavingCas d c True False) s1 = Some s2" "in_phase E (CheckingSlot (?P s1)) s2"
     "gui_outputs s2 = [BeginGet (adSpaceCampaignSlotKey (m_CampaignOwnerForPageBeingViewed s1) (m_CampaignIndexForPageBeingViewed s1) i)]"
     "same_page s1 s2" "m_BuyInProgress s2"
    using go_profile [OF s1(2,5) assms(2,3) i, of now c k x b q "[]" 0] s1(6) by auto
  have quote: "quoted E now s2 = Some (p, start)"
    using assms(6) same_page_quote(1) [OF s1(4)] same_page_quote(1) [OF s2(4)] q by simp
  obtain bs where bs: "pt_get JSON_USER_ACCOUNT_BALANCE (p_tree (?P s1)) = Some bs" "satoshiStringToSatoshiInt bs = Some b"
    using assms(4) by (auto simp: purchase_by_def elim!: bind_SomeE)
  obtain s3 where s3: "gui_go E now (GotDoc x False False) s2 = Some s3" "in_phase E Idle s3" "gui_outputs s3 = [Say InsufficientFunds]"
     "same_page s2 s3" "m_BuyInProgress s3"
    using go_refused [OF s2(2) quote _ _ bs, of x] assms(7,8) s2(5) q by auto
  have "same_page s s3" using s1(4) s2(4) s3(4) by (simp add: same_page_def)
  then have "gui_go E now (ClickStep2 k) s3 = Some (s3\<lparr>gui_outputs := []\<rparr>)"
    using go_click_in_progress [of E s3 k nickname now] assms(1) s3(2,5) unfolding same_page_def may_order_def by metis
  then show ?thesis using s3(2) by (simp add: s1(1,3) s2(1,3) s3(1,3))
qed

theorem refused_purchase_blocks_the_page_witness:
  "\<exists>d h s'. gui_run visit_env 100 visit_page [ClickStep2 0, GotDocSavingCas d 9 True False, GotDoc pt_empty False False] = Some (h, s')
    \<and> gui_run visit_env 100 s' [ClickStep2 0] = Some ([Input (ClickStep2 0)], s'\<lparr>gui_outputs := []\<rparr>)"
proof -
  let ?d = "plain_doc [(JSON_USER_ACCOUNT_BALANCE, ''1'')]"
  have "\<not> profileIsLocked ?d" "Option.bind (pt_get JSON_USER_ACCOUNT_BALANCE ?d) satoshiStringToSatoshiInt = Some 1"
    by (simp_all add: profileIsLocked_def pt_get_default_def satoshiStringToSatoshiInt_def lexical_cast_longlong_def read_range_def
      read_nat_def is_digit_def digit_value_def)
  with refused_purchase_blocks_the_page [OF visit_may(1) _ _ _ visit_may(3,4), of ?d ?d 1 9 pt_empty] show ?thesis by auto
qed

end
