(* ===== verification/BuyRecovery.thy ===== *)
theory BuyRecovery
  imports BuySlotRuns Monitor
begin

section \<open>A purchase that a session left unfinished, and the monitor\<close>

text \<open>
  The composition of the web session with the pessimistic state monitor: both programs write documents that the other reads. When a session
  dies after the slot was filled, the monitor writes the documents that the session would have written.
\<close>

definition slot_tree :: "'j purchase \<Rightarrow> ptree" where
  "slot_tree P = pt_put JSON_AD_SPACE_CAMPAIGN_SLOT_FILLED_WITH (p_filler P) (pt_put JSON_SLOT_PURCHASE_PRICE (show_int (p_price P))
     (pt_put JSON_SLOT_START_TIMESTAMP (p_start P) (pt_put JSON_SLOT_PURCHASE_TIMESTAMP (p_bought P) pt_empty)))"

definition locked_tree :: "'j purchase \<Rightarrow> ptree" where
  "locked_tree P = pt_put JSON_USER_ACCOUNT_SLOT_TO_ATTEMPT_TO_FILL_IT_WITH (p_filler P)
     (pt_put JSON_USER_ACCOUNT_SLOT_ATTEMPTING_TO_FILL (p_slot_key P) (p_tree P))"

definition debited_tree :: "'j purchase \<Rightarrow> ptree" where
  "debited_tree P = pt_put JSON_USER_ACCOUNT_BALANCE (show_int (wrap64 (p_balance P - p_price P))) (p_tree P)"

lemma session_docs:
  "slot_doc E P = write_json (env_json E) (slot_tree P)" "locked_doc E P = write_json (env_json E) (locked_tree P)"
  "debited_doc E P = write_json (env_json E) (debited_tree P)"
  by (simp_all add: slot_doc_def slot_tree_def locked_doc_def locked_tree_def debited_doc_def debited_tree_def)

lemma slot_tree_json: "json_tree (slot_tree P)"
  by (simp add: slot_tree_def pt_put_def pt_empty_def)

lemma same_campaign_document: "p_slot P = show_int i \<Longrightarrow>
    write_json (env_json E) (refilled_campaign t (show_int (p_price P)) (p_start P) (p_bought P) i) = sold_doc E P t"
  by (simp add: refilled_campaign_def sold_doc_def)

text \<open>
  C19. In campaign 0 of the operator d3fault, the only campaign whose keys the monitor is written for, the monitor finishes the purchase
  that a session left after filling the slot (purchases in any other campaign are never audited). Over the documents of that point - the campaign still at the slot
  before, the slot and the locked account as the session wrote them, no transaction - the monitor's audit stores the very transaction document and
  the very campaign document that the session would have stored, and an account document that differs from the session's debited one at most in the two purchase
  fields, which it removes; the account and the campaign are stored under the CAS values that the monitor read.
\<close>

theorem monitor_finishes_what_a_session_left:
  assumes "json_ok (env_json E)" and "m_CouchbaseCreated s" and "affordable P"
    and "p_owner P = ''d3fault''" "p_campaign P = ''0''" "p_slot P = show_int (i + 1)" "i < 2 ^ 31 - 1"
    and "read_json (env_json E) d1 = Some campaign" and "campaign_index campaign = Some i"
    and "read_json (env_json E) d5 = Some filler" and "pt_get JSON_SLOT_FILLER_USERNAME filler = Some (p_user P)"
    and "json_tree (locked_tree P)"
    and "cluster_replies s = [Answer LCB_SUCCESS d1 c1, Answer LCB_SUCCESS (slot_doc E P) c2, Answer LCB_SUCCESS d1 c3,
        Answer LCB_KEY_ENOENT d4 c4, Answer LCB_SUCCESS d5 c5, Answer LCB_SUCCESS (locked_doc E P) c6,
        Answer LCB_SUCCESS d7 c7, Answer LCB_SUCCESS d8 c8, Answer LCB_SUCCESS d9 c9] @ rs"
  shows "\<exists>s' es account'. audit (env_json E) s = Ret Continue s' \<and> effects s' = effects s @ es
    \<and> filter is_store es =
      [DidStore (transactionKey (p_owner P) (p_campaign P) (p_slot P)) (tx_doc E P) LCB_ADD 0 (Answer LCB_SUCCESS d7 c7),
       DidStore (userAccountKey (p_user P)) (write_json (env_json E) account') LCB_SET c6 (Answer LCB_SUCCESS d8 c8),
       DidStore (adSpaceCampaignKey (p_owner P) (p_campaign P)) (sold_doc E P campaign) LCB_SET c3 (Answer LCB_SUCCESS d9 c9)]
    \<and> (\<forall>k. pt_get k account' =
        (if k \<in> {JSON_USER_ACCOUNT_SLOT_ATTEMPTING_TO_FILL, JSON_USER_ACCOUNT_SLOT_TO_ATTEMPT_TO_FILL_IT_WITH} then None
         else pt_get k (debited_tree P)))"
proof -
  let ?J = "env_json E" and ?price = "show_int (p_price P)"
  let ?account = "debitted_and_unlocked (p_balance P - p_price P) (locked_tree P)"
  have docs: "read_json ?J (slot_doc E P) = Some (slot_tree P)" "read_json ?J (locked_doc E P) = Some (locked_tree P)"
    using assms(1,12) slot_tree_json [of P] by (simp_all add: json_ok_def session_docs)
  obtain bs where bs: "pt_get JSON_USER_ACCOUNT_BALANCE (p_tree P) = Some bs" "lexical_cast_longlong bs = Some (p_balance P)"
    and p: "0 \<le> p_price P" "p_price P \<le> p_balance P"
    using assms(3) by (auto simp: affordable_def satoshiStringToSatoshiInt_def elim!: bind_SomeE)
  have range: "p_balance P < 2 ^ 63" using lexical_cast_longlong_range [OF bs(2)] by simp
  then have price: "lexical_cast_longlong ?price = Some (p_price P)" using p by (simp add: lexical_cast_longlong_show_int)
  have slot: "pt_get JSON_AD_SPACE_CAMPAIGN_SLOT_FILLED_WITH (slot_tree P) = Some (p_filler P)"
    "pt_get JSON_SLOT_PURCHASE_PRICE (slot_tree P) = Some ?price" "pt_get JSON_SLOT_PURCHASE_TIMESTAMP (slot_tree P) = Some (p_bought P)"
    "pt_get JSON_SLOT_START_TIMESTAMP (slot_tree P) = Some (p_start P)"
    by (simp_all add: slot_tree_def)
  have account: "pt_get JSON_USER_ACCOUNT_SLOT_ATTEMPTING_TO_FILL (locked_tree P) = Some (slot_key (i + 1))"
    "Option.bind (pt_get JSON_USER_ACCOUNT_BALANCE (locked_tree P)) lexical_cast_longlong = Some (p_balance P)"
    using bs by (simp_all add: locked_tree_def p_slot_key_def slot_key_def assms(4-6))
  have "0 \<le> p_balance P" using p by simp
  from audit_completes(1) [OF assms(2,13,8,9,7) docs(1) assms(8) slot(1,2) price slot(3,4) assms(10,11) docs(2) account this p(1)]
  obtain s' where "audit ?J s = Ret Continue s'" "effects s' = effects s @
    [DidGet (adSpaceCampaignKey ''d3fault'' ''0'') (Answer LCB_SUCCESS d1 c1), DidGet (slot_key (i + 1)) (Answer LCB_SUCCESS (slot_doc E P) c2),
     DidGet (adSpaceCampaignKey ''d3fault'' ''0'') (Answer LCB_SUCCESS d1 c3), DidGet (tx_key (i + 1)) (Answer LCB_KEY_ENOENT d4 c4),
     DidGet (p_filler P) (Answer LCB_SUCCESS d5 c5), DidGet (userAccountKey (p_user P)) (Answer LCB_SUCCESS (locked_doc E P) c6),
     DidStore (tx_key (i + 1)) (write_json ?J (createTransactionDoc pt_empty ''d3fault'' (p_user P) ?price)) LCB_ADD 0 (Answer LCB_SUCCESS d7 c7),
     DidStore (userAccountKey (p_user P)) (write_json ?J ?account) LCB_SET c6 (Answer LCB_SUCCESS d8 c8),
     DidStore (adSpaceCampaignKey ''d3fault'' ''0'') (write_json ?J (refilled_campaign campaign ?price (p_start P) (p_bought P) (i + 1))) LCB_SET c3
       (Answer LCB_SUCCESS d9 c9)]" by blast
  moreover have "pt_get k ?account = (if k \<in> {JSON_USER_ACCOUNT_SLOT_ATTEMPTING_TO_FILL, JSON_USER_ACCOUNT_SLOT_TO_ATTEMPT_TO_FILL_IT_WITH} then None
      else pt_get k (debited_tree P))" for k
    using p range by (simp add: debitted_and_unlocked_def locked_tree_def debited_tree_def)
  ultimately show ?thesis
    by (intro exI conjI) (assumption, assumption, auto simp: same_campaign_document tx_doc_def tx_key_def assms(4-6))
qed

definition left_purchase :: "ptree purchase" where
  "left_purchase = \<lparr>p_user = ''bob'', p_owner = ''d3fault'', p_campaign = ''0'', p_slot = show_int 5, p_filler = ''filler'', p_profile = visit_buyer,
     p_tree = visit_buyer, p_cas = 9, p_probe = pt_empty, p_balance = 5000, p_price = 1000, p_bought = ''100'', p_start = ''100'', p_locked_cas = 11\<rparr>"

theorem monitor_finishes_what_a_session_left_witness:
  "\<exists>s' es account'. audit tree_json (connected_client pt_empty [Answer LCB_SUCCESS (demo_campaign ''4'') 1,
      Answer LCB_SUCCESS (slot_doc visit_env left_purchase) 2, Answer LCB_SUCCESS (demo_campaign ''4'') 3, Answer LCB_KEY_ENOENT pt_empty 0,
      Answer LCB_SUCCESS (plain_doc [(JSON_SLOT_FILLER_USERNAME, ''bob'')]) 5, Answer LCB_SUCCESS (locked_doc visit_env left_purchase) 6,
      Answer LCB_SUCCESS pt_empty 7, Answer LCB_SUCCESS pt_empty 8, Answer LCB_SUCCESS pt_empty 9]) = Ret Continue s'
    \<and> effects s' = es \<and> DidStore (userAccountKey ''bob'') account' LCB_SET 6 (Answer LCB_SUCCESS pt_empty 8) \<in> set es
    \<and> pt_get JSON_USER_ACCOUNT_BALANCE account' = Some (show_int 4000)"
proof -
  let ?s = "connected_client pt_empty [Answer LCB_SUCCESS (demo_campaign ''4'') 1,
      Answer LCB_SUCCESS (slot_doc visit_env left_purchase) 2, Answer LCB_SUCCESS (demo_campaign ''4'') 3, Answer LCB_KEY_ENOENT pt_empty 0,
      Answer LCB_SUCCESS (plain_doc [(JSON_SLOT_FILLER_USERNAME, ''bob'')]) 5, Answer LCB_SUCCESS (locked_doc visit_env left_purchase) 6,
      Answer LCB_SUCCESS pt_empty 7, Answer LCB_SUCCESS pt_empty 8, Answer LCB_SUCCESS pt_empty 9]"
  have P: "affordable left_purchase" "json_tree (locked_tree left_purchase)"
    by (simp_all add: left_purchase_def affordable_def visit_buyer_def locked_tree_def pt_put_def plain_doc_def pt_get_def pt_get_child_optional_def)
  have t: "pt_get JSON_USER_ACCOUNT_BALANCE (debited_tree left_purchase) = Some (show_int 4000)"
    by (simp add: left_purchase_def debited_tree_def)
  have "json_ok (env_json visit_env)" using tree_json_ok by simp
  from monitor_finishes_what_a_session_left [OF this _ P(1) _ _ _ _ _ _ _ _ P(2), of ?s 4 "demo_campaign ''4''" "demo_campaign ''4''"
      "plain_doc [(JSON_SLOT_FILLER_USERNAME, ''bob'')]" "plain_doc [(JSON_SLOT_FILLER_USERNAME, ''bob'')]" 1 2 3 pt_empty 0 5 6 pt_empty 7 pt_empty 8 pt_empty 9 "[]"]
  obtain s' es account' where run: "audit tree_json ?s = Ret Continue s'" "effects s' = effects ?s @ es"
    "filter is_store es =
      [DidStore (transactionKey ''d3fault'' ''0'' (show_int 5)) (tx_doc visit_env left_purchase) LCB_ADD 0 (Answer LCB_SUCCESS pt_empty 7),
       DidStore (userAccountKey ''bob'') account' LCB_SET 6 (Answer LCB_SUCCESS pt_empty 8),
       DidStore (adSpaceCampaignKey ''d3fault'' ''0'') (sold_doc visit_env left_purchase (demo_campaign ''4'')) LCB_SET 3 (Answer LCB_SUCCESS pt_empty 9)]"
    "pt_get JSON_USER_ACCOUNT_BALANCE account' = Some (show_int 4000)"
    by (auto simp: left_purchase_def t [unfolded left_purchase_def] demo_campaign_index)
  have "DidStore (userAccountKey ''bob'') account' LCB_SET 6 (Answer LCB_SUCCESS pt_empty 8) \<in> set (filter is_store es)"
    unfolding run(3) by simp
  then have "DidStore (userAccountKey ''bob'') account' LCB_SET 6 (Answer LCB_SUCCESS pt_empty 8) \<in> set (effects s')"
    using run(2) by simp
  then show ?thesis using run(1,4) by blast
qed

end
