(* ===== verification/CasDatabase.thy ===== *)
theory CasDatabase
  imports PropertyTree KeysAndDocs Couchbase
begin

section \<open>A database of documents under CAS, and books of claims\<close>

text \<open>
  What the code relies on when several sessions work on the same documents: a document's CAS changes with every store, so a store under a
  CAS succeeds only on the version that was read. The database keeps, for each key, the versions of its document, the newest first.

  A book is a document with numbered entries, each of which can be claimed by writing a name into a field of its own. Key set pages and
  pages of the huge key list are books. The locale \<open>claim_book\<close> states what the field names of a book must satisfy; its lemmas show that
  claiming an unclaimed entry under CAS never changes an entry or an earlier claim.
\<close>

subsection \<open>Versions of a document\<close>

type_synonym 'j db = "string \<Rightarrow> ('j \<times> cas) list"

definition current :: "'j db \<Rightarrow> string \<Rightarrow> ('j \<times> cas) option" where
  "current db k = (case db k of [] \<Rightarrow> None | v # _ \<Rightarrow> Some v)"

definition new_version :: "string \<Rightarrow> 'j \<Rightarrow> cas \<Rightarrow> 'j db \<Rightarrow> 'j db" where
  "new_version k d c db = db(k := (d, c) # db k)"

definition fresh_cas :: "'j db \<Rightarrow> string \<Rightarrow> cas \<Rightarrow> bool" where
  "fresh_cas db k c \<longleftrightarrow> c \<noteq> 0 \<and> c \<notin> snd ` set (db k)"

text \<open>A store under the CAS \<open>0\<close> is unconditional; no version has that CAS.\<close>

definition swap_allowed :: "'j db \<Rightarrow> string \<Rightarrow> cas \<Rightarrow> bool" where
  "swap_allowed db k c \<longleftrightarrow> db k \<noteq> [] \<and> (c = 0 \<or> snd (hd (db k)) = c)"

definition versions_ok :: "'j db \<Rightarrow> bool" where
  "versions_ok db \<longleftrightarrow> (\<forall>k. distinct (map snd (db k)) \<and> 0 \<notin> snd ` set (db k))"

definition db_grows :: "'j db \<Rightarrow> 'j db \<Rightarrow> bool" where
  "db_grows db db' \<longleftrightarrow> (\<forall>k. \<exists>vs. db' k = vs @ db k)"

lemma db_grows_refl [simp]: "db_grows db db"
  by (simp add: db_grows_def)

lemma db_grows_trans: "db_grows a b \<Longrightarrow> db_grows b c \<Longrightarrow> db_grows a c"
  unfolding db_grows_def by (metis append_assoc)

lemma db_grows_new_version [simp]: "db_grows db (new_version k d c db)"
  by (simp add: db_grows_def new_version_def)

lemma db_grows_version: "db_grows db db' \<Longrightarrow> v \<in> set (db k) \<Longrightarrow> v \<in> set (db' k)"
  unfolding db_grows_def by (metis Un_iff set_append)

lemma versions_ok_new [simp]: "versions_ok db \<Longrightarrow> fresh_cas db k c \<Longrightarrow> versions_ok (new_version k d c db)"
  by (auto simp: versions_ok_def new_version_def fresh_cas_def)

text \<open>A store under the CAS of a version that was read succeeds only while that version is the current one.\<close>

lemma swap_of_read_version:
  assumes "versions_ok db" "(d, c) \<in> set (db k)" "swap_allowed db k c"
  shows "\<exists>vs. db k = (d, c) # vs"
proof -
  from assms(1,2) have "c \<noteq> 0" by (force simp: versions_ok_def)
  with assms(3) obtain d' vs where db: "db k = (d', c) # vs"
    by (cases "db k") (auto simp: swap_allowed_def)
  moreover from assms(1) have "distinct (map snd (db k))" by (simp add: versions_ok_def)
  ultimately have "d' = d" using assms(2) by force
  with db show ?thesis by simp
qed

lemma current_new [simp]:
  "current (new_version k d c db) k' = (if k' = k then Some (d, c) else current db k')"
  by (simp add: current_def new_version_def)

lemma swap_current [simp]: "current db k = Some (d, c) \<Longrightarrow> swap_allowed db k c"
  by (auto simp: current_def swap_allowed_def split: list.splits)

lemma new_version_other [simp]: "k' \<noteq> k \<Longrightarrow> new_version k d c db k' = db k'"
  by (simp add: new_version_def)

lemma current_none: "current db k = None \<longleftrightarrow> db k = []"
  by (simp add: current_def split: list.splits)

lemma some_version: "current db k = Some v \<Longrightarrow> db k \<noteq> []"
  by (auto simp: current_def)

text \<open>The CAS of a version is its number: fresh as long as there are less than \<open>2 ^ 64\<close> versions.\<close>

definition next_cas :: "'j db \<Rightarrow> string \<Rightarrow> cas" where
  "next_cas db k = of_nat (Suc (length (db k)))"

definition numbered :: "nat \<Rightarrow> 'j db \<Rightarrow> bool" where
  "numbered n db \<longleftrightarrow> (\<forall>k. length (db k) \<le> n \<and> snd ` set (db k) \<subseteq> of_nat ` {1..length (db k)})"

lemma numbered_fresh:
  assumes "numbered n db" "Suc n < 2 ^ 64"
  shows "fresh_cas db k (next_cas db k)"
proof -
  have "length (db k) \<le> n" using assms(1) by (simp add: numbered_def)
  with assms(2) have l: "Suc (length (db k)) < 2 ^ 64" by linarith
  have "(of_nat m :: cas) \<noteq> of_nat (Suc (length (db k)))" if "m \<le> length (db k)" for m
    using that l by (subst word_of_nat_eq_iff) (simp add: take_bit_nat_eq_self)
  moreover have "(of_nat (Suc (length (db k))) :: cas) \<noteq> 0" using l by (subst word_of_nat_eq_0_iff) (auto dest!: dvd_imp_le)
  ultimately show ?thesis using assms(1) by (force simp: fresh_cas_def next_cas_def numbered_def)
qed

lemma numbered_new: "numbered n db \<Longrightarrow> numbered (Suc n) (new_version k d (next_cas db k) db)"
  by (auto simp: numbered_def new_version_def next_cas_def atLeastAtMostSuc_conv le_SucI)

lemma numbered_Suc: "numbered n db \<Longrightarrow> numbered (Suc n) db"
  by (auto simp: numbered_def le_SucI)

subsection \<open>Flat documents\<close>

definition flat :: "ptree \<Rightarrow> bool" where
  "flat t \<longleftrightarrow> pt_data t = [] \<and> (\<forall>kid \<in> set (pt_kids t). pt_kids (snd kid) = [])"

lemma flat_empty [simp]: "flat pt_empty"
  by (simp add: flat_def pt_empty_def)

lemma flat_put_kid:
  assumes "\<And>old. (\<forall>c. old = Some c \<longrightarrow> pt_kids c = []) \<Longrightarrow> pt_kids (f old) = []"
    and "\<forall>kid \<in> set kids. pt_kids (snd kid) = []"
  shows "\<forall>kid \<in> set (put_kid k f kids). pt_kids (snd kid) = []"
  using assms(2)
proof (induction kids)
  case Nil
  show ?case using assms(1) [of None] by simp
next
  case (Cons a kids)
  then show ?case using assms(1) [of "Some (snd a)"] by (cases a) (simp add: Ball_def)
qed

lemma flat_put [simp]: "flat t \<Longrightarrow> flat (pt_put k v t)"
  unfolding flat_def pt_put_def by (simp, rule flat_put_kid) (auto split: option.splits)

lemma json_tree_flat: "flat t \<Longrightarrow> json_tree t"
proof (cases t)
  case (Node d kids)
  assume f: "flat t"
  have "json_tree c" if "(k, c) \<in> set kids" for k c
    using f that Node by (cases c) (force simp: flat_def)
  with f Node show ?thesis by (auto simp: flat_def list_all_iff)
qed

lemma read_flat [simp]: "json_ok J \<Longrightarrow> flat t \<Longrightarrow> read_json J (write_json J t) = Some t"
  by (simp add: json_ok_def json_tree_flat)

subsection \<open>Books\<close>

definition claimant :: "(nat \<Rightarrow> string) \<Rightarrow> nat \<Rightarrow> ptree \<Rightarrow> string option" where
  "claimant owner i t = (let u = pt_get_default (owner i) ''n'' t in if u = ''n'' then None else Some u)"

text \<open>\<open>t'\<close> has the entries of \<open>t\<close> and all its claims.\<close>

definition keeps_claims :: "(nat \<Rightarrow> string) \<Rightarrow> (nat \<Rightarrow> string) \<Rightarrow> ptree \<Rightarrow> ptree \<Rightarrow> bool" where
  "keeps_claims entry owner t t' \<longleftrightarrow> (\<forall>i. pt_get (entry i) t' = pt_get (entry i) t
     \<and> (\<forall>u. claimant owner i t = Some u \<longrightarrow> claimant owner i t' = Some u))"

lemma keeps_claims_refl [simp]: "keeps_claims entry owner t t"
  by (simp add: keeps_claims_def)

lemma keeps_claims_trans: "keeps_claims e o' a b \<Longrightarrow> keeps_claims e o' b c \<Longrightarrow> keeps_claims e o' a c"
  by (simp add: keeps_claims_def)

text \<open>The versions of a book: each one keeps the claims of all before it.\<close>

definition version_follows :: "'j json \<Rightarrow> (nat \<Rightarrow> string) \<Rightarrow> (nat \<Rightarrow> string) \<Rightarrow> 'j \<Rightarrow> 'j \<Rightarrow> bool" where
  "version_follows J entry owner new old \<longleftrightarrow>
     (\<exists>t t'. read_json J old = Some t \<and> read_json J new = Some t' \<and> keeps_claims entry owner t t')"

definition book_versions :: "'j json \<Rightarrow> (nat \<Rightarrow> string) \<Rightarrow> (nat \<Rightarrow> string) \<Rightarrow> ('j \<times> cas) list \<Rightarrow> bool" where
  "book_versions J entry owner vs \<longleftrightarrow> (\<forall>v \<in> set vs. \<exists>t. flat t \<and> fst v = write_json J t)
     \<and> sorted_wrt (\<lambda>new old. version_follows J entry owner (fst new) (fst old)) vs"

text \<open>The current version shows entry \<open>i\<close> with text \<open>x\<close>, claimed by \<open>u\<close>.\<close>

definition shows_claim :: "'j json \<Rightarrow> (nat \<Rightarrow> string) \<Rightarrow> (nat \<Rightarrow> string) \<Rightarrow> ('j \<times> cas) list \<Rightarrow> nat \<Rightarrow> string \<Rightarrow> string \<Rightarrow> bool" where
  "shows_claim J entry owner vs i u x \<longleftrightarrow> (\<exists>t c vs'. flat t \<and> vs = (write_json J t, c) # vs' \<and> claimant owner i t = Some u
     \<and> pt_get (entry i) t = Some x)"

lemma claim_unique:
  "json_ok J \<Longrightarrow> shows_claim J e o' vs i u x \<Longrightarrow> shows_claim J e o' vs i u' x' \<Longrightarrow> u = u' \<and> x = x'"
proof -
  assume J: "json_ok J" and a: "shows_claim J e o' vs i u x" "shows_claim J e o' vs i u' x'"
  from a obtain t t' where "flat t" "flat t'" "write_json J t = write_json J t'"
    and t: "claimant o' i t = Some u" "pt_get (e i) t = Some x" "claimant o' i t' = Some u'" "pt_get (e i) t' = Some x'"
    unfolding shows_claim_def by auto
  then have "t = t'" using J by (metis option.inject read_flat)
  with t show ?thesis by simp
qed

lemma book_versions_head:
  assumes J: "json_ok J" and b: "book_versions J e o' ((write_json J t', c') # vs)" and f: "flat t'"
    and v: "(write_json J t, c) \<in> set ((write_json J t', c') # vs)" and g: "flat t"
  shows "keeps_claims e o' t t'"
proof (cases "(write_json J t, c) = (write_json J t', c')")
  case True
  then have "t = t'" using J f g by (metis Pair_inject option.inject read_flat)
  then show ?thesis by simp
next
  case False
  with v b have "version_follows J e o' (write_json J t') (write_json J t)" by (auto simp: book_versions_def)
  then show ?thesis using J f g by (simp add: version_follows_def)
qed

text \<open>A claim that the current version shows stays in every later version.\<close>

lemma claim_stays:
  assumes J: "json_ok J" and s: "shows_claim J e o' vs i u x" and b: "book_versions J e o' (new @ vs)"
  shows "shows_claim J e o' (new @ vs) i u x"
proof -
  from s obtain t c vs' where t: "flat t" "vs = (write_json J t, c) # vs'" "claimant o' i t = Some u" "pt_get (e i) t = Some x"
    unfolding shows_claim_def by blast
  obtain d' c' rest where h: "new @ vs = (d', c') # rest" using t(2) by (metis append_is_Nil_conv list.exhaust surj_pair)
  with b obtain t' where t': "flat t'" "d' = write_json J t'" by (auto simp: book_versions_def)
  have "(write_json J t, c) \<in> set ((write_json J t', c') # rest)" using h t(2) t'(2) by (metis in_set_conv_decomp)
  then have "keeps_claims e o' t t'" using book_versions_head [OF J _ t'(1) _ t(1)] b h t'(2) by metis
  with t have "claimant o' i t' = Some u" "pt_get (e i) t' = Some x" by (auto simp: keeps_claims_def)
  then show ?thesis using t' h unfolding shows_claim_def by blast
qed

subsection \<open>Claiming under CAS\<close>

locale claim_book =
  fixes entry owner :: "nat \<Rightarrow> string"
  assumes owner_inj: "owner i = owner j \<longleftrightarrow> i = j"
    and entry_not_owner: "entry i \<noteq> owner j"
begin

lemma claimant_put_other: "k \<noteq> owner i \<Longrightarrow> claimant owner i (pt_put k v t) = claimant owner i t"
  by (simp add: claimant_def pt_get_default_def)

lemma claimant_put: "claimant owner i (pt_put (owner j) u t)
    = (if i = j then (if u = ''n'' then None else Some u) else claimant owner i t)"
  using owner_inj by (auto simp: claimant_def pt_get_default_def Let_def)

lemma entry_put: "pt_get (entry i) (pt_put (owner j) u t) = pt_get (entry i) t"
  using entry_not_owner by simp

text \<open>A claim of an unclaimed entry keeps everything else.\<close>

lemma claim_keeps: "claimant owner j t = None \<Longrightarrow> keeps_claims entry owner t (pt_put (owner j) u t)"
  by (auto simp: keeps_claims_def entry_put claimant_put simp del: get_put)

text \<open>A claim may note more than the name in a field of its own.\<close>

lemma claim_with_note_keeps:
  assumes "claimant owner j t = None" and "\<And>i. note \<noteq> owner i" "\<And>i. note \<noteq> entry i"
  shows "keeps_claims entry owner t (pt_put note v (pt_put (owner j) u t))"
proof -
  have "entry i \<noteq> note" for i using assms(3) by metis
  then show ?thesis using claim_keeps [OF assms(1)] assms(2) by (simp add: keeps_claims_def claimant_put_other)
qed

text \<open>A store of such a version under the CAS of the version that was read is the next version of the book.\<close>

lemma claim_is_next_version:
  assumes "json_ok J" "versions_ok db" "book_versions J entry owner (db k)" "swap_allowed db k c"
    and "(write_json J t, c) \<in> set (db k)" "flat t" "flat t'" "keeps_claims entry owner t t'"
  shows "book_versions J entry owner ((write_json J t', c') # db k)"
proof -
  from swap_of_read_version [OF assms(2,5,4)] obtain vs where vs: "db k = (write_json J t, c) # vs" by blast
  have "version_follows J entry owner (write_json J t') (fst v)" if v: "v \<in> set (db k)" for v
  proof -
    obtain t0 where t0: "flat t0" "v = (write_json J t0, snd v)"
      using assms(3) v by (metis book_versions_def prod.collapse)
    have "keeps_claims entry owner t0 t"
      using book_versions_head [OF assms(1) _ assms(6) _ t0(1), of entry owner c vs "snd v"] assms(3) v t0(2) vs by simp
    then have "keeps_claims entry owner t0 t'" using assms(8) by (rule keeps_claims_trans)
    moreover have "read_json J (fst v) = Some t0" using t0 assms(1) by (metis fst_conv read_flat)
    ultimately show ?thesis using assms(1,7) by (simp add: version_follows_def)
  qed
  then show ?thesis using assms(3,7) by (auto simp: book_versions_def)
qed

lemma claim_succeeded:
  assumes "flat t'" "pt_get_default (owner i) ''n'' t' = u" "u \<noteq> ''n''" "pt_get (entry i) t' = Some x"
  shows "shows_claim J entry owner ((write_json J t', c') # vs) i u x"
  using assms unfolding shows_claim_def by (auto simp: claimant_def Let_def)

end

end
