(* ===== verification/AddFunds.thy ===== *)
theory AddFunds
  imports CasDatabase SatoshiAmounts
begin

section \<open>The account tab that adds funds\<close>

text \<open>
  \<open>Anonymous Bitcoin Computing 2/src/frontend/accounttabs/addfundsaccounttabbody.cpp\<close>. A user asks for a bitcoin key, pays to
  it, and has the confirmed payment credited. Keys lie on the pages of key sets; a request claims a key by writing its UUID onto the page
  under the page's CAS. A full page makes the request create the next one from a range of the huge key list, claimed the same way. The
  account document says how far a request got (\<open>NoKey\<close>, \<open>GettingKey\<close>, \<open>HaveKey\<close>), so that an interrupted request is taken up
  again.

  The record \<open>funds\<close> holds the members of \<open>AddFundsAccountTabBody\<close> and, with the prefix \<open>app_\<close>, those of the application
  object that the tab reads and writes. Widgets are reduced to what is there: the two placeholders and the two balance labels, each of which
  comes with its buttons. A request for the database is begun by one function and its answer handled by another; the request waits in
  \<open>tab_pending\<close>. The longest names are cut. The argument \<open>E\<close> holds the libraries: JSON text, the conversion of \<open>boost::lexical_cast\<close>
  from text to double, the Mersenne twister with its distribution over \<open>0..999\<close> (for a seed), the text of a date, and base 64 of SHA-1.
\<close>

subsection \<open>State\<close>

datatype TabGetSavingCasPurpose =
    TAB_INITIALINVALIDNULLGETSAVINGCAS
  | GETUSERACCOUNTFORGOINGINTOGETTINGBITCOINKEYMODE
  | DETERMINEBITCOINSTATEBUTDONTLETTHEMPROCEEDIFLOCKED
  | GETBITCOINKEYSETNCURRENTPAGETOSEEWHATPAGEITISONANDIFITISLOCKED
  | GETBITCOINKEYSETNACTUALPAGETOSEEIFUUIDONITENOUGHROOM
  | GETBITCOINKEYSETNPAGEYANDIFITEXISTSLOOPAROUNDCHECKINGUUIDBUTIFNOTEXISTMAKEITEXIST
  | GETHUGEBITCOINKEYLISTCURRENTPAGE
  | GETHUGEBITCOINKEYLISTACTUALPAGEFORANALYZINGANDMAYBECLAIMINGKEYRANGE
  | CREDITCONFIRMEDBITCOINAMOUNTAFTERANALYZINGUSERACCOUNT

datatype TabCasStorePurpose =
    TAB_INITIALINVALIDNULLSTOREWITHCAS
  | UNLOCKUSERACCOUNTFROMBITCOINGETTINGKEYTOBITCOINHAVEKEY
  | CLAIMBITCOINKEYONBITCOINKEYSETVIACASSWAP
  | HUGEBITCOINKEYLISTKEYRANGECLAIMATTEMPT
  | SAFELYUNLOCKBITCOINKEYSETNCURRENTPAGEDOCFAILINGTOLERABLY
  | HUGEBITCOINKEYLISTPAGECHANGE
  | RELOCKBITCOINKEYSETN_CURRENTPAGETONONEXISTENTPAGEZASNECESSARYOPTIMIZATION
  | CREDITCONFIRMEDBITCOINBALANCEFORCURRENTPAYMENTKEYCASSWAPUSERACCOUNT

datatype TabCasStoreSavingCasPurpose =
    TAB_INITIALINVALIDNULLSTOREWITHCASSAVINGCAS
  | USERACCOUNTBITCOINLOCKEDINTOGETTINGKEYMODE
  | LOCKINGBITCOINKEYSETNINTOFILLINGNEXTPAGEMODE

datatype TabAddPurpose =
    TAB_INITIALINVALIDNULLSTOREWITHOUTINPUTCAS
  | BITCOINKEYSETNPAGEYCREATIONVIALCBADD

datatype tab_message =
    Tab500 | ActivityDisabled | OneTabAtATime | OneTabTryAgain | MultipleTabsRetry | Recoverable | BelowMinimum | SlowDown
  | NoPendingYet | NotConfirmedYet | PendingReceived string | ConfirmedReceived string | AlreadyCreditted | TryInAFewMoments
  | Creditted string string | NewBalance string | OutOfKeys | CurrentKey string

datatype 'j tab_request =
    TabGet string
  | TabCasStore string 'j cas
  | TabCasStoreSavingCas string 'j cas
  | TabAdd string 'j
  | TabPoll string nat

datatype 'j tab_output = Ask "'j tab_request" | Tell tab_message

record 'j funds =
  app_CurrentlyLoggedInUsername :: string
  app_BalanceSatoshiStringForDisplayingOnly :: string
  app_WhatTheGetSavingCasWasFor :: TabGetSavingCasPurpose
  app_WhatTheStoreWithInputCasWasFor :: TabCasStorePurpose
  app_WhatTheStoreWithInputCasSavingOutputCasWasFor :: TabCasStoreSavingCasPurpose
  app_WhatTheStoreWithoutInputCasWasFor :: TabAddPurpose
  app_DeferCount :: int
  widgetUniqueId :: string
  m_UserAccountJsonForLockingIntoGettingBitcoinKey :: 'j
  m_UserAccountCASforBitcoinGettingKeyLockingAndUnlocking :: cas
  m_UserAccountBitcoinDoingGettingKeyRecoverySoAccountLocked :: bool
  m_BitcoinKeySetIndex_aka_setN :: string
  m_BitcoinKeySetPage_aka_PageY :: string
  m_PerGetBitcoinKeyUUID :: string
  m_PollingPendingBalance :: bool
  m_FillingNextBitcoinKeySetPerFillUuid :: string
  m_FillingNextStartingFromPageZ :: string
  m_FillingNextStartingFromPageZ_NON_CHANGING :: string
  m_BitcoinKeySetCurrentPageCAS :: cas
  m_PageZisFromCurrentPageInDb :: bool
  m_CasToUseForSafelyUpdatingHugeBitcoinKeyList_CurrentPage :: cas
  m_CurrentBitcoinKeyForPayments :: string
  m_BitcoinKeyToGiveToUser :: string
  m_PendingBitcoinBalanceLabel :: bool
  m_ConfirmedBitcoinBalanceLabel :: bool
  m_ConfirmedBitcoinBalanceInSatoshis :: int
  m_BitcoinKeysVectorToUseForNextPageFill :: "string list"
  m_GetBitcoinKeyPlaceholder :: bool
  m_HaveBitcoinKeyPlaceholder :: bool
  m_TimeTofLastCheck :: int
  m_PopulatedAndInitializing :: bool
  tab_outputs :: "'j tab_output list"
  tab_pending :: "'j tab_request list"

record 'j funds_env =
  funds_json :: "'j json"
  funds_cast_double :: "string \<Rightarrow> rat option"
  zeroThrough999 :: "int \<Rightarrow> int"
  dateTimeText :: "int \<Rightarrow> string"
  sha1_base64 :: "string \<Rightarrow> string"

abbreviation "ABC_MIN_ADD_FUNDS_AMOUNT_IN_SATOSHIS \<equiv> 300000 :: int"
abbreviation "ABC_NUM_BITCOIN_KEYS_ON_EACH_BITCOINKEYSET_PAGE \<equiv> 100 :: nat"
abbreviation "ABC_NUM_BITCOIN_KEY_RANGES_ON_EACH_HUGEBITCOINLIST_PAGE \<equiv> 100 :: nat"

text \<open>The fields of a page: an entry and who claimed it.\<close>

definition key_field :: "nat \<Rightarrow> string" where
  "key_field i = ''key'' @ show_nat i"

definition key_uuid_field :: "nat \<Rightarrow> string" where
  "key_uuid_field i = key_field i @ ''claimedUuid''"

definition key_username_field :: "nat \<Rightarrow> string" where
  "key_username_field i = key_field i @ ''claimedUsername''"

definition range_field :: "nat \<Rightarrow> string" where
  "range_field i = ''keyRange'' @ show_nat i"

definition range_uuid_field :: "nat \<Rightarrow> string" where
  "range_uuid_field i = range_field i @ ''keyRangeClaimedUuid''"

subsection \<open>Rendering, messages and requests\<close>

definition tab_out :: "'j tab_output \<Rightarrow> ('j funds, unit) prog" where
  "tab_out x = modify (\<lambda>s. s\<lparr>tab_outputs := tab_outputs s @ [x]\<rparr>)"

definition tab_defer :: "('j funds, unit) prog" where
  "tab_defer = modify (\<lambda>s. s\<lparr>app_DeferCount := app_DeferCount s + 1\<rparr>)"

definition tab_resume :: "('j funds, unit) prog" where
  "tab_resume = modify (\<lambda>s. s\<lparr>app_DeferCount := app_DeferCount s - 1\<rparr>)"

definition tab_ask :: "'j tab_request \<Rightarrow> ('j funds, unit) prog" where
  "tab_ask r = andthen tab_defer (\<lambda>_. andthen (tab_out (Ask r)) (\<lambda>_.
     modify (\<lambda>s. s\<lparr>tab_pending := tab_pending s @ [r]\<rparr>)))"

definition tab_get :: "string \<Rightarrow> TabGetSavingCasPurpose \<Rightarrow> ('j funds, unit) prog" where
  "tab_get key what = andthen (tab_ask (TabGet key)) (\<lambda>_. modify (\<lambda>s. s\<lparr>app_WhatTheGetSavingCasWasFor := what\<rparr>))"

definition tab_cas_store :: "string \<Rightarrow> 'j \<Rightarrow> cas \<Rightarrow> TabCasStorePurpose \<Rightarrow> ('j funds, unit) prog" where
  "tab_cas_store key doc cas what =
     andthen (tab_ask (TabCasStore key doc cas)) (\<lambda>_. modify (\<lambda>s. s\<lparr>app_WhatTheStoreWithInputCasWasFor := what\<rparr>))"

definition tab_cas_store_saving_cas :: "string \<Rightarrow> 'j \<Rightarrow> cas \<Rightarrow> TabCasStoreSavingCasPurpose \<Rightarrow> ('j funds, unit) prog" where
  "tab_cas_store_saving_cas key doc cas what =
     andthen (tab_ask (TabCasStoreSavingCas key doc cas)) (\<lambda>_.
     modify (\<lambda>s. s\<lparr>app_WhatTheStoreWithInputCasSavingOutputCasWasFor := what\<rparr>))"

definition tab_add :: "string \<Rightarrow> 'j \<Rightarrow> TabAddPurpose \<Rightarrow> ('j funds, unit) prog" where
  "tab_add key doc what =
     andthen (tab_ask (TabAdd key doc)) (\<lambda>_. modify (\<lambda>s. s\<lparr>app_WhatTheStoreWithoutInputCasWasFor := what\<rparr>))"

definition tell :: "tab_message \<Rightarrow> ('j funds, unit) prog" where
  "tell m = tab_out (Tell m)"

definition tell_and_resume :: "tab_message \<Rightarrow> ('j funds, unit) prog" where
  "tell_and_resume m = andthen (tell m) (\<lambda>_. tab_resume)"

subsection \<open>The two modes of the tab\<close>

definition changeToGetBitcoinKeyMode :: "('j funds, unit) prog" where
  "changeToGetBitcoinKeyMode =
     andthen (reading (\<lambda>s. if m_HaveBitcoinKeyPlaceholder s then
         modify (\<lambda>s. s\<lparr>m_HaveBitcoinKeyPlaceholder := False, m_PendingBitcoinBalanceLabel := False,
           m_ConfirmedBitcoinBalanceLabel := False\<rparr>)
       else return ())) (\<lambda>_.
     modify (\<lambda>s. s\<lparr>m_GetBitcoinKeyPlaceholder := True\<rparr>))"

definition changeToHaveBitcoinKeyMode :: "string \<Rightarrow> ('j funds, unit) prog" where
  "changeToHaveBitcoinKeyMode bitcoinKey =
     andthen (modify (\<lambda>s. s\<lparr>m_GetBitcoinKeyPlaceholder := False\<rparr>)) (\<lambda>_.
     reading (\<lambda>s. if \<not> m_HaveBitcoinKeyPlaceholder s then
         andthen (modify (\<lambda>s. s\<lparr>m_HaveBitcoinKeyPlaceholder := True, m_CurrentBitcoinKeyForPayments := bitcoinKey\<rparr>)) (\<lambda>_.
         tell (CurrentKey bitcoinKey))
       else return ()))"

definition showOutOfBitcoinKeysErrorToUserInAddFundsPlaceholderLayout :: "('j funds, unit) prog" where
  "showOutOfBitcoinKeysErrorToUserInAddFundsPlaceholderLayout = tell_and_resume OutOfKeys"

definition populateAndInitialize :: "('j funds, unit) prog" where
  "populateAndInitialize = andthen tab_defer (\<lambda>_. reading (\<lambda>s.
     tab_get (userAccountKey (app_CurrentlyLoggedInUsername s)) DETERMINEBITCOINSTATEBUTDONTLETTHEMPROCEEDIFLOCKED))"

definition onTabBeingShown :: "('j funds, unit) prog" where
  "onTabBeingShown = reading (\<lambda>s. if \<not> m_PopulatedAndInitializing s then
     andthen populateAndInitialize (\<lambda>_. modify (\<lambda>s. s\<lparr>m_PopulatedAndInitializing := True\<rparr>))
   else return ())"

definition handleGetBitcoinKeyButtonClicked :: "('j funds, unit) prog" where
  "handleGetBitcoinKeyButtonClicked = andthen tab_defer (\<lambda>_. reading (\<lambda>s.
     tab_get (userAccountKey (app_CurrentlyLoggedInUsername s)) GETUSERACCOUNTFORGOINGINTOGETTINGBITCOINKEYMODE))"

text \<open>The start of most handlers: an answer that reports an error, or no document, ends the request with the same message.\<close>

definition when_answered :: "bool \<Rightarrow> bool \<Rightarrow> ('j funds, unit) prog \<Rightarrow> ('j funds, unit) prog" where
  "when_answered lcbOpSuccess dbError m =
    (if dbError then tell_and_resume Tab500 else if \<not> lcbOpSuccess then tell_and_resume Tab500 else m)"

subsection \<open>Claiming a key\<close>

text \<open>Where a scan over a page ends: at the entry claimed under the UUID, at the first unclaimed entry, or past the last one.\<close>

datatype scan = OnPage string | FirstUnclaimed nat string | PageFull

fun scan_keys :: "string \<Rightarrow> ptree \<Rightarrow> nat \<Rightarrow> nat \<Rightarrow> ('s, scan) prog" where
  "scan_keys uuid pt i 0 = return PageFull"
| "scan_keys uuid pt i (Suc n) =
     andthen (pt_need (key_field i) pt) (\<lambda>bitcoinKey.
     let claimedUuid = pt_get_default (key_uuid_field i) ''n'' pt in
     if claimedUuid \<noteq> ''n'' then
       (if claimedUuid = uuid then return (OnPage bitcoinKey) else scan_keys uuid pt (Suc i) n)
     else return (FirstUnclaimed i bitcoinKey))"

definition claim_key :: "string \<Rightarrow> string \<Rightarrow> nat \<Rightarrow> ptree \<Rightarrow> ptree" where
  "claim_key uuid username i pt = pt_put (key_username_field i) username (pt_put (key_uuid_field i) uuid pt)"

definition userAccountBitcoinGettingKeyLocked_So_GetSavingCASbitcoinKeySetNPageY :: "('j funds, unit) prog" where
  "userAccountBitcoinGettingKeyLocked_So_GetSavingCASbitcoinKeySetNPageY = reading (\<lambda>s.
     tab_get (bitcoinKeySetPageKey (m_BitcoinKeySetIndex_aka_setN s) (m_BitcoinKeySetPage_aka_PageY s))
       GETBITCOINKEYSETNACTUALPAGETOSEEIFUUIDONITENOUGHROOM)"

definition have_key_doc :: "string \<Rightarrow> ptree \<Rightarrow> ptree" where
  "have_key_doc bitcoinKey pt = pt_erase JSON_USER_ACCOUNT_BITCOIN_GET_KEY_UUID (pt_erase JSON_USER_ACCOUNT_BITCOIN_SET_PAGE
     (pt_put JSON_USER_ACCOUNT_BITCOIN_STATE_DATA bitcoinKey
     (pt_put JSON_USER_ACCOUNT_BITCOIN_STATE JSON_USER_ACCOUNT_BITCOIN_STATE_HAVE_KEY pt)))"

definition unlockUserAccountSafelyFromBitcoinGettingKeyBecauseWeGotAKey :: "'j funds_env \<Rightarrow> ('j funds, unit) prog" where
  "unlockUserAccountSafelyFromBitcoinGettingKeyBecauseWeGotAKey E = reading (\<lambda>s.
     andthen (parse_json (funds_json E) (m_UserAccountJsonForLockingIntoGettingBitcoinKey s)) (\<lambda>pt.
     tab_cas_store (userAccountKey (app_CurrentlyLoggedInUsername s))
       (write_json (funds_json E) (have_key_doc (m_BitcoinKeyToGiveToUser s) pt))
       (m_UserAccountCASforBitcoinGettingKeyLockingAndUnlocking s)
       UNLOCKUSERACCOUNTFROMBITCOINGETTINGKEYTOBITCOINHAVEKEY))"

definition after_key_scan :: "'j funds_env \<Rightarrow> ptree \<Rightarrow> cas \<Rightarrow> scan \<Rightarrow> ('j funds, unit) prog" where
  "after_key_scan E pt bitcoinKeySetNpageY_CAS found = (case found of
       OnPage bitcoinKey \<Rightarrow>
         andthen (modify (\<lambda>s. s\<lparr>m_BitcoinKeyToGiveToUser := bitcoinKey\<rparr>)) (\<lambda>_.
         unlockUserAccountSafelyFromBitcoinGettingKeyBecauseWeGotAKey E)
     | FirstUnclaimed i bitcoinKey \<Rightarrow>
         andthen (modify (\<lambda>s. s\<lparr>m_BitcoinKeyToGiveToUser := bitcoinKey\<rparr>)) (\<lambda>_. reading (\<lambda>s.
         tab_cas_store (bitcoinKeySetPageKey (m_BitcoinKeySetIndex_aka_setN s) (m_BitcoinKeySetPage_aka_PageY s))
           (write_json (funds_json E) (claim_key (m_PerGetBitcoinKeyUUID s) (app_CurrentlyLoggedInUsername s) i pt))
           bitcoinKeySetNpageY_CAS CLAIMBITCOINKEYONBITCOINKEYSETVIACASSWAP))
     | PageFull \<Rightarrow> reading (\<lambda>s.
         andthen (require Bad_lexical_cast (lexical_cast_int (m_BitcoinKeySetPage_aka_PageY s))) (\<lambda>y.
         andthen (modify (\<lambda>s. s\<lparr>m_BitcoinKeySetPage_aka_PageY := show_int (wrap32 (y + 1))\<rparr>)) (\<lambda>_. reading (\<lambda>s.
         tab_get (bitcoinKeySetPageKey (m_BitcoinKeySetIndex_aka_setN s) (m_BitcoinKeySetPage_aka_PageY s))
           GETBITCOINKEYSETNPAGEYANDIFITEXISTSLOOPAROUNDCHECKINGUUIDBUTIFNOTEXISTMAKEITEXIST)))))"

definition gotBitcoinKeySetNpageYSoAnalyzeItForUUIDandEnoughRoomEtc ::
  "'j funds_env \<Rightarrow> 'j \<Rightarrow> cas \<Rightarrow> bool \<Rightarrow> bool \<Rightarrow> ('j funds, unit) prog" where
  "gotBitcoinKeySetNpageYSoAnalyzeItForUUIDandEnoughRoomEtc E bitcoinKeySetNpageY bitcoinKeySetNpageY_CAS lcbOpSuccess dbError =
    when_answered lcbOpSuccess dbError
    (andthen (parse_json (funds_json E) bitcoinKeySetNpageY) (\<lambda>pt. reading (\<lambda>s.
     andthen (scan_keys (m_PerGetBitcoinKeyUUID s) pt 0 ABC_NUM_BITCOIN_KEYS_ON_EACH_BITCOINKEYSET_PAGE) (\<lambda>found.
     after_key_scan E pt bitcoinKeySetNpageY_CAS found))))"

definition doneAttemptingToUpdateBitcoinKeySetViaCASswapAkaClaimingAKey ::
  "'j funds_env \<Rightarrow> bool \<Rightarrow> bool \<Rightarrow> ('j funds, unit) prog" where
  "doneAttemptingToUpdateBitcoinKeySetViaCASswapAkaClaimingAKey E lcbOpSuccess dbError =
    (if dbError then tell_and_resume Tab500
     else if \<not> lcbOpSuccess then userAccountBitcoinGettingKeyLocked_So_GetSavingCASbitcoinKeySetNPageY
     else unlockUserAccountSafelyFromBitcoinGettingKeyBecauseWeGotAKey E)"

definition doneAttemptingToUnlockUserAccountFromBitcoinGettingKeyToBitcoinHaveKey :: "bool \<Rightarrow> bool \<Rightarrow> ('j funds, unit) prog" where
  "doneAttemptingToUnlockUserAccountFromBitcoinGettingKeyToBitcoinHaveKey lcbOpSuccess dbError =
    (if dbError then tell_and_resume Tab500
     else if \<not> lcbOpSuccess then tell_and_resume MultipleTabsRetry
     else reading (\<lambda>s. andthen (changeToHaveBitcoinKeyMode (m_BitcoinKeyToGiveToUser s)) (\<lambda>_. tab_resume)))"

subsection \<open>Filling the next page\<close>

definition bitcoinKeySetN_currentPage_Locked_soDoKeyRangeClaimAndNextPageCreation :: "('j funds, unit) prog" where
  "bitcoinKeySetN_currentPage_Locked_soDoKeyRangeClaimAndNextPageCreation = reading (\<lambda>s.
     tab_get (hugeBitcoinKeyListPageKey (m_FillingNextStartingFromPageZ s))
       GETHUGEBITCOINKEYLISTACTUALPAGEFORANALYZINGANDMAYBECLAIMINGKEYRANGE)"

definition getBitcoinKeySetNPageYAttemptFinishedSoCheckItIfItExistsAndMakeItIfItDont ::
  "'j funds_env \<Rightarrow> 'j \<Rightarrow> cas \<Rightarrow> bool \<Rightarrow> bool \<Rightarrow> ('j funds, unit) prog" where
  "getBitcoinKeySetNPageYAttemptFinishedSoCheckItIfItExistsAndMakeItIfItDont E doc cas lcbOpSuccess dbError =
    (if dbError then tell_and_resume Tab500
     else if \<not> lcbOpSuccess then tab_get hugeBitcoinKeyListCurrentPageKey GETHUGEBITCOINKEYLISTCURRENTPAGE
     else gotBitcoinKeySetNpageYSoAnalyzeItForUUIDandEnoughRoomEtc E doc cas True False)"

definition current_page_locked_doc :: "'j funds \<Rightarrow> ptree" where
  "current_page_locked_doc s =
     pt_put JSON_BITCOIN_KEY_SET_FILLING_START_LOOKING_ON_PAGE (m_FillingNextStartingFromPageZ s)
     (pt_put JSON_BITCOIN_KEY_SET_FILLING_UUID_PER_FILL (m_FillingNextBitcoinKeySetPerFillUuid s)
     (pt_put JSON_BITCOIN_KEY_SET_LOCKED_FILLING_NEXT_PAGE (m_BitcoinKeySetPage_aka_PageY s) pt_empty))"

definition hugeBitcoinKeyListCurrentPageGetComplete ::
  "'j funds_env \<Rightarrow> 'j \<Rightarrow> cas \<Rightarrow> bool \<Rightarrow> bool \<Rightarrow> ('j funds, unit) prog" where
  "hugeBitcoinKeyListCurrentPageGetComplete E hugeBitcoinKeyList_CurrentPageJson cas lcbOpSuccess dbError =
    when_answered lcbOpSuccess dbError
    (andthen (modify (\<lambda>s. s\<lparr>m_PageZisFromCurrentPageInDb := True,
        m_CasToUseForSafelyUpdatingHugeBitcoinKeyList_CurrentPage := cas\<rparr>)) (\<lambda>_.
     andthen (parse_json (funds_json E) hugeBitcoinKeyList_CurrentPageJson) (\<lambda>pt.
     andthen (modify (\<lambda>s. s\<lparr>m_FillingNextBitcoinKeySetPerFillUuid :=
        m_BitcoinKeySetIndex_aka_setN s @ ''_'' @ m_BitcoinKeySetPage_aka_PageY s\<rparr>)) (\<lambda>_.
     andthen (pt_need JSON_HUGE_BITCOIN_KEY_LIST_CURRENT_PAGE_KEY pt) (\<lambda>z.
     andthen (modify (\<lambda>s. s\<lparr>m_FillingNextStartingFromPageZ := z, m_FillingNextStartingFromPageZ_NON_CHANGING := z\<rparr>)) (\<lambda>_.
     reading (\<lambda>s.
     tab_cas_store_saving_cas (bitcoinKeySetCurrentPageKey (m_BitcoinKeySetIndex_aka_setN s))
       (write_json (funds_json E) (current_page_locked_doc s)) (m_BitcoinKeySetCurrentPageCAS s)
       LOCKINGBITCOINKEYSETNINTOFILLINGNEXTPAGEMODE)))))))"

definition attemptToLockBitcoinKeySetNintoFillingNextPageModeComplete :: "cas \<Rightarrow> bool \<Rightarrow> bool \<Rightarrow> ('j funds, unit) prog" where
  "attemptToLockBitcoinKeySetNintoFillingNextPageModeComplete casFromLock lcbOpSuccess dbError =
    (if dbError then tell_and_resume Tab500
     else if \<not> lcbOpSuccess then tell_and_resume Recoverable
     else andthen (modify (\<lambda>s. s\<lparr>m_BitcoinKeySetCurrentPageCAS := casFromLock\<rparr>)) (\<lambda>_.
       bitcoinKeySetN_currentPage_Locked_soDoKeyRangeClaimAndNextPageCreation))"

fun scan_ranges :: "string \<Rightarrow> ptree \<Rightarrow> nat \<Rightarrow> nat \<Rightarrow> ('s, scan) prog" where
  "scan_ranges uuid pt i 0 = return PageFull"
| "scan_ranges uuid pt i (Suc n) =
     (let claimedUuid = pt_get_default (range_uuid_field i) ''n'' pt in
      if claimedUuid \<noteq> ''n'' then
        (if claimedUuid = uuid then andthen (pt_need (range_field i) pt) (\<lambda>r. return (OnPage r))
         else scan_ranges uuid pt (Suc i) n)
      else andthen (pt_need (range_field i) pt) (\<lambda>r. return (FirstUnclaimed i r)))"

definition claim_range :: "string \<Rightarrow> nat \<Rightarrow> ptree \<Rightarrow> ptree" where
  "claim_range uuid i pt = pt_put (range_uuid_field i) uuid pt"

fun page_of_keys :: "nat \<Rightarrow> string list \<Rightarrow> ptree \<Rightarrow> ptree" where
  "page_of_keys i [] pt = pt"
| "page_of_keys i (k # ks) pt = page_of_keys (Suc i) ks (pt_put (key_field i) k pt)"

definition uuidPerRefillIsSeenOnHugeBitcoinListSoProceedWithActualNextPageFill :: "'j funds_env \<Rightarrow> ('j funds, unit) prog" where
  "uuidPerRefillIsSeenOnHugeBitcoinListSoProceedWithActualNextPageFill E = reading (\<lambda>s.
     andthen (tab_add (bitcoinKeySetPageKey (m_BitcoinKeySetIndex_aka_setN s) (m_BitcoinKeySetPage_aka_PageY s))
       (write_json (funds_json E) (page_of_keys 0 (m_BitcoinKeysVectorToUseForNextPageFill s) pt_empty))
       BITCOINKEYSETNPAGEYCREATIONVIALCBADD) (\<lambda>_.
     modify (\<lambda>s. s\<lparr>m_BitcoinKeysVectorToUseForNextPageFill := []\<rparr>)))"

text \<open>The huge list has no such page: the lock is moved to the page looked for, unless it names that page already.\<close>

definition huge_page_missing :: "'j funds_env \<Rightarrow> ('j funds, unit) prog" where
  "huge_page_missing E = reading (\<lambda>s.
     if m_FillingNextStartingFromPageZ_NON_CHANGING s \<noteq> m_FillingNextStartingFromPageZ s then
       tab_cas_store (bitcoinKeySetCurrentPageKey (m_BitcoinKeySetIndex_aka_setN s))
         (write_json (funds_json E) (current_page_locked_doc s)) (m_BitcoinKeySetCurrentPageCAS s)
         RELOCKBITCOINKEYSETN_CURRENTPAGETONONEXISTENTPAGEZASNECESSARYOPTIMIZATION
     else showOutOfBitcoinKeysErrorToUserInAddFundsPlaceholderLayout)"

text \<open>The page is full: go on to the next one, and let the document of the current page follow when it is where this search began.\<close>

definition huge_page_full :: "'j funds_env \<Rightarrow> ('j funds, unit) prog" where
  "huge_page_full E = reading (\<lambda>s.
     andthen (require Bad_lexical_cast (lexical_cast_int (m_FillingNextStartingFromPageZ s))) (\<lambda>z.
     andthen (modify (\<lambda>s. s\<lparr>m_FillingNextStartingFromPageZ := show_int (wrap32 (z + 1))\<rparr>)) (\<lambda>_. reading (\<lambda>s.
     if m_PageZisFromCurrentPageInDb s then
       tab_cas_store hugeBitcoinKeyListCurrentPageKey
         (write_json (funds_json E) (pt_put JSON_HUGE_BITCOIN_KEY_LIST_CURRENT_PAGE_KEY (m_FillingNextStartingFromPageZ s) pt_empty))
         (m_CasToUseForSafelyUpdatingHugeBitcoinKeyList_CurrentPage s) HUGEBITCOINKEYLISTPAGECHANGE
     else bitcoinKeySetN_currentPage_Locked_soDoKeyRangeClaimAndNextPageCreation))))"

definition after_range_scan :: "'j funds_env \<Rightarrow> ptree \<Rightarrow> cas \<Rightarrow> scan \<Rightarrow> ('j funds, unit) prog" where
  "after_range_scan E pt cas found = (case found of
       OnPage r \<Rightarrow>
         andthen (modify (\<lambda>s. s\<lparr>m_BitcoinKeysVectorToUseForNextPageFill := split_at (CHR '','') r\<rparr>)) (\<lambda>_.
         uuidPerRefillIsSeenOnHugeBitcoinListSoProceedWithActualNextPageFill E)
     | FirstUnclaimed i r \<Rightarrow>
         andthen (modify (\<lambda>s. s\<lparr>m_BitcoinKeysVectorToUseForNextPageFill := split_at (CHR '','') r\<rparr>)) (\<lambda>_. reading (\<lambda>s.
         tab_cas_store (hugeBitcoinKeyListPageKey (m_FillingNextStartingFromPageZ s))
           (write_json (funds_json E) (claim_range (m_FillingNextBitcoinKeySetPerFillUuid s) i pt)) cas
           HUGEBITCOINKEYLISTKEYRANGECLAIMATTEMPT))
     | PageFull \<Rightarrow> huge_page_full E)"

definition getHugeBitcoinKeyListActualPageAttemptCompleted ::
  "'j funds_env \<Rightarrow> 'j \<Rightarrow> cas \<Rightarrow> bool \<Rightarrow> bool \<Rightarrow> ('j funds, unit) prog" where
  "getHugeBitcoinKeyListActualPageAttemptCompleted E hugeBitcoinKeyListActualPage cas lcbOpSuccess dbError =
    (if dbError then tell_and_resume Tab500
     else if \<not> lcbOpSuccess then huge_page_missing E
     else
     andthen (parse_json (funds_json E) hugeBitcoinKeyListActualPage) (\<lambda>pt. reading (\<lambda>s.
     andthen (scan_ranges (m_FillingNextBitcoinKeySetPerFillUuid s) pt 0
       ABC_NUM_BITCOIN_KEY_RANGES_ON_EACH_HUGEBITCOINLIST_PAGE) (\<lambda>found.
     after_range_scan E pt cas found))))"

definition doneAttemptingHugeBitcoinKeyListKeyRangeClaim :: "'j funds_env \<Rightarrow> bool \<Rightarrow> bool \<Rightarrow> ('j funds, unit) prog" where
  "doneAttemptingHugeBitcoinKeyListKeyRangeClaim E lcbOpSuccess dbError =
    (if dbError then tell_and_resume Tab500
     else if \<not> lcbOpSuccess then bitcoinKeySetN_currentPage_Locked_soDoKeyRangeClaimAndNextPageCreation
     else uuidPerRefillIsSeenOnHugeBitcoinListSoProceedWithActualNextPageFill E)"

definition doneChangingHugeBitcoinKeyListCurrentPage :: "bool \<Rightarrow> ('j funds, unit) prog" where
  "doneChangingHugeBitcoinKeyListCurrentPage dbError =
    (if dbError then tell_and_resume Tab500
     else bitcoinKeySetN_currentPage_Locked_soDoKeyRangeClaimAndNextPageCreation)"

definition doneReLockingBitcoinKeySetN_CurrentPage_withNewFromPageZvalue :: "bool \<Rightarrow> ('j funds, unit) prog" where
  "doneReLockingBitcoinKeySetN_CurrentPage_withNewFromPageZvalue dbError =
    (if dbError then tell_and_resume Tab500 else showOutOfBitcoinKeysErrorToUserInAddFundsPlaceholderLayout)"

definition doneAttemptingBitcoinKeySetNnextPageYcreation :: "'j funds_env \<Rightarrow> bool \<Rightarrow> ('j funds, unit) prog" where
  "doneAttemptingBitcoinKeySetNnextPageYcreation E dbError =
    (if dbError then tell_and_resume Tab500
     else reading (\<lambda>s.
       tab_cas_store (bitcoinKeySetCurrentPageKey (m_BitcoinKeySetIndex_aka_setN s))
         (write_json (funds_json E) (pt_put JSON_BITCOIN_KEY_SET_CURRENT_PAGE (m_BitcoinKeySetPage_aka_PageY s) pt_empty))
         (m_BitcoinKeySetCurrentPageCAS s) SAFELYUNLOCKBITCOINKEYSETNCURRENTPAGEDOCFAILINGTOLERABLY))"

subsection \<open>Locking the account into getting a key\<close>

definition getting_key_doc :: "string \<Rightarrow> string \<Rightarrow> string \<Rightarrow> ptree \<Rightarrow> ptree" where
  "getting_key_doc setN pageY uuid pt = pt_put JSON_USER_ACCOUNT_BITCOIN_GET_KEY_UUID uuid
     (pt_put JSON_USER_ACCOUNT_BITCOIN_SET_PAGE pageY
     (pt_put JSON_USER_ACCOUNT_BITCOIN_STATE_DATA setN
     (pt_put JSON_USER_ACCOUNT_BITCOIN_STATE JSON_USER_ACCOUNT_BITCOIN_STATE_GETTING_KEY pt)))"

definition proceedToBitcoinKeySetNgettingAfterLockingUserAccount_UnlessUserAccountAlreadyLocked ::
  "'j funds_env \<Rightarrow> ('j funds, unit) prog" where
  "proceedToBitcoinKeySetNgettingAfterLockingUserAccount_UnlessUserAccountAlreadyLocked E = reading (\<lambda>s.
     if \<not> m_UserAccountBitcoinDoingGettingKeyRecoverySoAccountLocked s then
       andthen (parse_json (funds_json E) (m_UserAccountJsonForLockingIntoGettingBitcoinKey s)) (\<lambda>pt.
       tab_cas_store_saving_cas (userAccountKey (app_CurrentlyLoggedInUsername s))
         (write_json (funds_json E) (getting_key_doc (m_BitcoinKeySetIndex_aka_setN s) (m_BitcoinKeySetPage_aka_PageY s)
           (m_PerGetBitcoinKeyUUID s) pt))
         (m_UserAccountCASforBitcoinGettingKeyLockingAndUnlocking s) USERACCOUNTBITCOINLOCKEDINTOGETTINGKEYMODE)
     else userAccountBitcoinGettingKeyLocked_So_GetSavingCASbitcoinKeySetNPageY)"

definition doneAttemptingToUnlockBitcoinKeySetN_CurrentPage :: "'j funds_env \<Rightarrow> bool \<Rightarrow> bool \<Rightarrow> ('j funds, unit) prog" where
  "doneAttemptingToUnlockBitcoinKeySetN_CurrentPage E lcbOpSuccess dbError =
    (if dbError then tell_and_resume Tab500
     else if \<not> lcbOpSuccess then reading (\<lambda>s. tab_get (bitcoinKeySetCurrentPageKey (m_BitcoinKeySetIndex_aka_setN s))
       GETBITCOINKEYSETNCURRENTPAGETOSEEWHATPAGEITISONANDIFITISLOCKED)
     else proceedToBitcoinKeySetNgettingAfterLockingUserAccount_UnlessUserAccountAlreadyLocked E)"

definition userAccountBitcoinLockedIntoGettingKeyAttemptComplete :: "cas \<Rightarrow> bool \<Rightarrow> bool \<Rightarrow> ('j funds, unit) prog" where
  "userAccountBitcoinLockedIntoGettingKeyAttemptComplete casFromLock lcbOpSuccess dbError =
    (if dbError then tell_and_resume Tab500
     else if \<not> lcbOpSuccess then tell_and_resume OneTabTryAgain
     else andthen (modify (\<lambda>s. s\<lparr>m_UserAccountCASforBitcoinGettingKeyLockingAndUnlocking := casFromLock\<rparr>)) (\<lambda>_.
       userAccountBitcoinGettingKeyLocked_So_GetSavingCASbitcoinKeySetNPageY))"

definition analyzeBitcoinKeySetN_CurrentPageDocToSeeWhatPageItIsOnAndIfItIsLocked ::
  "'j funds_env \<Rightarrow> 'j \<Rightarrow> cas \<Rightarrow> bool \<Rightarrow> bool \<Rightarrow> ('j funds, unit) prog" where
  "analyzeBitcoinKeySetN_CurrentPageDocToSeeWhatPageItIsOnAndIfItIsLocked E bitcoinKeySetCurrentPageDoc cas lcbOpSuccess dbError =
    when_answered lcbOpSuccess dbError
    (andthen (modify (\<lambda>s. s\<lparr>m_BitcoinKeySetCurrentPageCAS := cas\<rparr>)) (\<lambda>_.
     andthen (parse_json (funds_json E) bitcoinKeySetCurrentPageDoc) (\<lambda>pt.
     let lockedFilling = pt_get_default JSON_BITCOIN_KEY_SET_LOCKED_FILLING_NEXT_PAGE ''n'' pt in
     if lockedFilling \<noteq> ''n'' then
       andthen (modify (\<lambda>s. s\<lparr>m_BitcoinKeySetPage_aka_PageY := lockedFilling\<rparr>)) (\<lambda>_.
       andthen (pt_need JSON_BITCOIN_KEY_SET_FILLING_UUID_PER_FILL pt) (\<lambda>uuid.
       andthen (modify (\<lambda>s. s\<lparr>m_FillingNextBitcoinKeySetPerFillUuid := uuid\<rparr>)) (\<lambda>_.
       andthen (pt_need JSON_BITCOIN_KEY_SET_FILLING_START_LOOKING_ON_PAGE pt) (\<lambda>z.
       andthen (modify (\<lambda>s. s\<lparr>m_FillingNextStartingFromPageZ := z, m_FillingNextStartingFromPageZ_NON_CHANGING := z,
         m_PageZisFromCurrentPageInDb := False\<rparr>)) (\<lambda>_.
       bitcoinKeySetN_currentPage_Locked_soDoKeyRangeClaimAndNextPageCreation)))))
     else
       andthen (reading (\<lambda>s. if m_BitcoinKeySetPage_aka_PageY s = [] then
           andthen (pt_need JSON_BITCOIN_KEY_SET_CURRENT_PAGE pt) (\<lambda>y. modify (\<lambda>s. s\<lparr>m_BitcoinKeySetPage_aka_PageY := y\<rparr>))
         else return ())) (\<lambda>_.
       proceedToBitcoinKeySetNgettingAfterLockingUserAccount_UnlessUserAccountAlreadyLocked E))))"

text \<open>The details of a new request, and those of the request that the account document records.\<close>

definition start_new_request :: "'j funds_env \<Rightarrow> int \<Rightarrow> ('j funds, unit) prog" where
  "start_new_request E now = modify (\<lambda>s.
     let setN = show_int (zeroThrough999 E (wrap32 now)) in
     s\<lparr>m_UserAccountBitcoinDoingGettingKeyRecoverySoAccountLocked := False, m_BitcoinKeySetIndex_aka_setN := setN,
       m_PerGetBitcoinKeyUUID := sha1_base64 E (app_CurrentlyLoggedInUsername s @ widgetUniqueId s @ dateTimeText E now @ setN),
       m_BitcoinKeySetPage_aka_PageY := []\<rparr>)"

definition take_up_old_request :: "ptree \<Rightarrow> ('j funds, unit) prog" where
  "take_up_old_request pt =
     andthen (modify (\<lambda>s. s\<lparr>m_UserAccountBitcoinDoingGettingKeyRecoverySoAccountLocked := True\<rparr>)) (\<lambda>_.
     andthen (pt_need JSON_USER_ACCOUNT_BITCOIN_STATE_DATA pt) (\<lambda>setN.
     andthen (modify (\<lambda>s. s\<lparr>m_BitcoinKeySetIndex_aka_setN := setN\<rparr>)) (\<lambda>_.
     andthen (pt_need JSON_USER_ACCOUNT_BITCOIN_SET_PAGE pt) (\<lambda>pageY.
     andthen (modify (\<lambda>s. s\<lparr>m_BitcoinKeySetPage_aka_PageY := pageY\<rparr>)) (\<lambda>_.
     andthen (pt_need JSON_USER_ACCOUNT_BITCOIN_GET_KEY_UUID pt) (\<lambda>uuid.
     modify (\<lambda>s. s\<lparr>m_PerGetBitcoinKeyUUID := uuid\<rparr>)))))))"

definition checkNotAttemptingToFillAkaPurchaseSlotThenTransitionIntoGettingBitcoinKeyState ::
  "'j funds_env \<Rightarrow> int \<Rightarrow> 'j \<Rightarrow> cas \<Rightarrow> bool \<Rightarrow> bool \<Rightarrow> ('j funds, unit) prog" where
  "checkNotAttemptingToFillAkaPurchaseSlotThenTransitionIntoGettingBitcoinKeyState E now userAccountDoc cas lcbOpSuccess dbError =
    when_answered lcbOpSuccess dbError
    (andthen (modify (\<lambda>s. s\<lparr>m_UserAccountJsonForLockingIntoGettingBitcoinKey := userAccountDoc,
        m_UserAccountCASforBitcoinGettingKeyLockingAndUnlocking := cas\<rparr>)) (\<lambda>_.
     andthen (parse_json (funds_json E) userAccountDoc) (\<lambda>pt.
     if profileIsLocked pt then tell_and_resume ActivityDisabled
     else
     andthen (pt_need JSON_USER_ACCOUNT_BITCOIN_STATE pt) (\<lambda>bitcoinState.
     if bitcoinState \<noteq> JSON_USER_ACCOUNT_BITCOIN_STATE_NO_KEY \<and> bitcoinState \<noteq> JSON_USER_ACCOUNT_BITCOIN_STATE_GETTING_KEY then
       tell_and_resume OneTabAtATime
     else
     andthen (if bitcoinState \<noteq> JSON_USER_ACCOUNT_BITCOIN_STATE_NO_KEY then take_up_old_request pt
       else start_new_request E now) (\<lambda>_. reading (\<lambda>s.
     tab_get (bitcoinKeySetCurrentPageKey (m_BitcoinKeySetIndex_aka_setN s))
       GETBITCOINKEYSETNCURRENTPAGETOSEEWHATPAGEITISONANDIFITISLOCKED))))))"

definition determineBitcoinStateButDontLetThemProceedForwardIfLocked ::
  "'j funds_env \<Rightarrow> int \<Rightarrow> 'j \<Rightarrow> cas \<Rightarrow> bool \<Rightarrow> bool \<Rightarrow> ('j funds, unit) prog" where
  "determineBitcoinStateButDontLetThemProceedForwardIfLocked E now userAccountJsonDoc cas lcbOpSuccess dbError =
    when_answered lcbOpSuccess dbError
    (andthen (parse_json (funds_json E) userAccountJsonDoc) (\<lambda>pt.
     andthen (pt_need JSON_USER_ACCOUNT_BITCOIN_STATE pt) (\<lambda>bitcoinState.
     if bitcoinState = JSON_USER_ACCOUNT_BITCOIN_STATE_HAVE_KEY then
       andthen (pt_need JSON_USER_ACCOUNT_BITCOIN_STATE_DATA pt) (\<lambda>key.
       andthen (changeToHaveBitcoinKeyMode key) (\<lambda>_. tab_resume))
     else if \<not> profileIsLocked pt then
       (if bitcoinState = JSON_USER_ACCOUNT_BITCOIN_STATE_NO_KEY then andthen changeToGetBitcoinKeyMode (\<lambda>_. tab_resume)
        else if bitcoinState = JSON_USER_ACCOUNT_BITCOIN_STATE_GETTING_KEY then
          checkNotAttemptingToFillAkaPurchaseSlotThenTransitionIntoGettingBitcoinKeyState E now userAccountJsonDoc cas True False
        else tab_resume)
     else tell_and_resume ActivityDisabled)))"

subsection \<open>Polling the balance of the key\<close>

text \<open>\<open>posted\<close> is what \<open>Http::Client::post\<close> returned.\<close>

definition sendRpcJsonBalanceRequestToBitcoinD :: "int \<Rightarrow> bool \<Rightarrow> ('j funds, unit) prog" where
  "sendRpcJsonBalanceRequestToBitcoinD now posted = reading (\<lambda>s.
     if now - m_TimeTofLastCheck s < 60 then tell SlowDown
     else
     andthen (modify (\<lambda>s. s\<lparr>m_TimeTofLastCheck := now\<rparr>)) (\<lambda>_.
     if posted then tab_ask (TabPoll (m_CurrentBitcoinKeyForPayments s) (if m_PollingPendingBalance s then 0 else 1))
     else tell Tab500))"

definition checkForPendingBitcoinBalanceButtonClicked :: "int \<Rightarrow> bool \<Rightarrow> ('j funds, unit) prog" where
  "checkForPendingBitcoinBalanceButtonClicked now posted =
     andthen (modify (\<lambda>s. s\<lparr>m_PollingPendingBalance := True\<rparr>)) (\<lambda>_. sendRpcJsonBalanceRequestToBitcoinD now posted)"

definition checkForConfirmedBitcoinBalanceButtonClicked :: "int \<Rightarrow> bool \<Rightarrow> ('j funds, unit) prog" where
  "checkForConfirmedBitcoinBalanceButtonClicked now posted =
     andthen (modify (\<lambda>s. s\<lparr>m_PollingPendingBalance := False\<rparr>)) (\<lambda>_. sendRpcJsonBalanceRequestToBitcoinD now posted)"

definition balance_received :: "string \<Rightarrow> int \<Rightarrow> ('j funds, unit) prog" where
  "balance_received balanceString balance = reading (\<lambda>s.
     if balance > 0 then
       (if m_PollingPendingBalance s then
          andthen (if \<not> m_PendingBitcoinBalanceLabel s then
              modify (\<lambda>s. s\<lparr>m_PendingBitcoinBalanceLabel := True, m_TimeTofLastCheck := m_TimeTofLastCheck s - 60\<rparr>)
            else return ()) (\<lambda>_.
          tell (PendingReceived balanceString))
        else
          andthen (modify (\<lambda>s. s\<lparr>m_ConfirmedBitcoinBalanceLabel := True, m_ConfirmedBitcoinBalanceInSatoshis := balance\<rparr>)) (\<lambda>_.
          tell (ConfirmedReceived balanceString)))
     else if m_PollingPendingBalance s then tell NoPendingYet
     else tell NotConfirmedYet)"

definition handleBitcoinAddressBalancePollerReceivedResponse :: "'j funds_env \<Rightarrow> bool \<Rightarrow> 'j \<Rightarrow> ('j funds, unit) prog" where
  "handleBitcoinAddressBalancePollerReceivedResponse E ok body =
     andthen tab_resume (\<lambda>_.
     if ok then
       andthen (parse_json (funds_json E) body) (\<lambda>pt.
       andthen (pt_need ''error'' pt) (\<lambda>err.
       if err \<noteq> ''null'' then tell Tab500
       else
       andthen (pt_need ''result'' pt) (\<lambda>balanceString.
       andthen (require Bad_lexical_cast (jsonStringToSatoshiInt (funds_cast_double E) balanceString)) (\<lambda>balance.
       balance_received balanceString balance))))
     else tell Tab500)"

subsection \<open>Crediting the confirmed payment\<close>

definition doneSendingBitcoinsToCurrentAddressButtonClicked :: "('j funds, unit) prog" where
  "doneSendingBitcoinsToCurrentAddressButtonClicked = reading (\<lambda>s.
     if m_ConfirmedBitcoinBalanceInSatoshis s < ABC_MIN_ADD_FUNDS_AMOUNT_IN_SATOSHIS then tell BelowMinimum
     else andthen tab_defer (\<lambda>_.
       tab_get (userAccountKey (app_CurrentlyLoggedInUsername s)) CREDITCONFIRMEDBITCOINAMOUNTAFTERANALYZINGUSERACCOUNT))"

definition creditted_doc :: "string \<Rightarrow> ptree \<Rightarrow> ptree" where
  "creditted_doc newBalance pt = pt_erase JSON_USER_ACCOUNT_BITCOIN_STATE_DATA
     (pt_put JSON_USER_ACCOUNT_BITCOIN_STATE JSON_USER_ACCOUNT_BITCOIN_STATE_NO_KEY
     (pt_put JSON_USER_ACCOUNT_BALANCE newBalance pt))"

definition creditConfirmedBitcoinAmountAfterAnalyzingUserAccount ::
  "'j funds_env \<Rightarrow> 'j \<Rightarrow> cas \<Rightarrow> bool \<Rightarrow> bool \<Rightarrow> ('j funds, unit) prog" where
  "creditConfirmedBitcoinAmountAfterAnalyzingUserAccount E userAccountJsonDoc userAccountCAS lcbOpSuccess dbError =
    when_answered lcbOpSuccess dbError
    (andthen (parse_json (funds_json E) userAccountJsonDoc) (\<lambda>pt.
     if profileIsLocked pt then tell_and_resume ActivityDisabled
     else
     andthen (pt_need JSON_USER_ACCOUNT_BITCOIN_STATE pt) (\<lambda>bitcoinState. reading (\<lambda>s.
     if bitcoinState \<noteq> JSON_USER_ACCOUNT_BITCOIN_STATE_HAVE_KEY
       \<or> pt_get_default JSON_USER_ACCOUNT_BITCOIN_STATE_DATA ''n'' pt \<noteq> m_CurrentBitcoinKeyForPayments s
     then tell_and_resume AlreadyCreditted
     else
     andthen (pt_need JSON_USER_ACCOUNT_BALANCE pt) (\<lambda>balanceText.
     andthen (require Bad_lexical_cast (satoshiStringToSatoshiInt balanceText)) (\<lambda>balance.
     let newBalance = satoshiIntToSatoshiString (wrap64 (balance + m_ConfirmedBitcoinBalanceInSatoshis s)) in
     andthen (modify (\<lambda>s. s\<lparr>app_BalanceSatoshiStringForDisplayingOnly := newBalance\<rparr>)) (\<lambda>_.
     tab_cas_store (userAccountKey (app_CurrentlyLoggedInUsername s))
       (write_json (funds_json E) (creditted_doc newBalance pt))
       userAccountCAS CREDITCONFIRMEDBITCOINBALANCEFORCURRENTPAYMENTKEYCASSWAPUSERACCOUNT)))))))"

definition doneAttemptingCredittingConfirmedBitcoinBalanceForCurrentPaymentKey :: "bool \<Rightarrow> bool \<Rightarrow> ('j funds, unit) prog" where
  "doneAttemptingCredittingConfirmedBitcoinBalanceForCurrentPaymentKey lcbOpSuccess dbError =
    (if dbError then tell_and_resume Tab500
     else if \<not> lcbOpSuccess then tell_and_resume TryInAFewMoments
     else reading (\<lambda>s.
     andthen (tell (Creditted (satoshiIntToJsonString (m_ConfirmedBitcoinBalanceInSatoshis s)) (m_CurrentBitcoinKeyForPayments s))) (\<lambda>_.
     andthen (require Bad_lexical_cast (satoshiStringToJsonString (app_BalanceSatoshiStringForDisplayingOnly s))) (\<lambda>b.
     andthen (tell (NewBalance b)) (\<lambda>_.
     andthen (modify (\<lambda>s. s\<lparr>m_ConfirmedBitcoinBalanceInSatoshis := 0, m_CurrentBitcoinKeyForPayments := []\<rparr>)) (\<lambda>_.
     andthen tab_resume (\<lambda>_. changeToGetBitcoinKeyMode)))))))"

subsection \<open>The answers find their handler\<close>

text \<open>The cases of the application's dispatch that belong to this tab; the answer has resumed rendering once before.\<close>

definition tab_get_finished :: "'j funds_env \<Rightarrow> int \<Rightarrow> 'j \<Rightarrow> cas \<Rightarrow> bool \<Rightarrow> bool \<Rightarrow> ('j funds, unit) prog" where
  "tab_get_finished E now d c ok err = andthen tab_resume (\<lambda>_. reading (\<lambda>s. case app_WhatTheGetSavingCasWasFor s of
      GETUSERACCOUNTFORGOINGINTOGETTINGBITCOINKEYMODE \<Rightarrow>
        checkNotAttemptingToFillAkaPurchaseSlotThenTransitionIntoGettingBitcoinKeyState E now d c ok err
    | DETERMINEBITCOINSTATEBUTDONTLETTHEMPROCEEDIFLOCKED \<Rightarrow>
        determineBitcoinStateButDontLetThemProceedForwardIfLocked E now d c ok err
    | GETBITCOINKEYSETNCURRENTPAGETOSEEWHATPAGEITISONANDIFITISLOCKED \<Rightarrow>
        analyzeBitcoinKeySetN_CurrentPageDocToSeeWhatPageItIsOnAndIfItIsLocked E d c ok err
    | GETBITCOINKEYSETNACTUALPAGETOSEEIFUUIDONITENOUGHROOM \<Rightarrow> gotBitcoinKeySetNpageYSoAnalyzeItForUUIDandEnoughRoomEtc E d c ok err
    | GETBITCOINKEYSETNPAGEYANDIFITEXISTSLOOPAROUNDCHECKINGUUIDBUTIFNOTEXISTMAKEITEXIST \<Rightarrow>
        getBitcoinKeySetNPageYAttemptFinishedSoCheckItIfItExistsAndMakeItIfItDont E d c ok err
    | GETHUGEBITCOINKEYLISTCURRENTPAGE \<Rightarrow> hugeBitcoinKeyListCurrentPageGetComplete E d c ok err
    | GETHUGEBITCOINKEYLISTACTUALPAGEFORANALYZINGANDMAYBECLAIMINGKEYRANGE \<Rightarrow>
        getHugeBitcoinKeyListActualPageAttemptCompleted E d c ok err
    | CREDITCONFIRMEDBITCOINAMOUNTAFTERANALYZINGUSERACCOUNT \<Rightarrow> creditConfirmedBitcoinAmountAfterAnalyzingUserAccount E d c ok err
    | TAB_INITIALINVALIDNULLGETSAVINGCAS \<Rightarrow> return ()))"

definition tab_cas_store_finished :: "'j funds_env \<Rightarrow> bool \<Rightarrow> bool \<Rightarrow> ('j funds, unit) prog" where
  "tab_cas_store_finished E ok err = andthen tab_resume (\<lambda>_. reading (\<lambda>s. case app_WhatTheStoreWithInputCasWasFor s of
      UNLOCKUSERACCOUNTFROMBITCOINGETTINGKEYTOBITCOINHAVEKEY \<Rightarrow>
        doneAttemptingToUnlockUserAccountFromBitcoinGettingKeyToBitcoinHaveKey ok err
    | CLAIMBITCOINKEYONBITCOINKEYSETVIACASSWAP \<Rightarrow> doneAttemptingToUpdateBitcoinKeySetViaCASswapAkaClaimingAKey E ok err
    | HUGEBITCOINKEYLISTKEYRANGECLAIMATTEMPT \<Rightarrow> doneAttemptingHugeBitcoinKeyListKeyRangeClaim E ok err
    | SAFELYUNLOCKBITCOINKEYSETNCURRENTPAGEDOCFAILINGTOLERABLY \<Rightarrow> doneAttemptingToUnlockBitcoinKeySetN_CurrentPage E ok err
    | HUGEBITCOINKEYLISTPAGECHANGE \<Rightarrow> doneChangingHugeBitcoinKeyListCurrentPage err
    | RELOCKBITCOINKEYSETN_CURRENTPAGETONONEXISTENTPAGEZASNECESSARYOPTIMIZATION \<Rightarrow>
        doneReLockingBitcoinKeySetN_CurrentPage_withNewFromPageZvalue err
    | CREDITCONFIRMEDBITCOINBALANCEFORCURRENTPAYMENTKEYCASSWAPUSERACCOUNT \<Rightarrow>
        doneAttemptingCredittingConfirmedBitcoinBalanceForCurrentPaymentKey ok err
    | TAB_INITIALINVALIDNULLSTOREWITHCAS \<Rightarrow> return ()))"

definition tab_cas_store_saving_cas_finished :: "cas \<Rightarrow> bool \<Rightarrow> bool \<Rightarrow> ('j funds, unit) prog" where
  "tab_cas_store_saving_cas_finished c ok err =
    andthen tab_resume (\<lambda>_. reading (\<lambda>s. case app_WhatTheStoreWithInputCasSavingOutputCasWasFor s of
      USERACCOUNTBITCOINLOCKEDINTOGETTINGKEYMODE \<Rightarrow> userAccountBitcoinLockedIntoGettingKeyAttemptComplete c ok err
    | LOCKINGBITCOINKEYSETNINTOFILLINGNEXTPAGEMODE \<Rightarrow> attemptToLockBitcoinKeySetNintoFillingNextPageModeComplete c ok err
    | TAB_INITIALINVALIDNULLSTOREWITHCASSAVINGCAS \<Rightarrow> return ()))"

definition tab_add_finished :: "'j funds_env \<Rightarrow> bool \<Rightarrow> bool \<Rightarrow> ('j funds, unit) prog" where
  "tab_add_finished E ok err = andthen tab_resume (\<lambda>_. reading (\<lambda>s. case app_WhatTheStoreWithoutInputCasWasFor s of
      BITCOINKEYSETNPAGEYCREATIONVIALCBADD \<Rightarrow> doneAttemptingBitcoinKeySetNnextPageYcreation E err
    | TAB_INITIALINVALIDNULLSTOREWITHOUTINPUTCAS \<Rightarrow> return ()))"

subsection \<open>Key set pages and pages of the huge list are books of claims\<close>

lemma show_nat_append_inj:
  assumes "list_all (\<lambda>c. \<not> is_digit c) (take 1 a)" "list_all (\<lambda>c. \<not> is_digit c) (take 1 b)" "show_nat i @ a = show_nat j @ b"
  shows "i = j \<and> a = b"
proof -
  have "takeWhile is_digit (show_nat n @ x) = show_nat n" if "list_all (\<lambda>c. \<not> is_digit c) (take 1 x)" for n x
    using that show_nat_digits [of n] by (cases x) (auto simp: list_all_iff takeWhile_append)
  with assms have "show_nat i = show_nat j" by metis
  with assms(3) show ?thesis by simp
qed

lemmas book_fields = key_field_def key_uuid_field_def key_username_field_def range_field_def range_uuid_field_def

interpretation key_book: claim_book key_field key_uuid_field
proof unfold_locales
  show "key_uuid_field i = key_uuid_field j \<longleftrightarrow> i = j" for i j by (simp add: book_fields)
  show "key_field i \<noteq> key_uuid_field j" for i j
    using show_nat_append_inj [of "[]" "''claimedUuid''" i j] by (auto simp: book_fields is_digit_def)
qed

interpretation range_book: claim_book range_field range_uuid_field
proof unfold_locales
  show "range_uuid_field i = range_uuid_field j \<longleftrightarrow> i = j" for i j by (simp add: book_fields)
  show "range_field i \<noteq> range_uuid_field j" for i j
    using show_nat_append_inj [of "[]" "''keyRangeClaimedUuid''" i j] by (auto simp: book_fields is_digit_def)
qed

lemma username_field_apart: "key_username_field i \<noteq> key_uuid_field j" "key_username_field i \<noteq> key_field j"
  using show_nat_append_inj [of "''claimedUsername''" "''claimedUuid''" i j] show_nat_append_inj [of "''claimedUsername''" "[]" i j]
  by (auto simp: book_fields is_digit_def)

lemma claim_key_keeps: "claimant key_uuid_field i t = None \<Longrightarrow> keeps_claims key_field key_uuid_field t (claim_key uuid user i t)"
  unfolding claim_key_def by (rule key_book.claim_with_note_keeps) (simp_all add: username_field_apart)

lemma claim_range_keeps: "claimant range_uuid_field i t = None \<Longrightarrow> keeps_claims range_field range_uuid_field t (claim_range uuid i t)"
  unfolding claim_range_def by (rule range_book.claim_keeps)

text \<open>What a scan returns.\<close>

fun scan_result :: "(nat \<Rightarrow> string) \<Rightarrow> (nat \<Rightarrow> string) \<Rightarrow> string \<Rightarrow> ptree \<Rightarrow> scan \<Rightarrow> bool" where
  "scan_result entry owner uuid pt (OnPage x) = (\<exists>i. claimant owner i pt = Some uuid \<and> pt_get (entry i) pt = Some x)"
| "scan_result entry owner uuid pt (FirstUnclaimed i x) = (claimant owner i pt = None \<and> pt_get (entry i) pt = Some x)"
| "scan_result entry owner uuid pt PageFull = True"

lemma runs_scan_keys:
  "(\<And>r. scan_result key_field key_uuid_field uuid pt r \<Longrightarrow> Q r s) \<Longrightarrow> runs_to (scan_keys uuid pt i n) Q (\<lambda>_. True) s"
proof (induction n arbitrary: i)
  case (Suc n)
  show ?case
    by (auto simp: run_rules pt_need_def Let_def claimant_def intro!: Suc split: option.splits)
qed (simp add: run_rules)

lemma runs_scan_ranges:
  "(\<And>r. scan_result range_field range_uuid_field uuid pt r \<Longrightarrow> Q r s) \<Longrightarrow> runs_to (scan_ranges uuid pt i n) Q (\<lambda>_. True) s"
proof (induction n arbitrary: i)
  case (Suc n)
  show ?case
    by (auto simp: run_rules pt_need_def Let_def claimant_def intro!: Suc split: option.splits)
qed (simp add: run_rules)

end
