(* ===== verification/AddFundsWorld.thy ===== *)
theory AddFundsWorld
  imports AddFunds
begin

section \<open>Many tabs on one database\<close>

text \<open>
  Any number of sessions have the tab open, on one database. A step is a click in one tab, or the database executing one pending
  request and that tab handling the answer, or something else writing a document. Requests of different tabs interleave in every order.
  An answer other than a success says nothing: the store may have been executed or not. The rest of the system writes any document except
  key set pages, the current page documents of the key sets and pages of the huge list; of the last it adds new ones, when the
  administrator fills up the list.
\<close>

subsection \<open>Inputs of one tab\<close>

datatype 'j tab_input =
    ShowTab
  | ClickGetKey
  | ClickCheckPending bool
  | ClickCheckConfirmed bool
  | ClickDone
  | AnswerGet 'j cas bool bool
  | AnswerCasStore bool bool
  | AnswerCasStoreSavingCas cas bool bool
  | AnswerAdd bool bool
  | AnswerPoll bool 'j

fun tab_handle :: "'j funds_env \<Rightarrow> int \<Rightarrow> 'j tab_input \<Rightarrow> ('j funds, unit) prog" where
  "tab_handle E now ShowTab = onTabBeingShown"
| "tab_handle E now ClickGetKey = handleGetBitcoinKeyButtonClicked"
| "tab_handle E now (ClickCheckPending posted) = checkForPendingBitcoinBalanceButtonClicked now posted"
| "tab_handle E now (ClickCheckConfirmed posted) = checkForConfirmedBitcoinBalanceButtonClicked now posted"
| "tab_handle E now ClickDone = doneSendingBitcoinsToCurrentAddressButtonClicked"
| "tab_handle E now (AnswerGet d c ok err) = tab_get_finished E now d c ok err"
| "tab_handle E now (AnswerCasStore ok err) = tab_cas_store_finished E ok err"
| "tab_handle E now (AnswerCasStoreSavingCas c ok err) = tab_cas_store_saving_cas_finished c ok err"
| "tab_handle E now (AnswerAdd ok err) = tab_add_finished E ok err"
| "tab_handle E now (AnswerPoll ok body) = handleBitcoinAddressBalancePollerReceivedResponse E ok body"

text \<open>A click needs its button, and rendering that is not deferred.\<close>

fun tab_click :: "'j tab_input \<Rightarrow> 'j funds \<Rightarrow> bool" where
  "tab_click ShowTab s = (app_DeferCount s \<le> 0)"
| "tab_click ClickGetKey s = (app_DeferCount s \<le> 0 \<and> m_GetBitcoinKeyPlaceholder s)"
| "tab_click (ClickCheckPending posted) s = (app_DeferCount s \<le> 0 \<and> m_HaveBitcoinKeyPlaceholder s)"
| "tab_click (ClickCheckConfirmed posted) s = (app_DeferCount s \<le> 0 \<and> m_PendingBitcoinBalanceLabel s)"
| "tab_click ClickDone s = (app_DeferCount s \<le> 0 \<and> m_ConfirmedBitcoinBalanceLabel s)"
| "tab_click _ s = False"

text \<open>What the constructor sets.\<close>

definition new_tab :: "'j funds \<Rightarrow> bool" where
  "new_tab s \<longleftrightarrow> \<not> m_PopulatedAndInitializing s \<and> m_PollingPendingBalance s \<and> \<not> m_PendingBitcoinBalanceLabel s
     \<and> \<not> m_ConfirmedBitcoinBalanceLabel s \<and> m_ConfirmedBitcoinBalanceInSatoshis s = 0 \<and> \<not> m_GetBitcoinKeyPlaceholder s
     \<and> \<not> m_HaveBitcoinKeyPlaceholder s \<and> m_TimeTofLastCheck s = 0
     \<and> app_DeferCount s = 0 \<and> tab_outputs s = [] \<and> tab_pending s = []"

subsection \<open>What the database answers\<close>

inductive db_answers :: "'j db \<Rightarrow> 'j tab_request \<Rightarrow> 'j tab_input \<Rightarrow> 'j db \<Rightarrow> bool" where
  get_found: "current db k = Some (d, c) \<Longrightarrow> db_answers db (TabGet k) (AnswerGet d c True False) db"
| get_missing: "current db k = None \<Longrightarrow> db_answers db (TabGet k) (AnswerGet d c False False) db"
| get_failed: "db_answers db (TabGet k) (AnswerGet d c ok True) db"
| swap_done: "swap_allowed db k c \<Longrightarrow> fresh_cas db k c'
    \<Longrightarrow> db_answers db (TabCasStore k d c) (AnswerCasStore True False) (new_version k d c' db)"
| swap_failed: "\<not> ok \<or> err \<Longrightarrow> db_answers db (TabCasStore k d c) (AnswerCasStore ok err) db"
| swap_unknown: "\<not> ok \<or> err \<Longrightarrow> swap_allowed db k c \<Longrightarrow> fresh_cas db k c'
    \<Longrightarrow> db_answers db (TabCasStore k d c) (AnswerCasStore ok err) (new_version k d c' db)"
| lock_done: "swap_allowed db k c \<Longrightarrow> fresh_cas db k c'
    \<Longrightarrow> db_answers db (TabCasStoreSavingCas k d c) (AnswerCasStoreSavingCas c' True False) (new_version k d c' db)"
| lock_failed: "\<not> ok \<or> err \<Longrightarrow> db_answers db (TabCasStoreSavingCas k d c) (AnswerCasStoreSavingCas c0 ok err) db"
| lock_unknown: "\<not> ok \<or> err \<Longrightarrow> swap_allowed db k c \<Longrightarrow> fresh_cas db k c'
    \<Longrightarrow> db_answers db (TabCasStoreSavingCas k d c) (AnswerCasStoreSavingCas c0 ok err) (new_version k d c' db)"
| add_done: "db k = [] \<Longrightarrow> fresh_cas db k c' \<Longrightarrow> db_answers db (TabAdd k d) (AnswerAdd ok err) (new_version k d c' db)"
| add_refused: "\<not> ok \<or> err \<Longrightarrow> db_answers db (TabAdd k d) (AnswerAdd ok err) db"
| polled: "db_answers db (TabPoll key minconf) (AnswerPoll ok body) db"

subsection \<open>The world\<close>

record 'j world =
  database :: "'j db"
  tab_of :: "nat \<Rightarrow> 'j funds"

definition is_set_page :: "string \<Rightarrow> bool" where
  "is_set_page k \<longleftrightarrow> (\<exists>n y. k = bitcoinKeySetPageKey n y)"

definition is_huge_page :: "string \<Rightarrow> bool" where
  "is_huge_page k \<longleftrightarrow> (\<exists>z. k = hugeBitcoinKeyListPageKey z)"

definition is_set_current_page :: "string \<Rightarrow> bool" where
  "is_set_current_page k \<longleftrightarrow> (\<exists>n. k = bitcoinKeySetCurrentPageKey n)"

text \<open>A page of the huge list as the administrator adds it: nothing is claimed.\<close>

definition unclaimed_page :: "(nat \<Rightarrow> string) \<Rightarrow> ptree \<Rightarrow> bool" where
  "unclaimed_page owner t \<longleftrightarrow> flat t \<and> (\<forall>i. pt_get (owner i) t = None)"

definition prepared :: "'j funds \<Rightarrow> 'j tab_request list \<Rightarrow> 'j funds" where
  "prepared s rs = s\<lparr>tab_outputs := [], tab_pending := rs\<rparr>"

text \<open>Each step notes the tab that moved and its new state.\<close>

inductive world_step :: "'j funds_env \<Rightarrow> 'j world \<Rightarrow> (nat \<times> 'j funds) list \<Rightarrow> 'j world \<Rightarrow> bool" for E where
  clicked: "tab_click i (tab_of w n) \<Longrightarrow> tab_handle E now i (prepared (tab_of w n) (tab_pending (tab_of w n))) = Ret () s'
    \<Longrightarrow> world_step E w [(n, s')] (w\<lparr>tab_of := (tab_of w)(n := s')\<rparr>)"
| answered: "tab_pending (tab_of w n) = r # rs \<Longrightarrow> db_answers (database w) r i db'
    \<Longrightarrow> tab_handle E now i (prepared (tab_of w n) rs) = Ret () s'
    \<Longrightarrow> world_step E w [(n, s')] (w\<lparr>database := db', tab_of := (tab_of w)(n := s')\<rparr>)"
| written: "\<not> is_set_page k \<Longrightarrow> \<not> is_huge_page k \<Longrightarrow> \<not> is_set_current_page k \<Longrightarrow> fresh_cas (database w) k c
    \<Longrightarrow> world_step E w [] (w\<lparr>database := new_version k d c (database w)\<rparr>)"
| refilled: "is_huge_page k \<Longrightarrow> database w k = [] \<Longrightarrow> unclaimed_page range_uuid_field t \<Longrightarrow> fresh_cas (database w) k c
    \<Longrightarrow> world_step E w [] (w\<lparr>database := new_version k (write_json (funds_json E) t) c (database w)\<rparr>)"

inductive world_reach :: "'j funds_env \<Rightarrow> 'j world \<Rightarrow> (nat \<times> 'j funds) list \<Rightarrow> 'j world \<Rightarrow> bool" for E w0 where
  start: "world_reach E w0 [] w0"
| step: "world_reach E w0 h w \<Longrightarrow> world_step E w l w' \<Longrightarrow> world_reach E w0 (h @ l) w'"

text \<open>
  The UUIDs of requests that the versions of a user's account document hold, and runs in which only the sessions write new ones into
  accounts: the other programs that store an account (purchases, withdrawals, the creditor) put their fields into a document they have read.
\<close>

definition uuids_of :: "'j funds_env \<Rightarrow> 'j db \<Rightarrow> string \<Rightarrow> string set" where
  "uuids_of E db u = {x. \<exists>v \<in> set (db (userAccountKey u)). \<exists>t. read_json (funds_json E) (fst v) = Some t
     \<and> pt_get JSON_USER_ACCOUNT_BITCOIN_GET_KEY_UUID t = Some x}"

inductive user_reach :: "'j funds_env \<Rightarrow> 'j world \<Rightarrow> (nat \<times> 'j funds) list \<Rightarrow> 'j world \<Rightarrow> bool" for E w0 where
  start: "user_reach E w0 [] w0"
| step: "user_reach E w0 h w \<Longrightarrow> world_step E w l w' \<Longrightarrow> l \<noteq> [] \<or> (\<forall>u. uuids_of E (database w') u \<subseteq> uuids_of E (database w) u)
    \<Longrightarrow> user_reach E w0 (h @ l) w'"

lemma user_reach_world: "user_reach E w0 h w \<Longrightarrow> world_reach E w0 h w"
  by (induction rule: user_reach.induct) (blast intro: world_reach.intros)+

text \<open>
  The database before the sessions start, as the initializer leaves it: pages without claims, and current page documents that name a
  page. The other documents are arbitrary.
\<close>

definition initial_world :: "'j funds_env \<Rightarrow> 'j world \<Rightarrow> bool" where
  "initial_world E w \<longleftrightarrow> (\<forall>n. new_tab (tab_of w n)) \<and> versions_ok (database w)
     \<and> (\<forall>k. is_set_page k \<longrightarrow> database w k = [] \<or> (\<exists>t c. database w k = [(write_json (funds_json E) t, c)] \<and> unclaimed_page key_uuid_field t))
     \<and> (\<forall>k. is_huge_page k \<longrightarrow> database w k = [] \<or> (\<exists>t c. database w k = [(write_json (funds_json E) t, c)] \<and> unclaimed_page range_uuid_field t))
     \<and> (\<forall>k. is_set_current_page k \<longrightarrow> database w k = []
          \<or> (\<exists>y c. database w k = [(write_json (funds_json E) (pt_put JSON_BITCOIN_KEY_SET_CURRENT_PAGE y pt_empty), c)]))"

end
