(* ===== verification/AddFundsCredit.thy ===== *)
theory AddFundsCredit
  imports AddFundsWorld "HOL-Library.Sublist"
begin

section \<open>Every credit is backed by a confirmed payment\<close>

text \<open>
  One tab with arbitrary answers: the database and \<open>bitcoind\<close> may answer anything. The log holds inputs and outputs in order. The
  invariant follows the confirmed amount from the poll that reported it to the store that credits it.
\<close>

subsection \<open>Runs of one tab\<close>

datatype 'j tab_event = TabInput "'j tab_input" | TabOutput "'j tab_output"

fun tab_answers :: "'j tab_request \<Rightarrow> 'j tab_input \<Rightarrow> bool" where
  "tab_answers (TabGet k) (AnswerGet d c ok err) = True"
| "tab_answers (TabCasStore k d c) (AnswerCasStore ok err) = True"
| "tab_answers (TabCasStoreSavingCas k d c) (AnswerCasStoreSavingCas c' ok err) = True"
| "tab_answers (TabAdd k d) (AnswerAdd ok err) = True"
| "tab_answers (TabPoll k n) (AnswerPoll ok body) = True"
| "tab_answers r i = False"

inductive tab_step :: "'j funds_env \<Rightarrow> 'j funds \<Rightarrow> 'j tab_event list \<Rightarrow> 'j funds \<Rightarrow> bool" for E where
  clicked: "tab_click i s \<Longrightarrow> tab_handle E now i (prepared s (tab_pending s)) = Ret () s'
    \<Longrightarrow> tab_step E s (TabInput i # map TabOutput (tab_outputs s')) s'"
| answered: "tab_pending s = r # rs \<Longrightarrow> tab_answers r i \<Longrightarrow> tab_handle E now i (prepared s rs) = Ret () s'
    \<Longrightarrow> tab_step E s (TabInput i # map TabOutput (tab_outputs s')) s'"

inductive tab_reach :: "'j funds_env \<Rightarrow> 'j funds \<Rightarrow> 'j tab_event list \<Rightarrow> 'j funds \<Rightarrow> bool" for E s0 where
  start: "tab_reach E s0 [] s0"
| step: "tab_reach E s0 h s \<Longrightarrow> tab_step E s evs s' \<Longrightarrow> tab_reach E s0 (h @ evs) s'"

subsection \<open>The evidence for a credit\<close>

text \<open>What \<open>bitcoind\<close> said about a key: the amount received with at least one confirmation.\<close>

definition reports :: "'j funds_env \<Rightarrow> 'j \<Rightarrow> int \<Rightarrow> bool" where
  "reports E body amount \<longleftrightarrow> (\<exists>t x. read_json (funds_json E) body = Some t \<and> pt_get ''error'' t = Some ''null''
     \<and> pt_get ''result'' t = Some x \<and> jsonStringToSatoshiInt (funds_cast_double E) x = Some amount \<and> 0 < amount)"

definition confirmed_events :: "string \<Rightarrow> 'j \<Rightarrow> 'j tab_event list" where
  "confirmed_events key body = [TabOutput (Ask (TabPoll key 1)), TabInput (AnswerPoll True body)]"

definition read_events :: "string \<Rightarrow> string \<Rightarrow> 'j \<Rightarrow> 'j tab_event list" where
  "read_events user key body = confirmed_events key body @ [TabOutput (Ask (TabGet (userAccountKey user)))]"

definition credit_events :: "string \<Rightarrow> string \<Rightarrow> 'j \<Rightarrow> 'j \<Rightarrow> cas \<Rightarrow> 'j \<Rightarrow> 'j tab_event list" where
  "credit_events user key body account c new = read_events user key body
     @ [TabInput (AnswerGet account c True False), TabOutput (Ask (TabCasStore (userAccountKey user) new c))]"

text \<open>The account that was read holds exactly this key, unlocked; the new document has the amount added and no key.\<close>

definition credit_of :: "'j funds_env \<Rightarrow> 'j \<Rightarrow> string \<Rightarrow> int \<Rightarrow> 'j \<Rightarrow> bool" where
  "credit_of E account key amount new \<longleftrightarrow> (\<exists>t x balance. read_json (funds_json E) account = Some t \<and> \<not> profileIsLocked t
     \<and> pt_get JSON_USER_ACCOUNT_BITCOIN_STATE t = Some JSON_USER_ACCOUNT_BITCOIN_STATE_HAVE_KEY
     \<and> pt_get_default JSON_USER_ACCOUNT_BITCOIN_STATE_DATA ''n'' t = key
     \<and> pt_get JSON_USER_ACCOUNT_BALANCE t = Some x \<and> satoshiStringToSatoshiInt x = Some balance
     \<and> new = write_json (funds_json E) (creditted_doc (satoshiIntToSatoshiString (wrap64 (balance + amount))) t))"

definition backed :: "'j funds_env \<Rightarrow> 'j tab_event list \<Rightarrow> 'j funds \<Rightarrow> 'j \<Rightarrow> bool" where
  "backed E h s body \<longleftrightarrow> reports E body (m_ConfirmedBitcoinBalanceInSatoshis s)
     \<and> subseq (confirmed_events (m_CurrentBitcoinKeyForPayments s) body) h"

fun credit_pending :: "'j funds_env \<Rightarrow> 'j tab_event list \<Rightarrow> 'j funds \<Rightarrow> 'j tab_request \<Rightarrow> bool" where
  "credit_pending E h s (TabPoll k m) \<longleftrightarrow> k = m_CurrentBitcoinKeyForPayments s \<and> m = (if m_PollingPendingBalance s then 0 else 1)
     \<and> m_HaveBitcoinKeyPlaceholder s \<and> TabOutput (Ask (TabPoll k m)) \<in> set h"
| "credit_pending E h s (TabGet k) \<longleftrightarrow>
     (app_WhatTheGetSavingCasWasFor s = CREDITCONFIRMEDBITCOINAMOUNTAFTERANALYZINGUSERACCOUNT \<longrightarrow>
        ABC_MIN_ADD_FUNDS_AMOUNT_IN_SATOSHIS \<le> m_ConfirmedBitcoinBalanceInSatoshis s
        \<and> (\<exists>body. reports E body (m_ConfirmedBitcoinBalanceInSatoshis s)
             \<and> subseq (read_events (app_CurrentlyLoggedInUsername s) (m_CurrentBitcoinKeyForPayments s) body) h))
     \<and> (app_WhatTheGetSavingCasWasFor s = DETERMINEBITCOINSTATEBUTDONTLETTHEMPROCEEDIFLOCKED \<longrightarrow> m_ConfirmedBitcoinBalanceInSatoshis s = 0)"
| "credit_pending E h s (TabCasStore k d c) \<longleftrightarrow>
     (app_WhatTheStoreWithInputCasWasFor s = CREDITCONFIRMEDBITCOINBALANCEFORCURRENTPAYMENTKEYCASSWAPUSERACCOUNT \<longrightarrow>
        ABC_MIN_ADD_FUNDS_AMOUNT_IN_SATOSHIS \<le> m_ConfirmedBitcoinBalanceInSatoshis s
        \<and> (\<exists>body account. reports E body (m_ConfirmedBitcoinBalanceInSatoshis s)
             \<and> subseq (credit_events (app_CurrentlyLoggedInUsername s) (m_CurrentBitcoinKeyForPayments s) body account c d) h
             \<and> credit_of E account (m_CurrentBitcoinKeyForPayments s) (m_ConfirmedBitcoinBalanceInSatoshis s) d))"
| "credit_pending E h s _ \<longleftrightarrow> True"

text \<open>How often rendering is deferred at least, while requests are pending.\<close>

fun deferrals :: "'j tab_request \<Rightarrow> int" where
  "deferrals (TabPoll key minconf) = 1"
| "deferrals _ = 2"

definition money_inv :: "'j funds_env \<Rightarrow> 'j tab_event list \<Rightarrow> 'j funds \<Rightarrow> bool" where
  "money_inv E h s \<longleftrightarrow> (\<not> m_PopulatedAndInitializing s \<longrightarrow>
       m_ConfirmedBitcoinBalanceInSatoshis s = 0 \<and> \<not> m_GetBitcoinKeyPlaceholder s \<and> \<not> m_HaveBitcoinKeyPlaceholder s)
     \<and> (m_PendingBitcoinBalanceLabel s \<longrightarrow> m_HaveBitcoinKeyPlaceholder s)
     \<and> (m_ConfirmedBitcoinBalanceInSatoshis s \<noteq> 0 \<longrightarrow> m_HaveBitcoinKeyPlaceholder s \<and> (\<exists>body. backed E h s body))"

definition credit_inv :: "'j funds_env \<Rightarrow> 'j tab_event list \<Rightarrow> 'j funds \<Rightarrow> bool" where
  "credit_inv E h s \<longleftrightarrow> money_inv E h s \<and> (case tab_pending s of
      [] \<Rightarrow> 0 \<le> app_DeferCount s
    | [r] \<Rightarrow> m_PopulatedAndInitializing s \<and> deferrals r \<le> app_DeferCount s \<and> credit_pending E h s r
    | _ \<Rightarrow> False)"

subsection \<open>Handlers that leave the money alone\<close>

definition credit_view :: "'j funds \<Rightarrow> int \<times> bool \<times> bool \<times> string \<times> bool \<times> bool" where
  "credit_view s = (m_ConfirmedBitcoinBalanceInSatoshis s, m_HaveBitcoinKeyPlaceholder s, m_GetBitcoinKeyPlaceholder s,
     m_CurrentBitcoinKeyForPayments s, m_PopulatedAndInitializing s, m_PendingBitcoinBalanceLabel s)"

fun calm_request :: "'j funds \<Rightarrow> 'j tab_request \<Rightarrow> bool" where
  "calm_request s (TabGet k) \<longleftrightarrow> app_WhatTheGetSavingCasWasFor s \<noteq> CREDITCONFIRMEDBITCOINAMOUNTAFTERANALYZINGUSERACCOUNT
     \<and> app_WhatTheGetSavingCasWasFor s \<noteq> DETERMINEBITCOINSTATEBUTDONTLETTHEMPROCEEDIFLOCKED"
| "calm_request s (TabCasStore k d c) \<longleftrightarrow>
     app_WhatTheStoreWithInputCasWasFor s \<noteq> CREDITCONFIRMEDBITCOINBALANCEFORCURRENTPAYMENTKEYCASSWAPUSERACCOUNT"
| "calm_request s (TabPoll k n) \<longleftrightarrow> False"
| "calm_request s _ \<longleftrightarrow> True"

definition calm :: "'j funds \<Rightarrow> 'j funds \<Rightarrow> bool" where
  "calm s0 s \<longleftrightarrow> credit_view s = credit_view s0 \<and> (case tab_pending s of
      [] \<Rightarrow> 0 \<le> app_DeferCount s
    | [r] \<Rightarrow> 2 \<le> app_DeferCount s \<and> calm_request s r
    | _ \<Rightarrow> False)"

text \<open>The state in which a handler of an answer runs.\<close>

definition awake :: "'j funds \<Rightarrow> 'j funds \<Rightarrow> bool" where
  "awake s0 s \<longleftrightarrow> credit_view s = credit_view s0 \<and> tab_pending s = [] \<and> 1 \<le> app_DeferCount s"

abbreviation stays_calm :: "'j funds \<Rightarrow> ('j funds, unit) prog \<Rightarrow> 'j funds \<Rightarrow> bool" where
  "stays_calm s0 m s \<equiv> runs_to m (\<lambda>_. calm s0) (\<lambda>_. True) s"

lemmas fund_ops = tab_out_def tab_defer_def tab_resume_def tab_ask_def tab_get_def tab_cas_store_def tab_cas_store_saving_cas_def
  tab_add_def tell_def tell_and_resume_def when_answered_def parse_json_def pt_need_def
  showOutOfBitcoinKeysErrorToUserInAddFundsPlaceholderLayout_def

lemmas calm_simps = run_rules fund_ops calm_def awake_def credit_view_def Let_def

lemma calm_pages:
  assumes "awake s0 s"
  shows "stays_calm s0 userAccountBitcoinGettingKeyLocked_So_GetSavingCASbitcoinKeySetNPageY s"
    and "stays_calm s0 bitcoinKeySetN_currentPage_Locked_soDoKeyRangeClaimAndNextPageCreation s"
    and "stays_calm s0 (unlockUserAccountSafelyFromBitcoinGettingKeyBecauseWeGotAKey E) s"
    and "stays_calm s0 (uuidPerRefillIsSeenOnHugeBitcoinListSoProceedWithActualNextPageFill E) s"
    and "stays_calm s0 (tell_and_resume m) s"
  using assms
  by (auto simp: calm_simps userAccountBitcoinGettingKeyLocked_So_GetSavingCASbitcoinKeySetNPageY_def
      bitcoinKeySetN_currentPage_Locked_soDoKeyRangeClaimAndNextPageCreation_def unlockUserAccountSafelyFromBitcoinGettingKeyBecauseWeGotAKey_def
      uuidPerRefillIsSeenOnHugeBitcoinListSoProceedWithActualNextPageFill_def split: option.splits)

lemma calm_huge:
  assumes "awake s0 s"
  shows "stays_calm s0 (huge_page_missing E) s" "stays_calm s0 (huge_page_full E) s"
  using assms
  by (auto simp: calm_simps huge_page_missing_def huge_page_full_def
      bitcoinKeySetN_currentPage_Locked_soDoKeyRangeClaimAndNextPageCreation_def split: option.splits)

lemma calm_key_scan: "awake s0 s \<Longrightarrow> stays_calm s0 (after_key_scan E pt c r) s"
  by (cases r) (auto simp: calm_simps after_key_scan_def unlockUserAccountSafelyFromBitcoinGettingKeyBecauseWeGotAKey_def
      split: option.splits)

lemma calm_range_scan: "awake s0 s \<Longrightarrow> stays_calm s0 (after_range_scan E pt c r) s"
  using calm_huge(2) [of s0 s E]
  by (cases r) (auto simp: calm_simps after_range_scan_def uuidPerRefillIsSeenOnHugeBitcoinListSoProceedWithActualNextPageFill_def)

lemma calm_got_page: "awake s0 s \<Longrightarrow> stays_calm s0 (gotBitcoinKeySetNpageYSoAnalyzeItForUUIDandEnoughRoomEtc E d c ok err) s"
  by (auto simp: gotBitcoinKeySetNpageYSoAnalyzeItForUUIDandEnoughRoomEtc_def when_answered_def calm_pages run_rules parse_json_def
      intro!: runs_scan_keys calm_key_scan split: option.splits)

lemma calm_got_huge_page: "awake s0 s \<Longrightarrow> stays_calm s0 (getHugeBitcoinKeyListActualPageAttemptCompleted E d c ok err) s"
  by (auto simp: getHugeBitcoinKeyListActualPageAttemptCompleted_def calm_pages calm_huge run_rules parse_json_def
      intro!: runs_scan_ranges calm_range_scan split: option.splits)

lemma calm_proceed:
  "awake s0 s \<Longrightarrow> stays_calm s0 (proceedToBitcoinKeySetNgettingAfterLockingUserAccount_UnlessUserAccountAlreadyLocked E) s"
  using calm_pages(1) [of s0 s]
  by (auto simp: calm_simps proceedToBitcoinKeySetNgettingAfterLockingUserAccount_UnlessUserAccountAlreadyLocked_def split: option.splits)

lemma awake_updates [simp]:
  "awake s0 (s\<lparr>m_BitcoinKeySetCurrentPageCAS := a\<rparr>) = awake s0 s"
  "awake s0 (s\<lparr>m_BitcoinKeySetPage_aka_PageY := b\<rparr>) = awake s0 s"
  "awake s0 (s\<lparr>m_FillingNextBitcoinKeySetPerFillUuid := b\<rparr>) = awake s0 s"
  "awake s0 (s\<lparr>m_FillingNextStartingFromPageZ := b\<rparr>) = awake s0 s"
  "awake s0 (s\<lparr>m_FillingNextStartingFromPageZ_NON_CHANGING := b\<rparr>) = awake s0 s"
  "awake s0 (s\<lparr>m_PageZisFromCurrentPageInDb := f\<rparr>) = awake s0 s"
  "awake s0 (s\<lparr>m_UserAccountCASforBitcoinGettingKeyLockingAndUnlocking := a\<rparr>) = awake s0 s"
  by (simp_all add: awake_def credit_view_def)

lemma calm_analyze: "awake s0 s \<Longrightarrow> stays_calm s0 (analyzeBitcoinKeySetN_CurrentPageDocToSeeWhatPageItIsOnAndIfItIsLocked E d c ok err) s"
  by (auto simp: analyzeBitcoinKeySetN_CurrentPageDocToSeeWhatPageItIsOnAndIfItIsLocked_def when_answered_def calm_pages run_rules
      parse_json_def pt_need_def Let_def intro!: calm_proceed split: option.splits)

lemma calm_transition:
  "awake s0 s \<Longrightarrow> stays_calm s0 (checkNotAttemptingToFillAkaPurchaseSlotThenTransitionIntoGettingBitcoinKeyState E now d c ok err) s"
  by (auto simp: calm_simps checkNotAttemptingToFillAkaPurchaseSlotThenTransitionIntoGettingBitcoinKeyState_def start_new_request_def
      take_up_old_request_def split: option.splits)

lemma calm_others:
  assumes "awake s0 s"
  shows "stays_calm s0 (hugeBitcoinKeyListCurrentPageGetComplete E d c ok err) s"
    and "stays_calm s0 (doneAttemptingBitcoinKeySetNnextPageYcreation E err) s"
    and "stays_calm s0 (doneReLockingBitcoinKeySetN_CurrentPage_withNewFromPageZvalue err) s"
  using assms
  by (auto simp: calm_simps hugeBitcoinKeyListCurrentPageGetComplete_def doneAttemptingBitcoinKeySetNnextPageYcreation_def
      doneReLockingBitcoinKeySetN_CurrentPage_withNewFromPageZvalue_def split: option.splits)

lemma calm_done:
  assumes "awake s0 s"
  shows "stays_calm s0 (doneAttemptingToUpdateBitcoinKeySetViaCASswapAkaClaimingAKey E ok err) s"
    and "stays_calm s0 (doneAttemptingHugeBitcoinKeyListKeyRangeClaim E ok err) s"
    and "stays_calm s0 (doneChangingHugeBitcoinKeyListCurrentPage err) s"
    and "stays_calm s0 (attemptToLockBitcoinKeySetNintoFillingNextPageModeComplete c ok err) s"
    and "stays_calm s0 (userAccountBitcoinLockedIntoGettingKeyAttemptComplete c ok err) s"
  using assms
  by (simp_all add: doneAttemptingToUpdateBitcoinKeySetViaCASswapAkaClaimingAKey_def doneAttemptingHugeBitcoinKeyListKeyRangeClaim_def
      doneChangingHugeBitcoinKeyListCurrentPage_def attemptToLockBitcoinKeySetNintoFillingNextPageModeComplete_def
      userAccountBitcoinLockedIntoGettingKeyAttemptComplete_def calm_pages run_rules)

lemma calm_next:
  assumes "awake s0 s"
  shows "stays_calm s0 (getBitcoinKeySetNPageYAttemptFinishedSoCheckItIfItExistsAndMakeItIfItDont E d c ok err) s"
    and "stays_calm s0 (doneAttemptingToUnlockBitcoinKeySetN_CurrentPage E ok err) s"
  using assms calm_got_page [OF assms, of E d c True False] calm_proceed [OF assms, of E]
  by (auto simp: getBitcoinKeySetNPageYAttemptFinishedSoCheckItIfItExistsAndMakeItIfItDont_def
      doneAttemptingToUnlockBitcoinKeySetN_CurrentPage_def calm_pages run_rules tab_get_def tab_ask_def tab_defer_def tab_out_def
      calm_def awake_def credit_view_def)

subsection \<open>The invariant through a calm handler\<close>

lemma money_grows:
  "money_inv E h s \<Longrightarrow> credit_view s' = credit_view s \<Longrightarrow> money_inv E (h @ l) s'"
  unfolding money_inv_def credit_view_def backed_def by (auto intro: subseq_rev_drop_many)

lemma calm_inv:
  assumes "money_inv E h s" "calm s s'" "m_PopulatedAndInitializing s"
  shows "credit_inv E (h @ l) s'"
proof -
  have "credit_pending E (h @ l) s' r" if "calm_request s' r" for r
    using that by (cases r) simp_all
  moreover have "deferrals r \<le> 2" for r :: "'a tab_request" by (cases r) simp_all
  ultimately show ?thesis using assms money_grows [OF assms(1), of s' l]
    by (auto simp: credit_inv_def calm_def credit_view_def split: list.splits intro: order_trans)
qed


lemma subseq_then: "subseq a h \<Longrightarrow> subseq b l \<Longrightarrow> subseq (a @ b) (h @ l)"
  by (rule list_emb_append_mono)

text \<open>The log after a handler that took input \<open>i\<close>.\<close>

abbreviation after_input :: "'j tab_event list \<Rightarrow> 'j tab_input \<Rightarrow> 'j funds \<Rightarrow> 'j tab_event list" where
  "after_input h i s \<equiv> h @ TabInput i # map TabOutput (tab_outputs s)"

abbreviation credits :: "'j funds_env \<Rightarrow> 'j tab_event list \<Rightarrow> 'j tab_input \<Rightarrow> ('j funds, unit) prog \<Rightarrow> 'j funds \<Rightarrow> bool" where
  "credits E h i m s \<equiv> runs_to m (\<lambda>_ s'. credit_inv E (after_input h i s') s') (\<lambda>_. True) s"

lemma credits_calm:
  assumes "money_inv E h s" "stays_calm s m s" "m_PopulatedAndInitializing s"
  shows "credits E h i m s"
  using assms(2) by (rule runs_to_mono) (auto intro: calm_inv assms(1,3))

lemma money_inv_prepared [simp]: "money_inv E h (prepared s rs) = money_inv E h s"
  by (simp add: money_inv_def backed_def prepared_def)

subsection \<open>Clicks\<close>

lemma click_idle: "credit_inv E h s \<Longrightarrow> tab_click i s \<Longrightarrow> tab_pending s = [] \<and> app_DeferCount s = 0"
proof (cases "tab_pending s")
  case Nil
  assume "credit_inv E h s" "tab_click i s"
  then show ?thesis using Nil by (cases i) (auto simp: credit_inv_def)
next
  case (Cons r rs)
  assume "credit_inv E h s" "tab_click i s"
  then show ?thesis using Cons by (cases i; cases r) (auto simp: credit_inv_def split: list.splits)
qed

lemmas credit_simps = run_rules fund_ops credit_inv_def money_inv_def backed_def prepared_def

lemma click_calm:
  assumes "credit_inv E h s" "tab_click ClickGetKey s"
  shows "credits E h i handleGetBitcoinKeyButtonClicked (prepared s (tab_pending s))"
  using assms click_idle [OF assms]
  by (intro credits_calm)
    (auto simp: calm_simps handleGetBitcoinKeyButtonClicked_def credit_inv_def money_inv_def prepared_def backed_def)

lemma click_show:
  assumes "credit_inv E h s" "tab_click ShowTab s"
  shows "credits E h i onTabBeingShown (prepared s (tab_pending s))"
  using assms click_idle [OF assms]
  by (auto simp: credit_simps onTabBeingShown_def populateAndInitialize_def subseq_rev_drop_many)

lemma click_poll:
  assumes "credit_inv E h s" "tab_click j s" "m_HaveBitcoinKeyPlaceholder s \<or> m_PendingBitcoinBalanceLabel s"
  shows "credits E h i (checkForPendingBitcoinBalanceButtonClicked now posted) (prepared s (tab_pending s))"
    and "credits E h i (checkForConfirmedBitcoinBalanceButtonClicked now posted) (prepared s (tab_pending s))"
  using assms click_idle [OF assms(1,2)]
  by (auto simp: credit_simps checkForPendingBitcoinBalanceButtonClicked_def checkForConfirmedBitcoinBalanceButtonClicked_def
      sendRpcJsonBalanceRequestToBitcoinD_def intro: subseq_rev_drop_many)

lemma read_after:
  "subseq (confirmed_events k body) h \<Longrightarrow> subseq (read_events u k body) (h @ [TabInput i, TabOutput (Ask (TabGet (userAccountKey u)))])"
  unfolding read_events_def by (rule subseq_then) (simp_all add: subseq_singleton_left)

lemma click_done:
  assumes "credit_inv E h s" "tab_click ClickDone s"
  shows "credits E h i doneSendingBitcoinsToCurrentAddressButtonClicked (prepared s (tab_pending s))"
  using assms click_idle [OF assms]
  by (auto simp: credit_simps doneSendingBitcoinsToCurrentAddressButtonClicked_def intro: subseq_rev_drop_many read_after)


subsection \<open>Answers\<close>

lemma credit_clicked:
  assumes "credit_inv E h s" "tab_click i s" "tab_handle E now i (prepared s (tab_pending s)) = Ret () s'"
  shows "credit_inv E (after_input h i s') s'"
proof -
  have "credits E h i (tab_handle E now i) (prepared s (tab_pending s))"
    using assms by (cases i) (simp_all add: click_calm click_show click_done click_poll [OF assms(1,2)])
  with assms(3) show ?thesis by (simp add: runs_to_def)
qed

text \<open>An answer to the only pending request arrives.\<close>

lemma answer_one: "credit_inv E h s \<Longrightarrow> tab_pending s = r # rs \<Longrightarrow> rs = [] \<and> deferrals r \<le> app_DeferCount s \<and> credit_pending E h s r"
  by (auto simp: credit_inv_def split: list.splits)

lemma payment_confirmed:
  assumes "money_inv E h s" "m_HaveBitcoinKeyPlaceholder s" "m_PopulatedAndInitializing s" "reports E body balance"
    and "TabOutput (Ask (TabPoll (m_CurrentBitcoinKeyForPayments s) 1)) \<in> set h"
  shows "money_inv E (h @ TabInput (AnswerPoll True body) # l)
    (s\<lparr>m_ConfirmedBitcoinBalanceLabel := True, m_ConfirmedBitcoinBalanceInSatoshis := balance, tab_outputs := os\<rparr>)"
proof -
  have "subseq (confirmed_events (m_CurrentBitcoinKeyForPayments s) body) (h @ [TabInput (AnswerPoll True body)] @ l)"
    unfolding confirmed_events_def using assms(5)
      subseq_then [of "[TabOutput (Ask (TabPoll (m_CurrentBitcoinKeyForPayments s) 1))]" h "[TabInput (AnswerPoll True body)]"]
    by (simp add: subseq_singleton_left)
  then show ?thesis using assms by (auto simp: money_inv_def backed_def)
qed

lemma answer_balance:
  assumes m: "money_inv E h s" and p: "m_HaveBitcoinKeyPlaceholder s" "m_PopulatedAndInitializing s" and b: "0 < balance \<Longrightarrow> reports E body balance"
    and asked: "\<not> m_PollingPendingBalance s \<Longrightarrow> TabOutput (Ask (TabPoll (m_CurrentBitcoinKeyForPayments s) 1)) \<in> set h"
    and i: "tab_pending s = []" "0 \<le> app_DeferCount s" "tab_outputs s = []"
  shows "credits E h (AnswerPoll True body) (balance_received x balance) s"
proof (cases "0 < balance \<and> \<not> m_PollingPendingBalance s")
  case True
  with payment_confirmed [OF m p b asked] i show ?thesis
    by (simp add: balance_received_def run_rules tell_def tab_out_def credit_inv_def)
next
  case False
  show ?thesis
  proof (cases "m_PollingPendingBalance s \<and> 0 < balance")
    case True
    with m p i asked show ?thesis
      by (auto simp: balance_received_def run_rules tell_def tab_out_def credit_inv_def money_inv_def backed_def subseq_rev_drop_many)
  next
    case other: False
    with False i p(2) show ?thesis
      by (intro credits_calm [OF m]) (auto simp: calm_simps balance_received_def)
  qed
qed

lemma answer_polled:
  assumes c: "credit_inv E h s" and p: "tab_pending s = [TabPoll k m]"
  shows "credits E h (AnswerPoll ok body) (handleBitcoinAddressBalancePollerReceivedResponse E ok body) (prepared s [])"
proof -
  let ?s = "(prepared s [])\<lparr>app_DeferCount := app_DeferCount s - 1\<rparr>"
  from c p have q: "money_inv E h ?s" "m_HaveBitcoinKeyPlaceholder ?s" "m_PopulatedAndInitializing ?s" "1 \<le> app_DeferCount s"
      "\<not> m_PollingPendingBalance ?s \<Longrightarrow> TabOutput (Ask (TabPoll (m_CurrentBitcoinKeyForPayments ?s) 1)) \<in> set h"
    by (auto simp: credit_inv_def money_inv_def backed_def prepared_def)
  have quiet: "credits E h (AnswerPoll ok body) (tell Tab500) ?s"
    using q by (intro credits_calm [OF q(1)]) (auto simp: calm_simps prepared_def)
  have "credits E h (AnswerPoll True body) (balance_received x b) ?s" if "0 < b \<Longrightarrow> reports E body b" for x b
    using q that by (intro answer_balance) (simp_all add: prepared_def)
  with quiet show ?thesis
    by (auto simp: handleBitcoinAddressBalancePollerReceivedResponse_def run_rules tab_resume_def parse_json_def pt_need_def prepared_def
        reports_def split: option.splits)
qed


text \<open>The answers that change the mode of the tab, or credit.\<close>

lemma answer_have_key:
  assumes "money_inv E h s" "m_PopulatedAndInitializing s" "tab_pending s = []" "1 \<le> app_DeferCount s" "tab_outputs s = []"
  shows "credits E h i (andthen (changeToHaveBitcoinKeyMode key) (\<lambda>_. tab_resume)) s"
  using assms by (auto simp: credit_simps changeToHaveBitcoinKeyMode_def subseq_rev_drop_many)

lemma answer_unlocked:
  assumes "money_inv E h s" "m_PopulatedAndInitializing s" "tab_pending s = []" "1 \<le> app_DeferCount s" "tab_outputs s = []"
  shows "credits E h i (doneAttemptingToUnlockUserAccountFromBitcoinGettingKeyToBitcoinHaveKey ok err) s"
  using answer_have_key [OF assms] credits_calm [OF assms(1) _ assms(2), of "tell_and_resume m" for m]
    calm_pages(5) [of s s] assms
  by (simp add: doneAttemptingToUnlockUserAccountFromBitcoinGettingKeyToBitcoinHaveKey_def run_rules awake_def)

lemma answer_determined:
  assumes "money_inv E h s" "m_PopulatedAndInitializing s" "tab_pending s = []" "1 \<le> app_DeferCount s" "tab_outputs s = []"
    and "m_ConfirmedBitcoinBalanceInSatoshis s = 0"
  shows "credits E h i (determineBitcoinStateButDontLetThemProceedForwardIfLocked E now d c ok err) s"
proof -
  have a: "awake s s" using assms by (simp add: awake_def)
  note calm = credits_calm [OF assms(1) _ assms(2)]
  have "credits E h i (andthen changeToGetBitcoinKeyMode (\<lambda>_. tab_resume)) s"
    using assms by (auto simp: credit_simps changeToGetBitcoinKeyMode_def)
  moreover have "credits E h i (checkNotAttemptingToFillAkaPurchaseSlotThenTransitionIntoGettingBitcoinKeyState E now d c True False) s"
    by (rule calm [OF calm_transition [OF a]])
  moreover have "credits E h i tab_resume s"
    using assms by (intro calm) (auto simp: calm_simps)
  moreover have "credits E h i (tell_and_resume m) s" for m by (rule calm [OF calm_pages(5) [OF a]])
  ultimately show ?thesis using answer_have_key [OF assms(1-5)]
    by (auto simp: determineBitcoinStateButDontLetThemProceedForwardIfLocked_def when_answered_def run_rules parse_json_def pt_need_def
        split: option.splits)
qed

lemma answer_creditted:
  assumes "money_inv E h s" "m_PopulatedAndInitializing s" "tab_pending s = []" "1 \<le> app_DeferCount s" "tab_outputs s = []"
  shows "credits E h i (doneAttemptingCredittingConfirmedBitcoinBalanceForCurrentPaymentKey ok err) s"
proof -
  have a: "awake s s" using assms by (simp add: awake_def)
  have "credits E h i (tell_and_resume m) s" for m by (rule credits_calm [OF assms(1) calm_pages(5) [OF a] assms(2)])
  then show ?thesis using assms
    by (auto simp: doneAttemptingCredittingConfirmedBitcoinBalanceForCurrentPaymentKey_def changeToGetBitcoinKeyMode_def run_rules tell_def
        tab_out_def tab_resume_def credit_inv_def money_inv_def split: option.splits)
qed

lemma answer_to_credit:
  assumes m: "money_inv E h s" "m_PopulatedAndInitializing s" "tab_pending s = []" "2 \<le> app_DeferCount s + 1" "tab_outputs s = []"
    and amount: "ABC_MIN_ADD_FUNDS_AMOUNT_IN_SATOSHIS \<le> m_ConfirmedBitcoinBalanceInSatoshis s"
    and r: "reports E body (m_ConfirmedBitcoinBalanceInSatoshis s)"
    and l: "subseq (read_events (app_CurrentlyLoggedInUsername s) (m_CurrentBitcoinKeyForPayments s) body) h"
  shows "credits E h (AnswerGet d c ok err) (creditConfirmedBitcoinAmountAfterAnalyzingUserAccount E d c ok err) s"
proof -
  have a: "awake s s" using m by (simp add: awake_def)
  have quiet: "credits E h i (tell_and_resume m) s" for m i by (rule credits_calm [OF m(1) calm_pages(5) [OF a] m(2)])
  have log: "subseq (credit_events u k body d c new) (h @ [TabInput (AnswerGet d c True False), TabOutput (Ask (TabCasStore (userAccountKey u) new c))])"
    if "u = app_CurrentlyLoggedInUsername s" "k = m_CurrentBitcoinKeyForPayments s" for u k new
    unfolding credit_events_def using l that by (intro subseq_then) simp_all
  let ?u = "app_CurrentlyLoggedInUsername s" and ?k = "m_CurrentBitcoinKeyForPayments s" and ?a = "m_ConfirmedBitcoinBalanceInSatoshis s"
  let ?asks = "\<lambda>new b. s\<lparr>app_BalanceSatoshiStringForDisplayingOnly := b, app_DeferCount := app_DeferCount s + 1,
      tab_outputs := [Ask (TabCasStore (userAccountKey ?u) new c)], tab_pending := [TabCasStore (userAccountKey ?u) new c],
      app_WhatTheStoreWithInputCasWasFor := CREDITCONFIRMEDBITCOINBALANCEFORCURRENTPAYMENTKEYCASSWAPUSERACCOUNT\<rparr>"
  have asks: "credit_inv E (after_input h (AnswerGet d c True False) (?asks new b)) (?asks new b)" if "credit_of E d ?k ?a new" for new b
  proof -
    have "credit_pending E (after_input h (AnswerGet d c True False) (?asks new b)) (?asks new b) (TabCasStore (userAccountKey ?u) new c)"
      using that log [OF refl refl, of new] amount r by (simp, blast)
    then show ?thesis using m by (auto simp: credit_inv_def money_inv_def backed_def subseq_rev_drop_many)
  qed
  have "credits E h (AnswerGet d c True False) (creditConfirmedBitcoinAmountAfterAnalyzingUserAccount E d c True False) s"
  proof -
    have "credit_inv E (h @ [TabInput (AnswerGet d c True False), TabOutput (Ask (TabCasStore (userAccountKey ?u) new c))]) (?asks new b)"
      if "credit_of E d ?k ?a new" for new b
      using asks [OF that] by simp
    then show ?thesis
      using quiet m(3,5)
      by (auto simp: creditConfirmedBitcoinAmountAfterAnalyzingUserAccount_def when_answered_def run_rules parse_json_def pt_need_def Let_def
          tab_cas_store_def tab_ask_def tab_out_def tab_defer_def credit_of_def split: option.splits)
  qed
  with quiet show ?thesis
    by (cases err; cases ok) (simp_all add: creditConfirmedBitcoinAmountAfterAnalyzingUserAccount_def when_answered_def)
qed


text \<open>Every answer finds its handler with no request pending and rendering resumed once.\<close>

lemma dispatched:
  "t = s\<lparr>app_DeferCount := app_DeferCount s - 1\<rparr> \<Longrightarrow> credits E h i (andthen tab_resume (\<lambda>_. reading F)) s = credits E h i (F t) t"
  by (simp add: run_rules tab_resume_def Let_def)

lemma answered_start:
  assumes "credit_inv E h s" "tab_pending s = [r]" "deferrals r = 2"
    and "t = (prepared s [])\<lparr>app_DeferCount := app_DeferCount (prepared s []) - 1\<rparr>"
  shows "money_inv E h t" "m_PopulatedAndInitializing t" "tab_pending t = []" "1 \<le> app_DeferCount t" "tab_outputs t = []" "awake t t"
    "credit_pending E h t r"
  using assms by (auto simp: credit_inv_def money_inv_def backed_def prepared_def awake_def split: list.splits)
    (cases r; auto)+

lemma answer_get:
  assumes s: "credit_inv E h s" "tab_pending s = [TabGet k]"
  shows "credits E h (AnswerGet d c ok err) (tab_get_finished E now d c ok err) (prepared s [])"
proof -
  define t where "t = (prepared s [])\<lparr>app_DeferCount := app_DeferCount (prepared s []) - 1\<rparr>"
  note t = answered_start [OF s _ t_def, simplified]
  note calm = credits_calm [OF t(1) _ t(2)]
  have idle: "stays_calm t (return ()) t" using t(6) by (simp add: calm_simps)
  show ?thesis
  proof (cases "app_WhatTheGetSavingCasWasFor t")
    case CREDITCONFIRMEDBITCOINAMOUNTAFTERANALYZINGUSERACCOUNT
    with t(7) obtain body where "ABC_MIN_ADD_FUNDS_AMOUNT_IN_SATOSHIS \<le> m_ConfirmedBitcoinBalanceInSatoshis t"
        "reports E body (m_ConfirmedBitcoinBalanceInSatoshis t)"
        "subseq (read_events (app_CurrentlyLoggedInUsername t) (m_CurrentBitcoinKeyForPayments t) body) h" by auto
    then show ?thesis using CREDITCONFIRMEDBITCOINAMOUNTAFTERANALYZINGUSERACCOUNT t
      by (simp add: tab_get_finished_def dispatched [OF t_def]) (rule answer_to_credit; simp)
  next
    case DETERMINEBITCOINSTATEBUTDONTLETTHEMPROCEEDIFLOCKED
    then show ?thesis using t
      by (simp add: tab_get_finished_def dispatched [OF t_def] answer_determined)
  qed (simp_all add: tab_get_finished_def dispatched [OF t_def] calm calm_transition calm_analyze calm_got_page calm_next calm_others
      calm_got_huge_page t idle)
qed

lemma answer_store:
  assumes s: "credit_inv E h s" "tab_pending s = [TabCasStore k d c]"
  shows "credits E h (AnswerCasStore ok err) (tab_cas_store_finished E ok err) (prepared s [])"
proof -
  define t where "t = (prepared s [])\<lparr>app_DeferCount := app_DeferCount (prepared s []) - 1\<rparr>"
  note t = answered_start [OF s _ t_def, simplified]
  have idle: "stays_calm t (return ()) t" using t(6) by (simp add: calm_simps)
  show ?thesis
    by (cases "app_WhatTheStoreWithInputCasWasFor t")
      (simp_all add: tab_cas_store_finished_def dispatched [OF t_def] credits_calm [OF t(1) _ t(2)] calm_done calm_next calm_others
        answer_unlocked answer_creditted t idle)
qed

lemma answer_lock:
  assumes s: "credit_inv E h s" "tab_pending s = [TabCasStoreSavingCas k d c]"
  shows "credits E h (AnswerCasStoreSavingCas c' ok err) (tab_cas_store_saving_cas_finished c' ok err) (prepared s [])"
proof -
  define t where "t = (prepared s [])\<lparr>app_DeferCount := app_DeferCount (prepared s []) - 1\<rparr>"
  note t = answered_start [OF s _ t_def, simplified]
  have idle: "stays_calm t (return ()) t" using t(6) by (simp add: calm_simps)
  show ?thesis
    by (cases "app_WhatTheStoreWithInputCasSavingOutputCasWasFor t")
      (simp_all add: tab_cas_store_saving_cas_finished_def dispatched [OF t_def] credits_calm [OF t(1) _ t(2)] calm_done t idle)
qed

lemma answer_add:
  assumes s: "credit_inv E h s" "tab_pending s = [TabAdd k d]"
  shows "credits E h (AnswerAdd ok err) (tab_add_finished E ok err) (prepared s [])"
proof -
  define t where "t = (prepared s [])\<lparr>app_DeferCount := app_DeferCount (prepared s []) - 1\<rparr>"
  note t = answered_start [OF s _ t_def, simplified]
  have idle: "stays_calm t (return ()) t" using t(6) by (simp add: calm_simps)
  show ?thesis
    by (cases "app_WhatTheStoreWithoutInputCasWasFor t")
      (simp_all add: tab_add_finished_def dispatched [OF t_def] credits_calm [OF t(1) _ t(2)] calm_others t idle)
qed

lemma credit_answered:
  assumes c: "credit_inv E h s" and p: "tab_pending s = r # rs" and a: "tab_answers r i"
    and run: "tab_handle E now i (prepared s rs) = Ret () s'"
  shows "credit_inv E (after_input h i s') s'"
proof -
  have rs: "rs = []" using answer_one [OF c p] by simp
  have "credits E h i (tab_handle E now i) (prepared s [])"
    using a c p rs by (cases r; cases i) (simp_all add: answer_get answer_store answer_lock answer_add answer_polled)
  with run rs show ?thesis by (simp add: runs_to_def)
qed

subsection \<open>Runs\<close>

lemma credit_new_tab: "new_tab s \<Longrightarrow> credit_inv E [] s"
  by (simp add: new_tab_def credit_inv_def money_inv_def)

lemma credit_reach: "tab_reach E s0 h s \<Longrightarrow> new_tab s0 \<Longrightarrow> credit_inv E h s"
proof (induction rule: tab_reach.induct)
  case start
  then show ?case by (rule credit_new_tab)
next
  case (step h s evs s')
  then have "credit_inv E h s" by simp
  with step(2) show ?case by (auto elim!: tab_step.cases intro: credit_clicked credit_answered)
qed

end
