(* ===== verification/AddFundsSafety.thy ===== *)
theory AddFundsSafety
  imports AddFundsWorld
begin

section \<open>No bitcoin key is given to two requests\<close>

text \<open>
  The invariant of a world: the books keep their claims; a page that a tab created shows the keys of a range that is claimed under the page's
  own name; and every tab with a pending request holds what the request relies on. A tab that is about to write a key into an account has the
  claim of the key, under the UUID of its request, in the current version of the page.
\<close>

subsection \<open>What a pending request relies on\<close>

definition set_page_of :: "'j funds \<Rightarrow> string" where
  "set_page_of s = bitcoinKeySetPageKey (m_BitcoinKeySetIndex_aka_setN s) (m_BitcoinKeySetPage_aka_PageY s)"

definition shows_key :: "'j funds_env \<Rightarrow> 'j db \<Rightarrow> string \<Rightarrow> nat \<Rightarrow> string \<Rightarrow> string \<Rightarrow> bool" where
  "shows_key E db k i u x \<longleftrightarrow> shows_claim (funds_json E) key_field key_uuid_field (db k) i u x"

definition shows_range :: "'j funds_env \<Rightarrow> 'j db \<Rightarrow> string \<Rightarrow> nat \<Rightarrow> string \<Rightarrow> string \<Rightarrow> bool" where
  "shows_range E db k i u x \<longleftrightarrow> shows_claim (funds_json E) range_field range_uuid_field (db k) i u x"

definition key_is_claimed :: "'j funds_env \<Rightarrow> 'j db \<Rightarrow> 'j funds \<Rightarrow> bool" where
  "key_is_claimed E db s \<longleftrightarrow> (m_PerGetBitcoinKeyUUID s \<noteq> ''n'' \<longrightarrow>
     (\<exists>i. shows_key E db (set_page_of s) i (m_PerGetBitcoinKeyUUID s) (m_BitcoinKeyToGiveToUser s)))"

definition filling_own_page :: "'j funds \<Rightarrow> bool" where
  "filling_own_page s \<longleftrightarrow>
     m_FillingNextBitcoinKeySetPerFillUuid s = m_BitcoinKeySetIndex_aka_setN s @ ''_'' @ m_BitcoinKeySetPage_aka_PageY s"

definition range_is_claimed :: "'j funds_env \<Rightarrow> 'j db \<Rightarrow> 'j funds \<Rightarrow> string list \<Rightarrow> bool" where
  "range_is_claimed E db s ks \<longleftrightarrow> (\<exists>z i r. shows_range E db (hugeBitcoinKeyListPageKey z) i
     (m_FillingNextBitcoinKeySetPerFillUuid s) r \<and> ks = split_at (CHR '','') r)"

definition page_lock_ok :: "string \<Rightarrow> ptree \<Rightarrow> bool" where
  "page_lock_ok n t \<longleftrightarrow> (let y = pt_get_default JSON_BITCOIN_KEY_SET_LOCKED_FILLING_NEXT_PAGE ''n'' t in
     y \<noteq> ''n'' \<longrightarrow> (\<forall>u. pt_get JSON_BITCOIN_KEY_SET_FILLING_UUID_PER_FILL t = Some u \<longrightarrow> u = n @ ''_'' @ y))"

definition page_lock_doc :: "'j funds_env \<Rightarrow> string \<Rightarrow> 'j \<Rightarrow> bool" where
  "page_lock_doc E n d \<longleftrightarrow> (\<forall>t. read_json (funds_json E) d = Some t \<longrightarrow> page_lock_ok n t)"

text \<open>A claim about to be stored: the version that was read, with one unclaimed entry claimed.\<close>

definition claiming_key :: "'j funds_env \<Rightarrow> 'j db \<Rightarrow> 'j funds \<Rightarrow> 'j \<Rightarrow> cas \<Rightarrow> bool" where
  "claiming_key E db s d c \<longleftrightarrow> (\<exists>t i. flat t \<and> (write_json (funds_json E) t, c) \<in> set (db (set_page_of s))
     \<and> claimant key_uuid_field i t = None \<and> pt_get (key_field i) t = Some (m_BitcoinKeyToGiveToUser s)
     \<and> d = write_json (funds_json E) (claim_key (m_PerGetBitcoinKeyUUID s) (app_CurrentlyLoggedInUsername s) i t))"

definition claiming_range :: "'j funds_env \<Rightarrow> 'j db \<Rightarrow> 'j funds \<Rightarrow> 'j \<Rightarrow> cas \<Rightarrow> bool" where
  "claiming_range E db s d c \<longleftrightarrow> (\<exists>t i r. flat t \<and> (write_json (funds_json E) t, c) \<in> set (db (hugeBitcoinKeyListPageKey (m_FillingNextStartingFromPageZ s)))
     \<and> claimant range_uuid_field i t = None \<and> pt_get (range_field i) t = Some r
     \<and> m_BitcoinKeysVectorToUseForNextPageFill s = split_at (CHR '','') r
     \<and> d = write_json (funds_json E) (claim_range (m_FillingNextBitcoinKeySetPerFillUuid s) i t))"

fun get_ok :: "TabGetSavingCasPurpose \<Rightarrow> string \<Rightarrow> 'j funds \<Rightarrow> bool" where
  "get_ok TAB_INITIALINVALIDNULLGETSAVINGCAS k s = False"
| "get_ok GETBITCOINKEYSETNCURRENTPAGETOSEEWHATPAGEITISONANDIFITISLOCKED k s =
     (k = bitcoinKeySetCurrentPageKey (m_BitcoinKeySetIndex_aka_setN s))"
| "get_ok GETBITCOINKEYSETNACTUALPAGETOSEEIFUUIDONITENOUGHROOM k s = (k = set_page_of s)"
| "get_ok GETBITCOINKEYSETNPAGEYANDIFITEXISTSLOOPAROUNDCHECKINGUUIDBUTIFNOTEXISTMAKEITEXIST k s = (k = set_page_of s)"
| "get_ok GETHUGEBITCOINKEYLISTCURRENTPAGE k s = (k = hugeBitcoinKeyListCurrentPageKey)"
| "get_ok GETHUGEBITCOINKEYLISTACTUALPAGEFORANALYZINGANDMAYBECLAIMINGKEYRANGE k s =
     (k = hugeBitcoinKeyListPageKey (m_FillingNextStartingFromPageZ s) \<and> filling_own_page s)"
| "get_ok _ k s = (k = userAccountKey (app_CurrentlyLoggedInUsername s))"

fun cas_store_ok :: "'j funds_env \<Rightarrow> 'j db \<Rightarrow> TabCasStorePurpose \<Rightarrow> string \<Rightarrow> 'j \<Rightarrow> cas \<Rightarrow> 'j funds \<Rightarrow> bool" where
  "cas_store_ok E db TAB_INITIALINVALIDNULLSTOREWITHCAS k d c s = False"
| "cas_store_ok E db UNLOCKUSERACCOUNTFROMBITCOINGETTINGKEYTOBITCOINHAVEKEY k d c s =
     (k = userAccountKey (app_CurrentlyLoggedInUsername s) \<and> key_is_claimed E db s
     \<and> (\<exists>t. d = write_json (funds_json E) (have_key_doc (m_BitcoinKeyToGiveToUser s) t)))"
| "cas_store_ok E db CLAIMBITCOINKEYONBITCOINKEYSETVIACASSWAP k d c s = (k = set_page_of s \<and> claiming_key E db s d c)"
| "cas_store_ok E db HUGEBITCOINKEYLISTKEYRANGECLAIMATTEMPT k d c s =
     (k = hugeBitcoinKeyListPageKey (m_FillingNextStartingFromPageZ s) \<and> filling_own_page s \<and> claiming_range E db s d c)"
| "cas_store_ok E db HUGEBITCOINKEYLISTPAGECHANGE k d c s = (k = hugeBitcoinKeyListCurrentPageKey \<and> filling_own_page s)"
| "cas_store_ok E db CREDITCONFIRMEDBITCOINBALANCEFORCURRENTPAYMENTKEYCASSWAPUSERACCOUNT k d c s =
     (k = userAccountKey (app_CurrentlyLoggedInUsername s))"
| "cas_store_ok E db _ k d c s =
     (k = bitcoinKeySetCurrentPageKey (m_BitcoinKeySetIndex_aka_setN s) \<and> page_lock_doc E (m_BitcoinKeySetIndex_aka_setN s) d)"

fun lock_store_ok :: "'j funds_env \<Rightarrow> TabCasStoreSavingCasPurpose \<Rightarrow> string \<Rightarrow> 'j \<Rightarrow> 'j funds \<Rightarrow> bool" where
  "lock_store_ok E TAB_INITIALINVALIDNULLSTOREWITHCASSAVINGCAS k d s = False"
| "lock_store_ok E USERACCOUNTBITCOINLOCKEDINTOGETTINGKEYMODE k d s = (k = userAccountKey (app_CurrentlyLoggedInUsername s))"
| "lock_store_ok E LOCKINGBITCOINKEYSETNINTOFILLINGNEXTPAGEMODE k d s = (k = bitcoinKeySetCurrentPageKey (m_BitcoinKeySetIndex_aka_setN s)
     \<and> page_lock_doc E (m_BitcoinKeySetIndex_aka_setN s) d \<and> filling_own_page s)"

fun add_ok :: "'j funds_env \<Rightarrow> 'j db \<Rightarrow> TabAddPurpose \<Rightarrow> string \<Rightarrow> 'j \<Rightarrow> 'j funds \<Rightarrow> bool" where
  "add_ok E db TAB_INITIALINVALIDNULLSTOREWITHOUTINPUTCAS k d s = False"
| "add_ok E db BITCOINKEYSETNPAGEYCREATIONVIALCBADD k d s = (k = set_page_of s \<and> filling_own_page s
     \<and> (\<exists>ks. range_is_claimed E db s ks \<and> d = write_json (funds_json E) (page_of_keys 0 ks pt_empty)))"

fun ask_ok :: "'j funds_env \<Rightarrow> 'j db \<Rightarrow> 'j funds \<Rightarrow> 'j tab_request \<Rightarrow> bool" where
  "ask_ok E db s (TabGet k) = get_ok (app_WhatTheGetSavingCasWasFor s) k s"
| "ask_ok E db s (TabCasStore k d c) = cas_store_ok E db (app_WhatTheStoreWithInputCasWasFor s) k d c s"
| "ask_ok E db s (TabCasStoreSavingCas k d c) = lock_store_ok E (app_WhatTheStoreWithInputCasSavingOutputCasWasFor s) k d s"
| "ask_ok E db s (TabAdd k d) = add_ok E db (app_WhatTheStoreWithoutInputCasWasFor s) k d s"
| "ask_ok E db s (TabPoll key minconf) = True"

fun deferred_by :: "'j tab_request \<Rightarrow> int" where
  "deferred_by (TabPoll key minconf) = 1"
| "deferred_by _ = 2"

fun tab_ok :: "'j funds_env \<Rightarrow> 'j db \<Rightarrow> 'j tab_request list \<Rightarrow> 'j funds \<Rightarrow> bool" where
  "tab_ok E db [] s = (app_DeferCount s = 0)"
| "tab_ok E db [r] s = (app_DeferCount s = deferred_by r \<and> ask_ok E db s r)"
| "tab_ok E db (r # r' # rs) s = False"

definition tab_safe :: "'j funds_env \<Rightarrow> 'j db \<Rightarrow> 'j funds \<Rightarrow> bool" where
  "tab_safe E db s \<longleftrightarrow> tab_ok E db (tab_pending s) s"

definition tab_ready :: "'j funds \<Rightarrow> bool" where
  "tab_ready s \<longleftrightarrow> tab_pending s = [] \<and> app_DeferCount s = 1"

lemmas tab_ops = tab_out_def tab_defer_def tab_resume_def tab_ask_def tab_get_def tab_cas_store_def tab_cas_store_saving_cas_def
  tab_add_def tell_def tell_and_resume_def when_answered_def parse_json_def pt_need_def
  showOutOfBitcoinKeysErrorToUserInAddFundsPlaceholderLayout_def

lemmas asked_facts = set_page_of_def filling_own_page_def key_is_claimed_def claiming_key_def claiming_range_def range_is_claimed_def

abbreviation makes_safe :: "'j funds_env \<Rightarrow> 'j db \<Rightarrow> ('j funds, unit) prog \<Rightarrow> 'j funds \<Rightarrow> bool" where
  "makes_safe E db m s \<equiv> runs_to m (\<lambda>_. tab_safe E db) (\<lambda>_. True) s"

subsection \<open>Every handler leaves its tab safe\<close>

lemma safe_tell_and_resume: "tab_ready s \<Longrightarrow> makes_safe E db (tell_and_resume m) s"
  by (simp add: run_rules tab_ops tab_ready_def tab_safe_def)

lemma safe_when_answered:
  assumes "tab_ready s" "ok \<Longrightarrow> \<not> err \<Longrightarrow> makes_safe E db m s"
  shows "makes_safe E db (when_answered ok err m) s"
  using assms safe_tell_and_resume [of s] by (simp add: when_answered_def)

lemma safe_get_page:
  assumes "tab_ready s"
  shows "makes_safe E db userAccountBitcoinGettingKeyLocked_So_GetSavingCASbitcoinKeySetNPageY s"
  using assms by (simp add: userAccountBitcoinGettingKeyLocked_So_GetSavingCASbitcoinKeySetNPageY_def run_rules tab_ops
      tab_ready_def tab_safe_def set_page_of_def)

lemma safe_get_huge_page:
  assumes "tab_ready s" "filling_own_page s"
  shows "makes_safe E db bitcoinKeySetN_currentPage_Locked_soDoKeyRangeClaimAndNextPageCreation s"
  using assms by (simp add: bitcoinKeySetN_currentPage_Locked_soDoKeyRangeClaimAndNextPageCreation_def run_rules tab_ops
      tab_ready_def tab_safe_def filling_own_page_def)

lemma safe_unlock:
  assumes "tab_ready s" "key_is_claimed E db s"
  shows "makes_safe E db (unlockUserAccountSafelyFromBitcoinGettingKeyBecauseWeGotAKey E) s"
  using assms by (auto simp: unlockUserAccountSafelyFromBitcoinGettingKeyBecauseWeGotAKey_def run_rules tab_ops
      tab_ready_def tab_safe_def key_is_claimed_def set_page_of_def split: option.splits)

text \<open>The answer to a get of a book: its current version.\<close>

definition read_current :: "'j funds_env \<Rightarrow> 'j db \<Rightarrow> string \<Rightarrow> 'j \<Rightarrow> cas \<Rightarrow> bool" where
  "read_current E db k d c \<longleftrightarrow> (\<exists>t vs. flat t \<and> d = write_json (funds_json E) t \<and> db k = (d, c) # vs)"

lemma safe_after_key_scan:
  assumes s: "tab_ready s" and t: "flat t" "db (set_page_of s) = (write_json (funds_json E) t, c) # vs"
    and r: "scan_result key_field key_uuid_field (m_PerGetBitcoinKeyUUID s) t r"
  shows "makes_safe E db (after_key_scan E t c r) s"
proof (cases r)
  case (OnPage x)
  have "makes_safe E db (unlockUserAccountSafelyFromBitcoinGettingKeyBecauseWeGotAKey E) (s\<lparr>m_BitcoinKeyToGiveToUser := x\<rparr>)"
    using s t r OnPage
    by (intro safe_unlock) (auto simp: tab_ready_def key_is_claimed_def shows_key_def shows_claim_def set_page_of_def)
  then show ?thesis using OnPage by (simp add: after_key_scan_def run_rules)
next
  case (FirstUnclaimed i x)
  have "(write_json (funds_json E) t, c) \<in> set (db (set_page_of s))" using t by simp
  then show ?thesis using FirstUnclaimed s t(1) r
    by (auto simp: after_key_scan_def run_rules tab_ops tab_ready_def tab_safe_def asked_facts)
next
  case PageFull
  then show ?thesis using s
    by (auto simp: after_key_scan_def run_rules tab_ops tab_ready_def tab_safe_def set_page_of_def split: option.splits)
qed

lemma safe_got_page:
  assumes J: "json_ok (funds_json E)" and s: "tab_ready s" and d: "ok \<Longrightarrow> \<not> err \<Longrightarrow> read_current E db (set_page_of s) d c"
  shows "makes_safe E db (gotBitcoinKeySetNpageYSoAnalyzeItForUUIDandEnoughRoomEtc E d c ok err) s"
proof (unfold gotBitcoinKeySetNpageYSoAnalyzeItForUUIDandEnoughRoomEtc_def, rule safe_when_answered [OF s])
  assume "ok" "\<not> err"
  with d obtain t vs where t: "flat t" "d = write_json (funds_json E) t" "db (set_page_of s) = (d, c) # vs"
    by (auto simp: read_current_def)
  then have "read_json (funds_json E) d = Some t" using J by simp
  with s t show "makes_safe E db (andthen (parse_json (funds_json E) d) (\<lambda>pt. reading (\<lambda>s.
     andthen (scan_keys (m_PerGetBitcoinKeyUUID s) pt 0 ABC_NUM_BITCOIN_KEYS_ON_EACH_BITCOINKEYSET_PAGE) (\<lambda>found.
     after_key_scan E pt c found)))) s"
    by (auto simp: run_rules parse_json_def intro!: runs_scan_keys safe_after_key_scan)
qed

lemma safe_claimed_key:
  assumes "tab_ready s" "ok \<Longrightarrow> \<not> err \<Longrightarrow> key_is_claimed E db s"
  shows "makes_safe E db (doneAttemptingToUpdateBitcoinKeySetViaCASswapAkaClaimingAKey E ok err) s"
  using assms
  by (simp add: doneAttemptingToUpdateBitcoinKeySetViaCASswapAkaClaimingAKey_def safe_get_page safe_unlock safe_tell_and_resume)

lemma safe_unlocked:
  assumes "tab_ready s"
  shows "makes_safe E db (doneAttemptingToUnlockUserAccountFromBitcoinGettingKeyToBitcoinHaveKey ok err) s"
  using assms safe_tell_and_resume
  by (simp add: doneAttemptingToUnlockUserAccountFromBitcoinGettingKeyToBitcoinHaveKey_def changeToHaveBitcoinKeyMode_def run_rules tab_ops
      tab_ready_def tab_safe_def)

lemma safe_next_page:
  assumes "json_ok (funds_json E)" "tab_ready s" "ok \<Longrightarrow> \<not> err \<Longrightarrow> read_current E db (set_page_of s) d c"
  shows "makes_safe E db (getBitcoinKeySetNPageYAttemptFinishedSoCheckItIfItExistsAndMakeItIfItDont E d c ok err) s"
  using assms safe_tell_and_resume [of s] safe_got_page [of E s True False]
  by (auto simp: getBitcoinKeySetNPageYAttemptFinishedSoCheckItIfItExistsAndMakeItIfItDont_def run_rules tab_get_def tab_ask_def
      tab_defer_def tab_out_def tab_ready_def tab_safe_def)

lemma page_lock_put:
  "json_ok (funds_json E) \<Longrightarrow> flat t \<Longrightarrow> page_lock_doc E n (write_json (funds_json E) t) = page_lock_ok n t"
  by (simp add: page_lock_doc_def)

lemma locked_doc_ok:
  "json_ok (funds_json E) \<Longrightarrow> filling_own_page s
    \<Longrightarrow> page_lock_doc E (m_BitcoinKeySetIndex_aka_setN s) (write_json (funds_json E) (current_page_locked_doc s))"
  by (simp add: page_lock_put current_page_locked_doc_def page_lock_ok_def Let_def pt_get_default_def filling_own_page_def)

lemma unlocked_doc_ok:
  "json_ok (funds_json E) \<Longrightarrow> page_lock_doc E n (write_json (funds_json E) (pt_put JSON_BITCOIN_KEY_SET_CURRENT_PAGE y pt_empty))"
  by (simp add: page_lock_put page_lock_ok_def Let_def pt_get_default_def)

lemma safe_lock_set:
  assumes J: "json_ok (funds_json E)" and s: "tab_ready s"
  shows "makes_safe E db (hugeBitcoinKeyListCurrentPageGetComplete E d c ok err) s"
  unfolding hugeBitcoinKeyListCurrentPageGetComplete_def
  apply (rule safe_when_answered [OF s])
  using s
  apply (auto simp: run_rules tab_ops tab_ready_def tab_safe_def filling_own_page_def page_lock_put [OF J] page_lock_ok_def
      current_page_locked_doc_def pt_get_default_def Let_def split: option.splits)
  done

lemma safe_set_locked:
  assumes "tab_ready s" "filling_own_page s"
  shows "makes_safe E db (attemptToLockBitcoinKeySetNintoFillingNextPageModeComplete c ok err) s"
  using assms
  by (auto simp: attemptToLockBitcoinKeySetNintoFillingNextPageModeComplete_def safe_tell_and_resume run_rules
      tab_ready_def filling_own_page_def intro!: safe_get_huge_page)

lemma safe_fill:
  assumes "tab_ready s" "filling_own_page s" "range_is_claimed E db s (m_BitcoinKeysVectorToUseForNextPageFill s)"
  shows "makes_safe E db (uuidPerRefillIsSeenOnHugeBitcoinListSoProceedWithActualNextPageFill E) s"
  using assms by (auto simp: uuidPerRefillIsSeenOnHugeBitcoinListSoProceedWithActualNextPageFill_def run_rules tab_ops
      tab_ready_def tab_safe_def set_page_of_def filling_own_page_def range_is_claimed_def)

lemma safe_huge_missing:
  assumes "json_ok (funds_json E)" "tab_ready s" "filling_own_page s"
  shows "makes_safe E db (huge_page_missing E) s"
  using assms locked_doc_ok [of E s]
  by (auto simp: huge_page_missing_def run_rules tab_ops tab_ready_def tab_safe_def)

lemma safe_huge_full:
  assumes "tab_ready s" "filling_own_page s"
  shows "makes_safe E db (huge_page_full E) s"
  using assms
  by (auto simp: huge_page_full_def bitcoinKeySetN_currentPage_Locked_soDoKeyRangeClaimAndNextPageCreation_def run_rules tab_ops
      tab_ready_def tab_safe_def filling_own_page_def split: option.splits)

lemma safe_after_range_scan:
  assumes s: "tab_ready s" "filling_own_page s" and t: "flat t"
      "db (hugeBitcoinKeyListPageKey (m_FillingNextStartingFromPageZ s)) = (write_json (funds_json E) t, c) # vs"
    and r: "scan_result range_field range_uuid_field (m_FillingNextBitcoinKeySetPerFillUuid s) t r"
  shows "makes_safe E db (after_range_scan E t c r) s"
proof (cases r)
  case (OnPage x)
  have "makes_safe E db (uuidPerRefillIsSeenOnHugeBitcoinListSoProceedWithActualNextPageFill E)
      (s\<lparr>m_BitcoinKeysVectorToUseForNextPageFill := split_at (CHR '','') x\<rparr>)"
  proof (rule safe_fill)
    from r OnPage obtain i where "shows_range E db (hugeBitcoinKeyListPageKey (m_FillingNextStartingFromPageZ s)) i
        (m_FillingNextBitcoinKeySetPerFillUuid s) x"
      using t by (auto simp: shows_range_def shows_claim_def)
    then show "range_is_claimed E db (s\<lparr>m_BitcoinKeysVectorToUseForNextPageFill := split_at (CHR '','') x\<rparr>)
        (m_BitcoinKeysVectorToUseForNextPageFill (s\<lparr>m_BitcoinKeysVectorToUseForNextPageFill := split_at (CHR '','') x\<rparr>))"
      unfolding range_is_claimed_def by auto
  qed (use s in \<open>simp_all add: tab_ready_def filling_own_page_def\<close>)
  then show ?thesis using OnPage by (simp add: after_range_scan_def run_rules)
next
  case (FirstUnclaimed i x)
  have "(write_json (funds_json E) t, c) \<in> set (db (hugeBitcoinKeyListPageKey (m_FillingNextStartingFromPageZ s)))" using t by simp
  then show ?thesis using FirstUnclaimed s t(1) r
    by (auto simp: after_range_scan_def run_rules tab_ops tab_ready_def tab_safe_def asked_facts)
next
  case PageFull
  then show ?thesis using safe_huge_full [OF s] by (simp add: after_range_scan_def)
qed

lemma safe_got_huge_page:
  assumes J: "json_ok (funds_json E)" and s: "tab_ready s" "filling_own_page s"
    and d: "ok \<Longrightarrow> \<not> err \<Longrightarrow> read_current E db (hugeBitcoinKeyListPageKey (m_FillingNextStartingFromPageZ s)) d c"
  shows "makes_safe E db (getHugeBitcoinKeyListActualPageAttemptCompleted E d c ok err) s"
proof (cases "ok \<and> \<not> err")
  case True
  with d obtain t vs where t: "flat t" "d = write_json (funds_json E) t"
      "db (hugeBitcoinKeyListPageKey (m_FillingNextStartingFromPageZ s)) = (d, c) # vs"
    by (auto simp: read_current_def)
  then have "read_json (funds_json E) d = Some t" using J by simp
  with s t True show ?thesis
    by (auto simp: getHugeBitcoinKeyListActualPageAttemptCompleted_def run_rules parse_json_def
        intro!: runs_scan_ranges safe_after_range_scan)
next
  case False
  then show ?thesis using safe_huge_missing [OF J s] safe_tell_and_resume [OF s(1)]
    by (auto simp: getHugeBitcoinKeyListActualPageAttemptCompleted_def)
qed

lemma safe_claimed_range:
  assumes "tab_ready s" "filling_own_page s"
    "ok \<Longrightarrow> \<not> err \<Longrightarrow> range_is_claimed E db s (m_BitcoinKeysVectorToUseForNextPageFill s)"
  shows "makes_safe E db (doneAttemptingHugeBitcoinKeyListKeyRangeClaim E ok err) s"
  using assms by (simp add: doneAttemptingHugeBitcoinKeyListKeyRangeClaim_def safe_tell_and_resume safe_get_huge_page safe_fill)

lemma safe_changed_current:
  assumes "tab_ready s" "filling_own_page s"
  shows "makes_safe E db (doneChangingHugeBitcoinKeyListCurrentPage err) s"
  using assms by (simp add: doneChangingHugeBitcoinKeyListCurrentPage_def safe_tell_and_resume safe_get_huge_page)

lemma safe_relocked:
  assumes "tab_ready s"
  shows "makes_safe E db (doneReLockingBitcoinKeySetN_CurrentPage_withNewFromPageZvalue err) s"
  using assms by (simp add: doneReLockingBitcoinKeySetN_CurrentPage_withNewFromPageZvalue_def
      showOutOfBitcoinKeysErrorToUserInAddFundsPlaceholderLayout_def safe_tell_and_resume)

lemma safe_created:
  assumes "json_ok (funds_json E)" "tab_ready s"
  shows "makes_safe E db (doneAttemptingBitcoinKeySetNnextPageYcreation E err) s"
  using assms unlocked_doc_ok [OF assms(1)]
  by (auto simp: doneAttemptingBitcoinKeySetNnextPageYcreation_def run_rules tab_ops tab_ready_def tab_safe_def)

lemma safe_proceed:
  assumes "tab_ready s"
  shows "makes_safe E db (proceedToBitcoinKeySetNgettingAfterLockingUserAccount_UnlessUserAccountAlreadyLocked E) s"
  using assms safe_get_page [OF assms]
  by (auto simp: proceedToBitcoinKeySetNgettingAfterLockingUserAccount_UnlessUserAccountAlreadyLocked_def run_rules tab_ops
      tab_ready_def tab_safe_def split: option.splits)

lemma safe_set_unlocked:
  assumes "tab_ready s"
  shows "makes_safe E db (doneAttemptingToUnlockBitcoinKeySetN_CurrentPage E ok err) s"
  using assms safe_proceed [OF assms] safe_tell_and_resume [OF assms]
  by (auto simp: doneAttemptingToUnlockBitcoinKeySetN_CurrentPage_def run_rules tab_get_def tab_ask_def tab_defer_def tab_out_def
      tab_ready_def tab_safe_def)

lemma safe_account_locked:
  assumes "tab_ready s"
  shows "makes_safe E db (userAccountBitcoinLockedIntoGettingKeyAttemptComplete c ok err) s"
  using assms by (auto simp: userAccountBitcoinLockedIntoGettingKeyAttemptComplete_def safe_tell_and_resume run_rules
      tab_ready_def intro!: safe_get_page)

lemma safe_analyze:
  assumes s: "tab_ready s" and d: "ok \<Longrightarrow> \<not> err \<Longrightarrow> page_lock_doc E (m_BitcoinKeySetIndex_aka_setN s) d"
  shows "makes_safe E db (analyzeBitcoinKeySetN_CurrentPageDocToSeeWhatPageItIsOnAndIfItIsLocked E d c ok err) s"
  unfolding analyzeBitcoinKeySetN_CurrentPageDocToSeeWhatPageItIsOnAndIfItIsLocked_def
  apply (rule safe_when_answered [OF s])
  apply (drule (1) d)
  using s
  apply (auto simp: run_rules Let_def parse_json_def pt_need_def tab_ready_def page_lock_doc_def page_lock_ok_def filling_own_page_def
      intro!: safe_proceed safe_get_huge_page split: option.splits)
  done

lemma safe_transition:
  assumes s: "tab_ready s"
  shows "makes_safe E db (checkNotAttemptingToFillAkaPurchaseSlotThenTransitionIntoGettingBitcoinKeyState E now d c ok err) s"
  unfolding checkNotAttemptingToFillAkaPurchaseSlotThenTransitionIntoGettingBitcoinKeyState_def
  apply (rule safe_when_answered [OF s])
  using s
  apply (auto simp: run_rules tab_ops start_new_request_def take_up_old_request_def Let_def tab_ready_def tab_safe_def
      split: option.splits)
  done

lemma safe_determine:
  assumes s: "tab_ready s"
  shows "makes_safe E db (determineBitcoinStateButDontLetThemProceedForwardIfLocked E now d c ok err) s"
  unfolding determineBitcoinStateButDontLetThemProceedForwardIfLocked_def
  apply (rule safe_when_answered [OF s])
  using s safe_transition [OF s]
  apply (auto simp: run_rules tab_ops changeToHaveBitcoinKeyMode_def changeToGetBitcoinKeyMode_def tab_ready_def tab_safe_def
      split: option.splits)
  done

lemma safe_credit:
  assumes s: "tab_ready s"
  shows "makes_safe E db (creditConfirmedBitcoinAmountAfterAnalyzingUserAccount E d c ok err) s"
  unfolding creditConfirmedBitcoinAmountAfterAnalyzingUserAccount_def
  apply (rule safe_when_answered [OF s])
  using s
  apply (auto simp: run_rules tab_ops Let_def tab_ready_def tab_safe_def split: option.splits)
  done

lemma safe_creditted:
  assumes "tab_ready s"
  shows "makes_safe E db (doneAttemptingCredittingConfirmedBitcoinBalanceForCurrentPaymentKey ok err) s"
  using assms
  by (auto simp: doneAttemptingCredittingConfirmedBitcoinBalanceForCurrentPaymentKey_def run_rules tab_ops changeToGetBitcoinKeyMode_def
      tab_ready_def tab_safe_def split: option.splits)

lemma safe_polled:
  assumes "tab_ready s"
  shows "makes_safe E db (handleBitcoinAddressBalancePollerReceivedResponse E ok body) s"
  using assms
  by (auto simp: handleBitcoinAddressBalancePollerReceivedResponse_def balance_received_def run_rules tab_ops
      tab_ready_def tab_safe_def split: option.splits)

lemma safe_click:
  assumes "tab_pending s = []" "app_DeferCount s = 0" "tab_click i s'"
  shows "makes_safe E db (tab_handle E now i) s"
  using assms
  by (cases i) (auto simp: onTabBeingShown_def populateAndInitialize_def handleGetBitcoinKeyButtonClicked_def
      checkForPendingBitcoinBalanceButtonClicked_def checkForConfirmedBitcoinBalanceButtonClicked_def
      sendRpcJsonBalanceRequestToBitcoinD_def doneSendingBitcoinsToCurrentAddressButtonClicked_def run_rules tab_ops tab_safe_def)

subsection \<open>The database\<close>

text \<open>A page that a tab created: its entries are the keys of a range claimed under the page's own name.\<close>

definition filled_page :: "'j funds_env \<Rightarrow> 'j db \<Rightarrow> string \<Rightarrow> string \<Rightarrow> string \<Rightarrow> nat \<Rightarrow> string list \<Rightarrow> bool" where
  "filled_page E db n y z i ks \<longleftrightarrow> (\<exists>r. shows_range E db (hugeBitcoinKeyListPageKey z) i (n @ ''_'' @ y) r \<and> ks = split_at (CHR '','') r)
     \<and> (\<exists>t c vs. flat t \<and> db (bitcoinKeySetPageKey n y) = (write_json (funds_json E) t, c) # vs
          \<and> (\<forall>j. pt_get (key_field j) t = (if j < length ks then Some (ks ! j) else None)))"

definition db_books :: "'j funds_env \<Rightarrow> 'j db \<Rightarrow> bool" where
  "db_books E db \<longleftrightarrow> versions_ok db
     \<and> (\<forall>n y. book_versions (funds_json E) key_field key_uuid_field (db (bitcoinKeySetPageKey n y)))
     \<and> (\<forall>z. book_versions (funds_json E) range_field range_uuid_field (db (hugeBitcoinKeyListPageKey z)))
     \<and> (\<forall>n. \<forall>v \<in> set (db (bitcoinKeySetCurrentPageKey n)). page_lock_doc E n (fst v))"

definition db_safe :: "'j funds_env \<Rightarrow> 'j db \<Rightarrow> 'j db \<Rightarrow> bool" where
  "db_safe E db0 db \<longleftrightarrow> db_books E db \<and> db_grows db0 db
     \<and> (\<forall>n y. db (bitcoinKeySetPageKey n y) \<noteq> [] \<longrightarrow> db0 (bitcoinKeySetPageKey n y) = [] \<longrightarrow> (\<exists>z i ks. filled_page E db n y z i ks))"

text \<open>Growth of the database keeps what tabs and pages rely on.\<close>

lemma shows_key_stays:
  assumes "json_ok (funds_json E)" "shows_key E db (bitcoinKeySetPageKey n y) i u x" "db_grows db db'"
    "book_versions (funds_json E) key_field key_uuid_field (db' (bitcoinKeySetPageKey n y))"
  shows "shows_key E db' (bitcoinKeySetPageKey n y) i u x"
proof -
  obtain vs where "db' (bitcoinKeySetPageKey n y) = vs @ db (bitcoinKeySetPageKey n y)"
    using assms(3) by (auto simp: db_grows_def)
  with assms show ?thesis unfolding shows_key_def by (metis claim_stays)
qed

lemma shows_range_stays:
  assumes "json_ok (funds_json E)" "shows_range E db (hugeBitcoinKeyListPageKey z) i u x" "db_grows db db'"
    "book_versions (funds_json E) range_field range_uuid_field (db' (hugeBitcoinKeyListPageKey z))"
  shows "shows_range E db' (hugeBitcoinKeyListPageKey z) i u x"
proof -
  obtain vs where "db' (hugeBitcoinKeyListPageKey z) = vs @ db (hugeBitcoinKeyListPageKey z)"
    using assms(3) by (auto simp: db_grows_def)
  with assms show ?thesis unfolding shows_range_def by (metis claim_stays)
qed

lemma filled_page_stays:
  assumes J: "json_ok (funds_json E)" and f: "filled_page E db n y z i ks" and g: "db_grows db db'" and s: "db_books E db'"
  shows "filled_page E db' n y z i ks"
proof -
  from f obtain r where r: "shows_range E db (hugeBitcoinKeyListPageKey z) i (n @ ''_'' @ y) r" "ks = split_at (CHR '','') r"
    unfolding filled_page_def by blast
  from f obtain t c vs where t: "flat t" "db (bitcoinKeySetPageKey n y) = (write_json (funds_json E) t, c) # vs"
    "\<And>j. pt_get (key_field j) t = (if j < length ks then Some (ks ! j) else None)"
    unfolding filled_page_def by blast
  from s have b: "book_versions (funds_json E) key_field key_uuid_field (db' (bitcoinKeySetPageKey n y))"
      "book_versions (funds_json E) range_field range_uuid_field (db' (hugeBitcoinKeyListPageKey z))"
    by (auto simp: db_books_def)
  obtain new where new: "db' (bitcoinKeySetPageKey n y) = new @ db (bitcoinKeySetPageKey n y)" using g by (auto simp: db_grows_def)
  then obtain d' c' vs' where h: "db' (bitcoinKeySetPageKey n y) = (d', c') # vs'"
    using t(2) by (metis append_is_Nil_conv list.exhaust surj_pair)
  with b(1) obtain t' where t': "flat t'" "d' = write_json (funds_json E) t'" by (auto simp: book_versions_def)
  have "(write_json (funds_json E) t, c) \<in> set (db' (bitcoinKeySetPageKey n y))" using new t(2) by simp
  then have "keeps_claims key_field key_uuid_field t t'"
    using book_versions_head [OF J, of key_field key_uuid_field t' c' vs' t c] b(1) h t' t(1) by simp
  then have "\<And>j. pt_get (key_field j) t' = (if j < length ks then Some (ks ! j) else None)"
    using t(3) by (simp add: keeps_claims_def)
  then show ?thesis using shows_range_stays [OF J r(1) g b(2)] r(2) t' h unfolding filled_page_def by blast
qed

lemma tab_safe_grows:
  assumes J: "json_ok (funds_json E)" and t: "tab_safe E db s" and g: "db_grows db db'" and d: "db_books E db'"
  shows "tab_safe E db' s"
proof -
  have b: "book_versions (funds_json E) key_field key_uuid_field (db' (bitcoinKeySetPageKey n y))"
      "book_versions (funds_json E) range_field range_uuid_field (db' (hugeBitcoinKeyListPageKey z))" for n y z
    using d by (auto simp: db_books_def)
  have k: "key_is_claimed E db' s" if "key_is_claimed E db s"
    using that shows_key_stays [OF J _ g b(1)] unfolding key_is_claimed_def set_page_of_def by metis
  have r: "range_is_claimed E db' s ks" if "range_is_claimed E db s ks" for ks
    using that shows_range_stays [OF J _ g b(2)] unfolding range_is_claimed_def by metis
  have c: "claiming_key E db' s e x" if "claiming_key E db s e x" for e x
    using that db_grows_version [OF g] unfolding claiming_key_def by metis
  have v: "claiming_range E db' s e x" if "claiming_range E db s e x" for e x
    using that db_grows_version [OF g] unfolding claiming_range_def by metis
  have a: "add_ok E db' p e x s" if "add_ok E db p e x s" for p e x
    using that r by (cases p) auto
  have w: "cas_store_ok E db' p e x y s" if "cas_store_ok E db p e x y s" for p e x y
    using that k c v by (cases p) auto
  have "ask_ok E db' s q" if "ask_ok E db s q" for q
    using that w a by (cases q) auto
  then have "tab_ok E db' rs s" if "tab_ok E db rs s" for rs
    using that by (cases rs rule: remdups_adj.cases) auto
  then show ?thesis using t unfolding tab_safe_def by blast
qed


lemma page_keys_apart [simp]:
  "bitcoinKeySetPageKey n y \<noteq> hugeBitcoinKeyListPageKey z" "hugeBitcoinKeyListPageKey z \<noteq> bitcoinKeySetPageKey n y"
  "bitcoinKeySetPageKey n y \<noteq> bitcoinKeySetCurrentPageKey m" "bitcoinKeySetCurrentPageKey m \<noteq> bitcoinKeySetPageKey n y"
  "hugeBitcoinKeyListPageKey z \<noteq> bitcoinKeySetCurrentPageKey m" "bitcoinKeySetCurrentPageKey m \<noteq> hugeBitcoinKeyListPageKey z"
  "bitcoinKeySetPageKey n y \<noteq> userAccountKey u" "userAccountKey u \<noteq> bitcoinKeySetPageKey n y"
  "hugeBitcoinKeyListPageKey z \<noteq> userAccountKey u" "userAccountKey u \<noteq> hugeBitcoinKeyListPageKey z"
  "bitcoinKeySetCurrentPageKey m \<noteq> userAccountKey u" "userAccountKey u \<noteq> bitcoinKeySetCurrentPageKey m"
  "bitcoinKeySetPageKey n y \<noteq> hugeBitcoinKeyListCurrentPageKey" "hugeBitcoinKeyListCurrentPageKey \<noteq> bitcoinKeySetPageKey n y"
  "hugeBitcoinKeyListPageKey z \<noteq> hugeBitcoinKeyListCurrentPageKey" "hugeBitcoinKeyListCurrentPageKey \<noteq> hugeBitcoinKeyListPageKey z"
  "bitcoinKeySetCurrentPageKey m \<noteq> hugeBitcoinKeyListCurrentPageKey" "hugeBitcoinKeyListCurrentPageKey \<noteq> bitcoinKeySetCurrentPageKey m"
  by (simp_all add: key_defs)

lemma page_key_names:
  "bitcoinKeySetPageKey n y = bitcoinKeySetPageKey n' y' \<longleftrightarrow> n @ ''_'' @ y = n' @ ''_'' @ y'"
  "hugeBitcoinKeyListPageKey z = hugeBitcoinKeyListPageKey z' \<longleftrightarrow> z = z'"
  "bitcoinKeySetCurrentPageKey n = bitcoinKeySetCurrentPageKey n' \<longleftrightarrow> n = n'"
  by (simp_all add: key_defs)

text \<open>A filled page knows its name, not how the name splits into set and page.\<close>

lemma filled_page_name:
  "bitcoinKeySetPageKey n y = bitcoinKeySetPageKey n' y' \<Longrightarrow> filled_page E db n y z i ks \<Longrightarrow> filled_page E db n' y' z i ks"
proof -
  assume h: "bitcoinKeySetPageKey n y = bitcoinKeySetPageKey n' y'" and f: "filled_page E db n y z i ks"
  from h have nm: "n @ ''_'' @ y = n' @ ''_'' @ y'" by (simp only: page_key_names)
  from f show ?thesis unfolding filled_page_def h nm .
qed

lemma db_books_step:
  assumes "db_books E db" "fresh_cas db k c"
    and "\<And>n y. k = bitcoinKeySetPageKey n y \<Longrightarrow> book_versions (funds_json E) key_field key_uuid_field ((d, c) # db k)"
    and "\<And>z. k = hugeBitcoinKeyListPageKey z \<Longrightarrow> book_versions (funds_json E) range_field range_uuid_field ((d, c) # db k)"
    and "\<And>n. k = bitcoinKeySetCurrentPageKey n \<Longrightarrow> page_lock_doc E n d"
  shows "db_books E (new_version k d c db)"
  using assms versions_ok_new [OF _ assms(2)] unfolding db_books_def by (auto simp: new_version_def)

lemma db_safe_step:
  assumes J: "json_ok (funds_json E)" and s: "db_safe E db0 db" and b: "db_books E (new_version k d c db)"
    and f: "\<And>n y. k = bitcoinKeySetPageKey n y \<Longrightarrow> db k = [] \<Longrightarrow> \<exists>z i ks. filled_page E (new_version k d c db) n y z i ks"
  shows "db_safe E db0 (new_version k d c db)"
proof -
  have "\<exists>z i ks. filled_page E (new_version k d c db) n y z i ks"
    if "new_version k d c db (bitcoinKeySetPageKey n y) \<noteq> []" "db0 (bitcoinKeySetPageKey n y) = []" for n y
  proof (cases "db (bitcoinKeySetPageKey n y) = []")
    case True
    with that(1) have "k = bitcoinKeySetPageKey n y" by (auto simp: new_version_def split: if_splits)
    with f True show ?thesis by blast
  next
    case False
    with s that(2) obtain z i ks where "filled_page E db n y z i ks" unfolding db_safe_def by blast
    then show ?thesis using filled_page_stays [OF J _ db_grows_new_version b] by blast
  qed
  then show ?thesis using s b db_grows_trans unfolding db_safe_def by (meson db_grows_new_version)
qed

lemma db_safe_other:
  assumes "json_ok (funds_json E)" "db_safe E db0 db" "fresh_cas db k c" "\<not> is_set_page k" "\<not> is_huge_page k"
    "\<And>n. k = bitcoinKeySetCurrentPageKey n \<Longrightarrow> page_lock_doc E n d"
  shows "db_safe E db0 (new_version k d c db)"
proof (rule db_safe_step [OF assms(1,2)])
  show "db_books E (new_version k d c db)"
    by (rule db_books_step) (use assms in \<open>auto simp: db_safe_def is_set_page_def is_huge_page_def\<close>)
qed (use assms(4) in \<open>auto simp: is_set_page_def\<close>)

subsection \<open>Every answer keeps the database safe\<close>

lemma key_field_inj [simp]: "key_field i = key_field j \<longleftrightarrow> i = j"
  by (simp add: key_field_def)

lemma flat_page_of_keys [simp]: "flat t \<Longrightarrow> flat (page_of_keys i ks t)"
  by (induction ks arbitrary: i t) auto

lemma get_page_of_keys:
  "pt_get (key_field j) (page_of_keys i ks t) = (if i \<le> j \<and> j < i + length ks then Some (ks ! (j - i)) else pt_get (key_field j) t)"
proof (induction ks arbitrary: i j t)
  case (Cons k ks)
  consider "j < i" | "j = i" | m where "j = Suc i + m" by (metis less_imp_Suc_add linorder_neqE_nat add_Suc)
  then show ?case by cases (auto simp: Cons.IH)
qed auto

lemma entries_of_new_page:
  "pt_get (key_field j) (page_of_keys 0 ks pt_empty) = (if j < length ks then Some (ks ! j) else None)"
proof -
  have "pt_get (key_field j) pt_empty = None" by (simp add: pt_get_def pt_get_child_optional_def pt_empty_def)
  then show ?thesis by (simp add: get_page_of_keys)
qed

lemma book_versions_new: "flat t \<Longrightarrow> book_versions J e o' [(write_json J t, c)]"
  by (auto simp: book_versions_def)

lemma flat_claims [simp]: "flat t \<Longrightarrow> flat (claim_key u n i t)" "flat t \<Longrightarrow> flat (claim_range u i t)"
  by (simp_all add: claim_key_def claim_range_def)

lemma set_page_of_key: "set_page_of s = bitcoinKeySetPageKey n y \<Longrightarrow> is_set_page (set_page_of s)"
  and user_key_plain: "\<not> is_set_page (userAccountKey u)" "\<not> is_huge_page (userAccountKey u)"
  and current_key_plain: "\<not> is_set_page (bitcoinKeySetCurrentPageKey n)" "\<not> is_huge_page (bitcoinKeySetCurrentPageKey n)"
  and huge_current_plain: "\<not> is_set_page hugeBitcoinKeyListCurrentPageKey" "\<not> is_huge_page hugeBitcoinKeyListCurrentPageKey"
  by (auto simp: is_set_page_def is_huge_page_def)

lemma claimed_key_safe:
  assumes J: "json_ok (funds_json E)" and s: "db_safe E db0 db" and c: "claiming_key E db t d c"
    and w: "swap_allowed db (set_page_of t) c" "fresh_cas db (set_page_of t) c'"
  shows "db_safe E db0 (new_version (set_page_of t) d c' db)"
    and "m_PerGetBitcoinKeyUUID t \<noteq> ''n'' \<Longrightarrow> key_is_claimed E (new_version (set_page_of t) d c' db) t"
proof -
  from s have b: "db_books E db" by (simp add: db_safe_def)
  from c obtain u i where u: "flat u" "(write_json (funds_json E) u, c) \<in> set (db (set_page_of t))"
      "claimant key_uuid_field i u = None" "pt_get (key_field i) u = Some (m_BitcoinKeyToGiveToUser t)"
      and d: "d = write_json (funds_json E) (claim_key (m_PerGetBitcoinKeyUUID t) (app_CurrentlyLoggedInUsername t) i u)"
    unfolding claiming_key_def by blast
  let ?u = "claim_key (m_PerGetBitcoinKeyUUID t) (app_CurrentlyLoggedInUsername t) i u"
  have "book_versions (funds_json E) key_field key_uuid_field ((write_json (funds_json E) ?u, c') # db (set_page_of t))"
    by (rule key_book.claim_is_next_version [OF J _ _ w(1) u(2) u(1) _ claim_key_keeps [OF u(3)]])
      (use b u(1) in \<open>auto simp: db_books_def set_page_of_def\<close>)
  then have "db_books E (new_version (set_page_of t) d c' db)"
    by (intro db_books_step [OF b w(2)]) (auto simp: d set_page_of_def)
  then show "db_safe E db0 (new_version (set_page_of t) d c' db)"
    by (rule db_safe_step [OF J s]) (use u(2) in auto)
  assume n: "m_PerGetBitcoinKeyUUID t \<noteq> ''n''"
  have e: "pt_get (key_field i) ?u = Some (m_BitcoinKeyToGiveToUser t)"
    using claim_key_keeps [OF u(3)] u(4) by (simp add: keeps_claims_def)
  have "pt_get_default (key_uuid_field i) ''n'' ?u = m_PerGetBitcoinKeyUUID t"
    using username_field_apart(1) [of i i, symmetric] by (simp add: claim_key_def pt_get_default_def)
  then have "shows_claim (funds_json E) key_field key_uuid_field ((write_json (funds_json E) ?u, c') # db (set_page_of t)) i
      (m_PerGetBitcoinKeyUUID t) (m_BitcoinKeyToGiveToUser t)"
    using key_book.claim_succeeded [OF _ _ n e] u(1) by simp
  then show "key_is_claimed E (new_version (set_page_of t) d c' db) t"
    unfolding key_is_claimed_def shows_key_def d new_version_def by auto
qed

lemma claimed_range_safe:
  assumes J: "json_ok (funds_json E)" and s: "db_safe E db0 db" and c: "claiming_range E db t d c" and own: "filling_own_page t"
    and w: "swap_allowed db (hugeBitcoinKeyListPageKey (m_FillingNextStartingFromPageZ t)) c"
      "fresh_cas db (hugeBitcoinKeyListPageKey (m_FillingNextStartingFromPageZ t)) c'"
  shows "db_safe E db0 (new_version (hugeBitcoinKeyListPageKey (m_FillingNextStartingFromPageZ t)) d c' db)"
    and "range_is_claimed E (new_version (hugeBitcoinKeyListPageKey (m_FillingNextStartingFromPageZ t)) d c' db) t
      (m_BitcoinKeysVectorToUseForNextPageFill t)"
proof -
  let ?k = "hugeBitcoinKeyListPageKey (m_FillingNextStartingFromPageZ t)"
  from s have b: "db_books E db" by (simp add: db_safe_def)
  from c obtain u i r where u: "flat u" "(write_json (funds_json E) u, c) \<in> set (db ?k)"
      "claimant range_uuid_field i u = None" "pt_get (range_field i) u = Some r"
      "m_BitcoinKeysVectorToUseForNextPageFill t = split_at (CHR '','') r"
      and d: "d = write_json (funds_json E) (claim_range (m_FillingNextBitcoinKeySetPerFillUuid t) i u)"
    unfolding claiming_range_def by blast
  let ?u = "claim_range (m_FillingNextBitcoinKeySetPerFillUuid t) i u"
  have "book_versions (funds_json E) range_field range_uuid_field ((write_json (funds_json E) ?u, c') # db ?k)"
    by (rule range_book.claim_is_next_version [OF J _ _ w(1) u(2) u(1) _ claim_range_keeps [OF u(3)]])
      (use b u(1) in \<open>auto simp: db_books_def\<close>)
  then have "db_books E (new_version ?k d c' db)"
    by (intro db_books_step [OF b w(2)]) (auto simp: d)
  then show "db_safe E db0 (new_version ?k d c' db)"
    by (rule db_safe_step [OF J s]) auto
  have n: "m_FillingNextBitcoinKeySetPerFillUuid t \<noteq> ''n''"
    using own by (cases "m_BitcoinKeySetIndex_aka_setN t") (auto simp: filling_own_page_def)
  have e: "pt_get (range_field i) ?u = Some r" using claim_range_keeps [OF u(3)] u(4) by (simp add: keeps_claims_def)
  have "pt_get_default (range_uuid_field i) ''n'' ?u = m_FillingNextBitcoinKeySetPerFillUuid t"
    by (simp add: claim_range_def pt_get_default_def)
  then have "shows_claim (funds_json E) range_field range_uuid_field ((write_json (funds_json E) ?u, c') # db ?k) i
      (m_FillingNextBitcoinKeySetPerFillUuid t) r"
    using range_book.claim_succeeded [OF _ _ n e] u(1) by simp
  then have "shows_range E (new_version ?k d c' db) ?k i (m_FillingNextBitcoinKeySetPerFillUuid t) r"
    unfolding shows_range_def d new_version_def by simp
  then show "range_is_claimed E (new_version ?k d c' db) t (m_BitcoinKeysVectorToUseForNextPageFill t)"
    unfolding range_is_claimed_def using u(5) by blast
qed

lemma added_page_safe:
  assumes J: "json_ok (funds_json E)" and s: "db_safe E db0 db" and own: "filling_own_page t" and r: "range_is_claimed E db t ks"
    and d: "d = write_json (funds_json E) (page_of_keys 0 ks pt_empty)" and w: "db (set_page_of t) = []" "fresh_cas db (set_page_of t) c'"
  shows "db_safe E db0 (new_version (set_page_of t) d c' db)"
proof -
  from s have b: "db_books E db" by (simp add: db_safe_def)
  have b': "db_books E (new_version (set_page_of t) d c' db)"
    by (rule db_books_step [OF b w(2)]) (use w(1) d in \<open>auto simp: set_page_of_def intro!: book_versions_new\<close>)
  from r obtain z i r where r: "shows_range E db (hugeBitcoinKeyListPageKey z) i (m_FillingNextBitcoinKeySetPerFillUuid t) r"
      "ks = split_at (CHR '','') r"
    unfolding range_is_claimed_def by blast
  have "shows_range E (new_version (set_page_of t) d c' db) (hugeBitcoinKeyListPageKey z) i (m_FillingNextBitcoinKeySetPerFillUuid t) r"
    using shows_range_stays [OF J r(1) db_grows_new_version] b' by (simp add: db_books_def)
  then have f: "filled_page E (new_version (set_page_of t) d c' db) (m_BitcoinKeySetIndex_aka_setN t) (m_BitcoinKeySetPage_aka_PageY t) z i ks"
    using own r(2) w(1) unfolding filled_page_def filling_own_page_def d set_page_of_def new_version_def
    by (auto intro!: exI [of _ "page_of_keys 0 (split_at (CHR '','') r) pt_empty"] simp: entries_of_new_page)
  then show ?thesis using filled_page_name unfolding set_page_of_def by (intro db_safe_step [OF J s b' [unfolded set_page_of_def]]) blast
qed

subsection \<open>Steps of the world\<close>

inductive_cases answers_get: "db_answers db (TabGet k) i db'"
inductive_cases answers_cas_store: "db_answers db (TabCasStore k d c) i db'"
inductive_cases answers_lock_store: "db_answers db (TabCasStoreSavingCas k d c) i db'"
inductive_cases answers_add: "db_answers db (TabAdd k d) i db'"
inductive_cases answers_poll: "db_answers db (TabPoll k n) i db'"

text \<open>The state in which the handler of the answer to \<open>r\<close> runs.\<close>

definition answering :: "'j funds \<Rightarrow> 'j tab_request \<Rightarrow> bool" where
  "answering s r \<longleftrightarrow> tab_pending s = [] \<and> app_DeferCount s = deferred_by r"

abbreviation resumed :: "'j funds \<Rightarrow> 'j funds" where
  "resumed s \<equiv> s\<lparr>app_DeferCount := app_DeferCount s - 1\<rparr>"

lemma resumed_same [simp]:
  "set_page_of (resumed s) = set_page_of s" "filling_own_page (resumed s) = filling_own_page s"
  "key_is_claimed E db (resumed s) = key_is_claimed E db s" "range_is_claimed E db (resumed s) ks = range_is_claimed E db s ks"
  by (simp_all add: asked_facts)

lemma currentD: "current db k = Some (d, c) \<Longrightarrow> \<exists>vs. db k = (d, c) # vs"
  by (cases "db k") (auto simp: current_def)

lemma current_is_read:
  assumes "db_books E db" "current db k = Some (d, c)" "is_set_page k \<or> is_huge_page k"
  shows "read_current E db k d c"
proof -
  obtain vs where vs: "db k = (d, c) # vs" using currentD [OF assms(2)] by blast
  have "\<exists>t. flat t \<and> fst v = write_json (funds_json E) t" if "v \<in> set (db k)" for v
    using that assms(1,3) unfolding db_books_def is_set_page_def is_huge_page_def book_versions_def by blast
  with vs show ?thesis unfolding read_current_def by fastforce
qed

lemma set_page_of_is_set_page [simp]: "is_set_page (set_page_of s)"
  by (auto simp: is_set_page_def set_page_of_def)

lemma huge_page_is_huge_page [simp]: "is_huge_page (hugeBitcoinKeyListPageKey z)"
  by (auto simp: is_huge_page_def)

lemma safe_get_answered:
  assumes J: "json_ok (funds_json E)" and s: "db_safe E db0 db" and a: "answering s (TabGet k)" and o: "ask_ok E db s (TabGet k)"
    and i: "db_answers db (TabGet k) i db'"
  shows "makes_safe E db (tab_handle E now i) s"
proof -
  from i obtain d c ok err where i: "i = AnswerGet d c ok err" and r: "ok \<Longrightarrow> \<not> err \<Longrightarrow> current db k = Some (d, c)"
    by (cases rule: answers_get) auto
  from s have b: "db_books E db" by (simp add: db_safe_def)
  have t: "tab_ready (resumed s)" using a by (simp add: answering_def tab_ready_def)
  have page: "read_current E db k d c" if "ok" "\<not> err" "is_set_page k \<or> is_huge_page k"
    using current_is_read [OF b r] that by blast
  have lock: "page_lock_doc E n d" if "ok" "\<not> err" "k = bitcoinKeySetCurrentPageKey n" for n
  proof -
    have "\<exists>vs. db k = (d, c) # vs" by (rule currentD [OF r [OF that(1,2)]])
    then have "(d, c) \<in> set (db (bitcoinKeySetCurrentPageKey n))" using that(3) by auto
    moreover have "\<forall>v \<in> set (db (bitcoinKeySetCurrentPageKey n)). page_lock_doc E n (fst v)" using b by (simp add: db_books_def)
    ultimately show ?thesis by fastforce
  qed
  note start = i tab_get_finished_def runs_to_andthen runs_to_reading runs_to_modify tab_resume_def
  show ?thesis
  proof (cases "app_WhatTheGetSavingCasWasFor s")
    case GETBITCOINKEYSETNCURRENTPAGETOSEEWHATPAGEITISONANDIFITISLOCKED
    with o lock show ?thesis by (simp add: start) (rule safe_analyze [OF t], simp)
  next
    case GETBITCOINKEYSETNACTUALPAGETOSEEIFUUIDONITENOUGHROOM
    with o page show ?thesis by (simp add: start) (rule safe_got_page [OF J t], simp)
  next
    case GETBITCOINKEYSETNPAGEYANDIFITEXISTSLOOPAROUNDCHECKINGUUIDBUTIFNOTEXISTMAKEITEXIST
    with o page show ?thesis by (simp add: start) (rule safe_next_page [OF J t], simp)
  next
    case GETHUGEBITCOINKEYLISTACTUALPAGEFORANALYZINGANDMAYBECLAIMINGKEYRANGE
    with o page show ?thesis by (simp add: start) (rule safe_got_huge_page [OF J t], simp_all)
  qed (use o in \<open>simp_all add: start safe_transition [OF t] safe_determine [OF t] safe_lock_set [OF J t] safe_credit [OF t]\<close>)
qed

lemma cas_store_kept:
  assumes J: "json_ok (funds_json E)" and s: "db_safe E db0 db" and o: "ask_ok E db s (TabCasStore k d c)"
    and w: "swap_allowed db k c" "fresh_cas db k c'"
  shows "db_safe E db0 (new_version k d c' db)"
proof (cases "app_WhatTheStoreWithInputCasWasFor s")
  case CLAIMBITCOINKEYONBITCOINKEYSETVIACASSWAP
  with o have "k = set_page_of s" "claiming_key E db s d c" by auto
  then show ?thesis using claimed_key_safe(1) [OF J s] w by blast
next
  case HUGEBITCOINKEYLISTKEYRANGECLAIMATTEMPT
  with o have "k = hugeBitcoinKeyListPageKey (m_FillingNextStartingFromPageZ s)" "claiming_range E db s d c" "filling_own_page s" by auto
  then show ?thesis using claimed_range_safe(1) [OF J s] w by blast
qed (use o w(2) in \<open>auto intro!: db_safe_other [OF J s] simp: user_key_plain current_key_plain huge_current_plain page_key_names\<close>)

lemma safe_cas_store_answered:
  assumes J: "json_ok (funds_json E)" and s: "db_safe E db0 db" and a: "answering s (TabCasStore k d c)"
    and o: "ask_ok E db s (TabCasStore k d c)" and i: "db_answers db (TabCasStore k d c) i db'"
  shows "db_safe E db0 db' \<and> makes_safe E db' (tab_handle E now i) s"
proof
  from i obtain ok err where i': "i = AnswerCasStore ok err"
    and n: "db' = db \<or> (\<exists>c'. db' = new_version k d c' db \<and> swap_allowed db k c \<and> fresh_cas db k c')"
    and r: "ok \<Longrightarrow> \<not> err \<Longrightarrow> \<exists>c'. db' = new_version k d c' db \<and> swap_allowed db k c \<and> fresh_cas db k c'"
    by (cases rule: answers_cas_store) auto
  from n show s': "db_safe E db0 db'" using s cas_store_kept [OF J s o] by blast
  have t: "tab_ready (resumed s)" using a by (simp add: answering_def tab_ready_def)
  have g: "db_grows db db'" using n by auto
  have key: "key_is_claimed E db' s" if "ok" "\<not> err" "claiming_key E db s d c" "k = set_page_of s"
    using r [OF that(1,2)] claimed_key_safe(2) [OF J s that(3)] that(4) unfolding key_is_claimed_def by metis
  have range: "range_is_claimed E db' s (m_BitcoinKeysVectorToUseForNextPageFill s)"
    if "ok" "\<not> err" "claiming_range E db s d c" "filling_own_page s" "k = hugeBitcoinKeyListPageKey (m_FillingNextStartingFromPageZ s)"
    using r [OF that(1,2)] claimed_range_safe(2) [OF J s that(3,4)] that(5) by metis
  show "makes_safe E db' (tab_handle E now i) s" using o t key range
    by (cases "app_WhatTheStoreWithInputCasWasFor s")
      (auto simp: i' tab_cas_store_finished_def run_rules tab_resume_def
        intro!: safe_unlocked safe_claimed_key safe_claimed_range safe_set_unlocked safe_changed_current safe_relocked safe_creditted J)
qed

lemma safe_lock_store_answered:
  assumes J: "json_ok (funds_json E)" and s: "db_safe E db0 db" and a: "answering s (TabCasStoreSavingCas k d c)"
    and o: "ask_ok E db s (TabCasStoreSavingCas k d c)" and i: "db_answers db (TabCasStoreSavingCas k d c) i db'"
  shows "db_safe E db0 db' \<and> makes_safe E db' (tab_handle E now i) s"
proof
  from i obtain c0 ok err where i': "i = AnswerCasStoreSavingCas c0 ok err"
    and n: "db' = db \<or> (\<exists>c'. db' = new_version k d c' db \<and> fresh_cas db k c')"
    by (cases rule: answers_lock_store) auto
  have "db_safe E db0 (new_version k d c' db)" if "fresh_cas db k c'" for c'
    using o that by (cases "app_WhatTheStoreWithInputCasSavingOutputCasWasFor s")
      (auto intro!: db_safe_other [OF J s] simp: user_key_plain current_key_plain page_key_names)
  with n s show "db_safe E db0 db'" by blast
  have "tab_ready (resumed s)" using a by (simp add: answering_def tab_ready_def)
  then show "makes_safe E db' (tab_handle E now i) s" using o
    by (cases "app_WhatTheStoreWithInputCasSavingOutputCasWasFor s")
      (auto simp: i' tab_cas_store_saving_cas_finished_def run_rules tab_resume_def intro!: safe_account_locked safe_set_locked)
qed

lemma safe_add_answered:
  assumes J: "json_ok (funds_json E)" and s: "db_safe E db0 db" and a: "answering s (TabAdd k d)"
    and o: "ask_ok E db s (TabAdd k d)" and i: "db_answers db (TabAdd k d) i db'"
  shows "db_safe E db0 db' \<and> makes_safe E db' (tab_handle E now i) s"
proof
  from i obtain ok err where i': "i = AnswerAdd ok err"
    and n: "db' = db \<or> (\<exists>c'. db' = new_version k d c' db \<and> db k = [] \<and> fresh_cas db k c')"
    by (cases rule: answers_add) auto
  from o obtain ks where what: "app_WhatTheStoreWithoutInputCasWasFor s = BITCOINKEYSETNPAGEYCREATIONVIALCBADD"
    and k: "k = set_page_of s" "filling_own_page s" "range_is_claimed E db s ks"
      "d = write_json (funds_json E) (page_of_keys 0 ks pt_empty)"
    by (cases "app_WhatTheStoreWithoutInputCasWasFor s") auto
  with n s show "db_safe E db0 db'" using added_page_safe [OF J s k(2,3,4)] by blast
  have "tab_ready (resumed s)" using a by (simp add: answering_def tab_ready_def)
  then show "makes_safe E db' (tab_handle E now i) s" using what
    by (auto simp: i' tab_add_finished_def run_rules tab_resume_def intro!: safe_created J)
qed

lemma safe_answered:
  assumes J: "json_ok (funds_json E)" and s: "db_safe E db0 db" and a: "answering s r" and o: "ask_ok E db s r"
    and i: "db_answers db r i db'"
  shows "db_safe E db0 db' \<and> makes_safe E db' (tab_handle E now i) s"
proof (cases r)
  case (TabGet k)
  then have "db' = db" using i by (auto elim: answers_get)
  then show ?thesis using safe_get_answered [OF J s] a o i s TabGet by blast
next
  case (TabPoll k n)
  with i obtain ok body where "i = AnswerPoll ok body" "db' = db" by (auto elim: answers_poll)
  moreover have "tab_ready s" using a TabPoll by (simp add: answering_def tab_ready_def)
  ultimately show ?thesis using s safe_polled by auto
qed (use assms safe_cas_store_answered [OF J s] safe_lock_store_answered [OF J s] safe_add_answered [OF J s] in auto)

lemma db_answers_grows: "db_answers db r i db' \<Longrightarrow> db_grows db db'"
  by (induction rule: db_answers.induct) auto

subsection \<open>The invariant of the world\<close>

definition world_safe :: "'j funds_env \<Rightarrow> 'j db \<Rightarrow> 'j world \<Rightarrow> bool" where
  "world_safe E db0 w \<longleftrightarrow> db_safe E db0 (database w) \<and> (\<forall>n. tab_safe E (database w) (tab_of w n))"

subsection \<open>Runs keep the world safe\<close>

lemma initial_safe:
  assumes J: "json_ok (funds_json E)" and i: "initial_world E w"
  shows "world_safe E (database w) w"
proof -
  have v: "versions_ok (database w)" using i by (simp add: initial_world_def)
  have one: "book_versions (funds_json E) e o' vs"
    if "vs = [] \<or> (\<exists>t c. vs = [(write_json (funds_json E) t, c)] \<and> unclaimed_page q t)" for e o' q vs
    using that by (auto simp: book_versions_def unclaimed_page_def)
  have "book_versions (funds_json E) key_field key_uuid_field (database w (bitcoinKeySetPageKey n y))" for n y
    using i by (intro one [of _ key_uuid_field]) (auto simp: initial_world_def is_set_page_def)
  moreover have "book_versions (funds_json E) range_field range_uuid_field (database w (hugeBitcoinKeyListPageKey z))" for z
    using i by (intro one [of _ range_uuid_field]) (auto simp: initial_world_def is_huge_page_def)
  moreover have "page_lock_doc E n (fst v)" if v: "v \<in> set (database w (bitcoinKeySetCurrentPageKey n))" for n v
  proof -
    have "is_set_current_page (bitcoinKeySetCurrentPageKey n)" by (auto simp: is_set_current_page_def)
    with i have "database w (bitcoinKeySetCurrentPageKey n) = []
        \<or> (\<exists>y c. database w (bitcoinKeySetCurrentPageKey n) = [(write_json (funds_json E) (pt_put JSON_BITCOIN_KEY_SET_CURRENT_PAGE y pt_empty), c)])"
      unfolding initial_world_def by blast
    with v obtain y c where "v = (write_json (funds_json E) (pt_put JSON_BITCOIN_KEY_SET_CURRENT_PAGE y pt_empty), c)" by auto
    then show ?thesis using unlocked_doc_ok [OF J] by simp
  qed
  ultimately have "db_safe E (database w) (database w)" using v by (simp add: db_safe_def db_books_def)
  moreover have "tab_safe E (database w) (tab_of w n)" for n
    using i by (simp add: initial_world_def new_tab_def tab_safe_def)
  ultimately show ?thesis by (simp add: world_safe_def)
qed

lemma ask_ok_prepared:
  assumes "ask_ok E db s r"
  shows "ask_ok E db (prepared s []) r"
proof -
  have "cas_store_ok E db p k e c (prepared s q) = cas_store_ok E db p k e c s"
       "get_ok g k (prepared s q) = get_ok g k s" "lock_store_ok E p' k e (prepared s q) = lock_store_ok E p' k e s"
       "add_ok E db p'' k e (prepared s q) = add_ok E db p'' k e s" for p k e c q g p' p''
    by (cases p; simp add: prepared_def asked_facts) (cases g; cases p'; cases p''; simp add: prepared_def asked_facts)+
  with assms show ?thesis by (cases r) (simp_all add: prepared_def)
qed

lemma safe_step:
  assumes J: "json_ok (funds_json E)" and s: "world_safe E db0 w" and t: "world_step E w l w'"
  shows "world_safe E db0 w' \<and> db_grows (database w) (database w') \<and> (\<forall>(n, s') \<in> set l. tab_safe E (database w') s')"
  using t
proof cases
  case (clicked i n now s')
  from s have a: "tab_safe E (database w) (tab_of w n)" by (simp add: world_safe_def)
  have "tab_pending (tab_of w n) = [] \<and> app_DeferCount (tab_of w n) = 0"
    using a clicked(3) unfolding tab_safe_def
    by (cases i; cases "tab_pending (tab_of w n)" rule: remdups_adj.cases; cases "hd (tab_pending (tab_of w n))") auto
  then have "makes_safe E (database w) (tab_handle E now i) (prepared (tab_of w n) (tab_pending (tab_of w n)))"
    using safe_click [OF _ _ clicked(3)] by (simp add: prepared_def)
  then have "tab_safe E (database w) s'" using runs_to_Ret clicked(4) by fastforce
  then show ?thesis using s clicked(1,2) by (simp add: world_safe_def)
next
  case (answered n r rs i db' now s')
  from s have a: "tab_safe E (database w) (tab_of w n)" and d: "db_safe E db0 (database w)" by (simp_all add: world_safe_def)
  from a answered(3) have rs: "rs = []" and o: "ask_ok E (database w) (tab_of w n) r" and c: "app_DeferCount (tab_of w n) = deferred_by r"
    by (cases rs; simp add: tab_safe_def)+
  have o': "ask_ok E (database w) (prepared (tab_of w n) []) r" using o by (rule ask_ok_prepared)
  have "answering (prepared (tab_of w n) []) r" using c by (simp add: answering_def prepared_def)
  with safe_answered [OF J d _ o' answered(4)] have d': "db_safe E db0 db'"
      and m: "makes_safe E db' (tab_handle E now i) (prepared (tab_of w n) [])" by blast+
  from m answered(5) rs have s': "tab_safe E db' s'" using runs_to_Ret by fastforce
  have g: "db_grows (database w) db'" using answered(4) by (rule db_answers_grows)
  have "tab_safe E db' (tab_of w m)" for m
    using s tab_safe_grows [OF J _ g] d' by (simp add: world_safe_def db_safe_def)
  then show ?thesis using d' s' g answered(1,2) by (simp add: world_safe_def)
next
  case (written k c d)
  from s have d: "db_safe E db0 (database w)" by (simp add: world_safe_def)
  have d': "db_safe E db0 (new_version k d c (database w))"
    by (rule db_safe_other [OF J d written(6,3,4)]) (use written(5) in \<open>auto simp: is_set_current_page_def\<close>)
  then have "tab_safe E (new_version k d c (database w)) (tab_of w m)" for m
    using s tab_safe_grows [OF J _ db_grows_new_version] by (simp add: world_safe_def db_safe_def)
  then show ?thesis using d' written(1,2) by (simp add: world_safe_def)
next
  case (refilled k t c)
  from s have d: "db_safe E db0 (database w)" by (simp add: world_safe_def)
  have f: "flat t" using refilled(5) by (simp add: unclaimed_page_def)
  have b: "db_books E (new_version k (write_json (funds_json E) t) c (database w))"
    by (rule db_books_step) (use d refilled(3,4,6) f in \<open>auto simp: db_safe_def is_huge_page_def page_key_names intro!: book_versions_new\<close>)
  then have d': "db_safe E db0 (new_version k (write_json (funds_json E) t) c (database w))"
    by (rule db_safe_step [OF J d]) (use refilled(3) in \<open>auto simp: is_huge_page_def\<close>)
  then have "tab_safe E (new_version k (write_json (funds_json E) t) c (database w)) (tab_of w m)" for m
    using s tab_safe_grows [OF J _ db_grows_new_version] by (simp add: world_safe_def db_safe_def)
  then show ?thesis using d' refilled(1,2) by (simp add: world_safe_def)
qed

lemma safe_reach:
  assumes J: "json_ok (funds_json E)" and r: "world_reach E w0 h w" and i: "initial_world E w0"
  shows "world_safe E (database w0) w \<and> (\<forall>(n, s) \<in> set h. tab_safe E (database w) s)"
  using r
proof induction
  case start
  then show ?case using initial_safe [OF J i] by simp
next
  case (step h w l w')
  then have a: "world_safe E (database w0) w'" "db_grows (database w) (database w')" "\<forall>(n, s) \<in> set l. tab_safe E (database w') s"
    using safe_step [OF J] by blast+
  then have "tab_safe E (database w') s" if "(n, s) \<in> set h" for n s
    using that step.IH tab_safe_grows [OF J _ a(2)] a(1) unfolding world_safe_def db_safe_def by blast
  with a show ?case by auto
qed

end
