(* ===== verification/AddFundsRuns.thy ===== *)
theory AddFundsRuns
  imports AddFundsCredit AddFundsSafety
begin

section \<open>Runs of the tab, executed\<close>

text \<open>
  \<open>tab_go\<close> handles one input and \<open>tab_run\<close> a list of them, as functions; they agree with the step relation. The lemmas execute the steps
  of a payment symbolically: from a tab whose account holds a key to the credit.
\<close>

definition tab_go :: "'j funds_env \<Rightarrow> int \<Rightarrow> 'j tab_input \<Rightarrow> 'j funds \<Rightarrow> 'j funds option" where
  "tab_go E now i s = (case (if tab_click i s then Some (tab_pending s)
       else case tab_pending s of [] \<Rightarrow> None | r # rs \<Rightarrow> if tab_answers r i then Some rs else None) of
     None \<Rightarrow> None
   | Some rs \<Rightarrow> (case tab_handle E now i (prepared s rs) of Ret _ s' \<Rightarrow> Some s' | _ \<Rightarrow> None))"

fun tab_run :: "'j funds_env \<Rightarrow> (int \<times> 'j tab_input) list \<Rightarrow> 'j funds \<Rightarrow> ('j tab_event list \<times> 'j funds) option" where
  "tab_run E [] s = Some ([], s)"
| "tab_run E ((now, i) # is) s = (case tab_go E now i s of
     None \<Rightarrow> None
   | Some s1 \<Rightarrow> map_option (\<lambda>(h, s'). (TabInput i # map TabOutput (tab_outputs s1) @ h, s')) (tab_run E is s1))"

lemma tab_go_step: "tab_go E now i s = Some s' \<Longrightarrow> tab_step E s (TabInput i # map TabOutput (tab_outputs s')) s'"
  by (auto simp: tab_go_def split: if_splits option.splits list.splits outcome.splits intro: tab_step.intros)

lemma tab_run_reach:
  "tab_reach E s0 h s \<Longrightarrow> tab_run E is s = Some (h', s') \<Longrightarrow> tab_reach E s0 (h @ h') s'"
proof (induction "is" arbitrary: h h' s)
  case (Cons a "is")
  obtain now i where a: "a = (now, i)" by force
  with Cons(3) obtain s1 h1 where s1: "tab_go E now i s = Some s1" "tab_run E is s1 = Some (h1, s')"
      "h' = TabInput i # map TabOutput (tab_outputs s1) @ h1"
    by (auto split: option.splits)
  have "tab_reach E s0 (h @ TabInput i # map TabOutput (tab_outputs s1)) s1"
    using Cons(2) tab_go_step [OF s1(1)] by (rule tab_reach.step)
  from Cons(1) [OF this s1(2)] s1(3) show ?case by simp
qed simp

fun tab_outputs_of :: "'j tab_event list \<Rightarrow> 'j tab_output list" where
  "tab_outputs_of [] = []"
| "tab_outputs_of (TabInput i # h) = tab_outputs_of h"
| "tab_outputs_of (TabOutput x # h) = x # tab_outputs_of h"

lemma tab_outputs_of_append [simp]: "tab_outputs_of (map TabOutput xs @ h) = xs @ tab_outputs_of h"
  by (induction xs) simp_all

subsection \<open>The steps of a payment\<close>

text \<open>The tab shows the user's key, and waits for the answers of \<open>rs\<close>, or for a click when there are none.\<close>

definition key_mode :: "string \<Rightarrow> string \<Rightarrow> int \<Rightarrow> 'j tab_request list \<Rightarrow> 'j funds \<Rightarrow> bool" where
  "key_mode user key amount rs s \<longleftrightarrow> app_CurrentlyLoggedInUsername s = user \<and> m_HaveBitcoinKeyPlaceholder s
     \<and> m_CurrentBitcoinKeyForPayments s = key \<and> m_ConfirmedBitcoinBalanceInSatoshis s = amount
     \<and> tab_pending s = rs \<and> app_DeferCount s = sum_list (map deferrals rs)"

lemmas go_tab = tab_go_def prepared_def tab_ops andthen_def prog_run Let_def key_mode_def

lemma go_shown:
  assumes "new_tab s" "u = userAccountKey (app_CurrentlyLoggedInUsername s)"
  shows "\<exists>s'. tab_go E now ShowTab s = Some s' \<and> tab_outputs s' = [Ask (TabGet u)]
    \<and> tab_pending s' = [TabGet u] \<and> app_DeferCount s' = 2 \<and> app_WhatTheGetSavingCasWasFor s' = DETERMINEBITCOINSTATEBUTDONTLETTHEMPROCEEDIFLOCKED
    \<and> \<not> m_HaveBitcoinKeyPlaceholder s' \<and> m_ConfirmedBitcoinBalanceInSatoshis s' = 0 \<and> \<not> m_PendingBitcoinBalanceLabel s'
    \<and> m_TimeTofLastCheck s' = 0 \<and> app_CurrentlyLoggedInUsername s' = app_CurrentlyLoggedInUsername s"
  using assms by (simp add: go_tab new_tab_def onTabBeingShown_def populateAndInitialize_def)

lemma go_determined:
  assumes "tab_pending s = [TabGet u]" "app_DeferCount s = 2"
    and "app_WhatTheGetSavingCasWasFor s = DETERMINEBITCOINSTATEBUTDONTLETTHEMPROCEEDIFLOCKED" "\<not> m_HaveBitcoinKeyPlaceholder s"
    and "read_json (funds_json E) d = Some t" "pt_get JSON_USER_ACCOUNT_BITCOIN_STATE t = Some JSON_USER_ACCOUNT_BITCOIN_STATE_HAVE_KEY"
      "pt_get JSON_USER_ACCOUNT_BITCOIN_STATE_DATA t = Some key"
  shows "\<exists>s'. tab_go E now (AnswerGet d c True False) s = Some s' \<and> tab_outputs s' = [Tell (CurrentKey key)]
    \<and> key_mode (app_CurrentlyLoggedInUsername s) key (m_ConfirmedBitcoinBalanceInSatoshis s) [] s'
    \<and> m_TimeTofLastCheck s' = m_TimeTofLastCheck s \<and> m_PendingBitcoinBalanceLabel s' = m_PendingBitcoinBalanceLabel s"
  using assms by (simp add: go_tab tab_get_finished_def determineBitcoinStateButDontLetThemProceedForwardIfLocked_def
      changeToHaveBitcoinKeyMode_def)

lemma go_check:
  assumes "key_mode user key amount [] s" "60 \<le> now - m_TimeTofLastCheck s"
  shows "\<exists>s'. tab_go E now (ClickCheckPending True) s = Some s' \<and> tab_outputs s' = [Ask (TabPoll key 0)]
      \<and> key_mode user key amount [TabPoll key 0] s' \<and> m_PollingPendingBalance s' \<and> m_TimeTofLastCheck s' = now
      \<and> m_PendingBitcoinBalanceLabel s' = m_PendingBitcoinBalanceLabel s"
    and "m_PendingBitcoinBalanceLabel s \<Longrightarrow> \<exists>s'. tab_go E now (ClickCheckConfirmed True) s = Some s' \<and> tab_outputs s' = [Ask (TabPoll key 1)]
      \<and> key_mode user key amount [TabPoll key 1] s' \<and> \<not> m_PollingPendingBalance s'"
  using assms by (simp_all add: go_tab checkForPendingBitcoinBalanceButtonClicked_def checkForConfirmedBitcoinBalanceButtonClicked_def
      sendRpcJsonBalanceRequestToBitcoinD_def)

lemma go_balance:
  assumes "key_mode user key amount [TabPoll key n] s" "reports E body b"
  shows "m_PollingPendingBalance s \<Longrightarrow> \<not> m_PendingBitcoinBalanceLabel s \<Longrightarrow> \<exists>x s'. tab_go E now (AnswerPoll True body) s = Some s'
      \<and> tab_outputs s' = [Tell (PendingReceived x)] \<and> key_mode user key amount [] s' \<and> m_TimeTofLastCheck s' = m_TimeTofLastCheck s - 60
      \<and> m_PendingBitcoinBalanceLabel s'"
    and "\<not> m_PollingPendingBalance s \<Longrightarrow> \<exists>x s'. tab_go E now (AnswerPoll True body) s = Some s'
      \<and> tab_outputs s' = [Tell (ConfirmedReceived x)] \<and> key_mode user key b [] s' \<and> m_ConfirmedBitcoinBalanceLabel s'"
  using assms by (auto simp: go_tab reports_def handleBitcoinAddressBalancePollerReceivedResponse_def balance_received_def)

lemma go_done_sending:
  assumes "key_mode user key amount [] s" "m_ConfirmedBitcoinBalanceLabel s" "ABC_MIN_ADD_FUNDS_AMOUNT_IN_SATOSHIS \<le> amount"
  shows "\<exists>s'. tab_go E now ClickDone s = Some s' \<and> tab_outputs s' = [Ask (TabGet (userAccountKey user))]
    \<and> key_mode user key amount [TabGet (userAccountKey user)] s'
    \<and> app_WhatTheGetSavingCasWasFor s' = CREDITCONFIRMEDBITCOINAMOUNTAFTERANALYZINGUSERACCOUNT"
  using assms by (simp add: go_tab doneSendingBitcoinsToCurrentAddressButtonClicked_def)

lemma display_of_balance: "satoshiStringToJsonString (satoshiIntToSatoshiString (wrap64 n))
    = Some (jsonDoubleToJsonStringAfterProperlyRoundingJsonDouble (satoshiIntToJsonDouble (wrap64 n)))"
  using wrap64_range [of n]
  by (simp add: satoshiStringToJsonString_def satoshiStringToSatoshiInt_def satoshiIntToSatoshiString_def lexical_cast_longlong_show_int)

lemma go_credit:
  assumes "key_mode user key amount [TabGet u] s" "u = userAccountKey user"
    and "app_WhatTheGetSavingCasWasFor s = CREDITCONFIRMEDBITCOINAMOUNTAFTERANALYZINGUSERACCOUNT" "credit_of E account key amount new"
  shows "\<exists>s'. tab_go E now (AnswerGet account c True False) s = Some s' \<and> tab_outputs s' = [Ask (TabCasStore u new c)]
    \<and> key_mode user key amount [TabCasStore u new c] s'
    \<and> app_WhatTheStoreWithInputCasWasFor s' = CREDITCONFIRMEDBITCOINBALANCEFORCURRENTPAYMENTKEYCASSWAPUSERACCOUNT
    \<and> (\<exists>n. app_BalanceSatoshiStringForDisplayingOnly s' = satoshiIntToSatoshiString (wrap64 n))"
  using assms by (auto simp: go_tab credit_of_def tab_get_finished_def creditConfirmedBitcoinAmountAfterAnalyzingUserAccount_def)

lemma go_creditted:
  assumes "key_mode user key amount [TabCasStore k d c] s"
    and "app_WhatTheStoreWithInputCasWasFor s = CREDITCONFIRMEDBITCOINBALANCEFORCURRENTPAYMENTKEYCASSWAPUSERACCOUNT"
    and "app_BalanceSatoshiStringForDisplayingOnly s = satoshiIntToSatoshiString (wrap64 n)"
  shows "\<exists>b s'. tab_go E now (AnswerCasStore True False) s = Some s'
    \<and> tab_outputs s' = [Tell (Creditted (satoshiIntToJsonString amount) key), Tell (NewBalance b)]
    \<and> m_GetBitcoinKeyPlaceholder s' \<and> \<not> m_HaveBitcoinKeyPlaceholder s' \<and> m_ConfirmedBitcoinBalanceInSatoshis s' = 0
    \<and> m_CurrentBitcoinKeyForPayments s' = [] \<and> tab_pending s' = [] \<and> app_DeferCount s' = 0"
  using assms display_of_balance [of n]
  by (simp add: go_tab tab_cas_store_finished_def doneAttemptingCredittingConfirmedBitcoinBalanceForCurrentPaymentKey_def
      changeToGetBitcoinKeyMode_def)

end
