(* ===== verification/AddFundsDemo.thy ===== *)
theory AddFundsDemo
  imports AddFundsRuns
begin

section \<open>Concrete tabs and documents\<close>

text \<open>
  The objects on which the witnesses of the properties of the tab run: a library environment, a user who pays to the key of the
  account, and a user who asks for a key on a key set with one full page.
\<close>

subsection \<open>A user who pays\<close>

definition payer_env :: "ptree funds_env" where
  "payer_env = \<lparr>funds_json = tree_json, funds_cast_double = (\<lambda>_. Some 1), zeroThrough999 = (\<lambda>_. 7),
     dateTimeText = show_int, sha1_base64 = (\<lambda>x. x)\<rparr>"

definition payer_account :: ptree where
  "payer_account = plain_doc [(JSON_USER_ACCOUNT_BITCOIN_STATE, JSON_USER_ACCOUNT_BITCOIN_STATE_HAVE_KEY),
     (JSON_USER_ACCOUNT_BITCOIN_STATE_DATA, ''1Key''), (JSON_USER_ACCOUNT_BALANCE, ''0'')]"

definition payer_balance :: ptree where
  "payer_balance = plain_doc [(''error'', ''null''), (''result'', ''1'')]"

definition payer_tab :: "ptree funds" where
  "payer_tab = \<lparr>app_CurrentlyLoggedInUsername = ''joe'', app_BalanceSatoshiStringForDisplayingOnly = ''0'',
     app_WhatTheGetSavingCasWasFor = TAB_INITIALINVALIDNULLGETSAVINGCAS, app_WhatTheStoreWithInputCasWasFor = TAB_INITIALINVALIDNULLSTOREWITHCAS,
     app_WhatTheStoreWithInputCasSavingOutputCasWasFor = TAB_INITIALINVALIDNULLSTOREWITHCASSAVINGCAS,
     app_WhatTheStoreWithoutInputCasWasFor = TAB_INITIALINVALIDNULLSTOREWITHOUTINPUTCAS, app_DeferCount = 0, widgetUniqueId = ''id'',
     m_UserAccountJsonForLockingIntoGettingBitcoinKey = pt_empty, m_UserAccountCASforBitcoinGettingKeyLockingAndUnlocking = 0,
     m_UserAccountBitcoinDoingGettingKeyRecoverySoAccountLocked = False, m_BitcoinKeySetIndex_aka_setN = [],
     m_BitcoinKeySetPage_aka_PageY = [], m_PerGetBitcoinKeyUUID = [], m_PollingPendingBalance = True,
     m_FillingNextBitcoinKeySetPerFillUuid = [], m_FillingNextStartingFromPageZ = [], m_FillingNextStartingFromPageZ_NON_CHANGING = [],
     m_BitcoinKeySetCurrentPageCAS = 0, m_PageZisFromCurrentPageInDb = False, m_CasToUseForSafelyUpdatingHugeBitcoinKeyList_CurrentPage = 0,
     m_CurrentBitcoinKeyForPayments = [], m_BitcoinKeyToGiveToUser = [], m_PendingBitcoinBalanceLabel = False,
     m_ConfirmedBitcoinBalanceLabel = False, m_ConfirmedBitcoinBalanceInSatoshis = 0, m_BitcoinKeysVectorToUseForNextPageFill = [],
     m_GetBitcoinKeyPlaceholder = False, m_HaveBitcoinKeyPlaceholder = False, m_TimeTofLastCheck = 0, m_PopulatedAndInitializing = False,
     tab_outputs = [], tab_pending = []\<rparr>"

definition payer_new :: ptree where
  "payer_new = creditted_doc (satoshiIntToSatoshiString 100000000) payer_account"

lemma payer_tab_new: "new_tab payer_tab" "app_CurrentlyLoggedInUsername payer_tab = ''joe''"
  by (simp_all add: new_tab_def payer_tab_def)

lemma payer_reports: "reports payer_env payer_balance 100000000"
proof -
  have "jsonDoubleToSatoshiIntIncludingRounding 1 = 100000000" by code_simp
  then show ?thesis by (simp add: reports_def payer_env_def payer_balance_def jsonStringToSatoshiInt_def)
qed

lemma payer_credit: "credit_of payer_env payer_account ''1Key'' 100000000 payer_new"
proof -
  have "satoshiStringToSatoshiInt ''0'' = Some 0" "\<not> profileIsLocked payer_account"
    by (simp_all add: satoshiStringToSatoshiInt_def lexical_cast_longlong_def read_range_def read_nat_def is_digit_def digit_value_def
        profileIsLocked_def pt_get_default_def payer_account_def)
  then show ?thesis by (simp add: credit_of_def payer_env_def payer_account_def payer_new_def)
qed

lemma payer_state:
  "read_json (funds_json payer_env) payer_account = Some payer_account"
  "pt_get JSON_USER_ACCOUNT_BITCOIN_STATE payer_account = Some JSON_USER_ACCOUNT_BITCOIN_STATE_HAVE_KEY"
  "pt_get JSON_USER_ACCOUNT_BITCOIN_STATE_DATA payer_account = Some ''1Key''"
  by (simp_all add: payer_env_def payer_account_def)

subsection \<open>A user who asks for a key\<close>

definition asker_tab :: "ptree funds" where
  "asker_tab = payer_tab\<lparr>m_GetBitcoinKeyPlaceholder := True, m_PopulatedAndInitializing := True\<rparr>"

definition asker_account :: ptree where
  "asker_account = plain_doc [(JSON_USER_ACCOUNT_BITCOIN_STATE, JSON_USER_ACCOUNT_BITCOIN_STATE_NO_KEY)]"

definition page_doc_of :: "string \<Rightarrow> ptree" where
  "page_doc_of y = plain_doc [(JSON_BITCOIN_KEY_SET_CURRENT_PAGE, y)]"

text \<open>A page of 100 keys, all claimed by someone else, and a page with one unclaimed key.\<close>

fun claim_first :: "nat \<Rightarrow> ptree \<Rightarrow> ptree" where
  "claim_first 0 pt = pt"
| "claim_first (Suc n) pt = claim_key ''x'' ''bob'' n (claim_first n pt)"

definition used_page :: ptree where
  "used_page = claim_first ABC_NUM_BITCOIN_KEYS_ON_EACH_BITCOINKEYSET_PAGE
     (page_of_keys 0 (replicate ABC_NUM_BITCOIN_KEYS_ON_EACH_BITCOINKEYSET_PAGE ''k'') pt_empty)"

definition fresh_page :: ptree where
  "fresh_page = plain_doc [(key_field 0, ''1Key'')]"

lemma claimant_claim_first:
  "claimant key_uuid_field j (claim_first n pt) = (if j < n then Some ''x'' else claimant key_uuid_field j pt)"
  "pt_get (key_field j) (claim_first n pt) = pt_get (key_field j) pt"
proof (induction n)
  case (Suc n)
  {
    case 1
    have u: "key_username_field n \<noteq> key_uuid_field j" by (rule username_field_apart)
    show ?case unfolding claim_first.simps claim_key_def key_book.claimant_put_other [OF u] key_book.claimant_put Suc by auto
  next
    case 2
    have "key_field j \<noteq> key_username_field n" "key_field j \<noteq> key_uuid_field n"
      using username_field_apart(2) key_book.entry_not_owner by metis+
    then show ?case by (simp add: claim_key_def Suc)
  }
qed simp_all


lemma owners_of_new_page: "pt_get (key_uuid_field j) (page_of_keys i ks t) = pt_get (key_uuid_field j) t"
proof (induction ks arbitrary: i t)
  case (Cons k ks)
  have "key_uuid_field j \<noteq> key_field i" using key_book.entry_not_owner by metis
  then show ?case by (simp add: Cons)
qed simp

text \<open>The database: the pages \<open>0\<close> (used up) and, when \<open>there\<close>, \<open>1\<close> of key set \<open>7\<close>, and a huge list with one range.\<close>

definition asker_db :: "bool \<Rightarrow> ptree db" where
  "asker_db there k = (if k = userAccountKey ''joe'' then [(asker_account, 1)]
     else if k = bitcoinKeySetCurrentPageKey (show_int 7) then [(page_doc_of (show_int 0), 1)]
     else if k = bitcoinKeySetPageKey (show_int 7) (show_int 0) then [(used_page, 1)]
     else if k = bitcoinKeySetPageKey (show_int 7) (show_int 1) \<and> there then [(fresh_page, 1)]
     else if k = hugeBitcoinKeyListCurrentPageKey then [(plain_doc [(JSON_HUGE_BITCOIN_KEY_LIST_CURRENT_PAGE_KEY, show_int 0)], 1)]
     else if k = hugeBitcoinKeyListPageKey (show_int 0) then [(plain_doc [(range_field 0, ''1Key,1Other'')], 1)]
     else [])"

end
