(* ===== verification/AddFundsGetKey.thy ===== *)
theory AddFundsGetKey
  imports AddFundsDemo
begin

section \<open>A user who asks for a key gets one\<close>

text \<open>
  One tab, and a database that executes every request and answers truthfully, picking any fresh CAS. From the click on the button, the request
  ends after a bounded number of answers with the first unclaimed key of its key set, whose claim and the account document say so. A page
  that does not exist yet is filled from the first unclaimed range of the huge list on the way.
\<close>

subsection \<open>An undisturbed database\<close>

fun serve :: "('j db \<Rightarrow> string \<Rightarrow> cas) \<Rightarrow> 'j \<Rightarrow> 'j db \<Rightarrow> 'j tab_request \<Rightarrow> ('j db \<times> 'j tab_input) option" where
  "serve pick d0 db (TabGet k) = Some (db, case current db k of None \<Rightarrow> AnswerGet d0 0 False False | Some (d, c) \<Rightarrow> AnswerGet d c True False)"
| "serve pick d0 db (TabCasStore k d c) = Some (if swap_allowed db k c
     then (new_version k d (pick db k) db, AnswerCasStore True False) else (db, AnswerCasStore False False))"
| "serve pick d0 db (TabCasStoreSavingCas k d c) = Some (if swap_allowed db k c
     then (new_version k d (pick db k) db, AnswerCasStoreSavingCas (pick db k) True False) else (db, AnswerCasStoreSavingCas 0 False False))"
| "serve pick d0 db (TabAdd k d) = Some (if db k = []
     then (new_version k d (pick db k) db, AnswerAdd True False) else (db, AnswerAdd False False))"
| "serve pick d0 db (TabPoll key minconf) = None"

text \<open>The next pending request is executed and its answer handled.\<close>

definition served :: "'j funds_env \<Rightarrow> ('j db \<Rightarrow> string \<Rightarrow> cas) \<Rightarrow> 'j \<Rightarrow> int \<Rightarrow> 'j db \<times> 'j funds \<Rightarrow> ('j db \<times> 'j funds) option" where
  "served E pick d0 now x = (case tab_pending (snd x) of [] \<Rightarrow> None
     | r # rs \<Rightarrow> (case serve pick d0 (fst x) r of None \<Rightarrow> None
        | Some (db', i) \<Rightarrow> map_option (Pair db') (tab_go E now i (snd x))))"

fun serves :: "'j funds_env \<Rightarrow> ('j db \<Rightarrow> string \<Rightarrow> cas) \<Rightarrow> 'j \<Rightarrow> int \<Rightarrow> nat \<Rightarrow> 'j db \<times> 'j funds \<Rightarrow> ('j db \<times> 'j funds) option" where
  "serves E pick d0 now 0 x = Some x"
| "serves E pick d0 now (Suc n) x = (case served E pick d0 now x of None \<Rightarrow> None | Some y \<Rightarrow> serves E pick d0 now n y)"

lemma serves_add: "serves E pick d0 now (m + n) x = Option.bind (serves E pick d0 now m x) (serves E pick d0 now n)"
  by (induction m arbitrary: x) (auto split: option.splits)

lemma serves_then:
  "serves E pick d0 now m x = Some y \<Longrightarrow> serves E pick d0 now n y = Some z \<Longrightarrow> serves E pick d0 now (m + n) x = Some z"
  by (simp add: serves_add)

text \<open>The first step of a run of answers, by the kind of request.\<close>

lemma serves_get:
  assumes "tab_pending s = [TabGet k]" "current db k = Some (d, c)" "tab_go E now (AnswerGet d c True False) s = Some s'"
  shows "serves E pick d0 now 1 (db, s) = Some (db, s')"
  using assms by (simp add: served_def)

lemma serves_get_missing:
  assumes "tab_pending s = [TabGet k]" "current db k = None" "tab_go E now (AnswerGet d0 0 False False) s = Some s'"
  shows "serves E pick d0 now 1 (db, s) = Some (db, s')"
  using assms by (simp add: served_def)

lemma serves_store:
  assumes "tab_pending s = [TabCasStore k d c]" "current db k = Some (d', c)" "tab_go E now (AnswerCasStore True False) s = Some s'"
  shows "serves E pick d0 now 1 (db, s) = Some (new_version k d (pick db k) db, s')"
  using assms by (simp add: served_def)

lemma serves_lock:
  assumes "tab_pending s = [TabCasStoreSavingCas k d c]" "current db k = Some (d', c)"
    and "tab_go E now (AnswerCasStoreSavingCas (pick db k) True False) s = Some s'"
  shows "serves E pick d0 now 1 (db, s) = Some (new_version k d (pick db k) db, s')"
  using assms by (simp add: served_def)

lemma serves_new:
  assumes "tab_pending s = [TabAdd k d]" "db k = []" "tab_go E now (AnswerAdd True False) s = Some s'"
  shows "serves E pick d0 now 1 (db, s) = Some (new_version k d (pick db k) db, s')"
  using assms by (simp add: served_def)

subsection \<open>Where a scan ends\<close>

text \<open>The page shows keys, the first \<open>i\<close> of them claimed by other requests.\<close>

definition taken_by_others :: "string \<Rightarrow> ptree \<Rightarrow> nat \<Rightarrow> bool" where
  "taken_by_others uuid pt i \<longleftrightarrow> (\<forall>j < i. pt_get (key_field j) pt \<noteq> None \<and> (\<exists>u. claimant key_uuid_field j pt = Some u \<and> u \<noteq> uuid))"

definition first_free_key :: "string \<Rightarrow> ptree \<Rightarrow> nat \<Rightarrow> string \<Rightarrow> bool" where
  "first_free_key uuid pt i key \<longleftrightarrow> i < ABC_NUM_BITCOIN_KEYS_ON_EACH_BITCOINKEYSET_PAGE \<and> taken_by_others uuid pt i
     \<and> claimant key_uuid_field i pt = None \<and> pt_get (key_field i) pt = Some key"

lemma scan_taken:
  assumes "taken_by_others uuid pt i" "j + n \<le> i"
  shows "scan_keys uuid pt j (n + m) s = scan_keys uuid pt (j + n) m s"
  using assms(2)
proof (induction n arbitrary: j)
  case (Suc n)
  then have "pt_get (key_field j) pt \<noteq> None" "\<exists>u. claimant key_uuid_field j pt = Some u \<and> u \<noteq> uuid"
    using assms(1) by (auto simp: taken_by_others_def)
  then show ?case using Suc by (auto simp: Let_def claimant_def split: if_splits)
qed simp

lemma scan_free: "first_free_key uuid pt i key
    \<Longrightarrow> scan_keys uuid pt 0 ABC_NUM_BITCOIN_KEYS_ON_EACH_BITCOINKEYSET_PAGE s = Ret (FirstUnclaimed i key) s"
  using scan_taken [of uuid pt i 0 i "Suc (99 - i)" s]
  by (auto simp: first_free_key_def claimant_def Let_def split: if_splits)

lemma scan_full: "taken_by_others uuid pt ABC_NUM_BITCOIN_KEYS_ON_EACH_BITCOINKEYSET_PAGE
    \<Longrightarrow> scan_keys uuid pt 0 ABC_NUM_BITCOIN_KEYS_ON_EACH_BITCOINKEYSET_PAGE s = Ret PageFull s"
  using scan_taken [of uuid pt 100 0 100 0 s] by simp

subsection \<open>The steps of a request for a key\<close>

text \<open>The request: who, on which key set, under which UUID, with the account document and the CAS to unlock it with.\<close>

record 'j key_request =
  r_user :: string
  r_set :: string
  r_uuid :: string
  r_account :: 'j
  r_tree :: ptree
  r_cas :: cas

definition getting :: "'j funds_env \<Rightarrow> 'j key_request \<Rightarrow> string \<Rightarrow> 'j tab_request \<Rightarrow> 'j funds \<Rightarrow> bool" where
  "getting E R y r s \<longleftrightarrow> app_CurrentlyLoggedInUsername s = r_user R \<and> m_BitcoinKeySetIndex_aka_setN s = r_set R
     \<and> m_PerGetBitcoinKeyUUID s = r_uuid R \<and> m_UserAccountJsonForLockingIntoGettingBitcoinKey s = r_account R
     \<and> read_json (funds_json E) (r_account R) = Some (r_tree R)
     \<and> m_UserAccountCASforBitcoinGettingKeyLockingAndUnlocking s = r_cas R
     \<and> \<not> m_UserAccountBitcoinDoingGettingKeyRecoverySoAccountLocked s \<and> \<not> m_HaveBitcoinKeyPlaceholder s
     \<and> m_BitcoinKeySetPage_aka_PageY s = y \<and> tab_pending s = [r] \<and> app_DeferCount s = 2"

text \<open>The UUID and the key set that a request gets.\<close>

definition set_of_request :: "'j funds_env \<Rightarrow> int \<Rightarrow> string" where
  "set_of_request E now = show_int (zeroThrough999 E (wrap32 now))"

definition uuid_of_request :: "'j funds_env \<Rightarrow> int \<Rightarrow> 'j funds \<Rightarrow> string" where
  "uuid_of_request E now s = sha1_base64 E (app_CurrentlyLoggedInUsername s @ widgetUniqueId s @ dateTimeText E now @ set_of_request E now)"

definition new_request :: "'j funds_env \<Rightarrow> int \<Rightarrow> 'j funds \<Rightarrow> 'j \<Rightarrow> ptree \<Rightarrow> cas \<Rightarrow> 'j key_request" where
  "new_request E now s d t c = \<lparr>r_user = app_CurrentlyLoggedInUsername s, r_set = set_of_request E now,
     r_uuid = uuid_of_request E now s, r_account = d, r_tree = t, r_cas = c\<rparr>"

lemmas key_ops = prepared_def tab_ops andthen_def prog_run Let_def key_mode_def getting_def

lemmas go_key = tab_go_def key_ops

text \<open>The tab offers a key and is idle.\<close>

definition offers_key :: "'j funds \<Rightarrow> bool" where
  "offers_key s \<longleftrightarrow> m_GetBitcoinKeyPlaceholder s \<and> \<not> m_HaveBitcoinKeyPlaceholder s \<and> app_DeferCount s = 0 \<and> tab_pending s = []"

lemma go_wants_key:
  assumes "offers_key s" "u = userAccountKey (app_CurrentlyLoggedInUsername s)"
  shows "\<exists>s'. tab_go E now ClickGetKey s = Some s' \<and> tab_pending s' = [TabGet u] \<and> app_DeferCount s' = 2
    \<and> app_WhatTheGetSavingCasWasFor s' = GETUSERACCOUNTFORGOINGINTOGETTINGBITCOINKEYMODE \<and> \<not> m_HaveBitcoinKeyPlaceholder s'
    \<and> app_CurrentlyLoggedInUsername s' = app_CurrentlyLoggedInUsername s \<and> widgetUniqueId s' = widgetUniqueId s"
  using assms by (simp add: offers_key_def go_key handleGetBitcoinKeyButtonClicked_def)

lemma go_account:
  assumes "tab_pending s = [TabGet u]" "app_DeferCount s = 2" "\<not> m_HaveBitcoinKeyPlaceholder s"
    and "app_WhatTheGetSavingCasWasFor s = GETUSERACCOUNTFORGOINGINTOGETTINGBITCOINKEYMODE"
    and "read_json (funds_json E) d = Some t" "\<not> profileIsLocked t"
      "pt_get JSON_USER_ACCOUNT_BITCOIN_STATE t = Some JSON_USER_ACCOUNT_BITCOIN_STATE_NO_KEY"
  shows "\<exists>s'. tab_go E now (AnswerGet d c True False) s = Some s'
    \<and> getting E (new_request E now s d t c) [] (TabGet (bitcoinKeySetCurrentPageKey (set_of_request E now))) s'
    \<and> app_WhatTheGetSavingCasWasFor s' = GETBITCOINKEYSETNCURRENTPAGETOSEEWHATPAGEITISONANDIFITISLOCKED"
  using assms by (simp add: go_key tab_get_finished_def new_request_def set_of_request_def uuid_of_request_def
      checkNotAttemptingToFillAkaPurchaseSlotThenTransitionIntoGettingBitcoinKeyState_def start_new_request_def)

definition getting_doc :: "'j funds_env \<Rightarrow> 'j key_request \<Rightarrow> string \<Rightarrow> 'j" where
  "getting_doc E R y = write_json (funds_json E) (getting_key_doc (r_set R) y (r_uuid R) (r_tree R))"

lemma go_current_page:
  assumes "getting E R [] (TabGet k) s"
    and "app_WhatTheGetSavingCasWasFor s = GETBITCOINKEYSETNCURRENTPAGETOSEEWHATPAGEITISONANDIFITISLOCKED"
    and "read_json (funds_json E) x = Some pt" "pt_get_default JSON_BITCOIN_KEY_SET_LOCKED_FILLING_NEXT_PAGE ''n'' pt = ''n''"
      "pt_get JSON_BITCOIN_KEY_SET_CURRENT_PAGE pt = Some y"
  shows "\<exists>s'. tab_go E now (AnswerGet x xc True False) s = Some s' \<and> m_BitcoinKeySetCurrentPageCAS s' = xc
    \<and> getting E R y (TabCasStoreSavingCas (userAccountKey (r_user R)) (getting_doc E R y) (r_cas R)) s'
    \<and> app_WhatTheStoreWithInputCasSavingOutputCasWasFor s' = USERACCOUNTBITCOINLOCKEDINTOGETTINGKEYMODE"
  using assms by (simp add: go_key tab_get_finished_def analyzeBitcoinKeySetN_CurrentPageDocToSeeWhatPageItIsOnAndIfItIsLocked_def
      proceedToBitcoinKeySetNgettingAfterLockingUserAccount_UnlessUserAccountAlreadyLocked_def getting_doc_def)

text \<open>Two purposes of a get lead to the scan of the page.\<close>

definition reads_page :: "'j funds \<Rightarrow> bool" where
  "reads_page s \<longleftrightarrow> app_WhatTheGetSavingCasWasFor s = GETBITCOINKEYSETNACTUALPAGETOSEEIFUUIDONITENOUGHROOM
     \<or> app_WhatTheGetSavingCasWasFor s = GETBITCOINKEYSETNPAGEYANDIFITEXISTSLOOPAROUNDCHECKINGUUIDBUTIFNOTEXISTMAKEITEXIST"

abbreviation page_of :: "'j key_request \<Rightarrow> string \<Rightarrow> string" where
  "page_of R y \<equiv> bitcoinKeySetPageKey (r_set R) y"

lemma go_account_locked:
  assumes "getting E R y (TabCasStoreSavingCas k d c) s"
    and "app_WhatTheStoreWithInputCasSavingOutputCasWasFor s = USERACCOUNTBITCOINLOCKEDINTOGETTINGKEYMODE"
  shows "\<exists>s'. tab_go E now (AnswerCasStoreSavingCas c' True False) s = Some s'
    \<and> getting E (R\<lparr>r_cas := c'\<rparr>) y (TabGet (page_of R y)) s' \<and> reads_page s' \<and> m_BitcoinKeySetCurrentPageCAS s' = m_BitcoinKeySetCurrentPageCAS s"
  using assms by (simp add: go_key tab_cas_store_saving_cas_finished_def userAccountBitcoinLockedIntoGettingKeyAttemptComplete_def
      userAccountBitcoinGettingKeyLocked_So_GetSavingCASbitcoinKeySetNPageY_def reads_page_def)

lemma read_page:
  assumes "reads_page s" "tab_pending s = [TabGet k]"
  shows "tab_go E now (AnswerGet x xc True False) s = (case gotBitcoinKeySetNpageYSoAnalyzeItForUUIDandEnoughRoomEtc E x xc True False
      ((prepared s [])\<lparr>app_DeferCount := app_DeferCount s - 1\<rparr>) of Ret _ s' \<Rightarrow> Some s' | _ \<Rightarrow> None)"
  using assms by (auto simp: reads_page_def go_tab tab_get_finished_def getBitcoinKeySetNPageYAttemptFinishedSoCheckItIfItExistsAndMakeItIfItDont_def)

lemma go_free_key:
  assumes "getting E R y (TabGet k) s" "reads_page s" "read_json (funds_json E) x = Some pt" "first_free_key (r_uuid R) pt i key"
  shows "\<exists>s'. tab_go E now (AnswerGet x xc True False) s = Some s' \<and> m_BitcoinKeyToGiveToUser s' = key
    \<and> getting E R y (TabCasStore (page_of R y) (write_json (funds_json E) (claim_key (r_uuid R) (r_user R) i pt)) xc) s'
    \<and> app_WhatTheStoreWithInputCasWasFor s' = CLAIMBITCOINKEYONBITCOINKEYSETVIACASSWAP"
proof -
  have "tab_pending s = [TabGet k]" using assms(1) by (simp add: getting_def)
  then show ?thesis using assms(1,3)
    by (simp add: scan_free [OF assms(4)] read_page [OF assms(2)] key_ops gotBitcoinKeySetNpageYSoAnalyzeItForUUIDandEnoughRoomEtc_def after_key_scan_def)
qed

lemma go_full_page:
  assumes "getting E R (show_int y) (TabGet k) s" "reads_page s" "read_json (funds_json E) x = Some pt"
    and "taken_by_others (r_uuid R) pt ABC_NUM_BITCOIN_KEYS_ON_EACH_BITCOINKEYSET_PAGE" "0 \<le> y" "y + 1 < 2 ^ 31"
  shows "\<exists>s'. tab_go E now (AnswerGet x xc True False) s = Some s'
    \<and> getting E R (show_int (y + 1)) (TabGet (page_of R (show_int (y + 1)))) s' \<and> reads_page s'
    \<and> app_WhatTheGetSavingCasWasFor s' = GETBITCOINKEYSETNPAGEYANDIFITEXISTSLOOPAROUNDCHECKINGUUIDBUTIFNOTEXISTMAKEITEXIST
    \<and> m_BitcoinKeySetCurrentPageCAS s' = m_BitcoinKeySetCurrentPageCAS s"
proof -
  have "lexical_cast_int (show_int y) = Some y" using assms(5,6) by (intro lexical_cast_int_show_int) simp_all
  moreover have "tab_pending s = [TabGet k]" using assms(1) by (simp add: getting_def)
  ultimately show ?thesis using assms(1,3,5,6)
    by (simp add: scan_full [OF assms(4)] read_page [OF assms(2)] key_ops gotBitcoinKeySetNpageYSoAnalyzeItForUUIDandEnoughRoomEtc_def after_key_scan_def
        reads_page_def)
qed

definition have_doc :: "'j funds_env \<Rightarrow> 'j key_request \<Rightarrow> string \<Rightarrow> 'j" where
  "have_doc E R key = write_json (funds_json E) (have_key_doc key (r_tree R))"

lemma go_claimed:
  assumes "getting E R y (TabCasStore k d c) s" "app_WhatTheStoreWithInputCasWasFor s = CLAIMBITCOINKEYONBITCOINKEYSETVIACASSWAP"
    and "m_BitcoinKeyToGiveToUser s = key"
  shows "\<exists>s'. tab_go E now (AnswerCasStore True False) s = Some s' \<and> m_BitcoinKeyToGiveToUser s' = key
    \<and> getting E R y (TabCasStore (userAccountKey (r_user R)) (have_doc E R key) (r_cas R)) s'
    \<and> app_WhatTheStoreWithInputCasWasFor s' = UNLOCKUSERACCOUNTFROMBITCOINGETTINGKEYTOBITCOINHAVEKEY"
  using assms by (simp add: go_key tab_cas_store_finished_def doneAttemptingToUpdateBitcoinKeySetViaCASswapAkaClaimingAKey_def have_doc_def
      unlockUserAccountSafelyFromBitcoinGettingKeyBecauseWeGotAKey_def)

lemma go_unlocked:
  assumes "getting E R y (TabCasStore k d c) s" "app_WhatTheStoreWithInputCasWasFor s = UNLOCKUSERACCOUNTFROMBITCOINGETTINGKEYTOBITCOINHAVEKEY"
    and "m_BitcoinKeyToGiveToUser s = key"
  shows "\<exists>s'. tab_go E now (AnswerCasStore True False) s = Some s' \<and> tab_outputs s' = [Tell (CurrentKey key)]
    \<and> key_mode (r_user R) key (m_ConfirmedBitcoinBalanceInSatoshis s) [] s'"
  using assms by (simp add: go_key tab_cas_store_finished_def doneAttemptingToUnlockUserAccountFromBitcoinGettingKeyToBitcoinHaveKey_def
      changeToHaveBitcoinKeyMode_def)

subsection \<open>From the locked account to the key\<close>

text \<open>The user has the key: the tab shows it, and the account document holds it.\<close>

definition has_got :: "'j funds_env \<Rightarrow> 'j key_request \<Rightarrow> string \<Rightarrow> 'j db \<times> 'j funds \<Rightarrow> bool" where
  "has_got E R key x \<longleftrightarrow> m_HaveBitcoinKeyPlaceholder (snd x) \<and> m_CurrentBitcoinKeyForPayments (snd x) = key
     \<and> tab_pending (snd x) = [] \<and> app_DeferCount (snd x) = 0
     \<and> map_option fst (current (fst x) (userAccountKey (r_user R))) = Some (have_doc E R key)"

definition claimed_doc :: "'j funds_env \<Rightarrow> 'j key_request \<Rightarrow> nat \<Rightarrow> ptree \<Rightarrow> 'j" where
  "claimed_doc E R i pt = write_json (funds_json E) (claim_key (r_uuid R) (r_user R) i pt)"

lemma claims_free_key:
  assumes g: "getting E R y (TabGet (page_of R y)) s" "reads_page s" and p: "current db (page_of R y) = Some (x, xc)"
    and x: "read_json (funds_json E) x = Some pt" "first_free_key (r_uuid R) pt i key"
  shows "\<exists>s'. serves E pick d0 now 2 (db, s) = Some (new_version (page_of R y) (claimed_doc E R i pt) (pick db (page_of R y)) db, s')
    \<and> m_BitcoinKeyToGiveToUser s' = key \<and> getting E R y (TabCasStore (userAccountKey (r_user R)) (have_doc E R key) (r_cas R)) s'
    \<and> app_WhatTheStoreWithInputCasWasFor s' = UNLOCKUSERACCOUNTFROMBITCOINGETTINGKEYTOBITCOINHAVEKEY"
proof -
  obtain s1 where s1: "tab_go E now (AnswerGet x xc True False) s = Some s1" "m_BitcoinKeyToGiveToUser s1 = key"
      "getting E R y (TabCasStore (page_of R y) (claimed_doc E R i pt) xc) s1"
      "app_WhatTheStoreWithInputCasWasFor s1 = CLAIMBITCOINKEYONBITCOINKEYSETVIACASSWAP"
    using go_free_key [OF g x] unfolding claimed_doc_def by blast
  obtain s2 where s2: "tab_go E now (AnswerCasStore True False) s1 = Some s2" "m_BitcoinKeyToGiveToUser s2 = key"
      "getting E R y (TabCasStore (userAccountKey (r_user R)) (have_doc E R key) (r_cas R)) s2"
      "app_WhatTheStoreWithInputCasWasFor s2 = UNLOCKUSERACCOUNTFROMBITCOINGETTINGKEYTOBITCOINHAVEKEY"
    using go_claimed [OF s1(3,4,2)] by blast
  have q: "tab_pending s = [TabGet (page_of R y)]" "tab_pending s1 = [TabCasStore (page_of R y) (claimed_doc E R i pt) xc]"
    using g(1) s1(3) by (simp_all add: getting_def)
  have "serves E pick d0 now (1 + 1) (db, s) = Some (new_version (page_of R y) (claimed_doc E R i pt) (pick db (page_of R y)) db, s2)"
    by (rule serves_then [OF serves_get [OF q(1) p s1(1)]], rule serves_store [where pick = pick, OF q(2) p s2(1)])
  then show ?thesis using s2(2-4) by (metis one_add_one)
qed

lemma takes_free_key:
  assumes g: "getting E R y (TabGet (page_of R y)) s" "reads_page s" and p: "current db (page_of R y) = Some (x, xc)"
    and x: "read_json (funds_json E) x = Some pt" "first_free_key (r_uuid R) pt i key"
    and a: "current db (userAccountKey (r_user R)) = Some (a, r_cas R)"
  shows "\<exists>db' s'. serves E pick d0 now 3 (db, s) = Some (db', s') \<and> has_got E R key (db', s')
    \<and> map_option fst (current db' (page_of R y)) = Some (claimed_doc E R i pt)
    \<and> (\<forall>k. k \<noteq> page_of R y \<longrightarrow> k \<noteq> userAccountKey (r_user R) \<longrightarrow> current db' k = current db k)"
proof -
  define db1 where "db1 = new_version (page_of R y) (claimed_doc E R i pt) (pick db (page_of R y)) db"
  obtain s2 where s2: "serves E pick d0 now 2 (db, s) = Some (db1, s2)" "m_BitcoinKeyToGiveToUser s2 = key"
      "getting E R y (TabCasStore (userAccountKey (r_user R)) (have_doc E R key) (r_cas R)) s2"
      "app_WhatTheStoreWithInputCasWasFor s2 = UNLOCKUSERACCOUNTFROMBITCOINGETTINGKEYTOBITCOINHAVEKEY"
    using claims_free_key [OF g p x, of pick d0 now] unfolding db1_def by blast
  let ?db2 = "new_version (userAccountKey (r_user R)) (have_doc E R key) (pick db1 (userAccountKey (r_user R))) db1"
  obtain s3 where s3: "tab_go E now (AnswerCasStore True False) s2 = Some s3"
      "key_mode (r_user R) key (m_ConfirmedBitcoinBalanceInSatoshis s2) [] s3"
    using go_unlocked [OF s2(3,4,2)] by blast
  have a1: "current db1 (userAccountKey (r_user R)) = Some (a, r_cas R)" using a by (simp add: db1_def)
  have q: "tab_pending s2 = [TabCasStore (userAccountKey (r_user R)) (have_doc E R key) (r_cas R)]" using s2(3) by (simp add: getting_def)
  have "serves E pick d0 now (2 + 1) (db, s) = Some (?db2, s3)"
    by (rule serves_then [OF s2(1)], rule serves_store [where pick = pick, OF q a1 s3(1)])
  moreover have "has_got E R key (?db2, s3)" using s3(2) by (simp add: has_got_def key_mode_def)
  moreover have "map_option fst (current ?db2 (page_of R y)) = Some (claimed_doc E R i pt)" by (simp add: db1_def)
  moreover have "\<forall>k. k \<noteq> page_of R y \<longrightarrow> k \<noteq> userAccountKey (r_user R) \<longrightarrow> current ?db2 k = current db k" by (simp add: db1_def)
  moreover have "2 + 1 = (3::nat)" by simp
  ultimately show ?thesis by (metis (no_types))
qed

text \<open>Full pages are walked over.\<close>

definition full_page :: "'j funds_env \<Rightarrow> 'j db \<Rightarrow> 'j key_request \<Rightarrow> int \<Rightarrow> bool" where
  "full_page E db R y \<longleftrightarrow> (\<exists>x xc pt. current db (page_of R (show_int y)) = Some (x, xc) \<and> read_json (funds_json E) x = Some pt
     \<and> taken_by_others (r_uuid R) pt ABC_NUM_BITCOIN_KEYS_ON_EACH_BITCOINKEYSET_PAGE)"

lemma walks_full_pages:
  assumes "getting E R (show_int y) (TabGet (page_of R (show_int y))) s" "reads_page s" "0 \<le> y" "y + int m < 2 ^ 31"
    and "\<forall>j < m. full_page E db R (y + int j)"
  shows "\<exists>s'. serves E pick d0 now m (db, s) = Some (db, s')
    \<and> getting E R (show_int (y + int m)) (TabGet (page_of R (show_int (y + int m)))) s' \<and> reads_page s'
    \<and> (m \<noteq> 0 \<longrightarrow> app_WhatTheGetSavingCasWasFor s' = GETBITCOINKEYSETNPAGEYANDIFITEXISTSLOOPAROUNDCHECKINGUUIDBUTIFNOTEXISTMAKEITEXIST)
    \<and> m_BitcoinKeySetCurrentPageCAS s' = m_BitcoinKeySetCurrentPageCAS s"
  using assms(4,5)
proof (induction m)
  case 0
  with assms(1,2) show ?case by auto
next
  case (Suc m)
  then obtain s1 where s1: "serves E pick d0 now m (db, s) = Some (db, s1)"
      "getting E R (show_int (y + int m)) (TabGet (page_of R (show_int (y + int m)))) s1" "reads_page s1"
      "m_BitcoinKeySetCurrentPageCAS s1 = m_BitcoinKeySetCurrentPageCAS s" by auto
  from Suc(3) obtain x xc pt where p: "current db (page_of R (show_int (y + int m))) = Some (x, xc)" "read_json (funds_json E) x = Some pt"
      "taken_by_others (r_uuid R) pt ABC_NUM_BITCOIN_KEYS_ON_EACH_BITCOINKEYSET_PAGE"
    unfolding full_page_def by blast
  have n: "0 \<le> y + int m" "y + int m + 1 < 2 ^ 31" using Suc(2) assms(3) by simp_all
  obtain s2 where s2: "tab_go E now (AnswerGet x xc True False) s1 = Some s2"
      "getting E R (show_int (y + int m + 1)) (TabGet (page_of R (show_int (y + int m + 1)))) s2" "reads_page s2"
      "app_WhatTheGetSavingCasWasFor s2 = GETBITCOINKEYSETNPAGEYANDIFITEXISTSLOOPAROUNDCHECKINGUUIDBUTIFNOTEXISTMAKEITEXIST"
      "m_BitcoinKeySetCurrentPageCAS s2 = m_BitcoinKeySetCurrentPageCAS s1"
    using go_full_page [OF s1(2,3) p(2,3) n] by blast
  have "tab_pending s1 = [TabGet (page_of R (show_int (y + int m)))]" using s1(2) by (simp add: getting_def)
  then have "serves E pick d0 now 1 (db, s1) = Some (db, s2)" by (rule serves_get [OF _ p(1) s2(1)])
  then have "serves E pick d0 now (m + 1) (db, s) = Some (db, s2)" by (rule serves_then [OF s1(1)])
  then have r: "serves E pick d0 now (Suc m) (db, s) = Some (db, s2)" by (simp only: Suc_eq_plus1)
  have e: "y + int (Suc m) = y + int m + 1" by simp
  have c: "m_BitcoinKeySetCurrentPageCAS s2 = m_BitcoinKeySetCurrentPageCAS s" using s2(5) s1(4) by (rule trans)
  show ?case unfolding e by (rule exI [of _ s2], intro conjI impI) (rule r s2(2) s2(3) s2(4) c)+
qed


subsection \<open>From the click to the locked account\<close>

text \<open>
  An account that may ask for a key, and a key set whose document names page \<open>y\<close> and is not locked for filling the next page.
\<close>

definition may_get_key :: "'j funds_env \<Rightarrow> int \<Rightarrow> 'j db \<Rightarrow> 'j funds \<Rightarrow> 'j key_request \<Rightarrow> int \<Rightarrow> bool" where
  "may_get_key E now db s R y \<longleftrightarrow> offers_key s \<and> R = new_request E now s (r_account R) (r_tree R) (r_cas R)
     \<and> current db (userAccountKey (r_user R)) = Some (r_account R, r_cas R)
     \<and> read_json (funds_json E) (r_account R) = Some (r_tree R) \<and> \<not> profileIsLocked (r_tree R)
     \<and> pt_get JSON_USER_ACCOUNT_BITCOIN_STATE (r_tree R) = Some JSON_USER_ACCOUNT_BITCOIN_STATE_NO_KEY
     \<and> (\<exists>x xc pt. current db (bitcoinKeySetCurrentPageKey (r_set R)) = Some (x, xc) \<and> read_json (funds_json E) x = Some pt
          \<and> pt_get_default JSON_BITCOIN_KEY_SET_LOCKED_FILLING_NEXT_PAGE ''n'' pt = ''n''
          \<and> pt_get JSON_BITCOIN_KEY_SET_CURRENT_PAGE pt = Some (show_int y))"

lemma locks_the_account:
  assumes "may_get_key E now db s R y"
  shows "\<exists>s0 db1 s1 R1. tab_go E now ClickGetKey s = Some s0 \<and> serves E pick d0 now 3 (db, s0) = Some (db1, s1)
     \<and> R1 = R\<lparr>r_cas := pick db (userAccountKey (r_user R))\<rparr>
     \<and> getting E R1 (show_int y) (TabGet (page_of R (show_int y))) s1 \<and> reads_page s1
     \<and> db1 = new_version (userAccountKey (r_user R)) (getting_doc E R (show_int y)) (r_cas R1) db
     \<and> (\<exists>x. current db (bitcoinKeySetCurrentPageKey (r_set R)) = Some (x, m_BitcoinKeySetCurrentPageCAS s1))"
proof -
  define u where "u = userAccountKey (r_user R)"
  from assms obtain x xc pt where o: "offers_key s" and R: "R = new_request E now s (r_account R) (r_tree R) (r_cas R)"
    and a: "current db u = Some (r_account R, r_cas R)" "read_json (funds_json E) (r_account R) = Some (r_tree R)" "\<not> profileIsLocked (r_tree R)"
      "pt_get JSON_USER_ACCOUNT_BITCOIN_STATE (r_tree R) = Some JSON_USER_ACCOUNT_BITCOIN_STATE_NO_KEY"
    and x: "current db (bitcoinKeySetCurrentPageKey (r_set R)) = Some (x, xc)" "read_json (funds_json E) x = Some pt"
      "pt_get_default JSON_BITCOIN_KEY_SET_LOCKED_FILLING_NEXT_PAGE ''n'' pt = ''n''"
      "pt_get JSON_BITCOIN_KEY_SET_CURRENT_PAGE pt = Some (show_int y)"
    unfolding may_get_key_def u_def by blast
  have us: "u = userAccountKey (app_CurrentlyLoggedInUsername s)" "r_set R = set_of_request E now"
    using arg_cong [OF R, of r_user] arg_cong [OF R, of r_set] by (simp_all add: u_def new_request_def)
  obtain s0 where s0: "tab_go E now ClickGetKey s = Some s0" "tab_pending s0 = [TabGet u]" "app_DeferCount s0 = 2"
      "app_WhatTheGetSavingCasWasFor s0 = GETUSERACCOUNTFORGOINGINTOGETTINGBITCOINKEYMODE" "\<not> m_HaveBitcoinKeyPlaceholder s0"
      "app_CurrentlyLoggedInUsername s0 = app_CurrentlyLoggedInUsername s" "widgetUniqueId s0 = widgetUniqueId s"
    using go_wants_key [OF o us(1), of E now] by blast
  have R0: "new_request E now s0 (r_account R) (r_tree R) (r_cas R) = R"
    using R s0(6,7) by (simp add: new_request_def uuid_of_request_def)
  obtain s1 where s1: "tab_go E now (AnswerGet (r_account R) (r_cas R) True False) s0 = Some s1"
      "getting E R [] (TabGet (bitcoinKeySetCurrentPageKey (r_set R))) s1"
      "app_WhatTheGetSavingCasWasFor s1 = GETBITCOINKEYSETNCURRENTPAGETOSEEWHATPAGEITISONANDIFITISLOCKED"
    using go_account [OF s0(2,3,5,4) a(2-4), of now "r_cas R"] unfolding R0 us(2) by blast
  obtain s2 where s2: "tab_go E now (AnswerGet x xc True False) s1 = Some s2" "m_BitcoinKeySetCurrentPageCAS s2 = xc"
      "getting E R (show_int y) (TabCasStoreSavingCas u (getting_doc E R (show_int y)) (r_cas R)) s2"
      "app_WhatTheStoreWithInputCasSavingOutputCasWasFor s2 = USERACCOUNTBITCOINLOCKEDINTOGETTINGKEYMODE"
    using go_current_page [OF s1(2,3) x(2-4), of now xc] unfolding u_def by blast
  obtain s3 where s3: "tab_go E now (AnswerCasStoreSavingCas (pick db u) True False) s2 = Some s3"
      "getting E (R\<lparr>r_cas := pick db u\<rparr>) (show_int y) (TabGet (page_of R (show_int y))) s3" "reads_page s3"
      "m_BitcoinKeySetCurrentPageCAS s3 = m_BitcoinKeySetCurrentPageCAS s2"
    using go_account_locked [OF s2(3,4), of now "pick db u"] by blast
  have q: "tab_pending s1 = [TabGet (bitcoinKeySetCurrentPageKey (r_set R))]"
      "tab_pending s2 = [TabCasStoreSavingCas u (getting_doc E R (show_int y)) (r_cas R)]"
    using s1(2) s2(3) by (simp_all add: getting_def)
  have "serves E pick d0 now (1 + (1 + 1)) (db, s0) = Some (new_version u (getting_doc E R (show_int y)) (pick db u) db, s3)"
    by (rule serves_then [OF serves_get [OF s0(2) a(1) s1(1)]], rule serves_then [OF serves_get [OF q(1) x(1) s2(1)]],
      rule serves_lock [where pick = pick, OF q(2) a(1) s3(1)])
  moreover have "1 + (1 + 1) = (3::nat)" by simp
  ultimately have "serves E pick d0 now 3 (db, s0) = Some (new_version u (getting_doc E R (show_int y)) (pick db u) db, s3)" by metis
  moreover have "\<exists>x. current db (bitcoinKeySetCurrentPageKey (r_set R)) = Some (x, m_BitcoinKeySetCurrentPageCAS s3)"
    using x(1) s3(4) s2(2) by simp
  moreover have "r_cas (R\<lparr>r_cas := pick db u\<rparr>) = pick db u" by simp
  ultimately show ?thesis using s0(1) s3(2,3) unfolding u_def by metis
qed

text \<open>
  C6. A user who asks for a key gets the first unclaimed one. The account is unlocked and has no key, the key set's document names page \<open>y\<close>; the
  pages from there on are full (every key claimed by another request), \<open>m\<close> of them, and the next has an unclaimed key after \<open>i\<close> claimed
  ones. Then the click is followed by exactly \<open>m + 6\<close> requests, each answered and none refused; after the last, the session shows that key, the account
  document holds it, and the page shows it claimed under the request's UUID and the user's name.
\<close>

theorem a_free_key_is_given:
  assumes "may_get_key E now db s R y" "0 \<le> y" "y + int m < 2 ^ 31" "\<forall>j < m. full_page E db R (y + int j)"
    and "current db (page_of R (show_int (y + int m))) = Some (x, xc)" "read_json (funds_json E) x = Some pt"
      "first_free_key (r_uuid R) pt i key"
  shows "\<exists>s0 db' s'. tab_go E now ClickGetKey s = Some s0 \<and> serves E pick d0 now (m + 6) (db, s0) = Some (db', s')
     \<and> has_got E R key (db', s')
     \<and> map_option fst (current db' (page_of R (show_int (y + int m)))) = Some (claimed_doc E R i pt)"
proof -
  obtain s0 db1 s1 R1 where s1: "tab_go E now ClickGetKey s = Some s0" "serves E pick d0 now 3 (db, s0) = Some (db1, s1)"
      "R1 = R\<lparr>r_cas := pick db (userAccountKey (r_user R))\<rparr>"
      "getting E R1 (show_int y) (TabGet (page_of R (show_int y))) s1" "reads_page s1"
      "db1 = new_version (userAccountKey (r_user R)) (getting_doc E R (show_int y)) (r_cas R1) db"
    using locks_the_account [OF assms(1), of pick d0] by blast
  have R1: "r_set R1 = r_set R" "r_user R1 = r_user R" "r_uuid R1 = r_uuid R" "r_tree R1 = r_tree R" using s1(3) by simp_all
  have full: "\<forall>j < m. full_page E db1 R1 (y + int j)" using assms(4) by (simp add: full_page_def s1(6) R1)
  have "getting E R1 (show_int y) (TabGet (page_of R1 (show_int y))) s1" using s1(4) R1 by simp
  then obtain s2 where s2: "serves E pick d0 now m (db1, s1) = Some (db1, s2)"
      "getting E R1 (show_int (y + int m)) (TabGet (page_of R1 (show_int (y + int m)))) s2" "reads_page s2"
    using walks_full_pages [OF _ s1(5) assms(2,3) full, of pick d0 now] by blast
  have p: "current db1 (page_of R1 (show_int (y + int m))) = Some (x, xc)" using assms(5) by (simp add: s1(6) R1)
  have f: "first_free_key (r_uuid R1) pt i key" using assms(7) by (simp add: R1)
  have a: "current db1 (userAccountKey (r_user R1)) = Some (getting_doc E R (show_int y), r_cas R1)" by (simp add: s1(6) R1)
  obtain db' s' where s': "serves E pick d0 now 3 (db1, s2) = Some (db', s')" "has_got E R1 key (db', s')"
      "map_option fst (current db' (page_of R1 (show_int (y + int m)))) = Some (claimed_doc E R1 i pt)"
    using takes_free_key [OF s2(2,3) p assms(6) f a, of pick d0 now] by blast
  have "serves E pick d0 now (3 + (m + 3)) (db, s0) = Some (db', s')"
    by (rule serves_then [OF s1(2)], rule serves_then [OF s2(1) s'(1)])
  moreover have "3 + (m + 3) = m + 6" by simp
  ultimately have "serves E pick d0 now (m + 6) (db, s0) = Some (db', s')" by metis
  moreover have "has_got E R key (db', s')" "claimed_doc E R1 i pt = claimed_doc E R i pt"
    using s'(2) by (simp_all add: has_got_def have_doc_def claimed_doc_def R1)
  ultimately show ?thesis using s1(1) s'(3) R1(1) by auto
qed


subsection \<open>A concrete request\<close>

definition asker_request :: "ptree key_request" where
  "asker_request = new_request payer_env 100 asker_tab asker_account asker_account 1"

lemma asker_request_sel [simp]: "r_user asker_request = ''joe''" "r_set asker_request = show_int 7" "r_account asker_request = asker_account"
  "r_tree asker_request = asker_account" "r_cas asker_request = 1" "r_uuid asker_request \<noteq> ''x''"
  by (simp_all add: asker_request_def new_request_def asker_tab_def payer_tab_def set_of_request_def uuid_of_request_def payer_env_def)

lemma asker_may: "may_get_key payer_env 100 (asker_db there) asker_tab asker_request 0"
proof -
  have "asker_request = new_request payer_env 100 asker_tab (r_account asker_request) (r_tree asker_request) (r_cas asker_request)"
    by (simp only: asker_request_sel) (simp only: asker_request_def)
  moreover have "offers_key asker_tab" by (simp add: offers_key_def asker_tab_def payer_tab_def)
  moreover have "\<not> profileIsLocked asker_account" by (simp add: profileIsLocked_def pt_get_default_def asker_account_def)
  moreover have "pt_get JSON_USER_ACCOUNT_BITCOIN_STATE asker_account = Some JSON_USER_ACCOUNT_BITCOIN_STATE_NO_KEY"
    by (simp add: asker_account_def)
  moreover have "current (asker_db there) (userAccountKey ''joe'') = Some (asker_account, 1)"
      "current (asker_db there) (bitcoinKeySetCurrentPageKey (show_int 7)) = Some (page_doc_of (show_int 0), 1)"
    by (simp_all add: asker_db_def current_def)
  moreover have "read_json (funds_json payer_env) t = Some t" for t by (simp add: payer_env_def)
  moreover have "pt_get_default JSON_BITCOIN_KEY_SET_LOCKED_FILLING_NEXT_PAGE ''n'' (page_doc_of (show_int 0)) = ''n''"
      "pt_get JSON_BITCOIN_KEY_SET_CURRENT_PAGE (page_doc_of (show_int 0)) = Some (show_int 0)"
    by (simp_all add: page_doc_of_def pt_get_default_def)
  ultimately show ?thesis unfolding may_get_key_def asker_request_sel by blast
qed

lemma asker_full_page: "full_page payer_env (asker_db there) asker_request 0"
proof -
  have "current (asker_db there) (bitcoinKeySetPageKey (show_int 7) (show_int 0)) = Some (used_page, 1)"
    by (simp add: asker_db_def current_def)
  moreover have "taken_by_others (r_uuid asker_request) used_page 100"
    using asker_request_sel(6) [symmetric] by (auto simp: taken_by_others_def used_page_def claimant_claim_first entries_of_new_page simp del: claim_first.simps)
  ultimately show ?thesis by (simp add: full_page_def payer_env_def)
qed

theorem a_free_key_is_given_witness:
  "\<exists>s0 db' s'. tab_go payer_env 100 ClickGetKey asker_tab = Some s0
     \<and> serves payer_env (\<lambda>db k. 2) pt_empty 100 7 (asker_db True, s0) = Some (db', s') \<and> has_got payer_env asker_request ''1Key'' (db', s')"
proof -
  have "current (asker_db True) (page_of asker_request (show_int (0 + int 1))) = Some (fresh_page, 1)"
    by (simp add: asker_db_def current_def page_key_names)
  moreover have "first_free_key (r_uuid asker_request) fresh_page 0 ''1Key''"
    using key_book.entry_not_owner [of 0 0, symmetric]
    by (simp add: first_free_key_def taken_by_others_def fresh_page_def claimant_def pt_get_default_def)
  moreover have "\<forall>j < 1. full_page payer_env (asker_db True) asker_request (0 + int j)" using asker_full_page by simp
  moreover have "read_json (funds_json payer_env) fresh_page = Some fresh_page" by (simp add: payer_env_def)
  ultimately show ?thesis
    using a_free_key_is_given [OF asker_may, of 1 True fresh_page 1 fresh_page 0 "''1Key''" "\<lambda>db k. 2" pt_empty] by auto
qed

end
