(* ===== verification/AddFundsWorldRuns.thy ===== *)
theory AddFundsWorldRuns
  imports AddFundsGetKey
begin

section \<open>Executed runs are runs of the world\<close>

text \<open>
  A click and the answers of an undisturbed database, executed by \<open>tab_go\<close> and \<open>serves\<close>, are steps of the world. So the properties of all runs apply to
  the executed ones; the concrete run at the end takes a new tab to the store that hands out a key.
\<close>

lemma click_in_world:
  "tab_click i (tab_of w n) \<Longrightarrow> tab_go E now i (tab_of w n) = Some s' \<Longrightarrow> world_step E w [(n, s')] (w\<lparr>tab_of := (tab_of w)(n := s')\<rparr>)"
  by (auto simp: tab_go_def split: outcome.splits intro: world_step.clicked)

lemma served_in_world:
  assumes "served E next_cas d0 now (database w, tab_of w n) = Some (db', s')" "numbered m (database w)" "Suc m < 2 ^ 64"
  shows "world_step E w [(n, s')] (w\<lparr>database := db', tab_of := (tab_of w)(n := s')\<rparr>) \<and> numbered (Suc m) db'"
proof -
  note fresh = numbered_fresh [OF assms(2,3)]
  from assms(1) obtain r rs i where r: "tab_pending (tab_of w n) = r # rs" "serve next_cas d0 (database w) r = Some (db', i)"
      "tab_go E now i (tab_of w n) = Some s'"
    by (auto simp: served_def split: list.splits option.splits)
  have a: "db_answers (database w) r i db'"
    using r(2) fresh by (cases r) (auto split: option.splits if_splits intro: db_answers.intros simp: current_none)
  have m: "numbered (Suc m) db'"
    using r(2) numbered_new [OF assms(2)] numbered_Suc [OF assms(2)] by (cases r) (auto split: if_splits)
  have "\<not> tab_click i (tab_of w n)" using r(2) by (cases r) (auto split: option.splits if_splits)
  then have "tab_handle E now i (prepared (tab_of w n) rs) = Ret () s'"
    using r(1,3) by (auto simp: tab_go_def split: if_splits outcome.splits)
  with r(1) a m show ?thesis by (auto intro: world_step.answered)
qed

lemma serves_in_world:
  assumes "user_reach E w0 h w" "serves E next_cas d0 now k (database w, tab_of w n) = Some (db', s')" "numbered m (database w)" "m + k < 2 ^ 64"
    and "0 < k"
  shows "\<exists>h' w'. user_reach E w0 (h @ h' @ [(n, s')]) w' \<and> database w' = db' \<and> tab_of w' n = s'"
  using assms
proof (induction k arbitrary: h w m)
  case (Suc k)
  from Suc(3) obtain db1 s1 where s1: "served E next_cas d0 now (database w, tab_of w n) = Some (db1, s1)"
      "serves E next_cas d0 now k (db1, s1) = Some (db', s')"
    by (auto split: option.splits)
  have "Suc m < 2 ^ 64" using Suc(5) by linarith
  from served_in_world [OF s1(1) Suc(4) this] have
    w1: "world_step E w [(n, s1)] (w\<lparr>database := db1, tab_of := (tab_of w)(n := s1)\<rparr>)" "numbered (Suc m) db1" by blast+
  let ?w1 = "w\<lparr>database := db1, tab_of := (tab_of w)(n := s1)\<rparr>"
  have r: "user_reach E w0 (h @ [(n, s1)]) ?w1" using user_reach.step [OF Suc(2) w1(1)] by simp
  show ?case
  proof (cases "k = 0")
    case True
    with s1(2) r show ?thesis by (intro exI [of _ "[]"] exI [of _ ?w1]) simp
  next
    case False
    have s: "serves E next_cas d0 now k (database ?w1, tab_of ?w1 n) = Some (db', s')" using s1(2) by simp
    have "numbered (Suc m) (database ?w1)" "Suc m + k < 2 ^ 64" "0 < k" using w1(2) Suc(5) False by simp_all
    from Suc(1) [OF r s this] show ?thesis by (metis append.assoc)
  qed
qed simp


subsection \<open>A run that hands out a key\<close>

definition first_page :: ptree where
  "first_page = pt_put (key_field 0) ''1Key'' pt_empty"

definition first_db :: "ptree db" where
  "first_db k = (if k = userAccountKey ''joe'' then [(asker_account, 1)]
     else if k = bitcoinKeySetCurrentPageKey (show_int 7) then [(pt_put JSON_BITCOIN_KEY_SET_CURRENT_PAGE (show_int 0) pt_empty, 1)]
     else if k = bitcoinKeySetPageKey (show_int 7) (show_int 0) then [(first_page, 1)]
     else [])"

text \<open>Session \<open>0\<close> is the user \<open>joe\<close>; all others are \<open>ann\<close>.\<close>

definition first_world :: "ptree world" where
  "first_world = \<lparr>database = first_db,
     tab_of = (\<lambda>n. if n = 0 then payer_tab else payer_tab\<lparr>app_CurrentlyLoggedInUsername := ''ann''\<rparr>)\<rparr>"

lemma unclaimed_first_page: "unclaimed_page key_uuid_field first_page"
  using key_book.entry_not_owner [symmetric] by (auto simp: unclaimed_page_def first_page_def)

lemma first_world_initial: "initial_world payer_env first_world"
proof -
  have "\<forall>k. is_set_page k \<longrightarrow> first_db k = [] \<or> first_db k = [(write_json (funds_json payer_env) first_page, 1)]"
    by (auto simp: first_db_def is_set_page_def payer_env_def)
  moreover have "\<forall>k. is_huge_page k \<longrightarrow> first_db k = []" by (auto simp: first_db_def is_huge_page_def)
  moreover have "\<forall>k. is_set_current_page k \<longrightarrow> first_db k = []
      \<or> first_db k = [(write_json (funds_json payer_env) (pt_put JSON_BITCOIN_KEY_SET_CURRENT_PAGE (show_int 0) pt_empty), 1)]"
    by (auto simp: first_db_def is_set_current_page_def payer_env_def)
  moreover have "versions_ok first_db" by (auto simp: versions_ok_def first_db_def)
  moreover have "new_tab (payer_tab\<lparr>app_CurrentlyLoggedInUsername := u\<rparr>)" for u using payer_tab_new(1) by (simp add: new_tab_def)
  ultimately show ?thesis using payer_tab_new(1) unclaimed_first_page unfolding initial_world_def first_world_def by (simp, blast)
qed

lemma go_determined_no_key:
  assumes "tab_pending s = [TabGet u]" "app_DeferCount s = 2" "\<not> m_HaveBitcoinKeyPlaceholder s"
    and "app_WhatTheGetSavingCasWasFor s = DETERMINEBITCOINSTATEBUTDONTLETTHEMPROCEEDIFLOCKED"
    and "read_json (funds_json E) d = Some t" "pt_get JSON_USER_ACCOUNT_BITCOIN_STATE t = Some JSON_USER_ACCOUNT_BITCOIN_STATE_NO_KEY"
      "\<not> profileIsLocked t"
  shows "\<exists>s'. tab_go E now (AnswerGet d c True False) s = Some s' \<and> offers_key s'
    \<and> app_CurrentlyLoggedInUsername s' = app_CurrentlyLoggedInUsername s"
  using assms by (simp add: go_tab tab_get_finished_def determineBitcoinStateButDontLetThemProceedForwardIfLocked_def
      changeToGetBitcoinKeyMode_def offers_key_def)

text \<open>After one session has opened the tab, clicked, and had seven answers, the store that hands out the key is pending.\<close>

lemma first_db_reads:
  "current first_db (userAccountKey ''joe'') = Some (asker_account, 1)"
  "current first_db (bitcoinKeySetCurrentPageKey (show_int 7)) = Some (pt_put JSON_BITCOIN_KEY_SET_CURRENT_PAGE (show_int 0) pt_empty, 1)"
  "current first_db (bitcoinKeySetPageKey (show_int 7) (show_int 0)) = Some (first_page, 1)"
  "numbered 1 first_db" "first_db (hugeBitcoinKeyListPageKey z) = []" "read_json (funds_json payer_env) t = Some t"
  by (simp_all add: first_db_def current_def numbered_def payer_env_def)

lemma asker_account_facts:
  "pt_get JSON_USER_ACCOUNT_BITCOIN_STATE asker_account = Some JSON_USER_ACCOUNT_BITCOIN_STATE_NO_KEY" "\<not> profileIsLocked asker_account"
  by (simp_all add: asker_account_def profileIsLocked_def pt_get_default_def)

lemma first_key_is_free: "first_free_key uuid first_page 0 ''1Key''"
  using key_book.entry_not_owner [of 0 0, symmetric]
  by (simp add: first_free_key_def taken_by_others_def first_page_def claimant_def pt_get_default_def)

lemma first_may:
  assumes "offers_key s" "app_CurrentlyLoggedInUsername s = ''joe''" "R = new_request payer_env 100 s asker_account asker_account 1"
  shows "may_get_key payer_env 100 first_db s R 0" "r_user R = ''joe''" "r_set R = show_int 7" "r_tree R = asker_account" "r_uuid R \<noteq> ''n''"
proof -
  show R: "r_user R = ''joe''" "r_set R = show_int 7" "r_tree R = asker_account" "r_uuid R \<noteq> ''n''"
    using assms(2) by (simp_all add: assms(3) new_request_def set_of_request_def uuid_of_request_def payer_env_def)
  have r: "r_account R = asker_account" "r_cas R = 1" by (simp_all add: assms(3) new_request_def)
  have "pt_get_default JSON_BITCOIN_KEY_SET_LOCKED_FILLING_NEXT_PAGE ''n'' (pt_put JSON_BITCOIN_KEY_SET_CURRENT_PAGE (show_int 0) pt_empty) = ''n''"
    by (simp add: pt_get_default_def)
  then show "may_get_key payer_env 100 first_db s R 0"
    unfolding may_get_key_def R(1-3) r using assms(1,3) first_db_reads asker_account_facts by simp
qed

lemma first_run:
  "\<exists>h s w. user_reach payer_env first_world (h @ [(0, s)]) w \<and> tab_pending s = [TabCasStore (userAccountKey ''joe'')
       (have_key_doc ''1Key'' asker_account) 2] \<and> m_BitcoinKeyToGiveToUser s = ''1Key'' \<and> m_PerGetBitcoinKeyUUID s \<noteq> ''n''
     \<and> app_WhatTheStoreWithInputCasWasFor s = UNLOCKUSERACCOUNTFROMBITCOINGETTINGKEYTOBITCOINHAVEKEY
     \<and> (\<forall>z. database w (hugeBitcoinKeyListPageKey z) = [])"
proof -
  let ?u = "userAccountKey ''joe''"
  obtain s1 where s1: "tab_go payer_env 100 ShowTab payer_tab = Some s1" "tab_pending s1 = [TabGet ?u]" "app_DeferCount s1 = 2"
      "app_WhatTheGetSavingCasWasFor s1 = DETERMINEBITCOINSTATEBUTDONTLETTHEMPROCEEDIFLOCKED" "\<not> m_HaveBitcoinKeyPlaceholder s1"
      "app_CurrentlyLoggedInUsername s1 = ''joe''"
    using go_shown [OF payer_tab_new(1), of ?u] payer_tab_new(2) by auto
  define w1 where "w1 = first_world\<lparr>tab_of := (tab_of first_world)(0 := s1)\<rparr>"
  have "tab_click ShowTab (tab_of first_world 0)" by (simp add: first_world_def payer_tab_def)
  then have r1: "user_reach payer_env first_world ([] @ [(0, s1)]) w1"
    unfolding w1_def using s1(1) by (intro user_reach.step [OF user_reach.start] click_in_world) (simp_all add: first_world_def)
  obtain s2 where s2: "tab_go payer_env 100 (AnswerGet asker_account 1 True False) s1 = Some s2" "offers_key s2"
      "app_CurrentlyLoggedInUsername s2 = ''joe''"
    using go_determined_no_key [OF s1(2,3,5,4) first_db_reads(6) asker_account_facts, of 100 1] s1(6) by auto
  have "serves payer_env next_cas pt_empty 100 1 (database w1, tab_of w1 0) = Some (first_db, s2)"
    using serves_get [OF s1(2) first_db_reads(1) s2(1)] by (simp add: w1_def first_world_def)
  moreover have "numbered 1 (database w1)" using first_db_reads(4) by (simp add: w1_def first_world_def)
  ultimately obtain h2 w2 where w2: "user_reach payer_env first_world h2 w2" "database w2 = first_db" "tab_of w2 0 = s2"
    using serves_in_world [OF r1] by fastforce
  define R where "R = new_request payer_env 100 s2 asker_account asker_account 1"
  note R = first_may [OF s2(2,3) R_def]
  obtain s3 db4 s4 R1 where s3: "tab_go payer_env 100 ClickGetKey s2 = Some s3" "serves payer_env next_cas pt_empty 100 3 (first_db, s3) = Some (db4, s4)"
      "R1 = R\<lparr>r_cas := next_cas first_db (userAccountKey (r_user R))\<rparr>"
      "getting payer_env R1 (show_int 0) (TabGet (page_of R (show_int 0))) s4" "reads_page s4"
      "db4 = new_version (userAccountKey (r_user R)) (getting_doc payer_env R (show_int 0)) (r_cas R1) first_db"
    using locks_the_account [OF R(1), of next_cas pt_empty] by blast
  define w3 where "w3 = w2\<lparr>tab_of := (tab_of w2)(0 := s3)\<rparr>"
  have "tab_click ClickGetKey (tab_of w2 0)" using s2(2) w2(3) by (simp add: offers_key_def)
  then have r3: "user_reach payer_env first_world (h2 @ [(0, s3)]) w3"
    unfolding w3_def using s3(1) w2(3) by (intro user_reach.step [OF w2(1)] click_in_world) simp_all
  have R1: "r_user R1 = ''joe''" "r_set R1 = show_int 7" "r_tree R1 = asker_account" "r_uuid R1 \<noteq> ''n''" "r_cas R1 = 2"
    using s3(3) R(2-5) by (simp_all add: next_cas_def first_db_def)
  have g: "getting payer_env R1 (show_int 0) (TabGet (page_of R1 (show_int 0))) s4" using s3(4) R(3) R1(2) by simp
  have "current db4 (page_of R1 (show_int 0)) = Some (first_page, 1)" using s3(6) R1(2) first_db_reads(3) by simp
  from claims_free_key [OF g s3(5) this first_db_reads(6) first_key_is_free, of next_cas pt_empty 100] obtain s5 where
      s5: "serves payer_env next_cas pt_empty 100 2 (db4, s4) = Some (new_version (page_of R1 (show_int 0))
        (claimed_doc payer_env R1 0 first_page) (next_cas db4 (page_of R1 (show_int 0))) db4, s5)"
      "m_BitcoinKeyToGiveToUser s5 = ''1Key''"
      "getting payer_env R1 (show_int 0) (TabCasStore (userAccountKey (r_user R1)) (have_doc payer_env R1 ''1Key'') (r_cas R1)) s5"
      "app_WhatTheStoreWithInputCasWasFor s5 = UNLOCKUSERACCOUNTFROMBITCOINGETTINGKEYTOBITCOINHAVEKEY"
    by blast
  define db5 where "db5 = new_version (page_of R1 (show_int 0)) (claimed_doc payer_env R1 0 first_page) (next_cas db4 (page_of R1 (show_int 0))) db4"
  have S: "serves payer_env next_cas pt_empty 100 (3 + 2) (database w3, tab_of w3 0) = Some (db5, s5)"
    using serves_then [OF s3(2) s5(1)] w2(2) by (simp add: w3_def db5_def)
  have N: "numbered 1 (database w3)" using first_db_reads(4) by (simp add: w3_def w2(2))
  from serves_in_world [OF r3 S N] obtain h5 w5 where "user_reach payer_env first_world ((h2 @ [(0, s3)]) @ h5 @ [(0, s5)]) w5"
      and w5: "database w5 = db5"
    by auto
  then have reach: "user_reach payer_env first_world ((h2 @ [(0, s3)] @ h5) @ [(0, s5)]) w5" by simp
  have "db5 (hugeBitcoinKeyListPageKey z) = []" for z using s3(6) first_db_reads(5) by (simp add: db5_def)
  moreover have "m_PerGetBitcoinKeyUUID s5 \<noteq> ''n''" "tab_pending s5 = [TabCasStore (userAccountKey ''joe'') (have_key_doc ''1Key'' asker_account) 2]"
    using s5(3) R1 by (simp_all add: getting_def have_doc_def payer_env_def)
  ultimately show ?thesis using reach w5 s5(2,4) by blast
qed

end
