(* ===== verification/AddFundsOwners.thy ===== *)
theory AddFundsOwners
  imports AddFundsWorldRuns
begin

section \<open>Every request has one owner\<close>

text \<open>
  The UUID of a request stands for the user who made it: a session makes it from the user's name, or takes it up from the user's own
  account document, and nothing else puts one into an account. The predicate \<open>made_for\<close> says which UUIDs a user can have; every
  handler of a running request keeps its session's UUID, and the UUIDs in the account documents it stores, within them.
\<close>

subsection \<open>The UUID of a request\<close>

definition uuid_seed :: "'j funds_env \<Rightarrow> 'j funds \<Rightarrow> int \<Rightarrow> string" where
  "uuid_seed E s now = app_CurrentlyLoggedInUsername s @ widgetUniqueId s @ dateTimeText E now
     @ show_int (zeroThrough999 E (wrap32 now))"

text \<open>The seeds that the sessions of a user can come to.\<close>

definition seeds_of :: "'j funds_env \<Rightarrow> 'j world \<Rightarrow> string \<Rightarrow> string set" where
  "seeds_of E w0 u = {x. \<exists>n now. app_CurrentlyLoggedInUsername (tab_of w0 n) = u \<and> x = uuid_seed E (tab_of w0 n) now}"

definition made_for :: "'j funds_env \<Rightarrow> 'j world \<Rightarrow> string \<Rightarrow> string \<Rightarrow> bool" where
  "made_for E w0 u uuid \<longleftrightarrow> uuid \<in> sha1_base64 E ` seeds_of E w0 u"

text \<open>
  What the claims on the pages rely on: different users come to different seeds, the hash has no collision on the seeds that occur, and no
  hash is the text \<open>n\<close>, which marks an unclaimed entry.
\<close>

definition seeds_apart :: "'j funds_env \<Rightarrow> 'j world \<Rightarrow> bool" where
  "seeds_apart E w0 \<longleftrightarrow> (\<forall>u u'. u \<noteq> u' \<longrightarrow> seeds_of E w0 u \<inter> seeds_of E w0 u' = {})"

definition no_collisions :: "'j funds_env \<Rightarrow> 'j world \<Rightarrow> bool" where
  "no_collisions E w0 \<longleftrightarrow> inj_on (sha1_base64 E) (\<Union>u. seeds_of E w0 u) \<and> ''n'' \<notin> sha1_base64 E ` (\<Union>u. seeds_of E w0 u)"

lemma made_for_one:
  "no_collisions E w0 \<Longrightarrow> seeds_apart E w0 \<Longrightarrow> made_for E w0 u x \<Longrightarrow> made_for E w0 u' x \<Longrightarrow> u = u'"
  unfolding made_for_def no_collisions_def seeds_apart_def inj_on_def by blast

lemma made_for_not_n: "no_collisions E w0 \<Longrightarrow> made_for E w0 u x \<Longrightarrow> x \<noteq> ''n''"
  unfolding made_for_def no_collisions_def by blast

text \<open>
  The code does not see to the first: the seed is made without separators, so a session of \<open>jo\<close> whose widget is \<open>oo5\<close> and one of \<open>joo\<close> whose
  widget is \<open>o5\<close> make the same UUID, whatever the hash, when they start a request at the same time.
\<close>

lemma seeds_can_meet:
  assumes "app_CurrentlyLoggedInUsername s = ''jo''" "widgetUniqueId s = ''oo5''"
    and "app_CurrentlyLoggedInUsername s' = ''joo''" "widgetUniqueId s' = ''o5''"
  shows "\<exists>r r'. start_new_request E now s = Ret () r \<and> start_new_request E now s' = Ret () r'
    \<and> m_PerGetBitcoinKeyUUID r = m_PerGetBitcoinKeyUUID r'"
  using assms by (simp add: start_new_request_def modify_def Let_def)

text \<open>A document that was written has, when it is read, the fields that were written.\<close>

definition reads_as_written :: "'j json \<Rightarrow> bool" where
  "reads_as_written J \<longleftrightarrow> (\<forall>t t'. read_json J (write_json J t) = Some t' \<longrightarrow> t' = t)"

subsection \<open>What a session holds while a request runs\<close>

definition uuid_in :: "'j funds_env \<Rightarrow> (string \<Rightarrow> bool) \<Rightarrow> 'j \<Rightarrow> bool" where
  "uuid_in E M d \<longleftrightarrow> (\<forall>t x. read_json (funds_json E) d = Some t \<longrightarrow> pt_get JSON_USER_ACCOUNT_BITCOIN_GET_KEY_UUID t = Some x \<longrightarrow> M x)"

definition same_session :: "'j funds \<Rightarrow> 'j funds \<Rightarrow> bool" where
  "same_session s s' \<longleftrightarrow> app_CurrentlyLoggedInUsername s' = app_CurrentlyLoggedInUsername s \<and> widgetUniqueId s' = widgetUniqueId s"

definition holds_request :: "'j funds_env \<Rightarrow> (string \<Rightarrow> bool) \<Rightarrow> 'j funds \<Rightarrow> bool" where
  "holds_request E M s \<longleftrightarrow> M (m_PerGetBitcoinKeyUUID s) \<and> uuid_in E M (m_UserAccountJsonForLockingIntoGettingBitcoinKey s)"

text \<open>The requests to the database that belong to a running request for a key, and those that store an account.\<close>

fun for_a_key :: "'j tab_request \<Rightarrow> 'j funds \<Rightarrow> bool" where
  "for_a_key (TabGet k) s = (app_WhatTheGetSavingCasWasFor s \<notin> {GETUSERACCOUNTFORGOINGINTOGETTINGBITCOINKEYMODE,
     DETERMINEBITCOINSTATEBUTDONTLETTHEMPROCEEDIFLOCKED, CREDITCONFIRMEDBITCOINAMOUNTAFTERANALYZINGUSERACCOUNT})"
| "for_a_key (TabCasStore k d c) s =
     (app_WhatTheStoreWithInputCasWasFor s \<noteq> CREDITCONFIRMEDBITCOINBALANCEFORCURRENTPAYMENTKEYCASSWAPUSERACCOUNT)"
| "for_a_key (TabPoll key minconf) s = False"
| "for_a_key _ s = True"

fun stores_account :: "'j tab_request \<Rightarrow> 'j \<Rightarrow> string \<Rightarrow> bool" where
  "stores_account (TabCasStore k d c) e u = (k = userAccountKey u \<and> d = e)"
| "stores_account (TabCasStoreSavingCas k d c) e u = (k = userAccountKey u \<and> d = e)"
| "stores_account _ e u = False"

definition request_owned :: "'j funds_env \<Rightarrow> (string \<Rightarrow> string \<Rightarrow> bool) \<Rightarrow> 'j funds \<Rightarrow> bool" where
  "request_owned E M s \<longleftrightarrow> (\<forall>r \<in> set (tab_pending s). (for_a_key r s \<longrightarrow> holds_request E (M (app_CurrentlyLoggedInUsername s)) s)
     \<and> (\<forall>d u. stores_account r d u \<longrightarrow> uuid_in E (M u) d))"

definition ends_owned :: "'j funds_env \<Rightarrow> (string \<Rightarrow> string \<Rightarrow> bool) \<Rightarrow> 'j funds \<Rightarrow> 'j funds \<Rightarrow> bool" where
  "ends_owned E M s s' \<longleftrightarrow> same_session s s' \<and> request_owned E M s'"

text \<open>The handler of the answer starts with nothing pending.\<close>

definition requesting :: "'j funds_env \<Rightarrow> (string \<Rightarrow> string \<Rightarrow> bool) \<Rightarrow> 'j funds \<Rightarrow> bool" where
  "requesting E M s \<longleftrightarrow> tab_pending s = [] \<and> holds_request E (M (app_CurrentlyLoggedInUsername s)) s"

abbreviation makes_owned :: "'j funds_env \<Rightarrow> (string \<Rightarrow> string \<Rightarrow> bool) \<Rightarrow> 'j funds \<Rightarrow> ('j funds, unit) prog \<Rightarrow> 'j funds \<Rightarrow> bool" where
  "makes_owned E M s0 m s \<equiv> runs_to m (\<lambda>_. ends_owned E M s0) (\<lambda>_. True) s"

lemmas owned_defs = ends_owned_def same_session_def request_owned_def requesting_def holds_request_def

lemma account_key_apart [simp]: "userAccountKey u = userAccountKey u' \<longleftrightarrow> u = u'" "hugeBitcoinKeyListCurrentPageKey \<noteq> userAccountKey u" "userAccountKey u \<noteq> hugeBitcoinKeyListCurrentPageKey"
  by (simp_all add: key_defs)

lemma uuid_in_write:
  assumes "reads_as_written (funds_json E)" "\<And>x. pt_get JSON_USER_ACCOUNT_BITCOIN_GET_KEY_UUID t = Some x \<Longrightarrow> M x"
  shows "uuid_in E M (write_json (funds_json E) t)"
  using assms unfolding uuid_in_def reads_as_written_def by blast

lemma uuid_in_put:
  assumes R: "reads_as_written (funds_json E)" and d: "uuid_in E M d" "read_json (funds_json E) d = Some t"
  shows "uuid_in E M (write_json (funds_json E) (have_key_doc key t))"
    and "M uuid \<Longrightarrow> uuid_in E M (write_json (funds_json E) (getting_key_doc setN y uuid t))"
    and "uuid_in E M (write_json (funds_json E) (creditted_doc b t))"
proof -
  have t: "M x" if "pt_get JSON_USER_ACCOUNT_BITCOIN_GET_KEY_UUID t = Some x" for x using d that by (simp add: uuid_in_def)
  show "uuid_in E M (write_json (funds_json E) (have_key_doc key t))"
    by (rule uuid_in_write [OF R]) (simp add: have_key_doc_def)
  show "M uuid \<Longrightarrow> uuid_in E M (write_json (funds_json E) (getting_key_doc setN y uuid t))"
    by (rule uuid_in_write [OF R]) (simp add: getting_key_doc_def)
  show "uuid_in E M (write_json (funds_json E) (creditted_doc b t))"
    by (rule uuid_in_write [OF R]) (simp add: creditted_doc_def t)
qed

subsection \<open>Every handler keeps the owner of its request\<close>

lemma same_session_trans: "same_session a b \<Longrightarrow> same_session b c \<Longrightarrow> same_session a c"
  by (simp add: same_session_def)

lemma owned_tell_and_resume: "tab_pending s = [] \<Longrightarrow> same_session s0 s \<Longrightarrow> makes_owned E M s0 (tell_and_resume m) s"
  by (simp add: run_rules tab_ops owned_defs)

lemma owned_when_answered:
  assumes "tab_pending s = []" "same_session s0 s" "ok \<Longrightarrow> \<not> err \<Longrightarrow> makes_owned E M s0 m s"
  shows "makes_owned E M s0 (when_answered ok err m) s"
  using assms owned_tell_and_resume [of s] by (simp add: when_answered_def)

lemma owned_get_page:
  assumes "requesting E M s" "same_session s0 s"
  shows "makes_owned E M s0 userAccountBitcoinGettingKeyLocked_So_GetSavingCASbitcoinKeySetNPageY s"
  using assms by (simp add: userAccountBitcoinGettingKeyLocked_So_GetSavingCASbitcoinKeySetNPageY_def run_rules tab_ops owned_defs)

lemma owned_get_huge_page:
  assumes "requesting E M s" "same_session s0 s"
  shows "makes_owned E M s0 bitcoinKeySetN_currentPage_Locked_soDoKeyRangeClaimAndNextPageCreation s"
  using assms by (simp add: bitcoinKeySetN_currentPage_Locked_soDoKeyRangeClaimAndNextPageCreation_def run_rules tab_ops owned_defs)

lemma owned_unlock:
  assumes "reads_as_written (funds_json E)" "requesting E M s" "same_session s0 s"
  shows "makes_owned E M s0 (unlockUserAccountSafelyFromBitcoinGettingKeyBecauseWeGotAKey E) s"
  using assms by (auto simp: unlockUserAccountSafelyFromBitcoinGettingKeyBecauseWeGotAKey_def run_rules tab_ops
      owned_defs intro!: uuid_in_put(1) split: option.splits)

lemma owned_after_key_scan:
  assumes "reads_as_written (funds_json E)" "requesting E M s" "same_session s0 s"
  shows "makes_owned E M s0 (after_key_scan E t c r) s"
  using assms by (auto simp: after_key_scan_def run_rules tab_ops owned_defs intro!: owned_unlock split: scan.splits option.splits)

lemma owned_got_page:
  assumes "reads_as_written (funds_json E)" "requesting E M s" "same_session s0 s"
  shows "makes_owned E M s0 (gotBitcoinKeySetNpageYSoAnalyzeItForUUIDandEnoughRoomEtc E d c ok err) s"
  using assms by (auto simp: gotBitcoinKeySetNpageYSoAnalyzeItForUUIDandEnoughRoomEtc_def requesting_def run_rules parse_json_def
      intro!: owned_when_answered runs_scan_keys owned_after_key_scan split: option.splits)

lemma owned_claimed_key:
  assumes "reads_as_written (funds_json E)" "requesting E M s" "same_session s0 s"
  shows "makes_owned E M s0 (doneAttemptingToUpdateBitcoinKeySetViaCASswapAkaClaimingAKey E ok err) s"
  using assms(2) owned_get_page [OF assms(2,3)] owned_unlock [OF assms] owned_tell_and_resume [OF _ assms(3)]
  by (simp add: doneAttemptingToUpdateBitcoinKeySetViaCASswapAkaClaimingAKey_def requesting_def)

lemma owned_unlocked:
  assumes "tab_pending s = []" "same_session s0 s"
  shows "makes_owned E M s0 (doneAttemptingToUnlockUserAccountFromBitcoinGettingKeyToBitcoinHaveKey ok err) s"
  using assms owned_tell_and_resume
  by (simp add: doneAttemptingToUnlockUserAccountFromBitcoinGettingKeyToBitcoinHaveKey_def changeToHaveBitcoinKeyMode_def run_rules tab_ops
      owned_defs)

lemma owned_next_page:
  assumes "reads_as_written (funds_json E)" "requesting E M s" "same_session s0 s"
  shows "makes_owned E M s0 (getBitcoinKeySetNPageYAttemptFinishedSoCheckItIfItExistsAndMakeItIfItDont E d c ok err) s"
  using assms(2,3) owned_tell_and_resume [OF _ assms(3)] owned_got_page [OF assms, of d c True False]
  by (auto simp: getBitcoinKeySetNPageYAttemptFinishedSoCheckItIfItExistsAndMakeItIfItDont_def run_rules tab_ops owned_defs)

lemma owned_lock_set:
  assumes "requesting E M s" "same_session s0 s"
  shows "makes_owned E M s0 (hugeBitcoinKeyListCurrentPageGetComplete E d c ok err) s"
  using assms by (auto simp: hugeBitcoinKeyListCurrentPageGetComplete_def run_rules tab_ops owned_defs split: option.splits)

lemma owned_set_locked:
  assumes "requesting E M s" "same_session s0 s"
  shows "makes_owned E M s0 (attemptToLockBitcoinKeySetNintoFillingNextPageModeComplete c ok err) s"
  using assms by (auto simp: attemptToLockBitcoinKeySetNintoFillingNextPageModeComplete_def run_rules tab_ops owned_defs
      intro!: owned_get_huge_page)

lemma owned_fill:
  assumes "requesting E M s" "same_session s0 s"
  shows "makes_owned E M s0 (uuidPerRefillIsSeenOnHugeBitcoinListSoProceedWithActualNextPageFill E) s"
  using assms by (auto simp: uuidPerRefillIsSeenOnHugeBitcoinListSoProceedWithActualNextPageFill_def run_rules tab_ops owned_defs)

lemma owned_huge_missing:
  assumes "requesting E M s" "same_session s0 s"
  shows "makes_owned E M s0 (huge_page_missing E) s"
  using assms by (auto simp: huge_page_missing_def run_rules tab_ops owned_defs)

lemma owned_after_range_scan:
  assumes "requesting E M s" "same_session s0 s"
  shows "makes_owned E M s0 (after_range_scan E t c r) s"
  using assms by (auto simp: after_range_scan_def huge_page_full_def run_rules tab_ops owned_defs
      intro!: owned_fill owned_get_huge_page split: scan.splits option.splits)

lemma owned_got_huge_page:
  assumes "requesting E M s" "same_session s0 s"
  shows "makes_owned E M s0 (getHugeBitcoinKeyListActualPageAttemptCompleted E d c ok err) s"
  using assms owned_huge_missing [OF assms] owned_tell_and_resume [OF _ assms(2)]
  by (auto simp: getHugeBitcoinKeyListActualPageAttemptCompleted_def requesting_def run_rules parse_json_def
      intro!: runs_scan_ranges owned_after_range_scan split: option.splits)

lemma owned_claimed_range:
  assumes "requesting E M s" "same_session s0 s"
  shows "makes_owned E M s0 (doneAttemptingHugeBitcoinKeyListKeyRangeClaim E ok err) s"
  using assms owned_get_huge_page [OF assms] owned_fill [OF assms] owned_tell_and_resume [OF _ assms(2)]
  by (simp add: doneAttemptingHugeBitcoinKeyListKeyRangeClaim_def requesting_def)

lemma owned_changed_current:
  assumes "requesting E M s" "same_session s0 s"
  shows "makes_owned E M s0 (doneChangingHugeBitcoinKeyListCurrentPage err) s"
  using assms owned_get_huge_page [OF assms] owned_tell_and_resume [OF _ assms(2)]
  by (simp add: doneChangingHugeBitcoinKeyListCurrentPage_def requesting_def)

lemma owned_relocked:
  assumes "tab_pending s = []" "same_session s0 s"
  shows "makes_owned E M s0 (doneReLockingBitcoinKeySetN_CurrentPage_withNewFromPageZvalue err) s"
  using owned_tell_and_resume [OF assms] by (simp add: doneReLockingBitcoinKeySetN_CurrentPage_withNewFromPageZvalue_def
      showOutOfBitcoinKeysErrorToUserInAddFundsPlaceholderLayout_def)

lemma owned_created:
  assumes "requesting E M s" "same_session s0 s"
  shows "makes_owned E M s0 (doneAttemptingBitcoinKeySetNnextPageYcreation E err) s"
  using assms by (auto simp: doneAttemptingBitcoinKeySetNnextPageYcreation_def run_rules tab_ops owned_defs)

lemma owned_proceed:
  assumes "reads_as_written (funds_json E)" "requesting E M s" "same_session s0 s"
  shows "makes_owned E M s0 (proceedToBitcoinKeySetNgettingAfterLockingUserAccount_UnlessUserAccountAlreadyLocked E) s"
  using assms owned_get_page [OF assms(2,3)]
  by (auto simp: proceedToBitcoinKeySetNgettingAfterLockingUserAccount_UnlessUserAccountAlreadyLocked_def run_rules tab_ops
      owned_defs intro!: uuid_in_put(2) split: option.splits)

lemma owned_set_unlocked:
  assumes "reads_as_written (funds_json E)" "requesting E M s" "same_session s0 s"
  shows "makes_owned E M s0 (doneAttemptingToUnlockBitcoinKeySetN_CurrentPage E ok err) s"
  using assms(2,3) owned_proceed [OF assms]
  by (auto simp: doneAttemptingToUnlockBitcoinKeySetN_CurrentPage_def run_rules tab_ops owned_defs)

lemma owned_account_locked:
  assumes "requesting E M s" "same_session s0 s"
  shows "makes_owned E M s0 (userAccountBitcoinLockedIntoGettingKeyAttemptComplete c ok err) s"
  using assms by (auto simp: userAccountBitcoinLockedIntoGettingKeyAttemptComplete_def run_rules tab_ops owned_defs
      intro!: owned_get_page)

lemma owned_analyze:
  assumes "reads_as_written (funds_json E)" "requesting E M s" "same_session s0 s"
  shows "makes_owned E M s0 (analyzeBitcoinKeySetN_CurrentPageDocToSeeWhatPageItIsOnAndIfItIsLocked E d c ok err) s"
  unfolding analyzeBitcoinKeySetN_CurrentPageDocToSeeWhatPageItIsOnAndIfItIsLocked_def
  using assms by (auto simp: run_rules Let_def parse_json_def pt_need_def owned_defs
      intro!: owned_when_answered owned_proceed owned_get_huge_page split: option.splits)

text \<open>
  Where a request starts: the session makes a UUID of its own, or takes one up from the user's own account document.
\<close>

definition own_uuids :: "'j funds_env \<Rightarrow> (string \<Rightarrow> string \<Rightarrow> bool) \<Rightarrow> 'j funds \<Rightarrow> bool" where
  "own_uuids E M s \<longleftrightarrow> (\<forall>now. M (app_CurrentlyLoggedInUsername s) (sha1_base64 E (uuid_seed E s now)))"

lemma owned_transition:
  assumes "tab_pending s = []" "same_session s0 s" "own_uuids E M s"
    and "ok \<Longrightarrow> \<not> err \<Longrightarrow> uuid_in E (M (app_CurrentlyLoggedInUsername s)) d"
  shows "makes_owned E M s0 (checkNotAttemptingToFillAkaPurchaseSlotThenTransitionIntoGettingBitcoinKeyState E now d c ok err) s"
  unfolding checkNotAttemptingToFillAkaPurchaseSlotThenTransitionIntoGettingBitcoinKeyState_def
  apply (rule owned_when_answered [OF assms(1,2)])
  apply (frule (1) assms(4))
  using assms(1,2,3)
  apply (auto simp: run_rules tab_ops start_new_request_def take_up_old_request_def Let_def own_uuids_def uuid_seed_def owned_defs
      uuid_in_def split: option.splits)
  done

lemma owned_determine:
  assumes "tab_pending s = []" "same_session s0 s" "own_uuids E M s"
    and "ok \<Longrightarrow> \<not> err \<Longrightarrow> uuid_in E (M (app_CurrentlyLoggedInUsername s)) d"
  shows "makes_owned E M s0 (determineBitcoinStateButDontLetThemProceedForwardIfLocked E now d c ok err) s"
  unfolding determineBitcoinStateButDontLetThemProceedForwardIfLocked_def
  apply (rule owned_when_answered [OF assms(1,2)])
  using assms(1,2) owned_transition [OF assms(1,2,3), of True False] assms(4)
  apply (auto simp: run_rules tab_ops changeToHaveBitcoinKeyMode_def changeToGetBitcoinKeyMode_def owned_defs split: option.splits)
  done

lemma owned_credit:
  assumes "reads_as_written (funds_json E)" "tab_pending s = []" "same_session s0 s"
    and "ok \<Longrightarrow> \<not> err \<Longrightarrow> uuid_in E (M (app_CurrentlyLoggedInUsername s)) d"
  shows "makes_owned E M s0 (creditConfirmedBitcoinAmountAfterAnalyzingUserAccount E d c ok err) s"
  unfolding creditConfirmedBitcoinAmountAfterAnalyzingUserAccount_def
  apply (rule owned_when_answered [OF assms(2,3)])
  using assms
  apply (auto simp: run_rules tab_ops Let_def owned_defs intro!: uuid_in_put(3) split: option.splits)
  done

lemma owned_creditted:
  assumes "tab_pending s = []" "same_session s0 s"
  shows "makes_owned E M s0 (doneAttemptingCredittingConfirmedBitcoinBalanceForCurrentPaymentKey ok err) s"
  using assms
  by (auto simp: doneAttemptingCredittingConfirmedBitcoinBalanceForCurrentPaymentKey_def run_rules tab_ops changeToGetBitcoinKeyMode_def
      owned_defs split: option.splits)

lemma owned_polled:
  assumes "tab_pending s = []" "same_session s0 s"
  shows "makes_owned E M s0 (handleBitcoinAddressBalancePollerReceivedResponse E ok body) s"
  using assms
  by (auto simp: handleBitcoinAddressBalancePollerReceivedResponse_def balance_received_def run_rules tab_ops
      owned_defs split: option.splits)

lemma owned_click:
  assumes "tab_pending s = []" "same_session s0 s" "tab_click i s'"
  shows "makes_owned E M s0 (tab_handle E now i) s"
  using assms
  by (cases i) (auto simp: onTabBeingShown_def populateAndInitialize_def handleGetBitcoinKeyButtonClicked_def
      checkForPendingBitcoinBalanceButtonClicked_def checkForConfirmedBitcoinBalanceButtonClicked_def
      sendRpcJsonBalanceRequestToBitcoinD_def doneSendingBitcoinsToCurrentAddressButtonClicked_def run_rules tab_ops owned_defs)

subsection \<open>Every answer keeps the owner of its request\<close>

lemma resumed_session [simp]:
  "requesting E M (resumed s) = requesting E M s" "same_session s0 (resumed s) = same_session s0 s"
  "own_uuids E M (resumed s) = own_uuids E M s"
  by (simp_all add: owned_defs own_uuids_def uuid_seed_def)

lemma owned_answered:
  assumes R: "reads_as_written (funds_json E)" and p: "tab_pending s = []" and u: "own_uuids E M s" and o: "ask_ok E db s r"
    and h: "for_a_key r s \<Longrightarrow> requesting E M s" and i: "db_answers db r i db'" and d: "\<And>u x. x \<in> uuids_of E db u \<Longrightarrow> M u x"
  shows "makes_owned E M s (tab_handle E now i) s"
proof -
  note start = tab_get_finished_def tab_cas_store_finished_def tab_cas_store_saving_cas_finished_def tab_add_finished_def
    runs_to_andthen runs_to_reading runs_to_modify tab_resume_def
  have same: "same_session s s" by (simp add: same_session_def)
  have p': "tab_pending (resumed s) = []" "same_session s (resumed s)" "own_uuids E M (resumed s)" using p same u by simp_all
  have h': "for_a_key r s \<Longrightarrow> requesting E M (resumed s)" using h by simp
  show ?thesis
  proof (cases r)
    case (TabGet k)
    from i [unfolded this] obtain e c ok err where i: "i = AnswerGet e c ok err" and f: "ok \<Longrightarrow> \<not> err \<Longrightarrow> current db k = Some (e, c)"
      by (cases rule: answers_get) auto
    have own: "uuid_in E (M (app_CurrentlyLoggedInUsername (resumed s))) e"
      if "ok" "\<not> err" "k = userAccountKey (app_CurrentlyLoggedInUsername s)"
    proof -
      have "(e, c) \<in> set (db k)" using currentD [OF f [OF that(1,2)]] by auto
      then show ?thesis using d that(3) unfolding uuid_in_def uuids_of_def by fastforce
    qed
    show ?thesis using o TabGet h' own
      by (cases "app_WhatTheGetSavingCasWasFor s") (simp_all add: i start owned_transition [OF p'] owned_determine [OF p'] owned_analyze [OF R _ p'(2)]
          owned_got_page [OF R _ p'(2)] owned_next_page [OF R _ p'(2)] owned_lock_set [OF _ p'(2)] owned_got_huge_page [OF _ p'(2)]
          owned_credit [OF R p'(1,2)])
  next
    case (TabCasStore k e c)
    from i [unfolded this] obtain ok err where i: "i = AnswerCasStore ok err" by (cases rule: answers_cas_store) auto
    show ?thesis using o TabCasStore h'
      by (cases "app_WhatTheStoreWithInputCasWasFor s") (simp_all add: i start owned_unlocked [OF p'(1,2)] owned_claimed_key [OF R _ p'(2)]
          owned_claimed_range [OF _ p'(2)] owned_set_unlocked [OF R _ p'(2)] owned_changed_current [OF _ p'(2)] owned_relocked [OF p'(1,2)]
          owned_creditted [OF p'(1,2)])
  next
    case (TabCasStoreSavingCas k e c)
    from i [unfolded this] obtain c0 ok err where i: "i = AnswerCasStoreSavingCas c0 ok err" by (cases rule: answers_lock_store) auto
    show ?thesis using o TabCasStoreSavingCas h'
      by (cases "app_WhatTheStoreWithInputCasSavingOutputCasWasFor s")
        (simp_all add: i start owned_account_locked [OF _ p'(2)] owned_set_locked [OF _ p'(2)])
  next
    case (TabAdd k e)
    from i [unfolded this] obtain ok err where i: "i = AnswerAdd ok err" by (cases rule: answers_add) auto
    show ?thesis using o TabAdd h' by (cases "app_WhatTheStoreWithoutInputCasWasFor s") (simp_all add: i start owned_created [OF _ p'(2)])
  next
    case (TabPoll k n)
    from i [unfolded this] obtain ok body where "i = AnswerPoll ok body" by (cases rule: answers_poll) auto
    then show ?thesis using owned_polled [OF p same] by simp
  qed
qed

text \<open>What an answered request leaves in the accounts.\<close>

lemma uuids_of_new_version:
  "x \<in> uuids_of E (new_version k d c db) u \<Longrightarrow> x \<in> uuids_of E db u \<or> k = userAccountKey u
     \<and> (\<exists>t. read_json (funds_json E) d = Some t \<and> pt_get JSON_USER_ACCOUNT_BITCOIN_GET_KEY_UUID t = Some x)"
  by (auto simp: uuids_of_def new_version_def split: if_splits)

lemma answered_accounts:
  assumes "db_answers db r i db'" "x \<in> uuids_of E db' u" "\<And>d u. stores_account r d u \<Longrightarrow> uuid_in E (M u) d"
    "\<And>k d. r = TabAdd k d \<Longrightarrow> k \<noteq> userAccountKey u"
  shows "x \<in> uuids_of E db u \<or> M u x"
  using assms(1)
proof cases
qed (use assms(2-4) in \<open>auto dest!: uuids_of_new_version simp: uuid_in_def\<close>)

subsection \<open>The owners in every run\<close>

definition world_owned :: "'j funds_env \<Rightarrow> (string \<Rightarrow> string \<Rightarrow> bool) \<Rightarrow> 'j world \<Rightarrow> 'j world \<Rightarrow> bool" where
  "world_owned E M w0 w \<longleftrightarrow> (\<forall>n. ends_owned E M (tab_of w0 n) (tab_of w n)) \<and> (\<forall>u x. x \<in> uuids_of E (database w) u \<longrightarrow> M u x)"

lemma own_uuids_made_for: "same_session (tab_of w0 n) s \<Longrightarrow> own_uuids E (made_for E w0) s"
  by (auto simp: own_uuids_def made_for_def seeds_of_def uuid_seed_def same_session_def)

lemma ends_owned_start: "ends_owned E M s0 s' \<Longrightarrow> same_session s s0 \<Longrightarrow> ends_owned E M s s'"
  using same_session_trans by (auto simp: ends_owned_def)

lemma owned_step:
  assumes R: "reads_as_written (funds_json E)" and s: "world_safe E db0 w" and o: "world_owned E (made_for E w0) w0 w"
    and t: "world_step E w l w'" and k: "l \<noteq> [] \<or> (\<forall>u. uuids_of E (database w') u \<subseteq> uuids_of E (database w) u)"
  shows "world_owned E (made_for E w0) w0 w' \<and> (\<forall>(n, s') \<in> set l. request_owned E (made_for E w0) s')"
  using t
proof cases
  case (clicked i n now s')
  from s have a: "tab_safe E (database w) (tab_of w n)" by (simp add: world_safe_def)
  have p: "tab_pending (tab_of w n) = []"
    using a clicked(3) unfolding tab_safe_def
    by (cases i; cases "tab_pending (tab_of w n)" rule: remdups_adj.cases; cases "hd (tab_pending (tab_of w n))") auto
  have m: "same_session (tab_of w0 n) (tab_of w n)" using o by (simp add: world_owned_def ends_owned_def)
  then have "same_session (tab_of w0 n) (prepared (tab_of w n) [])" by (simp add: prepared_def same_session_def)
  then have "makes_owned E (made_for E w0) (tab_of w0 n) (tab_handle E now i) (prepared (tab_of w n) (tab_pending (tab_of w n)))"
    using owned_click [OF _ _ clicked(3)] p by (simp add: prepared_def)
  then have "ends_owned E (made_for E w0) (tab_of w0 n) s'" using runs_to_Ret clicked(4) by fastforce
  then show ?thesis using o clicked(1,2) by (auto simp: world_owned_def ends_owned_def)
next
  case (answered n r rs i db' now s')
  from s have a: "tab_safe E (database w) (tab_of w n)" and d: "db_safe E db0 (database w)" by (simp_all add: world_safe_def)
  from a answered(3) have rs: "rs = []" and q: "ask_ok E (database w) (tab_of w n) r"
    by (cases rs; simp add: tab_safe_def)+
  let ?s = "prepared (tab_of w n) []"
  have m: "same_session (tab_of w0 n) (tab_of w n)" and ro: "request_owned E (made_for E w0) (tab_of w n)"
    and D: "\<And>u x. x \<in> uuids_of E (database w) u \<Longrightarrow> made_for E w0 u x"
    using o by (simp_all add: world_owned_def ends_owned_def)
  have m': "same_session (tab_of w0 n) ?s" using m by (simp add: prepared_def same_session_def)
  have f: "for_a_key r ?s = for_a_key r (tab_of w n)" by (cases r) (simp_all add: prepared_def)
  have h: "requesting E (made_for E w0) ?s" if "for_a_key r ?s"
    using ro that f answered(3) by (simp add: request_owned_def requesting_def holds_request_def prepared_def)
  have "makes_owned E (made_for E w0) ?s (tab_handle E now i) ?s"
    by (rule owned_answered [OF R _ own_uuids_made_for [OF m'] ask_ok_prepared [OF q] h answered(4) D]) (simp_all add: prepared_def)
  then have "ends_owned E (made_for E w0) ?s s'" using answered(5) rs runs_to_Ret by fastforce
  then have s': "ends_owned E (made_for E w0) (tab_of w0 n) s'" using ends_owned_start m' by blast
  have "made_for E w0 u x" if "x \<in> uuids_of E db' u" for u x
  proof -
    have "k \<noteq> userAccountKey u" if "r = TabAdd k e" for k e
      using q that by (cases "app_WhatTheStoreWithoutInputCasWasFor (tab_of w n)") (auto simp: set_page_of_def)
    moreover have "uuid_in E (made_for E w0 v) e" if "stores_account r e v" for e v
      using ro answered(3) that by (simp add: request_owned_def)
    ultimately show ?thesis using answered_accounts [OF answered(4) that, of "made_for E w0"] D by blast
  qed
  then show ?thesis using o s' answered(1,2) by (auto simp: world_owned_def ends_owned_def)
next
  case (written k c d)
  with k have "\<And>u x. x \<in> uuids_of E (database w') u \<Longrightarrow> x \<in> uuids_of E (database w) u" by blast
  then show ?thesis using o written(1,2) unfolding world_owned_def by simp
next
  case (refilled k t c)
  with k have "\<And>u x. x \<in> uuids_of E (database w') u \<Longrightarrow> x \<in> uuids_of E (database w) u" by blast
  then show ?thesis using o refilled(1,2) unfolding world_owned_def by simp
qed

lemma owned_reach:
  assumes J: "json_ok (funds_json E)" "reads_as_written (funds_json E)" and i: "initial_world E w0" "\<And>u. uuids_of E (database w0) u = {}"
    and r: "user_reach E w0 h w"
  shows "world_owned E (made_for E w0) w0 w \<and> (\<forall>(n, s) \<in> set h. request_owned E (made_for E w0) s)"
  using r
proof induction
  case start
  show ?case using i by (simp add: world_owned_def owned_defs initial_world_def new_tab_def)
next
  case (step h w l w')
  have "world_safe E (database w0) w" using safe_reach [OF J(1) user_reach_world [OF step.hyps(1)] i(1)] by blast
  from owned_step [OF J(2) this _ step.hyps(2,3)] step.IH show ?case by auto
qed

end
