(* ===== verification/AddFundsProperties.thy ===== *)
theory AddFundsProperties
  imports AddFundsOwners
begin

section \<open>What holds of every run of the key state machine\<close>

text \<open>
  The invariant of the world lifted to runs, and the properties that follow: what a tab writes into an account is claimed for its
  request, for good; and no key is given to two requests.
\<close>

subsection \<open>A key in an account is claimed, once and for all\<close>

text \<open>The tab has asked for the store that turns its account's state into \<open>HaveKey\<close>, with this key.\<close>

definition hands_out :: "'j funds_env \<Rightarrow> 'j funds \<Rightarrow> string \<Rightarrow> bool" where
  "hands_out E s key \<longleftrightarrow> app_WhatTheStoreWithInputCasWasFor s = UNLOCKUSERACCOUNTFROMBITCOINGETTINGKEYTOBITCOINHAVEKEY
     \<and> key = m_BitcoinKeyToGiveToUser s \<and> (\<exists>k d c. tab_pending s = [TabCasStore k d c])"

text \<open>
  C5. A key that a session writes into an account for a request, whose UUID is not the text \<open>n\<close> that marks an unclaimed entry, is claimed on its key set page under the UUID of the session's request, and stays so:
  whatever the sessions, the database and the rest of the system do afterwards, the current version of the page shows the key with that UUID.
  The store goes to the user's own account and puts the key there with the state \<open>HaveKey\<close>.
\<close>

theorem a_given_key_stays_claimed:
  assumes "json_ok (funds_json E)" "initial_world E w0" "world_reach E w0 h w"
    and "(n, s) \<in> set h" "hands_out E s key" "m_PerGetBitcoinKeyUUID s \<noteq> ''n''"
  shows "(\<exists>i. shows_key E (database w) (set_page_of s) i (m_PerGetBitcoinKeyUUID s) key)
    \<and> (\<exists>t c. tab_pending s = [TabCasStore (userAccountKey (app_CurrentlyLoggedInUsername s))
         (write_json (funds_json E) (have_key_doc key t)) c])"
proof -
  from safe_reach [OF assms(1,3,2)] assms(4) have "tab_safe E (database w) s" by blast
  with assms(5,6) show ?thesis by (auto simp: hands_out_def tab_safe_def key_is_claimed_def)
qed

text \<open>The concrete run of one session on one page: the key it hands out.\<close>

lemma first_run_hands_out:
  "\<exists>h s w. user_reach payer_env first_world h w \<and> (0, s) \<in> set h \<and> hands_out payer_env s ''1Key'' \<and> m_PerGetBitcoinKeyUUID s \<noteq> ''n''
     \<and> tab_pending s = [TabCasStore (userAccountKey ''joe'') (have_key_doc ''1Key'' asker_account) 2]
     \<and> (\<forall>z. database w (hugeBitcoinKeyListPageKey z) = [])"
  using first_run by (fastforce simp: hands_out_def)

theorem a_given_key_stays_claimed_witness:
  "\<exists>h s w. world_reach payer_env first_world h w \<and> (0, s) \<in> set h \<and> hands_out payer_env s ''1Key''
     \<and> (\<exists>i. shows_key payer_env (database w) (set_page_of s) i (m_PerGetBitcoinKeyUUID s) ''1Key'')"
proof -
  obtain h s w where r: "world_reach payer_env first_world h w" "(0, s) \<in> set h" "hands_out payer_env s ''1Key''" "m_PerGetBitcoinKeyUUID s \<noteq> ''n''"
    using first_run_hands_out user_reach_world by blast
  have "json_ok (funds_json payer_env)" by (simp add: payer_env_def tree_json_ok)
  from a_given_key_stays_claimed [OF this first_world_initial r] r show ?thesis by blast
qed

text \<open>
  Where a key comes from: an entry of a page of the initializer, or a place in a range of the huge list. The administrator supplies each
  key once.
\<close>

datatype key_source = InitialPage string nat | HugeRange string nat nat

fun source_shows :: "'j funds_env \<Rightarrow> 'j world \<Rightarrow> 'j world \<Rightarrow> key_source \<Rightarrow> string \<Rightarrow> bool" where
  "source_shows E w0 w (InitialPage k i) x = (\<exists>t c. flat t \<and> database w0 k = [(write_json (funds_json E) t, c)] \<and> pt_get (key_field i) t = Some x)"
| "source_shows E w0 w (HugeRange z r j) x = (\<exists>t c vs keys. flat t \<and> database w (hugeBitcoinKeyListPageKey z) = (write_json (funds_json E) t, c) # vs
     \<and> pt_get (range_field r) t = Some keys \<and> list_at (split_at (CHR '','') keys) (int j) = Some x)"

definition supplied_once :: "'j funds_env \<Rightarrow> 'j world \<Rightarrow> 'j world \<Rightarrow> bool" where
  "supplied_once E w0 w \<longleftrightarrow> (\<forall>a b x. source_shows E w0 w a x \<longrightarrow> source_shows E w0 w b x \<longrightarrow> a = b)"

text \<open>A shown key has a source, and the source has one claimant.\<close>

lemma initial_page_versions:
  assumes "initial_world E w0" "database w0 (bitcoinKeySetPageKey n y) \<noteq> []"
  shows "\<exists>t c. database w0 (bitcoinKeySetPageKey n y) = [(write_json (funds_json E) t, c)] \<and> flat t"
proof -
  have "is_set_page (bitcoinKeySetPageKey n y)" by (auto simp: is_set_page_def)
  with assms show ?thesis unfolding initial_world_def unclaimed_page_def by blast
qed

definition source_of :: "'j funds_env \<Rightarrow> 'j world \<Rightarrow> 'j world \<Rightarrow> string \<Rightarrow> string \<Rightarrow> nat \<Rightarrow> key_source \<Rightarrow> bool" where
  "source_of E w0 w n y j a \<longleftrightarrow> (if database w0 (bitcoinKeySetPageKey n y) \<noteq> [] then a = InitialPage (bitcoinKeySetPageKey n y) j
     else (\<exists>z r keys. a = HugeRange z r j \<and> shows_range E (database w) (hugeBitcoinKeyListPageKey z) r (n @ ''_'' @ y) keys))"

lemma shown_key_has_source:
  assumes J: "json_ok (funds_json E)" and i: "initial_world E w0" and s: "db_safe E (database w0) (database w)"
    and k: "shows_key E (database w) (bitcoinKeySetPageKey n y) j u x"
  shows "\<exists>a. source_of E w0 w n y j a \<and> source_shows E w0 w a x"
proof -
  from k obtain t c vs where t: "flat t" "database w (bitcoinKeySetPageKey n y) = (write_json (funds_json E) t, c) # vs"
      "pt_get (key_field j) t = Some x"
    unfolding shows_key_def shows_claim_def by blast
  show ?thesis
  proof (cases "database w0 (bitcoinKeySetPageKey n y) = []")
    case False
    with i obtain t0 c0 where t0: "database w0 (bitcoinKeySetPageKey n y) = [(write_json (funds_json E) t0, c0)]" "flat t0"
      using initial_page_versions by blast
    obtain new where "database w (bitcoinKeySetPageKey n y) = new @ database w0 (bitcoinKeySetPageKey n y)"
      using s unfolding db_safe_def db_grows_def by blast
    then have "(write_json (funds_json E) t0, c0) \<in> set ((write_json (funds_json E) t, c) # vs)"
      using t0(1) t(2) by (metis in_set_conv_decomp)
    then have "keeps_claims key_field key_uuid_field t0 t"
      using book_versions_head [OF J _ t(1) _ t0(2)] s t(2) unfolding db_safe_def db_books_def by metis
    then have "pt_get (key_field j) t0 = Some x" using t(3) by (simp add: keeps_claims_def)
    then show ?thesis using t0 False by (auto simp: source_of_def)
  next
    case True
    with s t(2) obtain z r ks where "filled_page E (database w) n y z r ks" unfolding db_safe_def by fastforce
    then obtain keys t' c' vs' where f: "shows_range E (database w) (hugeBitcoinKeyListPageKey z) r (n @ ''_'' @ y) keys"
        "ks = split_at (CHR '','') keys" "flat t'" "database w (bitcoinKeySetPageKey n y) = (write_json (funds_json E) t', c') # vs'"
        "\<forall>j. pt_get (key_field j) t' = (if j < length ks then Some (ks ! j) else None)"
      unfolding filled_page_def by blast
    with t have "t' = t" using J by (metis Pair_inject list.inject option.inject read_flat)
    with f(5) t(3) have "list_at ks (int j) = Some x" by (auto simp: list_at_def split: if_splits)
    with f have "source_shows E w0 w (HugeRange z r j) x" unfolding shows_range_def shows_claim_def by auto
    moreover have "source_of E w0 w n y j (HugeRange z r j)" using f(1) True by (auto simp: source_of_def)
    ultimately show ?thesis by blast
  qed
qed

lemma source_has_one_page:
  assumes J: "json_ok (funds_json E)" and a: "source_of E w0 w n y j a" and b: "source_of E w0 w n' y' j' a"
  shows "bitcoinKeySetPageKey n y = bitcoinKeySetPageKey n' y' \<and> j = j'"
proof (cases a)
  case (InitialPage k i)
  with a b show ?thesis by (auto simp: source_of_def split: if_splits)
next
  case (HugeRange z r i)
  with a b obtain keys keys' where "shows_range E (database w) (hugeBitcoinKeyListPageKey z) r (n @ ''_'' @ y) keys"
      "shows_range E (database w) (hugeBitcoinKeyListPageKey z) r (n' @ ''_'' @ y') keys'" "j = i" "j' = i"
    by (auto simp: source_of_def split: if_splits)
  then show ?thesis using claim_unique [OF J] unfolding shows_range_def page_key_names by blast
qed

text \<open>
  C3. No bitcoin key is given to two users. If every key is supplied once (on the initializer's pages and in the huge list), then two
  stores that write the same key into an account, at any two moments of a run and in any two sessions, belong to the same request: they carry the
  same UUID and are made by sessions of the same user. The run starts with no request in any account, and no program but the tabs
  brings a new UUID into one; the JSON library gives back what was written; users come to different seeds for their UUIDs, and SHA-1 has no
  collision on them and never gives the text \<open>n\<close>.
\<close>

theorem no_key_is_given_twice:
  assumes J: "json_ok (funds_json E)" "reads_as_written (funds_json E)"
    and i: "initial_world E w0" "\<forall>u. uuids_of E (database w0) u = {}" and r: "user_reach E w0 h w" and once: "supplied_once E w0 w"
    and u: "seeds_apart E w0" "no_collisions E w0"
    and s: "(n, s) \<in> set h" "hands_out E s key" and s': "(n', s') \<in> set h" "hands_out E s' key"
  shows "m_PerGetBitcoinKeyUUID s = m_PerGetBitcoinKeyUUID s' \<and> app_CurrentlyLoggedInUsername s = app_CurrentlyLoggedInUsername s'"
proof -
  from safe_reach [OF J(1) user_reach_world [OF r] i(1)] have d: "db_safe E (database w0) (database w)"
      and t: "tab_safe E (database w) s" "tab_safe E (database w) s'"
    using s(1) s'(1) by (auto simp: world_safe_def)
  have m: "made_for E w0 (app_CurrentlyLoggedInUsername x) (m_PerGetBitcoinKeyUUID x)" if "(k, x) \<in> set h" "hands_out E x key" for k x
    using owned_reach [OF J i(1) _ r] i(2) that by (fastforce simp: hands_out_def request_owned_def holds_request_def)
  have n: "m_PerGetBitcoinKeyUUID s \<noteq> ''n''" "m_PerGetBitcoinKeyUUID s' \<noteq> ''n''"
    using made_for_not_n [OF u(2)] m [OF s] m [OF s'] by auto
  from t(1) s(2) n(1) obtain j where k: "shows_key E (database w) (set_page_of s) j (m_PerGetBitcoinKeyUUID s) key"
    by (auto simp: hands_out_def tab_safe_def key_is_claimed_def)
  from t(2) s'(2) n(2) obtain j' where k': "shows_key E (database w) (set_page_of s') j' (m_PerGetBitcoinKeyUUID s') key"
    by (auto simp: hands_out_def tab_safe_def key_is_claimed_def)
  from shown_key_has_source [OF J(1) i(1) d k [unfolded set_page_of_def]] shown_key_has_source [OF J(1) i(1) d k' [unfolded set_page_of_def]] once
  have "set_page_of s = set_page_of s' \<and> j = j'"
    unfolding supplied_once_def set_page_of_def using source_has_one_page [OF J(1)] by metis
  with k' have "shows_key E (database w) (set_page_of s) j (m_PerGetBitcoinKeyUUID s') key" by simp
  with k have "m_PerGetBitcoinKeyUUID s = m_PerGetBitcoinKeyUUID s'" using claim_unique [OF J(1)] unfolding shows_key_def by blast
  then show ?thesis using made_for_one [OF u(2,1)] m [OF s] m [OF s'] by simp
qed

text \<open>The run of \<open>joe\<close>'s session, in a world with sessions of \<open>ann\<close>.\<close>

lemma first_seeds: "seeds_of payer_env first_world u = {x. \<exists>now. (u = ''joe'' \<or> u = ''ann'') \<and> x = u @ ''id'' @ show_int now @ show_int 7}"
proof -
  have "x \<in> seeds_of payer_env first_world u \<longleftrightarrow> (\<exists>now. (u = ''joe'' \<or> u = ''ann'') \<and> x = u @ ''id'' @ show_int now @ show_int 7)" for x
  proof
    assume "x \<in> seeds_of payer_env first_world u"
    then show "\<exists>now. (u = ''joe'' \<or> u = ''ann'') \<and> x = u @ ''id'' @ show_int now @ show_int 7"
      by (auto simp: seeds_of_def uuid_seed_def first_world_def payer_tab_def payer_env_def split: if_splits)
  next
    assume "\<exists>now. (u = ''joe'' \<or> u = ''ann'') \<and> x = u @ ''id'' @ show_int now @ show_int 7"
    then obtain now where h: "u = ''joe'' \<or> u = ''ann''" "x = u @ ''id'' @ show_int now @ show_int 7" by blast
    have "app_CurrentlyLoggedInUsername (tab_of first_world (if u = ''joe'' then 0 else 1)) = u
        \<and> x = uuid_seed payer_env (tab_of first_world (if u = ''joe'' then 0 else 1)) now"
      using h by (auto simp: uuid_seed_def first_world_def payer_tab_def payer_env_def)
    then show "x \<in> seeds_of payer_env first_world u" unfolding seeds_of_def by blast
  qed
  then show ?thesis by blast
qed

lemma first_seeds_apart: "seeds_apart payer_env first_world" "no_collisions payer_env first_world"
proof -
  have "sha1_base64 payer_env x = x" for x by (simp add: payer_env_def)
  then show "seeds_apart payer_env first_world" "no_collisions payer_env first_world"
    by (auto simp: seeds_apart_def no_collisions_def first_seeds inj_on_def)
qed

lemma first_uuids: "uuids_of payer_env (database first_world) u = {}"
proof -
  have "pt_get JSON_USER_ACCOUNT_BITCOIN_GET_KEY_UUID asker_account = None" by (simp add: asker_account_def)
  then show ?thesis by (auto simp: uuids_of_def first_world_def first_db_def payer_env_def)
qed

lemma first_sources:
  assumes "source_shows payer_env first_world w a x" "\<forall>z. database w (hugeBitcoinKeyListPageKey z) = []"
  shows "a = InitialPage (bitcoinKeySetPageKey (show_int 7) (show_int 0)) 0"
proof (cases a)
  case (InitialPage k i)
  with assms obtain t c where t: "first_db k = [(t, c)]" "pt_get (key_field i) t = Some x"
    by (auto simp: first_world_def payer_env_def)
  have f: "key_field i \<noteq> JSON_USER_ACCOUNT_BITCOIN_STATE" "key_field i \<noteq> JSON_BITCOIN_KEY_SET_CURRENT_PAGE"
    by (simp_all add: key_field_def)
  have "k = bitcoinKeySetPageKey (show_int 7) (show_int 0)" "t = first_page"
    using t f by (auto simp: first_db_def asker_account_def split: if_splits)
  moreover have "i = 0" using t(2) calculation by (auto simp: first_page_def split: if_splits)
  ultimately show ?thesis using InitialPage by simp
next
  case (HugeRange z r j)
  with assms show ?thesis by auto
qed

theorem no_key_is_given_twice_witness:
  "\<exists>h s w. user_reach payer_env first_world h w \<and> (0, s) \<in> set h \<and> hands_out payer_env s ''1Key''
     \<and> app_CurrentlyLoggedInUsername (tab_of first_world 0) \<noteq> app_CurrentlyLoggedInUsername (tab_of first_world 1)
     \<and> (\<forall>(n', s') \<in> set h. hands_out payer_env s' ''1Key'' \<longrightarrow> m_PerGetBitcoinKeyUUID s = m_PerGetBitcoinKeyUUID s'
           \<and> app_CurrentlyLoggedInUsername s = app_CurrentlyLoggedInUsername s')"
proof -
  obtain h s w where r: "user_reach payer_env first_world h w" "(0, s) \<in> set h" "hands_out payer_env s ''1Key''"
      "\<forall>z. database w (hugeBitcoinKeyListPageKey z) = []"
    using first_run_hands_out by blast
  have J: "json_ok (funds_json payer_env)" "reads_as_written (funds_json payer_env)"
    by (simp_all add: payer_env_def tree_json_ok reads_as_written_def)
  have once: "supplied_once payer_env first_world w"
    unfolding supplied_once_def using first_sources [OF _ r(4)] by metis
  have w: "app_CurrentlyLoggedInUsername (tab_of first_world 0) \<noteq> app_CurrentlyLoggedInUsername (tab_of first_world 1)"
    by (simp add: first_world_def payer_tab_def)
  have "\<forall>u. uuids_of payer_env (database first_world) u = {}" by (simp add: first_uuids)
  from no_key_is_given_twice [OF J first_world_initial this r(1) once first_seeds_apart r(2,3)] r w show ?thesis by blast
qed

subsection \<open>One request at a time\<close>

text \<open>
  C9. In every world that can be reached, every session waits for at most one answer, and rendering is deferred exactly while it does: by
  one for a poll, whose sender only defers through the request, and by two for a request to the database. So no answer meets a handler
  that another click has made obsolete, and a session never stays deferred without a request that can wake it up, nor is it resumed too often.
\<close>

theorem one_request_at_a_time:
  assumes "json_ok (funds_json E)" "initial_world E w0" "world_reach E w0 h w"
  shows "tab_pending (tab_of w n) = [] \<and> app_DeferCount (tab_of w n) = 0
    \<or> (\<exists>r. tab_pending (tab_of w n) = [r] \<and> app_DeferCount (tab_of w n) = deferred_by r)"
proof -
  from safe_reach [OF assms(1,3,2)] have "tab_safe E (database w) (tab_of w n)" by (simp add: world_safe_def)
  then show ?thesis
    by (cases "tab_pending (tab_of w n)" rule: remdups_adj.cases) (simp_all add: tab_safe_def)
qed

theorem one_request_at_a_time_witness:
  "\<exists>h s w. world_reach payer_env first_world h w \<and> (0, s) \<in> set h \<and> hands_out payer_env s ''1Key''
    \<and> (tab_pending (tab_of w 1) = [] \<and> app_DeferCount (tab_of w 1) = 0
       \<or> (\<exists>r. tab_pending (tab_of w 1) = [r] \<and> app_DeferCount (tab_of w 1) = deferred_by r))"
proof -
  obtain h s w where r: "world_reach payer_env first_world h w" "(0, s) \<in> set h" "hands_out payer_env s ''1Key''"
    using first_run_hands_out user_reach_world by blast
  have "json_ok (funds_json payer_env)" by (simp add: payer_env_def tree_json_ok)
  from one_request_at_a_time [OF this first_world_initial r(1), of 1] r show ?thesis by blast
qed

end
