(* ===== verification/AddFundsRefill.thy ===== *)
theory AddFundsRefill
  imports AddFundsGetKey
begin

section \<open>A key set that is used up gets its next page\<close>

text \<open>
  The page after the last full one does not exist: the request locks the key set, claims the first unclaimed range of the huge list, adds
  the page with the range's keys, unlocks the key set, and goes on to claim the first key of the new page. The steps of the
  refill, executed as in \<open>AddFundsGetKey\<close>.
\<close>

subsection \<open>Where a scan for a range ends\<close>

definition ranges_taken :: "string \<Rightarrow> ptree \<Rightarrow> nat \<Rightarrow> bool" where
  "ranges_taken fill pt i \<longleftrightarrow> (\<forall>j < i. \<exists>u. claimant range_uuid_field j pt = Some u \<and> u \<noteq> fill)"

definition first_free_range :: "string \<Rightarrow> ptree \<Rightarrow> nat \<Rightarrow> string \<Rightarrow> bool" where
  "first_free_range fill pt i r \<longleftrightarrow> i < ABC_NUM_BITCOIN_KEY_RANGES_ON_EACH_HUGEBITCOINLIST_PAGE \<and> ranges_taken fill pt i
     \<and> claimant range_uuid_field i pt = None \<and> pt_get (range_field i) pt = Some r"

lemma scan_ranges_taken:
  assumes "ranges_taken fill pt i" "j + n \<le> i"
  shows "scan_ranges fill pt j (n + m) s = scan_ranges fill pt (j + n) m s"
  using assms(2)
proof (induction n arbitrary: j)
  case (Suc n)
  then have "\<exists>u. claimant range_uuid_field j pt = Some u \<and> u \<noteq> fill"
    using assms(1) by (auto simp: ranges_taken_def)
  then show ?case using Suc by (auto simp: Let_def claimant_def split: if_splits)
qed simp

lemma scan_free_range: "first_free_range fill pt i r
    \<Longrightarrow> scan_ranges fill pt 0 ABC_NUM_BITCOIN_KEY_RANGES_ON_EACH_HUGEBITCOINLIST_PAGE s = Ret (FirstUnclaimed i r) s"
  using scan_ranges_taken [of fill pt i 0 i "Suc (99 - i)" s]
  by (auto simp: first_free_range_def claimant_def Let_def split: if_splits)

lemma scan_no_range: "ranges_taken fill pt ABC_NUM_BITCOIN_KEY_RANGES_ON_EACH_HUGEBITCOINLIST_PAGE
    \<Longrightarrow> scan_ranges fill pt 0 ABC_NUM_BITCOIN_KEY_RANGES_ON_EACH_HUGEBITCOINLIST_PAGE s = Ret PageFull s"
  using scan_ranges_taken [of fill pt 100 0 100 0 s] by simp

subsection \<open>The steps of a refill\<close>

definition fill_of :: "'j key_request \<Rightarrow> string \<Rightarrow> string" where
  "fill_of R y = r_set R @ ''_'' @ y"

text \<open>The key set is locked under this CAS, and page \<open>z\<close> of the huge list is looked at.\<close>

definition refilling :: "'j funds_env \<Rightarrow> 'j key_request \<Rightarrow> string \<Rightarrow> 'j tab_request \<Rightarrow> string \<Rightarrow> cas \<Rightarrow> 'j funds \<Rightarrow> bool" where
  "refilling E R y r z lock s \<longleftrightarrow> getting E R y r s \<and> m_FillingNextBitcoinKeySetPerFillUuid s = fill_of R y
     \<and> m_FillingNextStartingFromPageZ s = z \<and> m_PageZisFromCurrentPageInDb s \<and> m_BitcoinKeySetCurrentPageCAS s = lock"

definition lock_doc :: "'j funds_env \<Rightarrow> 'j key_request \<Rightarrow> string \<Rightarrow> string \<Rightarrow> 'j" where
  "lock_doc E R y z = write_json (funds_json E) (pt_put JSON_BITCOIN_KEY_SET_FILLING_START_LOOKING_ON_PAGE z
     (pt_put JSON_BITCOIN_KEY_SET_FILLING_UUID_PER_FILL (fill_of R y) (pt_put JSON_BITCOIN_KEY_SET_LOCKED_FILLING_NEXT_PAGE y pt_empty)))"

lemmas refill_ops = key_ops refilling_def fill_of_def
lemmas go_refill = tab_go_def refill_ops

lemma go_missing_page:
  assumes "getting E R y (TabGet k) s"
    and "app_WhatTheGetSavingCasWasFor s = GETBITCOINKEYSETNPAGEYANDIFITEXISTSLOOPAROUNDCHECKINGUUIDBUTIFNOTEXISTMAKEITEXIST"
  shows "\<exists>s'. tab_go E now (AnswerGet x xc False False) s = Some s' \<and> getting E R y (TabGet hugeBitcoinKeyListCurrentPageKey) s'
    \<and> app_WhatTheGetSavingCasWasFor s' = GETHUGEBITCOINKEYLISTCURRENTPAGE \<and> m_BitcoinKeySetCurrentPageCAS s' = m_BitcoinKeySetCurrentPageCAS s"
  using assms by (simp add: go_refill tab_get_finished_def getBitcoinKeySetNPageYAttemptFinishedSoCheckItIfItExistsAndMakeItIfItDont_def)

lemma go_huge_current:
  assumes "getting E R y (TabGet k) s" "app_WhatTheGetSavingCasWasFor s = GETHUGEBITCOINKEYLISTCURRENTPAGE"
    and "read_json (funds_json E) x = Some pt" "pt_get JSON_HUGE_BITCOIN_KEY_LIST_CURRENT_PAGE_KEY pt = Some z"
    and "m_BitcoinKeySetCurrentPageCAS s = c"
  shows "\<exists>s'. tab_go E now (AnswerGet x xc True False) s = Some s'
    \<and> refilling E R y (TabCasStoreSavingCas (bitcoinKeySetCurrentPageKey (r_set R)) (lock_doc E R y z) c) z c s'
    \<and> app_WhatTheStoreWithInputCasSavingOutputCasWasFor s' = LOCKINGBITCOINKEYSETNINTOFILLINGNEXTPAGEMODE"
  using assms by (simp add: go_refill tab_get_finished_def hugeBitcoinKeyListCurrentPageGetComplete_def lock_doc_def current_page_locked_doc_def)

definition reads_huge_page :: "'j funds \<Rightarrow> bool" where
  "reads_huge_page s \<longleftrightarrow>
     app_WhatTheGetSavingCasWasFor s = GETHUGEBITCOINKEYLISTACTUALPAGEFORANALYZINGANDMAYBECLAIMINGKEYRANGE"

lemma go_set_locked:
  assumes "refilling E R y (TabCasStoreSavingCas k d c) z c s"
    and "app_WhatTheStoreWithInputCasSavingOutputCasWasFor s = LOCKINGBITCOINKEYSETNINTOFILLINGNEXTPAGEMODE"
  shows "\<exists>s'. tab_go E now (AnswerCasStoreSavingCas c' True False) s = Some s'
    \<and> refilling E R y (TabGet (hugeBitcoinKeyListPageKey z)) z c' s' \<and> reads_huge_page s'"
  using assms by (simp add: go_refill tab_cas_store_saving_cas_finished_def attemptToLockBitcoinKeySetNintoFillingNextPageModeComplete_def
      bitcoinKeySetN_currentPage_Locked_soDoKeyRangeClaimAndNextPageCreation_def reads_huge_page_def)

definition claimed_range_doc :: "'j funds_env \<Rightarrow> 'j key_request \<Rightarrow> string \<Rightarrow> nat \<Rightarrow> ptree \<Rightarrow> 'j" where
  "claimed_range_doc E R y i pt = write_json (funds_json E) (claim_range (fill_of R y) i pt)"

lemma go_free_range:
  assumes "refilling E R y (TabGet k) z lock s" "reads_huge_page s" "read_json (funds_json E) x = Some pt" "first_free_range (fill_of R y) pt i r"
  shows "\<exists>s'. tab_go E now (AnswerGet x xc True False) s = Some s'
    \<and> refilling E R y (TabCasStore (hugeBitcoinKeyListPageKey z) (claimed_range_doc E R y i pt) xc) z lock s'
    \<and> app_WhatTheStoreWithInputCasWasFor s' = HUGEBITCOINKEYLISTKEYRANGECLAIMATTEMPT
    \<and> m_BitcoinKeysVectorToUseForNextPageFill s' = split_at (CHR '','') r"
  using assms(1-3) by (simp add: tab_go_def key_ops refilling_def reads_huge_page_def tab_get_finished_def getHugeBitcoinKeyListActualPageAttemptCompleted_def after_range_scan_def
      claimed_range_doc_def scan_free_range [OF assms(4)])

definition page_doc :: "'j funds_env \<Rightarrow> string list \<Rightarrow> 'j" where
  "page_doc E ks = write_json (funds_json E) (page_of_keys 0 ks pt_empty)"

lemma go_range_claimed:
  assumes "refilling E R y (TabCasStore k d c) z lock s" "app_WhatTheStoreWithInputCasWasFor s = HUGEBITCOINKEYLISTKEYRANGECLAIMATTEMPT"
    and "m_BitcoinKeysVectorToUseForNextPageFill s = ks"
  shows "\<exists>s'. tab_go E now (AnswerCasStore True False) s = Some s' \<and> refilling E R y (TabAdd (page_of R y) (page_doc E ks)) z lock s'
    \<and> app_WhatTheStoreWithoutInputCasWasFor s' = BITCOINKEYSETNPAGEYCREATIONVIALCBADD"
  using assms by (simp add: go_refill tab_cas_store_finished_def doneAttemptingHugeBitcoinKeyListKeyRangeClaim_def
      uuidPerRefillIsSeenOnHugeBitcoinListSoProceedWithActualNextPageFill_def page_doc_def)

definition unlocked_set_doc :: "'j funds_env \<Rightarrow> string \<Rightarrow> 'j" where
  "unlocked_set_doc E y = write_json (funds_json E) (pt_put JSON_BITCOIN_KEY_SET_CURRENT_PAGE y pt_empty)"

lemma go_page_added:
  assumes "refilling E R y (TabAdd k d) z lock s" "app_WhatTheStoreWithoutInputCasWasFor s = BITCOINKEYSETNPAGEYCREATIONVIALCBADD"
  shows "\<exists>s'. tab_go E now (AnswerAdd True False) s = Some s'
    \<and> refilling E R y (TabCasStore (bitcoinKeySetCurrentPageKey (r_set R)) (unlocked_set_doc E y) lock) z lock s'
    \<and> app_WhatTheStoreWithInputCasWasFor s' = SAFELYUNLOCKBITCOINKEYSETNCURRENTPAGEDOCFAILINGTOLERABLY"
  using assms by (simp add: go_refill tab_add_finished_def doneAttemptingBitcoinKeySetNnextPageYcreation_def unlocked_set_doc_def)

lemma go_set_unlocked:
  assumes "refilling E R y (TabCasStore k d c) z lock s"
    and "app_WhatTheStoreWithInputCasWasFor s = SAFELYUNLOCKBITCOINKEYSETNCURRENTPAGEDOCFAILINGTOLERABLY"
  shows "\<exists>s'. tab_go E now (AnswerCasStore True False) s = Some s'
    \<and> getting E R y (TabCasStoreSavingCas (userAccountKey (r_user R)) (getting_doc E R y) (r_cas R)) s'
    \<and> app_WhatTheStoreWithInputCasSavingOutputCasWasFor s' = USERACCOUNTBITCOINLOCKEDINTOGETTINGKEYMODE"
  using assms by (simp add: go_refill tab_cas_store_finished_def doneAttemptingToUnlockBitcoinKeySetN_CurrentPage_def
      proceedToBitcoinKeySetNgettingAfterLockingUserAccount_UnlessUserAccountAlreadyLocked_def getting_doc_def)

subsection \<open>Full pages of the huge list\<close>

lemma go_full_range_page:
  assumes "refilling E R y (TabGet k) (show_int z) lock s" "reads_huge_page s" "read_json (funds_json E) x = Some pt"
    and "ranges_taken (fill_of R y) pt ABC_NUM_BITCOIN_KEY_RANGES_ON_EACH_HUGEBITCOINLIST_PAGE" "0 \<le> z" "z + 1 < 2 ^ 31"
  shows "\<exists>s' d c. tab_go E now (AnswerGet x xc True False) s = Some s'
    \<and> refilling E R y (TabCasStore hugeBitcoinKeyListCurrentPageKey d c) (show_int (z + 1)) lock s'
    \<and> app_WhatTheStoreWithInputCasWasFor s' = HUGEBITCOINKEYLISTPAGECHANGE"
proof -
  have "lexical_cast_int (show_int z) = Some z" using assms(5,6) by (intro lexical_cast_int_show_int) simp_all
  then show ?thesis using assms(1-3,5,6)
    by (simp add: tab_go_def key_ops refilling_def reads_huge_page_def tab_get_finished_def
        getHugeBitcoinKeyListActualPageAttemptCompleted_def after_range_scan_def huge_page_full_def scan_no_range [OF assms(4)])
qed

lemma go_current_changed:
  assumes "refilling E R y (TabCasStore k d c) z lock s" "app_WhatTheStoreWithInputCasWasFor s = HUGEBITCOINKEYLISTPAGECHANGE"
  shows "\<exists>s'. tab_go E now (AnswerCasStore ok False) s = Some s'
    \<and> refilling E R y (TabGet (hugeBitcoinKeyListPageKey z)) z lock s' \<and> reads_huge_page s'"
  using assms by (simp add: go_refill tab_cas_store_finished_def doneChangingHugeBitcoinKeyListCurrentPage_def
      bitcoinKeySetN_currentPage_Locked_soDoKeyRangeClaimAndNextPageCreation_def reads_huge_page_def)


text \<open>The databases differ at most in the document of the huge list's current page.\<close>

definition same_but_current :: "'j db \<Rightarrow> 'j db \<Rightarrow> bool" where
  "same_but_current db db' \<longleftrightarrow> (\<forall>k. k \<noteq> hugeBitcoinKeyListCurrentPageKey \<longrightarrow> db' k = db k)"

lemma same_but_current_simps:
  assumes "same_but_current db db'" "k \<noteq> hugeBitcoinKeyListCurrentPageKey"
  shows "db' k = db k" "current db' k = current db k"
  using assms by (simp_all add: same_but_current_def current_def)

definition full_range_page :: "'j funds_env \<Rightarrow> 'j db \<Rightarrow> string \<Rightarrow> int \<Rightarrow> bool" where
  "full_range_page E db fill z \<longleftrightarrow> (\<exists>x xc pt. current db (hugeBitcoinKeyListPageKey (show_int z)) = Some (x, xc)
     \<and> read_json (funds_json E) x = Some pt \<and> ranges_taken fill pt ABC_NUM_BITCOIN_KEY_RANGES_ON_EACH_HUGEBITCOINLIST_PAGE)"

text \<open>A store is executed or refused; the answer says which.\<close>

lemma serves_some_store:
  assumes "tab_pending s = [TabCasStore k d c]" "\<And>ok. \<exists>s'. tab_go E now (AnswerCasStore ok False) s = Some s' \<and> P s'"
  shows "\<exists>db' s'. serves E pick d0 now 1 (db, s) = Some (db', s') \<and> (\<forall>k'. k' \<noteq> k \<longrightarrow> db' k' = db k') \<and> P s'"
proof (cases "swap_allowed db k c")
  case True
  obtain s' where s': "tab_go E now (AnswerCasStore True False) s = Some s'" "P s'" using assms(2) by blast
  then have "serves E pick d0 now 1 (db, s) = Some (new_version k d (pick db k) db, s')"
    using True assms(1) by (simp add: served_def)
  then show ?thesis using s'(2) by (metis new_version_other)
next
  case False
  obtain s' where s': "tab_go E now (AnswerCasStore False False) s = Some s'" "P s'" using assms(2) by blast
  then have "serves E pick d0 now 1 (db, s) = Some (db, s')" using False assms(1) by (simp add: served_def)
  then show ?thesis using s'(2) by blast
qed

lemma walks_full_range_pages:
  assumes "refilling E R y (TabGet (hugeBitcoinKeyListPageKey (show_int z))) (show_int z) lock s" "reads_huge_page s" "0 \<le> z" "z + int q < 2 ^ 31"
    and "\<forall>j < q. full_range_page E db (fill_of R y) (z + int j)"
  shows "\<exists>db' s'. serves E pick d0 now (2 * q) (db, s) = Some (db', s') \<and> same_but_current db db' \<and> reads_huge_page s'
    \<and> refilling E R y (TabGet (hugeBitcoinKeyListPageKey (show_int (z + int q)))) (show_int (z + int q)) lock s'"
  using assms(4,5)
proof (induction q)
  case 0
  with assms(1,2) show ?case by (simp add: same_but_current_def)
next
  case (Suc q)
  then obtain db1 s1 where s1: "serves E pick d0 now (2 * q) (db, s) = Some (db1, s1)" "same_but_current db db1" "reads_huge_page s1"
      "refilling E R y (TabGet (hugeBitcoinKeyListPageKey (show_int (z + int q)))) (show_int (z + int q)) lock s1" by auto
  from Suc(3) have "full_range_page E db (fill_of R y) (z + int q)" by simp
  then obtain x xc pt where p: "current db1 (hugeBitcoinKeyListPageKey (show_int (z + int q))) = Some (x, xc)" "read_json (funds_json E) x = Some pt"
      "ranges_taken (fill_of R y) pt ABC_NUM_BITCOIN_KEY_RANGES_ON_EACH_HUGEBITCOINLIST_PAGE"
    unfolding full_range_page_def using same_but_current_simps(2) [OF s1(2)] by auto
  have n: "0 \<le> z + int q" "z + int q + 1 < 2 ^ 31" using Suc(2) assms(3) by simp_all
  obtain s2 d c where s2: "tab_go E now (AnswerGet x xc True False) s1 = Some s2"
      "refilling E R y (TabCasStore hugeBitcoinKeyListCurrentPageKey d c) (show_int (z + int q + 1)) lock s2"
      "app_WhatTheStoreWithInputCasWasFor s2 = HUGEBITCOINKEYLISTPAGECHANGE"
    using go_full_range_page [OF s1(4,3) p(2,3) n] by blast
  have q: "tab_pending s1 = [TabGet (hugeBitcoinKeyListPageKey (show_int (z + int q)))]"
      "tab_pending s2 = [TabCasStore hugeBitcoinKeyListCurrentPageKey d c]"
    using s1(4) s2(2) by (simp_all add: refilling_def getting_def)
  have "\<exists>s'. tab_go E now (AnswerCasStore ok False) s2 = Some s'
      \<and> (refilling E R y (TabGet (hugeBitcoinKeyListPageKey (show_int (z + int q + 1)))) (show_int (z + int q + 1)) lock s' \<and> reads_huge_page s')"
    for ok using go_current_changed [OF s2(2,3)] by blast
  from serves_some_store [OF q(2) this, of pick d0 db1] obtain db3 s3 where s3: "serves E pick d0 now 1 (db1, s2) = Some (db3, s3)"
      "\<forall>k'. k' \<noteq> hugeBitcoinKeyListCurrentPageKey \<longrightarrow> db3 k' = db1 k'" "reads_huge_page s3"
      "refilling E R y (TabGet (hugeBitcoinKeyListPageKey (show_int (z + int q + 1)))) (show_int (z + int q + 1)) lock s3" by blast
  have "serves E pick d0 now (2 * q + (1 + 1)) (db, s) = Some (db3, s3)"
    by (rule serves_then [OF s1(1)], rule serves_then [OF serves_get [OF q(1) p(1) s2(1)] s3(1)])
  moreover have "2 * q + (1 + 1) = 2 * Suc q" by simp
  ultimately have r: "serves E pick d0 now (2 * Suc q) (db, s) = Some (db3, s3)" by metis
  have e: "z + int (Suc q) = z + int q + 1" by simp
  have "same_but_current db db3" using s1(2) s3(2) by (simp add: same_but_current_def)
  then show ?case unfolding e using r s3(3,4) by blast
qed

subsection \<open>The refill as a whole\<close>

lemma account_apart [simp]:
  "userAccountKey u \<noteq> hugeBitcoinKeyListCurrentPageKey" "hugeBitcoinKeyListCurrentPageKey \<noteq> userAccountKey u"
  by (simp_all add: key_defs)

lemma locks_the_set:
  assumes g: "getting E R y (TabGet (page_of R y)) s"
    and w: "app_WhatTheGetSavingCasWasFor s = GETBITCOINKEYSETNPAGEYANDIFITEXISTSLOOPAROUNDCHECKINGUUIDBUTIFNOTEXISTMAKEITEXIST"
    and m: "current db (page_of R y) = None"
    and h: "current db hugeBitcoinKeyListCurrentPageKey = Some (x, xc)" "read_json (funds_json E) x = Some pt"
      "pt_get JSON_HUGE_BITCOIN_KEY_LIST_CURRENT_PAGE_KEY pt = Some z"
    and c: "current db (bitcoinKeySetCurrentPageKey (r_set R)) = Some (cx, m_BitcoinKeySetCurrentPageCAS s)"
  shows "\<exists>s'. serves E pick d0 now 3 (db, s) = Some (new_version (bitcoinKeySetCurrentPageKey (r_set R)) (lock_doc E R y z)
        (pick db (bitcoinKeySetCurrentPageKey (r_set R))) db, s')
     \<and> refilling E R y (TabGet (hugeBitcoinKeyListPageKey z)) z (pick db (bitcoinKeySetCurrentPageKey (r_set R))) s' \<and> reads_huge_page s'"
proof -
  let ?k = "bitcoinKeySetCurrentPageKey (r_set R)"
  obtain s1 where s1: "tab_go E now (AnswerGet d0 0 False False) s = Some s1" "getting E R y (TabGet hugeBitcoinKeyListCurrentPageKey) s1"
      "app_WhatTheGetSavingCasWasFor s1 = GETHUGEBITCOINKEYLISTCURRENTPAGE" "m_BitcoinKeySetCurrentPageCAS s1 = m_BitcoinKeySetCurrentPageCAS s"
    using go_missing_page [OF g w] by blast
  let ?c = "m_BitcoinKeySetCurrentPageCAS s"
  obtain s2 where s2: "tab_go E now (AnswerGet x xc True False) s1 = Some s2"
      "refilling E R y (TabCasStoreSavingCas ?k (lock_doc E R y z) ?c) z ?c s2"
      "app_WhatTheStoreWithInputCasSavingOutputCasWasFor s2 = LOCKINGBITCOINKEYSETNINTOFILLINGNEXTPAGEMODE"
    using go_huge_current [OF s1(2,3) h(2,3) s1(4)] by blast
  obtain s3 where s3: "tab_go E now (AnswerCasStoreSavingCas (pick db ?k) True False) s2 = Some s3"
      "refilling E R y (TabGet (hugeBitcoinKeyListPageKey z)) z (pick db ?k) s3" "reads_huge_page s3"
    using go_set_locked [OF s2(2,3)] by blast
  have q: "tab_pending s = [TabGet (page_of R y)]" "tab_pending s1 = [TabGet hugeBitcoinKeyListCurrentPageKey]"
      "tab_pending s2 = [TabCasStoreSavingCas ?k (lock_doc E R y z) ?c]"
    using g s1(2) s2(2) by (simp_all add: refilling_def getting_def)
  have "serves E pick d0 now (1 + (1 + 1)) (db, s) = Some (new_version ?k (lock_doc E R y z) (pick db ?k) db, s3)"
    by (rule serves_then [OF serves_get_missing [OF q(1) m s1(1)]], rule serves_then [OF serves_get [OF q(2) h(1) s2(1)]],
      rule serves_lock [where pick = pick, OF q(3) c s3(1)])
  moreover have "1 + (1 + 1) = (3::nat)" by simp
  ultimately have "serves E pick d0 now 3 (db, s) = Some (new_version ?k (lock_doc E R y z) (pick db ?k) db, s3)" by metis
  then show ?thesis using s3(2,3) by blast
qed

text \<open>What the database holds when the page is there: the claimed range, the page, the unlocked key set, the account locked again.\<close>

definition refilled :: "'j funds_env \<Rightarrow> 'j key_request \<Rightarrow> string \<Rightarrow> string \<Rightarrow> nat \<Rightarrow> ptree \<Rightarrow> string list \<Rightarrow> 'j db \<Rightarrow> bool" where
  "refilled E R y z i pt ks db \<longleftrightarrow> map_option fst (current db (hugeBitcoinKeyListPageKey z)) = Some (claimed_range_doc E R y i pt)
     \<and> map_option fst (current db (page_of R y)) = Some (page_doc E ks)
     \<and> map_option fst (current db (bitcoinKeySetCurrentPageKey (r_set R))) = Some (unlocked_set_doc E y)
     \<and> current db (userAccountKey (r_user R)) = Some (getting_doc E R y, r_cas R)"

lemma adds_the_page:
  assumes g: "refilling E R y (TabGet (hugeBitcoinKeyListPageKey z)) z lock s" "reads_huge_page s"
    and p: "current db (hugeBitcoinKeyListPageKey z) = Some (x, xc)" "read_json (funds_json E) x = Some pt" "first_free_range (fill_of R y) pt i r"
    and m: "db (page_of R y) = []" and c: "current db (bitcoinKeySetCurrentPageKey (r_set R)) = Some (cx, lock)"
    and a: "current db (userAccountKey (r_user R)) = Some (ax, r_cas R)"
  shows "\<exists>db' s' cas. serves E pick d0 now 5 (db, s) = Some (db', s') \<and> refilled E (R\<lparr>r_cas := cas\<rparr>) y z i pt (split_at (CHR '','') r) db'
     \<and> getting E (R\<lparr>r_cas := cas\<rparr>) y (TabGet (page_of R y)) s' \<and> reads_page s'"
proof -
  let ?h = "hugeBitcoinKeyListPageKey z" and ?p = "page_of R y" and ?c = "bitcoinKeySetCurrentPageKey (r_set R)" and ?a = "userAccountKey (r_user R)"
  let ?ks = "split_at (CHR '','') r"
  obtain s1 where s1: "tab_go E now (AnswerGet x xc True False) s = Some s1"
      "refilling E R y (TabCasStore ?h (claimed_range_doc E R y i pt) xc) z lock s1"
      "app_WhatTheStoreWithInputCasWasFor s1 = HUGEBITCOINKEYLISTKEYRANGECLAIMATTEMPT" "m_BitcoinKeysVectorToUseForNextPageFill s1 = ?ks"
    using go_free_range [OF g p(2,3)] by blast
  define db1 where "db1 = new_version ?h (claimed_range_doc E R y i pt) (pick db ?h) db"
  obtain s2 where s2: "tab_go E now (AnswerCasStore True False) s1 = Some s2" "refilling E R y (TabAdd ?p (page_doc E ?ks)) z lock s2"
      "app_WhatTheStoreWithoutInputCasWasFor s2 = BITCOINKEYSETNPAGEYCREATIONVIALCBADD"
    using go_range_claimed [OF s1(2-4)] by blast
  define db2 where "db2 = new_version ?p (page_doc E ?ks) (pick db1 ?p) db1"
  obtain s3 where s3: "tab_go E now (AnswerAdd True False) s2 = Some s3" "refilling E R y (TabCasStore ?c (unlocked_set_doc E y) lock) z lock s3"
      "app_WhatTheStoreWithInputCasWasFor s3 = SAFELYUNLOCKBITCOINKEYSETNCURRENTPAGEDOCFAILINGTOLERABLY"
    using go_page_added [OF s2(2,3)] by blast
  define db3 where "db3 = new_version ?c (unlocked_set_doc E y) (pick db2 ?c) db2"
  obtain s4 where s4: "tab_go E now (AnswerCasStore True False) s3 = Some s4"
      "getting E R y (TabCasStoreSavingCas ?a (getting_doc E R y) (r_cas R)) s4"
      "app_WhatTheStoreWithInputCasSavingOutputCasWasFor s4 = USERACCOUNTBITCOINLOCKEDINTOGETTINGKEYMODE"
    using go_set_unlocked [OF s3(2,3)] by blast
  define db4 where "db4 = new_version ?a (getting_doc E R y) (pick db3 ?a) db3"
  obtain s5 where s5: "tab_go E now (AnswerCasStoreSavingCas (pick db3 ?a) True False) s4 = Some s5"
      "getting E (R\<lparr>r_cas := pick db3 ?a\<rparr>) y (TabGet ?p) s5" "reads_page s5"
    using go_account_locked [OF s4(2,3)] by blast
  have q: "tab_pending s = [TabGet ?h]" "tab_pending s1 = [TabCasStore ?h (claimed_range_doc E R y i pt) xc]"
      "tab_pending s2 = [TabAdd ?p (page_doc E ?ks)]" "tab_pending s3 = [TabCasStore ?c (unlocked_set_doc E y) lock]"
      "tab_pending s4 = [TabCasStoreSavingCas ?a (getting_doc E R y) (r_cas R)]"
    using g s1(2) s2(2) s3(2) s4(2) by (simp_all add: refilling_def getting_def)
  have f: "db1 ?p = []" "current db2 ?c = Some (cx, lock)" "current db3 ?a = Some (ax, r_cas R)"
    using m c a by (simp_all add: db1_def db2_def db3_def)
  have "serves E pick d0 now (1 + (1 + (1 + (1 + 1)))) (db, s) = Some (db4, s5)"
    unfolding db4_def
    by (rule serves_then [OF serves_get [OF q(1) p(1) s1(1)]],
      rule serves_then [OF serves_store [where pick = pick, OF q(2) p(1) s2(1), folded db1_def]],
      rule serves_then [OF serves_new [where pick = pick and db = db1, OF q(3) f(1) s3(1), folded db2_def]],
      rule serves_then [OF serves_store [where pick = pick, OF q(4) f(2) s4(1), folded db3_def]],
      rule serves_lock [where pick = pick, OF q(5) f(3) s5(1)])
  moreover have "1 + (1 + (1 + (1 + 1))) = (5::nat)" by simp
  ultimately have "serves E pick d0 now 5 (db, s) = Some (db4, s5)" by metis
  moreover have "refilled E (R\<lparr>r_cas := pick db3 ?a\<rparr>) y z i pt ?ks db4"
    by (simp add: refilled_def db4_def db3_def db2_def db1_def getting_doc_def claimed_range_doc_def fill_of_def)
  ultimately show ?thesis using s5(2,3) by blast
qed

text \<open>The first key of the new page is unclaimed.\<close>

lemma first_key_of_new_page: "ks \<noteq> [] \<Longrightarrow> first_free_key uuid (page_of_keys 0 ks pt_empty) 0 (hd ks)"
  by (simp add: first_free_key_def taken_by_others_def entries_of_new_page claimant_def pt_get_default_def owners_of_new_page hd_conv_nth)


text \<open>The huge list: its document names page \<open>z\<close>; \<open>q\<close> pages from there on are full, and range \<open>i\<close> is the first unclaimed one of the next.\<close>

definition huge_list_has :: "'j funds_env \<Rightarrow> 'j db \<Rightarrow> string \<Rightarrow> int \<Rightarrow> nat \<Rightarrow> ptree \<Rightarrow> nat \<Rightarrow> string \<Rightarrow> bool" where
  "huge_list_has E db fill z q pt i r \<longleftrightarrow> 0 \<le> z \<and> z + int q < 2 ^ 31 \<and> (\<forall>j < q. full_range_page E db fill (z + int j))
     \<and> (\<exists>x xc xt. current db hugeBitcoinKeyListCurrentPageKey = Some (x, xc) \<and> read_json (funds_json E) x = Some xt
          \<and> pt_get JSON_HUGE_BITCOIN_KEY_LIST_CURRENT_PAGE_KEY xt = Some (show_int z))
     \<and> (\<exists>x xc. current db (hugeBitcoinKeyListPageKey (show_int (z + int q))) = Some (x, xc) \<and> read_json (funds_json E) x = Some pt
          \<and> first_free_range fill pt i r)"

lemma refills:
  assumes g: "getting E R y (TabGet (page_of R y)) s"
    and w: "app_WhatTheGetSavingCasWasFor s = GETBITCOINKEYSETNPAGEYANDIFITEXISTSLOOPAROUNDCHECKINGUUIDBUTIFNOTEXISTMAKEITEXIST"
    and m: "current db (page_of R y) = None" and h: "huge_list_has E db (fill_of R y) z q pt i r"
    and c: "current db (bitcoinKeySetCurrentPageKey (r_set R)) = Some (cx, m_BitcoinKeySetCurrentPageCAS s)"
    and a: "current db (userAccountKey (r_user R)) = Some (ax, r_cas R)"
  shows "\<exists>db' s' cas. serves E pick d0 now (8 + 2 * q) (db, s) = Some (db', s')
     \<and> refilled E (R\<lparr>r_cas := cas\<rparr>) y (show_int (z + int q)) i pt (split_at (CHR '','') r) db'
     \<and> getting E (R\<lparr>r_cas := cas\<rparr>) y (TabGet (page_of R y)) s' \<and> reads_page s'"
proof -
  from h obtain x xc xt px pc where x: "current db hugeBitcoinKeyListCurrentPageKey = Some (x, xc)" "read_json (funds_json E) x = Some xt"
      "pt_get JSON_HUGE_BITCOIN_KEY_LIST_CURRENT_PAGE_KEY xt = Some (show_int z)"
    and p: "current db (hugeBitcoinKeyListPageKey (show_int (z + int q))) = Some (px, pc)" "read_json (funds_json E) px = Some pt"
      "first_free_range (fill_of R y) pt i r"
    and z: "0 \<le> z" "z + int q < 2 ^ 31" "\<forall>j < q. full_range_page E db (fill_of R y) (z + int j)"
    unfolding huge_list_has_def by blast
  let ?c = "bitcoinKeySetCurrentPageKey (r_set R)"
  define db1 where "db1 = new_version ?c (lock_doc E R y (show_int z)) (pick db ?c) db"
  obtain s1 where s1: "serves E pick d0 now 3 (db, s) = Some (db1, s1)" "reads_huge_page s1"
      "refilling E R y (TabGet (hugeBitcoinKeyListPageKey (show_int z))) (show_int z) (pick db ?c) s1"
    using locks_the_set [OF g w m x c, of pick d0 now] unfolding db1_def by blast
  have "\<forall>j < q. full_range_page E db1 (fill_of R y) (z + int j)" using z(3) by (simp add: full_range_page_def db1_def)
  from walks_full_range_pages [OF s1(3,2) z(1,2) this, of pick d0 now] obtain db2 s2 where
      s2: "serves E pick d0 now (2 * q) (db1, s1) = Some (db2, s2)" "same_but_current db1 db2" "reads_huge_page s2"
      "refilling E R y (TabGet (hugeBitcoinKeyListPageKey (show_int (z + int q)))) (show_int (z + int q)) (pick db ?c) s2" by blast
  note same = same_but_current_simps [OF s2(2)]
  have p2: "current db2 (hugeBitcoinKeyListPageKey (show_int (z + int q))) = Some (px, pc)" using p(1) by (simp add: same db1_def)
  have m2: "db2 (page_of R y) = []" using m by (simp add: same db1_def current_none)
  have c2: "current db2 ?c = Some (lock_doc E R y (show_int z), pick db ?c)" by (simp add: same db1_def)
  have a2: "current db2 (userAccountKey (r_user R)) = Some (ax, r_cas R)" using a by (simp add: same db1_def)
  obtain db3 s3 cas where s3: "serves E pick d0 now 5 (db2, s2) = Some (db3, s3)"
      "refilled E (R\<lparr>r_cas := cas\<rparr>) y (show_int (z + int q)) i pt (split_at (CHR '','') r) db3"
      "getting E (R\<lparr>r_cas := cas\<rparr>) y (TabGet (page_of R y)) s3" "reads_page s3"
    using adds_the_page [OF s2(4,3) p2 p(2,3) m2 c2 a2, of pick d0 now] by blast
  have "serves E pick d0 now (3 + (2 * q + 5)) (db, s) = Some (db3, s3)"
    by (rule serves_then [OF s1(1) serves_then [OF s2(1) s3(1)]])
  moreover have "3 + (2 * q + 5) = 8 + 2 * q" by simp
  ultimately show ?thesis using s3(2-4) by metis
qed

text \<open>
  C7. A key set that is used up is refilled on the way. As before, but the page after the \<open>m\<close> full ones does not exist, and the huge list has an
  unclaimed range after \<open>q\<close> full pages. Then the request, after exactly \<open>m + 2 * q + 14\<close> answers, has claimed that range under the page's name, added
  the page with the range's keys, unlocked the key set with the new page as its current one, and the user has the first key of the range, claimed under
  the request's UUID.
\<close>

theorem a_used_up_key_set_is_refilled:
  assumes J: "json_ok (funds_json E)" and "may_get_key E now db s R y" "0 \<le> y" "y + int m < 2 ^ 31" "0 < m" "\<forall>j < m. full_page E db R (y + int j)"
    and "current db (page_of R (show_int (y + int m))) = None"
    and "huge_list_has E db (fill_of R (show_int (y + int m))) z q pt i r"
  shows "\<exists>s0 db' s'. tab_go E now ClickGetKey s = Some s0 \<and> serves E pick d0 now (m + 2 * q + 14) (db, s0) = Some (db', s')
     \<and> has_got E R (hd (split_at (CHR '','') r)) (db', s')
     \<and> map_option fst (current db' (hugeBitcoinKeyListPageKey (show_int (z + int q)))) = Some (claimed_range_doc E R (show_int (y + int m)) i pt)
     \<and> map_option fst (current db' (page_of R (show_int (y + int m))))
         = Some (claimed_doc E R 0 (page_of_keys 0 (split_at (CHR '','') r) pt_empty))
     \<and> map_option fst (current db' (bitcoinKeySetCurrentPageKey (r_set R))) = Some (unlocked_set_doc E (show_int (y + int m)))"
proof -
  let ?y = "show_int (y + int m)" and ?ks = "split_at (CHR '','') r"
  obtain s0 db1 s1 R1 cx where s1: "tab_go E now ClickGetKey s = Some s0" "serves E pick d0 now 3 (db, s0) = Some (db1, s1)"
      "R1 = R\<lparr>r_cas := pick db (userAccountKey (r_user R))\<rparr>"
      "getting E R1 (show_int y) (TabGet (page_of R (show_int y))) s1" "reads_page s1"
      "db1 = new_version (userAccountKey (r_user R)) (getting_doc E R (show_int y)) (r_cas R1) db"
      "current db (bitcoinKeySetCurrentPageKey (r_set R)) = Some (cx, m_BitcoinKeySetCurrentPageCAS s1)"
    using locks_the_account [OF assms(2), of pick d0] by blast
  have R1: "r_set R1 = r_set R" "r_user R1 = r_user R" "r_uuid R1 = r_uuid R" "r_tree R1 = r_tree R" "fill_of R1 = fill_of R"
    using s1(3) by (simp_all add: fill_of_def fun_eq_iff)
  have full: "\<forall>j < m. full_page E db1 R1 (y + int j)" using assms(6) by (simp add: full_page_def s1(6) R1)
  have "getting E R1 (show_int y) (TabGet (page_of R1 (show_int y))) s1" using s1(4) R1 by simp
  then obtain s2 where s2: "serves E pick d0 now m (db1, s1) = Some (db1, s2)" "getting E R1 ?y (TabGet (page_of R1 ?y)) s2"
      "app_WhatTheGetSavingCasWasFor s2 = GETBITCOINKEYSETNPAGEYANDIFITEXISTSLOOPAROUNDCHECKINGUUIDBUTIFNOTEXISTMAKEITEXIST"
      "m_BitcoinKeySetCurrentPageCAS s2 = m_BitcoinKeySetCurrentPageCAS s1"
    using walks_full_pages [OF _ s1(5) assms(3,4) full, of pick d0 now] assms(5) by blast
  have f: "current db1 (page_of R1 ?y) = None" "huge_list_has E db1 (fill_of R1 ?y) z q pt i r"
      "current db1 (bitcoinKeySetCurrentPageKey (r_set R1)) = Some (cx, m_BitcoinKeySetCurrentPageCAS s2)"
      "current db1 (userAccountKey (r_user R1)) = Some (getting_doc E R (show_int y), r_cas R1)"
    using assms(7,8) s1(7) s2(4) by (simp_all add: s1(6) R1 huge_list_has_def full_range_page_def)
  obtain db3 s3 cas where s3: "serves E pick d0 now (8 + 2 * q) (db1, s2) = Some (db3, s3)"
      "refilled E (R1\<lparr>r_cas := cas\<rparr>) ?y (show_int (z + int q)) i pt ?ks db3"
      "getting E (R1\<lparr>r_cas := cas\<rparr>) ?y (TabGet (page_of R1 ?y)) s3" "reads_page s3"
    using refills [OF s2(2,3) f, of pick d0 now] by blast
  define R2 where "R2 = R1\<lparr>r_cas := cas\<rparr>"
  have R2: "r_set R2 = r_set R" "r_user R2 = r_user R" "r_uuid R2 = r_uuid R" "r_tree R2 = r_tree R" "fill_of R2 = fill_of R"
    using R1 by (simp_all add: R2_def fill_of_def fun_eq_iff)
  from s3(2) obtain pc where p: "current db3 (page_of R2 ?y) = Some (page_doc E ?ks, pc)" and a: "current db3 (userAccountKey (r_user R2)) = Some (getting_doc E R2 ?y, r_cas R2)"
    unfolding refilled_def R2_def [symmetric] by auto
  have r: "read_json (funds_json E) (page_doc E ?ks) = Some (page_of_keys 0 ?ks pt_empty)" using J by (simp add: page_doc_def)
  have g: "getting E R2 ?y (TabGet (page_of R2 ?y)) s3" using s3(3) by (simp add: R2_def)
  obtain db' s' where s': "serves E pick d0 now 3 (db3, s3) = Some (db', s')" "has_got E R2 (hd ?ks) (db', s')"
      "map_option fst (current db' (page_of R2 ?y)) = Some (claimed_doc E R2 0 (page_of_keys 0 ?ks pt_empty))"
      "\<forall>k. k \<noteq> page_of R2 ?y \<longrightarrow> k \<noteq> userAccountKey (r_user R2) \<longrightarrow> current db' k = current db3 k"
    using takes_free_key [OF g s3(4) p r first_key_of_new_page [OF split_at_nonempty] a, of pick d0 now] by blast
  have "serves E pick d0 now (3 + (m + (8 + 2 * q + 3))) (db, s0) = Some (db', s')"
    by (rule serves_then [OF s1(2)], rule serves_then [OF s2(1) serves_then [OF s3(1) s'(1)]])
  moreover have "3 + (m + (8 + 2 * q + 3)) = m + 2 * q + 14" by simp
  ultimately have run: "serves E pick d0 now (m + 2 * q + 14) (db, s0) = Some (db', s')" by metis
  have "has_got E R (hd ?ks) (db', s')" "claimed_doc E R2 0 = claimed_doc E R 0" "claimed_range_doc E R2 = claimed_range_doc E R"
    using s'(2) by (simp_all add: has_got_def have_doc_def claimed_doc_def claimed_range_doc_def R2 fun_eq_iff)
  moreover have "map_option fst (current db' (hugeBitcoinKeyListPageKey (show_int (z + int q)))) = Some (claimed_range_doc E R2 ?y i pt)"
      "map_option fst (current db' (bitcoinKeySetCurrentPageKey (r_set R))) = Some (unlocked_set_doc E ?y)"
    using s3(2) s'(4) by (simp_all add: refilled_def R2 flip: R2_def)
  ultimately show ?thesis using s1(1) run s'(3) R2(1) by auto
qed


theorem a_used_up_key_set_is_refilled_witness:
  "\<exists>s0 db' s'. tab_go payer_env 100 ClickGetKey asker_tab = Some s0
     \<and> serves payer_env (\<lambda>db k. 2) pt_empty 100 15 (asker_db False, s0) = Some (db', s') \<and> has_got payer_env asker_request ''1Key'' (db', s')
     \<and> map_option fst (current db' (bitcoinKeySetCurrentPageKey (show_int 7))) = Some (unlocked_set_doc payer_env (show_int 1))"
proof -
  let ?t = "plain_doc [(range_field 0, ''1Key,1Other'')]" and ?l = "plain_doc [(JSON_HUGE_BITCOIN_KEY_LIST_CURRENT_PAGE_KEY, show_int 0)]"
  have "current (asker_db False) (page_of asker_request (show_int (0 + int 1))) = None"
    by (simp add: asker_db_def current_def page_key_names)
  moreover have "first_free_range f ?t 0 ''1Key,1Other''" for f
    using range_book.entry_not_owner [of 0 0, symmetric]
    by (simp add: first_free_range_def ranges_taken_def claimant_def pt_get_default_def)
  moreover have "current (asker_db False) hugeBitcoinKeyListCurrentPageKey = Some (?l, 1)"
      "current (asker_db False) (hugeBitcoinKeyListPageKey (show_int (0 + int 0))) = Some (?t, 1)"
    by (simp_all add: asker_db_def current_def page_key_names)
  moreover have "read_json (funds_json payer_env) t = Some t" for t by (simp add: payer_env_def)
  ultimately have "huge_list_has payer_env (asker_db False) f 0 0 ?t 0 ''1Key,1Other''" for f
    unfolding huge_list_has_def by simp
  moreover have "\<forall>j < 1. full_page payer_env (asker_db False) asker_request (0 + int j)" using asker_full_page by simp
  moreover have "json_ok (funds_json payer_env)" by (simp add: payer_env_def tree_json_ok)
  moreover have "hd (split_at (CHR '','') ''1Key,1Other'') = ''1Key''" by simp
  ultimately show ?thesis using \<open>current (asker_db False) (page_of asker_request (show_int (0 + int 1))) = None\<close>
    a_used_up_key_set_is_refilled [OF _ asker_may, of 1 False 0 0 ?t 0 "''1Key,1Other''" "\<lambda>db k. 2" pt_empty] by auto
qed

end
