(* ===== verification/AddFundsRecovery.thy ===== *)
theory AddFundsRecovery
  imports AddFundsRefill
begin

section \<open>A recovered request can claim a second key\<close>

text \<open>
  A request that was interrupted is taken up again with the page that the account document records, because that page may show a key claimed
  under the request's UUID already. When the document of the key set is locked for filling a next page, the step that reads it replaces
  the recorded page by the one being filled, and the recorded one is never looked at. The steps of such a run, executed as in
  \<open>AddFundsRefill\<close>, from the tab's first display to the second key.
\<close>

subsection \<open>The steps of a recovery\<close>

definition recovering :: "'j funds_env \<Rightarrow> 'j key_request \<Rightarrow> string \<Rightarrow> 'j tab_request \<Rightarrow> 'j funds \<Rightarrow> bool" where
  "recovering E R y r s \<longleftrightarrow> app_CurrentlyLoggedInUsername s = r_user R \<and> m_BitcoinKeySetIndex_aka_setN s = r_set R
     \<and> m_PerGetBitcoinKeyUUID s = r_uuid R \<and> m_UserAccountJsonForLockingIntoGettingBitcoinKey s = r_account R
     \<and> read_json (funds_json E) (r_account R) = Some (r_tree R)
     \<and> m_UserAccountCASforBitcoinGettingKeyLockingAndUnlocking s = r_cas R
     \<and> m_UserAccountBitcoinDoingGettingKeyRecoverySoAccountLocked s \<and> \<not> m_HaveBitcoinKeyPlaceholder s
     \<and> m_BitcoinKeySetPage_aka_PageY s = y \<and> tab_pending s = [r] \<and> app_DeferCount s = 2"

text \<open>The account records the request \<open>R\<close> with page \<open>y\<close>.\<close>

definition left_request :: "'j funds_env \<Rightarrow> 'j db \<Rightarrow> 'j key_request \<Rightarrow> string \<Rightarrow> bool" where
  "left_request E db R y \<longleftrightarrow> current db (userAccountKey (r_user R)) = Some (r_account R, r_cas R)
     \<and> read_json (funds_json E) (r_account R) = Some (r_tree R) \<and> \<not> profileIsLocked (r_tree R)
     \<and> pt_get JSON_USER_ACCOUNT_BITCOIN_STATE (r_tree R) = Some JSON_USER_ACCOUNT_BITCOIN_STATE_GETTING_KEY
     \<and> pt_get JSON_USER_ACCOUNT_BITCOIN_STATE_DATA (r_tree R) = Some (r_set R)
     \<and> pt_get JSON_USER_ACCOUNT_BITCOIN_SET_PAGE (r_tree R) = Some y
     \<and> pt_get JSON_USER_ACCOUNT_BITCOIN_GET_KEY_UUID (r_tree R) = Some (r_uuid R)"

text \<open>The key set's document is locked for filling page \<open>y\<close>, from page \<open>z\<close> of the huge list on.\<close>

definition set_is_filling :: "'j funds_env \<Rightarrow> 'j db \<Rightarrow> 'j key_request \<Rightarrow> string \<Rightarrow> string \<Rightarrow> cas \<Rightarrow> bool" where
  "set_is_filling E db R y z lock \<longleftrightarrow> (\<exists>x pt. current db (bitcoinKeySetCurrentPageKey (r_set R)) = Some (x, lock)
     \<and> read_json (funds_json E) x = Some pt \<and> pt_get JSON_BITCOIN_KEY_SET_LOCKED_FILLING_NEXT_PAGE pt = Some y \<and> y \<noteq> ''n''
     \<and> pt_get JSON_BITCOIN_KEY_SET_FILLING_UUID_PER_FILL pt = Some (fill_of R y)
     \<and> pt_get JSON_BITCOIN_KEY_SET_FILLING_START_LOOKING_ON_PAGE pt = Some z)"

definition filling :: "'j funds_env \<Rightarrow> 'j key_request \<Rightarrow> string \<Rightarrow> 'j tab_request \<Rightarrow> string \<Rightarrow> cas \<Rightarrow> 'j funds \<Rightarrow> bool" where
  "filling E R y r z lock s \<longleftrightarrow> recovering E R y r s \<and> m_FillingNextBitcoinKeySetPerFillUuid s = fill_of R y
     \<and> m_FillingNextStartingFromPageZ s = z \<and> m_BitcoinKeySetCurrentPageCAS s = lock"

lemmas recovery_ops = tab_go_def prepared_def tab_ops andthen_def prog_run Let_def key_mode_def recovering_def filling_def fill_of_def

lemma recover_account:
  assumes "tab_pending s = [TabGet u]" "app_DeferCount s = 2" "\<not> m_HaveBitcoinKeyPlaceholder s"
    and "app_WhatTheGetSavingCasWasFor s = DETERMINEBITCOINSTATEBUTDONTLETTHEMPROCEEDIFLOCKED"
    and "left_request E db R y" "app_CurrentlyLoggedInUsername s = r_user R"
  shows "\<exists>s'. tab_go E now (AnswerGet (r_account R) (r_cas R) True False) s = Some s'
    \<and> recovering E R y (TabGet (bitcoinKeySetCurrentPageKey (r_set R))) s'
    \<and> app_WhatTheGetSavingCasWasFor s' = GETBITCOINKEYSETNCURRENTPAGETOSEEWHATPAGEITISONANDIFITISLOCKED"
  using assms by (simp add: recovery_ops left_request_def tab_get_finished_def determineBitcoinStateButDontLetThemProceedForwardIfLocked_def
      checkNotAttemptingToFillAkaPurchaseSlotThenTransitionIntoGettingBitcoinKeyState_def take_up_old_request_def)

lemma recover_locked_set:
  assumes "recovering E R y (TabGet k) s" "app_WhatTheGetSavingCasWasFor s = GETBITCOINKEYSETNCURRENTPAGETOSEEWHATPAGEITISONANDIFITISLOCKED"
    and "read_json (funds_json E) x = Some pt" "pt_get JSON_BITCOIN_KEY_SET_LOCKED_FILLING_NEXT_PAGE pt = Some y'" "y' \<noteq> ''n''"
      "pt_get JSON_BITCOIN_KEY_SET_FILLING_UUID_PER_FILL pt = Some (fill_of R y')"
      "pt_get JSON_BITCOIN_KEY_SET_FILLING_START_LOOKING_ON_PAGE pt = Some z"
  shows "\<exists>s'. tab_go E now (AnswerGet x lock True False) s = Some s'
    \<and> filling E R y' (TabGet (hugeBitcoinKeyListPageKey z)) z lock s' \<and> reads_huge_page s'"
  using assms by (simp add: recovery_ops tab_get_finished_def reads_huge_page_def pt_get_default_def
      analyzeBitcoinKeySetN_CurrentPageDocToSeeWhatPageItIsOnAndIfItIsLocked_def
      bitcoinKeySetN_currentPage_Locked_soDoKeyRangeClaimAndNextPageCreation_def)

lemma recover_free_range:
  assumes "filling E R y (TabGet k) z lock s" "reads_huge_page s" "read_json (funds_json E) x = Some pt" "first_free_range (fill_of R y) pt i r"
  shows "\<exists>s'. tab_go E now (AnswerGet x xc True False) s = Some s'
    \<and> filling E R y (TabCasStore (hugeBitcoinKeyListPageKey z) (claimed_range_doc E R y i pt) xc) z lock s'
    \<and> app_WhatTheStoreWithInputCasWasFor s' = HUGEBITCOINKEYLISTKEYRANGECLAIMATTEMPT
    \<and> m_BitcoinKeysVectorToUseForNextPageFill s' = split_at (CHR '','') r"
  using assms(1-3) by (simp add: tab_go_def prepared_def tab_ops andthen_def prog_run Let_def recovering_def filling_def
      reads_huge_page_def tab_get_finished_def getHugeBitcoinKeyListActualPageAttemptCompleted_def after_range_scan_def
      claimed_range_doc_def scan_free_range [OF assms(4)])

lemma recover_range_claimed:
  assumes "filling E R y (TabCasStore k d c) z lock s" "app_WhatTheStoreWithInputCasWasFor s = HUGEBITCOINKEYLISTKEYRANGECLAIMATTEMPT"
    and "m_BitcoinKeysVectorToUseForNextPageFill s = ks"
  shows "\<exists>s'. tab_go E now (AnswerCasStore True False) s = Some s' \<and> filling E R y (TabAdd (page_of R y) (page_doc E ks)) z lock s'
    \<and> app_WhatTheStoreWithoutInputCasWasFor s' = BITCOINKEYSETNPAGEYCREATIONVIALCBADD"
  using assms by (simp add: recovery_ops tab_cas_store_finished_def doneAttemptingHugeBitcoinKeyListKeyRangeClaim_def
      uuidPerRefillIsSeenOnHugeBitcoinListSoProceedWithActualNextPageFill_def page_doc_def)

lemma recover_page_added:
  assumes "filling E R y (TabAdd k d) z lock s" "app_WhatTheStoreWithoutInputCasWasFor s = BITCOINKEYSETNPAGEYCREATIONVIALCBADD"
  shows "\<exists>s'. tab_go E now (AnswerAdd True False) s = Some s'
    \<and> filling E R y (TabCasStore (bitcoinKeySetCurrentPageKey (r_set R)) (unlocked_set_doc E y) lock) z lock s'
    \<and> app_WhatTheStoreWithInputCasWasFor s' = SAFELYUNLOCKBITCOINKEYSETNCURRENTPAGEDOCFAILINGTOLERABLY"
  using assms by (simp add: recovery_ops tab_add_finished_def doneAttemptingBitcoinKeySetNnextPageYcreation_def unlocked_set_doc_def)

lemma recover_set_unlocked:
  assumes "filling E R y (TabCasStore k d c) z lock s"
    and "app_WhatTheStoreWithInputCasWasFor s = SAFELYUNLOCKBITCOINKEYSETNCURRENTPAGEDOCFAILINGTOLERABLY"
  shows "\<exists>s'. tab_go E now (AnswerCasStore True False) s = Some s' \<and> recovering E R y (TabGet (page_of R y)) s' \<and> reads_page s'"
  using assms by (simp add: recovery_ops tab_cas_store_finished_def doneAttemptingToUnlockBitcoinKeySetN_CurrentPage_def
      proceedToBitcoinKeySetNgettingAfterLockingUserAccount_UnlessUserAccountAlreadyLocked_def
      userAccountBitcoinGettingKeyLocked_So_GetSavingCASbitcoinKeySetNPageY_def reads_page_def)

lemma recover_free_key:
  assumes "recovering E R y (TabGet k) s" "reads_page s" "read_json (funds_json E) x = Some pt" "first_free_key (r_uuid R) pt i key"
  shows "\<exists>s'. tab_go E now (AnswerGet x xc True False) s = Some s' \<and> m_BitcoinKeyToGiveToUser s' = key
    \<and> recovering E R y (TabCasStore (page_of R y) (claimed_doc E R i pt) xc) s'
    \<and> app_WhatTheStoreWithInputCasWasFor s' = CLAIMBITCOINKEYONBITCOINKEYSETVIACASSWAP"
proof -
  have "tab_pending s = [TabGet k]" using assms(1) by (simp add: recovering_def)
  then show ?thesis using assms(1,3)
    by (simp add: scan_free [OF assms(4)] read_page [OF assms(2)] prepared_def tab_ops andthen_def prog_run Let_def recovering_def
        gotBitcoinKeySetNpageYSoAnalyzeItForUUIDandEnoughRoomEtc_def after_key_scan_def claimed_doc_def)
qed

lemma recover_claimed:
  assumes "recovering E R y (TabCasStore k d c) s" "app_WhatTheStoreWithInputCasWasFor s = CLAIMBITCOINKEYONBITCOINKEYSETVIACASSWAP"
    and "m_BitcoinKeyToGiveToUser s = key"
  shows "\<exists>s'. tab_go E now (AnswerCasStore True False) s = Some s' \<and> m_BitcoinKeyToGiveToUser s' = key
    \<and> recovering E R y (TabCasStore (userAccountKey (r_user R)) (have_doc E R key) (r_cas R)) s'
    \<and> app_WhatTheStoreWithInputCasWasFor s' = UNLOCKUSERACCOUNTFROMBITCOINGETTINGKEYTOBITCOINHAVEKEY"
  using assms by (simp add: recovery_ops tab_cas_store_finished_def doneAttemptingToUpdateBitcoinKeySetViaCASswapAkaClaimingAKey_def have_doc_def
      unlockUserAccountSafelyFromBitcoinGettingKeyBecauseWeGotAKey_def)

lemma recover_unlocked:
  assumes "recovering E R y (TabCasStore k d c) s" "app_WhatTheStoreWithInputCasWasFor s = UNLOCKUSERACCOUNTFROMBITCOINGETTINGKEYTOBITCOINHAVEKEY"
    and "m_BitcoinKeyToGiveToUser s = key"
  shows "\<exists>s'. tab_go E now (AnswerCasStore True False) s = Some s' \<and> m_HaveBitcoinKeyPlaceholder s'
    \<and> m_CurrentBitcoinKeyForPayments s' = key \<and> tab_pending s' = [] \<and> app_DeferCount s' = 0"
  using assms by (simp add: recovery_ops tab_cas_store_finished_def doneAttemptingToUnlockUserAccountFromBitcoinGettingKeyToBitcoinHaveKey_def
      changeToHaveBitcoinKeyMode_def)

subsection \<open>The run\<close>

lemma recovery_fills:
  assumes g: "filling E R y (TabGet (hugeBitcoinKeyListPageKey z)) z lock s" "reads_huge_page s"
    and p: "current db (hugeBitcoinKeyListPageKey z) = Some (x, xc)" "read_json (funds_json E) x = Some pt" "first_free_range (fill_of R y) pt i r"
    and m: "db (page_of R y) = []" and c: "current db (bitcoinKeySetCurrentPageKey (r_set R)) = Some (cx, lock)"
  shows "\<exists>db' s'. serves E pick d0 now 4 (db, s) = Some (db', s') \<and> recovering E R y (TabGet (page_of R y)) s' \<and> reads_page s'
     \<and> map_option fst (current db' (page_of R y)) = Some (page_doc E (split_at (CHR '','') r))
     \<and> (\<forall>k. k \<notin> {hugeBitcoinKeyListPageKey z, page_of R y, bitcoinKeySetCurrentPageKey (r_set R)} \<longrightarrow> db' k = db k)"
proof -
  let ?h = "hugeBitcoinKeyListPageKey z" and ?p = "page_of R y" and ?c = "bitcoinKeySetCurrentPageKey (r_set R)"
  let ?ks = "split_at (CHR '','') r"
  obtain s1 where s1: "tab_go E now (AnswerGet x xc True False) s = Some s1"
      "filling E R y (TabCasStore ?h (claimed_range_doc E R y i pt) xc) z lock s1"
      "app_WhatTheStoreWithInputCasWasFor s1 = HUGEBITCOINKEYLISTKEYRANGECLAIMATTEMPT" "m_BitcoinKeysVectorToUseForNextPageFill s1 = ?ks"
    using recover_free_range [OF g p(2,3)] by blast
  define db1 where "db1 = new_version ?h (claimed_range_doc E R y i pt) (pick db ?h) db"
  obtain s2 where s2: "tab_go E now (AnswerCasStore True False) s1 = Some s2" "filling E R y (TabAdd ?p (page_doc E ?ks)) z lock s2"
      "app_WhatTheStoreWithoutInputCasWasFor s2 = BITCOINKEYSETNPAGEYCREATIONVIALCBADD"
    using recover_range_claimed [OF s1(2-4)] by blast
  define db2 where "db2 = new_version ?p (page_doc E ?ks) (pick db1 ?p) db1"
  obtain s3 where s3: "tab_go E now (AnswerAdd True False) s2 = Some s3" "filling E R y (TabCasStore ?c (unlocked_set_doc E y) lock) z lock s3"
      "app_WhatTheStoreWithInputCasWasFor s3 = SAFELYUNLOCKBITCOINKEYSETNCURRENTPAGEDOCFAILINGTOLERABLY"
    using recover_page_added [OF s2(2,3)] by blast
  define db3 where "db3 = new_version ?c (unlocked_set_doc E y) (pick db2 ?c) db2"
  obtain s4 where s4: "tab_go E now (AnswerCasStore True False) s3 = Some s4" "recovering E R y (TabGet ?p) s4" "reads_page s4"
    using recover_set_unlocked [OF s3(2,3)] by blast
  have q: "tab_pending s = [TabGet ?h]" "tab_pending s1 = [TabCasStore ?h (claimed_range_doc E R y i pt) xc]"
      "tab_pending s2 = [TabAdd ?p (page_doc E ?ks)]" "tab_pending s3 = [TabCasStore ?c (unlocked_set_doc E y) lock]"
    using g s1(2) s2(2) s3(2) by (simp_all add: filling_def recovering_def)
  have f: "db1 ?p = []" "current db2 ?c = Some (cx, lock)" using m c by (simp_all add: db1_def db2_def)
  have "serves E pick d0 now (1 + (1 + (1 + 1))) (db, s) = Some (db3, s4)"
    unfolding db3_def
    by (rule serves_then [OF serves_get [OF q(1) p(1) s1(1)]],
      rule serves_then [OF serves_store [where pick = pick, OF q(2) p(1) s2(1), folded db1_def]],
      rule serves_then [OF serves_new [where pick = pick and db = db1, OF q(3) f(1) s3(1), folded db2_def]],
      rule serves_store [where pick = pick, OF q(4) f(2) s4(1)])
  moreover have "1 + (1 + (1 + 1)) = (4::nat)" by simp
  ultimately have "serves E pick d0 now 4 (db, s) = Some (db3, s4)" by metis
  moreover have "map_option fst (current db3 ?p) = Some (page_doc E ?ks)" by (simp add: db3_def db2_def)
  moreover have "\<forall>k. k \<notin> {?h, ?p, ?c} \<longrightarrow> db3 k = db k" by (simp add: db3_def db2_def db1_def)
  ultimately show ?thesis using s4(2,3) by blast
qed

lemma recovery_takes_key:
  assumes g: "recovering E R y (TabGet (page_of R y)) s" "reads_page s" and p: "current db (page_of R y) = Some (x, xc)"
    and x: "read_json (funds_json E) x = Some pt" "first_free_key (r_uuid R) pt i key"
    and a: "current db (userAccountKey (r_user R)) = Some (a, r_cas R)"
  shows "\<exists>db' s'. serves E pick d0 now 3 (db, s) = Some (db', s') \<and> has_got E R key (db', s')
    \<and> map_option fst (current db' (page_of R y)) = Some (claimed_doc E R i pt)
    \<and> (\<forall>k. k \<notin> {page_of R y, userAccountKey (r_user R)} \<longrightarrow> db' k = db k)"
proof -
  let ?p = "page_of R y" and ?a = "userAccountKey (r_user R)"
  obtain s1 where s1: "tab_go E now (AnswerGet x xc True False) s = Some s1" "m_BitcoinKeyToGiveToUser s1 = key"
      "recovering E R y (TabCasStore ?p (claimed_doc E R i pt) xc) s1" "app_WhatTheStoreWithInputCasWasFor s1 = CLAIMBITCOINKEYONBITCOINKEYSETVIACASSWAP"
    using recover_free_key [OF g x] by blast
  define db1 where "db1 = new_version ?p (claimed_doc E R i pt) (pick db ?p) db"
  obtain s2 where s2: "tab_go E now (AnswerCasStore True False) s1 = Some s2" "m_BitcoinKeyToGiveToUser s2 = key"
      "recovering E R y (TabCasStore ?a (have_doc E R key) (r_cas R)) s2"
      "app_WhatTheStoreWithInputCasWasFor s2 = UNLOCKUSERACCOUNTFROMBITCOINGETTINGKEYTOBITCOINHAVEKEY"
    using recover_claimed [OF s1(3,4,2)] by blast
  define db2 where "db2 = new_version ?a (have_doc E R key) (pick db1 ?a) db1"
  obtain s3 where s3: "tab_go E now (AnswerCasStore True False) s2 = Some s3" "m_HaveBitcoinKeyPlaceholder s3"
      "m_CurrentBitcoinKeyForPayments s3 = key" "tab_pending s3 = []" "app_DeferCount s3 = 0"
    using recover_unlocked [OF s2(3,4,2)] by blast
  have q: "tab_pending s = [TabGet ?p]" "tab_pending s1 = [TabCasStore ?p (claimed_doc E R i pt) xc]"
      "tab_pending s2 = [TabCasStore ?a (have_doc E R key) (r_cas R)]"
    using g(1) s1(3) s2(3) by (simp_all add: recovering_def)
  have f: "current db1 ?a = Some (a, r_cas R)" using a by (simp add: db1_def)
  have "serves E pick d0 now (1 + (1 + 1)) (db, s) = Some (db2, s3)"
    unfolding db2_def
    by (rule serves_then [OF serves_get [OF q(1) p s1(1)]],
      rule serves_then [OF serves_store [where pick = pick, OF q(2) p s2(1), folded db1_def]],
      rule serves_store [where pick = pick, OF q(3) f s3(1)])
  moreover have "1 + (1 + 1) = (3::nat)" by simp
  ultimately have "serves E pick d0 now 3 (db, s) = Some (db2, s3)" by metis
  moreover have "has_got E R key (db2, s3)" using s3(2-5) by (simp add: has_got_def db2_def)
  moreover have "map_option fst (current db2 ?p) = Some (claimed_doc E R i pt)" by (simp add: db2_def db1_def)
  moreover have "\<forall>k. k \<notin> {?p, ?a} \<longrightarrow> db2 k = db k" by (simp add: db2_def db1_def)
  ultimately show ?thesis by blast
qed

text \<open>The tab, opened by a user with an interrupted request, reads the account and the document of the key set.\<close>

lemma recovery_starts:
  assumes "new_tab s" "app_CurrentlyLoggedInUsername s = r_user R" "left_request E db R y" "set_is_filling E db R y' z lock"
  shows "\<exists>s0 s'. tab_go E now ShowTab s = Some s0 \<and> serves E pick d0 now 2 (db, s0) = Some (db, s')
    \<and> filling E R y' (TabGet (hugeBitcoinKeyListPageKey z)) z lock s' \<and> reads_huge_page s'"
proof -
  obtain s0 where s0: "tab_go E now ShowTab s = Some s0" "tab_pending s0 = [TabGet (userAccountKey (r_user R))]" "app_DeferCount s0 = 2"
      "\<not> m_HaveBitcoinKeyPlaceholder s0" "app_WhatTheGetSavingCasWasFor s0 = DETERMINEBITCOINSTATEBUTDONTLETTHEMPROCEEDIFLOCKED"
      "app_CurrentlyLoggedInUsername s0 = r_user R"
    using go_shown [OF assms(1), of "userAccountKey (r_user R)" E now] assms(2) by auto
  obtain s1 where s1: "tab_go E now (AnswerGet (r_account R) (r_cas R) True False) s0 = Some s1"
      "recovering E R y (TabGet (bitcoinKeySetCurrentPageKey (r_set R))) s1"
      "app_WhatTheGetSavingCasWasFor s1 = GETBITCOINKEYSETNCURRENTPAGETOSEEWHATPAGEITISONANDIFITISLOCKED"
    using recover_account [OF s0(2-5) assms(3) s0(6)] by blast
  from assms(4) obtain x pt where f: "current db (bitcoinKeySetCurrentPageKey (r_set R)) = Some (x, lock)"
      "read_json (funds_json E) x = Some pt" "pt_get JSON_BITCOIN_KEY_SET_LOCKED_FILLING_NEXT_PAGE pt = Some y'" "y' \<noteq> ''n''"
      "pt_get JSON_BITCOIN_KEY_SET_FILLING_UUID_PER_FILL pt = Some (fill_of R y')"
      "pt_get JSON_BITCOIN_KEY_SET_FILLING_START_LOOKING_ON_PAGE pt = Some z"
    unfolding set_is_filling_def by blast
  obtain s2 where s2: "tab_go E now (AnswerGet x lock True False) s1 = Some s2"
      "filling E R y' (TabGet (hugeBitcoinKeyListPageKey z)) z lock s2" "reads_huge_page s2"
    using recover_locked_set [OF s1(2,3) f(2-6)] by blast
  have a: "current db (userAccountKey (r_user R)) = Some (r_account R, r_cas R)" using assms(3) by (simp add: left_request_def)
  have q: "tab_pending s1 = [TabGet (bitcoinKeySetCurrentPageKey (r_set R))]" using s1(2) by (simp add: recovering_def)
  have "serves E pick d0 now (1 + 1) (db, s0) = Some (db, s2)"
    by (rule serves_then [OF serves_get [OF s0(2) a s1(1)] serves_get [OF q f(1) s2(1)]])
  then show ?thesis using s0(1) s2(2,3) by (metis one_add_one)
qed

text \<open>
  C35. A recovered request can get a second key. Suppose a user's account records an interrupted request with page \<open>y\<close>, page \<open>y\<close> shows a key claimed
  under the request's UUID, and the document of the key set is locked for filling a page \<open>y'\<close> that does not exist yet, from a page of
  the huge list with an unclaimed range. When the user opens the tab, then after exactly nine answers the user has the first key of that range, claimed
  under the same UUID on page \<open>y'\<close>, and the key on page \<open>y\<close> is still claimed under it too: one request has claimed two keys, and what the
  account shows is the second one.
\<close>

theorem recovery_claims_a_second_key:
  assumes J: "json_ok (funds_json E)" and s: "new_tab s" "app_CurrentlyLoggedInUsername s = r_user R" and l: "left_request E db R y"
    and k: "shows_key E db (page_of R y) j (r_uuid R) key" and f: "set_is_filling E db R y' z lock" "db (page_of R y') = []"
    and h: "current db (hugeBitcoinKeyListPageKey z) = Some (x, xc)" "read_json (funds_json E) x = Some pt" "first_free_range (fill_of R y') pt i r"
  shows "\<exists>s0 db' s'. tab_go E now ShowTab s = Some s0 \<and> serves E pick d0 now 9 (db, s0) = Some (db', s')
    \<and> has_got E R (hd (split_at (CHR '','') r)) (db', s') \<and> page_of R y' \<noteq> page_of R y
    \<and> shows_key E db' (page_of R y') 0 (r_uuid R) (hd (split_at (CHR '','') r)) \<and> shows_key E db' (page_of R y) j (r_uuid R) key"
proof -
  let ?ks = "split_at (CHR '','') r" and ?p = "page_of R y'" and ?a = "userAccountKey (r_user R)"
  let ?t = "page_of_keys 0 ?ks pt_empty"
  from k have n: "r_uuid R \<noteq> ''n''" "db (page_of R y) \<noteq> []" by (auto simp: shows_key_def shows_claim_def claimant_def Let_def split: if_splits)
  obtain s0 s1 where s1: "tab_go E now ShowTab s = Some s0" "serves E pick d0 now 2 (db, s0) = Some (db, s1)"
      "filling E R y' (TabGet (hugeBitcoinKeyListPageKey z)) z lock s1" "reads_huge_page s1"
    using recovery_starts [OF s l f(1)] by blast
  obtain cx where c: "current db (bitcoinKeySetCurrentPageKey (r_set R)) = Some (cx, lock)" using f(1) unfolding set_is_filling_def by blast
  obtain db2 s2 where s2: "serves E pick d0 now 4 (db, s1) = Some (db2, s2)" "recovering E R y' (TabGet ?p) s2" "reads_page s2"
      "map_option fst (current db2 ?p) = Some (page_doc E ?ks)"
      "\<forall>k. k \<notin> {hugeBitcoinKeyListPageKey z, ?p, bitcoinKeySetCurrentPageKey (r_set R)} \<longrightarrow> db2 k = db k"
    using recovery_fills [OF s1(3,4) h f(2) c] by blast
  then obtain pc where p: "current db2 ?p = Some (page_doc E ?ks, pc)" by auto
  have t: "read_json (funds_json E) (page_doc E ?ks) = Some ?t" using J by (simp add: page_doc_def)
  have "db2 ?a = db ?a" using s2(5) by simp
  then have a: "current db2 ?a = Some (r_account R, r_cas R)" using l by (simp add: left_request_def current_def)
  obtain db3 s3 where s3: "serves E pick d0 now 3 (db2, s2) = Some (db3, s3)" "has_got E R (hd ?ks) (db3, s3)"
      "map_option fst (current db3 ?p) = Some (claimed_doc E R 0 ?t)" "\<forall>k. k \<notin> {?p, ?a} \<longrightarrow> db3 k = db2 k"
    using recovery_takes_key [OF s2(2,3) p t first_key_of_new_page [OF split_at_nonempty] a] by blast
  have "serves E pick d0 now (2 + (4 + 3)) (db, s0) = Some (db3, s3)"
    by (rule serves_then [OF s1(2) serves_then [OF s2(1) s3(1)]])
  then have run: "serves E pick d0 now 9 (db, s0) = Some (db3, s3)" by (simp only: numeral_plus_numeral add_num_simps)
  have other: "page_of R y' \<noteq> page_of R y" using n(2) f(2) by auto
  then have "db3 (page_of R y) = db (page_of R y)" using s2(5) s3(4) by simp
  then have old: "shows_key E db3 (page_of R y) j (r_uuid R) key" using k by (simp add: shows_key_def)
  obtain v where v: "current db3 ?p = Some v" "fst v = claimed_doc E R 0 ?t" using s3(3) by auto
  then have d: "db3 ?p = (claimed_doc E R 0 ?t, snd v) # tl (db3 ?p)"
    by (auto simp: current_def split: list.splits)
  have e: "pt_get (key_field 0) (claim_key (r_uuid R) (r_user R) 0 ?t) = Some (hd ?ks)"
    using username_field_apart(2) [of 0 0, symmetric] key_book.entry_not_owner [of 0 0]
    by (simp add: claim_key_def entries_of_new_page hd_conv_nth)
  have u: "pt_get_default (key_uuid_field 0) ''n'' (claim_key (r_uuid R) (r_user R) 0 ?t) = r_uuid R"
    using username_field_apart(1) [of 0 0, symmetric] by (simp add: claim_key_def pt_get_default_def)
  have "shows_key E db3 ?p 0 (r_uuid R) (hd ?ks)"
    unfolding shows_key_def by (subst d) (use key_book.claim_succeeded [OF _ u n(1) e] in \<open>simp add: claimed_doc_def\<close>)
  then show ?thesis using s1(1) run s3(2) other old by blast
qed

text \<open>A user whose request claimed the key \<open>1Key\<close> on page \<open>0\<close>, while page \<open>1\<close> is being filled.\<close>

definition left_tree :: ptree where
  "left_tree = plain_doc [(JSON_USER_ACCOUNT_BITCOIN_STATE, JSON_USER_ACCOUNT_BITCOIN_STATE_GETTING_KEY),
     (JSON_USER_ACCOUNT_BITCOIN_STATE_DATA, ''7''), (JSON_USER_ACCOUNT_BITCOIN_SET_PAGE, ''0''),
     (JSON_USER_ACCOUNT_BITCOIN_GET_KEY_UUID, ''uuid'')]"

definition left_page :: ptree where
  "left_page = pt_put (key_uuid_field 0) ''uuid'' (pt_put (key_field 0) ''1Key'' pt_empty)"

definition left_lock :: ptree where
  "left_lock = plain_doc [(JSON_BITCOIN_KEY_SET_LOCKED_FILLING_NEXT_PAGE, ''1''), (JSON_BITCOIN_KEY_SET_FILLING_UUID_PER_FILL, ''7_1''),
     (JSON_BITCOIN_KEY_SET_FILLING_START_LOOKING_ON_PAGE, ''0'')]"

definition left_ranges :: ptree where
  "left_ranges = pt_put (range_field 0) ''2Key,2Other'' pt_empty"

definition left_db :: "ptree db" where
  "left_db k = (if k = userAccountKey ''joe'' then [(left_tree, 1)]
     else if k = bitcoinKeySetCurrentPageKey ''7'' then [(left_lock, 1)]
     else if k = bitcoinKeySetPageKey ''7'' ''0'' then [(left_page, 1)]
     else if k = hugeBitcoinKeyListPageKey ''0'' then [(left_ranges, 1)]
     else [])"

definition left_key_request :: "ptree key_request" where
  "left_key_request = \<lparr>r_user = ''joe'', r_set = ''7'', r_uuid = ''uuid'', r_account = left_tree, r_tree = left_tree, r_cas = 1\<rparr>"

theorem recovery_claims_a_second_key_witness:
  "\<exists>s0 db' s'. tab_go payer_env 100 ShowTab payer_tab = Some s0 \<and> serves payer_env (\<lambda>db k. 2) pt_empty 100 9 (left_db, s0) = Some (db', s')
    \<and> m_CurrentBitcoinKeyForPayments s' = ''2Key'' \<and> shows_key payer_env db' (bitcoinKeySetPageKey ''7'' ''1'') 0 ''uuid'' ''2Key''
    \<and> shows_key payer_env db' (bitcoinKeySetPageKey ''7'' ''0'') 0 ''uuid'' ''1Key''"
proof -
  let ?R = left_key_request
  have J: "json_ok (funds_json payer_env)" "read_json (funds_json payer_env) t = Some t" "write_json (funds_json payer_env) t = t" for t
    by (simp_all add: payer_env_def tree_json_ok)
  have u: "app_CurrentlyLoggedInUsername payer_tab = r_user ?R" by (simp add: payer_tab_def left_key_request_def)
  have l: "left_request payer_env left_db ?R ''0''"
    by (simp add: left_request_def left_key_request_def left_db_def current_def J left_tree_def profileIsLocked_def pt_get_default_def)
  have "key_field 0 \<noteq> key_uuid_field 0" by (rule key_book.entry_not_owner)
  then have "claimant key_uuid_field 0 left_page = Some ''uuid''" "pt_get (key_field 0) left_page = Some ''1Key''" "flat left_page"
    by (simp_all add: left_page_def claimant_def pt_get_default_def)
  then have k: "shows_key payer_env left_db (page_of ?R ''0'') 0 (r_uuid ?R) ''1Key''"
    by (auto simp: shows_key_def shows_claim_def left_db_def left_key_request_def J(3))
  have f: "set_is_filling payer_env left_db ?R ''1'' ''0'' 1" "left_db (page_of ?R ''1'') = []"
    by (simp_all add: set_is_filling_def left_db_def left_key_request_def current_def J left_lock_def fill_of_def page_key_names)
  have h: "current left_db (hugeBitcoinKeyListPageKey ''0'') = Some (left_ranges, 1)" by (simp add: left_db_def current_def)
  have r: "first_free_range (fill_of ?R ''1'') left_ranges 0 ''2Key,2Other''"
    using range_book.entry_not_owner [of 0 0, symmetric]
    by (simp add: first_free_range_def ranges_taken_def left_ranges_def claimant_def pt_get_default_def)
  have hd: "hd (split_at (CHR '','') ''2Key,2Other'') = ''2Key''" by simp
  from recovery_claims_a_second_key [OF J(1) payer_tab_new(1) u l k f h J(2) r, of 100 "\<lambda>db k. 2" pt_empty]
  show ?thesis unfolding hd by (auto simp: has_got_def left_key_request_def)
qed

end
