(* ===== verification/AddFundsPayments.thy ===== *)
theory AddFundsPayments
  imports AddFundsDemo
begin

section \<open>Payments and credits\<close>

text \<open>
  Every credit is backed by a payment, and a payment is credited. The first is a property of all runs of a tab, the second a run that exists
  whatever the account and the amount are.
\<close>

subsection \<open>A payment is credited\<close>

text \<open>What the user and the libraries do, from opening the tab to the credit.\<close>

definition paying :: "int \<Rightarrow> int \<Rightarrow> 'j \<Rightarrow> 'j \<Rightarrow> cas \<Rightarrow> 'j \<Rightarrow> 'j \<Rightarrow> (int \<times> 'j tab_input) list" where
  "paying now1 now2 account account' c pending body =
     [(now1, ShowTab), (now1, AnswerGet account c True False), (now1, ClickCheckPending True), (now1, AnswerPoll True pending),
      (now2, ClickCheckConfirmed True), (now2, AnswerPoll True body), (now2, ClickDone), (now2, AnswerGet account' c True False)]"

lemma payment_run:
  assumes "new_tab s" "app_CurrentlyLoggedInUsername s = user" "read_json (funds_json E) account = Some t"
    and "pt_get JSON_USER_ACCOUNT_BITCOIN_STATE t = Some JSON_USER_ACCOUNT_BITCOIN_STATE_HAVE_KEY"
      "pt_get JSON_USER_ACCOUNT_BITCOIN_STATE_DATA t = Some key"
    and "60 \<le> now1" "now1 \<le> now2" "reports E pending p" "reports E body amount" "ABC_MIN_ADD_FUNDS_AMOUNT_IN_SATOSHIS \<le> amount"
    and "credit_of E account' key amount new"
  shows "\<exists>h s1 x y n. tab_run E (paying now1 now2 account account' c pending body) s = Some (h, s1)
     \<and> tab_outputs_of h = [Ask (TabGet (userAccountKey user)), Tell (CurrentKey key), Ask (TabPoll key 0), Tell (PendingReceived x),
         Ask (TabPoll key 1), Tell (ConfirmedReceived y), Ask (TabGet (userAccountKey user)), Ask (TabCasStore (userAccountKey user) new c)]
     \<and> key_mode user key amount [TabCasStore (userAccountKey user) new c] s1
     \<and> app_WhatTheStoreWithInputCasWasFor s1 = CREDITCONFIRMEDBITCOINBALANCEFORCURRENTPAYMENTKEYCASSWAPUSERACCOUNT
     \<and> app_BalanceSatoshiStringForDisplayingOnly s1 = satoshiIntToSatoshiString (wrap64 n)"
proof -
  let ?u = "userAccountKey user"
  obtain a1 where a1: "tab_go E now1 ShowTab s = Some a1" "tab_outputs a1 = [Ask (TabGet ?u)]" "tab_pending a1 = [TabGet ?u]"
      "app_DeferCount a1 = 2" "app_WhatTheGetSavingCasWasFor a1 = DETERMINEBITCOINSTATEBUTDONTLETTHEMPROCEEDIFLOCKED"
      "\<not> m_HaveBitcoinKeyPlaceholder a1" "m_ConfirmedBitcoinBalanceInSatoshis a1 = 0" "\<not> m_PendingBitcoinBalanceLabel a1"
      "m_TimeTofLastCheck a1 = 0" "app_CurrentlyLoggedInUsername a1 = user"
    using go_shown [OF assms(1) refl] assms(2) by blast
  obtain a2 where a2: "tab_go E now1 (AnswerGet account c True False) a1 = Some a2" "tab_outputs a2 = [Tell (CurrentKey key)]"
      "key_mode user key 0 [] a2" "m_TimeTofLastCheck a2 = 0" "\<not> m_PendingBitcoinBalanceLabel a2"
    using go_determined [OF a1(3-6) assms(3-5)] a1(7-10) by metis
  obtain a3 where a3: "tab_go E now1 (ClickCheckPending True) a2 = Some a3" "tab_outputs a3 = [Ask (TabPoll key 0)]"
      "key_mode user key 0 [TabPoll key 0] a3" "m_PollingPendingBalance a3" "m_TimeTofLastCheck a3 = now1" "\<not> m_PendingBitcoinBalanceLabel a3"
    using go_check(1) [OF a2(3), of now1] a2(4,5) assms(6) by auto
  obtain x a4 where a4: "tab_go E now1 (AnswerPoll True pending) a3 = Some a4" "tab_outputs a4 = [Tell (PendingReceived x)]"
      "key_mode user key 0 [] a4" "m_TimeTofLastCheck a4 = now1 - 60" "m_PendingBitcoinBalanceLabel a4"
    using go_balance(1) [OF a3(3) assms(8) a3(4,6), of now1] a3(5) by auto
  obtain a5 where a5: "tab_go E now2 (ClickCheckConfirmed True) a4 = Some a5" "tab_outputs a5 = [Ask (TabPoll key 1)]"
      "key_mode user key 0 [TabPoll key 1] a5" "\<not> m_PollingPendingBalance a5"
    using go_check(2) [OF a4(3) _ a4(5), of now2] a4(4) assms(7) by auto
  obtain y a6 where a6: "tab_go E now2 (AnswerPoll True body) a5 = Some a6" "tab_outputs a6 = [Tell (ConfirmedReceived y)]"
      "key_mode user key amount [] a6" "m_ConfirmedBitcoinBalanceLabel a6"
    using go_balance(2) [OF a5(3) assms(9) a5(4), of now2] by auto
  obtain a7 where a7: "tab_go E now2 ClickDone a6 = Some a7" "tab_outputs a7 = [Ask (TabGet ?u)]" "key_mode user key amount [TabGet ?u] a7"
      "app_WhatTheGetSavingCasWasFor a7 = CREDITCONFIRMEDBITCOINAMOUNTAFTERANALYZINGUSERACCOUNT"
    using go_done_sending [OF a6(3,4) assms(10), of E now2] by auto
  obtain a8 n where a8: "tab_go E now2 (AnswerGet account' c True False) a7 = Some a8" "tab_outputs a8 = [Ask (TabCasStore ?u new c)]"
      "key_mode user key amount [TabCasStore ?u new c] a8"
      "app_WhatTheStoreWithInputCasWasFor a8 = CREDITCONFIRMEDBITCOINBALANCEFORCURRENTPAYMENTKEYCASSWAPUSERACCOUNT"
      "app_BalanceSatoshiStringForDisplayingOnly a8 = satoshiIntToSatoshiString (wrap64 n)"
    using go_credit [OF a7(3) refl a7(4) assms(11), of now2 c] by auto
  have run: "\<exists>h. tab_run E (paying now1 now2 account account' c pending body) s = Some (h, a8)
     \<and> tab_outputs_of h = [Ask (TabGet ?u), Tell (CurrentKey key), Ask (TabPoll key 0), Tell (PendingReceived x),
         Ask (TabPoll key 1), Tell (ConfirmedReceived y), Ask (TabGet ?u), Ask (TabCasStore ?u new c)]"
    by (simp add: paying_def a1(1,2) a2(1,2) a3(1,2) a4(1,2) a5(1,2) a6(1,2) a7(1,2) a8(1,2))
  then show ?thesis using a8(3-5) by metis
qed

text \<open>
  C8. A payment is credited. A user opens the tab; the account holds a key; \<open>bitcoind\<close> reports a pending amount and, at any later time, a
  confirmed one of at least the minimum; the account still holds the key and is not locked. Then the session asks for exactly these requests
  in this order, the last one being the store of the account with the amount added, and when it succeeds the user is told, the tab forgets the
  key and the amount, and offers a new key. No step is refused or throws.
\<close>

theorem payment_is_credited:
  assumes "new_tab s" "app_CurrentlyLoggedInUsername s = user" "read_json (funds_json E) account = Some t"
    and "pt_get JSON_USER_ACCOUNT_BITCOIN_STATE t = Some JSON_USER_ACCOUNT_BITCOIN_STATE_HAVE_KEY"
      "pt_get JSON_USER_ACCOUNT_BITCOIN_STATE_DATA t = Some key"
    and "60 \<le> now1" "now1 \<le> now2" "reports E pending p" "reports E body amount" "ABC_MIN_ADD_FUNDS_AMOUNT_IN_SATOSHIS \<le> amount"
    and "credit_of E account' key amount new"
  shows "\<exists>h s1 x y s2 b. tab_run E (paying now1 now2 account account' c pending body) s = Some (h, s1)
     \<and> tab_outputs_of h = [Ask (TabGet (userAccountKey user)), Tell (CurrentKey key), Ask (TabPoll key 0), Tell (PendingReceived x),
         Ask (TabPoll key 1), Tell (ConfirmedReceived y), Ask (TabGet (userAccountKey user)), Ask (TabCasStore (userAccountKey user) new c)]
     \<and> tab_pending s1 = [TabCasStore (userAccountKey user) new c]
     \<and> app_WhatTheStoreWithInputCasWasFor s1 = CREDITCONFIRMEDBITCOINBALANCEFORCURRENTPAYMENTKEYCASSWAPUSERACCOUNT
     \<and> tab_go E now2 (AnswerCasStore True False) s1 = Some s2
     \<and> tab_outputs s2 = [Tell (Creditted (satoshiIntToJsonString amount) key), Tell (NewBalance b)]
     \<and> m_GetBitcoinKeyPlaceholder s2 \<and> m_ConfirmedBitcoinBalanceInSatoshis s2 = 0 \<and> m_CurrentBitcoinKeyForPayments s2 = []
     \<and> tab_pending s2 = [] \<and> app_DeferCount s2 = 0"
proof -
  obtain h s1 x y n where r: "tab_run E (paying now1 now2 account account' c pending body) s = Some (h, s1)"
      "tab_outputs_of h = [Ask (TabGet (userAccountKey user)), Tell (CurrentKey key), Ask (TabPoll key 0), Tell (PendingReceived x),
         Ask (TabPoll key 1), Tell (ConfirmedReceived y), Ask (TabGet (userAccountKey user)), Ask (TabCasStore (userAccountKey user) new c)]"
      "key_mode user key amount [TabCasStore (userAccountKey user) new c] s1"
      "app_WhatTheStoreWithInputCasWasFor s1 = CREDITCONFIRMEDBITCOINBALANCEFORCURRENTPAYMENTKEYCASSWAPUSERACCOUNT"
      "app_BalanceSatoshiStringForDisplayingOnly s1 = satoshiIntToSatoshiString (wrap64 n)"
    using payment_run [OF assms, of c] by blast
  have "tab_pending s1 = [TabCasStore (userAccountKey user) new c]" using r(3) by (simp add: key_mode_def)
  then show ?thesis using r(1,2,4) go_creditted [OF r(3-5), of E now2] by metis
qed

theorem payment_is_credited_witness:
  "\<exists>h s1 s2. tab_run payer_env (paying 60 60 payer_account payer_account 5 payer_balance payer_balance) payer_tab = Some (h, s1)
     \<and> tab_pending s1 = [TabCasStore (userAccountKey ''joe'') payer_new 5] \<and> tab_go payer_env 60 (AnswerCasStore True False) s1 = Some s2
     \<and> m_GetBitcoinKeyPlaceholder s2"
  using payment_is_credited [OF payer_tab_new payer_state _ _ payer_reports payer_reports _ payer_credit, of 60 60 5] by auto

subsection \<open>A credit has been paid for\<close>

text \<open>
  C4. Every credit is backed by a confirmed payment. Whatever the database and \<open>bitcoind\<close> answer: when the tab is about to store a credit, the
  log holds, in this order, the poll for the amount that the current key received with one confirmation, an answer to it that reports an amount of at
  least the minimum, the request for the account, the answer with an unlocked account that holds exactly this key, and the store: of
  that account with the amount added once, without the key, under the CAS that was read.
\<close>

theorem every_credit_is_backed:
  assumes "new_tab s0" "tab_reach E s0 h s" "tab_pending s = [TabCasStore k new c]"
    and "app_WhatTheStoreWithInputCasWasFor s = CREDITCONFIRMEDBITCOINBALANCEFORCURRENTPAYMENTKEYCASSWAPUSERACCOUNT"
  shows "\<exists>body account amount. subseq (credit_events (app_CurrentlyLoggedInUsername s) (m_CurrentBitcoinKeyForPayments s) body account c new) h
      \<and> reports E body amount \<and> ABC_MIN_ADD_FUNDS_AMOUNT_IN_SATOSHIS \<le> amount
      \<and> credit_of E account (m_CurrentBitcoinKeyForPayments s) amount new"
  using credit_reach [OF assms(2,1)] assms(3,4) by (auto simp: credit_inv_def)

theorem every_credit_is_backed_witness:
  "\<exists>h s body account amount. tab_reach payer_env payer_tab h s \<and> tab_pending s = [TabCasStore (userAccountKey ''joe'') payer_new 5]
     \<and> subseq (credit_events ''joe'' ''1Key'' body account 5 payer_new) h \<and> reports payer_env body amount
     \<and> credit_of payer_env account ''1Key'' amount payer_new"
proof -
  obtain h s where r: "tab_run payer_env (paying 60 60 payer_account payer_account 5 payer_balance payer_balance) payer_tab = Some (h, s)"
      "key_mode ''joe'' ''1Key'' 100000000 [TabCasStore (userAccountKey ''joe'') payer_new 5] s"
      "app_WhatTheStoreWithInputCasWasFor s = CREDITCONFIRMEDBITCOINBALANCEFORCURRENTPAYMENTKEYCASSWAPUSERACCOUNT"
    using payment_run [OF payer_tab_new payer_state _ _ payer_reports payer_reports _ payer_credit, of 60 60 5] by auto
  have "tab_reach payer_env payer_tab h s" using tab_run_reach [OF tab_reach.start r(1)] by simp
  moreover have "tab_pending s = [TabCasStore (userAccountKey ''joe'') payer_new 5]" "app_CurrentlyLoggedInUsername s = ''joe''"
      "m_CurrentBitcoinKeyForPayments s = ''1Key''"
    using r(2) by (simp_all add: key_mode_def)
  ultimately show ?thesis using every_credit_is_backed [OF payer_tab_new(1) _ _ r(3)] by metis
qed

end
