(* ===== verification/TabApp.thy ===== *)
theory TabApp
  imports CasDatabase SatoshiAmounts
begin

section \<open>What the smaller account pages share\<close>

text \<open>
  The account tabs and campaign pages are small event driven objects that talk to the database through the application object
  (\<open>Anonymous Bitcoin Computing 2/src/frontend/anonymousbitcoincomputingwtgui.cpp\<close>): a handler begins a request, notes what it was for,
  and the answer comes back to the handler of that purpose. The record \<open>app\<close> holds the application's members that these pages use; each page
  extends it by its own members. Rendering is deferred by every request and resumed by its answer. The log lists, in order, the requests
  that were begun, the answers that were received and what the user was told.

  The rest of the theory is the world around a page, for any page: sessions on one database, with requests that interleave, fail or get lost
  in every way, and other programs that write documents. A handler that throws ends its session; what it has requested is still executed.
  For statements that something does happen, \<open>app_serves\<close> runs one session on a database that executes every request and answers truthfully.
\<close>

subsection \<open>State, requests, answers\<close>

datatype GetPurpose =
    NULLGET
  | GETNICKNAMEOFADSLOTFILLERNOTINALLADSLOTFILLERSDOC
  | GETALLADSLOTFILLERSDOCFORVIEWING
  | HACKYMULTIGETAPAGEWORTHOFADSLOTFILLERS
  | GETADCAMPAIGNCURRENTINDEXCACHEDOC
  | GETPROFILEBEFORESCHEDULINGWITHDRAWFUNDSREQUEST
  | GETPROFILEFORGETTINGAPIKEY

datatype GetSavingCasPurpose =
    NULLGETSAVINGCAS
  | GETALLADSLOTFILLERSTODETERMINENEXTINDEXANDTOUPDATEIT
  | GETADSPACECAMPAIGNINDEXCACHEEVENTHOUGHITMIGHTNOTEXIST
  | GETWITHDRAWREQUESTINDEXBECAUSEWEWANTTOSCHEDULEAWITHDRAWDUH

datatype AddPurpose =
    NULLSTOREWITHOUTINPUTCAS
  | LARGE_ADIMAGEUPLOADBUYERSETTINGUPADSLOTFILLER
  | ATTEMPTTOADDCAMPAIGNATINDEX
  | ADDCAMPAIGNINDEXCACHEIGNORINGRESPONSE
  | ATTEMPTTOADDWITHDRAWREQUESTATINDEX
  | ADDWITHDRAWREQUESTINDEXIGNORINGRESPONSE

datatype CasStorePurpose =
    NULLSTOREWITHCAS
  | UPDATEALLADSLOTFILLERSDOCSINCEWEJUSTCREATEDNEWADSLOTFILLER
  | CASSWAPCAMPAIGNINDEXCACHEIGNORINGRESPONSE
  | CASSWAPWITHDRAWREQUESTINDEXIGNORINGRESPONSE

datatype 'j app_request =
    AppGet string
  | AppGetSavingCas string
  | AppAdd string 'j
  | AppCasStore string 'j cas

datatype 'j app_answer =
    GetFinished string 'j bool bool
  | GetSavingCasFinished string 'j cas bool bool
  | AddFinished string bool bool
  | CasStoreFinished string bool bool

datatype ('j, 'm) app_event = Asked "'j app_request" | Answered "'j app_answer" | Said 'm

record ('j, 'm) app =
  app_User :: string
  app_BalanceForDisplayingOnly :: string
  app_WhatTheGetWasFor :: GetPurpose
  app_WhatTheGetSavingCasWasFor :: GetSavingCasPurpose
  app_WhatTheStoreWithoutInputCasWasFor :: AddPurpose
  app_WhatTheStoreWithInputCasWasFor :: CasStorePurpose
  app_DeferCount :: int
  app_pending :: "'j app_request list"
  app_log :: "('j, 'm) app_event list"
  app_gone :: bool

definition app_note :: "('j, 'm) app_event \<Rightarrow> (('j, 'm, 'z) app_scheme, unit) prog" where
  "app_note x = modify (\<lambda>s. s\<lparr>app_log := app_log s @ [x]\<rparr>)"

definition app_defer :: "(('j, 'm, 'z) app_scheme, unit) prog" where
  "app_defer = modify (\<lambda>s. s\<lparr>app_DeferCount := app_DeferCount s + 1\<rparr>)"

definition app_resume :: "(('j, 'm, 'z) app_scheme, unit) prog" where
  "app_resume = modify (\<lambda>s. s\<lparr>app_DeferCount := app_DeferCount s - 1\<rparr>)"

definition say :: "'m \<Rightarrow> (('j, 'm, 'z) app_scheme, unit) prog" where
  "say m = app_note (Said m)"

definition say_and_resume :: "'m \<Rightarrow> (('j, 'm, 'z) app_scheme, unit) prog" where
  "say_and_resume m = andthen (say m) (\<lambda>_. app_resume)"

definition app_ask :: "'j app_request \<Rightarrow> (('j, 'm, 'z) app_scheme, unit) prog" where
  "app_ask r = andthen app_defer (\<lambda>_. andthen (app_note (Asked r)) (\<lambda>_.
     modify (\<lambda>s. s\<lparr>app_pending := app_pending s @ [r]\<rparr>)))"

definition app_get :: "string \<Rightarrow> GetPurpose \<Rightarrow> (('j, 'm, 'z) app_scheme, unit) prog" where
  "app_get key what = andthen (app_ask (AppGet key)) (\<lambda>_. modify (\<lambda>s. s\<lparr>app_WhatTheGetWasFor := what\<rparr>))"

definition app_get_saving_cas :: "string \<Rightarrow> GetSavingCasPurpose \<Rightarrow> (('j, 'm, 'z) app_scheme, unit) prog" where
  "app_get_saving_cas key what =
     andthen (app_ask (AppGetSavingCas key)) (\<lambda>_. modify (\<lambda>s. s\<lparr>app_WhatTheGetSavingCasWasFor := what\<rparr>))"

definition app_add :: "string \<Rightarrow> 'j \<Rightarrow> AddPurpose \<Rightarrow> (('j, 'm, 'z) app_scheme, unit) prog" where
  "app_add key doc what =
     andthen (app_ask (AppAdd key doc)) (\<lambda>_. modify (\<lambda>s. s\<lparr>app_WhatTheStoreWithoutInputCasWasFor := what\<rparr>))"

definition app_cas_store :: "string \<Rightarrow> 'j \<Rightarrow> cas \<Rightarrow> CasStorePurpose \<Rightarrow> (('j, 'm, 'z) app_scheme, unit) prog" where
  "app_cas_store key doc c what =
     andthen (app_ask (AppCasStore key doc c)) (\<lambda>_. modify (\<lambda>s. s\<lparr>app_WhatTheStoreWithInputCasWasFor := what\<rparr>))"

lemmas app_ops = app_note_def app_defer_def app_resume_def say_def say_and_resume_def app_ask_def app_get_def
  app_get_saving_cas_def app_add_def app_cas_store_def

subsection \<open>The database\<close>

text \<open>A store under the CAS \<open>0\<close> is unconditional, and creates a document that does not exist.\<close>

definition set_allowed :: "'j db \<Rightarrow> string \<Rightarrow> cas \<Rightarrow> bool" where
  "set_allowed db k c \<longleftrightarrow> c = 0 \<or> (\<exists>d. current db k = Some (d, c))"

text \<open>An answer other than a success says nothing: the store may have been executed or not. Only the refusal of an add tells that a
  document is there.\<close>

inductive app_answers :: "'j db \<Rightarrow> 'j app_request \<Rightarrow> 'j app_answer \<Rightarrow> 'j db \<Rightarrow> bool" where
  get_found: "current db k = Some (d, c) \<Longrightarrow> app_answers db (AppGet k) (GetFinished k d True False) db"
| get_missing: "current db k = None \<Longrightarrow> app_answers db (AppGet k) (GetFinished k d False False) db"
| get_failed: "app_answers db (AppGet k) (GetFinished k d ok True) db"
| cas_found: "current db k = Some (d, c) \<Longrightarrow> app_answers db (AppGetSavingCas k) (GetSavingCasFinished k d c True False) db"
| cas_missing: "current db k = None \<Longrightarrow> app_answers db (AppGetSavingCas k) (GetSavingCasFinished k d 0 False False) db"
| cas_failed: "app_answers db (AppGetSavingCas k) (GetSavingCasFinished k d c ok True) db"
| added: "db k = [] \<Longrightarrow> fresh_cas db k c' \<Longrightarrow> app_answers db (AppAdd k d) (AddFinished k True False) (new_version k d c' db)"
| add_refused: "db k \<noteq> [] \<Longrightarrow> app_answers db (AppAdd k d) (AddFinished k False False) db"
| add_failed: "app_answers db (AppAdd k d) (AddFinished k ok True) db"
| add_unknown: "db k = [] \<Longrightarrow> fresh_cas db k c' \<Longrightarrow> app_answers db (AppAdd k d) (AddFinished k ok True) (new_version k d c' db)"
| stored: "set_allowed db k c \<Longrightarrow> fresh_cas db k c'
    \<Longrightarrow> app_answers db (AppCasStore k d c) (CasStoreFinished k True False) (new_version k d c' db)"
| store_failed: "\<not> ok \<or> err \<Longrightarrow> app_answers db (AppCasStore k d c) (CasStoreFinished k ok err) db"
| store_unknown: "\<not> ok \<or> err \<Longrightarrow> set_allowed db k c \<Longrightarrow> fresh_cas db k c'
    \<Longrightarrow> app_answers db (AppCasStore k d c) (CasStoreFinished k ok err) (new_version k d c' db)"

inductive_cases app_answersE:
  "app_answers db (AppGet k) a db'" "app_answers db (AppGetSavingCas k) a db'"
  "app_answers db (AppAdd k d) a db'" "app_answers db (AppCasStore k d c) a db'"

lemma app_answers_grow: "app_answers db r a db' \<Longrightarrow> db_grows db db'"
  by (induction rule: app_answers.induct) simp_all

lemma app_answers_ok: "app_answers db r a db' \<Longrightarrow> versions_ok db \<Longrightarrow> versions_ok db'"
  by (induction rule: app_answers.induct) simp_all

subsection \<open>Sessions\<close>

text \<open>The code of a page: which clicks are possible, and the handlers of clicks and of answers.\<close>

record ('s, 'c, 'j) page =
  can_click :: "'c \<Rightarrow> 's \<Rightarrow> bool"
  on_click :: "'c \<Rightarrow> ('s, unit) prog"
  on_answer :: "'j app_answer \<Rightarrow> ('s, unit) prog"

fun left :: "(('j, 'm, 'z) app_scheme, unit) outcome \<Rightarrow> ('j, 'm, 'z) app_scheme" where
  "left (Ret _ s) = s"
| "left (Throws e s) = s\<lparr>app_gone := True\<rparr>"
| "left (Blocked s) = s\<lparr>app_gone := True\<rparr>"

definition received :: "'j app_request list \<Rightarrow> 'j app_answer \<Rightarrow> ('j, 'm, 'z) app_scheme \<Rightarrow> ('j, 'm, 'z) app_scheme" where
  "received rs a s = s\<lparr>app_pending := rs, app_log := app_log s @ [Answered a]\<rparr>"

record ('s, 'j) site =
  site_db :: "'j db"
  site_session :: "nat \<Rightarrow> 's"

text \<open>\<open>own\<close> says which documents only sessions of this page write.\<close>

inductive site_step :: "(('j, 'm, 'z) app_scheme, 'c, 'j) page \<Rightarrow> (string \<Rightarrow> bool) \<Rightarrow> (('j, 'm, 'z) app_scheme, 'j) site
    \<Rightarrow> (('j, 'm, 'z) app_scheme, 'j) site \<Rightarrow> bool" for P own where
  clicked: "site_session w n = s \<Longrightarrow> \<not> app_gone s \<Longrightarrow> can_click P c s \<Longrightarrow> left (on_click P c s) = s'
    \<Longrightarrow> site_step P own w (w\<lparr>site_session := (site_session w)(n := s')\<rparr>)"
| answered: "site_session w n = s \<Longrightarrow> \<not> app_gone s \<Longrightarrow> app_pending s = xs @ r # ys \<Longrightarrow> app_answers (site_db w) r a db'
    \<Longrightarrow> left (on_answer P a (received (xs @ ys) a s)) = s'
    \<Longrightarrow> site_step P own w (w\<lparr>site_db := db', site_session := (site_session w)(n := s')\<rparr>)"
| unheard: "site_session w n = s \<Longrightarrow> app_gone s \<Longrightarrow> app_pending s = xs @ r # ys \<Longrightarrow> app_answers (site_db w) r a db'
    \<Longrightarrow> site_step P own w (w\<lparr>site_db := db', site_session := (site_session w)(n := s\<lparr>app_pending := xs @ ys\<rparr>)\<rparr>)"
| elsewhere: "\<not> own k \<Longrightarrow> fresh_cas (site_db w) k c
    \<Longrightarrow> site_step P own w (w\<lparr>site_db := new_version k d c (site_db w)\<rparr>)"

inductive site_reach :: "(('j, 'm, 'z) app_scheme, 'c, 'j) page \<Rightarrow> (string \<Rightarrow> bool) \<Rightarrow> (('j, 'm, 'z) app_scheme, 'j) site
    \<Rightarrow> (('j, 'm, 'z) app_scheme, 'j) site \<Rightarrow> bool" for P own w0 where
  start: "site_reach P own w0 w0"
| step: "site_reach P own w0 w \<Longrightarrow> site_step P own w w' \<Longrightarrow> site_reach P own w0 w'"

text \<open>An assertion about a session that clicks and answers keep, also when a handler throws, holds in every session of a reachable site.\<close>

lemma runs_left: "runs_to m (\<lambda>_. I) (\<lambda>s. I (s\<lparr>app_gone := True\<rparr>)) s \<Longrightarrow> I (left (m s))"
  by (cases "m s") (simp_all add: runs_to_def)

lemma site_invariant:
  assumes "site_reach P own w0 w" and "\<And>n. I (site_session w0 n)"
    and "\<And>c s. I s \<Longrightarrow> \<not> app_gone s \<Longrightarrow> can_click P c s \<Longrightarrow> I (left (on_click P c s))"
    and "\<And>db db' a s xs r ys. I s \<Longrightarrow> \<not> app_gone s \<Longrightarrow> app_pending s = xs @ r # ys \<Longrightarrow> app_answers db r a db'
      \<Longrightarrow> I (left (on_answer P a (received (xs @ ys) a s)))"
    and "\<And>s xs r ys. I s \<Longrightarrow> app_gone s \<Longrightarrow> app_pending s = xs @ r # ys \<Longrightarrow> I (s\<lparr>app_pending := xs @ ys\<rparr>)"
  shows "I (site_session w n)"
proof -
  have "\<forall>n. I (site_session w n)"
    using assms(1)
  proof induction
    case (step w w')
    from step(2,3) show ?case by cases (use assms(3-5) in auto)
  qed (simp add: assms(2))
  then show ?thesis by blast
qed

text \<open>The same for an assertion that also speaks of the database. \<open>D\<close> is about the database alone, \<open>room\<close> is lost rather than gained as the database
  grows.\<close>

lemma site_step_grows: "site_step P own w w' \<Longrightarrow> db_grows (site_db w) (site_db w')"
  by (induction rule: site_step.induct) (auto dest: app_answers_grow)

lemma site_db_invariant:
  assumes "site_reach P own w0 w" and "room (site_db w)" and "D (site_db w0)" and "\<And>n. I (site_db w0) (site_session w0 n)"
    and room: "\<And>db db'. db_grows db db' \<Longrightarrow> room db' \<Longrightarrow> room db"
    and mono: "\<And>db db' s. db_grows db db' \<Longrightarrow> I db s \<Longrightarrow> I db' s"
    and click: "\<And>db c s. D db \<Longrightarrow> I db s \<Longrightarrow> \<not> app_gone s \<Longrightarrow> can_click P c s \<Longrightarrow> I db (left (on_click P c s))"
    and execute: "\<And>db db' a s xs r ys. D db \<Longrightarrow> I db s \<Longrightarrow> app_pending s = xs @ r # ys \<Longrightarrow> app_answers db r a db' \<Longrightarrow> D db'"
    and answer: "\<And>db db' a s xs r ys. D db \<Longrightarrow> room db' \<Longrightarrow> I db s \<Longrightarrow> \<not> app_gone s \<Longrightarrow> app_pending s = xs @ r # ys \<Longrightarrow> app_answers db r a db'
      \<Longrightarrow> I db' (left (on_answer P a (received (xs @ ys) a s)))"
    and gone: "\<And>db s xs r ys. I db s \<Longrightarrow> app_gone s \<Longrightarrow> app_pending s = xs @ r # ys \<Longrightarrow> I db (s\<lparr>app_pending := xs @ ys\<rparr>)"
    and other: "\<And>db k d c. \<not> own k \<Longrightarrow> D db \<Longrightarrow> D (new_version k d c db)"
  shows "D (site_db w) \<and> (\<forall>n. I (site_db w) (site_session w n))"
  using assms(1,2)
proof induction
  case start
  then show ?case using assms(3,4) by simp
next
  case (step w w')
  have g: "db_grows (site_db w) (site_db w')" using step(2) by (rule site_step_grows)
  have IH: "D (site_db w)" "\<And>n. I (site_db w) (site_session w n)" using step(3) [OF room [OF g step(4)]] by simp_all
  have all: "\<forall>m. I (site_db w') (((site_session w)(n := s')) m)" if "I (site_db w') s'" for n s'
    using that mono [OF g IH(2)] by simp
  from step(2) show ?case
  proof cases
    case (clicked n s c s')
    then have "I (site_db w) s'" using click IH by metis
    then show ?thesis using clicked IH by simp
  next
    case (answered n s xs r ys a db' s')
    then have "I db' s'" using answer [OF IH(1) _ IH(2) [of n]] step(4) by auto
    moreover have "D db'" using execute [OF IH(1) IH(2) [of n]] answered by metis
    ultimately show ?thesis using answered all by simp
  next
    case (unheard n s xs r ys a db')
    then have "I db' (s\<lparr>app_pending := xs @ ys\<rparr>)" using gone mono g IH(2) [of n] by simp
    moreover have "D db'" using execute [OF IH(1) IH(2) [of n]] unheard by metis
    ultimately show ?thesis using unheard all by simp
  next
    case (elsewhere k c d)
    then show ?thesis using other IH mono [OF g] by simp
  qed
qed

subsection \<open>An undisturbed session\<close>

fun app_serve :: "('j db \<Rightarrow> string \<Rightarrow> cas) \<Rightarrow> 'j \<Rightarrow> 'j db \<Rightarrow> 'j app_request \<Rightarrow> 'j db \<times> 'j app_answer" where
  "app_serve pick d0 db (AppGet k) = (db, case current db k of None \<Rightarrow> GetFinished k d0 False False | Some (d, c) \<Rightarrow> GetFinished k d True False)"
| "app_serve pick d0 db (AppGetSavingCas k) = (db, case current db k of
     None \<Rightarrow> GetSavingCasFinished k d0 0 False False | Some (d, c) \<Rightarrow> GetSavingCasFinished k d c True False)"
| "app_serve pick d0 db (AppAdd k d) = (if db k = [] then (new_version k d (pick db k) db, AddFinished k True False)
     else (db, AddFinished k False False))"
| "app_serve pick d0 db (AppCasStore k d c) = (if set_allowed db k c
     then (new_version k d (pick db k) db, CasStoreFinished k True False) else (db, CasStoreFinished k False False))"

text \<open>Such a database is one of those above.\<close>

lemma app_serve_answers: "(\<And>k. fresh_cas db k (pick db k)) \<Longrightarrow> app_serve pick d0 db r = (db', a) \<Longrightarrow> app_answers db r a db'"
  by (cases r) (auto intro: app_answers.intros split: if_splits option.splits)

definition app_served :: "(('j, 'm, 'z) app_scheme, 'c, 'j) page \<Rightarrow> ('j db \<Rightarrow> string \<Rightarrow> cas) \<Rightarrow> 'j
    \<Rightarrow> 'j db \<times> ('j, 'm, 'z) app_scheme \<Rightarrow> ('j db \<times> ('j, 'm, 'z) app_scheme) option" where
  "app_served P pick d0 x = (if app_gone (snd x) then None else case app_pending (snd x) of [] \<Rightarrow> None
     | r # rs \<Rightarrow> (case app_serve pick d0 (fst x) r of (db', a) \<Rightarrow> (case on_answer P a (received rs a (snd x)) of
           Ret _ s' \<Rightarrow> Some (db', s') | _ \<Rightarrow> None)))"

fun app_serves :: "(('j, 'm, 'z) app_scheme, 'c, 'j) page \<Rightarrow> ('j db \<Rightarrow> string \<Rightarrow> cas) \<Rightarrow> 'j \<Rightarrow> nat
    \<Rightarrow> 'j db \<times> ('j, 'm, 'z) app_scheme \<Rightarrow> ('j db \<times> ('j, 'm, 'z) app_scheme) option" where
  "app_serves P pick d0 0 x = Some x"
| "app_serves P pick d0 (Suc n) x = (case app_served P pick d0 x of None \<Rightarrow> None | Some y \<Rightarrow> app_serves P pick d0 n y)"

lemma app_serves_add: "app_serves P pick d0 (m + n) x = Option.bind (app_serves P pick d0 m x) (app_serves P pick d0 n)"
  by (induction m arbitrary: x) (auto split: option.splits)

lemma app_serves_then:
  "app_serves P pick d0 m x = Some y \<Longrightarrow> app_serves P pick d0 n y = Some z \<Longrightarrow> app_serves P pick d0 (m + n) x = Some z"
  by (simp add: app_serves_add)

lemma app_serves_one: "app_served P pick d0 x = Some y \<Longrightarrow> app_serves P pick d0 1 x = Some y"
  by simp

text \<open>Executed clicks and answers are steps of a site.\<close>

lemma click_in_site:
  assumes "site_reach P own w0 w" "on_click P c (site_session w n) = Ret () s'" "\<not> app_gone (site_session w n)" "can_click P c (site_session w n)"
  shows "site_reach P own w0 (w\<lparr>site_session := (site_session w)(n := s')\<rparr>)"
  using assms site_step.clicked [of w n "site_session w n" P c s' own] by (auto intro: site_reach.step)

lemma served_in_site:
  assumes "app_served P next_cas d0 (site_db w, site_session w n) = Some (db', s')" "numbered m (site_db w)" "Suc m < 2 ^ 64"
  shows "site_step P own w (w\<lparr>site_db := db', site_session := (site_session w)(n := s')\<rparr>) \<and> numbered (Suc m) db'"
proof -
  from assms(1) obtain r rs a where r: "\<not> app_gone (site_session w n)" "app_pending (site_session w n) = r # rs"
      "app_serve next_cas d0 (site_db w) r = (db', a)" "on_answer P a (received rs a (site_session w n)) = Ret () s'"
    by (auto simp: app_served_def split: if_splits list.splits prod.splits outcome.splits)
  have "app_answers (site_db w) r a db'" using numbered_fresh [OF assms(2,3)] r(3) by (rule app_serve_answers)
  moreover have "numbered (Suc m) db'"
    using r(3) numbered_new [OF assms(2)] numbered_Suc [OF assms(2)] by (cases r) (auto split: if_splits)
  ultimately show ?thesis
    using site_step.answered [of w n "site_session w n" "[]" r rs a db' P s' own] r(1,2,4) by simp
qed

lemma serves_in_site:
  assumes "site_reach P own w0 w" "app_serves P next_cas d0 k (site_db w, site_session w n) = Some (db', s')"
    and "numbered m (site_db w)" "m + k < 2 ^ 64"
  shows "\<exists>w'. site_reach P own w0 w' \<and> site_db w' = db' \<and> site_session w' n = s' \<and> (\<forall>j. j \<noteq> n \<longrightarrow> site_session w' j = site_session w j)
    \<and> numbered (m + k) db'"
  using assms
proof (induction k arbitrary: w m)
  case (Suc k)
  from Suc(3) obtain db1 s1 where s1: "app_served P next_cas d0 (site_db w, site_session w n) = Some (db1, s1)"
      "app_serves P next_cas d0 k (db1, s1) = Some (db', s')"
    by (auto split: option.splits)
  let ?w1 = "w\<lparr>site_db := db1, site_session := (site_session w)(n := s1)\<rparr>"
  have "Suc m < 2 ^ 64" using Suc(5) by linarith
  from served_in_site [OF s1(1) Suc(4) this, of own] have w1: "site_step P own w ?w1" "numbered (Suc m) (site_db ?w1)" by simp_all
  have r: "site_reach P own w0 ?w1" using Suc(2) w1(1) by (rule site_reach.step)
  have "app_serves P next_cas d0 k (site_db ?w1, site_session ?w1 n) = Some (db', s')" "Suc m + k < 2 ^ 64" using s1(2) Suc(5) by simp_all
  from Suc(1) [OF r this(1) w1(2) this(2)] show ?case by auto
qed auto

text \<open>What the user was told.\<close>

fun said :: "('j, 'm) app_event list \<Rightarrow> 'm list" where
  "said [] = []"
| "said (Said m # h) = m # said h"
| "said (_ # h) = said h"

lemma said_append [simp]: "said (g @ h) = said g @ said h"
  by (induction g rule: said.induct) simp_all

end
