(* ===== verification/WithdrawTab.thy ===== *)
theory WithdrawTab
  imports TabApp
begin

section \<open>The account tab that schedules withdrawals\<close>

text \<open>
  \<open>Anonymous Bitcoin Computing 2/src/frontend/accounttabs/withdrawfundsaccounttabbody.cpp\<close>. The user types an amount and a bitcoin key;
  the tab checks the balance of the account and adds a request document at the first free index, starting at the index that a cache document
  names. The withdrawal processor (theory \<open>Withdraw\<close>) pays such requests later.

  The record \<open>withdraw_tab\<close> holds the members of \<open>WithdrawFundsAccountTabBody\<close>; a line edit is its text. Of the environment the model takes
  the JSON text, \<open>boost::lexical_cast\<close> from text to double, and what \<open>WDoubleValidator\<close> accepts as a number between 0.03 and 21 million.
\<close>

subsection \<open>State\<close>

datatype withdraw_message =
    Withdraw500 | InvalidAmount | InvalidBitcoinKey | InsufficientFundsToWithdraw | TooManyRequests | RequestScheduled string
  | MaximumAvailable string string

record 'j withdraw_tab = "('j, withdraw_message) app" +
  m_DesiredAmountToWithdrawLineEdit :: string
  m_WithdrawalFeeLineEdit :: string
  m_TotalWithdrawAmountVisualOnlyLineEdit :: string
  m_BitcoinPayoutKeyLineEdit :: string
  m_WithdrawRequestIndexToTryLcbAddingAt :: string
  m_CasOfWithdrawRequestIndexDoc_OrZeroIfDocDoesNotExist :: cas
  m_WithdrawRequestDocBeingCreated :: 'j
  withdraw_PopulatedAndInitializing :: bool

record 'j withdraw_env =
  wd_json :: "'j json"
  wd_cast_double :: "string \<Rightarrow> rat option"
  wd_amount_valid :: "string \<Rightarrow> bool"

definition ABC2_MIN_WITHDRAW_AMOUNT :: rat where "ABC2_MIN_WITHDRAW_AMOUNT = rnd (3 / 100)"
abbreviation "ABC2_MIN_WITHDRAW_AMOUNT_STR \<equiv> ''0.03000000''"
abbreviation "JSON_WITHDRAW_FUNDS_REQUESTS_NEXT_AVAILABLE_INDEX \<equiv> ''nextAvailableWithdrawFundsRequestIndex''"

text \<open>\<open>LettersNumbersOnlyRegExpValidatorAndInputFilter("35")\<close>, which is mandatory.\<close>

definition is_letter_or_digit :: "char \<Rightarrow> bool" where
  "is_letter_or_digit c \<longleftrightarrow> (let n = (of_char c :: nat) in 48 \<le> n \<and> n \<le> 57 \<or> 65 \<le> n \<and> n \<le> 90 \<or> 97 \<le> n \<and> n \<le> 122)"

definition bitcoin_key_valid :: "string \<Rightarrow> bool" where
  "bitcoin_key_valid t \<longleftrightarrow> 1 \<le> length t \<and> length t \<le> 35 \<and> list_all is_letter_or_digit t"

subsection \<open>Amounts on the page\<close>

definition maximumWithdrawalAmountIncorporatingFee :: "string \<Rightarrow> rat option" where
  "maximumWithdrawalAmountIncorporatingFee balance = map_option (\<lambda>userBalanceJsonDouble.
     let forwardsFeeMultipler = dadd 1 (ddiv ABC2_WITHDRAWAL_FEE_PERCENT 100)
     in ddiv userBalanceJsonDouble forwardsFeeMultipler) (satoshiStringToJsonDouble balance)"

definition calculateTotalAmountWithdrawnAfterFeeForVisual :: "'j withdraw_env \<Rightarrow> ('j withdraw_tab, unit) prog" where
  "calculateTotalAmountWithdrawnAfterFeeForVisual E = reading (\<lambda>s.
     if \<not> wd_amount_valid E (m_DesiredAmountToWithdrawLineEdit s)
     then modify (\<lambda>s. s\<lparr>m_TotalWithdrawAmountVisualOnlyLineEdit := [], m_WithdrawalFeeLineEdit := []\<rparr>)
     else
     andthen (require Bad_lexical_cast (wd_cast_double E (m_DesiredAmountToWithdrawLineEdit s))) (\<lambda>desiredAmountToWithdraw.
     let withdrawalFee = withdrawalFeeForWithdrawalAmount desiredAmountToWithdraw;
         totalAmountToWithdrawAfterFeeApplied = dadd desiredAmountToWithdraw withdrawalFee
     in modify (\<lambda>s. s\<lparr>m_WithdrawalFeeLineEdit := formatDoubleAs8decimalPlacesString withdrawalFee,
          m_TotalWithdrawAmountVisualOnlyLineEdit := formatDoubleAs8decimalPlacesString totalAmountToWithdrawAfterFeeApplied\<rparr>)))"

definition handleUseMaxAmountButtonClicked :: "'j withdraw_env \<Rightarrow> ('j withdraw_tab, unit) prog" where
  "handleUseMaxAmountButtonClicked E = reading (\<lambda>s.
     andthen (require Bad_lexical_cast (maximumWithdrawalAmountIncorporatingFee (app_BalanceForDisplayingOnly s))) (\<lambda>x.
     andthen (modify (\<lambda>s. s\<lparr>m_DesiredAmountToWithdrawLineEdit := formatDoubleAs8decimalPlacesString x\<rparr>)) (\<lambda>_.
     calculateTotalAmountWithdrawnAfterFeeForVisual E)))"

text \<open>The page appears with the smallest amount typed in.\<close>

definition withdraw_populateAndInitialize :: "('j withdraw_tab, unit) prog" where
  "withdraw_populateAndInitialize = reading (\<lambda>s.
     andthen (require Bad_lexical_cast (maximumWithdrawalAmountIncorporatingFee (app_BalanceForDisplayingOnly s))) (\<lambda>x.
     andthen (require Bad_lexical_cast (satoshiStringToJsonString (app_BalanceForDisplayingOnly s))) (\<lambda>balance.
     andthen (say (MaximumAvailable balance (formatDoubleAs8decimalPlacesString x))) (\<lambda>_.
     modify (\<lambda>s. s\<lparr>m_DesiredAmountToWithdrawLineEdit := ABC2_MIN_WITHDRAW_AMOUNT_STR,
       m_WithdrawalFeeLineEdit := formatDoubleAs8decimalPlacesString (withdrawalFeeForWithdrawalAmount ABC2_MIN_WITHDRAW_AMOUNT),
       m_TotalWithdrawAmountVisualOnlyLineEdit := [], m_BitcoinPayoutKeyLineEdit := []\<rparr>)))))"

definition withdraw_onTabBeingShown :: "('j withdraw_tab, unit) prog" where
  "withdraw_onTabBeingShown = reading (\<lambda>s. if \<not> withdraw_PopulatedAndInitializing s then
     andthen withdraw_populateAndInitialize (\<lambda>_. modify (\<lambda>s. s\<lparr>withdraw_PopulatedAndInitializing := True\<rparr>))
   else return ())"

subsection \<open>Scheduling a request\<close>

definition handleRequestWithdrawalButtonClicked :: "'j withdraw_env \<Rightarrow> ('j withdraw_tab, unit) prog" where
  "handleRequestWithdrawalButtonClicked E = reading (\<lambda>s.
     if \<not> wd_amount_valid E (m_DesiredAmountToWithdrawLineEdit s) then say InvalidAmount
     else if \<not> bitcoin_key_valid (m_BitcoinPayoutKeyLineEdit s) then say InvalidBitcoinKey
     else andthen (app_get (userAccountKey (app_User s)) GETPROFILEBEFORESCHEDULINGWITHDRAWFUNDSREQUEST) (\<lambda>_. app_defer))"

text \<open>What the tab takes from the balance: the amount with its fee, in satoshis.\<close>

definition total_to_withdraw :: "rat \<Rightarrow> int" where
  "total_to_withdraw desiredAmountToWithdraw =
    (let withdrawalFee = withdrawalFeeForWithdrawalAmount desiredAmountToWithdraw;
         totalAmountToWithdrawAfterFeeApplied = dadd desiredAmountToWithdraw withdrawalFee
     in jsonDoubleToSatoshiIntIncludingRounding totalAmountToWithdrawAfterFeeApplied)"

definition verifyBalanceIsGreaterThanOrEqualToTheirRequestedWithdrawAmount ::
  "'j withdraw_env \<Rightarrow> 'j \<Rightarrow> bool \<Rightarrow> bool \<Rightarrow> ('j withdraw_tab, unit) prog" where
  "verifyBalanceIsGreaterThanOrEqualToTheirRequestedWithdrawAmount E userProfileDoc lcbOpSuccess dbError =
    (if dbError then say_and_resume Withdraw500
     else if \<not> lcbOpSuccess then say_and_resume Withdraw500
     else
     andthen (parse_json (wd_json E) userProfileDoc) (\<lambda>pt.
     andthen (pt_need JSON_USER_ACCOUNT_BALANCE pt) (\<lambda>userBalanceInSatoshisStr.
     andthen (require Bad_lexical_cast (lexical_cast_longlong userBalanceInSatoshisStr)) (\<lambda>userBalanceInSatoshis.
     reading (\<lambda>s.
     andthen (require Bad_lexical_cast (wd_cast_double E (m_DesiredAmountToWithdrawLineEdit s))) (\<lambda>desiredAmountToWithdraw.
     if userBalanceInSatoshis < total_to_withdraw desiredAmountToWithdraw
     then say_and_resume InsufficientFundsToWithdraw
     else app_get_saving_cas (withdrawFundsRequestsNextAvailableIndexKey (app_User s))
       GETWITHDRAWREQUESTINDEXBECAUSEWEWANTTOSCHEDULEAWITHDRAWDUH))))))"

definition attemptToLcbAddWithdrawRequest :: "('j withdraw_tab, unit) prog" where
  "attemptToLcbAddWithdrawRequest = reading (\<lambda>s.
     andthen (require Bad_lexical_cast (lexical_cast_int (m_WithdrawRequestIndexToTryLcbAddingAt s))) (\<lambda>rangeCheck.
     if rangeCheck = 2 ^ 31 - 1 then say_and_resume TooManyRequests
     else app_add (withdrawFundsRequestKey (app_User s) (m_WithdrawRequestIndexToTryLcbAddingAt s))
       (m_WithdrawRequestDocBeingCreated s) ATTEMPTTOADDWITHDRAWREQUESTATINDEX))"

definition withdraw_request_doc :: "int \<Rightarrow> string \<Rightarrow> ptree" where
  "withdraw_request_doc amountInSatoshis bitcoinKey = pt_put JSON_WITHDRAW_FUNDS_REQUEST_STATE_KEY STATE_UNPROCESSED
     (pt_put JSON_WITHDRAW_FUNDS_BITCOIN_PAYOUT_KEY bitcoinKey
     (pt_put JSON_WITHDRAW_FUNDS_REQUESTED_AMOUNT (show_int amountInSatoshis) pt_empty))"

definition useNextAvailableWithdrawRequestIndexToScheduleTheWithdrawRequest ::
  "'j withdraw_env \<Rightarrow> 'j \<Rightarrow> cas \<Rightarrow> bool \<Rightarrow> bool \<Rightarrow> ('j withdraw_tab, unit) prog" where
  "useNextAvailableWithdrawRequestIndexToScheduleTheWithdrawRequest E withdrawRequestNextAvailalbeIndexDoc c lcbOpSuccess dbError =
    (if dbError then say_and_resume Withdraw500
     else
     andthen (modify (\<lambda>s. s\<lparr>m_WithdrawRequestIndexToTryLcbAddingAt := ''0''\<rparr>)) (\<lambda>_.
     andthen (if lcbOpSuccess then
         andthen (parse_json (wd_json E) withdrawRequestNextAvailalbeIndexDoc) (\<lambda>pt.
         andthen (pt_need JSON_WITHDRAW_FUNDS_REQUESTS_NEXT_AVAILABLE_INDEX pt) (\<lambda>i.
         modify (\<lambda>s. s\<lparr>m_WithdrawRequestIndexToTryLcbAddingAt := i, m_CasOfWithdrawRequestIndexDoc_OrZeroIfDocDoesNotExist := c\<rparr>)))
       else modify (\<lambda>s. s\<lparr>m_CasOfWithdrawRequestIndexDoc_OrZeroIfDocDoesNotExist := 0\<rparr>)) (\<lambda>_.
     reading (\<lambda>s.
     andthen (require Bad_lexical_cast (jsonStringToSatoshiInt (wd_cast_double E) (m_DesiredAmountToWithdrawLineEdit s))) (\<lambda>amountInSatoshis.
     andthen (modify (\<lambda>s. s\<lparr>m_WithdrawRequestDocBeingCreated :=
         write_json (wd_json E) (withdraw_request_doc amountInSatoshis (m_BitcoinPayoutKeyLineEdit s))\<rparr>)) (\<lambda>_.
     attemptToLcbAddWithdrawRequest))))))"

definition next_request_doc :: "int \<Rightarrow> ptree" where
  "next_request_doc i = pt_put JSON_WITHDRAW_FUNDS_REQUESTS_NEXT_AVAILABLE_INDEX (show_int i) pt_empty"

definition handleAttemptToAddWithdrawRequestAtIndexFinished ::
  "'j withdraw_env \<Rightarrow> bool \<Rightarrow> bool \<Rightarrow> ('j withdraw_tab, unit) prog" where
  "handleAttemptToAddWithdrawRequestAtIndexFinished E lcbOpSuccess dbError =
    (if dbError then say_and_resume Withdraw500
     else reading (\<lambda>s.
     andthen (require Bad_lexical_cast (lexical_cast_int (m_WithdrawRequestIndexToTryLcbAddingAt s))) (\<lambda>i.
     if \<not> lcbOpSuccess then
       andthen (modify (\<lambda>s. s\<lparr>m_WithdrawRequestIndexToTryLcbAddingAt := show_int (wrap32 (i + 1))\<rparr>)) (\<lambda>_.
       attemptToLcbAddWithdrawRequest)
     else
     let k = withdrawFundsRequestsNextAvailableIndexKey (app_User s);
         doc = write_json (wd_json E) (next_request_doc (wrap32 (i + 1)))
     in
     andthen (if m_CasOfWithdrawRequestIndexDoc_OrZeroIfDocDoesNotExist s = 0
         then app_add k doc ADDWITHDRAWREQUESTINDEXIGNORINGRESPONSE
         else app_cas_store k doc (m_CasOfWithdrawRequestIndexDoc_OrZeroIfDocDoesNotExist s)
           CASSWAPWITHDRAWREQUESTINDEXIGNORINGRESPONSE) (\<lambda>_.
     andthen (say (RequestScheduled (m_WithdrawRequestIndexToTryLcbAddingAt s))) (\<lambda>_.
     modify (\<lambda>s. s\<lparr>m_DesiredAmountToWithdrawLineEdit := ABC2_MIN_WITHDRAW_AMOUNT_STR, m_BitcoinPayoutKeyLineEdit := []\<rparr>))))))"

subsection \<open>The page\<close>

datatype withdraw_click = ShowWithdraw | TypeWithdraw string string | ClickUseMax | ClickCalculate | ClickRequestWithdrawal

text \<open>Rendering that is deferred lets no event through; the page must be there. Typing recalculates where the browser runs JavaScript;
  otherwise a button does.\<close>

fun withdraw_can_click :: "withdraw_click \<Rightarrow> 'j withdraw_tab \<Rightarrow> bool" where
  "withdraw_can_click ShowWithdraw s = (app_DeferCount s \<le> 0)"
| "withdraw_can_click _ s = (app_DeferCount s \<le> 0 \<and> withdraw_PopulatedAndInitializing s)"

fun withdraw_on_click :: "'j withdraw_env \<Rightarrow> withdraw_click \<Rightarrow> ('j withdraw_tab, unit) prog" where
  "withdraw_on_click E ShowWithdraw = withdraw_onTabBeingShown"
| "withdraw_on_click E (TypeWithdraw amount bitcoinKey) =
     modify (\<lambda>s. s\<lparr>m_DesiredAmountToWithdrawLineEdit := amount, m_BitcoinPayoutKeyLineEdit := bitcoinKey\<rparr>)"
| "withdraw_on_click E ClickUseMax = handleUseMaxAmountButtonClicked E"
| "withdraw_on_click E ClickCalculate = calculateTotalAmountWithdrawnAfterFeeForVisual E"
| "withdraw_on_click E ClickRequestWithdrawal = handleRequestWithdrawalButtonClicked E"

text \<open>The cases of the application's dispatch that belong to this tab. An answer resumes rendering before anything else; the answer to the
  update of the next index is ignored but for a second resume.\<close>

fun withdraw_on_answer :: "'j withdraw_env \<Rightarrow> 'j app_answer \<Rightarrow> ('j withdraw_tab, unit) prog" where
  "withdraw_on_answer E (GetFinished k d ok err) = andthen app_resume (\<lambda>_. reading (\<lambda>s. case app_WhatTheGetWasFor s of
      GETPROFILEBEFORESCHEDULINGWITHDRAWFUNDSREQUEST \<Rightarrow>
        verifyBalanceIsGreaterThanOrEqualToTheirRequestedWithdrawAmount E d ok err
    | _ \<Rightarrow> return ()))"
| "withdraw_on_answer E (GetSavingCasFinished k d c ok err) = andthen app_resume (\<lambda>_. reading (\<lambda>s. case app_WhatTheGetSavingCasWasFor s of
      GETWITHDRAWREQUESTINDEXBECAUSEWEWANTTOSCHEDULEAWITHDRAWDUH \<Rightarrow>
        useNextAvailableWithdrawRequestIndexToScheduleTheWithdrawRequest E d c ok err
    | _ \<Rightarrow> return ()))"
| "withdraw_on_answer E (AddFinished k ok err) = andthen app_resume (\<lambda>_. reading (\<lambda>s. case app_WhatTheStoreWithoutInputCasWasFor s of
      ATTEMPTTOADDWITHDRAWREQUESTATINDEX \<Rightarrow> handleAttemptToAddWithdrawRequestAtIndexFinished E ok err
    | ADDWITHDRAWREQUESTINDEXIGNORINGRESPONSE \<Rightarrow> app_resume
    | _ \<Rightarrow> return ()))"
| "withdraw_on_answer E (CasStoreFinished k ok err) = andthen app_resume (\<lambda>_. reading (\<lambda>s. case app_WhatTheStoreWithInputCasWasFor s of
      CASSWAPWITHDRAWREQUESTINDEXIGNORINGRESPONSE \<Rightarrow> app_resume
    | _ \<Rightarrow> return ()))"

definition withdraw_page :: "'j withdraw_env \<Rightarrow> ('j withdraw_tab, withdraw_click, 'j) page" where
  "withdraw_page E = \<lparr>can_click = withdraw_can_click, on_click = withdraw_on_click E, on_answer = withdraw_on_answer E\<rparr>"

lemma withdraw_page_sel [simp]: "can_click (withdraw_page E) = withdraw_can_click" "on_click (withdraw_page E) = withdraw_on_click E"
  "on_answer (withdraw_page E) = withdraw_on_answer E"
  by (simp_all add: withdraw_page_def)

text \<open>A tab that was just constructed.\<close>

definition new_withdraw_tab :: "'j withdraw_tab \<Rightarrow> bool" where
  "new_withdraw_tab s \<longleftrightarrow> \<not> withdraw_PopulatedAndInitializing s \<and> app_DeferCount s = 0 \<and> app_pending s = [] \<and> app_log s = [] \<and> \<not> app_gone s"

lemmas withdraw_ops = maximumWithdrawalAmountIncorporatingFee_def calculateTotalAmountWithdrawnAfterFeeForVisual_def
  handleUseMaxAmountButtonClicked_def withdraw_populateAndInitialize_def withdraw_onTabBeingShown_def
  handleRequestWithdrawalButtonClicked_def verifyBalanceIsGreaterThanOrEqualToTheirRequestedWithdrawAmount_def
  attemptToLcbAddWithdrawRequest_def useNextAvailableWithdrawRequestIndexToScheduleTheWithdrawRequest_def
  handleAttemptToAddWithdrawRequestAtIndexFinished_def

end
