(* ===== verification/WithdrawTabSafety.thy ===== *)
theory WithdrawTabSafety
  imports WithdrawTab
begin

section \<open>Every scheduled withdrawal was covered\<close>

text \<open>
  The invariant of a session of the withdrawal tab: it is in one of the phases of scheduling a request, and every request in its log was
  justified by what the log shows before it.
\<close>

subsection \<open>What justifies a request\<close>

definition is_profile_answer :: "('j, 'm) app_event \<Rightarrow> bool" where
  "is_profile_answer x \<longleftrightarrow> (\<exists>k d ok err. x = Answered (GetFinished k d ok err))"

text \<open>The last account document that the session received has a balance of at least the total for the amount \<open>x\<close>.\<close>

definition funds_known :: "'j withdraw_env \<Rightarrow> string \<Rightarrow> ('j, 'm) app_event list \<Rightarrow> rat \<Rightarrow> bool" where
  "funds_known E user h x \<longleftrightarrow> (\<exists>h1 h2 d pt t b. h = h1 @ Answered (GetFinished (userAccountKey user) d True False) # h2
     \<and> list_all (\<lambda>e. \<not> is_profile_answer e) h2 \<and> read_json (wd_json E) d = Some pt \<and> pt_get JSON_USER_ACCOUNT_BALANCE pt = Some t
     \<and> lexical_cast_longlong t = Some b \<and> total_to_withdraw x \<le> b)"

definition wanted_doc :: "'j withdraw_env \<Rightarrow> ('j, 'm) app_event list \<Rightarrow> string \<Rightarrow> 'j \<Rightarrow> bool" where
  "wanted_doc E h user doc \<longleftrightarrow> (\<exists>amount x bitcoinKey. wd_amount_valid E amount \<and> wd_cast_double E amount = Some x
     \<and> bitcoin_key_valid bitcoinKey \<and> funds_known E user h x
     \<and> doc = write_json (wd_json E) (withdraw_request_doc (jsonDoubleToSatoshiIntIncludingRounding x) bitcoinKey))"

fun request_justified :: "'j withdraw_env \<Rightarrow> string \<Rightarrow> ('j, 'm) app_event list \<Rightarrow> 'j app_request \<Rightarrow> bool" where
  "request_justified E user h (AppGet k) = (k = userAccountKey user)"
| "request_justified E user h (AppGetSavingCas k) = (k = withdrawFundsRequestsNextAvailableIndexKey user)"
| "request_justified E user h (AppAdd k d) = (k = withdrawFundsRequestsNextAvailableIndexKey user
     \<or> (\<exists>i n. k = withdrawFundsRequestKey user i \<and> lexical_cast_int i = Some n \<and> n < 2 ^ 31 - 1 \<and> wanted_doc E h user d))"
| "request_justified E user h (AppCasStore k d c) = (k = withdrawFundsRequestsNextAvailableIndexKey user)"

definition log_justified :: "'j withdraw_env \<Rightarrow> string \<Rightarrow> ('j, 'm) app_event list \<Rightarrow> bool" where
  "log_justified E user h \<longleftrightarrow> (\<forall>h1 r h2. h = h1 @ Asked r # h2 \<longrightarrow> request_justified E user h1 r)"

lemma log_justified_Nil [simp]: "log_justified E user []"
  by (simp add: log_justified_def)

lemma log_justified_snoc [simp]: "log_justified E user (h @ [x])
    \<longleftrightarrow> log_justified E user h \<and> (\<forall>r. x = Asked r \<longrightarrow> request_justified E user h r)"
proof
  assume a: "log_justified E user (h @ [x])"
  have "request_justified E user h1 r" if "h = h1 @ Asked r # h2" for h1 r h2
    using a that unfolding log_justified_def by (metis append.assoc append_Cons)
  then show "log_justified E user h \<and> (\<forall>r. x = Asked r \<longrightarrow> request_justified E user h r)"
    using a unfolding log_justified_def by blast
next
  assume a: "log_justified E user h \<and> (\<forall>r. x = Asked r \<longrightarrow> request_justified E user h r)"
  show "log_justified E user (h @ [x])"
    unfolding log_justified_def
  proof (intro allI impI)
    fix h1 r h2
    assume e: "h @ [x] = h1 @ Asked r # h2"
    show "request_justified E user h1 r"
    proof (cases h2 rule: rev_cases)
      case Nil
      then show ?thesis using a e by simp
    next
      case (snoc h3 y)
      then have "h = h1 @ Asked r # h3" using e by (metis append.assoc append_Cons append1_eq_conv)
      then show ?thesis using a unfolding log_justified_def by blast
    qed
  qed
qed

lemma log_justified_two [simp]: "log_justified E user (h @ [x, y])
    \<longleftrightarrow> log_justified E user (h @ [x]) \<and> (\<forall>r. y = Asked r \<longrightarrow> request_justified E user (h @ [x]) r)"
  using log_justified_snoc [of E user "h @ [x]" y] by simp

text \<open>Justifications stay while no other account document arrives.\<close>

lemma funds_known_snoc [simp]: "funds_known E user h x \<Longrightarrow> \<not> is_profile_answer y \<Longrightarrow> funds_known E user (h @ [y]) x"
  unfolding funds_known_def by force

lemma wanted_doc_snoc [simp]: "wanted_doc E h user d \<Longrightarrow> \<not> is_profile_answer y \<Longrightarrow> wanted_doc E (h @ [y]) user d"
  unfolding wanted_doc_def using funds_known_snoc by blast

lemma not_profile [simp]: "\<not> is_profile_answer (Asked r)" "\<not> is_profile_answer (Said m)"
  "\<not> is_profile_answer (Answered (GetSavingCasFinished k d c ok err))" "\<not> is_profile_answer (Answered (AddFinished k ok err))"
  "\<not> is_profile_answer (Answered (CasStoreFinished k ok err))"
  by (simp_all add: is_profile_answer_def)

lemma funds_known_now: "read_json (wd_json E) d = Some pt \<Longrightarrow> pt_get JSON_USER_ACCOUNT_BALANCE pt = Some t
    \<Longrightarrow> lexical_cast_longlong t = Some b \<Longrightarrow> total_to_withdraw x \<le> b
    \<Longrightarrow> funds_known E user (h @ [Answered (GetFinished (userAccountKey user) d True False)]) x"
  unfolding funds_known_def by fastforce

subsection \<open>The phases\<close>

datatype withdraw_phase = WIdle | ReadingProfile | ReadingIndex | AddingRequest | NotingIndex

definition inputs_valid :: "'j withdraw_env \<Rightarrow> 'j withdraw_tab \<Rightarrow> bool" where
  "inputs_valid E s \<longleftrightarrow> wd_amount_valid E (m_DesiredAmountToWithdrawLineEdit s) \<and> bitcoin_key_valid (m_BitcoinPayoutKeyLineEdit s)"

definition amount_known :: "'j withdraw_env \<Rightarrow> 'j withdraw_tab \<Rightarrow> bool" where
  "amount_known E s \<longleftrightarrow> (\<exists>x. wd_cast_double E (m_DesiredAmountToWithdrawLineEdit s) = Some x \<and> funds_known E (app_User s) (app_log s) x)"

fun withdraw_in :: "'j withdraw_env \<Rightarrow> withdraw_phase \<Rightarrow> 'j withdraw_tab \<Rightarrow> bool" where
  "withdraw_in E WIdle s = (app_pending s = [] \<and> app_DeferCount s = 0)"
| "withdraw_in E ReadingProfile s = (app_pending s = [AppGet (userAccountKey (app_User s))] \<and> app_DeferCount s = 2
     \<and> app_WhatTheGetWasFor s = GETPROFILEBEFORESCHEDULINGWITHDRAWFUNDSREQUEST \<and> inputs_valid E s)"
| "withdraw_in E ReadingIndex s = (app_pending s = [AppGetSavingCas (withdrawFundsRequestsNextAvailableIndexKey (app_User s))]
     \<and> app_DeferCount s = 2 \<and> app_WhatTheGetSavingCasWasFor s = GETWITHDRAWREQUESTINDEXBECAUSEWEWANTTOSCHEDULEAWITHDRAWDUH
     \<and> inputs_valid E s \<and> amount_known E s)"
| "withdraw_in E AddingRequest s = (app_pending s = [AppAdd (withdrawFundsRequestKey (app_User s)
       (m_WithdrawRequestIndexToTryLcbAddingAt s)) (m_WithdrawRequestDocBeingCreated s)]
     \<and> app_DeferCount s = 2 \<and> app_WhatTheStoreWithoutInputCasWasFor s = ATTEMPTTOADDWITHDRAWREQUESTATINDEX
     \<and> wanted_doc E (app_log s) (app_User s) (m_WithdrawRequestDocBeingCreated s))"
| "withdraw_in E NotingIndex s = (app_DeferCount s = 2 \<and> (\<exists>k d c. app_pending s = [AppAdd k d]
       \<and> app_WhatTheStoreWithoutInputCasWasFor s = ADDWITHDRAWREQUESTINDEXIGNORINGRESPONSE
     \<or> app_pending s = [AppCasStore k d c] \<and> app_WhatTheStoreWithInputCasWasFor s = CASSWAPWITHDRAWREQUESTINDEXIGNORINGRESPONSE))"

definition withdraw_inv :: "'j withdraw_env \<Rightarrow> 'j withdraw_tab \<Rightarrow> bool" where
  "withdraw_inv E s \<longleftrightarrow> log_justified E (app_User s) (app_log s) \<and> (app_gone s \<or> (\<exists>p. withdraw_in E p s))"

lemma withdraw_invI: "withdraw_in E p s \<Longrightarrow> log_justified E (app_User s) (app_log s) \<Longrightarrow> withdraw_inv E s"
  by (auto simp: withdraw_inv_def)

text \<open>A handler that throws leaves a log that is justified.\<close>

abbreviation withdraw_safe :: "'j withdraw_env \<Rightarrow> ('j withdraw_tab, unit) prog \<Rightarrow> 'j withdraw_tab \<Rightarrow> bool" where
  "withdraw_safe E m s \<equiv> runs_to m (\<lambda>_. withdraw_inv E) (\<lambda>s. log_justified E (app_User s) (app_log s)) s"

lemma withdraw_gone [simp]: "withdraw_inv E (s\<lparr>app_gone := True\<rparr>) \<longleftrightarrow> log_justified E (app_User s) (app_log s)"
  by (simp add: withdraw_inv_def)

lemma attempt_safe:
  assumes "app_pending s = []" "app_DeferCount s = 1" "log_justified E (app_User s) (app_log s)"
    and "wanted_doc E (app_log s) (app_User s) (m_WithdrawRequestDocBeingCreated s)"
  shows "withdraw_safe E attemptToLcbAddWithdrawRequest s"
proof -
  have "withdraw_safe E (if n = 2 ^ 31 - 1 then say_and_resume TooManyRequests
      else app_add (withdrawFundsRequestKey (app_User s) (m_WithdrawRequestIndexToTryLcbAddingAt s))
        (m_WithdrawRequestDocBeingCreated s) ATTEMPTTOADDWITHDRAWREQUESTATINDEX) s"
    if n: "lexical_cast_int (m_WithdrawRequestIndexToTryLcbAddingAt s) = Some n" for n
  proof (cases "n = 2 ^ 31 - 1")
    case True
    then show ?thesis using assms(1-3) by (simp add: run_rules app_ops) (rule withdraw_invI [of _ WIdle]; simp)
  next
    case False
    have "n < 2 ^ 31 - 1" using n False by (auto simp: lexical_cast_int_def read_range_def split: option.splits if_splits)
    then show ?thesis using assms n False by (simp add: run_rules app_ops) (rule withdraw_invI [of _ AddingRequest]; auto)
  qed
  then show ?thesis using assms(3) by (auto simp: attemptToLcbAddWithdrawRequest_def run_rules split: option.splits)
qed

lemma verify_safe:
  assumes "app_pending s = []" "app_DeferCount s = 1" "log_justified E (app_User s) (app_log s)" "inputs_valid E s"
    and "ok \<Longrightarrow> \<not> err \<Longrightarrow> \<exists>h. app_log s = h @ [Answered (GetFinished (userAccountKey (app_User s)) d True False)]"
  shows "withdraw_safe E (verifyBalanceIsGreaterThanOrEqualToTheirRequestedWithdrawAmount E d ok err) s"
proof (cases "err \<or> \<not> ok")
  case True
  then show ?thesis using assms(1-3)
    by (auto simp: verifyBalanceIsGreaterThanOrEqualToTheirRequestedWithdrawAmount_def run_rules app_ops intro!: withdraw_invI [of _ WIdle])
next
  case False
  with assms(5) obtain h where h: "app_log s = h @ [Answered (GetFinished (userAccountKey (app_User s)) d True False)]" by blast
  have *: "withdraw_safe E (if b < total_to_withdraw x then say_and_resume InsufficientFundsToWithdraw
      else app_get_saving_cas (withdrawFundsRequestsNextAvailableIndexKey (app_User s))
        GETWITHDRAWREQUESTINDEXBECAUSEWEWANTTOSCHEDULEAWITHDRAWDUH) s"
    if "read_json (wd_json E) d = Some pt" "pt_get JSON_USER_ACCOUNT_BALANCE pt = Some t" "lexical_cast_longlong t = Some b"
      "wd_cast_double E (m_DesiredAmountToWithdrawLineEdit s) = Some x" for pt t b x
  proof (cases "b < total_to_withdraw x")
    case True
    then show ?thesis using assms(1-3) by (simp add: run_rules app_ops) (rule withdraw_invI [of _ WIdle]; simp)
  next
    case False
    then have "funds_known E (app_User s) (app_log s) x"
      unfolding h using that by (intro funds_known_now) auto
    then show ?thesis using assms that False
      by (simp add: run_rules app_ops) (rule withdraw_invI [of _ ReadingIndex]; auto simp: amount_known_def inputs_valid_def)
  qed
  from False * show ?thesis using assms(3)
    by (auto simp: verifyBalanceIsGreaterThanOrEqualToTheirRequestedWithdrawAmount_def run_rules split: option.splits)
qed

lemma use_index_safe:
  assumes "app_pending s = []" "app_DeferCount s = 1" "log_justified E (app_User s) (app_log s)" "inputs_valid E s" "amount_known E s"
  shows "withdraw_safe E (useNextAvailableWithdrawRequestIndexToScheduleTheWithdrawRequest E d c ok err) s"
proof (cases err)
  case True
  then show ?thesis using assms(1-3)
    by (simp add: useNextAvailableWithdrawRequestIndexToScheduleTheWithdrawRequest_def run_rules app_ops)
      (rule withdraw_invI [of _ WIdle]; simp)
next
  case False
  from assms(5) obtain x where x: "wd_cast_double E (m_DesiredAmountToWithdrawLineEdit s) = Some x"
    "funds_known E (app_User s) (app_log s) x" by (auto simp: amount_known_def)
  have w: "wanted_doc E (app_log s) (app_User s)
      (write_json (wd_json E) (withdraw_request_doc (jsonDoubleToSatoshiIntIncludingRounding x) (m_BitcoinPayoutKeyLineEdit s)))"
    using x assms(4) unfolding wanted_doc_def inputs_valid_def by blast
  show ?thesis using False assms(1-3) x w
    by (auto simp: useNextAvailableWithdrawRequestIndexToScheduleTheWithdrawRequest_def run_rules jsonStringToSatoshiInt_def
        intro!: attempt_safe split: option.splits)
qed

lemma added_safe:
  assumes "app_pending s = []" "app_DeferCount s = 1" "log_justified E (app_User s) (app_log s)"
    and "wanted_doc E (app_log s) (app_User s) (m_WithdrawRequestDocBeingCreated s)"
  shows "withdraw_safe E (handleAttemptToAddWithdrawRequestAtIndexFinished E ok err) s"
proof (cases "err \<or> \<not> ok")
  case True
  then show ?thesis using assms
    by (auto simp: handleAttemptToAddWithdrawRequestAtIndexFinished_def run_rules app_ops intro!: attempt_safe withdraw_invI [of _ WIdle]
        split: option.splits)
next
  case False
  then show ?thesis using assms(1-3)
    by (auto simp: handleAttemptToAddWithdrawRequestAtIndexFinished_def run_rules app_ops Let_def
        intro!: withdraw_invI [of _ NotingIndex] split: option.splits)
qed

lemma withdraw_click_safe:
  assumes "withdraw_inv E s" "\<not> app_gone s" "withdraw_can_click c s"
  shows "withdraw_inv E (left (withdraw_on_click E c s))"
proof -
  have d: "app_DeferCount s \<le> 0" using assms(3) by (cases c) simp_all
  obtain p where p: "withdraw_in E p s" and l: "log_justified E (app_User s) (app_log s)"
    using assms(1,2) by (auto simp: withdraw_inv_def)
  from p d have i: "app_pending s = []" "app_DeferCount s = 0" by (cases p; simp)+
  note show_rules = run_rules withdraw_ops app_ops Let_def
  have "withdraw_safe E (withdraw_on_click E c) s"
  proof (cases c)
    case ClickRequestWithdrawal
    show ?thesis
    proof (cases "inputs_valid E s")
      case True
      then show ?thesis using ClickRequestWithdrawal i l
        by (auto simp: show_rules inputs_valid_def intro!: withdraw_invI [of _ ReadingProfile])
    next
      case False
      then show ?thesis using ClickRequestWithdrawal i l
        by (auto simp: show_rules inputs_valid_def intro!: withdraw_invI [of _ WIdle])
    qed
  qed (use i l in \<open>auto simp: show_rules intro!: withdraw_invI [of _ WIdle] split: option.splits\<close>)
  then show ?thesis by (intro runs_left [of _ "withdraw_inv E"]) simp
qed

lemma withdraw_answer_safe:
  assumes "withdraw_inv E s" "\<not> app_gone s" "app_pending s = xs @ r # ys" "app_answers db r a db'"
  shows "withdraw_inv E (left (withdraw_on_answer E a (received (xs @ ys) a s)))"
proof -
  obtain p where p: "withdraw_in E p s" and l: "log_justified E (app_User s) (app_log s)"
    using assms(1,2) by (auto simp: withdraw_inv_def)
  have one: "xs = [] \<and> ys = [] \<and> app_pending s = [r]"
    using p assms(3) by (cases p) (auto simp: append_eq_Cons_conv)
  have "withdraw_safe E (withdraw_on_answer E a) (received [] a s)"
  proof (cases p)
    case WIdle
    then show ?thesis using p one by simp
  next
    case ReadingProfile
    with p one have r: "r = AppGet (userAccountKey (app_User s))" by simp
    from assms(4) [unfolded r] show ?thesis
      by (cases rule: app_answersE(1))
        (use ReadingProfile p l r in \<open>auto simp: run_rules received_def app_resume_def inputs_valid_def intro!: verify_safe\<close>)
  next
    case ReadingIndex
    with p one have r: "r = AppGetSavingCas (withdrawFundsRequestsNextAvailableIndexKey (app_User s))" by simp
    from assms(4) [unfolded r] show ?thesis
      by (cases rule: app_answersE(2))
        (use ReadingIndex p l r in \<open>auto simp: run_rules received_def app_resume_def inputs_valid_def amount_known_def intro!: use_index_safe\<close>)
  next
    case AddingRequest
    with p one have "\<exists>k d. r = AppAdd k d" by simp
    then obtain k d where r: "r = AppAdd k d" by blast
    from assms(4) [unfolded r] show ?thesis
      by (cases rule: app_answersE(3))
        (use AddingRequest p l r in \<open>auto simp: run_rules received_def app_resume_def intro!: added_safe\<close>)
  next
    case NotingIndex
    with p one consider k d where "r = AppAdd k d" "app_WhatTheStoreWithoutInputCasWasFor s = ADDWITHDRAWREQUESTINDEXIGNORINGRESPONSE"
      | k d c where "r = AppCasStore k d c" "app_WhatTheStoreWithInputCasWasFor s = CASSWAPWITHDRAWREQUESTINDEXIGNORINGRESPONSE"
      by auto
    then show ?thesis
    proof cases
      case 1
      from assms(4) [unfolded 1(1)] show ?thesis
        by (cases rule: app_answersE(3))
          (use NotingIndex p l 1 in \<open>auto simp: run_rules received_def app_resume_def intro!: withdraw_invI [of _ WIdle]\<close>)
    next
      case 2
      from assms(4) [unfolded 2(1)] show ?thesis
        by (cases rule: app_answersE(4))
          (use NotingIndex p l 2 in \<open>auto simp: run_rules received_def app_resume_def intro!: withdraw_invI [of _ WIdle]\<close>)
    qed
  qed
  then show ?thesis using one by (intro runs_left [of _ "withdraw_inv E"]) simp
qed

lemma withdraw_reach:
  assumes "site_reach (withdraw_page E) own w0 w" "\<And>n. new_withdraw_tab (site_session w0 n)"
  shows "withdraw_inv E (site_session w n)"
  using assms(1)
proof (rule site_invariant)
  show "withdraw_inv E (site_session w0 n)" for n
    using assms(2) [of n] by (auto simp: new_withdraw_tab_def intro!: withdraw_invI [of _ WIdle])
next
  show "withdraw_inv E (left (on_click (withdraw_page E) c s))"
    if "withdraw_inv E s" "\<not> app_gone s" "can_click (withdraw_page E) c s" for c s
    using withdraw_click_safe that by simp
next
  show "withdraw_inv E (left (on_answer (withdraw_page E) a (received (xs @ ys) a s)))"
    if "withdraw_inv E s" "\<not> app_gone s" "app_pending s = xs @ r # ys" "app_answers db r a db'" for db db' a s xs r ys
    using withdraw_answer_safe that by simp
qed (simp add: withdraw_inv_def)

end
