(* ===== verification/IndexWalk.thy ===== *)
theory IndexWalk
  imports TabApp
begin

section \<open>Adding a document at the first free index\<close>

text \<open>
  Withdrawal requests and campaigns are numbered documents. To add one, a page tries the index that a cache document names and, as long as
  the add is refused, the next one, up to the largest \<open>int\<close>. The locale says what the two handlers of a page must do for that; its lemmas
  show that the walk ends at the first free index, or gives up when there is none. \<open>trying i\<close> describes the session while its add at
  index \<open>i\<close> is pending.
\<close>

abbreviation INT_MAX :: int where "INT_MAX \<equiv> 2147483647"

definition taken :: "'j db \<Rightarrow> (string \<Rightarrow> string) \<Rightarrow> int \<Rightarrow> nat \<Rightarrow> bool" where
  "taken db item_key i m \<longleftrightarrow> (\<forall>j < m. db (item_key (show_int (i + int j))) \<noteq> [])"

lemma taken_0 [simp]: "taken db item_key i 0"
  by (simp add: taken_def)

lemma taken_Suc: "taken db item_key i (Suc m) \<longleftrightarrow> db (item_key (show_int i)) \<noteq> [] \<and> taken db item_key (i + 1) m"
proof -
  have "(\<forall>j < Suc m. Q j) \<longleftrightarrow> Q 0 \<and> (\<forall>j < m. Q (Suc j))" for Q
    using less_Suc_eq_0_disj by auto
  then show ?thesis by (simp add: taken_def algebra_simps)
qed

locale index_walk =
  fixes P :: "(('j, 'm, 'z) app_scheme, 'c, 'j) page"
    and item_key :: "string \<Rightarrow> string"
    and doc :: 'j
    and trying :: "string \<Rightarrow> ('j, 'm, 'z) app_scheme \<Rightarrow> bool"
    and gave_up :: "('j, 'm, 'z) app_scheme \<Rightarrow> bool"
  assumes add_pending: "trying i s \<Longrightarrow> app_pending s = [AppAdd (item_key i) doc] \<and> \<not> app_gone s"
    and tries_next: "trying (show_int n) s \<Longrightarrow> 0 \<le> n \<Longrightarrow> n + 1 < INT_MAX
      \<Longrightarrow> \<exists>s'. on_answer P (AddFinished k False False) (received [] (AddFinished k False False) s) = Ret () s' \<and> trying (show_int (n + 1)) s'"
    and gives_up: "trying (show_int n) s \<Longrightarrow> 0 \<le> n \<Longrightarrow> n + 1 = INT_MAX
      \<Longrightarrow> \<exists>s'. on_answer P (AddFinished k False False) (received [] (AddFinished k False False) s) = Ret () s' \<and> gave_up s'"
begin

lemma refused:
  assumes "trying i s" "db (item_key i) \<noteq> []"
    and "on_answer P (AddFinished (item_key i) False False) (received [] (AddFinished (item_key i) False False) s) = Ret () s'"
  shows "app_served P pick d0 (db, s) = Some (db, s')"
  using assms add_pending [OF assms(1)] by (simp add: app_served_def)

text \<open>The walk over taken indices, one answer each.\<close>

lemma walk:
  assumes "trying (show_int n) s" "taken db item_key n m" "0 \<le> n" "n + int m < INT_MAX"
  shows "\<exists>s'. app_serves P pick d0 m (db, s) = Some (db, s') \<and> trying (show_int (n + int m)) s'"
  using assms
proof (induction m arbitrary: n s)
  case (Suc m)
  then have t: "db (item_key (show_int n)) \<noteq> []" "taken db item_key (n + 1) m" by (simp_all add: taken_Suc)
  obtain s1 where s1: "on_answer P (AddFinished (item_key (show_int n)) False False)
      (received [] (AddFinished (item_key (show_int n)) False False) s) = Ret () s1" "trying (show_int (n + 1)) s1"
    using tries_next [OF Suc(2)] Suc(4,5) by auto
  obtain s' where "app_serves P pick d0 m (db, s1) = Some (db, s')" "trying (show_int (n + 1 + int m)) s'"
    using Suc(1) [OF s1(2) t(2)] Suc(4,5) by auto
  with refused [where db = db, OF Suc(2) t(1) s1(1), of pick d0] show ?case by (simp add: add.assoc)
qed simp

text \<open>Whatever documents there are, the walk ends: at the first free index, or with the user told that there is none.\<close>

lemma walk_ends:
  assumes "trying (show_int n) s" "0 \<le> n" "n < INT_MAX"
  shows "\<exists>m s'. app_serves P pick d0 m (db, s) = Some (db, s') \<and> n + int m \<le> INT_MAX \<and> taken db item_key n m
    \<and> (if n + int m = INT_MAX then gave_up s' else db (item_key (show_int (n + int m))) = [] \<and> trying (show_int (n + int m)) s')"
  using assms
proof (induction "nat (INT_MAX - n)" arbitrary: n s)
  case (Suc r)
  show ?case
  proof (cases "db (item_key (show_int n)) = []")
    case True
    then show ?thesis using Suc(3-5) by (intro exI [of _ 0] exI [of _ s]) simp
  next
    case taken_here: False
    note run = refused [where db = db, OF Suc(3) taken_here]
    show ?thesis
    proof (cases "n + 1 = INT_MAX")
      case True
      obtain s1 where "on_answer P (AddFinished (item_key (show_int n)) False False)
          (received [] (AddFinished (item_key (show_int n)) False False) s) = Ret () s1" "gave_up s1"
        using gives_up [OF Suc(3,4) True] by blast
      then show ?thesis using run [of s1 pick d0] taken_here True
        by (intro exI [of _ 1] exI [of _ s1]) (simp add: taken_Suc)
    next
      case False
      obtain s1 where s1: "on_answer P (AddFinished (item_key (show_int n)) False False)
          (received [] (AddFinished (item_key (show_int n)) False False) s) = Ret () s1" "trying (show_int (n + 1)) s1"
        using tries_next [OF Suc(3,4)] Suc(5) False by auto
      have "r = nat (INT_MAX - (n + 1))" using Suc(2) by simp
      from Suc(1) [OF this s1(2)] Suc(4,5) False obtain m s' where
        m: "app_serves P pick d0 m (db, s1) = Some (db, s')" "n + 1 + int m \<le> INT_MAX" "taken db item_key (n + 1) m"
          "if n + 1 + int m = INT_MAX then gave_up s'
           else db (item_key (show_int (n + 1 + int m))) = [] \<and> trying (show_int (n + 1 + int m)) s'" by auto
      have e: "n + int (Suc m) = n + 1 + int m" by simp
      show ?thesis
        by (rule exI [of _ "Suc m"], rule exI [of _ s'], unfold e)
          (use m taken_here run [OF s1(1), of pick d0] in \<open>simp add: taken_Suc\<close>)
    qed
  qed
qed simp

end

end
