(* ===== verification/WithdrawTabRuns.thy ===== *)
theory WithdrawTabRuns
  imports WithdrawTabSafety IndexWalk Withdraw
begin

section \<open>Scheduling a withdrawal, from the click to the answer\<close>

text \<open>
  The run of one request on an undisturbed database, and the interpretation of the index walk on the tab's handlers. The last part compares
  the amounts: what the tab takes from the balance, what the processor takes, and what the button for the maximum amount types in.
\<close>

subsection \<open>The walk over the indices\<close>

definition withdraw_trying :: "string \<Rightarrow> 'j \<Rightarrow> cas \<Rightarrow> withdraw_message list \<Rightarrow> string \<Rightarrow> 'j withdraw_tab \<Rightarrow> bool" where
  "withdraw_trying user doc c told i s \<longleftrightarrow> app_User s = user \<and> m_WithdrawRequestIndexToTryLcbAddingAt s = i
     \<and> m_WithdrawRequestDocBeingCreated s = doc \<and> m_CasOfWithdrawRequestIndexDoc_OrZeroIfDocDoesNotExist s = c
     \<and> app_pending s = [AppAdd (withdrawFundsRequestKey user i) doc] \<and> app_DeferCount s = 2
     \<and> app_WhatTheStoreWithoutInputCasWasFor s = ATTEMPTTOADDWITHDRAWREQUESTATINDEX \<and> said (app_log s) = told \<and> \<not> app_gone s"

text \<open>Rendering is resumed and nothing is pending; the user was told \<open>told\<close>.\<close>

definition withdraw_finished :: "withdraw_message list \<Rightarrow> 'j withdraw_tab \<Rightarrow> bool" where
  "withdraw_finished told s \<longleftrightarrow> app_pending s = [] \<and> app_DeferCount s = 0 \<and> said (app_log s) = told \<and> \<not> app_gone s"

lemmas withdraw_run = received_def app_ops andthen_def prog_run Let_def

interpretation withdraw_walk: index_walk "withdraw_page E" "withdrawFundsRequestKey user" doc "withdraw_trying user doc c told"
  "withdraw_finished (told @ [TooManyRequests])" for E user doc c told
proof unfold_locales
  show "app_pending s = [AppAdd (withdrawFundsRequestKey user i) doc] \<and> \<not> app_gone s" if "withdraw_trying user doc c told i s" for i s
    using that by (simp add: withdraw_trying_def)
next
  fix n s k
  assume t: "withdraw_trying user doc c told (show_int n) s" and n: "0 \<le> n" "n + 1 < INT_MAX"
  have "lexical_cast_int (show_int (n + 1)) = Some (n + 1)" "lexical_cast_int (show_int n) = Some n" "wrap32 (n + 1) = n + 1"
    using n by (simp_all add: lexical_cast_int_show_int wrap32_id)
  with t n show "\<exists>s'. on_answer (withdraw_page E) (AddFinished k False False) (received [] (AddFinished k False False) s) = Ret () s'
      \<and> withdraw_trying user doc c told (show_int (n + 1)) s'"
    by (simp add: withdraw_trying_def withdraw_run handleAttemptToAddWithdrawRequestAtIndexFinished_def
        attemptToLcbAddWithdrawRequest_def)
next
  fix n s k
  assume t: "withdraw_trying user doc c told (show_int n) s" and n: "0 \<le> n" "n + 1 = INT_MAX"
  then have "n = 2147483646" by simp
  have "lexical_cast_int (show_int 2147483647) = Some 2147483647" "lexical_cast_int (show_int n) = Some n" "wrap32 (n + 1) = 2147483647"
    using n by (simp_all add: lexical_cast_int_show_int wrap32_id)
  with t n show "\<exists>s'. on_answer (withdraw_page E) (AddFinished k False False) (received [] (AddFinished k False False) s) = Ret () s'
      \<and> withdraw_finished (told @ [TooManyRequests]) s'"
    by (simp add: withdraw_trying_def withdraw_finished_def withdraw_run handleAttemptToAddWithdrawRequestAtIndexFinished_def
        attemptToLcbAddWithdrawRequest_def)
qed

subsection \<open>The run of a request\<close>

text \<open>The page is idle, with an amount and a bitcoin key typed in.\<close>

definition withdraw_ready :: "string \<Rightarrow> string \<Rightarrow> string \<Rightarrow> withdraw_message list \<Rightarrow> 'j withdraw_tab \<Rightarrow> bool" where
  "withdraw_ready user amount bitcoinKey told s \<longleftrightarrow> app_User s = user \<and> m_DesiredAmountToWithdrawLineEdit s = amount
     \<and> m_BitcoinPayoutKeyLineEdit s = bitcoinKey \<and> withdraw_finished told s"

text \<open>The same while the request is on its way, with rendering deferred twice.\<close>

definition withdraw_waits :: "string \<Rightarrow> string \<Rightarrow> string \<Rightarrow> withdraw_message list \<Rightarrow> 'j app_request \<Rightarrow> 'j withdraw_tab \<Rightarrow> bool" where
  "withdraw_waits user amount bitcoinKey told r s \<longleftrightarrow> app_User s = user \<and> m_DesiredAmountToWithdrawLineEdit s = amount
     \<and> m_BitcoinPayoutKeyLineEdit s = bitcoinKey \<and> app_pending s = [r] \<and> app_DeferCount s = 2 \<and> said (app_log s) = told \<and> \<not> app_gone s"

lemmas withdraw_states = withdraw_ready_def withdraw_waits_def withdraw_finished_def withdraw_trying_def

lemma request_clicked:
  assumes "withdraw_ready user amount bitcoinKey told s" "wd_amount_valid E amount" "bitcoin_key_valid bitcoinKey"
  shows "\<exists>s'. withdraw_on_click E ClickRequestWithdrawal s = Ret () s'
    \<and> withdraw_waits user amount bitcoinKey told (AppGet (userAccountKey user)) s'
    \<and> app_WhatTheGetWasFor s' = GETPROFILEBEFORESCHEDULINGWITHDRAWFUNDSREQUEST"
  using assms by (simp add: withdraw_states withdraw_run handleRequestWithdrawalButtonClicked_def)

lemma profile_served:
  assumes "withdraw_waits user amount bitcoinKey told (AppGet (userAccountKey user)) s"
    and "app_WhatTheGetWasFor s = GETPROFILEBEFORESCHEDULINGWITHDRAWFUNDSREQUEST"
    and "current db (userAccountKey user) = Some (d, c)" "read_json (wd_json E) d = Some pt"
    and "pt_get JSON_USER_ACCOUNT_BALANCE pt = Some t" "lexical_cast_longlong t = Some b" "wd_cast_double E amount = Some x"
  shows "\<exists>s'. app_served (withdraw_page E) pick d0 (db, s) = Some (db, s') \<and> (if b < total_to_withdraw x
      then withdraw_finished (told @ [InsufficientFundsToWithdraw]) s'
      else withdraw_waits user amount bitcoinKey told (AppGetSavingCas (withdrawFundsRequestsNextAvailableIndexKey user)) s'
        \<and> app_WhatTheGetSavingCasWasFor s' = GETWITHDRAWREQUESTINDEXBECAUSEWEWANTTOSCHEDULEAWITHDRAWDUH)"
  using assms by (simp add: app_served_def withdraw_states withdraw_run
      verifyBalanceIsGreaterThanOrEqualToTheirRequestedWithdrawAmount_def)

lemma index_served:
  assumes "withdraw_waits user amount bitcoinKey told (AppGetSavingCas (withdrawFundsRequestsNextAvailableIndexKey user)) s"
    and "app_WhatTheGetSavingCasWasFor s = GETWITHDRAWREQUESTINDEXBECAUSEWEWANTTOSCHEDULEAWITHDRAWDUH"
    and "current db (withdrawFundsRequestsNextAvailableIndexKey user) = Some (d, c)" "read_json (wd_json E) d = Some pt"
    and "pt_get JSON_WITHDRAW_FUNDS_REQUESTS_NEXT_AVAILABLE_INDEX pt = Some (show_int h)" "0 \<le> h" "h < INT_MAX"
    and "jsonStringToSatoshiInt (wd_cast_double E) amount = Some n"
  shows "\<exists>s'. app_served (withdraw_page E) pick d0 (db, s) = Some (db, s')
    \<and> withdraw_trying user (write_json (wd_json E) (withdraw_request_doc n bitcoinKey)) c told (show_int h) s'
    \<and> app_log s' \<noteq> [] \<and> last (app_log s') = Asked (AppAdd (withdrawFundsRequestKey user (show_int h))
        (write_json (wd_json E) (withdraw_request_doc n bitcoinKey)))"
proof -
  have "lexical_cast_int (show_int h) = Some h" using assms(6,7) by (simp add: lexical_cast_int_show_int)
  then show ?thesis using assms by (simp add: app_served_def withdraw_states withdraw_run attemptToLcbAddWithdrawRequest_def
      useNextAvailableWithdrawRequestIndexToScheduleTheWithdrawRequest_def)
qed

lemma request_added:
  assumes "withdraw_trying user doc c told (show_int n) s" "db (withdrawFundsRequestKey user (show_int n)) = []" "0 \<le> n" "n < INT_MAX" "c \<noteq> 0"
  shows "\<exists>s'. app_served (withdraw_page E) pick d0 (db, s)
      = Some (new_version (withdrawFundsRequestKey user (show_int n)) doc (pick db (withdrawFundsRequestKey user (show_int n))) db, s')
    \<and> withdraw_waits user ABC2_MIN_WITHDRAW_AMOUNT_STR [] (told @ [RequestScheduled (show_int n)])
        (AppCasStore (withdrawFundsRequestsNextAvailableIndexKey user) (write_json (wd_json E) (next_request_doc (n + 1))) c) s'
    \<and> app_WhatTheStoreWithInputCasWasFor s' = CASSWAPWITHDRAWREQUESTINDEXIGNORINGRESPONSE"
proof -
  have "lexical_cast_int (show_int n) = Some n" "wrap32 (n + 1) = n + 1" using assms(3,4) by (simp_all add: lexical_cast_int_show_int)
  then show ?thesis using assms
    by (simp add: app_served_def withdraw_states withdraw_run handleAttemptToAddWithdrawRequestAtIndexFinished_def)
qed

lemma index_noted:
  assumes "withdraw_waits user amount bitcoinKey told (AppCasStore k d c) s" "current db k = Some (d', c)"
    and "app_WhatTheStoreWithInputCasWasFor s = CASSWAPWITHDRAWREQUESTINDEXIGNORINGRESPONSE"
  shows "\<exists>s'. app_served (withdraw_page E) pick d0 (db, s) = Some (new_version k d (pick db k) db, s') \<and> withdraw_finished told s'"
  using assms by (simp add: app_served_def withdraw_states withdraw_run set_allowed_def)

lemma request_key_apart: "withdrawFundsRequestKey u i \<noteq> withdrawFundsRequestsNextAvailableIndexKey v"
  by (simp add: withdrawFundsRequestKey_def withdrawFundsRequestsNextAvailableIndexKey_def)

subsection \<open>Amounts\<close>

text \<open>On a whole number of satoshis, the tab takes what the processor takes.\<close>

lemma total_to_withdraw_whole:
  assumes "0 \<le> n" "n \<le> 2 ^ 49"
  shows "total_to_withdraw (satoshiIntToJsonDouble n) = total_of n"
proof -
  note f = fee_is_whole [OF assms]
  have "total_to_withdraw (satoshiIntToJsonDouble n) = n + fee_in_satoshis n"
    unfolding total_to_withdraw_def Let_def f(1) by (rule sum_of_doubles) (use assms f in simp_all)
  moreover have "wrap64 (n + fee_in_satoshis n) = n + fee_in_satoshis n" using assms f by (simp add: wrap64_id)
  ultimately show ?thesis by (simp add: total_of_def)
qed

text \<open>The request document has the format that the processor reads.\<close>

lemma request_doc_get [simp]:
  "pt_get JSON_WITHDRAW_FUNDS_REQUESTED_AMOUNT (withdraw_request_doc n bitcoinKey) = Some (show_int n)"
  "pt_get JSON_WITHDRAW_FUNDS_BITCOIN_PAYOUT_KEY (withdraw_request_doc n bitcoinKey) = Some bitcoinKey"
  "pt_get JSON_WITHDRAW_FUNDS_REQUEST_STATE_KEY (withdraw_request_doc n bitcoinKey) = Some STATE_UNPROCESSED"
  by (simp_all add: withdraw_request_doc_def)

end
