(* ===== verification/WithdrawTabProperties.thy ===== *)
theory WithdrawTabProperties
  imports WithdrawTabRuns WithdrawFlows
begin

section \<open>The properties of the withdrawal tab\<close>

text \<open>What is scheduled was covered and is the user's wish; a request that can be scheduled is scheduled, at the first free index; the tab and the
  processor agree on the amount, and the button for the maximum amount does not.\<close>

subsection \<open>An example\<close>

definition saver_env :: "ptree withdraw_env" where
  "saver_env = \<lparr>wd_json = tree_json,
     wd_cast_double = (\<lambda>t. if t = ''0.05'' then Some (satoshiIntToJsonDouble 5000000)
       else if t = ''0.03000001'' then Some (satoshiIntToJsonDouble 3000001) else None),
     wd_amount_valid = (\<lambda>t. t = ''0.05'' \<or> t = ''0.03000001'')\<rparr>"

lemma saver_env_sel [simp]: "wd_json saver_env = tree_json" "wd_amount_valid saver_env t \<longleftrightarrow> t = ''0.05'' \<or> t = ''0.03000001''"
  "wd_cast_double saver_env ''0.05'' = Some (satoshiIntToJsonDouble 5000000)"
  "wd_cast_double saver_env ''0.03000001'' = Some (satoshiIntToJsonDouble 3000001)"
  by (simp_all add: saver_env_def)

definition saver_tab :: "bool \<Rightarrow> string \<Rightarrow> ptree withdraw_tab" where
  "saver_tab shown amount = \<lparr>app_User = ''bob'', app_BalanceForDisplayingOnly = show_int 3045001, app_WhatTheGetWasFor = NULLGET,
     app_WhatTheGetSavingCasWasFor = NULLGETSAVINGCAS, app_WhatTheStoreWithoutInputCasWasFor = NULLSTOREWITHOUTINPUTCAS,
     app_WhatTheStoreWithInputCasWasFor = NULLSTOREWITHCAS, app_DeferCount = 0, app_pending = [], app_log = [], app_gone = False,
     m_DesiredAmountToWithdrawLineEdit = amount, m_WithdrawalFeeLineEdit = [], m_TotalWithdrawAmountVisualOnlyLineEdit = [],
     m_BitcoinPayoutKeyLineEdit = ''1Bob'', m_WithdrawRequestIndexToTryLcbAddingAt = [],
     m_CasOfWithdrawRequestIndexDoc_OrZeroIfDocDoesNotExist = 0, m_WithdrawRequestDocBeingCreated = pt_empty,
     withdraw_PopulatedAndInitializing = shown\<rparr>"

definition account_of :: "int \<Rightarrow> ptree" where
  "account_of balance = pt_put JSON_USER_ACCOUNT_BALANCE (show_int balance) pt_empty"

lemma account_of_get [simp]: "pt_get JSON_USER_ACCOUNT_BALANCE (account_of b) = Some (show_int b)"
  by (simp add: account_of_def)

text \<open>An account, the index document, and one request that the index document does not know.\<close>

definition saver_db :: "int \<Rightarrow> ptree db" where
  "saver_db balance = (\<lambda>_. [])(userAccountKey ''bob'' := [(account_of balance, 1)],
     withdrawFundsRequestsNextAvailableIndexKey ''bob'' := [(next_request_doc 0, 1)],
     withdrawFundsRequestKey ''bob'' (show_int 0) := [(withdraw_request_doc 5000000 ''1Bob'', 1)])"

lemma saver_keys: "userAccountKey u \<noteq> withdrawFundsRequestKey v i" "userAccountKey u \<noteq> withdrawFundsRequestsNextAvailableIndexKey v"
  "withdrawFundsRequestKey u i = withdrawFundsRequestKey u j \<longleftrightarrow> i = j"
  by (simp_all add: userAccountKey_def withdrawFundsRequestKey_def withdrawFundsRequestsNextAvailableIndexKey_def)

lemma saver_current [simp]: "current (saver_db b) (userAccountKey ''bob'') = Some (account_of b, 1)"
  "current (saver_db b) (withdrawFundsRequestsNextAvailableIndexKey ''bob'') = Some (next_request_doc 0, 1)"
  "taken (saver_db b) (withdrawFundsRequestKey ''bob'') 0 1" "saver_db b (withdrawFundsRequestKey ''bob'' (show_int 1)) = []"
  using saver_keys request_key_apart saver_keys(1,2) [THEN not_sym] request_key_apart [THEN not_sym]
  by (simp_all add: saver_db_def current_def taken_def)

lemma bob_key [simp]: "bitcoin_key_valid ''1Bob''"
  by (simp add: bitcoin_key_valid_def is_letter_or_digit_def)

text \<open>A run of a site with this database: the tab is opened, an amount and a key are typed in, the button is clicked, two answers arrive.\<close>

definition saver_site :: "(ptree withdraw_tab, ptree) site" where
  "saver_site = \<lparr>site_db = saver_db 9000000, site_session = (\<lambda>_. saver_tab False [])\<rparr>"

lemma saver_site_new: "new_withdraw_tab (site_session saver_site n)"
  by (simp add: new_withdraw_tab_def saver_site_def saver_tab_def)

lemma saver_shows:
  "\<exists>s told. withdraw_on_click saver_env ShowWithdraw (saver_tab False []) = Ret () s \<and> app_User s = ''bob'' \<and> withdraw_finished told s
    \<and> withdraw_PopulatedAndInitializing s"
proof -
  have "lexical_cast_longlong (show_int 3045001) = Some 3045001" by (rule lexical_cast_longlong_show_int) simp_all
  then show ?thesis
    by (simp add: withdraw_onTabBeingShown_def withdraw_populateAndInitialize_def saver_tab_def maximumWithdrawalAmountIncorporatingFee_def
        satoshiStringToJsonDouble_def satoshiStringToJsonString_def satoshiStringToSatoshiInt_def withdraw_finished_def withdraw_run)
qed

lemma saver_types:
  "app_User s = ''bob'' \<Longrightarrow> withdraw_finished told s \<Longrightarrow> withdraw_PopulatedAndInitializing s
    \<Longrightarrow> \<exists>s'. withdraw_on_click saver_env (TypeWithdraw ''0.05'' ''1Bob'') s = Ret () s' \<and> withdraw_ready ''bob'' ''0.05'' ''1Bob'' told s'
      \<and> withdraw_PopulatedAndInitializing s'"
  by (simp add: withdraw_states)

lemma saver_db_numbered: "numbered 1 (saver_db b)"
  by (simp add: numbered_def saver_db_def)

lemma saver_run:
  "\<exists>w n h. site_reach (withdraw_page saver_env) (\<lambda>_. True) saver_site w \<and> app_User (site_session w n) = ''bob''
    \<and> app_log (site_session w n) = h @ Asked (AppAdd (withdrawFundsRequestKey ''bob'' (show_int 0)) (withdraw_request_doc 5000000 ''1Bob'')) # []"
proof -
  let ?P = "withdraw_page saver_env" and ?own = "\<lambda>_ :: string. True" and ?db = "saver_db 9000000"
  obtain s1 told where s1: "withdraw_on_click saver_env ShowWithdraw (saver_tab False []) = Ret () s1" "app_User s1 = ''bob''"
      "withdraw_finished told s1" "withdraw_PopulatedAndInitializing s1"
    using saver_shows by blast
  obtain s2 where s2: "withdraw_on_click saver_env (TypeWithdraw ''0.05'' ''1Bob'') s1 = Ret () s2"
      "withdraw_ready ''bob'' ''0.05'' ''1Bob'' told s2" "withdraw_PopulatedAndInitializing s2"
    using saver_types [OF s1(2-4)] by blast
  obtain s3 where s3: "withdraw_on_click saver_env ClickRequestWithdrawal s2 = Ret () s3"
      "withdraw_waits ''bob'' ''0.05'' ''1Bob'' told (AppGet (userAccountKey ''bob'')) s3"
      "app_WhatTheGetWasFor s3 = GETPROFILEBEFORESCHEDULINGWITHDRAWFUNDSREQUEST"
    using request_clicked [OF s2(2), of saver_env] by auto
  define w1 where "w1 = saver_site\<lparr>site_session := (site_session saver_site)(0 := s1)\<rparr>"
  define w2 where "w2 = w1\<lparr>site_session := (site_session w1)(0 := s2)\<rparr>"
  define w3 where "w3 = w2\<lparr>site_session := (site_session w2)(0 := s3)\<rparr>"
  have r1: "site_reach ?P ?own saver_site w1"
    unfolding w1_def by (rule click_in_site [OF site_reach.start, where c = ShowWithdraw]) (use s1(1) in \<open>simp_all add: saver_site_def saver_tab_def\<close>)
  have r2: "site_reach ?P ?own saver_site w2"
    unfolding w2_def by (rule click_in_site [OF r1, where c = "TypeWithdraw ''0.05'' ''1Bob''"])
      (use s1 s2(1) in \<open>simp_all add: w1_def withdraw_finished_def\<close>)
  have r3: "site_reach ?P ?own saver_site w3"
    unfolding w3_def by (rule click_in_site [OF r2, where c = ClickRequestWithdrawal])
      (use s2 s3(1) in \<open>simp_all add: w2_def withdraw_states\<close>)
  have l: "lexical_cast_longlong (show_int 9000000) = Some 9000000" by (rule lexical_cast_longlong_show_int) simp_all
  have "total_to_withdraw (satoshiIntToJsonDouble 5000000) \<le> 9000000"
    using fee_in_satoshis_bounds [of 5000000] by (simp add: total_to_withdraw_whole total_of_def wrap64_id)
  then obtain s4 where s4: "app_served ?P next_cas pt_empty (?db, s3) = Some (?db, s4)"
      "withdraw_waits ''bob'' ''0.05'' ''1Bob'' told (AppGetSavingCas (withdrawFundsRequestsNextAvailableIndexKey ''bob'')) s4"
      "app_WhatTheGetSavingCasWasFor s4 = GETWITHDRAWREQUESTINDEXBECAUSEWEWANTTOSCHEDULEAWITHDRAWDUH"
    using profile_served [OF s3(2,3) saver_current(1) [of 9000000] _
        account_of_get [of 9000000] l, where x = "satoshiIntToJsonDouble 5000000" and E = saver_env and pick = next_cas and ?d0.0 = pt_empty] by auto
  have n: "pt_get JSON_WITHDRAW_FUNDS_REQUESTS_NEXT_AVAILABLE_INDEX (next_request_doc 0) = Some (show_int 0)" by (simp add: next_request_doc_def)
  have c: "jsonStringToSatoshiInt (wd_cast_double saver_env) ''0.05'' = Some 5000000"
    using satoshi_roundtrip [of 5000000] by (simp add: jsonStringToSatoshiInt_def)
  obtain s5 where s5: "app_served ?P next_cas pt_empty (?db, s4) = Some (?db, s5)"
      "withdraw_trying ''bob'' (withdraw_request_doc 5000000 ''1Bob'') 1 told (show_int 0) s5" "app_log s5 \<noteq> []"
      "last (app_log s5) = Asked (AppAdd (withdrawFundsRequestKey ''bob'' (show_int 0)) (withdraw_request_doc 5000000 ''1Bob''))"
    using index_served [OF s4(2,3) saver_current(2) [of 9000000] _ n _ _ c, where pick = next_cas and ?d0.0 = pt_empty] by auto
  have serves: "app_serves ?P next_cas pt_empty 2 (site_db w3, site_session w3 0) = Some (?db, s5)"
    using s4(1) s5(1) by (simp add: numeral_2_eq_2 w3_def w2_def w1_def saver_site_def)
  have "numbered 1 (site_db w3)" using saver_db_numbered by (simp add: w3_def w2_def w1_def saver_site_def)
  from serves_in_site [OF r3 serves this] obtain w4 where w4: "site_reach ?P ?own saver_site w4" "site_session w4 0 = s5" by auto
  have "app_log (site_session w4 0) = butlast (app_log s5) @ [last (app_log s5)]" using s5(3) w4(2) by simp
  moreover have "app_User (site_session w4 0) = ''bob''" using s5(2) w4(2) by (simp add: withdraw_trying_def)
  ultimately show ?thesis using w4(1) unfolding s5(4) by blast
qed

subsection \<open>The properties\<close>

text \<open>
  C11. A withdrawal that can be scheduled is scheduled. On an idle page with a valid amount of n satoshis (at most \<open>2 ^ 49\<close>, about 5.6 million bitcoins) and a valid bitcoin key, an account
  whose balance covers the amount with its fee, an index document that names index h, m requests from there on and none at h + m, the click
  ends after exactly m + 4 answers: the request document at index h + m holds the amount and the key, the index document names h + m + 1,
  no other document has changed, and the user is told the number of the request on a page that renders again.
\<close>

theorem a_withdrawal_is_scheduled:
  assumes "withdraw_ready user amount bitcoinKey told s" "wd_amount_valid E amount" "bitcoin_key_valid bitcoinKey"
    and "wd_cast_double E amount = Some (satoshiIntToJsonDouble n)" "0 \<le> n" "n \<le> 2 ^ 49"
    and "current db (userAccountKey user) = Some (d, ca)" "read_json (wd_json E) d = Some pt"
      "pt_get JSON_USER_ACCOUNT_BALANCE pt = Some t" "lexical_cast_longlong t = Some b" "total_of n \<le> b"
    and "current db (withdrawFundsRequestsNextAvailableIndexKey user) = Some (e, c)" "c \<noteq> 0" "read_json (wd_json E) e = Some q"
      "pt_get JSON_WITHDRAW_FUNDS_REQUESTS_NEXT_AVAILABLE_INDEX q = Some (show_int h)" "0 \<le> h" "h + int m < INT_MAX"
    and "taken db (withdrawFundsRequestKey user) h m" "db (withdrawFundsRequestKey user (show_int (h + int m))) = []"
  shows "\<exists>s1 s' c1 c2. withdraw_on_click E ClickRequestWithdrawal s = Ret () s1
    \<and> app_serves (withdraw_page E) pick d0 (m + 4) (db, s1)
      = Some (new_version (withdrawFundsRequestsNextAvailableIndexKey user) (write_json (wd_json E) (next_request_doc (h + int m + 1))) c2
          (new_version (withdrawFundsRequestKey user (show_int (h + int m))) (write_json (wd_json E) (withdraw_request_doc n bitcoinKey)) c1 db), s')
    \<and> withdraw_finished (told @ [RequestScheduled (show_int (h + int m))]) s'"
proof -
  let ?P = "withdraw_page E" and ?i = "h + int m"
  let ?next = "withdrawFundsRequestsNextAvailableIndexKey user" and ?doc = "write_json (wd_json E) (withdraw_request_doc n bitcoinKey)"
  have n: "\<bar>n\<bar> \<le> 2 ^ 50" using assms(5,6) by simp
  have cast: "jsonStringToSatoshiInt (wd_cast_double E) amount = Some n"
    using assms(4) satoshi_roundtrip [OF n] by (simp add: jsonStringToSatoshiInt_def)
  have covered: "\<not> b < total_to_withdraw (satoshiIntToJsonDouble n)" using assms(5,6,11) by (simp add: total_to_withdraw_whole)
  obtain s1 where s1: "withdraw_on_click E ClickRequestWithdrawal s = Ret () s1"
      "withdraw_waits user amount bitcoinKey told (AppGet (userAccountKey user)) s1"
      "app_WhatTheGetWasFor s1 = GETPROFILEBEFORESCHEDULINGWITHDRAWFUNDSREQUEST"
    using request_clicked [OF assms(1-3)] by blast
  obtain s2 where s2: "app_served ?P pick d0 (db, s1) = Some (db, s2)" "withdraw_waits user amount bitcoinKey told (AppGetSavingCas ?next) s2"
      "app_WhatTheGetSavingCasWasFor s2 = GETWITHDRAWREQUESTINDEXBECAUSEWEWANTTOSCHEDULEAWITHDRAWDUH"
    using profile_served [OF s1(2,3) assms(7-10,4), of pick d0] covered by auto
  obtain s3 where s3: "app_served ?P pick d0 (db, s2) = Some (db, s3)" "withdraw_trying user ?doc c told (show_int h) s3"
    using index_served [OF s2(2,3) assms(12,14-16) _ cast, of pick d0] assms(17) by auto
  obtain s4 where s4: "app_serves ?P pick d0 m (db, s3) = Some (db, s4)" "withdraw_trying user ?doc c told (show_int ?i) s4"
    using withdraw_walk.walk [OF s3(2) assms(18,16,17)] by blast
  obtain s5 c1 where s5: "app_served ?P pick d0 (db, s4) = Some (new_version (withdrawFundsRequestKey user (show_int ?i)) ?doc c1 db, s5)"
      "withdraw_waits user ABC2_MIN_WITHDRAW_AMOUNT_STR [] (told @ [RequestScheduled (show_int ?i)])
        (AppCasStore ?next (write_json (wd_json E) (next_request_doc (?i + 1))) c) s5"
      "app_WhatTheStoreWithInputCasWasFor s5 = CASSWAPWITHDRAWREQUESTINDEXIGNORINGRESPONSE"
    using request_added [where db = db, OF s4(2) assms(19) _ assms(17,13), of E pick d0] assms(16) by auto
  let ?db1 = "new_version (withdrawFundsRequestKey user (show_int ?i)) ?doc c1 db"
  have "current ?db1 ?next = Some (e, c)" using assms(12) request_key_apart [of user "show_int ?i" user] by simp
  from index_noted [OF s5(2) this s5(3), of E pick d0] obtain s' c2 where
    s': "app_served ?P pick d0 (?db1, s5) = Some (new_version ?next (write_json (wd_json E) (next_request_doc (?i + 1))) c2 ?db1, s')"
      "withdraw_finished (told @ [RequestScheduled (show_int ?i)]) s'" by blast
  have "app_serves ?P pick d0 2 (db, s1) = Some (db, s3)" using s2(1) s3(1) by (simp add: numeral_2_eq_2)
  moreover have "app_serves ?P pick d0 2 (db, s4) = Some (new_version ?next (write_json (wd_json E) (next_request_doc (?i + 1))) c2 ?db1, s')"
    using s5(1) s'(1) by (simp add: numeral_2_eq_2)
  ultimately have "app_serves ?P pick d0 (2 + (m + 2)) (db, s1)
      = Some (new_version ?next (write_json (wd_json E) (next_request_doc (?i + 1))) c2 ?db1, s')"
    using s4(1) by (blast intro: app_serves_then)
  moreover have "2 + (m + 2) = m + 4" by simp
  ultimately show ?thesis using s1(1) s'(2) by metis
qed

theorem a_withdrawal_is_scheduled_witness:
  "\<exists>s1 s' c1 c2. withdraw_on_click saver_env ClickRequestWithdrawal (saver_tab True ''0.05'') = Ret () s1
    \<and> app_serves (withdraw_page saver_env) (\<lambda>_ _. 2) pt_empty 5 (saver_db 9000000, s1)
      = Some (new_version (withdrawFundsRequestsNextAvailableIndexKey ''bob'') (next_request_doc 2) c2
          (new_version (withdrawFundsRequestKey ''bob'' (show_int 1)) (withdraw_request_doc 5000000 ''1Bob'') c1 (saver_db 9000000)), s')
    \<and> withdraw_finished [RequestScheduled (show_int 1)] s'"
proof -
  have "withdraw_ready ''bob'' ''0.05'' ''1Bob'' [] (saver_tab True ''0.05'')"
    by (simp add: withdraw_ready_def withdraw_finished_def saver_tab_def)
  note run = a_withdrawal_is_scheduled [OF this, where E = saver_env and n = 5000000 and b = 9000000 and h = 0 and m = 1
      and db = "saver_db 9000000" and d = "account_of 9000000" and pt = "account_of 9000000" and t = "show_int 9000000" and ca = 1
      and e = "next_request_doc 0" and q = "next_request_doc 0" and c = 1 and pick = "\<lambda>_ _. 2" and d0 = pt_empty]
  have "lexical_cast_longlong (show_int 9000000) = Some 9000000" by (rule lexical_cast_longlong_show_int) simp_all
  moreover have "total_of 5000000 \<le> 9000000"
    using fee_in_satoshis_bounds [of 5000000] by (simp add: total_of_def wrap64_id)
  moreover have "pt_get JSON_WITHDRAW_FUNDS_REQUESTS_NEXT_AVAILABLE_INDEX (next_request_doc 0) = Some (show_int 0)"
    by (simp add: next_request_doc_def)
  ultimately show ?thesis using run by (simp del: One_nat_def)
qed

text \<open>
  C10. Only covered withdrawals are scheduled. Whatever the sessions of the site do and the database answers: when a session has asked to add a
  document other than the index document, then it is a request under the user's name, at an index below the largest int, with an amount the
  page accepted and a valid bitcoin key, and the last account document that the session had received before had a balance of at least
  that amount with its fee.
\<close>

theorem only_covered_withdrawals_are_scheduled:
  assumes "site_reach (withdraw_page E) own w0 w" "\<And>n. new_withdraw_tab (site_session w0 n)"
    and "app_log (site_session w n) = h @ Asked (AppAdd k doc) # g" "app_User (site_session w n) = user"
    and "k \<noteq> withdrawFundsRequestsNextAvailableIndexKey user"
  shows "\<exists>i j amount x bitcoinKey. k = withdrawFundsRequestKey user i \<and> lexical_cast_int i = Some j \<and> j < INT_MAX
    \<and> wd_amount_valid E amount \<and> wd_cast_double E amount = Some x \<and> bitcoin_key_valid bitcoinKey
    \<and> doc = write_json (wd_json E) (withdraw_request_doc (jsonDoubleToSatoshiIntIncludingRounding x) bitcoinKey)
    \<and> funds_known E user h x"
proof -
  have "log_justified E user (app_log (site_session w n))"
    using withdraw_reach [OF assms(1,2), of n] assms(4) by (simp add: withdraw_inv_def)
  then have "request_justified E user h (AppAdd k doc)" using assms(3) unfolding log_justified_def by blast
  then obtain i j where "k = withdrawFundsRequestKey user i" "lexical_cast_int i = Some j" "j < INT_MAX" "wanted_doc E h user doc"
    using assms(5) by auto
  then show ?thesis unfolding wanted_doc_def by blast
qed

theorem only_covered_withdrawals_are_scheduled_witness:
  "\<exists>(h :: (ptree, withdraw_message) app_event list) i j amount x bitcoinKey. withdrawFundsRequestKey ''bob'' (show_int 0) = withdrawFundsRequestKey ''bob'' i
    \<and> lexical_cast_int i = Some j \<and> j < INT_MAX \<and> wd_amount_valid saver_env amount \<and> wd_cast_double saver_env amount = Some x
    \<and> bitcoin_key_valid bitcoinKey
    \<and> withdraw_request_doc 5000000 ''1Bob'' = write_json (wd_json saver_env) (withdraw_request_doc (jsonDoubleToSatoshiIntIncludingRounding x) bitcoinKey)
    \<and> funds_known saver_env ''bob'' h x"
proof -
  obtain w n h where "site_reach (withdraw_page saver_env) (\<lambda>_. True) saver_site w" "app_User (site_session w n) = ''bob''"
      "app_log (site_session w n) = h @ Asked (AppAdd (withdrawFundsRequestKey ''bob'' (show_int 0)) (withdraw_request_doc 5000000 ''1Bob'')) # []"
    using saver_run by blast
  note run = only_covered_withdrawals_are_scheduled [OF this(1) _ this(3,2)]
  show ?thesis by (rule exI [of _ h], rule run [OF saver_site_new request_key_apart])
qed

text \<open>
  C22. The tab and the processor take the same amount. For a request of n satoshis, at most \<open>2 ^ 49\<close> (about 5.6 million bitcoins), the total that the tab compares with the balance, computed
  from the typed amount in doubles, is the total that the withdrawal processor computes when it reads the request document that the tab
  writes; so the processor finds the funds sufficient exactly for the balances that the tab accepts.
\<close>

theorem tab_and_processor_agree:
  assumes "0 \<le> n" "n \<le> 2 ^ 49" "m_CurrentWithdrawalRequestPropertyTree s = withdraw_request_doc n bitcoinKey"
    and "pt_get JSON_USER_ACCOUNT_BALANCE (m_CurrentUserProfilePropertyTree s) = Some t" "lexical_cast_longlong t = Some b"
  shows "\<exists>s'. readInUserBalanceAndCalculateWithdrawalFeesEtc s = Ret () s' \<and> m_CurrentUserBalanceInSatoshis s' = b
    \<and> m_CurrentWithdrawRequestTotalAmountToWithdraw s' = total_to_withdraw (satoshiIntToJsonDouble n)"
proof -
  have "lexical_cast_longlong (show_int n) = Some n" using assms(1,2) by (intro lexical_cast_longlong_show_int) simp_all
  then show ?thesis using assms(3-5) total_to_withdraw_whole [OF assms(1,2)]
    by (simp add: readInUserBalanceAndCalculateWithdrawalFeesEtc_def total_of_def fee_in_satoshis_def Let_def)
qed

definition saver_request :: "ptree wp" where
  "saver_request = (demo_wp ExecuteMode [] [])\<lparr>m_CurrentWithdrawalRequestPropertyTree := withdraw_request_doc 5000000 ''1Bob'',
     m_CurrentUserProfilePropertyTree := account_of 9000000\<rparr>"

theorem tab_and_processor_agree_witness:
  "\<exists>s'. readInUserBalanceAndCalculateWithdrawalFeesEtc saver_request = Ret () s' \<and> m_CurrentUserBalanceInSatoshis s' = 9000000
    \<and> m_CurrentWithdrawRequestTotalAmountToWithdraw s' = total_to_withdraw (satoshiIntToJsonDouble 5000000)"
proof -
  have "lexical_cast_longlong (show_int 9000000) = Some 9000000" by (rule lexical_cast_longlong_show_int) simp_all
  then show ?thesis
    using tab_and_processor_agree [of 5000000 saver_request "''1Bob''" "show_int 9000000" 9000000] by (simp add: saver_request_def)
qed

lemma text_of_maximum:
  "formatDoubleAs8decimalPlacesString (ddiv (satoshiIntToJsonDouble 3045001) (dadd 1 (ddiv ABC2_WITHDRAWAL_FEE_PERCENT 100))) = ''0.03000001''"
proof -
  have r: "round_even (ddiv (satoshiIntToJsonDouble 3045001) (dadd 1 (ddiv ABC2_WITHDRAWAL_FEE_PERCENT 100)) * 100000000) = 3000001"
    "\<not> ddiv (satoshiIntToJsonDouble 3045001) (dadd 1 (ddiv ABC2_WITHDRAWAL_FEE_PERCENT 100)) < 0"
    by code_simp+
  then show ?thesis unfolding formatDoubleAs8decimalPlacesString_def r(1)
    by (simp add: fixed8_def show_nat.simps digit_char_eval pad_digits_numeral)
qed

lemma total_of_maximum: "total_to_withdraw (satoshiIntToJsonDouble 3000001) = 3045002"
  by code_simp

text \<open>
  C32. The button "Use This Amount" types in an amount that is then refused. A comment takes the printing with eight decimals for a chop, but
  it rounds: with a balance of 3045001 satoshis, the button types in 0.03000001, which costs 3045002 satoshis, and the request for it ends with
  "Insufficient Funds".
\<close>

theorem maximum_amount_is_refused:
  "\<exists>s1 s2 s3. withdraw_on_click saver_env ClickUseMax (saver_tab True []) = Ret () s1
    \<and> m_DesiredAmountToWithdrawLineEdit s1 = ''0.03000001''
    \<and> withdraw_on_click saver_env ClickRequestWithdrawal s1 = Ret () s2
    \<and> app_served (withdraw_page saver_env) pick d0 (saver_db 3045001, s2) = Some (saver_db 3045001, s3)
    \<and> withdraw_finished [InsufficientFundsToWithdraw] s3"
proof -
  have c: "lexical_cast_longlong (show_int 3045001) = Some 3045001" by (rule lexical_cast_longlong_show_int) simp_all
  then have m: "maximumWithdrawalAmountIncorporatingFee (show_int 3045001)
      = Some (ddiv (satoshiIntToJsonDouble 3045001) (dadd 1 (ddiv ABC2_WITHDRAWAL_FEE_PERCENT 100)))"
    by (simp add: maximumWithdrawalAmountIncorporatingFee_def satoshiStringToJsonDouble_def satoshiStringToSatoshiInt_def Let_def)
  have "\<exists>s1. withdraw_on_click saver_env ClickUseMax (saver_tab True []) = Ret () s1
      \<and> withdraw_ready ''bob'' ''0.03000001'' ''1Bob'' [] s1"
    by (simp add: handleUseMaxAmountButtonClicked_def calculateTotalAmountWithdrawnAfterFeeForVisual_def saver_tab_def m
        text_of_maximum Let_def withdraw_ready_def withdraw_finished_def)
  then obtain s1 where s1: "withdraw_on_click saver_env ClickUseMax (saver_tab True []) = Ret () s1"
      "withdraw_ready ''bob'' ''0.03000001'' ''1Bob'' [] s1" by blast
  obtain s2 where s2: "withdraw_on_click saver_env ClickRequestWithdrawal s1 = Ret () s2"
      "withdraw_waits ''bob'' ''0.03000001'' ''1Bob'' [] (AppGet (userAccountKey ''bob'')) s2"
      "app_WhatTheGetWasFor s2 = GETPROFILEBEFORESCHEDULINGWITHDRAWFUNDSREQUEST"
    using request_clicked [OF s1(2), of saver_env] by auto
  have "\<exists>s3. app_served (withdraw_page saver_env) pick d0 (saver_db 3045001, s2) = Some (saver_db 3045001, s3)
      \<and> withdraw_finished [InsufficientFundsToWithdraw] s3"
    using profile_served [OF s2(2,3), of "saver_db 3045001" "account_of 3045001" 1 saver_env "account_of 3045001" "show_int 3045001"
        3045001 "satoshiIntToJsonDouble 3000001" pick d0] c total_of_maximum by simp
  with s1 s2(1) show ?thesis by (auto simp: withdraw_ready_def)
qed

end
