(* ===== verification/CampaignPage.thy ===== *)
theory CampaignPage
  imports TabApp IndexWalk
begin

section \<open>The page that creates an ad campaign\<close>

text \<open>
  \<open>Anonymous Bitcoin Computing 2/src/frontend/pages/advertisingselladspacecreatenewadcampaignwidget.cpp\<close>. The seller types a minimum price,
  the duration of a slot and the dimensions of the ads, and checks the categories that are not allowed; the page adds the campaign document
  at the first free index, starting at the index that a cache document names.

  The record \<open>campaign_page\<close> holds the members of \<open>AdvertisingSellAdSpaceCreateNewAdCampaignWidget\<close>; a line edit is its text, a check box and the
  button are whether they are checked and enabled. Of the environment the model takes the JSON text, \<open>boost::lexical_cast\<close> from text to double,
  and what the validators of Wt accept: a number in a range, an \<open>int\<close> in a range.
\<close>

subsection \<open>State\<close>

datatype campaign_message =
    Campaign500 | InvalidMinimumPrice | InvalidDuration | InvalidWidth | InvalidHeight | TooManyCampaigns | CampaignCreated string

record 'j campaign_page = "('j, campaign_message) app" +
  m_MinPriceLineEdit :: string
  m_SlotLengthHoursLineEdit :: string
  m_AdImageWidth :: string
  m_AdImageHeight :: string
  m_DisallowPornCheckbox :: bool
  m_DisallowGamblingCheckbox :: bool
  m_DisallowMedicineCheckbox :: bool
  m_DisallowAlcoholCheckbox :: bool
  m_DisallowTobaccoCheckbox :: bool
  m_DisallowWeaponsCheckbox :: bool
  m_CreateNewAdCampaignButton :: bool
  m_CasOfCampaignIndexCacheDoc_OrZeroIfCacheDocDoesNotExist :: cas
  m_CampaignIndexToTryLcbAddingAt :: string
  m_CampaignDocForCampaignBeingCreated :: 'j

record 'j campaign_env =
  cp_json :: "'j json"
  cp_cast_double :: "string \<Rightarrow> rat option"
  cp_double_valid :: "rat \<Rightarrow> rat \<Rightarrow> string \<Rightarrow> bool"
  cp_int_valid :: "int \<Rightarrow> int \<Rightarrow> string \<Rightarrow> bool"

definition ABC2_MIN_MIN_PRICE_OF_AD_CAMPAIGN_SLOT :: rat where "ABC2_MIN_MIN_PRICE_OF_AD_CAMPAIGN_SLOT = rnd (3 / 1000)"
abbreviation "ABC_MIN_AD_SLOT_FILLER_IMAGE_WIDTH_AND_HEIGHT_PIXELS \<equiv> 16 :: int"
abbreviation "ABC_MAX_AD_SLOT_FILLER_IMAGE_WIDTH_AND_HEIGHT_PIXELS \<equiv> 2048 :: int"
abbreviation "JSON_AD_SPACE_CAMPAIGN_NEXT_AVAILABLE_INDEX_CACHE \<equiv> ''nextAvailableCampaignIndex''"

definition min_price_valid :: "'j campaign_env \<Rightarrow> string \<Rightarrow> bool" where
  "min_price_valid E = cp_double_valid E ABC2_MIN_MIN_PRICE_OF_AD_CAMPAIGN_SLOT 21000000"

definition slot_length_valid :: "'j campaign_env \<Rightarrow> string \<Rightarrow> bool" where
  "slot_length_valid E = cp_int_valid E 1 INT_MAX"

definition image_size_valid :: "'j campaign_env \<Rightarrow> string \<Rightarrow> bool" where
  "image_size_valid E = cp_int_valid E ABC_MIN_AD_SLOT_FILLER_IMAGE_WIDTH_AND_HEIGHT_PIXELS ABC_MAX_AD_SLOT_FILLER_IMAGE_WIDTH_AND_HEIGHT_PIXELS"

subsection \<open>Creating a campaign\<close>

definition enable_create :: "('j campaign_page, unit) prog" where
  "enable_create = modify (\<lambda>s. s\<lparr>m_CreateNewAdCampaignButton := True\<rparr>)"

definition createNewAdCampaignButtonClicked :: "'j campaign_env \<Rightarrow> ('j campaign_page, unit) prog" where
  "createNewAdCampaignButtonClicked E = reading (\<lambda>s.
     if \<not> min_price_valid E (m_MinPriceLineEdit s) then andthen (say InvalidMinimumPrice) (\<lambda>_. enable_create)
     else if \<not> slot_length_valid E (m_SlotLengthHoursLineEdit s) then andthen (say InvalidDuration) (\<lambda>_. enable_create)
     else if \<not> image_size_valid E (m_AdImageWidth s) then andthen (say InvalidWidth) (\<lambda>_. enable_create)
     else if \<not> image_size_valid E (m_AdImageHeight s) then andthen (say InvalidHeight) (\<lambda>_. enable_create)
     else andthen app_defer (\<lambda>_. app_get_saving_cas (adSpaceCampaignIndexCacheKey (app_User s))
       GETADSPACECAMPAIGNINDEXCACHEEVENTHOUGHITMIGHTNOTEXIST))"

text \<open>The click disables the button first: that slot is one of Wt's stateless ones, which run before the others.\<close>

definition create_clicked :: "'j campaign_env \<Rightarrow> ('j campaign_page, unit) prog" where
  "create_clicked E = andthen (modify (\<lambda>s. s\<lparr>m_CreateNewAdCampaignButton := False\<rparr>)) (\<lambda>_. createNewAdCampaignButtonClicked E)"

definition attemptToLcbAddCampaign :: "('j campaign_page, unit) prog" where
  "attemptToLcbAddCampaign = reading (\<lambda>s.
     andthen (require Bad_lexical_cast (lexical_cast_int (m_CampaignIndexToTryLcbAddingAt s))) (\<lambda>rangeCheck.
     if rangeCheck = INT_MAX then say_and_resume TooManyCampaigns
     else app_add (adSpaceCampaignKey (app_User s) (m_CampaignIndexToTryLcbAddingAt s))
       (m_CampaignDocForCampaignBeingCreated s) ATTEMPTTOADDCAMPAIGNATINDEX))"

definition add_to_disallowed_array_if_checked :: "bool \<Rightarrow> string \<Rightarrow> ptree \<Rightarrow> ptree" where
  "add_to_disallowed_array_if_checked checked category disallowedCategoriesArray =
     (if checked then Node (pt_data disallowedCategoriesArray) (pt_kids disallowedCategoriesArray @ [([], Node category [])])
      else disallowedCategoriesArray)"

definition disallowed_categories :: "'j campaign_page \<Rightarrow> ptree" where
  "disallowed_categories s =
     add_to_disallowed_array_if_checked (m_DisallowWeaponsCheckbox s) ''Weapons''
     (add_to_disallowed_array_if_checked (m_DisallowTobaccoCheckbox s) ''Tobacco''
     (add_to_disallowed_array_if_checked (m_DisallowAlcoholCheckbox s) ''Alcohol''
     (add_to_disallowed_array_if_checked (m_DisallowMedicineCheckbox s) ''Medicine''
     (add_to_disallowed_array_if_checked (m_DisallowGamblingCheckbox s) ''Gambling''
     (add_to_disallowed_array_if_checked (m_DisallowPornCheckbox s) ''Porn'' pt_empty)))))"

definition campaign_doc :: "int \<Rightarrow> 'j campaign_page \<Rightarrow> ptree" where
  "campaign_doc minPrice s = pt_add_child JSON_AD_SPACE_CAMPAIGN_DISALLOWED_CATEGORIES_KEY (disallowed_categories s)
     (pt_put JSON_SLOT_FILLER_HEIGHT (m_AdImageHeight s)
     (pt_put JSON_SLOT_FILLER_WIDTH (m_AdImageWidth s)
     (pt_put JSON_AD_SPACE_CAMPAIGN_SLOT_LENGTH_HOURS (m_SlotLengthHoursLineEdit s)
     (pt_put JSON_AD_SPACE_CAMPAIGN_MIN_PRICE (show_int minPrice) pt_empty))))"

definition useCacheToDetermineIndexForCreatingNewCampaignAt ::
  "'j campaign_env \<Rightarrow> 'j \<Rightarrow> cas \<Rightarrow> bool \<Rightarrow> bool \<Rightarrow> ('j campaign_page, unit) prog" where
  "useCacheToDetermineIndexForCreatingNewCampaignAt E couchbaseDocument casForUpdatingTheCache lcbOpSuccess dbError =
    (if dbError then andthen (say Campaign500) (\<lambda>_. andthen enable_create (\<lambda>_. app_resume))
     else
     andthen (modify (\<lambda>s. s\<lparr>m_CampaignIndexToTryLcbAddingAt := ''0''\<rparr>)) (\<lambda>_.
     andthen (if lcbOpSuccess then
         andthen (parse_json (cp_json E) couchbaseDocument) (\<lambda>pt.
         andthen (pt_need JSON_AD_SPACE_CAMPAIGN_NEXT_AVAILABLE_INDEX_CACHE pt) (\<lambda>i.
         modify (\<lambda>s. s\<lparr>m_CampaignIndexToTryLcbAddingAt := i,
           m_CasOfCampaignIndexCacheDoc_OrZeroIfCacheDocDoesNotExist := casForUpdatingTheCache\<rparr>)))
       else modify (\<lambda>s. s\<lparr>m_CasOfCampaignIndexCacheDoc_OrZeroIfCacheDocDoesNotExist := 0\<rparr>)) (\<lambda>_.
     reading (\<lambda>s.
     andthen (require Bad_lexical_cast (jsonStringToSatoshiInt (cp_cast_double E) (m_MinPriceLineEdit s))) (\<lambda>minPrice.
     andthen (modify (\<lambda>s. s\<lparr>m_CampaignDocForCampaignBeingCreated := write_json (cp_json E) (campaign_doc minPrice s)\<rparr>)) (\<lambda>_.
     attemptToLcbAddCampaign))))))"

definition campaign_index_doc :: "int \<Rightarrow> ptree" where
  "campaign_index_doc i = pt_put JSON_AD_SPACE_CAMPAIGN_NEXT_AVAILABLE_INDEX_CACHE (show_int i) pt_empty"

definition handleAttemptToAddCampaignAtIndexFinished :: "'j campaign_env \<Rightarrow> bool \<Rightarrow> bool \<Rightarrow> ('j campaign_page, unit) prog" where
  "handleAttemptToAddCampaignAtIndexFinished E lcbOpSuccess dbError =
    (if dbError then andthen (say Campaign500) (\<lambda>_. andthen enable_create (\<lambda>_. app_resume))
     else reading (\<lambda>s.
     andthen (require Bad_lexical_cast (lexical_cast_int (m_CampaignIndexToTryLcbAddingAt s))) (\<lambda>i.
     if \<not> lcbOpSuccess then
       andthen (modify (\<lambda>s. s\<lparr>m_CampaignIndexToTryLcbAddingAt := show_int (wrap32 (i + 1))\<rparr>)) (\<lambda>_.
       attemptToLcbAddCampaign)
     else
     let k = adSpaceCampaignIndexCacheKey (app_User s);
         doc = write_json (cp_json E) (campaign_index_doc (wrap32 (i + 1)))
     in
     andthen (if m_CasOfCampaignIndexCacheDoc_OrZeroIfCacheDocDoesNotExist s = 0
         then app_add k doc ADDCAMPAIGNINDEXCACHEIGNORINGRESPONSE
         else app_cas_store k doc (m_CasOfCampaignIndexCacheDoc_OrZeroIfCacheDocDoesNotExist s)
           CASSWAPCAMPAIGNINDEXCACHEIGNORINGRESPONSE) (\<lambda>_.
     andthen (say (CampaignCreated (m_CampaignIndexToTryLcbAddingAt s))) (\<lambda>_. enable_create)))))"

subsection \<open>The page\<close>

datatype campaign_click = TypeCampaign string string string string | CheckCategories bool bool bool bool bool bool | ClickCreate

fun campaign_can_click :: "campaign_click \<Rightarrow> 'j campaign_page \<Rightarrow> bool" where
  "campaign_can_click ClickCreate s = (app_DeferCount s \<le> 0 \<and> m_CreateNewAdCampaignButton s)"
| "campaign_can_click _ s = (app_DeferCount s \<le> 0)"

fun campaign_on_click :: "'j campaign_env \<Rightarrow> campaign_click \<Rightarrow> ('j campaign_page, unit) prog" where
  "campaign_on_click E (TypeCampaign minPrice hours width height) = modify (\<lambda>s. s\<lparr>m_MinPriceLineEdit := minPrice,
     m_SlotLengthHoursLineEdit := hours, m_AdImageWidth := width, m_AdImageHeight := height\<rparr>)"
| "campaign_on_click E (CheckCategories porn gambling medicine alcohol tobacco weapons) = modify (\<lambda>s. s\<lparr>m_DisallowPornCheckbox := porn,
     m_DisallowGamblingCheckbox := gambling, m_DisallowMedicineCheckbox := medicine, m_DisallowAlcoholCheckbox := alcohol,
     m_DisallowTobaccoCheckbox := tobacco, m_DisallowWeaponsCheckbox := weapons\<rparr>)"
| "campaign_on_click E ClickCreate = create_clicked E"

text \<open>The cases of the application's dispatch that belong to this page.\<close>

fun campaign_on_answer :: "'j campaign_env \<Rightarrow> 'j app_answer \<Rightarrow> ('j campaign_page, unit) prog" where
  "campaign_on_answer E (GetFinished k d ok err) = app_resume"
| "campaign_on_answer E (GetSavingCasFinished k d c ok err) = andthen app_resume (\<lambda>_. reading (\<lambda>s. case app_WhatTheGetSavingCasWasFor s of
      GETADSPACECAMPAIGNINDEXCACHEEVENTHOUGHITMIGHTNOTEXIST \<Rightarrow> useCacheToDetermineIndexForCreatingNewCampaignAt E d c ok err
    | _ \<Rightarrow> return ()))"
| "campaign_on_answer E (AddFinished k ok err) = andthen app_resume (\<lambda>_. reading (\<lambda>s. case app_WhatTheStoreWithoutInputCasWasFor s of
      ATTEMPTTOADDCAMPAIGNATINDEX \<Rightarrow> handleAttemptToAddCampaignAtIndexFinished E ok err
    | ADDCAMPAIGNINDEXCACHEIGNORINGRESPONSE \<Rightarrow> app_resume
    | _ \<Rightarrow> return ()))"
| "campaign_on_answer E (CasStoreFinished k ok err) = andthen app_resume (\<lambda>_. reading (\<lambda>s. case app_WhatTheStoreWithInputCasWasFor s of
      CASSWAPCAMPAIGNINDEXCACHEIGNORINGRESPONSE \<Rightarrow> app_resume
    | _ \<Rightarrow> return ()))"

definition campaign_creation :: "'j campaign_env \<Rightarrow> ('j campaign_page, campaign_click, 'j) page" where
  "campaign_creation E = \<lparr>can_click = campaign_can_click, on_click = campaign_on_click E, on_answer = campaign_on_answer E\<rparr>"

lemma campaign_creation_sel [simp]: "can_click (campaign_creation E) = campaign_can_click" "on_click (campaign_creation E) = campaign_on_click E"
  "on_answer (campaign_creation E) = campaign_on_answer E"
  by (simp_all add: campaign_creation_def)

subsection \<open>The walk over the indices\<close>

text \<open>While the add at index \<open>i\<close> is pending.\<close>

definition campaign_trying :: "string \<Rightarrow> 'j \<Rightarrow> cas \<Rightarrow> campaign_message list \<Rightarrow> string \<Rightarrow> 'j campaign_page \<Rightarrow> bool" where
  "campaign_trying user doc c told i s \<longleftrightarrow> app_User s = user \<and> m_CampaignIndexToTryLcbAddingAt s = i
     \<and> m_CampaignDocForCampaignBeingCreated s = doc \<and> m_CasOfCampaignIndexCacheDoc_OrZeroIfCacheDocDoesNotExist s = c
     \<and> app_pending s = [AppAdd (adSpaceCampaignKey user i) doc] \<and> app_DeferCount s = 2 \<and> \<not> m_CreateNewAdCampaignButton s
     \<and> app_WhatTheStoreWithoutInputCasWasFor s = ATTEMPTTOADDCAMPAIGNATINDEX \<and> said (app_log s) = told \<and> \<not> app_gone s"

text \<open>Rendering is resumed and nothing is pending; the user was told \<open>told\<close>, and the button is enabled or not.\<close>

definition campaign_finished :: "campaign_message list \<Rightarrow> bool \<Rightarrow> 'j campaign_page \<Rightarrow> bool" where
  "campaign_finished told enabled s \<longleftrightarrow> app_pending s = [] \<and> app_DeferCount s = 0 \<and> said (app_log s) = told \<and> \<not> app_gone s
     \<and> m_CreateNewAdCampaignButton s = enabled"

lemmas campaign_run = received_def app_ops andthen_def prog_run Let_def
lemmas campaign_ops = create_clicked_def createNewAdCampaignButtonClicked_def attemptToLcbAddCampaign_def enable_create_def
  useCacheToDetermineIndexForCreatingNewCampaignAt_def handleAttemptToAddCampaignAtIndexFinished_def

interpretation campaign_walk: index_walk "campaign_creation E" "adSpaceCampaignKey user" doc "campaign_trying user doc c told"
  "campaign_finished (told @ [TooManyCampaigns]) False" for E user doc c told
proof unfold_locales
  show "app_pending s = [AppAdd (adSpaceCampaignKey user i) doc] \<and> \<not> app_gone s" if "campaign_trying user doc c told i s" for i s
    using that by (simp add: campaign_trying_def)
next
  fix n s k
  assume t: "campaign_trying user doc c told (show_int n) s" and n: "0 \<le> n" "n + 1 < INT_MAX"
  have "lexical_cast_int (show_int (n + 1)) = Some (n + 1)" "lexical_cast_int (show_int n) = Some n" "wrap32 (n + 1) = n + 1"
    using n by (simp_all add: lexical_cast_int_show_int wrap32_id)
  with t n show "\<exists>s'. on_answer (campaign_creation E) (AddFinished k False False) (received [] (AddFinished k False False) s) = Ret () s'
      \<and> campaign_trying user doc c told (show_int (n + 1)) s'"
    by (simp add: campaign_trying_def campaign_run campaign_ops)
next
  fix n s k
  assume t: "campaign_trying user doc c told (show_int n) s" and n: "0 \<le> n" "n + 1 = INT_MAX"
  then have "n = 2147483646" by simp
  have "lexical_cast_int (show_int 2147483647) = Some 2147483647" "lexical_cast_int (show_int n) = Some n" "wrap32 (n + 1) = 2147483647"
    using n by (simp_all add: lexical_cast_int_show_int wrap32_id)
  with t n show "\<exists>s'. on_answer (campaign_creation E) (AddFinished k False False) (received [] (AddFinished k False False) s) = Ret () s'
      \<and> campaign_finished (told @ [TooManyCampaigns]) False s'"
    by (simp add: campaign_trying_def campaign_finished_def campaign_run campaign_ops)
qed

end
