(* ===== verification/CampaignProperties.thy ===== *)
theory CampaignProperties
  imports CampaignPage BuySlotRuns
begin

section \<open>The properties of the campaign page\<close>

text \<open>
  However many campaigns a seller has, the creation of one more ends; and what a buyer's session (theory \<open>BuySlot\<close>) shows and charges for a new
  campaign is what the seller typed.
\<close>

subsection \<open>The run of a creation\<close>

text \<open>The index that the cache document names, with its CAS; no document counts as index 0.\<close>

definition campaign_start :: "'j campaign_env \<Rightarrow> 'j db \<Rightarrow> string \<Rightarrow> int \<Rightarrow> cas \<Rightarrow> bool" where
  "campaign_start E db user h c \<longleftrightarrow> (case current db (adSpaceCampaignIndexCacheKey user) of
       None \<Rightarrow> h = 0 \<and> c = 0
     | Some (d, c') \<Rightarrow> c = c' \<and> c \<noteq> 0 \<and> (\<exists>pt. read_json (cp_json E) d = Some pt
         \<and> pt_get JSON_AD_SPACE_CAMPAIGN_NEXT_AVAILABLE_INDEX_CACHE pt = Some (show_int h)))"

text \<open>The page is idle, and the validators accept what is typed in; the price is \<open>n\<close> satoshis.\<close>

definition campaign_ready :: "'j campaign_env \<Rightarrow> int \<Rightarrow> campaign_message list \<Rightarrow> 'j campaign_page \<Rightarrow> bool" where
  "campaign_ready E n told s \<longleftrightarrow> campaign_finished told True s \<and> min_price_valid E (m_MinPriceLineEdit s)
     \<and> slot_length_valid E (m_SlotLengthHoursLineEdit s) \<and> image_size_valid E (m_AdImageWidth s) \<and> image_size_valid E (m_AdImageHeight s)
     \<and> jsonStringToSatoshiInt (cp_cast_double E) (m_MinPriceLineEdit s) = Some n"

text \<open>What is typed in and checked stays while a request is on its way.\<close>

definition same_form :: "'j campaign_page \<Rightarrow> 'j campaign_page \<Rightarrow> bool" where
  "same_form s s' \<longleftrightarrow> m_MinPriceLineEdit s' = m_MinPriceLineEdit s \<and> m_SlotLengthHoursLineEdit s' = m_SlotLengthHoursLineEdit s
     \<and> m_AdImageWidth s' = m_AdImageWidth s \<and> m_AdImageHeight s' = m_AdImageHeight s
     \<and> m_DisallowPornCheckbox s' = m_DisallowPornCheckbox s \<and> m_DisallowGamblingCheckbox s' = m_DisallowGamblingCheckbox s
     \<and> m_DisallowMedicineCheckbox s' = m_DisallowMedicineCheckbox s \<and> m_DisallowAlcoholCheckbox s' = m_DisallowAlcoholCheckbox s
     \<and> m_DisallowTobaccoCheckbox s' = m_DisallowTobaccoCheckbox s \<and> m_DisallowWeaponsCheckbox s' = m_DisallowWeaponsCheckbox s"

lemma same_form_doc: "same_form s s' \<Longrightarrow> campaign_doc n s' = campaign_doc n s"
  by (simp add: same_form_def campaign_doc_def disallowed_categories_def)

text \<open>The cache document is being read, with rendering deferred twice.\<close>

definition campaign_reads :: "campaign_message list \<Rightarrow> 'j campaign_page \<Rightarrow> bool" where
  "campaign_reads told s \<longleftrightarrow> app_pending s = [AppGetSavingCas (adSpaceCampaignIndexCacheKey (app_User s))] \<and> app_DeferCount s = 2
     \<and> app_WhatTheGetSavingCasWasFor s = GETADSPACECAMPAIGNINDEXCACHEEVENTHOUGHITMIGHTNOTEXIST
     \<and> said (app_log s) = told \<and> \<not> m_CreateNewAdCampaignButton s \<and> \<not> app_gone s"

text \<open>The cache document is being written, with rendering deferred twice.\<close>

definition campaign_notes :: "campaign_message list \<Rightarrow> 'j app_request \<Rightarrow> 'j campaign_page \<Rightarrow> bool" where
  "campaign_notes told r s \<longleftrightarrow> app_pending s = [r] \<and> app_DeferCount s = 2 \<and> said (app_log s) = told \<and> \<not> app_gone s
     \<and> m_CreateNewAdCampaignButton s \<and> (case r of AppAdd _ _ \<Rightarrow> app_WhatTheStoreWithoutInputCasWasFor s = ADDCAMPAIGNINDEXCACHEIGNORINGRESPONSE
       | _ \<Rightarrow> app_WhatTheStoreWithInputCasWasFor s = CASSWAPCAMPAIGNINDEXCACHEIGNORINGRESPONSE)"

lemmas campaign_states = campaign_finished_def campaign_reads_def campaign_trying_def campaign_notes_def

lemma create_clicked_run:
  assumes "campaign_ready E n told s"
  shows "\<exists>s'. campaign_on_click E ClickCreate s = Ret () s' \<and> campaign_reads told s' \<and> same_form s s' \<and> app_User s' = app_User s"
  using assms by (simp add: campaign_ready_def campaign_states campaign_run campaign_ops same_form_def)

lemma cache_served:
  assumes "campaign_reads told s" "campaign_start E db (app_User s) h c" "0 \<le> h" "h < INT_MAX"
    and "jsonStringToSatoshiInt (cp_cast_double E) (m_MinPriceLineEdit s) = Some n"
  shows "\<exists>s'. app_served (campaign_creation E) pick d0 (db, s) = Some (db, s')
    \<and> campaign_trying (app_User s) (write_json (cp_json E) (campaign_doc n s)) c told (show_int h) s'"
proof -
  have i: "lexical_cast_int (show_int h) = Some h" "show_int 0 = ''0''" using assms(3,4) by (simp_all add: lexical_cast_int_show_int show_int_0)
  show ?thesis
  proof (cases "current db (adSpaceCampaignIndexCacheKey (app_User s))")
    case None
    with assms(2) have "h = 0" "c = 0" by (simp_all add: campaign_start_def)
    with None assms(1,5) i show ?thesis
      by (simp add: app_served_def campaign_states campaign_run campaign_ops campaign_doc_def disallowed_categories_def)
  next
    case (Some v)
    then obtain d where v: "current db (adSpaceCampaignIndexCacheKey (app_User s)) = Some (d, c)" "c \<noteq> 0"
      using assms(2) by (cases v) (auto simp: campaign_start_def)
    with assms(2) obtain pt where "read_json (cp_json E) d = Some pt"
        "pt_get JSON_AD_SPACE_CAMPAIGN_NEXT_AVAILABLE_INDEX_CACHE pt = Some (show_int h)"
      by (auto simp: campaign_start_def)
    with v assms(1,4,5) i show ?thesis
      by (simp add: app_served_def campaign_states campaign_run campaign_ops campaign_doc_def disallowed_categories_def)
  qed
qed

lemma campaign_added:
  assumes "campaign_trying user doc c told (show_int n) s" "db (adSpaceCampaignKey user (show_int n)) = []" "0 \<le> n" "n < INT_MAX"
  shows "\<exists>s' c1. app_served (campaign_creation E) pick d0 (db, s) = Some (new_version (adSpaceCampaignKey user (show_int n)) doc c1 db, s')
    \<and> campaign_notes (told @ [CampaignCreated (show_int n)])
      (if c = 0 then AppAdd (adSpaceCampaignIndexCacheKey user) (write_json (cp_json E) (campaign_index_doc (n + 1)))
       else AppCasStore (adSpaceCampaignIndexCacheKey user) (write_json (cp_json E) (campaign_index_doc (n + 1))) c) s'"
proof -
  let ?k = "adSpaceCampaignKey user (show_int n)"
  have "lexical_cast_int (show_int n) = Some n" "wrap32 (n + 1) = n + 1" using assms(3,4) by (simp_all add: lexical_cast_int_show_int)
  then have "\<exists>s'. app_served (campaign_creation E) pick d0 (db, s) = Some (new_version ?k doc (pick db ?k) db, s')
    \<and> campaign_notes (told @ [CampaignCreated (show_int n)])
      (if c = 0 then AppAdd (adSpaceCampaignIndexCacheKey user) (write_json (cp_json E) (campaign_index_doc (n + 1)))
       else AppCasStore (adSpaceCampaignIndexCacheKey user) (write_json (cp_json E) (campaign_index_doc (n + 1))) c) s'"
    using assms by (simp add: app_served_def campaign_states campaign_run campaign_ops)
  then show ?thesis by blast
qed

lemma campaign_noted:
  assumes "campaign_notes told (if c = 0 then AppAdd k d else AppCasStore k d c) s"
    and "case current db k of None \<Rightarrow> c = 0 | Some (e, c') \<Rightarrow> c = c' \<and> c \<noteq> 0"
  shows "\<exists>s' c2. app_served (campaign_creation E) pick d0 (db, s) = Some (new_version k d c2 db, s') \<and> campaign_finished told True s'"
proof (cases "current db k")
  case None
  then have "c = 0" using assms(2) by simp
  moreover have "db k = []" using None by (simp add: current_none)
  ultimately show ?thesis using assms(1) by (auto simp: app_served_def campaign_states campaign_run)
next
  case (Some v)
  then show ?thesis using assms by (cases v) (auto simp: app_served_def campaign_states campaign_run set_allowed_def)
qed

lemma campaign_key_apart: "adSpaceCampaignKey u i \<noteq> adSpaceCampaignIndexCacheKey v"
  by (simp add: adSpaceCampaignKey_def adSpaceCampaignIndexCacheKey_def)

subsection \<open>The creation ends\<close>

text \<open>
  C14. Creating a campaign ends. On an idle page whose fields are valid, whatever campaigns there are: from the index h that the cache document
  names (0 when there is none), let m be the number of indices taken. When an index below the largest int is free, the click ends after exactly
  m + 3 answers: the campaign document is stored at index h + m, the cache document names h + m + 1, no other document has changed, and the
  button works again. When none is free, it ends after m + 1 answers with nothing stored; and then the button stays disabled.
\<close>

theorem campaign_creation_ends:
  assumes "campaign_ready E n told s" "campaign_start E db (app_User s) h c" "0 \<le> h" "h < INT_MAX"
  shows "\<exists>s1 s' m. campaign_on_click E ClickCreate s = Ret () s1 \<and> taken db (adSpaceCampaignKey (app_User s)) h m \<and> h + int m \<le> INT_MAX
    \<and> (if h + int m = INT_MAX
       then app_serves (campaign_creation E) pick d0 (m + 1) (db, s1) = Some (db, s')
         \<and> campaign_finished (told @ [TooManyCampaigns]) False s' \<and> \<not> campaign_can_click ClickCreate s'
       else db (adSpaceCampaignKey (app_User s) (show_int (h + int m))) = []
         \<and> (\<exists>c1 c2. app_serves (campaign_creation E) pick d0 (m + 3) (db, s1)
           = Some (new_version (adSpaceCampaignIndexCacheKey (app_User s)) (write_json (cp_json E) (campaign_index_doc (h + int m + 1))) c2
              (new_version (adSpaceCampaignKey (app_User s) (show_int (h + int m))) (write_json (cp_json E) (campaign_doc n s)) c1 db), s'))
         \<and> campaign_finished (told @ [CampaignCreated (show_int (h + int m))]) True s' \<and> campaign_can_click ClickCreate s')"
proof -
  let ?P = "campaign_creation E" and ?doc = "write_json (cp_json E) (campaign_doc n s)" and ?key = "adSpaceCampaignKey (app_User s)"
  let ?cache = "adSpaceCampaignIndexCacheKey (app_User s)"
  obtain s1 where s1: "campaign_on_click E ClickCreate s = Ret () s1" "campaign_reads told s1" "same_form s s1" "app_User s1 = app_User s"
    using create_clicked_run [OF assms(1)] by blast
  have n: "jsonStringToSatoshiInt (cp_cast_double E) (m_MinPriceLineEdit s1) = Some n"
    using assms(1) s1(3) by (simp add: campaign_ready_def same_form_def)
  obtain s2 where s2: "app_served ?P pick d0 (db, s1) = Some (db, s2)" "campaign_trying (app_User s) ?doc c told (show_int h) s2"
    using cache_served [OF s1(2) _ assms(3,4) n] assms(2) s1(4) same_form_doc [OF s1(3)] by metis
  obtain m s3 where m: "app_serves ?P pick d0 m (db, s2) = Some (db, s3)" "h + int m \<le> INT_MAX" "taken db ?key h m"
      "if h + int m = INT_MAX then campaign_finished (told @ [TooManyCampaigns]) False s3
       else db (?key (show_int (h + int m))) = [] \<and> campaign_trying (app_User s) ?doc c told (show_int (h + int m)) s3"
    using campaign_walk.walk_ends [OF s2(2) assms(3,4)] by blast
  note s13 = app_serves_then [OF app_serves_one [OF s2(1)] m(1)]
  show ?thesis
  proof (cases "h + int m = INT_MAX")
    case True
    then show ?thesis using s1(1) m s13
      by (intro exI [of _ s1] exI [of _ s3] exI [of _ m]) (simp add: add.commute campaign_finished_def)
  next
    case False
    with m(4) have free: "db (?key (show_int (h + int m))) = []" and t: "campaign_trying (app_User s) ?doc c told (show_int (h + int m)) s3" by simp_all
    let ?d = "write_json (cp_json E) (campaign_index_doc (h + int m + 1))"
    obtain s4 c1 where s4: "app_served ?P pick d0 (db, s3) = Some (new_version (?key (show_int (h + int m))) ?doc c1 db, s4)"
        "campaign_notes (told @ [CampaignCreated (show_int (h + int m))]) (if c = 0 then AppAdd ?cache ?d else AppCasStore ?cache ?d c) s4"
      using campaign_added [where db = db, OF t free, of E pick d0] assms(3) m(2) False by force
    let ?db1 = "new_version (?key (show_int (h + int m))) ?doc c1 db"
    have "case current ?db1 ?cache of None \<Rightarrow> c = 0 | Some (e, c') \<Rightarrow> c = c' \<and> c \<noteq> 0"
      using assms(2) campaign_key_apart [of "app_User s" "show_int (h + int m)" "app_User s"]
      by (auto simp: campaign_start_def split: option.splits)
    from campaign_noted [OF s4(2) this, of E pick d0] obtain s5 c2 where
      s5: "app_served ?P pick d0 (?db1, s4) = Some (new_version ?cache ?d c2 ?db1, s5)"
        "campaign_finished (told @ [CampaignCreated (show_int (h + int m))]) True s5" by blast
    have "app_serves ?P pick d0 2 (db, s3) = Some (new_version ?cache ?d c2 ?db1, s5)" using s4(1) s5(1) by (simp add: numeral_2_eq_2)
    moreover have "1 + m + 2 = m + 3" by simp
    ultimately have "app_serves ?P pick d0 (m + 3) (db, s1) = Some (new_version ?cache ?d c2 ?db1, s5)"
      using app_serves_then [OF s13] by metis
    then show ?thesis using s1(1) m(2,3) free s5(2) False
      by (intro exI [of _ s1] exI [of _ s5] exI [of _ m]) (auto simp: campaign_finished_def)
  qed
qed

subsection \<open>An example\<close>

definition seller_env :: "ptree campaign_env" where
  "seller_env = \<lparr>cp_json = tree_json, cp_cast_double = (\<lambda>t. if t = ''0.003'' then Some (satoshiIntToJsonDouble 300000) else None),
     cp_double_valid = (\<lambda>_ _ t. t = ''0.003''), cp_int_valid = (\<lambda>a b t. case lexical_cast_int t of None \<Rightarrow> False | Some i \<Rightarrow> a \<le> i \<and> i \<le> b)\<rparr>"

definition seller_page :: "ptree campaign_page" where
  "seller_page = \<lparr>app_User = ''alice'', app_BalanceForDisplayingOnly = ''0'', app_WhatTheGetWasFor = NULLGET,
     app_WhatTheGetSavingCasWasFor = NULLGETSAVINGCAS, app_WhatTheStoreWithoutInputCasWasFor = NULLSTOREWITHOUTINPUTCAS,
     app_WhatTheStoreWithInputCasWasFor = NULLSTOREWITHCAS, app_DeferCount = 0, app_pending = [], app_log = [], app_gone = False,
     m_MinPriceLineEdit = ''0.003'', m_SlotLengthHoursLineEdit = show_int 24, m_AdImageWidth = show_int 576, m_AdImageHeight = show_int 96,
     m_DisallowPornCheckbox = False, m_DisallowGamblingCheckbox = True, m_DisallowMedicineCheckbox = False, m_DisallowAlcoholCheckbox = False,
     m_DisallowTobaccoCheckbox = True, m_DisallowWeaponsCheckbox = False, m_CreateNewAdCampaignButton = True,
     m_CasOfCampaignIndexCacheDoc_OrZeroIfCacheDocDoesNotExist = 0, m_CampaignIndexToTryLcbAddingAt = ''0'',
     m_CampaignDocForCampaignBeingCreated = pt_empty\<rparr>"

text \<open>The cache document names index 5; two campaigns that it does not know are there.\<close>

definition seller_db :: "ptree db" where
  "seller_db = (\<lambda>_. [])(adSpaceCampaignIndexCacheKey ''alice'' := [(campaign_index_doc 5, 1)],
     adSpaceCampaignKey ''alice'' (show_int 5) := [(pt_empty, 1)], adSpaceCampaignKey ''alice'' (show_int 6) := [(pt_empty, 1)])"

lemma seller_ready: "campaign_ready seller_env 300000 [] seller_page"
proof -
  have "jsonDoubleToSatoshiIntIncludingRounding (satoshiIntToJsonDouble 300000) = 300000" by (rule satoshi_roundtrip) simp
  moreover have "lexical_cast_int (show_int 24) = Some 24" "lexical_cast_int (show_int 576) = Some 576" "lexical_cast_int (show_int 96) = Some 96"
    by (simp_all add: lexical_cast_int_show_int)
  ultimately show ?thesis
    by (simp add: campaign_ready_def campaign_finished_def seller_page_def seller_env_def min_price_valid_def slot_length_valid_def
        image_size_valid_def jsonStringToSatoshiInt_def)
qed

lemma seller_start: "campaign_start seller_env seller_db ''alice'' 5 1"
  using campaign_key_apart [THEN not_sym]
  by (simp add: campaign_start_def seller_db_def seller_env_def current_def campaign_index_doc_def)

lemma campaign_key_eq [simp]: "adSpaceCampaignKey u i = adSpaceCampaignKey u j \<longleftrightarrow> i = j"
  by (simp add: adSpaceCampaignKey_def)

lemma seller_free: "seller_db (adSpaceCampaignKey ''alice'' (show_int i)) = [] \<longleftrightarrow> i \<noteq> 5 \<and> i \<noteq> 6"
  by (simp add: seller_db_def campaign_key_apart)

theorem campaign_creation_ends_witness:
  "\<exists>s1 s' c1 c2. campaign_on_click seller_env ClickCreate seller_page = Ret () s1
    \<and> app_serves (campaign_creation seller_env) (\<lambda>_ _. 2) pt_empty 5 (seller_db, s1)
      = Some (new_version (adSpaceCampaignIndexCacheKey ''alice'') (campaign_index_doc 8) c2
          (new_version (adSpaceCampaignKey ''alice'' (show_int 7)) (campaign_doc 300000 seller_page) c1 seller_db), s')
    \<and> campaign_finished [CampaignCreated (show_int 7)] True s'"
proof -
  have u: "app_User seller_page = ''alice''" by (simp add: seller_page_def)
  note run = campaign_creation_ends [OF seller_ready, unfolded u, OF seller_start, where pick = "\<lambda>_ _. 2" and ?d0.0 = pt_empty]
  have two: "m = 2" if "taken seller_db (adSpaceCampaignKey ''alice'') 5 m" "5 + int m = INT_MAX
      \<or> seller_db (adSpaceCampaignKey ''alice'' (show_int (5 + int m))) = []" for m
  proof -
    have "m < 3" using that(1) by (rule_tac ccontr) (auto simp: taken_def seller_free dest: spec [of _ 2])
    moreover have "m \<noteq> 0" "m \<noteq> 1" using that(2) by (auto simp: seller_free)
    ultimately show ?thesis by linarith
  qed
  from run obtain s1 s' m where m: "campaign_on_click seller_env ClickCreate seller_page = Ret () s1"
      "taken seller_db (adSpaceCampaignKey ''alice'') 5 m" and e: "if 5 + int m = INT_MAX
       then app_serves (campaign_creation seller_env) (\<lambda>_ _. 2) pt_empty (m + 1) (seller_db, s1) = Some (seller_db, s')
         \<and> campaign_finished ([] @ [TooManyCampaigns]) False s' \<and> \<not> campaign_can_click ClickCreate s'
       else seller_db (adSpaceCampaignKey ''alice'' (show_int (5 + int m))) = []
         \<and> (\<exists>c1 c2. app_serves (campaign_creation seller_env) (\<lambda>_ _. 2) pt_empty (m + 3) (seller_db, s1)
           = Some (new_version (adSpaceCampaignIndexCacheKey ''alice'') (write_json (cp_json seller_env) (campaign_index_doc (5 + int m + 1))) c2
              (new_version (adSpaceCampaignKey ''alice'' (show_int (5 + int m))) (write_json (cp_json seller_env) (campaign_doc 300000 seller_page))
                c1 seller_db), s'))
         \<and> campaign_finished ([] @ [CampaignCreated (show_int (5 + int m))]) True s' \<and> campaign_can_click ClickCreate s'"
    by (auto simp del: append.simps)
  have "m = 2" by (rule two [OF m(2)]) (use e in \<open>auto split: if_splits\<close>)
  with e have "(\<exists>c1 c2. app_serves (campaign_creation seller_env) (\<lambda>_ _. 2) pt_empty 5 (seller_db, s1)
      = Some (new_version (adSpaceCampaignIndexCacheKey ''alice'') (campaign_index_doc 8) c2
          (new_version (adSpaceCampaignKey ''alice'' (show_int 7)) (campaign_doc 300000 seller_page) c1 seller_db), s'))
    \<and> campaign_finished [CampaignCreated (show_int 7)] True s'" by (simp add: seller_env_def)
  with m(1) show ?thesis by blast
qed

subsection \<open>What buyers see\<close>

definition categories_of :: "'j campaign_page \<Rightarrow> string list" where
  "categories_of s = map (\<lambda>(_, c). pt_data c) (pt_kids (disallowed_categories s))"

lemma campaign_doc_read [simp]:
  "pt_get JSON_AD_SPACE_CAMPAIGN_MIN_PRICE (campaign_doc n s) = Some (show_int n)"
  "pt_get JSON_AD_SPACE_CAMPAIGN_SLOT_LENGTH_HOURS (campaign_doc n s) = Some (m_SlotLengthHoursLineEdit s)"
  "pt_get JSON_SLOT_FILLER_WIDTH (campaign_doc n s) = Some (m_AdImageWidth s)"
  "pt_get JSON_SLOT_FILLER_HEIGHT (campaign_doc n s) = Some (m_AdImageHeight s)"
  "pt_get_child_optional JSON_AD_SPACE_CAMPAIGN_LAST_SLOT_FILLED (campaign_doc n s) = None"
  "pt_get_child_optional JSON_AD_SPACE_CAMPAIGN_DISALLOWED_CATEGORIES_KEY (campaign_doc n s) = Some (disallowed_categories s)"
  by (simp_all add: campaign_doc_def pt_empty_def pt_get_child_optional_def pt_add_child_def pt_put_def pt_get_def)

lemma campaign_doc_json: "json_tree (campaign_doc n s)"
  by (simp add: campaign_doc_def disallowed_categories_def add_to_disallowed_array_if_checked_def pt_empty_def pt_add_child_def pt_put_def)

text \<open>
  C15. A new campaign is offered as its seller typed it. When a buyer's session shows the document that the creation page stored, the minimum price
  is the price n in satoshis (at most \<open>2 ^ 49\<close>, about 5.6 million bitcoins), printed as bitcoins, the duration, the dimensions and the disallowed categories are those of the form, in the
  order of the check boxes, no purchase is known and the first step of a purchase is enabled; and at any time the price that is charged for
  the first slot is n.
\<close>

theorem a_new_campaign_is_on_sale:
  assumes "json_ok (env_json F)" "0 \<le> n" "n \<le> 2 ^ 49" "cast_double F (satoshiIntToJsonString n) = Some (satoshiIntToJsonDouble n)"
  shows "\<exists>g'. finishShowingAdvertisingBuyAdSpaceD3faultCampaign0Widget F now (write_json (env_json F) (campaign_doc n s)) c True False g = Ret () g'
    \<and> m_MinPrice g' = satoshiIntToJsonString n \<and> m_SlotLengthHoursString g' = m_SlotLengthHoursLineEdit s \<and> m_NoPreviousSlotPurchases g'
    \<and> m_BuySlotFillerStep1Button g'
    \<and> gui_outputs g' = gui_outputs g @ (if m_BuyStep2placeholder g then [EnableStep1] else [])
      @ [ShowPrice (satoshiIntToJsonString n), ShowStart None]
      @ (if ajax g \<and> \<not> m_FirstPopulate g then [] else [ShowHours (m_SlotLengthHoursLineEdit s),
          ShowDimensions (m_AdImageWidth s @ ''x'' @ m_AdImageHeight s @ '' px''), ShowCategories (categories_text (categories_of s))])
    \<and> determine_price F t g' = Ret n g'"
proof -
  have r: "read_json (env_json F) (write_json (env_json F) (campaign_doc n s)) = Some (campaign_doc n s)"
    using assms(1) campaign_doc_json unfolding json_ok_def by blast
  have "lexical_cast_longlong (show_int n) = Some n" using assms(2,3) by (intro lexical_cast_longlong_show_int) simp_all
  then have p: "satoshiStringToJsonString (show_int n) = Some (satoshiIntToJsonString n)"
    by (simp add: satoshiStringToJsonString_def satoshiStringToSatoshiInt_def satoshiIntToJsonString_def)
  have q: "jsonStringToSatoshiInt (cast_double F) (satoshiIntToJsonString n) = Some n"
    using assms(2,3) satoshi_roundtrip [of n] by (simp add: jsonStringToSatoshiInt_def assms(4))
  show ?thesis
    using r p q by (simp add: finishShowingAdvertisingBuyAdSpaceD3faultCampaign0Widget_def go_ops show_campaign_labels_def
        populateDimensionsLabel_def populateDisallowedCategoriesLabel_def categories_of_def determine_price_def)
qed

definition sale_env :: "ptree gui_env" where
  "sale_env = visit_env\<lparr>cast_double := (\<lambda>t. if t = satoshiIntToJsonString 300000 then Some (satoshiIntToJsonDouble 300000) else None)\<rparr>"

theorem a_new_campaign_is_on_sale_witness:
  "\<exists>g'. finishShowingAdvertisingBuyAdSpaceD3faultCampaign0Widget sale_env 100 (campaign_doc 300000 seller_page) 7 True False visit_shown = Ret () g'
    \<and> ShowDimensions (show_int 576 @ ''x'' @ show_int 96 @ '' px'') \<in> set (gui_outputs g')
    \<and> ShowCategories ''Gambling, Tobacco'' \<in> set (gui_outputs g') \<and> determine_price sale_env (seconds 100) g' = Ret 300000 g'"
proof -
  have e: "env_json sale_env = tree_json" by (simp add: sale_env_def)
  have "cast_double sale_env (satoshiIntToJsonString 300000) = Some (satoshiIntToJsonDouble 300000)" by (simp add: sale_env_def)
  note run = a_new_campaign_is_on_sale [where F = sale_env and n = 300000 and s = seller_page and g = visit_shown and c = 7 and now = 100
      and t = "seconds 100", unfolded e, OF tree_json_ok _ _ this]
  have "categories_of seller_page = [''Gambling'', ''Tobacco'']"
    by (simp add: categories_of_def disallowed_categories_def add_to_disallowed_array_if_checked_def seller_page_def pt_empty_def)
  moreover have "m_AdImageWidth seller_page = show_int 576" "m_AdImageHeight seller_page = show_int 96" "m_FirstPopulate visit_shown \<or> \<not> ajax visit_shown"
    by (simp_all add: seller_page_def visit_shown_def)
  ultimately show ?thesis using run by force
qed

end
