(* ===== verification/FillerTab.thy ===== *)
theory FillerTab
  imports TabApp
begin

section \<open>The account tab that uploads ads\<close>

text \<open>
  \<open>Anonymous Bitcoin Computing 2/src/frontend/accounttabs/newadslotfilleraccounttabbody.cpp\<close>. An ad (a slot filler) is a document of its own;
  one more document per user, the list, holds the number of the ads and their nicknames. An upload reads the list, adds the ad at the index that
  the list names as free and then writes the list under the CAS of that read. When the index is taken after all, some upload did not get to
  update the list: the tab reads the nickname of the ad that is there, enters it into its copy of the list and tries the next index.

  The record \<open>filler_tab\<close> holds the members of \<open>NewAdSlotFillerAccountTabBody\<close>; a line edit is its text, a button whether it is enabled. The
  file upload widget of Wt is the record \<open>uploader\<close>; \<open>tab_files\<close> are the files it has spooled, by name, with their bytes. A \<open>FileDeletingFileResource\<close> is
  the name of its file, which it removes when it is deleted. Of the environment the model takes the JSON text, base64, the escaping of HTML and
  what Wt's integer validator and the regular expression for URLs accept.
\<close>

subsection \<open>State\<close>

datatype filler_message =
    Filler500 | InvalidHoverText | InvalidNickname | InvalidUrl | InvalidAdImageWidth | InvalidAdImageHeight | FileTooLarge | TooManyAds
  | InvalidImageFormat | PreviewOf string string string int int

record uploader =
  uploading :: bool
  spoolFileName :: string
  clientFileName :: string
  stolen :: bool

record 'j filler_tab = "('j, filler_message) app" +
  m_UploadNewSlotFiller_NICKNAME :: string
  m_Validated_NewAdSlotFiller_NICKNAME :: string
  m_UploadNewSlotFiller_NICKNAME_B64 :: string
  m_UploadNewSlotFiller_HOVERTEXT :: string
  m_Validated_NewAdSlotFiller_HOVERTEXT :: string
  m_UploadNewSlotFiller_URL :: string
  m_Validated_NewAdSlotFiller_URL :: string
  m_UploadNewSlotFiller_WIDTH :: string
  m_Validated_UploadNewSlotFiller_WIDTH :: string
  m_UploadNewSlotFiller_HEIGHT :: string
  m_Validated_UploadNewSlotFiller_HEIGHT :: string
  m_AdImageUploader :: uploader
  m_AdImageUploadButton :: bool
  m_MostRecentlyUploadedImageWasSetAsPreview :: bool
  m_MostRecentlyUploadedImageAsFileResource :: "string option"
  m_RunningAllSlotFillersJsonDoc :: ptree
  m_RunningAllSlotFillersJsonDocCAS :: cas
  tab_files :: "string \<Rightarrow> string option"
  filler_PopulatedAndInitializing :: bool

record 'j filler_env =
  fl_json :: "'j json"
  fl_base64Encode :: "string \<Rightarrow> string"
  fl_htmlEncode :: "string \<Rightarrow> string"
  fl_int_valid :: "int \<Rightarrow> int \<Rightarrow> string \<Rightarrow> bool"
  fl_url_valid :: "string \<Rightarrow> bool"

abbreviation "JSON_SLOT_FILLER_NICKNAME \<equiv> ''nicknameB64''"
abbreviation "JSON_SLOT_FILLER_HOVERTEXT \<equiv> ''hoverTextB64''"
abbreviation "JSON_SLOT_FILLER_URL \<equiv> ''urlB64''"
abbreviation "JSON_SLOT_FILLER_IMAGEB64 \<equiv> ''adImageB64''"
abbreviation "JSON_SLOT_FILLER_IMAGE_GUESSED_EXTENSION \<equiv> ''adImageExt''"

subsection \<open>Validation\<close>

text \<open>\<open>SafeTextValidatorAndInputFilter\<close> with a maximum length, which is mandatory.\<close>

definition is_safe_char :: "char \<Rightarrow> bool" where
  "is_safe_char c \<longleftrightarrow> (let n = (of_char c :: nat) in 48 \<le> n \<and> n \<le> 57 \<or> 65 \<le> n \<and> n \<le> 90 \<or> 97 \<le> n \<and> n \<le> 122
     \<or> c = CHR '' '' \<or> c = CHR ''.'' \<or> c = CHR ''-'')"

definition safe_text_valid :: "nat \<Rightarrow> string \<Rightarrow> bool" where
  "safe_text_valid maxCharacters t \<longleftrightarrow> 1 \<le> length t \<and> length t \<le> maxCharacters \<and> list_all is_safe_char t"

text \<open>\<open>StupidMimeFromExtensionUtil\<close>: the extension and the subtype of the MIME type.\<close>

definition to_lower :: "string \<Rightarrow> string" where
  "to_lower = map (\<lambda>c. let n = (of_char c :: nat) in if 65 \<le> n \<and> n \<le> 90 then char_of (n + 32) else c)"

definition ends_with :: "string \<Rightarrow> string \<Rightarrow> bool" where
  "ends_with t u \<longleftrightarrow> length u \<le> length t \<and> drop (length t - length u) t = u"

definition guessExtensionAndMimeType :: "string \<Rightarrow> string \<times> string" where
  "guessExtensionAndMimeType filename = (let filename = to_lower filename in
     if ends_with filename ''.jpg'' \<or> ends_with filename ''.jpeg'' then (''.jpg'', ''jpeg'')
     else if ends_with filename ''.bmp'' then (''.bmp'', ''bmp'')
     else (''.jpg'', ''jpeg''))"

definition isBmp :: "string \<Rightarrow> bool" where
  "isBmp headerMagic \<longleftrightarrow> headerMagic ! 0 = CHR ''B'' \<and> headerMagic ! 1 = CHR ''M''"

definition isJpeg :: "string \<Rightarrow> bool" where
  "isJpeg headerMagic \<longleftrightarrow> headerMagic ! 0 = CHR 0xFF \<and> headerMagic ! 1 = CHR 0xD8"

definition headerIndicatesNonAnimatedImage :: "string \<Rightarrow> bool" where
  "headerIndicatesNonAnimatedImage headerMagic \<longleftrightarrow> (if isBmp headerMagic then True else if isJpeg headerMagic then True else False)"

definition ad_size_valid :: "'j filler_env \<Rightarrow> string \<Rightarrow> bool" where
  "ad_size_valid E = fl_int_valid E 16 2048"

definition userSuppliedAdSlotFillerFieldsAreValid :: "'j filler_env \<Rightarrow> ('j filler_tab, bool) prog" where
  "userSuppliedAdSlotFillerFieldsAreValid E = reading (\<lambda>s.
     if \<not> safe_text_valid 512 (m_UploadNewSlotFiller_HOVERTEXT s) then andthen (say InvalidHoverText) (\<lambda>_. return False)
     else if \<not> safe_text_valid 64 (m_UploadNewSlotFiller_NICKNAME s) then andthen (say InvalidNickname) (\<lambda>_. return False)
     else if \<not> fl_url_valid E (m_UploadNewSlotFiller_URL s) then andthen (say InvalidUrl) (\<lambda>_. return False)
     else if \<not> ad_size_valid E (m_UploadNewSlotFiller_WIDTH s) then andthen (say InvalidAdImageWidth) (\<lambda>_. return False)
     else if \<not> ad_size_valid E (m_UploadNewSlotFiller_HEIGHT s) then andthen (say InvalidAdImageHeight) (\<lambda>_. return False)
     else return True)"

subsection \<open>Uploading\<close>

definition setUpAdImageUploaderAndPutItInPlaceholder :: "('j filler_tab, unit) prog" where
  "setUpAdImageUploaderAndPutItInPlaceholder = modify (\<lambda>s. s\<lparr>m_AdImageUploader :=
     \<lparr>uploading = False, spoolFileName = [], clientFileName = [], stolen = False\<rparr>\<rparr>)"

definition filler_populateAndInitialize :: "('j filler_tab, unit) prog" where
  "filler_populateAndInitialize = andthen (modify (\<lambda>s. s\<lparr>m_UploadNewSlotFiller_NICKNAME := [], m_UploadNewSlotFiller_HOVERTEXT := [],
     m_UploadNewSlotFiller_URL := ''http://'', m_UploadNewSlotFiller_WIDTH := [], m_UploadNewSlotFiller_HEIGHT := [],
     m_AdImageUploadButton := True\<rparr>)) (\<lambda>_. setUpAdImageUploaderAndPutItInPlaceholder)"

definition filler_onTabBeingShown :: "('j filler_tab, unit) prog" where
  "filler_onTabBeingShown = reading (\<lambda>s. if \<not> filler_PopulatedAndInitializing s then
     andthen filler_populateAndInitialize (\<lambda>_. modify (\<lambda>s. s\<lparr>filler_PopulatedAndInitializing := True\<rparr>))
   else return ())"

definition handleAdImageUploadButtonClicked :: "'j filler_env \<Rightarrow> ('j filler_tab, unit) prog" where
  "handleAdImageUploadButtonClicked E = andthen (userSuppliedAdSlotFillerFieldsAreValid E) (\<lambda>valid.
     if \<not> valid then return ()
     else modify (\<lambda>s. s\<lparr>m_Validated_NewAdSlotFiller_HOVERTEXT := m_UploadNewSlotFiller_HOVERTEXT s,
       m_Validated_UploadNewSlotFiller_WIDTH := m_UploadNewSlotFiller_WIDTH s,
       m_Validated_UploadNewSlotFiller_HEIGHT := m_UploadNewSlotFiller_HEIGHT s,
       m_Validated_NewAdSlotFiller_NICKNAME := m_UploadNewSlotFiller_NICKNAME s @ '' -- '' @ m_UploadNewSlotFiller_WIDTH s @ ''x''
         @ m_UploadNewSlotFiller_HEIGHT s,
       m_Validated_NewAdSlotFiller_URL := m_UploadNewSlotFiller_URL s,
       m_AdImageUploadButton := False,
       m_AdImageUploader := (m_AdImageUploader s)\<lparr>uploading := True\<rparr>\<rparr>))"

definition handleAdSlotFillerImageUploadFinished :: "('j filler_tab, unit) prog" where
  "handleAdSlotFillerImageUploadFinished = andthen app_defer (\<lambda>_. reading (\<lambda>s.
     app_get_saving_cas (adSpaceAllSlotFillersKey (app_User s)) GETALLADSLOTFILLERSTODETERMINENEXTINDEXANDTOUPDATEIT))"

text \<open>The uploader that is deleted removes its spooled file unless the file was stolen from it.\<close>

definition remove_file :: "string \<Rightarrow> ('j filler_tab, unit) prog" where
  "remove_file name = modify (\<lambda>s. s\<lparr>tab_files := (tab_files s)(name := None)\<rparr>)"

definition resetAdSlotFillerImageUploadFieldsForAnotherUpload :: "('j filler_tab, unit) prog" where
  "resetAdSlotFillerImageUploadFieldsForAnotherUpload =
     andthen (modify (\<lambda>s. s\<lparr>m_UploadNewSlotFiller_NICKNAME := [], m_UploadNewSlotFiller_NICKNAME_B64 := [],
       m_UploadNewSlotFiller_HOVERTEXT := [], m_UploadNewSlotFiller_URL := ''http://'', m_UploadNewSlotFiller_WIDTH := [],
       m_UploadNewSlotFiller_HEIGHT := [], m_AdImageUploadButton := True\<rparr>)) (\<lambda>_. reading (\<lambda>s.
     andthen (if stolen (m_AdImageUploader s) then return () else remove_file (spoolFileName (m_AdImageUploader s))) (\<lambda>_.
     andthen setUpAdImageUploaderAndPutItInPlaceholder (\<lambda>_.
     andthen (if m_MostRecentlyUploadedImageWasSetAsPreview s then return ()
         else (case m_MostRecentlyUploadedImageAsFileResource s of None \<Rightarrow> return () | Some f \<Rightarrow> remove_file f)) (\<lambda>_.
     andthen (modify (\<lambda>s. s\<lparr>m_MostRecentlyUploadedImageAsFileResource := None, m_MostRecentlyUploadedImageWasSetAsPreview := False\<rparr>)) (\<lambda>_.
     app_resume))))))"

definition say_and_reset :: "filler_message \<Rightarrow> ('j filler_tab, unit) prog" where
  "say_and_reset m = andthen (say m) (\<lambda>_. resetAdSlotFillerImageUploadFieldsForAnotherUpload)"

definition handleAdImageUploadFailedFileTooLarge :: "('j filler_tab, unit) prog" where
  "handleAdImageUploadFailedFileTooLarge = say_and_reset FileTooLarge"

definition filler_doc :: "'j filler_env \<Rightarrow> 'j filler_tab \<Rightarrow> string \<Rightarrow> string \<Rightarrow> ptree" where
  "filler_doc E s adImageString guessedExtension =
     pt_put JSON_SLOT_FILLER_IMAGE_GUESSED_EXTENSION guessedExtension
     (pt_put JSON_SLOT_FILLER_IMAGEB64 (fl_base64Encode E adImageString)
     (pt_put JSON_SLOT_FILLER_HEIGHT (m_Validated_UploadNewSlotFiller_HEIGHT s)
     (pt_put JSON_SLOT_FILLER_WIDTH (m_Validated_UploadNewSlotFiller_WIDTH s)
     (pt_put JSON_SLOT_FILLER_URL (fl_base64Encode E (fl_htmlEncode E (m_Validated_NewAdSlotFiller_URL s)))
     (pt_put JSON_SLOT_FILLER_HOVERTEXT (fl_base64Encode E (m_Validated_NewAdSlotFiller_HOVERTEXT s))
     (pt_put JSON_SLOT_FILLER_NICKNAME (fl_base64Encode E (m_Validated_NewAdSlotFiller_NICKNAME s))
     (pt_put JSON_SLOT_FILLER_USERNAME (app_User s) pt_empty)))))))"

definition tryToAddAdSlotFillerToCouchbase :: "'j filler_env \<Rightarrow> string \<Rightarrow> ('j filler_tab, unit) prog" where
  "tryToAddAdSlotFillerToCouchbase E slotFillerIndexToAttemptToAdd = reading (\<lambda>s.
     let adImageUploadFileLocation = spoolFileName (m_AdImageUploader s);
         guessedExtension = fst (guessExtensionAndMimeType (clientFileName (m_AdImageUploader s)))
     in
     andthen (modify (\<lambda>s. s\<lparr>m_UploadNewSlotFiller_NICKNAME_B64 := fl_base64Encode E (m_Validated_NewAdSlotFiller_NICKNAME s),
       m_MostRecentlyUploadedImageAsFileResource := Some adImageUploadFileLocation,
       m_AdImageUploader := (m_AdImageUploader s)\<lparr>stolen := True\<rparr>\<rparr>)) (\<lambda>_.
     case tab_files s adImageUploadFileLocation of
       None \<Rightarrow> say_and_reset Filler500
     | Some adImageString \<Rightarrow>
         if \<not> (1 < length adImageString \<and> headerIndicatesNonAnimatedImage (take 2 adImageString))
         then say_and_reset InvalidImageFormat
         else app_add (adSpaceSlotFillerKey (app_User s) slotFillerIndexToAttemptToAdd)
           (write_json (fl_json E) (filler_doc E s adImageString guessedExtension)) LARGE_ADIMAGEUPLOADBUYERSETTINGUPADSLOTFILLER))"

definition determineNextSlotFillerIndexAndThenAddSlotFillerToIt :: "'j filler_env \<Rightarrow> 'j \<Rightarrow> cas \<Rightarrow> bool \<Rightarrow> bool \<Rightarrow> ('j filler_tab, unit) prog" where
  "determineNextSlotFillerIndexAndThenAddSlotFillerToIt E allAdSlotFillersJsonDoc c lcbOpSuccess dbError =
    (if dbError then say_and_reset Filler500
     else
     andthen (modify (\<lambda>s. s\<lparr>m_RunningAllSlotFillersJsonDoc := pt_empty, m_RunningAllSlotFillersJsonDocCAS := c\<rparr>)) (\<lambda>_.
     if \<not> lcbOpSuccess then
       andthen (modify (\<lambda>s. s\<lparr>m_RunningAllSlotFillersJsonDoc := pt_put JSON_ALL_SLOT_FILLERS_ADS_COUNT ''0'' (m_RunningAllSlotFillersJsonDoc s)\<rparr>)) (\<lambda>_.
       tryToAddAdSlotFillerToCouchbase E ''0'')
     else
       andthen (parse_json (fl_json E) allAdSlotFillersJsonDoc) (\<lambda>pt.
       andthen (modify (\<lambda>s. s\<lparr>m_RunningAllSlotFillersJsonDoc := pt\<rparr>)) (\<lambda>_.
       andthen (pt_need JSON_ALL_SLOT_FILLERS_ADS_COUNT pt) (\<lambda>slotFillerIndexToAttemptToAdd.
       andthen (require Bad_lexical_cast (lexical_cast_int slotFillerIndexToAttemptToAdd)) (\<lambda>i.
       if i = 9999 then say_and_reset TooManyAds
       else tryToAddAdSlotFillerToCouchbase E slotFillerIndexToAttemptToAdd))))))"

text \<open>Entering a nickname into the copy of the list, at the index that is its number of ads; the new number is returned as text.\<close>

definition enter_nickname :: "string \<Rightarrow> ('j filler_tab, string) prog" where
  "enter_nickname nicknameB64 = reading (\<lambda>s.
     andthen (pt_need JSON_ALL_SLOT_FILLERS_ADS_COUNT (m_RunningAllSlotFillersJsonDoc s)) (\<lambda>i.
     andthen (modify (\<lambda>s. s\<lparr>m_RunningAllSlotFillersJsonDoc := pt_put i nicknameB64 (m_RunningAllSlotFillersJsonDoc s)\<rparr>)) (\<lambda>_.
     andthen (require Bad_lexical_cast (lexical_cast_int i)) (\<lambda>n.
     andthen (modify (\<lambda>s. s\<lparr>m_RunningAllSlotFillersJsonDoc :=
         pt_put JSON_ALL_SLOT_FILLERS_ADS_COUNT (show_int (wrap32 (n + 1))) (m_RunningAllSlotFillersJsonDoc s)\<rparr>)) (\<lambda>_.
     return (show_int (wrap32 (n + 1))))))))"

definition storeLargeAdImageInCouchbaseDbAttemptComplete :: "'j filler_env \<Rightarrow> string \<Rightarrow> bool \<Rightarrow> bool \<Rightarrow> ('j filler_tab, unit) prog" where
  "storeLargeAdImageInCouchbaseDbAttemptComplete E keyToSlotFillerAttemptedToAddTo lcbOpSuccess dbError =
    (if dbError then say_and_reset Filler500
     else if \<not> lcbOpSuccess then app_get keyToSlotFillerAttemptedToAddTo GETNICKNAMEOFADSLOTFILLERNOTINALLADSLOTFILLERSDOC
     else reading (\<lambda>s.
     andthen (enter_nickname (m_UploadNewSlotFiller_NICKNAME_B64 s)) (\<lambda>_. reading (\<lambda>s.
     app_cas_store (adSpaceAllSlotFillersKey (app_User s)) (write_json (fl_json E) (m_RunningAllSlotFillersJsonDoc s))
       (m_RunningAllSlotFillersJsonDocCAS s) UPDATEALLADSLOTFILLERSDOCSINCEWEJUSTCREATEDNEWADSLOTFILLER))))"

definition doneAttemptingToUpdateAllAdSlotFillersDoc :: "bool \<Rightarrow> bool \<Rightarrow> ('j filler_tab, unit) prog" where
  "doneAttemptingToUpdateAllAdSlotFillersDoc lcbOpSuccess dbError =
    (if dbError then say_and_reset Filler500
     else if \<not> lcbOpSuccess then say_and_reset Filler500
     else reading (\<lambda>s.
     andthen (require Bad_lexical_cast (lexical_cast_int (m_Validated_UploadNewSlotFiller_WIDTH s))) (\<lambda>w.
     andthen (require Bad_lexical_cast (lexical_cast_int (m_Validated_UploadNewSlotFiller_HEIGHT s))) (\<lambda>h.
     andthen (say (PreviewOf (m_Validated_NewAdSlotFiller_NICKNAME s) (m_Validated_NewAdSlotFiller_HOVERTEXT s)
       (m_Validated_NewAdSlotFiller_URL s) w h)) (\<lambda>_.
     andthen (modify (\<lambda>s. s\<lparr>m_MostRecentlyUploadedImageWasSetAsPreview := True\<rparr>)) (\<lambda>_.
     resetAdSlotFillerImageUploadFieldsForAnotherUpload))))))"

definition getAdSlotFillerThatIsntInAllAdSlotFillersAttemptFinished :: "'j filler_env \<Rightarrow> 'j \<Rightarrow> bool \<Rightarrow> bool \<Rightarrow> ('j filler_tab, unit) prog" where
  "getAdSlotFillerThatIsntInAllAdSlotFillersAttemptFinished E adSlotFillerToExtractNicknameFrom lcbOpSuccess dbError =
    (if dbError then say_and_reset Filler500
     else if \<not> lcbOpSuccess then say_and_reset Filler500
     else
     andthen (parse_json (fl_json E) adSlotFillerToExtractNicknameFrom) (\<lambda>pt.
     andthen (pt_need JSON_SLOT_FILLER_NICKNAME pt) (\<lambda>nickname.
     andthen (enter_nickname nickname) (\<lambda>next_index.
     tryToAddAdSlotFillerToCouchbase E next_index))))"

subsection \<open>The tab\<close>

text \<open>Besides clicks there are the two ways an upload that was begun can end: the spooled file, whose bytes are there or not, or the refusal.\<close>

datatype filler_click = ShowAds | TypeAd string string string string string | ClickSubmitAd | Uploaded string string "string option" | TooLarge

fun filler_can_click :: "filler_click \<Rightarrow> 'j filler_tab \<Rightarrow> bool" where
  "filler_can_click ShowAds s = (app_DeferCount s \<le> 0)"
| "filler_can_click (TypeAd _ _ _ _ _) s = (app_DeferCount s \<le> 0 \<and> filler_PopulatedAndInitializing s)"
| "filler_can_click ClickSubmitAd s = (app_DeferCount s \<le> 0 \<and> filler_PopulatedAndInitializing s \<and> m_AdImageUploadButton s)"
| "filler_can_click (Uploaded _ _ _) s = uploading (m_AdImageUploader s)"
| "filler_can_click TooLarge s = uploading (m_AdImageUploader s)"

fun filler_on_click :: "'j filler_env \<Rightarrow> filler_click \<Rightarrow> ('j filler_tab, unit) prog" where
  "filler_on_click E ShowAds = filler_onTabBeingShown"
| "filler_on_click E (TypeAd nickname hover url width height) = modify (\<lambda>s. s\<lparr>m_UploadNewSlotFiller_NICKNAME := nickname,
     m_UploadNewSlotFiller_HOVERTEXT := hover, m_UploadNewSlotFiller_URL := url, m_UploadNewSlotFiller_WIDTH := width,
     m_UploadNewSlotFiller_HEIGHT := height\<rparr>)"
| "filler_on_click E ClickSubmitAd = handleAdImageUploadButtonClicked E"
| "filler_on_click E (Uploaded name client bytes) = andthen (modify (\<lambda>s. s\<lparr>tab_files := (tab_files s)(name := bytes),
     m_AdImageUploader := \<lparr>uploading = False, spoolFileName = name, clientFileName = client, stolen = False\<rparr>\<rparr>)) (\<lambda>_.
     handleAdSlotFillerImageUploadFinished)"
| "filler_on_click E TooLarge = handleAdImageUploadFailedFileTooLarge"

text \<open>The cases of the application's dispatch that belong to this tab. The large stores differ from the others in the queue they use.\<close>

fun filler_on_answer :: "'j filler_env \<Rightarrow> 'j app_answer \<Rightarrow> ('j filler_tab, unit) prog" where
  "filler_on_answer E (GetFinished k d ok err) = andthen app_resume (\<lambda>_. reading (\<lambda>s. case app_WhatTheGetWasFor s of
      GETNICKNAMEOFADSLOTFILLERNOTINALLADSLOTFILLERSDOC \<Rightarrow> getAdSlotFillerThatIsntInAllAdSlotFillersAttemptFinished E d ok err
    | _ \<Rightarrow> return ()))"
| "filler_on_answer E (GetSavingCasFinished k d c ok err) = andthen app_resume (\<lambda>_. reading (\<lambda>s. case app_WhatTheGetSavingCasWasFor s of
      GETALLADSLOTFILLERSTODETERMINENEXTINDEXANDTOUPDATEIT \<Rightarrow> determineNextSlotFillerIndexAndThenAddSlotFillerToIt E d c ok err
    | _ \<Rightarrow> return ()))"
| "filler_on_answer E (AddFinished k ok err) = andthen app_resume (\<lambda>_. reading (\<lambda>s. case app_WhatTheStoreWithoutInputCasWasFor s of
      LARGE_ADIMAGEUPLOADBUYERSETTINGUPADSLOTFILLER \<Rightarrow> storeLargeAdImageInCouchbaseDbAttemptComplete E k ok err
    | _ \<Rightarrow> return ()))"
| "filler_on_answer E (CasStoreFinished k ok err) = andthen app_resume (\<lambda>_. reading (\<lambda>s. case app_WhatTheStoreWithInputCasWasFor s of
      UPDATEALLADSLOTFILLERSDOCSINCEWEJUSTCREATEDNEWADSLOTFILLER \<Rightarrow> doneAttemptingToUpdateAllAdSlotFillersDoc ok err
    | _ \<Rightarrow> return ()))"

definition filler_page :: "'j filler_env \<Rightarrow> ('j filler_tab, filler_click, 'j) page" where
  "filler_page E = \<lparr>can_click = filler_can_click, on_click = filler_on_click E, on_answer = filler_on_answer E\<rparr>"

lemma filler_page_sel [simp]: "can_click (filler_page E) = filler_can_click" "on_click (filler_page E) = filler_on_click E"
  "on_answer (filler_page E) = filler_on_answer E"
  by (simp_all add: filler_page_def)

definition new_filler_tab :: "'j filler_tab \<Rightarrow> bool" where
  "new_filler_tab s \<longleftrightarrow> \<not> filler_PopulatedAndInitializing s \<and> app_DeferCount s = 0 \<and> app_pending s = [] \<and> \<not> app_gone s
     \<and> \<not> uploading (m_AdImageUploader s) \<and> m_MostRecentlyUploadedImageAsFileResource s = None
     \<and> \<not> m_MostRecentlyUploadedImageWasSetAsPreview s"

lemmas filler_ops = userSuppliedAdSlotFillerFieldsAreValid_def setUpAdImageUploaderAndPutItInPlaceholder_def
  filler_populateAndInitialize_def filler_onTabBeingShown_def handleAdImageUploadButtonClicked_def handleAdSlotFillerImageUploadFinished_def
  remove_file_def resetAdSlotFillerImageUploadFieldsForAnotherUpload_def say_and_reset_def handleAdImageUploadFailedFileTooLarge_def
  tryToAddAdSlotFillerToCouchbase_def determineNextSlotFillerIndexAndThenAddSlotFillerToIt_def enter_nickname_def
  storeLargeAdImageInCouchbaseDbAttemptComplete_def doneAttemptingToUpdateAllAdSlotFillersDoc_def
  getAdSlotFillerThatIsntInAllAdSlotFillersAttemptFinished_def

end
