(* ===== verification/FillerTabSafety.thy ===== *)
theory FillerTabSafety
  imports FillerTab
begin

section \<open>The list of a user's ads stays true\<close>

text \<open>
  The assertion that every session of the site keeps: what a session's copy of the list says about an ad is what the ad's document says. Ad
  documents are only ever added, so what is known of one stays true; and whatever list a session stores, with whatever CAS, is a true one.
\<close>

subsection \<open>Keys\<close>

definition ad_key :: "string \<Rightarrow> nat \<Rightarrow> string" where
  "ad_key user i = adSpaceSlotFillerKey user (show_int (int i))"

definition fillers_own :: "string \<Rightarrow> bool" where
  "fillers_own k \<longleftrightarrow> (\<exists>u. k = adSpaceAllSlotFillersKey u \<or> (\<exists>i. k = ad_key u i))"

lemma sep_split:
  assumes "u @ CHR ''_'' # i = v @ CHR ''_'' # j" "CHR ''_'' \<notin> set i" "CHR ''_'' \<notin> set j"
  shows "u = v \<and> i = j"
proof -
  have "rev i @ CHR ''_'' # rev u = rev j @ CHR ''_'' # rev v" using arg_cong [OF assms(1), of rev] by simp
  moreover have "takeWhile (\<lambda>c. c \<noteq> CHR ''_'') (rev i @ CHR ''_'' # rev u) = rev i"
    "takeWhile (\<lambda>c. c \<noteq> CHR ''_'') (rev j @ CHR ''_'' # rev v) = rev j"
    using assms(2,3) by (subst takeWhile_append2; auto)+
  ultimately have "rev i = rev j" by metis
  with assms(1) show ?thesis by simp
qed

lemma ad_key_eq [simp]: "ad_key u i = ad_key v j \<longleftrightarrow> u = v \<and> i = j"
proof -
  have d: "CHR ''_'' \<notin> set (show_int (int n))" for n
    using show_nat_digits [of n] by (auto simp: show_int_def is_digit_def list_all_iff)
  show ?thesis using sep_split [OF _ d d, of u i v j] by (auto simp: ad_key_def adSpaceSlotFillerKey_def)
qed

lemma list_key_eq [simp]: "adSpaceAllSlotFillersKey u = adSpaceAllSlotFillersKey v \<longleftrightarrow> u = v"
  by (simp add: adSpaceAllSlotFillersKey_def)

lemma ad_key_list [simp]: "ad_key u i \<noteq> adSpaceAllSlotFillersKey v" "adSpaceAllSlotFillersKey v \<noteq> ad_key u i"
  by (simp_all add: ad_key_def adSpaceSlotFillerKey_def adSpaceAllSlotFillersKey_def)

subsection \<open>True lists\<close>

definition ad_known :: "'j json \<Rightarrow> 'j db \<Rightarrow> string \<Rightarrow> nat \<Rightarrow> string \<Rightarrow> bool" where
  "ad_known J db user i nicknameB64 \<longleftrightarrow> (\<exists>v \<in> set (db (ad_key user i)). \<exists>pt. read_json J (fst v) = Some pt
     \<and> pt_get JSON_SLOT_FILLER_NICKNAME pt = Some nicknameB64)"

definition true_list :: "'j json \<Rightarrow> 'j db \<Rightarrow> string \<Rightarrow> ptree \<Rightarrow> nat \<Rightarrow> bool" where
  "true_list J db user pt n \<longleftrightarrow> flat pt \<and> pt_get JSON_ALL_SLOT_FILLERS_ADS_COUNT pt = Some (show_int (int n))
     \<and> (\<forall>i < n. \<exists>v. pt_get (show_int (int i)) pt = Some v \<and> ad_known J db user i v)"

lemma current_known:
  "current db (ad_key u i) = Some (d, c) \<Longrightarrow> read_json J d = Some pt \<Longrightarrow> pt_get JSON_SLOT_FILLER_NICKNAME pt = Some v \<Longrightarrow> ad_known J db u i v"
  by (force simp: ad_known_def current_def split: list.splits)

lemma ad_known_grows: "db_grows db db' \<Longrightarrow> ad_known J db u i v \<Longrightarrow> ad_known J db' u i v"
  unfolding ad_known_def using db_grows_version [of db db'] by blast

lemma true_list_grows: "db_grows db db' \<Longrightarrow> true_list J db u pt n \<Longrightarrow> true_list J db' u pt n"
  unfolding true_list_def using ad_known_grows [of db db' J u] by meson

lemma show_int_no_count [simp]: "show_int (int i) \<noteq> JSON_ALL_SLOT_FILLERS_ADS_COUNT" "JSON_ALL_SLOT_FILLERS_ADS_COUNT \<noteq> show_int (int i)"
proof -
  have "show_nat i \<noteq> JSON_ALL_SLOT_FILLERS_ADS_COUNT"
  proof
    assume e: "show_nat i = JSON_ALL_SLOT_FILLERS_ADS_COUNT"
    show False using show_nat_digits [of i] unfolding e by (simp add: is_digit_def)
  qed
  then show "show_int (int i) \<noteq> JSON_ALL_SLOT_FILLERS_ADS_COUNT" "JSON_ALL_SLOT_FILLERS_ADS_COUNT \<noteq> show_int (int i)"
    by (auto simp: show_int_def)
qed

text \<open>One more ad.\<close>

lemma true_list_enter:
  assumes "true_list J db u pt n" "ad_known J db u n v"
  shows "true_list J db u (pt_put JSON_ALL_SLOT_FILLERS_ADS_COUNT (show_int (1 + int n)) (pt_put (show_int (int n)) v pt)) (Suc n)"
  using assms by (auto simp: true_list_def less_Suc_eq)

lemma true_list_empty: "true_list J db u (pt_put JSON_ALL_SLOT_FILLERS_ADS_COUNT ''0'' pt_empty) 0"
  by (simp add: true_list_def show_int_0)

definition ads_ok :: "'j json \<Rightarrow> 'j db \<Rightarrow> bool" where
  "ads_ok J db \<longleftrightarrow> (\<forall>u i. length (db (ad_key u i)) \<le> 1)
     \<and> (\<forall>u d c. current db (adSpaceAllSlotFillersKey u) = Some (d, c) \<longrightarrow> (\<exists>pt n. d = write_json J pt \<and> true_list J db u pt n))"

lemma ads_ok_list:
  assumes "ads_ok J db" "current db (adSpaceAllSlotFillersKey u) = Some (d, c)"
  obtains pt n where "d = write_json J pt" "true_list J db u pt n"
  using assms unfolding ads_ok_def by blast

lemma ads_okI:
  assumes "\<And>u i. length (db (ad_key u i)) \<le> 1"
    and "\<And>u d c. current db (adSpaceAllSlotFillersKey u) = Some (d, c) \<Longrightarrow> \<exists>pt n. d = write_json J pt \<and> true_list J db u pt n"
  shows "ads_ok J db"
  using assms unfolding ads_ok_def by blast

lemma ads_ok_once: "ads_ok J db \<Longrightarrow> length (db (ad_key u i)) \<le> 1"
  by (simp add: ads_ok_def)

text \<open>No user has as many ads as there are numbers of type \<open>int\<close>.\<close>

definition ads_room :: "'j db \<Rightarrow> bool" where
  "ads_room db \<longleftrightarrow> (\<forall>u. \<exists>i. int i < 2147483647 \<and> db (ad_key u i) = [])"

lemma ads_room_grows: "db_grows db db' \<Longrightarrow> ads_room db' \<Longrightarrow> ads_room db"
  unfolding ads_room_def db_grows_def by (metis append_is_Nil_conv)

lemma true_list_room: "ads_room db \<Longrightarrow> true_list J db u pt n \<Longrightarrow> int n < 2147483647"
proof -
  assume "ads_room db" and l: "true_list J db u pt n"
  then obtain i where i: "int i < 2147483647" "db (ad_key u i) = []" unfolding ads_room_def by blast
  have "\<not> i < n"
  proof
    assume "i < n"
    then obtain v where "ad_known J db u i v" using l by (auto simp: true_list_def)
    then show False using i(2) by (simp add: ad_known_def)
  qed
  with i(1) show ?thesis by simp
qed

subsection \<open>The assertion\<close>

definition ads_request_ok :: "'j json \<Rightarrow> 'j db \<Rightarrow> 'j app_request \<Rightarrow> bool" where
  "ads_request_ok J db r \<longleftrightarrow> (case r of AppAdd k d \<Rightarrow> \<exists>u i. k = ad_key u i
     | AppCasStore k d c \<Rightarrow> \<exists>u pt n. k = adSpaceAllSlotFillersKey u \<and> d = write_json J pt \<and> true_list J db u pt n
     | _ \<Rightarrow> True)"

lemma ads_request_grows: "db_grows db db' \<Longrightarrow> ads_request_ok J db r \<Longrightarrow> ads_request_ok J db' r"
  by (cases r) (auto simp: ads_request_ok_def dest: true_list_grows)

lemma ads_ok_new_ad:
  assumes "ads_ok J db" "db (ad_key u i) = []"
  shows "ads_ok J (new_version (ad_key u i) d c db)"
proof (rule ads_okI)
  show "length (new_version (ad_key u i) d c db (ad_key v j)) \<le> 1" for v j
    using assms(2) ads_ok_once [OF assms(1), of v j] by (simp add: new_version_def)
next
  fix v e c'
  assume "current (new_version (ad_key u i) d c db) (adSpaceAllSlotFillersKey v) = Some (e, c')"
  then have "current db (adSpaceAllSlotFillersKey v) = Some (e, c')" by simp
  from ads_ok_list [OF assms(1) this] obtain q m where "e = write_json J q" "true_list J db v q m" .
  with true_list_grows [OF db_grows_new_version this(2)] show "\<exists>q m. e = write_json J q \<and> true_list J (new_version (ad_key u i) d c db) v q m"
    by blast
qed

lemma ads_ok_new_list:
  assumes "ads_ok J db" "true_list J db u pt n"
  shows "ads_ok J (new_version (adSpaceAllSlotFillersKey u) (write_json J pt) c db)" (is "ads_ok J ?db")
proof (rule ads_okI)
  show "length (?db (ad_key v j)) \<le> 1" for v j
    using ads_ok_once [OF assms(1), of v j] by simp
next
  fix v e c'
  assume v: "current ?db (adSpaceAllSlotFillersKey v) = Some (e, c')"
  have "\<exists>q m. e = write_json J q \<and> true_list J db v q m"
  proof (cases "v = u")
    case True
    then show ?thesis using v assms(2) by auto
  next
    case False
    then have "current db (adSpaceAllSlotFillersKey v) = Some (e, c')" using v by simp
    from ads_ok_list [OF assms(1) this] show ?thesis by blast
  qed
  then show "\<exists>q m. e = write_json J q \<and> true_list J ?db v q m" using true_list_grows [OF db_grows_new_version [of db]] by blast
qed

lemma ads_execute:
  assumes "ads_ok J db" "ads_request_ok J db r" "app_answers db r a db'"
  shows "ads_ok J db'"
  using assms(3,1,2)
proof cases
  case (added k c' d)
  then show ?thesis using assms(1,2) ads_ok_new_ad by (auto simp: ads_request_ok_def)
next
  case (add_unknown k c' d ok)
  then show ?thesis using assms(1,2) ads_ok_new_ad by (auto simp: ads_request_ok_def)
next
  case (stored k c c' d)
  then show ?thesis using assms(1,2) ads_ok_new_list by (auto simp: ads_request_ok_def)
next
  case (store_unknown ok err k c c' d)
  then show ?thesis using assms(1,2) ads_ok_new_list by (auto simp: ads_request_ok_def)
qed (use assms in simp_all)

lemma ads_ok_other:
  assumes "ads_ok J db" "\<not> fillers_own k"
  shows "ads_ok J (new_version k d c db)"
proof (rule ads_okI)
  have k: "ad_key u i \<noteq> k" "adSpaceAllSlotFillersKey u \<noteq> k" for u i using assms(2) by (auto simp: fillers_own_def)
  show "length (new_version k d c db (ad_key v j)) \<le> 1" for v j
    using ads_ok_once [OF assms(1), of v j] k by simp
  fix v e c'
  assume "current (new_version k d c db) (adSpaceAllSlotFillersKey v) = Some (e, c')"
  then have "current db (adSpaceAllSlotFillersKey v) = Some (e, c')" using k by simp
  from ads_ok_list [OF assms(1) this] obtain q m where "e = write_json J q" "true_list J db v q m" .
  with true_list_grows [OF db_grows_new_version this(2)] show "\<exists>q m. e = write_json J q \<and> true_list J (new_version k d c db) v q m" by blast
qed

text \<open>The phases of an upload. Only when nothing is pending can the button be enabled or the browser be uploading.\<close>

datatype filler_phase = FIdle | ReadingList | AddingAd nat | ReadingNickname nat | WritingList

fun filler_in :: "'j filler_env \<Rightarrow> 'j db \<Rightarrow> filler_phase \<Rightarrow> 'j filler_tab \<Rightarrow> bool" where
  "filler_in E db FIdle s = (app_pending s = [])"
| "filler_in E db ReadingList s = (app_pending s = [AppGetSavingCas (adSpaceAllSlotFillersKey (app_User s))]
     \<and> app_WhatTheGetSavingCasWasFor s = GETALLADSLOTFILLERSTODETERMINENEXTINDEXANDTOUPDATEIT)"
| "filler_in E db (AddingAd n) s = (true_list (fl_json E) db (app_User s) (m_RunningAllSlotFillersJsonDoc s) n
     \<and> app_WhatTheStoreWithoutInputCasWasFor s = LARGE_ADIMAGEUPLOADBUYERSETTINGUPADSLOTFILLER
     \<and> (\<exists>pt. app_pending s = [AppAdd (ad_key (app_User s) n) (write_json (fl_json E) pt)] \<and> flat pt
       \<and> pt_get JSON_SLOT_FILLER_NICKNAME pt = Some (m_UploadNewSlotFiller_NICKNAME_B64 s)))"
| "filler_in E db (ReadingNickname n) s = (true_list (fl_json E) db (app_User s) (m_RunningAllSlotFillersJsonDoc s) n
     \<and> app_pending s = [AppGet (ad_key (app_User s) n)] \<and> app_WhatTheGetWasFor s = GETNICKNAMEOFADSLOTFILLERNOTINALLADSLOTFILLERSDOC)"
| "filler_in E db WritingList s = (\<exists>pt n c. app_pending s = [AppCasStore (adSpaceAllSlotFillersKey (app_User s)) (write_json (fl_json E) pt) c]
     \<and> true_list (fl_json E) db (app_User s) pt n
     \<and> app_WhatTheStoreWithInputCasWasFor s = UPDATEALLADSLOTFILLERSDOCSINCEWEJUSTCREATEDNEWADSLOTFILLER)"

definition filler_quiet :: "'j filler_tab \<Rightarrow> bool" where
  "filler_quiet s \<longleftrightarrow> filler_PopulatedAndInitializing s \<and> \<not> m_AdImageUploadButton s \<and> \<not> uploading (m_AdImageUploader s)"

definition filler_inv :: "'j filler_env \<Rightarrow> 'j db \<Rightarrow> 'j filler_tab \<Rightarrow> bool" where
  "filler_inv E db s \<longleftrightarrow> (if app_gone s then \<forall>r \<in> set (app_pending s). ads_request_ok (fl_json E) db r
     else (\<exists>p. filler_in E db p s \<and> (p \<noteq> FIdle \<longrightarrow> filler_quiet s))
       \<and> (uploading (m_AdImageUploader s) \<longrightarrow> filler_PopulatedAndInitializing s \<and> \<not> m_AdImageUploadButton s))"

lemma filler_idleI:
  "\<not> app_gone s \<Longrightarrow> app_pending s = [] \<Longrightarrow> (uploading (m_AdImageUploader s) \<Longrightarrow> filler_PopulatedAndInitializing s \<and> \<not> m_AdImageUploadButton s)
    \<Longrightarrow> filler_inv E db s"
  by (auto simp: filler_inv_def intro: exI [of _ FIdle])

lemma filler_phaseI: "\<not> app_gone s \<Longrightarrow> filler_in E db p s \<Longrightarrow> filler_quiet s \<Longrightarrow> filler_inv E db s"
  unfolding filler_inv_def filler_quiet_def by auto

lemma filler_in_request:
  assumes "filler_in E db p s" "r \<in> set (app_pending s)"
  shows "ads_request_ok (fl_json E) db r"
  using assms by (cases p) (auto simp: ads_request_ok_def; blast)+

lemma filler_inv_request: "filler_inv E db s \<Longrightarrow> r \<in> set (app_pending s) \<Longrightarrow> ads_request_ok (fl_json E) db r"
  using filler_in_request by (auto simp: filler_inv_def split: if_splits)

lemma filler_in_grows: "db_grows db db' \<Longrightarrow> filler_in E db p s \<Longrightarrow> filler_in E db' p s"
  by (cases p) (auto dest: true_list_grows)

lemma filler_inv_grows: "db_grows db db' \<Longrightarrow> filler_inv E db s \<Longrightarrow> filler_inv E db' s"
  unfolding filler_inv_def using filler_in_grows [of db db' E _ s] ads_request_grows [of db db'] by (auto split: if_splits)

text \<open>Whenever a handler throws, nothing is pending.\<close>

abbreviation filler_safe :: "'j filler_env \<Rightarrow> 'j db \<Rightarrow> ('j filler_tab, unit) prog \<Rightarrow> 'j filler_tab \<Rightarrow> bool" where
  "filler_safe E db m s \<equiv> runs_to m (\<lambda>_. filler_inv E db) (\<lambda>s. app_pending s = []) s"

lemma filler_safe_left: "filler_safe E db m s \<Longrightarrow> filler_inv E db (left (m s))"
  by (cases "m s") (auto simp: runs_to_def filler_inv_def)

definition filler_handles :: "'j filler_tab \<Rightarrow> bool" where
  "filler_handles s \<longleftrightarrow> app_pending s = [] \<and> \<not> app_gone s \<and> filler_quiet s"

lemma reset_safe: "filler_handles s \<Longrightarrow> filler_safe E db (say_and_reset m) s"
  by (auto simp: filler_ops app_ops run_rules filler_handles_def filler_quiet_def intro!: filler_idleI split: option.splits)

lemma flat_filler_doc [simp]: "flat (filler_doc E s x y)"
  and nickname_filler_doc [simp]: "pt_get JSON_SLOT_FILLER_NICKNAME (filler_doc E s x y) = Some (fl_base64Encode E (m_Validated_NewAdSlotFiller_NICKNAME s))"
  by (simp_all add: filler_doc_def)

lemma try_safe:
  assumes "filler_handles s" "true_list (fl_json E) db (app_User s) (m_RunningAllSlotFillersJsonDoc s) n"
  shows "filler_safe E db (tryToAddAdSlotFillerToCouchbase E (show_int (int n))) s"
proof -
  let ?s = "s\<lparr>m_UploadNewSlotFiller_NICKNAME_B64 := fl_base64Encode E (m_Validated_NewAdSlotFiller_NICKNAME s),
       m_MostRecentlyUploadedImageAsFileResource := Some (spoolFileName (m_AdImageUploader s)),
       m_AdImageUploader := (m_AdImageUploader s)\<lparr>stolen := True\<rparr>\<rparr>"
  have "filler_handles ?s" using assms(1) by (simp add: filler_handles_def filler_quiet_def)
  note reset = reset_safe [OF this]
  have "filler_safe E db (app_add (adSpaceSlotFillerKey (app_User s) (show_int (int n))) (write_json (fl_json E) (filler_doc E s x y))
      LARGE_ADIMAGEUPLOADBUYERSETTINGUPADSLOTFILLER) ?s" for x y
    using assms by (simp add: app_ops run_rules)
      (rule filler_phaseI [of _ _ _ "AddingAd n"]; force simp: filler_handles_def filler_quiet_def ad_key_def)
  with reset show ?thesis
    by (simp add: tryToAddAdSlotFillerToCouchbase_def run_rules Let_def split: option.splits)
qed

lemma enter_run:
  assumes "pt_get JSON_ALL_SLOT_FILLERS_ADS_COUNT (m_RunningAllSlotFillersJsonDoc s) = Some (show_int (int n))" "int n < 2147483647"
  shows "enter_nickname v s = Ret (show_int (1 + int n)) (s\<lparr>m_RunningAllSlotFillersJsonDoc :=
    pt_put JSON_ALL_SLOT_FILLERS_ADS_COUNT (show_int (1 + int n)) (pt_put (show_int (int n)) v (m_RunningAllSlotFillersJsonDoc s))\<rparr>)"
proof -
  have "lexical_cast_int (show_int (int n)) = Some (int n)" "wrap32 (int n + 1) = int n + 1"
    using assms(2) by (simp_all add: lexical_cast_int_show_int wrap32_id)
  then show ?thesis using assms by (simp add: enter_nickname_def prog_run add.commute)
qed

lemma runs_to_enter:
  assumes "pt_get JSON_ALL_SLOT_FILLERS_ADS_COUNT (m_RunningAllSlotFillersJsonDoc s) = Some (show_int (int n))" "int n < 2147483647"
  shows "runs_to (enter_nickname v) Q E s \<longleftrightarrow> Q (show_int (1 + int n)) (s\<lparr>m_RunningAllSlotFillersJsonDoc :=
    pt_put JSON_ALL_SLOT_FILLERS_ADS_COUNT (show_int (1 + int n)) (pt_put (show_int (int n)) v (m_RunningAllSlotFillersJsonDoc s))\<rparr>)"
  by (simp add: runs_to_def enter_run [OF assms])

lemma determine_safe:
  assumes "filler_handles s" "ads_ok (fl_json E) db" "json_ok (fl_json E)"
    and "ok \<Longrightarrow> \<not> err \<Longrightarrow> \<exists>c. current db (adSpaceAllSlotFillersKey (app_User s)) = Some (d, c)"
  shows "filler_safe E db (determineNextSlotFillerIndexAndThenAddSlotFillerToIt E d c ok err) s"
proof -
  have h: "filler_handles (s\<lparr>m_RunningAllSlotFillersJsonDocCAS := c, m_RunningAllSlotFillersJsonDoc := pt\<rparr>)" for pt
    using assms(1) by (simp add: filler_handles_def filler_quiet_def)
  consider "err" | "\<not> err" "\<not> ok" | "\<not> err" "ok" by blast
  then show ?thesis
  proof cases
    case 1
    then show ?thesis using reset_safe [OF assms(1)] by (simp add: determineNextSlotFillerIndexAndThenAddSlotFillerToIt_def)
  next
    case 2
    have "filler_safe E db (tryToAddAdSlotFillerToCouchbase E (show_int (int 0)))
        (s\<lparr>m_RunningAllSlotFillersJsonDocCAS := c, m_RunningAllSlotFillersJsonDoc := pt_put JSON_ALL_SLOT_FILLERS_ADS_COUNT ''0'' pt_empty\<rparr>)"
      by (rule try_safe [OF h]) (simp add: true_list_empty)
    then show ?thesis using 2 by (simp add: determineNextSlotFillerIndexAndThenAddSlotFillerToIt_def run_rules show_int_0)
  next
    case 3
    then obtain c' where "current db (adSpaceAllSlotFillersKey (app_User s)) = Some (d, c')" using assms(4) by blast
    from ads_ok_list [OF assms(2) this] obtain pt n where d: "d = write_json (fl_json E) pt" and l: "true_list (fl_json E) db (app_User s) pt n" .
    let ?s = "s\<lparr>m_RunningAllSlotFillersJsonDocCAS := c, m_RunningAllSlotFillersJsonDoc := pt\<rparr>"
    have "filler_safe E db (tryToAddAdSlotFillerToCouchbase E (show_int (int n))) ?s"
      by (rule try_safe [OF h]) (simp add: l)
    moreover have "filler_safe E db (say_and_reset TooManyAds) ?s" by (rule reset_safe [OF h])
    moreover have "read_json (fl_json E) d = Some pt" "pt_get JSON_ALL_SLOT_FILLERS_ADS_COUNT pt = Some (show_int (int n))"
      using l assms(3) d by (simp_all add: true_list_def)
    ultimately show ?thesis using 3 assms(1)
      by (simp add: determineNextSlotFillerIndexAndThenAddSlotFillerToIt_def run_rules filler_handles_def split: option.splits)
  qed
qed

lemma stored_safe:
  assumes "filler_handles s" "true_list (fl_json E) db (app_User s) (m_RunningAllSlotFillersJsonDoc s) n" "int n < 2147483647"
    and "k = ad_key (app_User s) n" "ok \<Longrightarrow> \<not> err \<Longrightarrow> ad_known (fl_json E) db (app_User s) n (m_UploadNewSlotFiller_NICKNAME_B64 s)"
  shows "filler_safe E db (storeLargeAdImageInCouchbaseDbAttemptComplete E k ok err) s"
proof -
  consider "err" | "\<not> err" "\<not> ok" | "\<not> err" "ok" by blast
  then show ?thesis
  proof cases
    case 1
    then show ?thesis using reset_safe [OF assms(1)] by (simp add: storeLargeAdImageInCouchbaseDbAttemptComplete_def)
  next
    case 2
    then show ?thesis using assms
      by (simp add: storeLargeAdImageInCouchbaseDbAttemptComplete_def app_ops run_rules)
        (rule filler_phaseI [of _ _ _ "ReadingNickname n"]; simp add: filler_handles_def filler_quiet_def)
  next
    case 3
    have c: "pt_get JSON_ALL_SLOT_FILLERS_ADS_COUNT (m_RunningAllSlotFillersJsonDoc s) = Some (show_int (int n))"
      using assms(2) by (simp add: true_list_def)
    note l = true_list_enter [OF assms(2) assms(5) [OF 3(2,1)]]
    show ?thesis using 3 assms(1) l
      by (simp add: storeLargeAdImageInCouchbaseDbAttemptComplete_def run_rules runs_to_enter [OF c assms(3)] app_ops)
        (rule filler_phaseI [of _ _ _ WritingList]; force simp: filler_handles_def filler_quiet_def)
  qed
qed

lemma nickname_safe:
  assumes "filler_handles s" "true_list (fl_json E) db (app_User s) (m_RunningAllSlotFillersJsonDoc s) n" "int n < 2147483647"
    and "ok \<Longrightarrow> \<not> err \<Longrightarrow> \<exists>c. current db (ad_key (app_User s) n) = Some (d, c)"
  shows "filler_safe E db (getAdSlotFillerThatIsntInAllAdSlotFillersAttemptFinished E d ok err) s"
proof (cases "err \<or> \<not> ok")
  case True
  then show ?thesis using reset_safe [OF assms(1)] by (auto simp: getAdSlotFillerThatIsntInAllAdSlotFillersAttemptFinished_def)
next
  case False
  have c: "pt_get JSON_ALL_SLOT_FILLERS_ADS_COUNT (m_RunningAllSlotFillersJsonDoc s) = Some (show_int (int n))"
    using assms(2) by (simp add: true_list_def)
  have "filler_safe E db (tryToAddAdSlotFillerToCouchbase E (show_int (1 + int n))) (s\<lparr>m_RunningAllSlotFillersJsonDoc :=
      pt_put JSON_ALL_SLOT_FILLERS_ADS_COUNT (show_int (1 + int n)) (pt_put (show_int (int n)) v (m_RunningAllSlotFillersJsonDoc s))\<rparr>)"
    if "read_json (fl_json E) d = Some pt" "pt_get JSON_SLOT_FILLER_NICKNAME pt = Some v" for pt v
  proof -
    obtain c' where "current db (ad_key (app_User s) n) = Some (d, c')" using assms(4) False by blast
    from current_known [OF this that] have "ad_known (fl_json E) db (app_User s) n v" .
    from true_list_enter [OF assms(2) this] show ?thesis
      using try_safe [where n = "Suc n" and E = E and db = db] assms(1) by (simp add: filler_handles_def filler_quiet_def)
  qed
  then show ?thesis using False assms(1)
    by (auto simp: getAdSlotFillerThatIsntInAllAdSlotFillersAttemptFinished_def run_rules
        runs_to_enter [OF c assms(3)] filler_handles_def split: option.splits)
qed

lemma listed_safe: "filler_handles s \<Longrightarrow> filler_safe E db (doneAttemptingToUpdateAllAdSlotFillersDoc ok err) s"
  using reset_safe [of s]
  by (auto simp: doneAttemptingToUpdateAllAdSlotFillersDoc_def run_rules app_ops filler_ops filler_handles_def filler_quiet_def
      intro!: filler_idleI split: option.splits)

subsection \<open>Clicks and answers\<close>

lemma filler_click_safe:
  assumes "filler_inv E db s" "\<not> app_gone s" "filler_can_click c s"
  shows "filler_inv E db (left (filler_on_click E c s))"
proof -
  obtain p where p: "filler_in E db p s" "p \<noteq> FIdle \<longrightarrow> filler_quiet s"
    and u: "uploading (m_AdImageUploader s) \<longrightarrow> filler_PopulatedAndInitializing s \<and> \<not> m_AdImageUploadButton s"
    using assms(1,2) by (auto simp: filler_inv_def)
  have idle: "app_pending s = []" if "\<not> filler_quiet s" using p that by (cases p) auto
  have "filler_safe E db (filler_on_click E c) s"
  proof (cases c)
    case ShowAds
    show ?thesis
    proof (cases "filler_PopulatedAndInitializing s")
      case True
      then show ?thesis using assms(1) ShowAds by (simp add: filler_onTabBeingShown_def run_rules)
    next
      case False
      then show ?thesis using idle assms(2) ShowAds
        by (auto simp: filler_quiet_def filler_ops run_rules intro!: filler_idleI)
    qed
  next
    case (TypeAd nickname hover url width height)
    have "filler_inv E db (s\<lparr>m_UploadNewSlotFiller_NICKNAME := nickname, m_UploadNewSlotFiller_HOVERTEXT := hover,
        m_UploadNewSlotFiller_URL := url, m_UploadNewSlotFiller_WIDTH := width, m_UploadNewSlotFiller_HEIGHT := height\<rparr>)"
    proof (cases "p = FIdle")
      case True
      then show ?thesis using p u assms(2) by (auto intro!: filler_idleI)
    next
      case False
      then show ?thesis using p assms(2) by (cases p; intro filler_phaseI [of _ _ _ p]; simp add: filler_quiet_def)
    qed
    then show ?thesis using TypeAd by (simp add: run_rules)
  next
    case ClickSubmitAd
    then have "app_pending s = []" "filler_PopulatedAndInitializing s" using idle assms(3) by (simp_all add: filler_quiet_def)
    then show ?thesis using ClickSubmitAd assms(2,3) u
      by (auto simp: filler_ops app_ops run_rules intro!: filler_idleI)
  next
    case (Uploaded name client bytes)
    then have "app_pending s = []" using idle assms(3) by (simp add: filler_quiet_def)
    then show ?thesis using Uploaded assms(2,3) u
      by (simp add: filler_ops app_ops run_rules) (rule filler_phaseI [of _ _ _ ReadingList]; simp add: filler_quiet_def)
  next
    case TooLarge
    then have "app_pending s = []" using idle assms(3) by (simp add: filler_quiet_def)
    then show ?thesis using TooLarge assms(2,3) u
      by (auto simp: filler_ops app_ops run_rules intro!: filler_idleI split: option.splits)
  qed
  then show ?thesis by (rule filler_safe_left)
qed

lemma filler_answer_safe:
  assumes "ads_ok (fl_json E) db" "ads_room db'" "json_ok (fl_json E)" "filler_inv E db s" "\<not> app_gone s" "app_pending s = xs @ r # ys"
    and "app_answers db r a db'"
  shows "filler_inv E db' (left (filler_on_answer E a (received (xs @ ys) a s)))"
proof -
  have g: "db_grows db db'" using assms(7) by (rule app_answers_grow)
  obtain p where p: "filler_in E db p s" "p \<noteq> FIdle \<longrightarrow> filler_quiet s" using assms(4,5) by (auto simp: filler_inv_def)
  have one: "xs = [] \<and> ys = [] \<and> app_pending s = [r]" using p assms(6) by (cases p) (auto simp: append_eq_Cons_conv)
  have ok: "ads_ok (fl_json E) db'" using ads_execute [OF assms(1) _ assms(7)] filler_in_request [OF p(1)] one by auto
  have h: "filler_handles (received [] a s\<lparr>app_DeferCount := d\<rparr>)" if "p \<noteq> FIdle" for d
    using p that assms(5) by (simp add: filler_handles_def received_def filler_quiet_def)
  have "filler_safe E db' (filler_on_answer E a) (received [] a s)"
  proof (cases p)
    case FIdle
    then show ?thesis using p one by simp
  next
    case ReadingList
    with p one have r: "r = AppGetSavingCas (adSpaceAllSlotFillersKey (app_User s))" by simp
    from assms(7) [unfolded r] show ?thesis
      by (cases rule: app_answersE(2)) (use ReadingList p ok assms(3,5) in
          \<open>auto simp: run_rules received_def app_resume_def filler_handles_def filler_quiet_def intro!: determine_safe\<close>)
  next
    case (AddingAd n)
    with p one obtain pt where r: "r = AppAdd (ad_key (app_User s) n) (write_json (fl_json E) pt)" and pt: "flat pt"
        "pt_get JSON_SLOT_FILLER_NICKNAME pt = Some (m_UploadNewSlotFiller_NICKNAME_B64 s)" by auto
    have l: "true_list (fl_json E) db' (app_User s) (m_RunningAllSlotFillersJsonDoc s) n"
      using AddingAd p true_list_grows [OF g] by simp
    note n = true_list_room [OF assms(2) l]
    have k: "ad_known (fl_json E) (new_version (ad_key (app_User s) n) (write_json (fl_json E) pt) c db) (app_User s) n
        (m_UploadNewSlotFiller_NICKNAME_B64 s)" for c
      using pt assms(3) by (simp add: ad_known_def new_version_def)
    from assms(7) [unfolded r] show ?thesis
      by (cases rule: app_answersE(3)) (use AddingAd p l n k assms(5) in
          \<open>auto simp: run_rules received_def app_resume_def filler_handles_def filler_quiet_def intro!: stored_safe [where n = n]\<close>)
  next
    case (ReadingNickname n)
    with p one have r: "r = AppGet (ad_key (app_User s) n)" by simp
    have l: "true_list (fl_json E) db' (app_User s) (m_RunningAllSlotFillersJsonDoc s) n"
      using ReadingNickname p true_list_grows [OF g] by simp
    note n = true_list_room [OF assms(2) l]
    from assms(7) [unfolded r] show ?thesis
      by (cases rule: app_answersE(1)) (use ReadingNickname p l n assms(5) in
          \<open>auto simp: run_rules received_def app_resume_def filler_handles_def filler_quiet_def intro!: nickname_safe [where n = n]\<close>)
  next
    case WritingList
    with p one obtain k d c where r: "r = AppCasStore k d c" by auto
    note handler = listed_safe [OF h]
    from assms(7) [unfolded r] show ?thesis
      by (cases rule: app_answersE(4)) (use WritingList p handler in \<open>auto simp: run_rules received_def app_resume_def\<close>)
  qed
  then show ?thesis using one filler_safe_left by simp
qed

lemma filler_reach:
  assumes "site_reach (filler_page E) fillers_own w0 w" "\<And>n. new_filler_tab (site_session w0 n)" "ads_ok (fl_json E) (site_db w0)"
    and "json_ok (fl_json E)" "ads_room (site_db w)"
  shows "ads_ok (fl_json E) (site_db w)"
proof -
  have "ads_ok (fl_json E) (site_db w) \<and> (\<forall>n. filler_inv E (site_db w) (site_session w n))"
    using assms(1,5)
  proof (rule site_db_invariant)
    show "filler_inv E (site_db w0) (site_session w0 n)" for n
      using assms(2) [of n] by (auto simp: new_filler_tab_def intro!: filler_idleI)
    show "filler_inv E db (left (on_click (filler_page E) c s))" if "filler_inv E db s" "\<not> app_gone s" "can_click (filler_page E) c s" for db c s
      using filler_click_safe that by simp
    show "ads_ok (fl_json E) db'" if "ads_ok (fl_json E) db" "filler_inv E db s" "app_pending s = xs @ r # ys" "app_answers db r a db'"
      for db db' a s xs r ys using ads_execute [OF that(1) filler_inv_request [OF that(2)] that(4)] that(3) by simp
    show "filler_inv E db' (left (on_answer (filler_page E) a (received (xs @ ys) a s)))"
      if "ads_ok (fl_json E) db" "ads_room db'" "filler_inv E db s" "\<not> app_gone s" "app_pending s = xs @ r # ys" "app_answers db r a db'"
      for db db' a s xs r ys using filler_answer_safe [OF that(1,2) assms(4) that(3-6)] by simp
    show "filler_inv E db (s\<lparr>app_pending := xs @ ys\<rparr>)" if "filler_inv E db s" "app_gone s" "app_pending s = xs @ r # ys" for db s xs r ys
      using that by (auto simp: filler_inv_def)
    show "ads_ok (fl_json E) (new_version k d c db)" if "\<not> fillers_own k" "ads_ok (fl_json E) db" for db k d c
      using ads_ok_other [OF that(2,1)] .
  qed (use assms(3) ads_room_grows filler_inv_grows in blast)+
  then show ?thesis by simp
qed

end
