(* ===== verification/FillerTabProperties.thy ===== *)
theory FillerTabProperties
  imports FillerTabSafety BuySlotRuns
begin

section \<open>The properties of the ad uploads\<close>

text \<open>
  The list of a user's ads is true in every reachable state of the site, and an upload on an undisturbed database completes it: it enters the ads that
  earlier uploads did not get to enter, and the new one.
\<close>

subsection \<open>The run of an upload\<close>

record upload =
  up_user :: string
  up_nickname :: string
  up_hover :: string
  up_url :: string
  up_width :: string
  up_height :: string
  up_name :: string
  up_client :: string
  up_bytes :: string

definition ad_of :: "'j filler_env \<Rightarrow> upload \<Rightarrow> ptree" where
  "ad_of E U = pt_put JSON_SLOT_FILLER_IMAGE_GUESSED_EXTENSION (fst (guessExtensionAndMimeType (up_client U)))
     (pt_put JSON_SLOT_FILLER_IMAGEB64 (fl_base64Encode E (up_bytes U))
     (pt_put JSON_SLOT_FILLER_HEIGHT (up_height U)
     (pt_put JSON_SLOT_FILLER_WIDTH (up_width U)
     (pt_put JSON_SLOT_FILLER_URL (fl_base64Encode E (fl_htmlEncode E (up_url U)))
     (pt_put JSON_SLOT_FILLER_HOVERTEXT (fl_base64Encode E (up_hover U))
     (pt_put JSON_SLOT_FILLER_NICKNAME (fl_base64Encode E (up_nickname U))
     (pt_put JSON_SLOT_FILLER_USERNAME (up_user U) pt_empty)))))))"

text \<open>What is typed in is valid and makes the upload \<open>U\<close>; the image has an accepted header.\<close>

definition upload_typed :: "'j filler_env \<Rightarrow> upload \<Rightarrow> 'j filler_tab \<Rightarrow> bool" where
  "upload_typed E U s \<longleftrightarrow> app_User s = up_user U \<and> safe_text_valid 512 (up_hover U) \<and> m_UploadNewSlotFiller_HOVERTEXT s = up_hover U
     \<and> safe_text_valid 64 (m_UploadNewSlotFiller_NICKNAME s)
     \<and> up_nickname U = m_UploadNewSlotFiller_NICKNAME s @ '' -- '' @ up_width U @ ''x'' @ up_height U
     \<and> fl_url_valid E (up_url U) \<and> m_UploadNewSlotFiller_URL s = up_url U \<and> ad_size_valid E (up_width U) \<and> m_UploadNewSlotFiller_WIDTH s = up_width U
     \<and> ad_size_valid E (up_height U) \<and> m_UploadNewSlotFiller_HEIGHT s = up_height U
     \<and> 1 < length (up_bytes U) \<and> headerIndicatesNonAnimatedImage (take 2 (up_bytes U))"

text \<open>The tab is idle: an upload can be begun.\<close>

definition filler_idle :: "filler_message list \<Rightarrow> 'j filler_tab \<Rightarrow> bool" where
  "filler_idle told s \<longleftrightarrow> filler_PopulatedAndInitializing s \<and> m_AdImageUploadButton s \<and> app_pending s = [] \<and> app_DeferCount s = 0 \<and> \<not> app_gone s
     \<and> said (app_log s) = told \<and> \<not> m_MostRecentlyUploadedImageWasSetAsPreview s \<and> m_MostRecentlyUploadedImageAsFileResource s = None
     \<and> \<not> uploading (m_AdImageUploader s)"

text \<open>The upload is on its way, with rendering deferred twice.\<close>

definition at_work :: "upload \<Rightarrow> filler_message list \<Rightarrow> 'j app_request \<Rightarrow> 'j filler_tab \<Rightarrow> bool" where
  "at_work U told r s \<longleftrightarrow> app_User s = up_user U \<and> m_Validated_NewAdSlotFiller_NICKNAME s = up_nickname U
     \<and> m_Validated_NewAdSlotFiller_HOVERTEXT s = up_hover U \<and> m_Validated_NewAdSlotFiller_URL s = up_url U
     \<and> m_Validated_UploadNewSlotFiller_WIDTH s = up_width U \<and> m_Validated_UploadNewSlotFiller_HEIGHT s = up_height U
     \<and> spoolFileName (m_AdImageUploader s) = up_name U \<and> clientFileName (m_AdImageUploader s) = up_client U
     \<and> tab_files s (up_name U) = Some (up_bytes U) \<and> \<not> app_gone s \<and> said (app_log s) = told \<and> app_DeferCount s = 2
     \<and> \<not> m_MostRecentlyUploadedImageWasSetAsPreview s \<and> filler_PopulatedAndInitializing s \<and> app_pending s = [r]
     \<and> (case r of AppGet _ \<Rightarrow> app_WhatTheGetWasFor s = GETNICKNAMEOFADSLOTFILLERNOTINALLADSLOTFILLERSDOC
        | AppGetSavingCas _ \<Rightarrow> app_WhatTheGetSavingCasWasFor s = GETALLADSLOTFILLERSTODETERMINENEXTINDEXANDTOUPDATEIT
        | AppAdd _ _ \<Rightarrow> app_WhatTheStoreWithoutInputCasWasFor s = LARGE_ADIMAGEUPLOADBUYERSETTINGUPADSLOTFILLER
        | AppCasStore _ _ _ \<Rightarrow> app_WhatTheStoreWithInputCasWasFor s = UPDATEALLADSLOTFILLERSDOCSINCEWEJUSTCREATEDNEWADSLOTFILLER)"

text \<open>The session's copy of the list, with the CAS of its read; the file is no longer the uploader's.\<close>

definition with_list :: "'j filler_env \<Rightarrow> upload \<Rightarrow> ptree \<Rightarrow> cas \<Rightarrow> 'j filler_tab \<Rightarrow> bool" where
  "with_list E U pt c s \<longleftrightarrow> m_RunningAllSlotFillersJsonDoc s = pt \<and> m_RunningAllSlotFillersJsonDocCAS s = c
     \<and> m_UploadNewSlotFiller_NICKNAME_B64 s = fl_base64Encode E (up_nickname U) \<and> stolen (m_AdImageUploader s)"

definition enter :: "ptree \<Rightarrow> nat \<Rightarrow> string \<Rightarrow> ptree" where
  "enter pt n v = pt_put JSON_ALL_SLOT_FILLERS_ADS_COUNT (show_int (1 + int n)) (pt_put (show_int (int n)) v pt)"

fun enter_all :: "ptree \<Rightarrow> nat \<Rightarrow> string list \<Rightarrow> ptree" where
  "enter_all pt n [] = pt"
| "enter_all pt n (v # vs) = enter_all (enter pt n v) (Suc n) vs"

definition counts :: "ptree \<Rightarrow> nat \<Rightarrow> bool" where
  "counts pt n \<longleftrightarrow> pt_get JSON_ALL_SLOT_FILLERS_ADS_COUNT pt = Some (show_int (int n))"

lemma counts_enter [simp]: "counts (enter pt n v) (Suc n)"
  by (simp add: counts_def enter_def)

lemma counts_enter_all: "counts pt n \<Longrightarrow> counts (enter_all pt n vs) (n + length vs)"
  by (induction vs arbitrary: pt n) (simp_all, metis add_Suc counts_enter)

lemma true_list_enter1: "true_list J db u pt n \<Longrightarrow> ad_known J db u n v \<Longrightarrow> true_list J db u (enter pt n v) (n + 1)"
  using true_list_enter by (simp add: enter_def)

lemma true_list_enter_all:
  "true_list J db u pt n \<Longrightarrow> (\<And>i. i < length vs \<Longrightarrow> ad_known J db u (n + i) (vs ! i)) \<Longrightarrow> true_list J db u (enter_all pt n vs) (n + length vs)"
proof (induction vs arbitrary: pt n)
  case (Cons v vs)
  have "ad_known J db u n v" using Cons(3) [of 0] by simp
  from true_list_enter [OF Cons(2) this] have "true_list J db u (enter pt n v) (Suc n)" by (simp add: enter_def)
  from Cons(1) [OF this] Cons(3) [of "Suc _"] show ?case by simp
qed simp

lemmas filler_run = received_def app_ops andthen_def prog_run Let_def

lemma submit_run:
  assumes "filler_idle told s" "upload_typed E U s"
  shows "\<exists>s1 s2. filler_on_click E ClickSubmitAd s = Ret () s1 \<and> filler_can_click (Uploaded (up_name U) (up_client U) (Some (up_bytes U))) s1
    \<and> filler_on_click E (Uploaded (up_name U) (up_client U) (Some (up_bytes U))) s1 = Ret () s2
    \<and> at_work U told (AppGetSavingCas (adSpaceAllSlotFillersKey (up_user U))) s2"
  using assms by (simp add: filler_idle_def upload_typed_def at_work_def filler_run filler_ops)

lemma try_run:
  assumes "app_User s = up_user U" "m_Validated_NewAdSlotFiller_NICKNAME s = up_nickname U" "m_Validated_NewAdSlotFiller_HOVERTEXT s = up_hover U"
    and "m_Validated_NewAdSlotFiller_URL s = up_url U" "m_Validated_UploadNewSlotFiller_WIDTH s = up_width U"
    and "m_Validated_UploadNewSlotFiller_HEIGHT s = up_height U" "spoolFileName (m_AdImageUploader s) = up_name U"
    and "clientFileName (m_AdImageUploader s) = up_client U" "tab_files s (up_name U) = Some (up_bytes U)" "\<not> app_gone s" "said (app_log s) = told"
    and "app_DeferCount s = 1" "\<not> m_MostRecentlyUploadedImageWasSetAsPreview s" "filler_PopulatedAndInitializing s" "app_pending s = []"
    and "m_RunningAllSlotFillersJsonDoc s = pt" "m_RunningAllSlotFillersJsonDocCAS s = c"
    and "1 < length (up_bytes U)" "headerIndicatesNonAnimatedImage (take 2 (up_bytes U))"
  shows "\<exists>s'. tryToAddAdSlotFillerToCouchbase E (show_int (int n)) s = Ret () s'
    \<and> at_work U told (AppAdd (ad_key (up_user U) n) (write_json (fl_json E) (ad_of E U))) s' \<and> with_list E U pt c s'"
  using assms by (simp add: tryToAddAdSlotFillerToCouchbase_def filler_run at_work_def with_list_def ad_key_def filler_doc_def ad_of_def)

text \<open>The list that an upload starts from: the stored one with its CAS, or an empty one.\<close>

definition list_start :: "'j filler_env \<Rightarrow> 'j db \<Rightarrow> string \<Rightarrow> ptree \<Rightarrow> nat \<Rightarrow> cas \<Rightarrow> bool" where
  "list_start E db user pt n c \<longleftrightarrow> (case current db (adSpaceAllSlotFillersKey user) of
       None \<Rightarrow> n = 0 \<and> pt = pt_put JSON_ALL_SLOT_FILLERS_ADS_COUNT ''0'' pt_empty \<and> c = 0
     | Some (d, c') \<Rightarrow> c = c' \<and> c \<noteq> 0 \<and> n \<noteq> 9999 \<and> d = write_json (fl_json E) pt \<and> true_list (fl_json E) db user pt n)"

lemma list_start_true: "list_start E db user pt n c \<Longrightarrow> true_list (fl_json E) db user pt n"
  by (auto simp: list_start_def true_list_empty split: option.splits)

lemma list_served:
  assumes "at_work U told (AppGetSavingCas (adSpaceAllSlotFillersKey (up_user U))) s" "list_start E db (up_user U) pt n c" "json_ok (fl_json E)"
    and "int n < 2147483647" "1 < length (up_bytes U)" "headerIndicatesNonAnimatedImage (take 2 (up_bytes U))"
  shows "\<exists>s'. app_served (filler_page E) pick d0 (db, s) = Some (db, s')
    \<and> at_work U told (AppAdd (ad_key (up_user U) n) (write_json (fl_json E) (ad_of E U))) s' \<and> with_list E U pt c s'"
proof (cases "current db (adSpaceAllSlotFillersKey (up_user U))")
  case None
  let ?a = "GetSavingCasFinished (adSpaceAllSlotFillersKey (up_user U)) d0 0 False False"
  let ?s = "received [] ?a s\<lparr>app_DeferCount := 1, m_RunningAllSlotFillersJsonDocCAS := 0,
    m_RunningAllSlotFillersJsonDoc := pt_put JSON_ALL_SLOT_FILLERS_ADS_COUNT ''0'' pt_empty\<rparr>"
  have n: "n = 0" "pt = pt_put JSON_ALL_SLOT_FILLERS_ADS_COUNT ''0'' pt_empty" "c = 0" using None assms(2) by (simp_all add: list_start_def)
  have "\<exists>s'. tryToAddAdSlotFillerToCouchbase E (show_int (int n)) ?s = Ret () s'
      \<and> at_work U told (AppAdd (ad_key (up_user U) n) (write_json (fl_json E) (ad_of E U))) s' \<and> with_list E U pt c s'"
    by (rule try_run) (use assms(1,5,6) n in \<open>simp_all add: at_work_def received_def\<close>)
  then show ?thesis using None assms(1) n
    by (auto simp: app_served_def at_work_def filler_run determineNextSlotFillerIndexAndThenAddSlotFillerToIt_def show_int_0)
next
  case (Some v)
  then obtain d where d: "current db (adSpaceAllSlotFillersKey (up_user U)) = Some (d, c)" "n \<noteq> 9999" "d = write_json (fl_json E) pt"
      "true_list (fl_json E) db (up_user U) pt n"
    using assms(2) by (cases v) (auto simp: list_start_def)
  let ?a = "GetSavingCasFinished (adSpaceAllSlotFillersKey (up_user U)) d c True False"
  let ?s = "received [] ?a s\<lparr>app_DeferCount := 1, m_RunningAllSlotFillersJsonDocCAS := c, m_RunningAllSlotFillersJsonDoc := pt\<rparr>"
  have "\<exists>s'. tryToAddAdSlotFillerToCouchbase E (show_int (int n)) ?s = Ret () s'
      \<and> at_work U told (AppAdd (ad_key (up_user U) n) (write_json (fl_json E) (ad_of E U))) s' \<and> with_list E U pt c s'"
    by (rule try_run) (use assms(1,5,6) in \<open>simp_all add: at_work_def received_def\<close>)
  moreover have "read_json (fl_json E) d = Some pt" "pt_get JSON_ALL_SLOT_FILLERS_ADS_COUNT pt = Some (show_int (int n))"
    "lexical_cast_int (show_int (int n)) = Some (int n)" "int n \<noteq> 9999"
    using d assms(3,4) by (simp_all add: true_list_def lexical_cast_int_show_int)
  ultimately show ?thesis using d(1) assms(1)
    by (auto simp: app_served_def at_work_def filler_run determineNextSlotFillerIndexAndThenAddSlotFillerToIt_def)
qed

text \<open>An index that is taken costs two answers.\<close>

definition unlisted :: "'j filler_env \<Rightarrow> 'j db \<Rightarrow> string \<Rightarrow> nat \<Rightarrow> string \<Rightarrow> bool" where
  "unlisted E db user i v \<longleftrightarrow> (\<exists>d c q. current db (ad_key user i) = Some (d, c) \<and> read_json (fl_json E) d = Some q
     \<and> pt_get JSON_SLOT_FILLER_NICKNAME q = Some v)"

lemma unlisted_known: "unlisted E db u i v \<Longrightarrow> ad_known (fl_json E) db u i v"
  using current_known by (auto simp: unlisted_def)

lemma recovery_served:
  assumes "at_work U told (AppAdd (ad_key (up_user U) n) (write_json (fl_json E) (ad_of E U))) s" "with_list E U pt c s"
    and "counts pt n" "unlisted E db (up_user U) n v" "int n < 2147483647"
    and "1 < length (up_bytes U)" "headerIndicatesNonAnimatedImage (take 2 (up_bytes U))"
  shows "\<exists>s'. app_serves (filler_page E) pick d0 2 (db, s) = Some (db, s')
    \<and> at_work U told (AppAdd (ad_key (up_user U) (Suc n)) (write_json (fl_json E) (ad_of E U))) s' \<and> with_list E U (enter pt n v) c s'"
proof -
  let ?k = "ad_key (up_user U) n"
  obtain d ca q where d: "current db ?k = Some (d, ca)" "read_json (fl_json E) d = Some q" "pt_get JSON_SLOT_FILLER_NICKNAME q = Some v"
    using assms(4) by (auto simp: unlisted_def)
  have "\<exists>s1. app_served (filler_page E) pick d0 (db, s) = Some (db, s1) \<and> at_work U told (AppGet ?k) s1 \<and> with_list E U pt c s1"
    using assms(1,2) some_version [OF d(1)]
    by (simp add: app_served_def at_work_def with_list_def filler_run storeLargeAdImageInCouchbaseDbAttemptComplete_def)
  then obtain s1 where s1: "app_served (filler_page E) pick d0 (db, s) = Some (db, s1)" "at_work U told (AppGet ?k) s1" "with_list E U pt c s1"
    by blast
  let ?s = "received [] (GetFinished ?k d True False) s1\<lparr>app_DeferCount := 1\<rparr>"
  have c: "pt_get JSON_ALL_SLOT_FILLERS_ADS_COUNT (m_RunningAllSlotFillersJsonDoc ?s) = Some (show_int (int n))"
    using assms(3) s1(3) by (simp add: counts_def with_list_def received_def)
  have "\<exists>s'. tryToAddAdSlotFillerToCouchbase E (show_int (int (Suc n))) (?s\<lparr>m_RunningAllSlotFillersJsonDoc := enter pt n v\<rparr>) = Ret () s'
      \<and> at_work U told (AppAdd (ad_key (up_user U) (Suc n)) (write_json (fl_json E) (ad_of E U))) s' \<and> with_list E U (enter pt n v) c s'"
    by (rule try_run) (use s1(2,3) assms(6,7) in \<open>simp_all add: at_work_def with_list_def received_def\<close>)
  then obtain s2 where s2: "tryToAddAdSlotFillerToCouchbase E (show_int (1 + int n)) (?s\<lparr>m_RunningAllSlotFillersJsonDoc := enter pt n v\<rparr>) = Ret () s2"
      "at_work U told (AppAdd (ad_key (up_user U) (Suc n)) (write_json (fl_json E) (ad_of E U))) s2" "with_list E U (enter pt n v) c s2"
    by auto
  have e: "enter_nickname v ?s = Ret (show_int (1 + int n)) (?s\<lparr>m_RunningAllSlotFillersJsonDoc := enter pt n v\<rparr>)"
    using enter_run [OF c assms(5), of v] s1(3) by (simp add: enter_def with_list_def received_def)
  have "app_served (filler_page E) pick d0 (db, s1) = Some (db, s2)"
    using s1(2) d s2(1) e
    by (simp add: app_served_def at_work_def app_ops prog_run getAdSlotFillerThatIsntInAllAdSlotFillersAttemptFinished_def andthen_def received_def)
  then show ?thesis using s1(1) s2(2,3) by (simp add: numeral_2_eq_2)
qed

lemma recovery_walk:
  assumes "at_work U told (AppAdd (ad_key (up_user U) n) (write_json (fl_json E) (ad_of E U))) s" "with_list E U pt c s"
    and "counts pt n" "\<And>i. i < length vs \<Longrightarrow> unlisted E db (up_user U) (n + i) (vs ! i)" "int (n + length vs) < 2147483647"
    and "1 < length (up_bytes U)" "headerIndicatesNonAnimatedImage (take 2 (up_bytes U))"
  shows "\<exists>s'. app_serves (filler_page E) pick d0 (2 * length vs) (db, s) = Some (db, s')
    \<and> at_work U told (AppAdd (ad_key (up_user U) (n + length vs)) (write_json (fl_json E) (ad_of E U))) s'
    \<and> with_list E U (enter_all pt n vs) c s'"
  using assms(1-5)
proof (induction vs arbitrary: pt n s)
  case (Cons v vs)
  have "unlisted E db (up_user U) n v" "int n < 2147483647" using Cons(5) [of 0] Cons(6) by simp_all
  from recovery_served [OF Cons(2-4) this assms(6,7)] obtain s1 where
    s1: "app_serves (filler_page E) pick d0 2 (db, s) = Some (db, s1)"
      "at_work U told (AppAdd (ad_key (up_user U) (Suc n)) (write_json (fl_json E) (ad_of E U))) s1" "with_list E U (enter pt n v) c s1" by blast
  have "\<And>i. i < length vs \<Longrightarrow> unlisted E db (up_user U) (Suc n + i) (vs ! i)" "int (Suc n + length vs) < 2147483647"
    using Cons(5) [of "Suc _"] Cons(6) by simp_all
  from Cons(1) [OF s1(2,3) counts_enter this] obtain s2 where
    s2: "app_serves (filler_page E) pick d0 (2 * length vs) (db, s1) = Some (db, s2)"
      "at_work U told (AppAdd (ad_key (up_user U) (Suc n + length vs)) (write_json (fl_json E) (ad_of E U))) s2"
      "with_list E U (enter_all (enter pt n v) (Suc n) vs) c s2" by blast
  have "2 + 2 * length vs = 2 * length (v # vs)" by simp
  then show ?case using app_serves_then [OF s1(1) s2(1)] s2(2,3) by (metis add_Suc_shift enter_all.simps(2) length_Cons)
qed auto

lemma ad_added:
  assumes "at_work U told (AppAdd (ad_key (up_user U) n) (write_json (fl_json E) (ad_of E U))) s" "with_list E U pt c s"
    and "counts pt n" "db (ad_key (up_user U) n) = []" "int n < 2147483647"
  shows "\<exists>s' c1. app_served (filler_page E) pick d0 (db, s) = Some (new_version (ad_key (up_user U) n) (write_json (fl_json E) (ad_of E U)) c1 db, s')
    \<and> at_work U told (AppCasStore (adSpaceAllSlotFillersKey (up_user U))
        (write_json (fl_json E) (enter pt n (fl_base64Encode E (up_nickname U)))) c) s' \<and> stolen (m_AdImageUploader s')"
proof -
  let ?s = "received [] (AddFinished (ad_key (up_user U) n) True False) s\<lparr>app_DeferCount := 1\<rparr>"
  have "pt_get JSON_ALL_SLOT_FILLERS_ADS_COUNT (m_RunningAllSlotFillersJsonDoc ?s) = Some (show_int (int n))"
    using assms(2,3) by (simp add: counts_def with_list_def received_def)
  from enter_run [OF this assms(5)] have e: "enter_nickname v ?s = Ret (show_int (1 + int n)) (?s\<lparr>m_RunningAllSlotFillersJsonDoc := enter pt n v\<rparr>)" for v
    using assms(2) by (simp add: enter_def with_list_def received_def)
  show ?thesis using assms(1,2,4) e
    by (auto simp: app_served_def at_work_def with_list_def app_ops prog_run storeLargeAdImageInCouchbaseDbAttemptComplete_def
        andthen_def received_def)
qed

lemma list_stored:
  assumes "at_work U told (AppCasStore k d c) s" "stolen (m_AdImageUploader s)" "set_allowed db k c"
    and "lexical_cast_int (up_width U) = Some w" "lexical_cast_int (up_height U) = Some h"
  shows "\<exists>s' c2. app_served (filler_page E) pick d0 (db, s) = Some (new_version k d c2 db, s')
    \<and> filler_idle (told @ [PreviewOf (up_nickname U) (up_hover U) (up_url U) w h]) s' \<and> tab_files s' (up_name U) = Some (up_bytes U)"
  using assms by (auto simp: app_served_def at_work_def filler_run filler_ops filler_idle_def)

subsection \<open>An upload completes the list\<close>

text \<open>
  C13. An upload completes the list of ads. On an idle tab with valid input and an accepted image, with a true list of n ads (or none yet), m more ads
  that the list does not know and a free index after them, the upload ends after exactly 2 m + 3 answers: the new ad is stored at index n + m,
  the list is a true list of all n + m + 1 ads, no other document has changed, the image is shown and kept, and the tab is idle again. The only
  bound on n is that it is not 9999, so a list of more than ten thousand ads can be continued although the tab announces that as its limit.
\<close>

theorem an_upload_completes_the_list:
  assumes "filler_idle told s" "upload_typed E U s" "json_ok (fl_json E)"
    and "lexical_cast_int (up_width U) = Some wd" "lexical_cast_int (up_height U) = Some ht"
    and "list_start E db (up_user U) pt n c" "\<And>i. i < length vs \<Longrightarrow> unlisted E db (up_user U) (n + i) (vs ! i)"
    and "db (ad_key (up_user U) (n + length vs)) = []" "int (n + length vs) < 2147483647"
  shows "\<exists>s1 s2 s' c1 c2 pt' db'. filler_on_click E ClickSubmitAd s = Ret () s1
    \<and> filler_on_click E (Uploaded (up_name U) (up_client U) (Some (up_bytes U))) s1 = Ret () s2
    \<and> app_serves (filler_page E) pick d0 (2 * length vs + 3) (db, s2) = Some (db', s')
    \<and> db' = new_version (adSpaceAllSlotFillersKey (up_user U)) (write_json (fl_json E) pt') c2
        (new_version (ad_key (up_user U) (n + length vs)) (write_json (fl_json E) (ad_of E U)) c1 db)
    \<and> true_list (fl_json E) db' (up_user U) pt' (n + length vs + 1)
    \<and> filler_idle (told @ [PreviewOf (up_nickname U) (up_hover U) (up_url U) wd ht]) s' \<and> tab_files s' (up_name U) = Some (up_bytes U)"
proof -
  let ?P = "filler_page E" and ?list = "adSpaceAllSlotFillersKey (up_user U)" and ?k = "ad_key (up_user U) (n + length vs)"
  let ?v = "fl_base64Encode E (up_nickname U)" and ?all = "enter_all pt n vs"
  have b: "1 < length (up_bytes U)" "headerIndicatesNonAnimatedImage (take 2 (up_bytes U))" using assms(2) by (simp_all add: upload_typed_def)
  obtain s1 s2 where s1: "filler_on_click E ClickSubmitAd s = Ret () s1"
      "filler_on_click E (Uploaded (up_name U) (up_client U) (Some (up_bytes U))) s1 = Ret () s2" "at_work U told (AppGetSavingCas ?list) s2"
    using submit_run [OF assms(1,2)] by blast
  have n: "int n < 2147483647" using assms(9) by simp
  obtain s3 where s3: "app_served ?P pick d0 (db, s2) = Some (db, s3)" "with_list E U pt c s3"
      "at_work U told (AppAdd (ad_key (up_user U) n) (write_json (fl_json E) (ad_of E U))) s3"
    using list_served [OF s1(3) assms(6,3) n b] by blast
  have t: "true_list (fl_json E) db (up_user U) pt n" using assms(6) by (rule list_start_true)
  then have cn: "counts pt n" by (simp add: true_list_def counts_def)
  obtain s4 where s4: "app_serves ?P pick d0 (2 * length vs) (db, s3) = Some (db, s4)" "with_list E U ?all c s4"
      "at_work U told (AppAdd ?k (write_json (fl_json E) (ad_of E U))) s4"
    using recovery_walk [OF s3(3,2) cn assms(7,9) b] by blast
  obtain s5 c1 where s5: "app_served ?P pick d0 (db, s4) = Some (new_version ?k (write_json (fl_json E) (ad_of E U)) c1 db, s5)"
      "at_work U told (AppCasStore ?list (write_json (fl_json E) (enter ?all (n + length vs) ?v)) c) s5" "stolen (m_AdImageUploader s5)"
    using ad_added [where db = db, OF s4(3,2) counts_enter_all [OF cn] assms(8,9)] by blast
  let ?db1 = "new_version ?k (write_json (fl_json E) (ad_of E U)) c1 db"
  have "set_allowed ?db1 ?list c" using assms(6) by (auto simp: list_start_def set_allowed_def split: option.splits)
  from list_stored [OF s5(2,3) this assms(4,5)] obtain s6 c2 where
    s6: "app_served ?P pick d0 (?db1, s5) = Some (new_version ?list (write_json (fl_json E) (enter ?all (n + length vs) ?v)) c2 ?db1, s6)"
      "filler_idle (told @ [PreviewOf (up_nickname U) (up_hover U) (up_url U) wd ht]) s6" "tab_files s6 (up_name U) = Some (up_bytes U)" by blast
  let ?db2 = "new_version ?list (write_json (fl_json E) (enter ?all (n + length vs) ?v)) c2 ?db1"
  have g: "db_grows db ?db2" by (rule db_grows_trans [OF db_grows_new_version db_grows_new_version])
  have "true_list (fl_json E) ?db2 (up_user U) ?all (n + length vs)"
    by (rule true_list_enter_all [OF true_list_grows [OF g t]]) (rule ad_known_grows [OF g unlisted_known [OF assms(7)]])
  moreover have "ad_known (fl_json E) ?db2 (up_user U) (n + length vs) ?v"
    by (rule current_known [where d = "write_json (fl_json E) (ad_of E U)" and pt = "ad_of E U"]) (use assms(3) in \<open>simp_all add: ad_of_def\<close>)
  ultimately have "true_list (fl_json E) ?db2 (up_user U) (enter ?all (n + length vs) ?v) (n + length vs + 1)"
    by (rule true_list_enter1)
  moreover have "app_serves ?P pick d0 (2 * length vs + 3) (db, s2) = Some (?db2, s6)"
  proof -
    have "app_serves ?P pick d0 2 (db, s4) = Some (?db2, s6)" using s5(1) s6(1) by (simp add: numeral_2_eq_2)
    moreover have "1 + 2 * length vs + 2 = 2 * length vs + 3" by simp
    ultimately show ?thesis using app_serves_then [OF app_serves_then [OF app_serves_one [OF s3(1)] s4(1)]] by metis
  qed
  ultimately show ?thesis using s1(1,2) s6(2,3) by blast
qed

subsection \<open>The list is true\<close>

lemma combo_entries_run:
  assumes "\<And>i. i < length vs \<Longrightarrow> pt_get (show_int (int (k + i))) pt = Some (vs ! i)"
  shows "combo_entries F pt k (length vs) g = Ret () (g\<lparr>m_AllSlotFillersComboBox := m_AllSlotFillersComboBox g @ map (base64Decode F) vs\<rparr>)"
  using assms
proof (induction vs arbitrary: k g)
  case (Cons v vs)
  have "pt_get (show_int (int k)) pt = Some v" using Cons(2) [of 0] by simp
  moreover have "pt_get (show_int (int (Suc k + i))) pt = Some (vs ! i)" if "i < length vs" for i using Cons(2) [of "Suc i"] that by simp
  ultimately show ?case using Cons(1) [of "Suc k"] by (simp add: prog_run)
qed simp

text \<open>
  C12. The list of a user's ads tells the truth. Whatever the sessions of the site upload, at the same time or after each other, and whatever the
  database answers: the current list has its number n, and for every index below n there is an ad document, whose nickname is the one in the list;
  so a buyer's session that reads the list offers exactly these ads.
\<close>

theorem the_list_of_ads_is_true:
  assumes "site_reach (filler_page E) fillers_own w0 w" "\<And>j. new_filler_tab (site_session w0 j)" "ads_ok (fl_json E) (site_db w0)"
    and "json_ok (fl_json E)" "ads_room (site_db w)" "current (site_db w) (adSpaceAllSlotFillersKey user) = Some (d, c)"
  shows "\<exists>pt n vs. read_json (fl_json E) d = Some pt \<and> pt_get JSON_ALL_SLOT_FILLERS_ADS_COUNT pt = Some (show_int (int n)) \<and> length vs = n
    \<and> (\<forall>i < n. \<exists>a c' q. current (site_db w) (adSpaceSlotFillerKey user (show_int (int i))) = Some (a, c') \<and> read_json (fl_json E) a = Some q
         \<and> pt_get JSON_SLOT_FILLER_NICKNAME q = Some (vs ! i))
    \<and> (\<forall>F g. combo_entries F pt 0 n g = Ret () (g\<lparr>m_AllSlotFillersComboBox := m_AllSlotFillersComboBox g @ map (base64Decode F) vs\<rparr>))"
proof -
  note ok = filler_reach [OF assms(1-5)]
  from ads_ok_list [OF ok assms(6)] obtain pt n where d: "d = write_json (fl_json E) pt" and l: "true_list (fl_json E) (site_db w) user pt n" .
  define vs where "vs = map (\<lambda>i. the (pt_get (show_int (int i)) pt)) [0..<n]"
  have v: "pt_get (show_int (int i)) pt = Some (vs ! i)" "ad_known (fl_json E) (site_db w) user i (vs ! i)" if "i < n" for i
    using l that by (auto simp: true_list_def vs_def)
  have a: "\<exists>a c' q. current (site_db w) (adSpaceSlotFillerKey user (show_int (int i))) = Some (a, c') \<and> read_json (fl_json E) a = Some q
      \<and> pt_get JSON_SLOT_FILLER_NICKNAME q = Some (vs ! i)" if i: "i < n" for i
  proof -
    obtain x q where x: "x \<in> set (site_db w (ad_key user i))" "read_json (fl_json E) (fst x) = Some q" "pt_get JSON_SLOT_FILLER_NICKNAME q = Some (vs ! i)"
      using v(2) [OF i] by (auto simp: ad_known_def)
    then have "site_db w (ad_key user i) = [x]"
      using ads_ok_once [OF ok, of user i] by (cases "site_db w (ad_key user i)") auto
    then have "current (site_db w) (ad_key user i) = Some (fst x, snd x)" by (simp add: current_def)
    with x(2,3) show ?thesis unfolding ad_key_def by blast
  qed
  have "length vs = n" by (simp add: vs_def)
  moreover have "combo_entries F pt 0 n g = Ret () (g\<lparr>m_AllSlotFillersComboBox := m_AllSlotFillersComboBox g @ map (base64Decode F) vs\<rparr>)" for F g
    using combo_entries_run [of vs 0 pt F g] v(1) \<open>length vs = n\<close> by simp
  moreover have "read_json (fl_json E) d = Some pt" "pt_get JSON_ALL_SLOT_FILLERS_ADS_COUNT pt = Some (show_int (int n))"
    using l d assms(4) by (simp_all add: true_list_def)
  ultimately show ?thesis using a by blast
qed

subsection \<open>An example\<close>

definition ads_env :: "ptree filler_env" where
  "ads_env = \<lparr>fl_json = tree_json, fl_base64Encode = (\<lambda>t. t), fl_htmlEncode = (\<lambda>t. t),
     fl_int_valid = (\<lambda>a b t. case lexical_cast_int t of None \<Rightarrow> False | Some i \<Rightarrow> a \<le> i \<and> i \<le> b), fl_url_valid = (\<lambda>t. t \<noteq> ''http://'')\<rparr>"

definition ads_upload :: upload where
  "ads_upload = \<lparr>up_user = ''bob'', up_nickname = ''new -- '' @ show_int 576 @ ''x'' @ show_int 96, up_hover = ''hover'', up_url = ''http://a.b'',
     up_width = show_int 576, up_height = show_int 96, up_name = ''/tmp/spool1'', up_client = ''ad.bmp'', up_bytes = ''BM1''\<rparr>"

definition ads_tab :: "bool \<Rightarrow> ptree filler_tab" where
  "ads_tab shown = \<lparr>app_User = ''bob'', app_BalanceForDisplayingOnly = ''0'', app_WhatTheGetWasFor = NULLGET,
     app_WhatTheGetSavingCasWasFor = NULLGETSAVINGCAS, app_WhatTheStoreWithoutInputCasWasFor = NULLSTOREWITHOUTINPUTCAS,
     app_WhatTheStoreWithInputCasWasFor = NULLSTOREWITHCAS, app_DeferCount = 0, app_pending = [], app_log = [], app_gone = False,
     m_UploadNewSlotFiller_NICKNAME = ''new'', m_Validated_NewAdSlotFiller_NICKNAME = [], m_UploadNewSlotFiller_NICKNAME_B64 = [],
     m_UploadNewSlotFiller_HOVERTEXT = ''hover'', m_Validated_NewAdSlotFiller_HOVERTEXT = [], m_UploadNewSlotFiller_URL = ''http://a.b'',
     m_Validated_NewAdSlotFiller_URL = [], m_UploadNewSlotFiller_WIDTH = show_int 576, m_Validated_UploadNewSlotFiller_WIDTH = [],
     m_UploadNewSlotFiller_HEIGHT = show_int 96, m_Validated_UploadNewSlotFiller_HEIGHT = [],
     m_AdImageUploader = \<lparr>uploading = False, spoolFileName = [], clientFileName = [], stolen = False\<rparr>, m_AdImageUploadButton = True,
     m_MostRecentlyUploadedImageWasSetAsPreview = False, m_MostRecentlyUploadedImageAsFileResource = None,
     m_RunningAllSlotFillersJsonDoc = pt_empty, m_RunningAllSlotFillersJsonDocCAS = 0, tab_files = (\<lambda>_. None),
     filler_PopulatedAndInitializing = shown\<rparr>"

definition small_ad :: "string \<Rightarrow> ptree" where
  "small_ad nickname = pt_put JSON_SLOT_FILLER_NICKNAME nickname pt_empty"

definition ads_list :: ptree where
  "ads_list = enter (pt_put JSON_ALL_SLOT_FILLERS_ADS_COUNT ''0'' pt_empty) 0 ''first''"

text \<open>Two ads are there, the list knows the first.\<close>

definition ads_db :: "ptree db" where
  "ads_db = (\<lambda>_. [])(adSpaceAllSlotFillersKey ''bob'' := [(ads_list, 1)], ad_key ''bob'' 0 := [(small_ad ''first'', 1)],
     ad_key ''bob'' 1 := [(small_ad ''second'', 1)])"

lemma ads_db_sel [simp]: "current ads_db (adSpaceAllSlotFillersKey ''bob'') = Some (ads_list, 1)"
  "ads_db (ad_key u i) = (if u = ''bob'' \<and> i = 0 then [(small_ad ''first'', 1)] else if u = ''bob'' \<and> i = 1 then [(small_ad ''second'', 1)] else [])"
  by (auto simp: ads_db_def current_def)

lemma ads_list_true: "true_list tree_json ads_db ''bob'' ads_list 1"
proof -
  have "ad_known tree_json ads_db ''bob'' 0 ''first''" by (simp add: ad_known_def small_ad_def)
  from true_list_enter [OF true_list_empty this] show ?thesis by (simp add: ads_list_def enter_def)
qed

lemma ads_ready: "filler_idle [] (ads_tab True)" "upload_typed ads_env ads_upload (ads_tab True)"
proof -
  show "filler_idle [] (ads_tab True)" by (simp add: filler_idle_def ads_tab_def)
  have "lexical_cast_int (show_int 576) = Some 576" "lexical_cast_int (show_int 96) = Some 96" by (simp_all add: lexical_cast_int_show_int)
  moreover have "safe_text_valid 512 ''hover''" "safe_text_valid 64 ''new''" by (simp_all add: safe_text_valid_def is_safe_char_def)
  moreover have "headerIndicatesNonAnimatedImage (take 2 ''BM1'')" by (simp add: headerIndicatesNonAnimatedImage_def isBmp_def numeral_2_eq_2)
  ultimately show "upload_typed ads_env ads_upload (ads_tab True)"
    by (simp add: upload_typed_def ads_upload_def ads_tab_def ads_env_def ad_size_valid_def)
qed

theorem an_upload_completes_the_list_witness:
  "\<exists>s1 s2 s' c1 c2 pt' db'. filler_on_click ads_env ClickSubmitAd (ads_tab True) = Ret () s1
    \<and> filler_on_click ads_env (Uploaded ''/tmp/spool1'' ''ad.bmp'' (Some ''BM1'')) s1 = Ret () s2
    \<and> app_serves (filler_page ads_env) (\<lambda>_ _. 2) pt_empty 5 (ads_db, s2) = Some (db', s')
    \<and> db' = new_version (adSpaceAllSlotFillersKey ''bob'') pt' c2 (new_version (ad_key ''bob'' 2) (ad_of ads_env ads_upload) c1 ads_db)
    \<and> true_list tree_json db' ''bob'' pt' 3 \<and> tab_files s' ''/tmp/spool1'' = Some ''BM1''"
proof -
  have e: "fl_json ads_env = tree_json" by (simp add: ads_env_def)
  have u: "up_user ads_upload = ''bob''" "up_name ads_upload = ''/tmp/spool1''" "up_client ads_upload = ''ad.bmp''" "up_bytes ads_upload = ''BM1''"
    by (simp_all add: ads_upload_def)
  have w: "lexical_cast_int (up_width ads_upload) = Some 576" "lexical_cast_int (up_height ads_upload) = Some 96"
    by (simp_all add: ads_upload_def lexical_cast_int_show_int)
  have l: "list_start ads_env ads_db ''bob'' ads_list 1 1" using ads_list_true by (simp add: list_start_def e)
  have v: "unlisted ads_env ads_db ''bob'' (1 + i) ([''second''] ! i)" if "i < length [''second'']" for i
    using that by (simp add: unlisted_def current_def e small_ad_def)
  have "\<exists>s1 s2 s' c1 c2 pt' db'. filler_on_click ads_env ClickSubmitAd (ads_tab True) = Ret () s1
    \<and> filler_on_click ads_env (Uploaded ''/tmp/spool1'' ''ad.bmp'' (Some ''BM1'')) s1 = Ret () s2
    \<and> app_serves (filler_page ads_env) (\<lambda>_ _. 2) pt_empty (2 * length [''second''] + 3) (ads_db, s2) = Some (db', s')
    \<and> db' = new_version (adSpaceAllSlotFillersKey ''bob'') (write_json tree_json pt') c2
        (new_version (ad_key ''bob'' (1 + length [''second''])) (write_json tree_json (ad_of ads_env ads_upload)) c1 ads_db)
    \<and> true_list tree_json db' ''bob'' pt' (1 + length [''second''] + 1)
    \<and> filler_idle ([] @ [PreviewOf (up_nickname ads_upload) (up_hover ads_upload) (up_url ads_upload) 576 96]) s'
    \<and> tab_files s' ''/tmp/spool1'' = Some ''BM1''"
    by (rule an_upload_completes_the_list [OF ads_ready, unfolded e u, OF tree_json_ok w l v]) (simp_all add: e u)
  moreover have "2 * length [''second''] + 3 = (5 :: nat)" "1 + length [''second''] = (2 :: nat)" "2 + 1 = (3 :: nat)" by simp_all
  ultimately show ?thesis unfolding tree_json_sel(1) by (elim exE conjE) (simp only:, blast)
qed

definition ads_site :: "(ptree filler_tab, ptree) site" where
  "ads_site = \<lparr>site_db = ads_db, site_session = (\<lambda>_. ads_tab False)\<rparr>"

theorem the_list_of_ads_is_true_witness:
  "\<exists>pt n vs. read_json tree_json ads_list = Some pt \<and> pt_get JSON_ALL_SLOT_FILLERS_ADS_COUNT pt = Some (show_int (int n)) \<and> length vs = n
    \<and> (\<forall>i < n. \<exists>a c' q. current ads_db (adSpaceSlotFillerKey ''bob'' (show_int (int i))) = Some (a, c') \<and> read_json tree_json a = Some q
         \<and> pt_get JSON_SLOT_FILLER_NICKNAME q = Some (vs ! i))
    \<and> (\<forall>F (g :: ptree gui). combo_entries F pt 0 n g = Ret () (g\<lparr>m_AllSlotFillersComboBox := m_AllSlotFillersComboBox g @ map (base64Decode F) vs\<rparr>))"
proof -
  have e: "fl_json ads_env = tree_json" "site_db ads_site = ads_db" by (simp_all add: ads_env_def ads_site_def)
  have other: "current ads_db (adSpaceAllSlotFillersKey u) = None" if "u \<noteq> ''bob''" for u using that by (simp add: ads_db_def current_def)
  have "ads_ok tree_json ads_db"
  proof (rule ads_okI)
    show "\<exists>pt n. d = write_json tree_json pt \<and> true_list tree_json ads_db u pt n" if "current ads_db (adSpaceAllSlotFillersKey u) = Some (d, c)" for u d c
      using that other [of u] ads_list_true by (cases "u = ''bob''") auto
  qed simp
  moreover have "ads_room ads_db" unfolding ads_room_def by (intro allI exI [of _ 2]) simp
  moreover have "new_filler_tab (site_session ads_site j)" for j by (simp add: new_filler_tab_def ads_site_def ads_tab_def)
  ultimately show ?thesis
    using the_list_of_ads_is_true [where E = ads_env and ?w0.0 = ads_site and w = ads_site, unfolded e, OF site_reach.start _ _ tree_json_ok _ ads_db_sel(1)]
    by blast
qed

end
