(* ===== verification/Spec2Isabelle.thy ===== *)
theory Spec2Isabelle
  imports WithdrawFlows WithdrawCalculate Creditor Monitor KeyPages AdApi BuyProperties BuyRecovery AddFundsProperties AddFundsRecovery
    AddFundsPayments WithdrawTabProperties CampaignProperties FillerTabProperties
begin

text \<open>
  Anonymous Bitcoin Computing 2: the programs that move money in an advertising system. Users sell and buy ad slots of campaigns on a web
  site, their accounts, campaigns, slots, slot fillers, transactions and withdrawal requests are JSON documents in a Couchbase cluster, and several
  programs, some of them run by hand, read and write the same documents at the same time, coordinated only by the compare and swap (CAS) values of
  Couchbase and by lock fields inside the documents.

  \<^bold>\<open>The parts and how they interact.\<close>

  \<^item> The web site (\<open>Solutions/Anonymous Bitcoin Computing 2/src/frontend/anonymousbitcoincomputingwtgui.cpp\<close>) sells slots:
    it locks the buyer's account with the slot it tries to fill, adds the slot document, adds a transaction document, debits and unlocks the account, and
    updates the campaign document.
  \<^item> The monitor (\<open>Abc2PessimisticStateMonitorAndRecoverer\<close>) looks for a slot that the campaign document does not know and finishes
    what a dead session left.
  \<^item> The creditor (\<open>Abc2TransactionCreditor\<close>) walks over the transactions not yet credited and credits the sellers, minus a fee.
  \<^item> The withdrawal processor (\<open>Abc2WithdrawRequestProcessor\<close>) pays withdrawal requests through bitcoind and debits the accounts.
  \<^item> Two readers serve the ad of the current slot: the connection of the HTTP API (\<open>gettodaysadslotserverclientconnection.cpp\<close>) and
    the synchronous getter with its web resource (\<open>Abc2getTodaysAdSlot\<close>).
  \<^item> The account tabs and pages of the web site (\<open>src/frontend/accounttabs\<close>, \<open>src/frontend/pages\<close> and the application class) hand out a bitcoin key to pay to, poll for the
    payment and credit it (adding funds), schedule withdrawal requests, upload ads, and create campaigns. They number their documents (withdrawals, campaigns, ads) by walking
    over the indexes from a cached one until the add of a document succeeds.
  \<^item> The initializer and the page adder (\<open>Abc2dbInitializer\<close>, \<open>Abc2hugeBitcoinKeyListPageAdder\<close>) put the first documents and the
    bitcoin key pages into the cluster.

  \<^bold>\<open>Theories.\<close>

  \<^item> \<^verbatim>\<open>Prelude\<close>: a C++ member function is a program over the state of its object; it returns, lets an exception escape, or waits for input. Hoare
    rules (\<open>prog_rules\<close>), symbolic execution (\<open>run_rules\<close>, \<open>prog_run\<close>), \<open>boost::lexical_cast\<close>, string functions, signed arithmetic.
  \<^item> \<^verbatim>\<open>PropertyTree\<close>: \<open>boost::property_tree\<close> with the laws of put, get and erase, and the locale of keyed documents; the JSON text is a parameter.
  \<^item> \<^verbatim>\<open>KeysAndDocs\<close>: \<open>abc2couchbaseandjsonkeydefines.cpp\<close> and its header: keys, transaction documents, locks of profiles.
  \<^item> \<^verbatim>\<open>SatoshiAmounts\<close>: the conversions between satoshis, doubles and text, and the fees; doubles are rationals rounded to 53 bits.
  \<^item> \<^verbatim>\<open>Couchbase\<close>: \<open>isynchronouslibcouchbaseuser.cpp\<close>, the client base class: connect, get, store, exponential backoff. The answers of the cluster are a list that is
    consumed; every request is recorded in a history, over which the properties of its users speak.
  \<^item> \<^verbatim>\<open>Withdraw\<close>, \<^verbatim>\<open>WithdrawFlows\<close>, \<^verbatim>\<open>WithdrawCalculate\<close>: the processor as a state machine over the answers of the database and of bitcoind; its
    complete flows; its calculate mode, refined to a ledger.
  \<^item> \<^verbatim>\<open>Creditor\<close>, \<^verbatim>\<open>Monitor\<close>, \<^verbatim>\<open>KeyPages\<close>: the other batch programs, with the protocol that each follows.
  \<^item> \<^verbatim>\<open>TodaysAdSlot\<close>: the synchronous getter; its search is specified by the exact order of the documents it reads. \<^verbatim>\<open>AdApi\<close>: the API connection as a
    step relation with its invariant, and the lines and answers of a run. The end of an answer closes the socket, and the slot \<open>disconnected()\<close> may run within the same handler
    or later: each socket says which, so both orders are covered.
  \<^item> \<^verbatim>\<open>BuySlot\<close>: the functions of a web session that show a campaign, buy a slot, register, log in and recover a locked account.
    \<^verbatim>\<open>BuySession\<close>: the session as a step relation over clicks, campaign updates and database answers, and the phases of a purchase with their evidence.
    \<^verbatim>\<open>BuySlotSafety\<close>: every handler leads from phase to phase; the invariant of a session. \<^verbatim>\<open>BuySlotRuns\<close>: complete runs, the reference price
    list, an example session. \<^verbatim>\<open>BuyProperties\<close>: the properties of sessions. \<^verbatim>\<open>BuyRecovery\<close>: the composition of the session with the monitor.

  \<^item> \<^verbatim>\<open>CasDatabase\<close>: a database of versioned documents, for the theories in which many sessions share one.
  \<^item> \<^verbatim>\<open>AddFunds\<close>: the bitcoin key state machine of the tab for adding funds. \<^verbatim>\<open>AddFundsWorld\<close>: all such tabs on one database. \<^verbatim>\<open>AddFundsCredit\<close>, \<^verbatim>\<open>AddFundsSafety\<close>:
    the invariants of the money and of the keys. \<^verbatim>\<open>AddFundsRuns\<close>, \<^verbatim>\<open>AddFundsDemo\<close>, \<^verbatim>\<open>AddFundsGetKey\<close>, \<^verbatim>\<open>AddFundsRefill\<close>, \<^verbatim>\<open>AddFundsRecovery\<close>, \<^verbatim>\<open>AddFundsWorldRuns\<close>: complete runs.
    \<^verbatim>\<open>AddFundsOwners\<close>: the invariant that the UUID of a request belongs to one user. \<^verbatim>\<open>AddFundsProperties\<close>, \<^verbatim>\<open>AddFundsPayments\<close>: the properties.
  \<^item> \<^verbatim>\<open>TabApp\<close>: the part of the application object that the smaller pages use, and the world of sessions around them. \<^verbatim>\<open>IndexWalk\<close>: the locale of a page that walks over
    indexes, interpreted for withdrawals and for campaigns.
  \<^item> \<^verbatim>\<open>WithdrawTab\<close>, \<^verbatim>\<open>WithdrawTabSafety\<close>, \<^verbatim>\<open>WithdrawTabRuns\<close>, \<^verbatim>\<open>WithdrawTabProperties\<close>: scheduling a withdrawal.
    \<^verbatim>\<open>CampaignPage\<close>, \<^verbatim>\<open>CampaignProperties\<close>: creating a campaign. \<^verbatim>\<open>FillerTab\<close>, \<^verbatim>\<open>FillerTabSafety\<close>, \<^verbatim>\<open>FillerTabProperties\<close>: uploading an ad and the list of ads.

  \<^bold>\<open>What the groups of lemmas show.\<close> Protocol theorems (\<open>every_payout_is_guarded\<close>, \<open>accounts_change_only_with_a_slot\<close>,
  \<open>credit_follows_protocol\<close>, \<open>audit_follows_protocol\<close>) hold for all answers of the outside world and for every point at which a program can
  be killed: a store on an account appears only after the reads and stores that justify it, under the right CAS. Functional theorems say what a run does when
  the world cooperates, exactly (\<open>payout_is_issued_and_settled\<close>, \<open>credit_is_exact\<close>, \<open>purchase_goes_through\<close>,
  \<open>interrupted_purchase_is_completed\<close>). Refinements and equivalences compare a program with a specification or with another program
  (\<open>calculation_refines_ledger\<close>, \<open>initializer_adds_the_documents\<close>, \<open>page_adder_adds_the_pages\<close>, \<open>monitor_finishes_what_a_session_left\<close>).
  The worlds of the account pages are step relations in which any number of sessions, their requests and other programs interleave; in all their reachable states no bitcoin key is
  given to two users (\<open>no_key_is_given_twice\<close>, for users whose UUIDs differ), every credit has its confirmed payment (\<open>every_credit_is_backed\<close>), only withdrawals that the balance covered
  are scheduled (\<open>only_covered_withdrawals_are_scheduled\<close>) and the list of ads names each uploaded ad (\<open>the_list_of_ads_is_true\<close>); and a session that is served
  reaches its goal, with the exact number of answers it needs (\<open>a_free_key_is_given\<close>, \<open>a_used_up_key_set_is_refilled\<close>, \<open>payment_is_credited\<close>,
  \<open>a_withdrawal_is_scheduled\<close>, \<open>campaign_creation_ends\<close>, \<open>an_upload_completes_the_list\<close>).
  Invariants hold in all reachable states of the event driven objects (\<open>ads_need_the_api_key\<close>, \<open>no_answer_for_a_deleted_connection\<close>,
  \<open>javascript_page_comes_back\<close>). The error theorems show where the code does not do what it means to.

  \<^bold>\<open>Bounds.\<close> No fuel is used. The retry loops of the client recurse over the list of answers of the cluster (each retry consumes one); the search over slots, the
  readers of key files and the monitor's endless loop recurse over their inputs, a run that waits for more input is \<open>Blocked\<close>. The runs of the account pages count the
  answers they are served: \<open>m + 6\<close> for a key behind \<open>m\<close> full pages and \<open>m + 2 q + 14\<close> when the set is refilled from behind \<open>q\<close> full range pages, \<open>m + 4\<close> for a withdrawal and
  \<open>m + 3\<close> or \<open>m + 1\<close> for a campaign behind \<open>m\<close> taken indexes, \<open>2 m + 3\<close> for an upload after \<open>m\<close> ads that the list does not know; indexes stay below the largest \<open>int\<close>.
  Integers are kept at their width by \<open>wrap32\<close> and \<open>wrap64\<close>; CAS values are 64 bit words.

  \<^bold>\<open>Assumed of the outside.\<close> JSON text is an abstract type with a writer and a reader; only theorems about documents that are written and read back assume that reading undoes writing (\<open>json_ok\<close>, \<open>reads_as_written\<close>). The texts that
  \<open>lexical_cast\<close> makes of doubles, the hash, base64 and hexadecimal of the Wt library and the parser of URLs are parameters; \<open>no_key_is_given_twice\<close> assumes that SHA-1 has no collision on the seeds that occur and that users come to different seeds, which the code does not see to (\<open>seeds_can_meet\<close>). Wt delivers no click
  while rendering is deferred. The database of the account pages executes a request and answers truthfully, or answers an error that says nothing: the request may have been executed or
  not. A handler that throws is no step in the world of adding funds; in the world of the other pages it ends its session while the requests it made are still executed. Programs outside
  a world write any documents but those the world's theorems are about (key pages, ad documents and their lists). A store of a large document is like any other store. The uploads need some free index.

  \<^bold>\<open>Not modelled.\<close> Widgets, style sheets and the JavaScript of the pages; the tabs that only view (all ads, API key) and the pages that list the campaigns of a user and the
  users, with the cases of the dispatch functions that lead to them; the asynchronous Couchbase worker behind the web site
  (\<open>anonymousbitcoincomputingcouchbasedb.cpp\<close>: libevent, caches of subscriptions and of views); message queues, sockets and command lines; the other solutions and
  projects of the repository, which are independent programs.
\<close>

end
